(* ===== verification/Prelude.thy ===== *)
theory Prelude
  imports Main "HOL-Library.AList" "HOL-Library.Char_ord"
begin

section \<open>Prelude: results, insertion-ordered dictionaries and Python strings\<close>

text \<open>
  Shared vocabulary of the development: the sum-typed results of code that raises, the
  insertion-ordered dictionaries of Python as association lists, and the string methods
  \<open>str.strip\<close> and \<open>str.upper\<close> on ASCII text.  The interface \<open>keyed_store\<close> states what a
  client may rely on after a dictionary write; it is interpreted on the association lists
  that every component below uses.
\<close>

named_theorems acash_simps \<open>characteristic equations of the modelled operations\<close>

subsection \<open>Results\<close>

text \<open>A call that raises is \<open>Inl\<close> of the exception, a call that returns is \<open>Inr\<close>.\<close>

definition rbind :: "'e + 'a \<Rightarrow> ('a \<Rightarrow> 'e + 'b) \<Rightarrow> 'e + 'b" where
  "rbind r f = (case r of Inl e \<Rightarrow> Inl e | Inr a \<Rightarrow> f a)"

lemma rbind_simps [simp]:
  "rbind (Inl e) f = Inl e"
  "rbind (Inr a) f = f a"
  by (simp_all add: rbind_def)

lemma rbind_Inr_iff: "rbind r f = Inr b \<longleftrightarrow> (\<exists>a. r = Inr a \<and> f a = Inr b)"
  by (cases r) auto

lemma rbind_InrE [elim]:
  assumes "rbind r f = Inr b"
  obtains a where "r = Inr a" and "f a = Inr b"
  using assms by (auto simp: rbind_Inr_iff)

text \<open>A raise guarded by a condition: \<open>if bad: raise e\<close>, then the rest of the body.\<close>

definition raise_if :: "bool \<Rightarrow> 'e \<Rightarrow> 'e + 'a \<Rightarrow> 'e + 'a" where
  "raise_if bad e rest = (if bad then Inl e else rest)"

lemma raise_if_simps [simp]:
  "raise_if True e r = Inl e"
  "raise_if False e r = r"
  by (simp_all add: raise_if_def)

lemma raise_if_Inr_iff [simp]: "raise_if bad e r = Inr a \<longleftrightarrow> \<not> bad \<and> r = Inr a"
  by (simp add: raise_if_def)

subsection \<open>Lists related element by element\<close>

lemma list_all2_transfer:
  assumes "list_all2 S xs ys" and "list_all2 R xs zs"
    and "\<And>x y z. x \<in> set xs \<Longrightarrow> y \<in> set ys \<Longrightarrow> S x y \<Longrightarrow> R x z \<Longrightarrow> Q y z"
  shows "list_all2 Q ys zs"
  using assms
proof (induction xs ys arbitrary: zs rule: list_all2_induct)
  case (Cons x xs y ys)
  then obtain z zs' where "zs = z # zs'" "R x z" "list_all2 R xs zs'"
    by (auto simp: list_all2_Cons1)
  moreover have "list_all2 Q ys zs'"
    by (rule Cons.IH [OF \<open>list_all2 R xs zs'\<close> Cons.prems(2)]) simp_all
  moreover have "Q y z"
    by (rule Cons.prems(2) [of x]) (simp_all add: Cons.hyps \<open>R x z\<close>)
  ultimately show ?case by (simp add: \<open>zs = z # zs'\<close>)
qed simp

lemma list_all2_all:
  "list_all2 R xs js \<Longrightarrow> (\<And>x j. x \<in> set xs \<Longrightarrow> R x j \<Longrightarrow> Q j) \<Longrightarrow> \<forall>j \<in> set js. Q j"
  by (induction rule: list_all2_induct) auto

subsection \<open>Insertion-ordered dictionaries\<close>

text \<open>
  A Python dictionary iterates in insertion order, and overwriting a key keeps its place.
  That is exactly \<open>AList.update\<close>, so dictionaries whose iteration order matters (sums of
  rounded decimals are order dependent) are association lists.
\<close>

type_synonym ('k, 'v) dict = "('k \<times> 'v) list"

definition dict_get :: "('k, 'v) dict \<Rightarrow> 'k \<Rightarrow> 'v option" where
  "dict_get d k = map_of d k"

definition dict_put :: "'k \<Rightarrow> 'v \<Rightarrow> ('k, 'v) dict \<Rightarrow> ('k, 'v) dict" where
  "dict_put k v d = AList.update k v d"

definition dict_wf :: "('k, 'v) dict \<Rightarrow> bool" where
  "dict_wf d \<longleftrightarrow> distinct (map fst d)"

definition dict_values :: "('k, 'v) dict \<Rightarrow> 'v list" where
  "dict_values d = map snd d"

text \<open>What a client of a keyed store relies on.\<close>

locale keyed_store =
  fixes empty :: "'s"
    and get :: "'s \<Rightarrow> 'k \<Rightarrow> 'v option"
    and put :: "'k \<Rightarrow> 'v \<Rightarrow> 's \<Rightarrow> 's"
    and vals :: "'s \<Rightarrow> 'v list"
    and wf :: "'s \<Rightarrow> bool"
  assumes get_empty: "get empty k = None"
    and get_put: "get (put k v s) k' = (if k' = k then Some v else get s k')"
    and wf_empty: "wf empty"
    and wf_put: "wf s \<Longrightarrow> wf (put k v s)"
    and vals_get: "wf s \<Longrightarrow> v \<in> set (vals s) \<longleftrightarrow> (\<exists>k. get s k = Some v)"
begin

text \<open>A write is seen by the next read, and by no other key.\<close>

lemma get_put_same [simp]: "get (put k v s) k = Some v"
  by (simp add: get_put)

lemma get_put_other: "k' \<noteq> k \<Longrightarrow> get (put k v s) k' = get s k'"
  by (simp add: get_put)

text \<open>A property of every stored value survives a write of a value that has it.\<close>

lemma put_all_vals:
  assumes "wf s" and "\<forall>x \<in> set (vals s). P x" and "P v"
  shows "\<forall>x \<in> set (vals (put k v s)). P x"
proof
  fix x assume "x \<in> set (vals (put k v s))"
  then obtain k' where "get (put k v s) k' = Some x"
    using vals_get wf_put assms(1) by metis
  then show "P x"
    using assms by (metis get_put option.inject vals_get)
qed

text \<open>Folding any list of writes keeps the store well formed.\<close>

lemma wf_fold_put: "wf s \<Longrightarrow> wf (fold (\<lambda>(k, v). put k v) kvs s)"
  by (induction kvs arbitrary: s) (auto simp: wf_put)

end

lemma vals_map_of:
  "distinct (map fst d) \<Longrightarrow> v \<in> snd ` set d \<longleftrightarrow> (\<exists>k. map_of d k = Some v)"
  by (force simp: map_of_eq_Some_iff)

interpretation dict: keyed_store "[]" dict_get dict_put dict_values dict_wf
  by unfold_locales
    (auto simp: dict_get_def dict_put_def dict_values_def dict_wf_def update_conv'
      distinct_update vals_map_of)

lemma dict_get_Nil [simp]: "dict_get [] k = None"
  by (simp add: dict_get_def)

lemma dict_get_Cons [simp]:
  "dict_get ((k, v) # d) k' = (if k' = k then Some v else dict_get d k')"
  by (simp add: dict_get_def)

lemma dict_put_Nil [simp]: "dict_put k v [] = [(k, v)]"
  by (simp add: dict_put_def)

lemma dict_put_Cons [simp]:
  "dict_put k v ((k', v') # d) = (if k' = k then (k, v) # d else (k', v') # dict_put k v d)"
  by (simp add: dict_put_def)

lemma dict_put_fresh: "dict_get d k = None \<Longrightarrow> dict_put k v d = d @ [(k, v)]"
  by (induction d) (auto split: if_splits)

lemma dict_put_overwrite:
  "dict_wf d \<Longrightarrow> dict_get d k = Some v0
    \<Longrightarrow> dict_put k v d = map (\<lambda>kv. if fst kv = k then (k, v) else kv) d"
proof (induction d)
  case (Cons kv d)
  have "map (\<lambda>kv. if fst kv = k then (k, v) else kv) d = d" if "k \<notin> fst ` set d"
    using that by (intro map_idI) (metis imageI)
  with Cons show ?case
    by (cases kv) (auto simp: dict_wf_def split: if_splits)
qed simp

lemma dict_get_put: "dict_get (dict_put k v d) k' = (if k' = k then Some v else dict_get d k')"
  by (rule dict.get_put)

lemma dict_wf_put: "dict_wf d \<Longrightarrow> dict_wf (dict_put k v d)"
  by (rule dict.wf_put)

lemma dict_values_get: "dict_wf d \<Longrightarrow> v \<in> set (dict_values d) \<longleftrightarrow> (\<exists>k. dict_get d k = Some v)"
  by (rule dict.vals_get)

lemma dict_get_in_values: "dict_get d k = Some v \<Longrightarrow> v \<in> set (dict_values d)"
  by (force simp: dict_get_def dict_values_def dest: map_of_SomeD)

lemma set_dict_put_subset: "set (dict_values (dict_put k v d)) \<subseteq> insert v (set (dict_values d))"
proof (induction d)
  case Nil
  then show ?case by (simp add: dict_values_def)
next
  case (Cons kv d)
  then show ?case by (cases kv) (auto simp: dict_values_def image_iff)
qed

subsection \<open>Running fallible state machines\<close>

text \<open>
  Two drivers of a step function that may refuse an input: \<open>run_strict\<close> stops at the first
  refusal, \<open>run_lossy\<close> keeps the state and goes on (a caller that catches the exception).
\<close>

fun run_strict :: "('s \<Rightarrow> 'i \<Rightarrow> 'x + 's) \<Rightarrow> 's \<Rightarrow> 'i list \<Rightarrow> 'x + 's" where
  "run_strict step s [] = Inr s"
| "run_strict step s (i # is) = rbind (step s i) (\<lambda>s'. run_strict step s' is)"

fun run_lossy :: "('s \<Rightarrow> 'i \<Rightarrow> 'x + 's) \<Rightarrow> 's \<Rightarrow> 'i list \<Rightarrow> 's" where
  "run_lossy step s [] = s"
| "run_lossy step s (i # is) =
     run_lossy step (case step s i of Inl _ \<Rightarrow> s | Inr s' \<Rightarrow> s') is"

lemma run_strict_append:
  "run_strict step s (is @ js) = rbind (run_strict step s is) (\<lambda>s'. run_strict step s' js)"
  by (induction "is" arbitrary: s) (auto simp: rbind_def split: sum.splits)

lemma run_lossy_append: "run_lossy step s (is @ js) = run_lossy step (run_lossy step s is) js"
  by (induction "is" arbitrary: s) auto

lemma run_strict_lossy: "run_strict step s is = Inr s' \<Longrightarrow> run_lossy step s is = s'"
  by (induction "is" arbitrary: s) (auto simp: rbind_Inr_iff)

text \<open>Induction over an accepted run, from its last input.\<close>

lemma run_strict_induct [consumes 1, case_names Start Step]:
  assumes "run_strict step s is = Inr t"
    and "P [] s"
    and "\<And>is i u t. \<lbrakk> run_strict step s is = Inr u; P is u; step u i = Inr t \<rbrakk> \<Longrightarrow> P (is @ [i]) t"
  shows "P is t"
  using assms(1)
proof (induction "is" arbitrary: t rule: rev_induct)
  case Nil
  then show ?case using assms(2) by simp
next
  case (snoc i "is")
  then show ?case using assms(3) by (auto simp: run_strict_append rbind_Inr_iff)
qed

lemma run_lossy_invariant:
  assumes "\<And>s i s'. P s \<Longrightarrow> step s i = Inr s' \<Longrightarrow> P s'" and "P s"
  shows "P (run_lossy step s is)"
  using assms(2) by (induction "is" arbitrary: s) (auto split: sum.splits intro: assms(1))

lemma run_lossy_invariant_on:
  assumes "P s" and "\<forall>i \<in> set is. Q i"
    and "\<And>s i s'. P s \<Longrightarrow> Q i \<Longrightarrow> step s i = Inr s' \<Longrightarrow> P s'"
  shows "P (run_lossy step s is)"
  using assms(1,2)
proof (induction "is" arbitrary: s)
  case (Cons i "is")
  then show ?case using assms(3) [of s i] by (cases "step s i") simp_all
qed simp

text \<open>What a state machine with terminal states promises: nothing leaves a terminal state.\<close>

locale absorbing_machine =
  fixes step :: "'s \<Rightarrow> 'i \<Rightarrow> 'x + 's"
    and terminal :: "'s \<Rightarrow> bool"
  assumes absorbing: "terminal s \<Longrightarrow> \<exists>x. step s i = Inl x"
begin

lemma run_lossy_terminal: "terminal s \<Longrightarrow> run_lossy step s is = s"
proof (induction "is")
  case (Cons i "is")
  then obtain x where "step s i = Inl x" using absorbing by blast
  then show ?case using Cons by simp
qed simp

text \<open>However the inputs continue, the first terminal state reached is the final one.\<close>

lemma first_terminal_is_final:
  "terminal (run_lossy step s is) \<Longrightarrow> run_lossy step s (is @ js) = run_lossy step s is"
  by (simp add: run_lossy_append run_lossy_terminal)

lemma run_strict_terminal:
  assumes "run_strict step s is = Inr s'" and "terminal s"
  shows "is = []"
proof (cases "is")
  case (Cons i js)
  then show ?thesis using assms absorbing [of s i] by auto
qed simp

text \<open>In an accepted run only the last state may be terminal.\<close>

lemma terminal_only_last:
  assumes "run_strict step s (is @ js) = Inr t" and "run_strict step s is = Inr u" and "terminal u"
  shows "js = []"
  using assms run_strict_terminal by (auto simp: run_strict_append)

end

subsection \<open>Strings\<close>

text \<open>
  Text is ASCII.  \<open>str.strip()\<close> drops leading and trailing characters for which
  \<open>str.isspace\<close> holds: tab, newline, vertical tab, form feed, carriage return, the four
  separators 28 to 31 and the space.  \<open>str.upper()\<close> maps a-z to A-Z.
\<close>

definition is_space :: "char \<Rightarrow> bool" where
  "is_space c \<longleftrightarrow> (let n = (of_char c :: nat) in (9 \<le> n \<and> n \<le> 13) \<or> (28 \<le> n \<and> n \<le> 32))"

definition strip :: "string \<Rightarrow> string" where
  "strip s = rev (dropWhile is_space (rev (dropWhile is_space s)))"

definition upper_char :: "char \<Rightarrow> char" where
  "upper_char c = (let n = (of_char c :: nat) in if 97 \<le> n \<and> n \<le> 122 then char_of (n - 32) else c)"

definition upper :: "string \<Rightarrow> string" where
  "upper s = map upper_char s"

text \<open>\<open>not v or not v.strip()\<close>, the blank test of the validators.\<close>

definition blank :: "string \<Rightarrow> bool" where
  "blank s \<longleftrightarrow> s = [] \<or> strip s = []"

lemma strip_Nil [simp]: "strip [] = []"
  by (simp add: strip_def)

lemma char_of_bits:
  "char_of (n :: nat) = Char (odd n) (odd (n div 2)) (odd (n div 4)) (odd (n div 8)) (odd (n div 16))
     (odd (n div 32)) (odd (n div 64)) (odd (n div 128))"
  by (simp add: char_of_def bit_iff_odd)

lemmas string_eval = blank_def strip_def is_space_def upper_def upper_char_def char_of_bits

lemma blank_iff: "blank s \<longleftrightarrow> strip s = []"
  by (auto simp: blank_def)

lemma strip_eq_Nil_iff: "strip s = [] \<longleftrightarrow> (\<forall>c \<in> set s. is_space c)"
proof -
  have "(\<forall>x \<in> set (dropWhile is_space s). is_space x) \<longleftrightarrow> (\<forall>x \<in> set s. is_space x)"
    by (induction s) auto
  then show ?thesis by (simp add: strip_def dropWhile_eq_Nil_conv)
qed

lemma dropWhile_rev_hd:
  assumes "xs = [] \<or> \<not> P (hd xs)"
  shows "dropWhile P (rev (dropWhile P (rev xs))) = rev (dropWhile P (rev xs))"
proof (cases "rev (dropWhile P (rev xs))")
  case Nil
  then show ?thesis by (simp only: dropWhile.simps)
next
  case (Cons y ys)
  obtain zs where "xs = y # ys @ zs"
  proof -
    have "rev xs = takeWhile P (rev xs) @ dropWhile P (rev xs)" by simp
    then have "xs = rev (dropWhile P (rev xs)) @ rev (takeWhile P (rev xs))"
      by (metis rev_append rev_rev_ident)
    then show thesis using Cons that by simp
  qed
  then have "\<not> P y" using assms by auto
  then show ?thesis using Cons by simp
qed

lemma strip_idem [simp]: "strip (strip s) = strip s"
proof -
  let ?t = "dropWhile is_space s"
  have "?t = [] \<or> \<not> is_space (hd ?t)"
    using hd_dropWhile by blast
  then have "dropWhile is_space (strip s) = strip s"
    unfolding strip_def by (rule dropWhile_rev_hd)
  moreover have "dropWhile is_space (rev (strip s)) = rev (strip s)"
    by (simp add: strip_def)
  ultimately show ?thesis by (simp add: strip_def)
qed

lemma upper_Nil [simp]: "upper [] = []"
  by (simp add: upper_def)

lemma upper_char_idem [simp]: "upper_char (upper_char c) = upper_char c"
  by (auto simp: upper_char_def Let_def)

lemma upper_idem [simp]: "upper (upper s) = upper s"
  by (simp add: upper_def)

text \<open>The decimal text of a natural number, as an f-string prints it.\<close>

fun str_nat :: "nat \<Rightarrow> string" where
  "str_nat n = (if n < 10 then [char_of (48 + n)] else str_nat (n div 10) @ [char_of (48 + n mod 10)])"

declare str_nat.simps [simp del]

text \<open>\<open>sep.join(xs)\<close>.\<close>

fun join_with :: "string \<Rightarrow> string list \<Rightarrow> string" where
  "join_with sep [] = []"
| "join_with sep [x] = x"
| "join_with sep (x # y # xs) = x @ sep @ join_with sep (y # xs)"

text \<open>The all-zero digest that starts every hash chain.\<close>

definition zero_digest :: string where
  "zero_digest = replicate 64 (CHR ''0'')"

end
