(* ===== verification/OrderLifecycle.thy ===== *)
theory OrderLifecycle
  imports Prelude
begin

section \<open>The order execution state machine\<close>

text \<open>
  \<open>execution/state_machine.py\<close> with the lifecycle enum of \<open>execution/schema.py\<close>: the one
  transition authority of the execution layer.  \<open>transition_order\<close> is the code's function;
  \<open>contract\<close> is the normative table of \<open>docs/phase7/execution_state_machine.md\<close> (sections 2.3
  and 4) as a step relation, which the function refines exactly.  The locale
  \<open>absorbing_machine\<close> is the contract every fallible state machine with terminal states
  offers its drivers; it is interpreted on \<open>transition_order\<close>.
\<close>

datatype order_lifecycle_state =
    OL_INTENT | OL_SUBMITTED | OL_CANCEL_REQUESTED | OL_ACKNOWLEDGED | OL_PARTIALLY_FILLED
  | OL_FILLED | OL_CANCELLED | OL_REJECTED | OL_EXPIRED | OL_UNKNOWN

datatype execution_event =
    EV_SUBMIT | EV_ACK | EV_REJECT | EV_PARTIAL_FILL | EV_FILL | EV_CANCEL_REQUEST
  | EV_CANCEL_ACK | EV_CANCEL_REJECT | EV_EXPIRY | EV_CONNECTION_LOST | EV_RECONCILE

text \<open>The enum's \<open>.value\<close> strings.\<close>

fun state_value :: "order_lifecycle_state \<Rightarrow> string" where
  "state_value OL_INTENT = ''INTENT''"
| "state_value OL_SUBMITTED = ''SUBMITTED''"
| "state_value OL_CANCEL_REQUESTED = ''CANCEL_REQUESTED''"
| "state_value OL_ACKNOWLEDGED = ''ACKNOWLEDGED''"
| "state_value OL_PARTIALLY_FILLED = ''PARTIALLY_FILLED''"
| "state_value OL_FILLED = ''FILLED''"
| "state_value OL_CANCELLED = ''CANCELLED''"
| "state_value OL_REJECTED = ''REJECTED''"
| "state_value OL_EXPIRED = ''EXPIRED''"
| "state_value OL_UNKNOWN = ''UNKNOWN''"

text \<open>\<open>ExecutionStateError\<close>, one constructor per raise in the code.\<close>

datatype execution_state_error =
    TerminalAbsorbing order_lifecycle_state execution_event
  | EvidenceMissing
  | UnknownBoundary execution_event
  | NotInTable order_lifecycle_state execution_event
  | EvidenceMalformed string

definition terminal_states :: "order_lifecycle_state list" where
  "terminal_states = [OL_FILLED, OL_CANCELLED, OL_REJECTED, OL_EXPIRED]"

definition is_terminal :: "order_lifecycle_state \<Rightarrow> bool" where
  "is_terminal s \<longleftrightarrow> s \<in> set terminal_states"

lemma is_terminal_simps [simp]:
  "is_terminal s \<longleftrightarrow> s = OL_FILLED \<or> s = OL_CANCELLED \<or> s = OL_REJECTED \<or> s = OL_EXPIRED"
  by (simp add: is_terminal_def terminal_states_def)

subsection \<open>The transition function\<close>

definition transitions ::
    "((order_lifecycle_state \<times> execution_event) \<times> order_lifecycle_state) list" where
  "transitions =
    [((OL_INTENT, EV_SUBMIT), OL_SUBMITTED),
     ((OL_SUBMITTED, EV_ACK), OL_ACKNOWLEDGED),
     ((OL_SUBMITTED, EV_REJECT), OL_REJECTED),
     ((OL_SUBMITTED, EV_CONNECTION_LOST), OL_UNKNOWN),
     ((OL_ACKNOWLEDGED, EV_PARTIAL_FILL), OL_PARTIALLY_FILLED),
     ((OL_ACKNOWLEDGED, EV_FILL), OL_FILLED),
     ((OL_ACKNOWLEDGED, EV_CANCEL_REQUEST), OL_CANCEL_REQUESTED),
     ((OL_ACKNOWLEDGED, EV_REJECT), OL_REJECTED),
     ((OL_ACKNOWLEDGED, EV_EXPIRY), OL_EXPIRED),
     ((OL_ACKNOWLEDGED, EV_CONNECTION_LOST), OL_UNKNOWN),
     ((OL_PARTIALLY_FILLED, EV_PARTIAL_FILL), OL_PARTIALLY_FILLED),
     ((OL_PARTIALLY_FILLED, EV_FILL), OL_FILLED),
     ((OL_PARTIALLY_FILLED, EV_CANCEL_REQUEST), OL_CANCEL_REQUESTED),
     ((OL_PARTIALLY_FILLED, EV_EXPIRY), OL_EXPIRED),
     ((OL_PARTIALLY_FILLED, EV_CONNECTION_LOST), OL_UNKNOWN),
     ((OL_CANCEL_REQUESTED, EV_CANCEL_ACK), OL_CANCELLED),
     ((OL_CANCEL_REQUESTED, EV_CANCEL_REJECT), OL_ACKNOWLEDGED),
     ((OL_CANCEL_REQUESTED, EV_FILL), OL_FILLED),
     ((OL_CANCEL_REQUESTED, EV_CONNECTION_LOST), OL_UNKNOWN),
     ((OL_CANCEL_REQUESTED, EV_RECONCILE), OL_UNKNOWN),
     ((OL_UNKNOWN, EV_RECONCILE), OL_UNKNOWN),
     ((OL_UNKNOWN, EV_CONNECTION_LOST), OL_UNKNOWN)]"

record execution_transition =
  new_state :: order_lifecycle_state
  now_terminal :: bool
  dispute :: bool
  evidence_required :: bool

definition resolve_reconcile_target :: "string \<Rightarrow> execution_state_error + order_lifecycle_state" where
  "resolve_reconcile_target evidence =
     (let token = upper (strip evidence) in
      case map_of [(''FILLED'', OL_FILLED), (''CANCELLED'', OL_CANCELLED),
                   (''REJECTED'', OL_REJECTED), (''EXPIRED'', OL_EXPIRED),
                   (''UNKNOWN'', OL_UNKNOWN)] token of
        None \<Rightarrow> Inl (EvidenceMalformed evidence)
      | Some target \<Rightarrow> Inr target)"

definition transition_order ::
    "order_lifecycle_state \<Rightarrow> execution_event \<Rightarrow> string option
     \<Rightarrow> execution_state_error + execution_transition" where
  "transition_order state event evidence =
     (if is_terminal state then Inl (TerminalAbsorbing state event)
      else if state = OL_UNKNOWN then
        (if event = EV_RECONCILE then
           (case evidence of
              None \<Rightarrow> Inl EvidenceMissing
            | Some ev \<Rightarrow>
                if strip ev = [] then Inl EvidenceMissing
                else rbind (resolve_reconcile_target ev) (\<lambda>target.
                  if target = OL_UNKNOWN
                  then Inr \<lparr>new_state = OL_UNKNOWN, now_terminal = False, dispute = True,
                            evidence_required = True\<rparr>
                  else Inr \<lparr>new_state = target, now_terminal = True, dispute = False,
                            evidence_required = True\<rparr>))
         else if event = EV_CONNECTION_LOST
           then Inr \<lparr>new_state = OL_UNKNOWN, now_terminal = False, dispute = True,
                     evidence_required = False\<rparr>
         else Inl (UnknownBoundary event))
      else (case map_of transitions (state, event) of
              None \<Rightarrow> Inl (NotInTable state event)
            | Some target \<Rightarrow> Inr \<lparr>new_state = target, now_terminal = is_terminal target,
                                  dispute = False, evidence_required = False\<rparr>))"

text \<open>The transition function as a step function over states, for the drivers of the prelude.\<close>

definition order_step ::
    "order_lifecycle_state \<Rightarrow> execution_event \<times> string option
     \<Rightarrow> execution_state_error + order_lifecycle_state" where
  "order_step s i = rbind (transition_order s (fst i) (snd i)) (\<lambda>t. Inr (new_state t))"

subsection \<open>The normative contract\<close>

text \<open>What evidence names: the verified outcome of the reconciliation engine.\<close>

definition evidence_names :: "string option \<Rightarrow> order_lifecycle_state \<Rightarrow> bool" where
  "evidence_names ev s \<longleftrightarrow> (\<exists>t. ev = Some t \<and> upper (strip t) = state_value s)"

inductive contract ::
    "order_lifecycle_state \<Rightarrow> execution_event \<Rightarrow> string option \<Rightarrow> order_lifecycle_state \<Rightarrow> bool" where
  row1: "contract OL_INTENT EV_SUBMIT ev OL_SUBMITTED"
| row2: "contract OL_SUBMITTED EV_ACK ev OL_ACKNOWLEDGED"
| row3: "contract OL_SUBMITTED EV_REJECT ev OL_REJECTED"
| row4: "contract OL_SUBMITTED EV_CONNECTION_LOST ev OL_UNKNOWN"
| row5: "contract OL_ACKNOWLEDGED EV_PARTIAL_FILL ev OL_PARTIALLY_FILLED"
| row6: "contract OL_ACKNOWLEDGED EV_FILL ev OL_FILLED"
| row7: "contract OL_ACKNOWLEDGED EV_CANCEL_REQUEST ev OL_CANCEL_REQUESTED"
| row8: "contract OL_ACKNOWLEDGED EV_REJECT ev OL_REJECTED"
| row9: "contract OL_ACKNOWLEDGED EV_EXPIRY ev OL_EXPIRED"
| row10: "contract OL_ACKNOWLEDGED EV_CONNECTION_LOST ev OL_UNKNOWN"
| row11: "contract OL_PARTIALLY_FILLED EV_PARTIAL_FILL ev OL_PARTIALLY_FILLED"
| row12: "contract OL_PARTIALLY_FILLED EV_FILL ev OL_FILLED"
| row13: "contract OL_PARTIALLY_FILLED EV_CANCEL_REQUEST ev OL_CANCEL_REQUESTED"
| row14: "contract OL_PARTIALLY_FILLED EV_EXPIRY ev OL_EXPIRED"
| row15: "contract OL_PARTIALLY_FILLED EV_CONNECTION_LOST ev OL_UNKNOWN"
| row16: "contract OL_CANCEL_REQUESTED EV_CANCEL_ACK ev OL_CANCELLED"
| row17: "contract OL_CANCEL_REQUESTED EV_CANCEL_REJECT ev OL_ACKNOWLEDGED"
| row18: "contract OL_CANCEL_REQUESTED EV_FILL ev OL_FILLED"
| row19: "contract OL_CANCEL_REQUESTED EV_CONNECTION_LOST ev OL_UNKNOWN"
| row20: "contract OL_CANCEL_REQUESTED EV_RECONCILE ev OL_UNKNOWN"
| verified: "is_terminal s \<or> s = OL_UNKNOWN \<Longrightarrow> evidence_names ev s
    \<Longrightarrow> contract OL_UNKNOWN EV_RECONCILE ev s"
| row25: "contract OL_UNKNOWN EV_CONNECTION_LOST ev OL_UNKNOWN"

inductive_cases contract_from: "contract s e ev s'"

inductive_simps contract_simps:
  "contract OL_INTENT e ev s'" "contract OL_SUBMITTED e ev s'" "contract OL_ACKNOWLEDGED e ev s'"
  "contract OL_PARTIALLY_FILLED e ev s'" "contract OL_CANCEL_REQUESTED e ev s'"
  "contract OL_UNKNOWN e ev s'" "contract OL_FILLED e ev s'" "contract OL_CANCELLED e ev s'"
  "contract OL_REJECTED e ev s'" "contract OL_EXPIRED e ev s'"


subsection \<open>The function refines the contract\<close>

lemma map_of_transitions [simp]:
  "map_of transitions (s, e) = Some s' \<longleftrightarrow> ((s, e), s') \<in> set transitions"
  by (rule map_of_eq_Some_iff) (simp add: transitions_def)

lemma map_of_transitions_None [simp]:
  "map_of transitions (s, e) = None \<longleftrightarrow> (\<forall>s'. ((s, e), s') \<notin> set transitions)"
  by (metis map_of_transitions not_Some_eq)

lemma state_value_inject [simp]: "state_value s = state_value s' \<longleftrightarrow> s = s'"
  by (cases s; cases s') simp_all

lemma resolve_Inr_iff:
  "resolve_reconcile_target ev = Inr s
    \<longleftrightarrow> (is_terminal s \<or> s = OL_UNKNOWN) \<and> upper (strip ev) = state_value s"
  by (cases s) (auto simp: resolve_reconcile_target_def Let_def split: option.splits if_splits)

lemma unknown_reconcile:
  "order_step OL_UNKNOWN (EV_RECONCILE, ev) = Inr s'
    \<longleftrightarrow> (is_terminal s' \<or> s' = OL_UNKNOWN) \<and> evidence_names ev s'"
proof (cases ev)
  case None
  then show ?thesis by (simp add: order_step_def transition_order_def evidence_names_def)
next
  case (Some t)
  have ne: "strip t \<noteq> []" if "upper (strip t) = state_value s'"
    using that by (cases s') auto
  have "order_step OL_UNKNOWN (EV_RECONCILE, ev) = Inr s'
      \<longleftrightarrow> strip t \<noteq> [] \<and> resolve_reconcile_target t = Inr s'"
    using Some
    by (cases "resolve_reconcile_target t") (simp_all add: order_step_def transition_order_def)
  then show ?thesis
    using Some ne by (auto simp only: resolve_Inr_iff evidence_names_def)
qed

lemma unknown_step:
  "order_step OL_UNKNOWN (e, ev) = Inr s' \<longleftrightarrow> contract OL_UNKNOWN e ev s'"
  by (cases e) (simp_all only: unknown_reconcile contract_simps,
    auto simp: order_step_def transition_order_def)

lemma known_step:
  assumes "s \<noteq> OL_UNKNOWN"
  shows "order_step s (e, ev) = Inr s' \<longleftrightarrow> contract s e ev s'"
  using assms
  by (cases s) (auto simp: order_step_def transition_order_def contract_simps rbind_Inr_iff
      transitions_def split: option.splits)

lemma order_step_contract: "order_step s (e, ev) = Inr s' \<longleftrightarrow> contract s e ev s'"
  by (cases "s = OL_UNKNOWN") (simp_all add: unknown_step known_step)

lemma transition_contract: "transition_order s e ev = Inr t \<Longrightarrow> contract s e ev (new_state t)"
  unfolding order_step_contract [symmetric] by (simp add: order_step_def)

subsection \<open>Terminal states absorb\<close>

lemma terminal_raises: "is_terminal s \<Longrightarrow> transition_order s e ev = Inl (TerminalAbsorbing s e)"
  by (simp only: transition_order_def if_True)

interpretation lifecycle: absorbing_machine order_step is_terminal
  by unfold_locales (auto simp: order_step_def terminal_raises simp del: is_terminal_simps)

text \<open>The broker event that confirms each terminal outcome.\<close>

fun confirms :: "execution_event \<Rightarrow> order_lifecycle_state \<Rightarrow> bool" where
  "confirms EV_FILL s \<longleftrightarrow> s = OL_FILLED"
| "confirms EV_CANCEL_ACK s \<longleftrightarrow> s = OL_CANCELLED"
| "confirms EV_REJECT s \<longleftrightarrow> s = OL_REJECTED"
| "confirms EV_EXPIRY s \<longleftrightarrow> s = OL_EXPIRED"
| "confirms _ s \<longleftrightarrow> False"

lemma contract_into_terminal:
  "contract s e ev s' \<Longrightarrow> is_terminal s'
    \<Longrightarrow> confirms e s' \<or> s = OL_UNKNOWN \<and> e = EV_RECONCILE \<and> evidence_names ev s'"
  by (erule contract.cases) simp_all

text \<open>What a history must contain for the order to be where it is.\<close>

definition history_justifies ::
    "(execution_event \<times> string option) list \<Rightarrow> order_lifecycle_state \<Rightarrow> bool" where
  "history_justifies h s \<longleftrightarrow>
     (s \<noteq> OL_INTENT \<longrightarrow> EV_SUBMIT \<in> fst ` set h) \<and>
     (s \<noteq> OL_INTENT \<and> s \<noteq> OL_SUBMITTED \<and> EV_CONNECTION_LOST \<notin> fst ` set h
        \<longrightarrow> EV_ACK \<in> fst ` set h \<or> EV_REJECT \<in> fst ` set h) \<and>
     (s = OL_CANCEL_REQUESTED \<longrightarrow> EV_CANCEL_REQUEST \<in> fst ` set h) \<and>
     (s = OL_UNKNOWN \<longrightarrow> EV_CONNECTION_LOST \<in> fst ` set h
        \<or> EV_CANCEL_REQUEST \<in> fst ` set h \<and> EV_RECONCILE \<in> fst ` set h)"

lemma history_justifies_step:
  "contract s e ev s' \<Longrightarrow> history_justifies h s \<Longrightarrow> history_justifies (h @ [(e, ev)]) s'"
  by (erule contract.cases) (auto simp: history_justifies_def)

lemma run_history:
  assumes "run_strict order_step OL_INTENT h = Inr s"
  shows "history_justifies h s"
  using assms
proof (induction rule: run_strict_induct)
  case Start
  then show ?case by (simp add: history_justifies_def)
next
  case (Step "is" i u t)
  then show ?case
    by (cases i) (auto simp: order_step_contract intro: history_justifies_step)
qed

text \<open>C5: The transition authority implements the normative contract exactly: the function
  accepts an event in a state precisely when the contract's table has the row (leaving
  \<open>UNKNOWN\<close> only on evidence that names the outcome), the result is the row's target, it is
  flagged terminal exactly when the target is a terminal state, and it is flagged a dispute
  exactly when an order in \<open>UNKNOWN\<close> stays there.\<close>

theorem transition_order_refines_contract:
  "((\<exists>t. transition_order s e ev = Inr t \<and> new_state t = s') \<longleftrightarrow> contract s e ev s')
   \<and> (case transition_order s e ev of
        Inl _ \<Rightarrow> (\<nexists>s'. contract s e ev s')
      | Inr t \<Rightarrow> now_terminal t = is_terminal (new_state t)
               \<and> dispute t = (s = OL_UNKNOWN \<and> new_state t = OL_UNKNOWN))"
proof -
  have step: "order_step s (e, ev) = Inr s' \<longleftrightarrow>
      (\<exists>t. transition_order s e ev = Inr t \<and> new_state t = s')" for s'
    by (auto simp: order_step_def rbind_Inr_iff)
  have flags: "now_terminal t = is_terminal (new_state t)
      \<and> dispute t = (s = OL_UNKNOWN \<and> new_state t = OL_UNKNOWN)"
    if "transition_order s e ev = Inr t" for t
    using that resolve_Inr_iff unfolding transition_order_def
    by (auto simp: rbind_Inr_iff split: if_splits option.splits)
  show ?thesis
    using step order_step_contract [of s e ev] flags by (auto split: sum.splits)
qed

text \<open>Terminal states are absorbing for whole histories: a terminal state refuses every event,
  so a driver that catches the refusals ends where the order first became terminal, whatever
  events arrive later.\<close>

theorem terminal_state_is_final:
  "is_terminal (run_lossy order_step s h) \<Longrightarrow>
     run_lossy order_step s (h @ late) = run_lossy order_step s h
     \<and> (\<forall>e ev. transition_order (run_lossy order_step s h) e ev
               = Inl (TerminalAbsorbing (run_lossy order_step s h) e))"
  using lifecycle.first_terminal_is_final terminal_raises by blast

theorem terminal_state_is_final_witness:
  "run_lossy order_step OL_INTENT
     ([(EV_SUBMIT, None), (EV_ACK, None), (EV_FILL, None)] @ [(EV_CANCEL_ACK, None)]) = OL_FILLED"
proof -
  have h: "run_lossy order_step OL_INTENT [(EV_SUBMIT, None), (EV_ACK, None), (EV_FILL, None)] = OL_FILLED"
    by code_simp
  then have "is_terminal (run_lossy order_step OL_INTENT [(EV_SUBMIT, None), (EV_ACK, None), (EV_FILL, None)])"
    by simp
  from terminal_state_is_final [OF this, of "[(EV_CANCEL_ACK, None)]"] show ?thesis
    unfolding h by (rule conjunct1)
qed

text \<open>C6: No outcome without its cause.  An order that was driven from \<open>INTENT\<close> by accepted events
  and is now terminal was put there by its last event, and that event is either the broker's
  confirmation of this very outcome or a reconciliation of an \<open>UNKNOWN\<close> order whose evidence
  names it, the order having been in \<open>UNKNOWN\<close> because connectivity was lost or because a
  requested cancel was reconciled.  In particular a cancel request alone never cancels.\<close>

theorem terminal_outcome_has_cause:
  assumes "run_strict order_step OL_INTENT h = Inr s" and "is_terminal s"
  shows "\<exists>h' e ev. h = h' @ [(e, ev)] \<and> EV_SUBMIT \<in> fst ` set h'
    \<and> (confirms e s \<and> (s = OL_CANCELLED \<longrightarrow> EV_CANCEL_REQUEST \<in> fst ` set h')
       \<or> e = EV_RECONCILE \<and> evidence_names ev s
         \<and> (EV_CONNECTION_LOST \<in> fst ` set h'
            \<or> EV_CANCEL_REQUEST \<in> fst ` set h' \<and> EV_RECONCILE \<in> fst ` set h'))"
proof -
  have "h \<noteq> []" using assms by auto
  then obtain h' e ev where h: "h = h' @ [(e, ev)]"
    by (metis prod.exhaust rev_exhaust)
  obtain u where u: "run_strict order_step OL_INTENT h' = Inr u" and st: "contract u e ev s"
    using assms(1) by (auto simp: h run_strict_append rbind_Inr_iff order_step_contract)
  have just: "history_justifies h' u" using u by (rule run_history)
  have "u \<noteq> OL_INTENT" using st assms(2) by (auto simp: contract_simps)
  then have sub: "EV_SUBMIT \<in> fst ` set h'" using just by (simp add: history_justifies_def)
  have canc: "s = OL_CANCELLED \<Longrightarrow> confirms e s \<Longrightarrow> EV_CANCEL_REQUEST \<in> fst ` set h'"
    using st just by cases (simp_all add: history_justifies_def)
  have unk: "u = OL_UNKNOWN \<Longrightarrow> EV_CONNECTION_LOST \<in> fst ` set h'
      \<or> EV_CANCEL_REQUEST \<in> fst ` set h' \<and> EV_RECONCILE \<in> fst ` set h'"
    using just by (simp only: history_justifies_def)
  show ?thesis
  proof (intro exI conjI)
    show "h = h' @ [(e, ev)]" by (rule h)
    show "EV_SUBMIT \<in> fst ` set h'" by (rule sub)
    show "confirms e s \<and> (s = OL_CANCELLED \<longrightarrow> EV_CANCEL_REQUEST \<in> fst ` set h')
       \<or> e = EV_RECONCILE \<and> evidence_names ev s
         \<and> (EV_CONNECTION_LOST \<in> fst ` set h'
            \<or> EV_CANCEL_REQUEST \<in> fst ` set h' \<and> EV_RECONCILE \<in> fst ` set h')"
      using contract_into_terminal [OF st assms(2)]
    proof
      assume "confirms e s"
      then show ?thesis using canc by (intro disjI1 conjI impI)
    next
      assume "u = OL_UNKNOWN \<and> e = EV_RECONCILE \<and> evidence_names ev s"
      then show ?thesis using unk by simp
    qed
  qed
qed

theorem terminal_outcome_has_cause_witness:
  "\<exists>h' e ev. [(EV_SUBMIT, None), (EV_CONNECTION_LOST, None), (EV_RECONCILE, Some '' filled '')]
     = h' @ [(e, ev)] \<and> e = EV_RECONCILE \<and> evidence_names ev OL_FILLED"
proof -
  have "run_strict order_step OL_INTENT
      [(EV_SUBMIT, None), (EV_CONNECTION_LOST, None), (EV_RECONCILE, Some '' filled '')] = Inr OL_FILLED"
    by code_simp
  from terminal_outcome_has_cause [OF this] show ?thesis by auto
qed

text \<open>A rejected cancel forgets that the order was partially filled: the contract sends it to
  \<open>ACKNOWLEDGED\<close>, from where the broker may still reject it.\<close>

lemma partially_filled_order_can_be_rejected:
  "run_strict order_step OL_INTENT
     [(EV_SUBMIT, None), (EV_ACK, None), (EV_PARTIAL_FILL, None), (EV_CANCEL_REQUEST, None),
      (EV_CANCEL_REJECT, None), (EV_REJECT, None)] = Inr OL_REJECTED"
  by code_simp

text \<open>\<open>UNKNOWN\<close> is also reached without any loss of connectivity.\<close>

lemma unknown_without_connection_loss:
  "run_strict order_step OL_INTENT
     [(EV_SUBMIT, None), (EV_ACK, None), (EV_CANCEL_REQUEST, None), (EV_RECONCILE, None)]
   = Inr OL_UNKNOWN"
  by code_simp

end
