(* ===== verification/Json.thy ===== *)
theory Json
  imports Prelude "HOL-Library.List_Lexorder"
begin

section \<open>Canonical JSON text\<close>

text \<open>
  \<open>json.dumps\<close> as the code calls it: \<open>sort_keys=True\<close>, separators \<open>,\<close> and \<open>:\<close> without
  blanks, \<open>ensure_ascii=True\<close>, \<open>allow_nan=False\<close>.  A character is a code point below 256.  A
  finite float carries the text of its \<open>repr\<close>.  The result of the theory is \<open>dumps_inject\<close>: two
  canonical trees with the same text are the same tree, so a digest of the text binds the tree.
\<close>

datatype json =
    JNull
  | JBool bool
  | JInt int
  | JFloat string
  | JStr string
  | JList "json list"
  | JObj "(string \<times> json) list"

subsection \<open>Rendering\<close>

definition str_int :: "int \<Rightarrow> string" where
  "str_int i = (if i < 0 then CHR ''-'' # str_nat (nat (- i)) else str_nat (nat i))"

definition pad_left :: "nat \<Rightarrow> string \<Rightarrow> string" where
  "pad_left w s = replicate (w - length s) (CHR ''0'') @ s"

definition hex_digit :: "nat \<Rightarrow> char" where
  "hex_digit n = ''0123456789abcdef'' ! n"

definition esc_char :: "char \<Rightarrow> string" where
  "esc_char c =
     (if c = CHR 0x22 then [CHR 0x5C, CHR 0x22]
      else if c = CHR 0x5C then [CHR 0x5C, CHR 0x5C]
      else if c = CHR 0x0A then [CHR 0x5C, CHR ''n'']
      else if c = CHR 0x0D then [CHR 0x5C, CHR ''r'']
      else if c = CHR 0x09 then [CHR 0x5C, CHR ''t'']
      else if c = CHR 0x0C then [CHR 0x5C, CHR ''f'']
      else if c = CHR 0x08 then [CHR 0x5C, CHR ''b'']
      else let n = (of_char c :: nat) in
        if 32 \<le> n \<and> n \<le> 126 then [c]
        else [CHR 0x5C, CHR ''u'', CHR ''0'', CHR ''0'', hex_digit (n div 16), hex_digit (n mod 16)])"

definition quote_str :: "string \<Rightarrow> string" where
  "quote_str s = CHR 0x22 # concat (map esc_char s) @ [CHR 0x22]"

fun join_comma :: "string list \<Rightarrow> string" where
  "join_comma [] = []"
| "join_comma [x] = x"
| "join_comma (x # y # xs) = x @ CHR '','' # join_comma (y # xs)"

fun dumps :: "json \<Rightarrow> string" where
  "dumps JNull = ''null''"
| "dumps (JBool b) = (if b then ''true'' else ''false'')"
| "dumps (JInt i) = str_int i"
| "dumps (JFloat t) = t"
| "dumps (JStr s) = quote_str s"
| "dumps (JList xs) = CHR ''['' # join_comma (map dumps xs) @ '']''"
| "dumps (JObj kvs) =
     CHR ''{'' # join_comma (map snd (sort_key fst
       (map (\<lambda>(k, v). (k, quote_str k @ CHR '':'' # dumps v)) kvs))) @ ''}''"

subsection \<open>Canonical trees\<close>

definition is_digit :: "char \<Rightarrow> bool" where
  "is_digit c \<longleftrightarrow> 48 \<le> (of_char c :: nat) \<and> (of_char c :: nat) \<le> 57"

definition num_char :: "char \<Rightarrow> bool" where
  "num_char c \<longleftrightarrow> is_digit c \<or> c = CHR ''+'' \<or> c = CHR ''-'' \<or> c = CHR ''.'' \<or> c = CHR ''e''"

definition float_text :: "string \<Rightarrow> bool" where
  "float_text t \<longleftrightarrow> list_all num_char t \<and> (CHR ''.'' \<in> set t \<or> CHR ''e'' \<in> set t)"

fun json_ok :: "json \<Rightarrow> bool" where
  "json_ok (JFloat t) = float_text t"
| "json_ok (JList xs) = (\<forall>x \<in> set xs. json_ok x)"
| "json_ok (JObj kvs) = (sorted_wrt (<) (map fst kvs) \<and> (\<forall>kv \<in> set kvs. json_ok (snd kv)))"
| "json_ok _ = True"

subsection \<open>Numbers are read back\<close>

fun digits_value :: "nat \<Rightarrow> string \<Rightarrow> nat" where
  "digits_value acc [] = acc"
| "digits_value acc (c # cs) = digits_value (10 * acc + (of_char c - 48)) cs"

lemma digits_value_append: "digits_value acc (s @ t) = digits_value (digits_value acc s) t"
  by (induction s arbitrary: acc) simp_all

lemma of_digit_char: "d < 10 \<Longrightarrow> (of_char (char_of (48 + d)) :: nat) = 48 + d"
  by simp

lemma digits_value_str_nat: "digits_value 0 (str_nat n) = n"
proof (induction n rule: str_nat.induct)
  case (1 n)
  show ?case
  proof (cases "n < 10")
    case True
    then show ?thesis by (subst str_nat.simps) simp
  next
    case False
    then have "digits_value 0 (str_nat n)
        = digits_value (n div 10) [char_of (48 + n mod 10)]"
      using 1 [OF False] False
      by (subst str_nat.simps) (simp only: if_False digits_value_append)
    also have "\<dots> = n" by (simp only: digits_value.simps) simp
    finally show ?thesis .
  qed
qed

lemma str_nat_inject [simp]: "str_nat m = str_nat n \<longleftrightarrow> m = n"
  by (metis digits_value_str_nat)

lemma str_nat_digits: "list_all is_digit (str_nat n)"
proof (induction n rule: str_nat.induct)
  case (1 n)
  have d: "is_digit (char_of (48 + d))" if "d < 10" for d :: nat
    using that by (simp add: is_digit_def)
  show ?case
    using 1 by (subst str_nat.simps) (simp add: d del: char_of_eq_iff)
qed

lemma str_nat_not_Nil [simp]: "str_nat n \<noteq> []"
  by (subst str_nat.simps) simp

lemma digits_value_zeros: "digits_value 0 (replicate n (CHR ''0'') @ s) = digits_value 0 s"
  by (induction n) simp_all

lemma pad_left_inject [simp]: "pad_left w (str_nat m) = pad_left w (str_nat n) \<longleftrightarrow> m = n"
  by (metis digits_value_str_nat digits_value_zeros pad_left_def)

lemma pad_left_digits: "list_all is_digit (pad_left w (str_nat n))"
  using str_nat_digits [of n] by (auto simp: pad_left_def list_all_iff is_digit_def)

lemma not_digit [simp]:
  "\<not> is_digit (CHR ''-'')" "\<not> is_digit (CHR ''.'')" "\<not> is_digit (CHR ''e'')"
  "\<not> is_digit (CHR '','')" "\<not> is_digit (CHR '']'')" "\<not> is_digit (CHR ''}'')"
  by (simp_all add: is_digit_def)

text \<open>A number field that is closed by another character is read off uniquely.\<close>

lemma digits_prefix:
  assumes "list_all is_digit a" "list_all is_digit b" "\<not> is_digit c" "\<not> is_digit c'"
    and "a @ c # r = b @ c' # r'"
  shows "a = b \<and> c = c' \<and> r = r'"
proof -
  have "takeWhile is_digit (a @ c # r) = a" "takeWhile is_digit (b @ c' # r') = b"
    using assms(1-4) by (simp_all add: list_all_iff takeWhile_tail)
  then have "a = b" using assms(5) by metis
  then show ?thesis using assms(5) by simp
qed

lemma field_prefix:
  assumes "pad_left w (str_nat m) @ c # r = pad_left w (str_nat n) @ c' # r'"
    and "\<not> is_digit c" "\<not> is_digit c'"
  shows "m = n \<and> c = c' \<and> r = r'"
  using digits_prefix [OF pad_left_digits pad_left_digits assms(2,3,1)] by simp

lemma str_nat_minus [simp]: "CHR ''-'' # x \<noteq> str_nat n" "str_nat n \<noteq> CHR ''-'' # x"
proof -
  show "CHR ''-'' # x \<noteq> str_nat n"
  proof
    assume "CHR ''-'' # x = str_nat n"
    then have "list_all is_digit (CHR ''-'' # x)" using str_nat_digits by metis
    then show False by simp
  qed
  then show "str_nat n \<noteq> CHR ''-'' # x" by metis
qed

lemma str_int_inject [simp]: "str_int i = str_int j \<longleftrightarrow> i = j"
  by (auto simp: str_int_def)

lemma str_int_chars:
  "list_all num_char (str_int i)" "CHR ''.'' \<notin> set (str_int i)" "CHR ''e'' \<notin> set (str_int i)"
  using str_nat_digits [of "nat i"] str_nat_digits [of "nat (- i)"]
  by (auto simp: str_int_def num_char_def list_all_iff)

lemma str_int_not_Nil [simp]: "str_int i \<noteq> []"
  by (simp add: str_int_def)

text \<open>A number is followed by a delimiter or by nothing, so its text ends where it must.\<close>

definition delimited :: "string \<Rightarrow> bool" where
  "delimited r \<longleftrightarrow> r = [] \<or> hd r = CHR '','' \<or> hd r = CHR '']'' \<or> hd r = CHR ''}''"

lemma delimited_not_num: "delimited r \<Longrightarrow> r = [] \<or> \<not> num_char (hd r)"
  by (auto simp: delimited_def num_char_def)

lemma takeWhile_number: "list_all num_char u \<Longrightarrow> delimited q \<Longrightarrow> takeWhile num_char (u @ q) = u"
  by (cases q) (auto simp: list_all_iff takeWhile_tail dest: delimited_not_num)

lemma number_prefix:
  assumes "list_all num_char s" "list_all num_char t" "delimited r" "delimited r'" "s @ r = t @ r'"
  shows "s = t \<and> r = r'"
  using assms takeWhile_number by (metis same_append_eq)

subsection \<open>Strings are read back\<close>

definition unhex :: "char \<Rightarrow> nat" where
  "unhex c = length (takeWhile (\<lambda>d. d \<noteq> c) ''0123456789abcdef'')"

lemma unhex_digit: "n < 16 \<Longrightarrow> unhex (hex_digit n) = n"
proof -
  assume "n < 16"
  then have "n \<in> set [0..<16]" by simp
  moreover have "\<forall>n \<in> set [0..<16]. unhex (hex_digit n) = n"
    by (simp add: upt_rec unhex_def hex_digit_def)
  ultimately show ?thesis by blast
qed

lemma hex_pair:
  "16 * unhex (hex_digit (of_char c div 16)) + unhex (hex_digit (of_char c mod 16)) = (of_char c :: nat)"
proof -
  have "(of_char c :: nat) div 16 < 16"
    using nat_of_char_less_256 [of c] by (simp add: less_mult_imp_div_less)
  then show ?thesis by (simp add: unhex_digit)
qed

fun unescape :: "string \<Rightarrow> (char \<times> string) option" where
  "unescape [] = None"
| "unescape (c # cs) =
     (if c \<noteq> CHR 0x5C then Some (c, cs)
      else case cs of
          [] \<Rightarrow> None
        | k # ks \<Rightarrow>
            if k = CHR ''n'' then Some (CHR 0x0A, ks)
            else if k = CHR ''r'' then Some (CHR 0x0D, ks)
            else if k = CHR ''t'' then Some (CHR 0x09, ks)
            else if k = CHR ''f'' then Some (CHR 0x0C, ks)
            else if k = CHR ''b'' then Some (CHR 0x08, ks)
            else if k = CHR ''u'' then Some (char_of (16 * unhex (ks ! 2) + unhex (ks ! 3)), drop 4 ks)
            else Some (k, ks))"

lemma unescape_esc: "unescape (esc_char c @ r) = Some (c, r)"
  unfolding esc_char_def Let_def by (simp add: hex_pair)

lemma esc_char_inject: "esc_char c @ r = esc_char d @ r' \<Longrightarrow> c = d \<and> r = r'"
  by (metis option.inject prod.inject unescape_esc)

lemma esc_char_not_quote: "esc_char c @ r \<noteq> CHR 0x22 # r'"
  by (auto simp: esc_char_def Let_def)

lemma quote_prefix:
  "concat (map esc_char s) @ CHR 0x22 # r = concat (map esc_char t) @ CHR 0x22 # r'
    \<Longrightarrow> s = t \<and> r = r'"
proof (induction s arbitrary: t)
  case Nil
  then show ?case using esc_char_not_quote by (cases t) (auto, metis)
next
  case (Cons c s)
  then obtain d t' where t: "t = d # t'"
    using esc_char_not_quote by (cases t) auto
  have "c = d" and "concat (map esc_char s) @ CHR 0x22 # r = concat (map esc_char t') @ CHR 0x22 # r'"
    using Cons.prems esc_char_inject [of c _ d] by (auto simp: t)
  then show ?case using Cons.IH t by blast
qed

lemma quote_str_inject: "quote_str s @ r = quote_str t @ r' \<Longrightarrow> s = t \<and> r = r'"
  using quote_prefix [of s r t r'] by (simp add: quote_str_def)


subsection \<open>Trees are read back\<close>

text \<open>The first character of a text tells the constructor, up to the two kinds of number.\<close>

definition kind_of_char :: "char \<Rightarrow> nat" where
  "kind_of_char c =
     (if c = CHR ''n'' then 0 else if c = CHR ''t'' then 1 else if c = CHR ''f'' then 2
      else if c = CHR 0x22 then 4 else if c = CHR ''['' then 5 else if c = CHR ''{'' then 6
      else if num_char c then 3 else 7)"

fun json_kind :: "json \<Rightarrow> nat" where
  "json_kind JNull = 0"
| "json_kind (JBool b) = (if b then 1 else 2)"
| "json_kind (JInt i) = 3"
| "json_kind (JFloat t) = 3"
| "json_kind (JStr s) = 4"
| "json_kind (JList xs) = 5"
| "json_kind (JObj kvs) = 6"

lemma num_char_kind: "num_char c \<Longrightarrow> kind_of_char c = 3"
  by (auto simp: num_char_def kind_of_char_def is_digit_def)

lemma dumps_kind: "json_ok j \<Longrightarrow> dumps j \<noteq> [] \<and> kind_of_char (hd (dumps j)) = json_kind j"
proof (cases j)
  case (JInt i)
  then show ?thesis using str_int_chars(1) [of i] by (cases "str_int i") (auto simp: num_char_kind)
next
  case (JFloat t)
  assume "json_ok j"
  then have "float_text t" using JFloat by simp
  then show ?thesis
    by (cases t) (auto simp: JFloat float_text_def num_char_kind)
qed (auto simp: kind_of_char_def quote_str_def)

lemma dumps_same_kind:
  assumes "dumps j @ r = dumps j' @ r'" "json_ok j" "json_ok j'"
  shows "json_kind j = json_kind j'"
  using assms dumps_kind by (metis hd_append2)

lemma kind_bounded: "json_kind j \<le> 6"
  by (cases j) simp_all

lemma kind_not_delimiter:
  assumes "json_ok j" and "delimited [c]"
  shows "dumps j @ r \<noteq> c # r'"
proof
  assume "dumps j @ r = c # r'"
  then have "hd (dumps j) = c" using dumps_kind [OF assms(1)] by (metis hd_append2 list.sel(1))
  then have "kind_of_char c = json_kind j" using dumps_kind [OF assms(1)] by simp
  moreover have "kind_of_char c = 7"
    using assms(2) by (auto simp: delimited_def kind_of_char_def num_char_def)
  ultimately show False using kind_bounded [of j] by simp
qed

lemma sort_dumps:
  assumes "sorted_wrt (<) (map fst kvs)"
  shows "map snd (sort_key fst (map (\<lambda>(k, v). (k, quote_str k @ CHR '':'' # dumps v)) kvs))
    = map (\<lambda>kv. quote_str (fst kv) @ CHR '':'' # dumps (snd kv)) kvs"
proof -
  have "map fst (map (\<lambda>(k, v). (k, quote_str k @ CHR '':'' # dumps v)) kvs) = map fst kvs"
    by (simp add: case_prod_beta)
  then have "sorted (map fst (map (\<lambda>(k, v). (k, quote_str k @ CHR '':'' # dumps v)) kvs))"
    using assms by (simp only: strict_sorted_imp_sorted)
  then show ?thesis by (simp add: sort_key_id_if_sorted case_prod_beta)
qed

text \<open>Comma-separated renderings with a closing bracket, over any element renderer.\<close>

lemma join_prefix:
  assumes "\<And>x y r r'. x \<in> set xs \<Longrightarrow> y \<in> set ys \<Longrightarrow> delimited r \<Longrightarrow> delimited r'
      \<Longrightarrow> f x @ r = f y @ r' \<Longrightarrow> x = y \<and> r = r'"
    and "\<And>x r r'. x \<in> set xs \<union> set ys \<Longrightarrow> f x @ r \<noteq> c # r'"
    and "delimited [c]" and "c \<noteq> CHR '',''"
    and "join_comma (map f xs) @ c # r = join_comma (map f ys) @ c # r'"
  shows "xs = ys \<and> r = r'"
proof -
  define rest where "rest us q = (case us of [] \<Rightarrow> c # q | _ \<Rightarrow> CHR '','' # join_comma (map f us) @ c # q)"
    for us q
  have j: "join_comma (map f (u # us)) @ c # q = f u @ rest us q" for u us q
    by (cases us) (simp_all add: rest_def)
  have del: "delimited (rest us q)" for us q
    using assms(3) by (cases us) (simp_all add: rest_def delimited_def)
  show ?thesis
    using assms(1,2,5)
  proof (induction xs arbitrary: ys)
    case Nil
    show ?case
    proof (cases ys)
      case (Cons y zs)
      then have "f y @ rest zs r' = c # r" using Nil.prems(3) by (simp add: j del: list.map(2))
      then show ?thesis using Nil.prems(2) Cons by simp
    qed (use Nil.prems(3) in simp)
  next
    case (Cons x xs)
    show ?case
    proof (cases ys)
      case Nil
      then have "f x @ rest xs r = c # r'" using Cons.prems(3) by (simp add: j del: list.map(2))
      then show ?thesis using Cons.prems(2) by simp
    next
      case ys: (Cons y zs)
      have eq: "f x @ rest xs r = f y @ rest zs r'"
        using Cons.prems(3) unfolding ys j .
      have xy: "x = y \<and> rest xs r = rest zs r'"
        by (rule Cons.prems(1) [OF _ _ del del eq]) (simp_all add: ys)
      then have "join_comma (map f xs) @ c # r = join_comma (map f zs) @ c # r'"
        using assms(4) by (cases xs; cases zs) (auto simp: rest_def)
      then have "xs = zs \<and> r = r'"
      proof (rule Cons.IH [rotated 2])
        show "u = v \<and> q = q'" if "u \<in> set xs" "v \<in> set zs" "delimited q" "delimited q'" "f u @ q = f v @ q'"
          for u v q q'
          using that by (intro Cons.prems(1)) (simp_all add: ys)
        show "f u @ q \<noteq> c # q'" if "u \<in> set xs \<union> set zs" for u q q'
          using that by (intro Cons.prems(2)) (auto simp: ys)
      qed
      then show ?thesis using xy ys by simp
    qed
  qed
qed

lemma dumps_number_inject:
  assumes "json_kind j = 3" "json_kind j' = 3" "json_ok j" "json_ok j'" "delimited r" "delimited r'"
    and "dumps j @ r = dumps j' @ r'"
  shows "j = j' \<and> r = r'"
proof -
  have num: "list_all num_char (dumps u)" if "json_kind u = 3" "json_ok u" for u
    using that str_int_chars(1) by (cases u) (auto simp: float_text_def split: if_splits)
  have "dumps j = dumps j' \<and> r = r'"
    using num assms by (intro number_prefix) auto
  then show ?thesis
    using assms(1-4) str_int_chars
    by (cases j; cases j') (auto simp: float_text_def split: if_splits)
qed

lemma dumps_prefix:
  assumes "json_ok j" "json_ok j'" "delimited r" "delimited r'" "dumps j @ r = dumps j' @ r'"
  shows "j = j' \<and> r = r'"
  using assms
proof (induction j arbitrary: j' r r')
  case (JList xs)
  then obtain ys where j': "j' = JList ys"
    using dumps_same_kind [OF JList.prems(5,1,2)] by (cases j') (auto split: if_splits)
  have "xs = ys \<and> r = r'"
  proof (rule join_prefix)
    show "x = y \<and> q = q'"
      if "x \<in> set xs" "y \<in> set ys" "delimited q" "delimited q'" "dumps x @ q = dumps y @ q'"
      for x y q q'
      using JList.IH [of x y q q'] JList.prems(1,2) that by (simp add: j')
    show "join_comma (map dumps xs) @ CHR '']'' # r = join_comma (map dumps ys) @ CHR '']'' # r'"
      using JList.prems(5) by (simp add: j')
    show "dumps x @ q \<noteq> CHR '']'' # q'" if "x \<in> set xs \<union> set ys" for x q q'
      using that JList.prems(1,2) by (intro kind_not_delimiter) (auto simp: j' delimited_def)
  qed (simp_all add: delimited_def)
  then show ?case by (simp add: j')
next
  case (JObj kvs)
  then obtain lvs where j': "j' = JObj lvs"
    using dumps_same_kind [OF JObj.prems(5,1,2)] by (cases j') (auto split: if_splits)
  let ?f = "\<lambda>kv. quote_str (fst kv) @ CHR '':'' # dumps (snd kv)"
  have "kvs = lvs \<and> r = r'"
  proof (rule join_prefix)
    show "x = y \<and> q = q'"
      if "x \<in> set kvs" "y \<in> set lvs" "delimited q" "delimited q'" "?f x @ q = ?f y @ q'"
      for x y q q'
    proof -
      have k: "fst x = fst y" and v: "dumps (snd x) @ q = dumps (snd y) @ q'"
        using quote_str_inject [of "fst x" "CHR '':'' # dumps (snd x) @ q" "fst y"] that(5) by simp_all
      have "snd x = snd y \<and> q = q'"
        using JObj.IH [of x "snd x" "snd y" q q'] JObj.prems(1,2) that v
        by (cases x; cases y) (simp add: j', force)
      with k show ?thesis by (simp add: prod_eq_iff)
    qed
    show "join_comma (map ?f kvs) @ CHR ''}'' # r = join_comma (map ?f lvs) @ CHR ''}'' # r'"
      using JObj.prems(1,2,5) by (simp add: j' sort_dumps)
    show "?f x @ q \<noteq> CHR ''}'' # q'" if "x \<in> set kvs \<union> set lvs" for x q q'
      by (simp add: quote_str_def)
  qed (simp_all add: delimited_def)
  then show ?case by (simp add: j')
next
  case (JStr s)
  then obtain t where "j' = JStr t"
    using dumps_same_kind [OF JStr.prems(5,1,2)] by (cases j') (auto split: if_splits)
  then show ?case using JStr.prems(5) quote_str_inject [of s r t r'] by simp
next
  case (JInt i)
  with dumps_same_kind [OF JInt.prems(5,1,2)] show ?case by (intro dumps_number_inject) simp_all
next
  case (JFloat t)
  with dumps_same_kind [OF JFloat.prems(5,1,2)] show ?case by (intro dumps_number_inject) simp_all
next
  case JNull
  with dumps_same_kind [OF JNull.prems(5,1,2)] show ?case by (cases j') (auto split: if_splits)
next
  case (JBool b)
  with dumps_same_kind [OF JBool.prems(5,1,2)] show ?case by (cases j') (auto split: if_splits)
qed

theorem dumps_inject: "json_ok j \<Longrightarrow> json_ok j' \<Longrightarrow> dumps j = dumps j' \<longleftrightarrow> j = j'"
  using dumps_prefix [of j j' "[]" "[]"] by (auto simp: delimited_def)

end
