(* ===== verification/PyTime.thy ===== *)
theory PyTime
  imports Json
begin

section \<open>UTC timestamps and their ISO text\<close>

text \<open>
  \<open>datetime.isoformat()\<close> of an aware UTC datetime, which is how timestamps enter the digested
  payloads.  A timestamp counts microseconds from 1970-01-01T00:00:00Z; the calendar date is
  computed as CPython's \<open>datetime\<close> does, by 400-, 100-, 4- and 1-year cycles.  The result is
  \<open>isoformat_inject\<close>: from year 1 on, two timestamps with the same text are equal.
\<close>

type_synonym time = int

definition days_before_year :: "int \<Rightarrow> int" where
  "days_before_year y = (let k = y - 1 in 365 * k + k div 4 - k div 100 + k div 400)"

definition is_leap :: "int \<Rightarrow> bool" where
  "is_leap y \<longleftrightarrow> 4 dvd y \<and> (\<not> 100 dvd y \<or> 400 dvd y)"

definition month_lengths :: "bool \<Rightarrow> int list" where
  "month_lengths leap = [31, if leap then 29 else 28, 31, 30, 31, 30, 31, 31, 30, 31, 30, 31]"

text \<open>Month and day of the zero-based day of a year.\<close>

fun month_day :: "nat \<Rightarrow> int list \<Rightarrow> int \<Rightarrow> nat \<times> int" where
  "month_day m [] d = (m, d + 1)"
| "month_day m (l # ls) d = (if d < l then (m, d + 1) else month_day (Suc m) ls (d - l))"

text \<open>Year and zero-based day of the year of a proleptic ordinal (1 is 0001-01-01).\<close>

definition year_and_day :: "int \<Rightarrow> int \<times> int" where
  "year_and_day n =
     (let n0 = n - 1;
          n400 = n0 div 146097; r400 = n0 mod 146097;
          n100 = r400 div 36524; r100 = r400 mod 36524;
          n4 = r100 div 1461; r4 = r100 mod 1461;
          n1 = r4 div 365; r1 = r4 mod 365;
          year = 400 * n400 + 100 * n100 + 4 * n4 + n1 + 1
      in if n1 = 4 \<or> n100 = 4 then (year - 1, 365) else (year, r1))"

definition two_digits :: "int \<Rightarrow> string" where
  "two_digits i = pad_left 2 (str_nat (nat i))"

definition isoformat :: "time \<Rightarrow> string" where
  "isoformat t =
     (let day = t div 86400000000; us = t mod 86400000000;
          (year, doy) = year_and_day (day + 719163);
          (month, dy) = month_day 1 (month_lengths (is_leap year)) doy;
          secs = us div 1000000; frac = us mod 1000000
      in pad_left 4 (str_nat (nat year)) @ ''-'' @ pad_left 2 (str_nat month) @ ''-''
         @ two_digits dy @ ''T'' @ two_digits (secs div 3600) @ '':''
         @ two_digits (secs mod 3600 div 60) @ '':'' @ two_digits (secs mod 60)
         @ (if frac = 0 then [] else ''.'' @ pad_left 6 (str_nat (nat frac))) @ ''+00:00'')"

subsection \<open>The date determines the day\<close>

lemma days_before_cycle:
  assumes "0 \<le> b" "b \<le> 3" "0 \<le> c" "c \<le> 24" "0 \<le> e" "e \<le> (3 :: int)"
  shows "days_before_year (400 * a + 100 * b + 4 * c + e + 1) = 146097 * a + 36524 * b + 1461 * c + 365 * e"
proof -
  let ?k = "400 * a + 100 * b + 4 * c + e"
  have "?k div 4 = 100 * a + 25 * b + c" "?k div 100 = 4 * a + b" "?k div 400 = a"
    using assms by linarith+
  then show ?thesis by (simp add: days_before_year_def)
qed

lemma year_and_day_inverse:
  assumes "1 \<le> n" and "year_and_day n = (y, d)"
  shows "1 \<le> y" and "days_before_year y + d + 1 = n" and "0 \<le> d" and "d \<le> 365"
proof -
  define n0 a r b s c u e v where defs: "n0 = n - 1" "a = n0 div 146097" "r = n0 mod 146097"
    "b = r div 36524" "s = r mod 36524" "c = s div 1461" "u = s mod 1461" "e = u div 365" "v = u mod 365"
  have n0: "n0 = 146097 * a + 36524 * b + 1461 * c + 365 * e + v"
    unfolding defs by (simp add: minus_mod_eq_mult_div [symmetric] flip: mult_div_mod_eq)
  have a: "0 \<le> a" using assms(1) by (simp add: defs pos_imp_zdiv_nonneg_iff)
  have r: "0 \<le> r \<and> r < 146097" and s: "0 \<le> s \<and> s < 36524" and u: "0 \<le> u \<and> u < 1461"
    and v: "0 \<le> v \<and> v < 365" by (simp_all add: defs)
  have rs: "r = 36524 * b + s" "s = 1461 * c + u" "u = 365 * e + v" by (simp_all add: defs)
  have b: "0 \<le> b \<and> b \<le> 4" using r s rs by linarith
  have c: "0 \<le> c \<and> c \<le> 24" using s u rs by linarith
  have e: "0 \<le> e \<and> e \<le> 4" using u v rs by linarith
  have yd: "(if e = 4 \<or> b = 4 then (400 * a + 100 * b + 4 * c + e + 1 - 1, 365)
      else (400 * a + 100 * b + 4 * c + e + 1, v)) = (y, d)"
    using assms(2) by (simp only: year_and_day_def Let_def defs)
  consider (century) "b = 4" "c = 0" "e = 0" "v = 0" | (leap) "b \<le> 3" "e = 4" "v = 0" | (plain) "b \<le> 3" "e \<le> 3"
    using b c e v rs r s u by linarith
  then have "1 \<le> y \<and> days_before_year y + d + 1 = n \<and> 0 \<le> d \<and> d \<le> 365"
  proof cases
    case century
    then have "y = 400 * a + 100 * 3 + 4 * 24 + 3 + 1" "d = 365" using yd by simp_all
    then show ?thesis
      using days_before_cycle [of 3 24 3 a] n0 century defs(1) a by simp
  next
    case leap
    then have "y = 400 * a + 100 * b + 4 * c + 3 + 1" "d = 365" using yd by simp_all
    then show ?thesis
      using days_before_cycle [of b c 3 a] n0 leap defs(1) a b c by simp
  next
    case plain
    then have "y = 400 * a + 100 * b + 4 * c + e + 1" "d = v" using yd b e by (auto split: if_splits)
    then show ?thesis
      using days_before_cycle [of b c e a] n0 plain defs(1) a b c e v by simp
  qed
  then show "1 \<le> y" and "days_before_year y + d + 1 = n" and "0 \<le> d" and "d \<le> 365" by simp_all
qed

text \<open>Month and day determine the day of the year.\<close>

lemma month_day_inverse:
  assumes "month_day m ls d = (m', dy)" and "0 \<le> d"
  shows "m \<le> m' \<and> m' \<le> m + length ls \<and> d = sum_list (take (m' - m) ls) + dy - 1 \<and> 1 \<le> dy"
  using assms
proof (induction ls arbitrary: m d)
  case (Cons l ls)
  show ?case
  proof (cases "d < l")
    case False
    then have ih: "Suc m \<le> m' \<and> m' \<le> Suc m + length ls
        \<and> d - l = sum_list (take (m' - Suc m) ls) + dy - 1 \<and> 1 \<le> dy"
      using Cons.prems Cons.IH [of "Suc m" "d - l"] by simp
    then have "m' - m = Suc (m' - Suc m)" by linarith
    then have "sum_list (take (m' - m) (l # ls)) = l + sum_list (take (m' - Suc m) ls)"
      by (simp only: take_Suc_Cons sum_list.Cons)
    with ih show ?thesis by simp
  qed (use Cons.prems in auto)
qed auto

subsection \<open>The text determines the timestamp\<close>

lemma two_digits_prefix:
  assumes "two_digits i @ c # r = two_digits j @ c' # r'" and "\<not> is_digit c" "\<not> is_digit c'"
    and "0 \<le> i" "0 \<le> j"
  shows "i = j \<and> c = c' \<and> r = r'"
  using field_prefix [OF assms(1-3) [unfolded two_digits_def]] assms(4,5) by (simp add: eq_nat_nat_iff)

lemma not_digit_separators:
  "\<not> is_digit (CHR ''T'')" "\<not> is_digit (CHR '':'')" "\<not> is_digit (CHR ''+'')"
  by (simp_all add: is_digit_def)

lemma frac_inject:
  assumes "two_digits i @ (if f = 0 then [] else ''.'' @ pad_left 6 (str_nat (nat f))) @ ''+00:00''
    = two_digits j @ (if g = 0 then [] else ''.'' @ pad_left 6 (str_nat (nat g))) @ ''+00:00''"
    and "0 \<le> i" "0 \<le> j" "0 \<le> f" "0 \<le> g"
  shows "i = j \<and> f = g"
proof -
  have "\<exists>c r. (if x = 0 then [] else ''.'' @ pad_left 6 (str_nat (nat x))) @ ''+00:00'' = c # r
      \<and> \<not> is_digit c" for x :: int
    using not_digit_separators not_digit by simp
  then have ij: "i = j" and
    e: "(if f = 0 then [] else ''.'' @ pad_left 6 (str_nat (nat f))) @ ''+00:00''
      = (if g = 0 then [] else ''.'' @ pad_left 6 (str_nat (nat g))) @ ''+00:00''"
    using assms by (metis two_digits_prefix)+
  have "f = g"
    using e assms(4,5) field_prefix [of 6 "nat f" "CHR ''+''" "''00:00''" "nat g" "CHR ''+''" "''00:00''"]
      not_digit_separators by (auto split: if_splits)
  with ij show ?thesis by simp
qed

definition datetime_ok :: "time \<Rightarrow> bool" where
  "datetime_ok t \<longleftrightarrow> 1 \<le> t div 86400000000 + 719163"

lemma seconds_split: "0 \<le> (u :: int) \<Longrightarrow> u = 1000000 * (3600 * (u div 1000000 div 3600)
    + 60 * (u div 1000000 mod 3600 div 60) + u div 1000000 mod 60) + u mod 1000000"
proof -
  have "(x :: int) = 3600 * (x div 3600) + 60 * (x mod 3600 div 60) + x mod 60" for x
  proof -
    have "x mod 3600 mod 60 = x mod 60" by (rule mod_mod_cancel) simp
    then show ?thesis
      by (metis (no_types, lifting) add.assoc mult_div_mod_eq)
  qed
  then show ?thesis by (metis mult_div_mod_eq)
qed

text \<open>The date part, with everything after it.\<close>

definition date_text :: "int \<Rightarrow> nat \<Rightarrow> int \<Rightarrow> string" where
  "date_text year month dy = pad_left 4 (str_nat (nat year)) @ ''-'' @ pad_left 2 (str_nat month)
     @ ''-'' @ two_digits dy"

lemma date_prefix:
  assumes "date_text y m d @ ''T'' @ r = date_text y' m' d' @ ''T'' @ r'"
    and "1 \<le> y" "1 \<le> y'" "1 \<le> d" "1 \<le> d'"
  shows "y = y' \<and> m = m' \<and> d = d' \<and> r = r'"
proof -
  have 1: "nat y = nat y' \<and> pad_left 2 (str_nat m) @ CHR ''-'' # two_digits d @ CHR ''T'' # r
      = pad_left 2 (str_nat m') @ CHR ''-'' # two_digits d' @ CHR ''T'' # r'"
    using field_prefix [of 4 "nat y" "CHR ''-''" _ "nat y'" "CHR ''-''"] assms(1)
    by (simp add: date_text_def)
  have 2: "m = m' \<and> two_digits d @ CHR ''T'' # r = two_digits d' @ CHR ''T'' # r'"
    using field_prefix [OF conjunct2 [OF 1]] by simp
  then have "d = d' \<and> r = r'"
    using two_digits_prefix [of d "CHR ''T''" r d' "CHR ''T''" r'] assms(4,5) not_digit_separators
    by simp
  with 1 2 assms(2,3) show ?thesis by (simp add: eq_nat_nat_iff)
qed

definition seconds_text :: "int \<Rightarrow> int \<Rightarrow> string" where
  "seconds_text i f = two_digits i @ (if f = 0 then [] else ''.'' @ pad_left 6 (str_nat (nat f))) @ ''+00:00''"

definition clock_text :: "int \<Rightarrow> string" where
  "clock_text us = (let secs = us div 1000000; frac = us mod 1000000 in
     two_digits (secs div 3600) @ '':'' @ two_digits (secs mod 3600 div 60) @ '':''
     @ seconds_text (secs mod 60) frac)"

lemma clock_parts:
  assumes "two_digits h @ '':'' @ two_digits m @ '':'' @ seconds_text i f
      = two_digits h' @ '':'' @ two_digits m' @ '':'' @ seconds_text i' f'"
    and "0 \<le> h" "0 \<le> h'" "0 \<le> m" "0 \<le> m'" "0 \<le> i" "0 \<le> i'" "0 \<le> f" "0 \<le> f'"
  shows "h = h' \<and> m = m' \<and> i = i' \<and> f = f'"
proof -
  have 1: "h = h' \<and> CHR '':'' = CHR '':''
      \<and> two_digits m @ CHR '':'' # seconds_text i f = two_digits m' @ CHR '':'' # seconds_text i' f'"
    by (rule two_digits_prefix) (use assms not_digit_separators in simp_all)
  have 2: "m = m' \<and> CHR '':'' = CHR '':'' \<and> seconds_text i f = seconds_text i' f'"
    by (rule two_digits_prefix) (use assms 1 not_digit_separators in simp_all)
  then have "i = i' \<and> f = f'"
    using assms unfolding seconds_text_def by (intro frac_inject) simp_all
  with 1 2 show ?thesis by simp
qed

lemma clock_inject:
  assumes "clock_text u = clock_text v" and "0 \<le> u" "0 \<le> v"
  shows "u = v"
proof -
  have p: "0 \<le> x div 1000000 div 3600" "0 \<le> x div 1000000 mod 3600 div 60"
      "0 \<le> x div 1000000 mod 60" "0 \<le> x mod 1000000" if "0 \<le> x" for x :: int
    using that by (simp_all add: pos_imp_zdiv_nonneg_iff)
  have "u div 1000000 div 3600 = v div 1000000 div 3600
      \<and> u div 1000000 mod 3600 div 60 = v div 1000000 mod 3600 div 60
      \<and> u div 1000000 mod 60 = v div 1000000 mod 60 \<and> u mod 1000000 = v mod 1000000"
    by (rule clock_parts [OF assms(1) [unfolded clock_text_def Let_def]])
      (use p assms(2,3) in blast)+
  with seconds_split [OF assms(2)] seconds_split [OF assms(3)] show ?thesis by metis
qed

theorem isoformat_inject:
  assumes "isoformat s = isoformat t" and "datetime_ok s" and "datetime_ok t"
  shows "s = t"
proof -
  define f where "f x = year_and_day (x div 86400000000 + 719163)" for x :: int
  define g where "g x = month_day 1 (month_lengths (is_leap (fst (f x)))) (snd (f x))" for x
  have iso: "isoformat x = date_text (fst (f x)) (fst (g x)) (snd (g x)) @ ''T'' @ clock_text (x mod 86400000000)" for x
    by (simp add: isoformat_def date_text_def clock_text_def seconds_text_def Let_def f_def g_def case_prod_beta)
  have inv: "1 \<le> fst (f x) \<and> days_before_year (fst (f x)) + snd (f x) + 1 = x div 86400000000 + 719163
      \<and> 0 \<le> snd (f x)" if "datetime_ok x" for x
    using that year_and_day_inverse [of "x div 86400000000 + 719163" "fst (f x)" "snd (f x)"]
    by (simp add: datetime_ok_def f_def)
  have md: "snd (f x) = sum_list (take (fst (g x) - 1) (month_lengths (is_leap (fst (f x))))) + snd (g x) - 1
      \<and> 1 \<le> snd (g x)" if "datetime_ok x" for x
    using inv [OF that] month_day_inverse [of 1 "month_lengths (is_leap (fst (f x)))" "snd (f x)"
        "fst (g x)" "snd (g x)"]
    by (simp add: g_def)
  have *: "fst (f s) = fst (f t)" "fst (g s) = fst (g t)" "snd (g s) = snd (g t)"
      "clock_text (s mod 86400000000) = clock_text (t mod 86400000000)"
    using date_prefix [OF assms(1) [unfolded iso]] inv md assms(2,3) by blast+
  then have "s mod 86400000000 = t mod 86400000000" by (intro clock_inject) simp_all
  moreover have "snd (f s) = snd (f t)" using md [OF assms(2)] md [OF assms(3)] * by simp
  then have "s div 86400000000 = t div 86400000000" using inv [OF assms(2)] inv [OF assms(3)] * by simp
  ultimately show ?thesis by (metis div_mult_mod_eq)
qed

text \<open>Two dates, one of them a leap day.\<close>

lemma isoformat_samples:
  "isoformat 0 = ''1970-01-01T00:00:00+00:00''"
  "isoformat 1709251199000250 = ''2024-02-29T23:59:59.000250+00:00''"
  by code_simp+

subsection \<open>Dates\<close>

text \<open>A date is the number of days since 1970-01-01: \<open>date(y, m, d)\<close> and \<open>str(d)\<close>, which is \<open>d.isoformat()\<close>.\<close>

definition py_date :: "int \<Rightarrow> nat \<Rightarrow> int \<Rightarrow> int" where
  "py_date y m d = days_before_year y + sum_list (take (m - 1) (month_lengths (is_leap y))) + d - 719163"

definition date_str :: "int \<Rightarrow> string" where
  "date_str days = (let (year, doy) = year_and_day (days + 719163);
     (month, dy) = month_day 1 (month_lengths (is_leap year)) doy in date_text year month dy)"

definition date_ok :: "int \<Rightarrow> bool" where
  "date_ok days \<longleftrightarrow> 1 \<le> days + 719163"

lemma date_str_inject: "date_str a = date_str b \<Longrightarrow> date_ok a \<Longrightarrow> date_ok b \<Longrightarrow> a = b"
proof -
  assume a: "date_str a = date_str b" "date_ok a" "date_ok b"
  have "isoformat (d * 86400000000) = date_str d @ ''T'' @ clock_text 0" for d
    by (simp add: isoformat_def date_str_def date_text_def clock_text_def seconds_text_def Let_def case_prod_beta)
  then have "isoformat (a * 86400000000) = isoformat (b * 86400000000)" using a(1) by simp
  then have "a * 86400000000 = b * 86400000000"
    by (rule isoformat_inject) (use a(2,3) in \<open>simp_all add: datetime_ok_def date_ok_def\<close>)
  then show "a = b" by simp
qed

end
