(* ===== verification/Restriction.thy ===== *)
theory Restriction
  imports Json PyTime
begin

section \<open>The operational restriction authority\<close>

text \<open>
  \<open>execution/operational_restriction.py\<close>: restriction requests, the canonical ledger, and the
  authority that alone opens and clears restrictions.  The clear policy is a hook that production
  code overrides, so it is a record of two functions; \<open>default_clear_policy\<close> is the base class.
  The ledger is a dictionary in insertion order; the authority is the ledger and its counter.
\<close>

datatype restriction_scope = SC_STRATEGY | SC_AUTHORIZATION | SC_EXECUTION

datatype restriction_reason =
  RR_RECONCILIATION_CONFLICT | RR_ORDER_STATE_UNKNOWN | RR_STALE_RISK | RR_BROKER_DISCONNECTED

datatype restriction_status = RS_OPEN | RS_CLEARED

datatype restriction_error =
    EmptyRequestId
  | UnknownRestriction string
  | AlreadyCleared string
  | EvidenceNotVerified string
  | ClearNotAuthorized string string

record restriction_request =
  rq_request_id :: string
  rq_scope :: restriction_scope
  rq_reason :: restriction_reason
  rq_strategy_id :: "string option"
  rq_authorization_id :: "string option"
  rq_execution_id :: "string option"
  rq_order_id :: "string option"
  rq_evidence_refs :: "string list"
  rq_shadow_state :: "string option"
  rq_broker_observed_state :: "string option"
  rq_source :: string
  rq_observed_at :: "time option"
  rq_created_by :: string
  rq_detail :: string

record restriction =
  rs_restriction_id :: string
  rs_scope :: restriction_scope
  rs_reason :: restriction_reason
  rs_strategy_id :: "string option"
  rs_authorization_id :: "string option"
  rs_execution_id :: "string option"
  rs_order_id :: "string option"
  rs_evidence_refs :: "string list"
  rs_shadow_state :: "string option"
  rs_broker_observed_state :: "string option"
  rs_source :: string
  rs_observed_at :: "time option"
  rs_created_by :: string
  rs_status :: restriction_status
  rs_cleared_by :: "string option"
  rs_cleared_at :: "time option"
  rs_cleared_evidence_refs :: "string list"
  rs_clear_decision_note :: string

record clear_decision =
  cd_authorized :: bool
  cd_actor_id :: "string option"
  cd_decision_note :: string

record clear_policy =
  cp_is_evidence_verified :: "restriction \<Rightarrow> bool"
  cp_decide :: "restriction \<Rightarrow> string list \<Rightarrow> string \<Rightarrow> clear_decision"

definition default_clear_policy :: clear_policy where
  "default_clear_policy =
     \<lparr>cp_is_evidence_verified = (\<lambda>r. True),
      cp_decide = (\<lambda>r refs actor. \<lparr>cd_authorized = False, cd_actor_id = Some actor,
        cd_decision_note = ''fail-closed: no policy supplied''\<rparr>)\<rparr>"

subsection \<open>Ledger and authority\<close>

type_synonym restriction_ledger = "(string, restriction) dict"

definition ledger_record :: "restriction \<Rightarrow> restriction_ledger \<Rightarrow> restriction_ledger" where
  "ledger_record r l = dict_put (rs_restriction_id r) r l"

definition ledger_get :: "restriction_ledger \<Rightarrow> string \<Rightarrow> restriction option" where
  "ledger_get l rid = dict_get l rid"

definition ledger_all :: "restriction_ledger \<Rightarrow> restriction list" where
  "ledger_all l = dict_values l"

record restriction_authority =
  ra_ledger :: restriction_ledger
  ra_counter :: nat

fun scope_matches :: "restriction \<Rightarrow> restriction_scope \<Rightarrow> string \<Rightarrow> bool" where
  "scope_matches r SC_EXECUTION i \<longleftrightarrow> rs_execution_id r = Some i"
| "scope_matches r SC_AUTHORIZATION i \<longleftrightarrow> rs_authorization_id r = Some i"
| "scope_matches r SC_STRATEGY i \<longleftrightarrow> rs_strategy_id r = Some i"

text \<open>The scope argument of the query is not read by the code: each restriction is matched by its
  own scope against \<open>scope_id\<close>.\<close>

definition open_for_scope ::
    "restriction_authority \<Rightarrow> restriction_scope \<Rightarrow> string \<Rightarrow> restriction list" where
  "open_for_scope a scope scope_id =
     filter (\<lambda>r. rs_status r = RS_OPEN \<and> scope_matches r (rs_scope r) scope_id) (ledger_all (ra_ledger a))"

definition has_open :: "restriction_authority \<Rightarrow> restriction_scope \<Rightarrow> string \<Rightarrow> bool" where
  "has_open a scope scope_id \<longleftrightarrow> open_for_scope a scope scope_id \<noteq> []"

record admission_gate =
  gate_restrictions :: "restriction list"

definition gate_for_intent :: "restriction_authority \<Rightarrow> string \<Rightarrow> string \<Rightarrow> admission_gate" where
  "gate_for_intent a strategy_id authorization_id =
     \<lparr>gate_restrictions = filter (\<lambda>r. rs_status r = RS_OPEN \<and>
        (rs_scope r = SC_STRATEGY \<and> rs_strategy_id r = Some strategy_id
         \<or> rs_scope r = SC_AUTHORIZATION \<and> rs_authorization_id r = Some authorization_id))
        (ledger_all (ra_ledger a))\<rparr>"

definition is_blocked :: "admission_gate \<Rightarrow> bool" where
  "is_blocked g \<longleftrightarrow> gate_restrictions g \<noteq> []"

definition block_reason :: "admission_gate \<Rightarrow> string option" where
  "block_reason g =
     (if gate_restrictions g = [] then None
      else Some (str_nat (length (gate_restrictions g)) @ '' OPEN operational restriction(s): ''
        @ join_with '', '' (map rs_restriction_id (gate_restrictions g))))"

subsection \<open>Opening and clearing\<close>

definition restriction_id_of :: "string \<Rightarrow> nat \<Rightarrow> string" where
  "restriction_id_of request_id n = ''IR_'' @ request_id @ ''_'' @ str_nat n"

definition open_restriction ::
    "restriction_authority \<Rightarrow> restriction_request
     \<Rightarrow> restriction_error + restriction \<times> restriction_authority" where
  "open_restriction a request =
     (if blank (rq_request_id request) then Inl EmptyRequestId
      else let n = ra_counter a + 1;
               r = \<lparr>rs_restriction_id = restriction_id_of (rq_request_id request) n,
                    rs_scope = rq_scope request, rs_reason = rq_reason request,
                    rs_strategy_id = rq_strategy_id request,
                    rs_authorization_id = rq_authorization_id request,
                    rs_execution_id = rq_execution_id request,
                    rs_order_id = rq_order_id request,
                    rs_evidence_refs = rq_evidence_refs request,
                    rs_shadow_state = rq_shadow_state request,
                    rs_broker_observed_state = rq_broker_observed_state request,
                    rs_source = rq_source request,
                    rs_observed_at = rq_observed_at request,
                    rs_created_by = rq_created_by request,
                    rs_status = RS_OPEN, rs_cleared_by = None, rs_cleared_at = None,
                    rs_cleared_evidence_refs = [], rs_clear_decision_note = []\<rparr>
           in Inr (r, \<lparr>ra_ledger = ledger_record r (ra_ledger a), ra_counter = n\<rparr>))"

definition clear_restriction ::
    "clear_policy \<Rightarrow> restriction_authority \<Rightarrow> string \<Rightarrow> string \<Rightarrow> string list \<Rightarrow> time option
     \<Rightarrow> restriction_error + restriction \<times> restriction_authority" where
  "clear_restriction policy a rid actor refs cleared_at =
     (case ledger_get (ra_ledger a) rid of
        None \<Rightarrow> Inl (UnknownRestriction rid)
      | Some r \<Rightarrow>
          if rs_status r \<noteq> RS_OPEN then Inl (AlreadyCleared rid)
          else if \<not> cp_is_evidence_verified policy r then Inl (EvidenceNotVerified rid)
          else let d = cp_decide policy r refs actor in
            if \<not> cd_authorized d then Inl (ClearNotAuthorized rid actor)
            else let r' = r\<lparr>rs_status := RS_CLEARED, rs_cleared_by := cd_actor_id d,
                            rs_cleared_at := cleared_at, rs_cleared_evidence_refs := refs,
                            rs_clear_decision_note := cd_decision_note d\<rparr>
                 in Inr (r', a\<lparr>ra_ledger := ledger_record r' (ra_ledger a)\<rparr>))"

subsection \<open>The ledger invariant\<close>

text \<open>Every key is the identifier of its restriction, made by a counter value already used.\<close>

definition authority_ok :: "restriction_authority \<Rightarrow> bool" where
  "authority_ok a \<longleftrightarrow> dict_wf (ra_ledger a) \<and>
     (\<forall>k r. dict_get (ra_ledger a) k = Some r \<longrightarrow> rs_restriction_id r = k
        \<and> (\<exists>q n. k = restriction_id_of q n \<and> n \<le> ra_counter a))"

definition new_authority :: restriction_authority where
  "new_authority = \<lparr>ra_ledger = [], ra_counter = 0\<rparr>"

lemma restriction_id_counter: "restriction_id_of q n = restriction_id_of q' n' \<Longrightarrow> n = n'"
proof -
  assume "restriction_id_of q n = restriction_id_of q' n'"
  then have "rev (restriction_id_of q n) = rev (restriction_id_of q' n')" by simp
  then have "rev (str_nat n) @ CHR ''_'' # rev q @ ''_RI'' = rev (str_nat n') @ CHR ''_'' # rev q' @ ''_RI''"
    by (simp add: restriction_id_of_def)
  moreover have "list_all is_digit (rev (str_nat m))" for m
    using str_nat_digits by (simp add: list_all_iff)
  moreover have "\<not> is_digit (CHR ''_'')" by (simp add: is_digit_def)
  ultimately have "rev (str_nat n) = rev (str_nat n')"
    using digits_prefix by blast
  then show ?thesis by simp
qed

lemma new_authority_ok: "authority_ok new_authority"
  by (simp add: authority_ok_def new_authority_def dict.wf_empty)

lemma open_fresh:
  assumes "authority_ok a" and "n = ra_counter a + 1"
  shows "dict_get (ra_ledger a) (restriction_id_of q n) = None"
proof (rule ccontr)
  assume "dict_get (ra_ledger a) (restriction_id_of q n) \<noteq> None"
  then obtain q' m where "restriction_id_of q n = restriction_id_of q' m" "m \<le> ra_counter a"
    using assms(1) by (fastforce simp: authority_ok_def)
  then show False using restriction_id_counter assms(2) by fastforce
qed

subsection \<open>What the operations do\<close>

text \<open>Histories of authority calls; a caller that catches the error keeps the authority it had.\<close>

datatype authority_op =
    OpOpen restriction_request
  | OpClear string string "string list" "time option"

fun authority_step ::
    "clear_policy \<Rightarrow> restriction_authority \<Rightarrow> authority_op \<Rightarrow> restriction_error + restriction_authority" where
  "authority_step policy a (OpOpen q) = rbind (open_restriction a q) (\<lambda>(r, a'). Inr a')"
| "authority_step policy a (OpClear rid actor refs ts) =
     rbind (clear_restriction policy a rid actor refs ts) (\<lambda>(r, a'). Inr a')"

text \<open>The clear of a restriction that the policy permits.\<close>

definition clear_permitted :: "clear_policy \<Rightarrow> restriction \<Rightarrow> string list \<Rightarrow> string \<Rightarrow> bool" where
  "clear_permitted policy r refs actor \<longleftrightarrow>
     cp_is_evidence_verified policy r \<and> cd_authorized (cp_decide policy r refs actor)"

definition applies :: "restriction \<Rightarrow> string \<Rightarrow> string \<Rightarrow> bool" where
  "applies r strategy_id authorization_id \<longleftrightarrow>
     rs_scope r = SC_STRATEGY \<and> rs_strategy_id r = Some strategy_id
     \<or> rs_scope r = SC_AUTHORIZATION \<and> rs_authorization_id r = Some authorization_id"

lemma gate_alt:
  "gate_restrictions (gate_for_intent a s i)
    = filter (\<lambda>r. rs_status r = RS_OPEN \<and> applies r s i) (dict_values (ra_ledger a))"
  by (simp add: gate_for_intent_def ledger_all_def applies_def)

lemma open_restriction_Inr:
  assumes "open_restriction a q = Inr (r, a')"
  shows "\<not> blank (rq_request_id q)" and "rs_status r = RS_OPEN"
    and "rs_restriction_id r = restriction_id_of (rq_request_id q) (ra_counter a + 1)"
    and "ra_ledger a' = ledger_record r (ra_ledger a)" and "ra_counter a' = ra_counter a + 1"
    and "rs_scope r = rq_scope q" and "rs_execution_id r = rq_execution_id q"
    and "rs_strategy_id r = rq_strategy_id q" and "rs_authorization_id r = rq_authorization_id q"
  using assms by (auto simp: open_restriction_def Let_def split: if_splits)

lemma open_restriction_ledger:
  assumes "authority_ok a" and "open_restriction a q = Inr (r, a')"
  shows "ra_ledger a' = ra_ledger a @ [(rs_restriction_id r, r)]"
    and "dict_get (ra_ledger a) (rs_restriction_id r) = None"
proof -
  show fresh: "dict_get (ra_ledger a) (rs_restriction_id r) = None"
    using open_fresh [OF assms(1) refl] open_restriction_Inr(3) [OF assms(2)] by simp
  show "ra_ledger a' = ra_ledger a @ [(rs_restriction_id r, r)]"
    unfolding open_restriction_Inr(4) [OF assms(2)] ledger_record_def
    by (rule dict_put_fresh [OF fresh])
qed

lemma clear_restriction_Inr:
  assumes "clear_restriction policy a rid actor refs ts = Inr (r', a')"
  obtains r where "dict_get (ra_ledger a) rid = Some r" and "rs_status r = RS_OPEN"
    and "clear_permitted policy r refs actor"
    and "r' = r\<lparr>rs_status := RS_CLEARED, rs_cleared_by := cd_actor_id (cp_decide policy r refs actor),
              rs_cleared_at := ts, rs_cleared_evidence_refs := refs,
              rs_clear_decision_note := cd_decision_note (cp_decide policy r refs actor)\<rparr>"
    and "a' = a\<lparr>ra_ledger := dict_put (rs_restriction_id r) r' (ra_ledger a)\<rparr>"
proof (cases "dict_get (ra_ledger a) rid")
  case None
  with assms show thesis by (simp add: clear_restriction_def ledger_get_def)
next
  case (Some r)
  with assms show thesis
    by (intro that [of r])
      (auto simp: clear_restriction_def ledger_get_def ledger_record_def clear_permitted_def Let_def
        split: if_splits)
qed

lemma authority_step_ok:
  assumes "authority_ok a" and "authority_step policy a op = Inr a'"
  shows "authority_ok a'"
proof (cases op)
  case (OpOpen q)
  then obtain r where o: "open_restriction a q = Inr (r, a')"
    using assms(2) by (auto simp: rbind_Inr_iff)
  show ?thesis
    using assms(1) open_restriction_Inr [OF o]
    by (fastforce simp: authority_ok_def ledger_record_def dict_get_put dict_wf_put)
next
  case (OpClear rid actor refs ts)
  then obtain r' where "clear_restriction policy a rid actor refs ts = Inr (r', a')"
    using assms(2) by (auto simp: rbind_Inr_iff)
  then show ?thesis
    by (rule clear_restriction_Inr)
      (use assms(1) in \<open>auto simp: authority_ok_def dict_get_put dict_wf_put split: if_splits\<close>)
qed

subsection \<open>Properties\<close>

text \<open>Opening a restriction adds exactly one fresh restriction.  Its identifier was never used
  before, every earlier restriction is untouched, and the admission gate of an order intent gains
  the new restriction, at its end, exactly when the restriction applies to that intent.\<close>

theorem open_restriction_effect:
  assumes "authority_ok a" and "open_restriction a q = Inr (r, a')"
  shows "authority_ok a' \<and> dict_get (ra_ledger a) (rs_restriction_id r) = None
    \<and> (\<forall>k. dict_get (ra_ledger a') k
            = (if k = rs_restriction_id r then Some r else dict_get (ra_ledger a) k))
    \<and> (\<forall>s i. gate_restrictions (gate_for_intent a' s i)
            = gate_restrictions (gate_for_intent a s i) @ (if applies r s i then [r] else []))"
proof -
  have ok: "authority_ok a'"
    using authority_step_ok [OF assms(1), of default_clear_policy "OpOpen q" a'] assms(2) by simp
  have "dict_get (ra_ledger a') k = (if k = rs_restriction_id r then Some r else dict_get (ra_ledger a) k)" for k
    using open_restriction_Inr(4) [OF assms(2)] by (simp add: ledger_record_def dict_get_put)
  then show ?thesis
    using ok open_restriction_ledger [OF assms] open_restriction_Inr(2) [OF assms(2)]
    by (simp add: gate_alt dict_values_def)
qed

definition sample_request :: restriction_request where
  "sample_request = \<lparr>rq_request_id = ''R'', rq_scope = SC_STRATEGY, rq_reason = RR_STALE_RISK,
     rq_strategy_id = Some ''S'', rq_authorization_id = None, rq_execution_id = None,
     rq_order_id = None, rq_evidence_refs = [], rq_shadow_state = None,
     rq_broker_observed_state = None, rq_source = ''RISK'', rq_observed_at = None,
     rq_created_by = ''risk'', rq_detail = []\<rparr>"

lemma sample_open:
  "\<exists>r a'. open_restriction new_authority sample_request = Inr (r, a') \<and> applies r ''S'' ''A''
     \<and> rs_restriction_id r = ''IR_R_1'' \<and> rs_status r = RS_OPEN"
proof -
  have "\<not> blank ''R''" by (simp add: string_eval)
  moreover have "restriction_id_of ''R'' (Suc 0) = ''IR_R_1''" by code_simp
  ultimately show ?thesis
    by (simp add: open_restriction_def sample_request_def new_authority_def Let_def applies_def)
qed

theorem open_restriction_effect_witness:
  "\<exists>r a'. open_restriction new_authority sample_request = Inr (r, a')
    \<and> is_blocked (gate_for_intent a' ''S'' ''A'')"
proof -
  obtain r a' where o: "open_restriction new_authority sample_request = Inr (r, a')"
    and "applies r ''S'' ''A''"
    using sample_open by blast
  with open_restriction_effect [OF new_authority_ok o] show ?thesis
    by (auto simp: is_blocked_def)
qed

text \<open>A restriction is cleared only by an authorised decision on verified evidence.  The call
  succeeds exactly when the restriction exists, is open, its evidence is verified and the policy
  authorises the actor; it then records who cleared it, when and on what evidence, changes no
  other restriction, and removes exactly this one from the admission gates.  A second clear of it
  always fails.\<close>

theorem clear_restriction_effect:
  assumes "authority_ok a"
  shows "case clear_restriction policy a rid actor refs ts of
      Inl _ \<Rightarrow> \<not> (\<exists>r. dict_get (ra_ledger a) rid = Some r \<and> rs_status r = RS_OPEN
                   \<and> clear_permitted policy r refs actor)
    | Inr (r', a') \<Rightarrow>
        (\<exists>r. dict_get (ra_ledger a) rid = Some r \<and> rs_status r = RS_OPEN
           \<and> clear_permitted policy r refs actor
           \<and> rs_cleared_by r' = cd_actor_id (cp_decide policy r refs actor))
        \<and> rs_status r' = RS_CLEARED \<and> rs_cleared_at r' = ts \<and> rs_cleared_evidence_refs r' = refs
        \<and> (\<forall>k. dict_get (ra_ledger a') k = (if k = rid then Some r' else dict_get (ra_ledger a) k))
        \<and> (\<forall>s i. gate_restrictions (gate_for_intent a' s i)
              = filter (\<lambda>r. rs_restriction_id r \<noteq> rid) (gate_restrictions (gate_for_intent a s i)))
        \<and> clear_restriction policy' a' rid actor' refs' ts' = Inl (AlreadyCleared rid)"
proof (cases "clear_restriction policy a rid actor refs ts")
  case (Inl e)
  then show ?thesis
    by (auto simp: clear_restriction_def ledger_get_def clear_permitted_def Let_def split: option.splits if_splits)
next
  case (Inr x)
  then obtain r' a' where x: "x = (r', a')" and c: "clear_restriction policy a rid actor refs ts = Inr (r', a')"
    by (cases x) simp
  obtain r where r: "dict_get (ra_ledger a) rid = Some r" "rs_status r = RS_OPEN" "clear_permitted policy r refs actor"
      and r': "r' = r\<lparr>rs_status := RS_CLEARED, rs_cleared_by := cd_actor_id (cp_decide policy r refs actor),
              rs_cleared_at := ts, rs_cleared_evidence_refs := refs,
              rs_clear_decision_note := cd_decision_note (cp_decide policy r refs actor)\<rparr>"
      and a': "a' = a\<lparr>ra_ledger := dict_put (rs_restriction_id r) r' (ra_ledger a)\<rparr>"
    by (rule clear_restriction_Inr [OF c])
  have rid: "rs_restriction_id r = rid" and wf: "dict_wf (ra_ledger a)"
    using assms r(1) by (auto simp: authority_ok_def)
  have keys: "rs_restriction_id (snd kv) = fst kv" if "kv \<in> set (ra_ledger a)" for kv
    using assms that by (cases kv) (auto simp: authority_ok_def dict_get_def dict_wf_def)
  have led: "ra_ledger a' = map (\<lambda>kv. if fst kv = rid then (rid, r') else kv) (ra_ledger a)"
    using dict_put_overwrite [OF wf r(1)] by (simp add: a' rid)
  have gate: "filter (\<lambda>r. rs_status r = RS_OPEN \<and> applies r s i)
         (map snd (map (\<lambda>kv. if fst kv = rid then (rid, r') else kv) l))
      = filter (\<lambda>r. rs_restriction_id r \<noteq> rid) (filter (\<lambda>r. rs_status r = RS_OPEN \<and> applies r s i) (map snd l))"
    if "\<forall>kv \<in> set l. rs_restriction_id (snd kv) = fst kv" for l s i
    using that by (induction l) (auto simp: r')
  have "gate_restrictions (gate_for_intent a' s i)
      = filter (\<lambda>r. rs_restriction_id r \<noteq> rid) (gate_restrictions (gate_for_intent a s i))" for s i
    unfolding gate_alt dict_values_def led using gate keys by blast
  moreover have "clear_restriction policy' a' rid actor' refs' ts' = Inl (AlreadyCleared rid)"
    by (simp add: a' rid dict_get_put clear_restriction_def ledger_get_def r')
  ultimately show ?thesis
    using r by (simp add: Inr x a' rid dict_get_put) (simp add: r')
qed

text \<open>A policy that lets one named officer clear.\<close>

definition officer_policy :: clear_policy where
  "officer_policy =
     \<lparr>cp_is_evidence_verified = (\<lambda>r. True),
      cp_decide = (\<lambda>r refs actor. \<lparr>cd_authorized = (actor = ''OFFICER''), cd_actor_id = Some actor,
        cd_decision_note = []\<rparr>)\<rparr>"

theorem clear_restriction_effect_witness:
  "\<exists>r a. open_restriction new_authority sample_request = Inr (r, a) \<and>
    (\<exists>r' a'. clear_restriction officer_policy a ''IR_R_1'' ''OFFICER'' [] None = Inr (r', a')
       \<and> rs_status r' = RS_CLEARED
       \<and> clear_restriction officer_policy a' ''IR_R_1'' ''OFFICER'' [] None = Inl (AlreadyCleared ''IR_R_1''))"
proof -
  obtain r a where o: "open_restriction new_authority sample_request = Inr (r, a)"
    and r: "rs_restriction_id r = ''IR_R_1''" "rs_status r = RS_OPEN"
    using sample_open by blast
  have ok: "authority_ok a"
    using authority_step_ok [OF new_authority_ok, of default_clear_policy "OpOpen sample_request" a] o
    by simp
  have get: "dict_get (ra_ledger a) ''IR_R_1'' = Some r"
    using open_restriction_Inr(4) [OF o] r(1) by (simp add: ledger_record_def dict_get_put)
  have perm: "clear_permitted officer_policy r [] ''OFFICER''"
    by (simp add: clear_permitted_def officer_policy_def)
  note eff = clear_restriction_effect [OF ok, where policy = officer_policy and rid = "''IR_R_1''"
      and actor = "''OFFICER''" and refs = "[]" and ts = None and policy' = officer_policy
      and actor' = "''OFFICER''" and refs' = "[]" and ts' = None]
  show ?thesis
  proof (cases "clear_restriction officer_policy a ''IR_R_1'' ''OFFICER'' [] None")
    case (Inl e)
    then show ?thesis using eff get r(2) perm by simp
  next
    case (Inr x)
    then show ?thesis using eff o by (cases x) auto
  qed
qed

text \<open>The calls that may clear an open restriction.\<close>

fun clears_now :: "clear_policy \<Rightarrow> string \<Rightarrow> restriction \<Rightarrow> authority_op \<Rightarrow> bool" where
  "clears_now policy rid r (OpClear i actor refs ts) \<longleftrightarrow> i = rid \<and> clear_permitted policy r refs actor"
| "clears_now policy rid r (OpOpen q) \<longleftrightarrow> False"

lemma authority_step_keeps:
  assumes "authority_ok a \<and> dict_get (ra_ledger a) rid = Some r" and "\<not> clears_now policy rid r op"
    and "authority_step policy a op = Inr a'"
  shows "authority_ok a' \<and> dict_get (ra_ledger a') rid = Some r"
proof
  show "authority_ok a'" using authority_step_ok assms(1,3) by blast
  show "dict_get (ra_ledger a') rid = Some r"
  proof (cases op)
    case (OpOpen q)
    then obtain q' where o: "open_restriction a q = Inr (q', a')"
      using assms(3) by (auto simp: rbind_Inr_iff)
    then show ?thesis
      using open_restriction_Inr(4) [OF o] open_restriction_ledger(2) [OF _ o] assms(1)
      by (auto simp: ledger_record_def dict_get_put)
  next
    case (OpClear i actor refs ts)
    then obtain r' where c: "clear_restriction policy a i actor refs ts = Inr (r', a')"
      using assms(3) by (auto simp: rbind_Inr_iff)
    obtain ri where ri: "dict_get (ra_ledger a) i = Some ri" "clear_permitted policy ri refs actor"
      and a': "a' = a\<lparr>ra_ledger := dict_put (rs_restriction_id ri) r' (ra_ledger a)\<rparr>"
      by (rule clear_restriction_Inr [OF c])
    have "rs_restriction_id ri = i" using assms(1) ri(1) by (auto simp: authority_ok_def)
    moreover have "i \<noteq> rid" using assms(1,2) ri OpClear by auto
    ultimately show ?thesis using assms(1) by (simp add: a' dict_get_put)
  qed
qed

text \<open>C14: No restriction disappears.  Whatever sequence of opens and clears the authority is driven
  through (failing calls are caught), an open restriction for which no clear is both evidenced and
  authorised is still recorded, unchanged and open, and it still blocks every intent it applies
  to.  In particular under the default policy no restriction is ever cleared.\<close>

theorem open_restriction_persists:
  assumes "authority_ok a" and "dict_get (ra_ledger a) rid = Some r" and "rs_status r = RS_OPEN"
    and "\<forall>op \<in> set ops. \<not> clears_now policy rid r op"
  shows "let a' = run_lossy (authority_step policy) a ops in
    dict_get (ra_ledger a') rid = Some r
    \<and> (\<forall>s i. applies r s i \<longrightarrow> r \<in> set (gate_restrictions (gate_for_intent a' s i))
         \<and> is_blocked (gate_for_intent a' s i))"
proof -
  let ?a = "run_lossy (authority_step policy) a ops"
  have "authority_ok ?a \<and> dict_get (ra_ledger ?a) rid = Some r"
    by (rule run_lossy_invariant_on [OF _ assms(4)])
      (use assms(1,2) authority_step_keeps in blast)+
  then have "authority_ok ?a" and get: "dict_get (ra_ledger ?a) rid = Some r" by blast+
  then have "r \<in> set (dict_values (ra_ledger ?a))"
    by (simp add: dict_get_in_values)
  then have "r \<in> set (gate_restrictions (gate_for_intent ?a s i))" if "applies r s i" for s i
    using that assms(3) by (simp add: gate_alt)
  with get show ?thesis
    unfolding Let_def is_blocked_def by (metis empty_iff empty_set)
qed

theorem open_restriction_persists_witness:
  "\<exists>r a. open_restriction new_authority sample_request = Inr (r, a) \<and>
    is_blocked (gate_for_intent
      (run_lossy (authority_step default_clear_policy) a [OpClear ''IR_R_1'' ''OFFICER'' [] None]) ''S'' ''A'')"
proof -
  obtain r a where o: "open_restriction new_authority sample_request = Inr (r, a)"
    and r: "rs_restriction_id r = ''IR_R_1''" "rs_status r = RS_OPEN" and ap: "applies r ''S'' ''A''"
    using sample_open by blast
  have ok: "authority_ok a"
    using authority_step_ok [OF new_authority_ok, of default_clear_policy "OpOpen sample_request" a] o
    by simp
  have get: "dict_get (ra_ledger a) ''IR_R_1'' = Some r"
    using open_restriction_Inr(4) [OF o] r(1) by (simp add: ledger_record_def dict_get_put)
  have "\<forall>op \<in> set [OpClear ''IR_R_1'' ''OFFICER'' [] None].
      \<not> clears_now default_clear_policy ''IR_R_1'' r op"
    by (simp add: clear_permitted_def default_clear_policy_def)
  from open_restriction_persists [OF ok get r(2) this] ap o show ?thesis
    by (auto simp: Let_def)
qed

text \<open>\<open>open_for_scope\<close> never reads its scope argument, so a query for one scope also reports the
  restrictions of another that happen to carry the same identifier.\<close>

lemma has_open_ignores_scope: "has_open a scope i = has_open a scope' i"
  by (simp add: has_open_def open_for_scope_def)

end
