(* ===== verification/PyDecimal.thy ===== *)
theory PyDecimal
  imports Prelude Complex_Main
begin

section \<open>Python's \<open>decimal.Decimal\<close> in its default context\<close>

text \<open>
  The code computes money with \<open>decimal.Decimal\<close> in the default context: precision 28,
  rounding half to even, exponents in -999999..999999.  A finite decimal is modelled by its
  value, a rational; every arithmetic operation (also unary minus and \<open>abs\<close>) is the exact
  operation followed by \<open>dround\<close>, the rounding to 28 significant digits.  Comparisons, \<open>min\<close>
  and \<open>max\<close> do not round.  Not modelled: the sign of zero, trailing zeros (\<open>1.0\<close> and \<open>1.00\<close>
  are one value) and the exponent limits, which no monetary amount reaches.
\<close>

type_synonym dec = rat

text \<open>An unvalidated decimal may also be NaN or an infinity.\<close>

datatype raw_dec = Fin dec | NaN | PosInf | NegInf

fun is_finite :: "raw_dec \<Rightarrow> bool" where
  "is_finite (Fin _) = True"
| "is_finite _ = False"

subsection \<open>Rounding half to even\<close>

definition rhe :: "rat \<Rightarrow> int" where
  "rhe x = (let f = \<lfloor>x\<rfloor>; d = x - of_int f
            in if d < 1/2 \<or> (d = 1/2 \<and> even f) then f else f + 1)"

lemma rhe_of_int [simp]: "rhe (of_int n) = n"
  by (simp add: rhe_def)

lemma rhe_bounds: "of_int (rhe x) - 1/2 \<le> x \<and> x \<le> of_int (rhe x) + 1/2"
  unfolding rhe_def Let_def by (auto simp: not_less) linarith+

lemma rhe_floor_cases: "rhe x = \<lfloor>x\<rfloor> \<or> rhe x = \<lfloor>x\<rfloor> + 1"
  by (simp add: rhe_def Let_def)

lemma rhe_mono:
  assumes "x \<le> y"
  shows "rhe x \<le> rhe y"
proof (cases "\<lfloor>x\<rfloor> = \<lfloor>y\<rfloor>")
  case True
  with assms show ?thesis by (auto simp: rhe_def Let_def)
next
  case False
  with assms have "\<lfloor>x\<rfloor> < \<lfloor>y\<rfloor>" using floor_mono [OF assms] by simp
  then show ?thesis using rhe_floor_cases [of x] rhe_floor_cases [of y] by auto
qed

lemma rhe_unique_near:
  assumes "\<bar>x - of_int n\<bar> < 1/2"
  shows "rhe x = n"
  using rhe_bounds [of x] assms by linarith

lemma rhe_half:
  assumes "x = of_int n + 1/2"
  shows "rhe x = (if even n then n else n + 1)"
proof -
  have "\<lfloor>x\<rfloor> = n" using assms by linarith
  then show ?thesis using assms by (simp add: rhe_def)
qed

lemma rhe_minus [simp]: "rhe (- x) = - rhe x"
proof (cases "\<exists>n. x = of_int n + 1/2")
  case True
  then obtain n where n: "x = of_int n + 1/2" by blast
  have "- x = of_int (- n - 1) + 1/2" by (simp add: n)
  from rhe_half [OF n] rhe_half [OF this] show ?thesis by (simp add: even_add)
next
  case False
  have "\<bar>x - of_int (rhe x)\<bar> \<noteq> 1/2"
  proof
    assume "\<bar>x - of_int (rhe x)\<bar> = 1/2"
    then have "x = of_int (rhe x) + 1/2 \<or> x = of_int (rhe x - 1) + 1/2" by (auto simp: abs_if split: if_splits)
    with False show False by blast
  qed
  then have "\<bar>(- x) - of_int (- rhe x)\<bar> < 1/2"
    using rhe_bounds [of x] by (simp add: abs_if split: if_splits)
  then show ?thesis by (rule rhe_unique_near)
qed

subsection \<open>Powers of ten and the decimal exponent\<close>

definition pow10 :: "int \<Rightarrow> rat" where
  "pow10 e = (if 0 \<le> e then 10 ^ nat e else 1 / 10 ^ nat (- e))"

lemma pow10_powi: "pow10 e = 10 powi e"
  by (simp add: pow10_def power_int_def power_one_over inverse_eq_divide)

lemma pow10_pos [simp]: "0 < pow10 e"
  by (simp add: pow10_def)

lemma pow10_nz [simp]: "pow10 e \<noteq> 0"
  using pow10_pos [of e] by linarith

lemma pow10_add: "pow10 (a + b) = pow10 a * pow10 b"
  by (simp add: pow10_powi power_int_add)

lemma pow10_mono: "a \<le> b \<Longrightarrow> pow10 a \<le> pow10 b"
  by (simp add: pow10_powi power_int_increasing)

lemma pow10_less_imp: "pow10 a < pow10 b \<Longrightarrow> a < b"
  using pow10_mono [of b a] by linarith

lemma pow10_numeral: "pow10 (int n) = 10 ^ n"
  by (simp add: pow10_def)

text \<open>Decimal digits of a natural number; \<open>adj x\<close> is Python's \<open>Decimal.adjusted\<close>.\<close>

fun ndigits :: "nat \<Rightarrow> nat" where
  "ndigits n = (if n < 10 then 1 else Suc (ndigits (n div 10)))"

declare ndigits.simps [simp del]

lemma ndigits_pos: "0 < ndigits n"
  by (subst ndigits.simps) simp

lemma ndigits_upper: "n < 10 ^ ndigits n"
proof (induction n rule: ndigits.induct)
  case (1 n)
  show ?case
  proof (cases "n < 10")
    case True
    then show ?thesis by (subst ndigits.simps) simp
  next
    case False
    with 1 have "n div 10 < 10 ^ ndigits (n div 10)" by simp
    then have "n < 10 * 10 ^ ndigits (n div 10)" by linarith
    with False show ?thesis by (subst ndigits.simps) simp
  qed
qed

lemma ndigits_lower: "0 < n \<Longrightarrow> 10 ^ (ndigits n - 1) \<le> n"
proof (induction n rule: ndigits.induct)
  case (1 n)
  show ?case
  proof (cases "n < 10")
    case True
    with 1 show ?thesis by (subst ndigits.simps) simp
  next
    case False
    then have "0 < n div 10" by simp
    with 1 False have "10 ^ (ndigits (n div 10) - 1) \<le> n div 10" by simp
    then have "10 * 10 ^ (ndigits (n div 10) - 1) \<le> n" by linarith
    moreover have "10 * 10 ^ (ndigits (n div 10) - 1) = (10::nat) ^ ndigits (n div 10)"
      using ndigits_pos [of "n div 10"] by (cases "ndigits (n div 10)") auto
    ultimately show ?thesis using False by (subst ndigits.simps) simp
  qed
qed

lemma ndigits_pow10:
  assumes "0 < n"
  shows "pow10 (int (ndigits n) - 1) \<le> of_nat n \<and> of_nat n < pow10 (int (ndigits n))"
proof
  obtain k where k: "ndigits n = Suc k" using ndigits_pos [of n] by (cases "ndigits n") auto
  have "of_nat (10 ^ k) \<le> (of_nat n :: rat)"
    using ndigits_lower [OF assms] unfolding k of_nat_le_iff by simp
  then show "pow10 (int (ndigits n) - 1) \<le> of_nat n" by (simp add: k pow10_numeral)
  have "(of_nat n :: rat) < of_nat (10 ^ ndigits n)"
    using ndigits_upper unfolding of_nat_less_iff by simp
  then show "of_nat n < pow10 (int (ndigits n))" by (simp add: pow10_numeral)
qed

definition adj :: "rat \<Rightarrow> int" where
  "adj x = (let (p, q) = quotient_of \<bar>x\<bar>;
                e = int (ndigits (nat p)) - int (ndigits (nat q))
            in if pow10 e \<le> \<bar>x\<bar> then e else e - 1)"

lemma adj_bounds:
  assumes "x \<noteq> 0"
  shows "pow10 (adj x) \<le> \<bar>x\<bar> \<and> \<bar>x\<bar> < pow10 (adj x + 1)"
proof -
  obtain p q where pq: "quotient_of \<bar>x\<bar> = (p, q)" by force
  have q: "0 < q" using quotient_of_denom_pos [OF pq] .
  have x: "\<bar>x\<bar> = of_int p / of_int q" using quotient_of_div [OF pq] .
  have "0 < \<bar>x\<bar>" using assms by simp
  then have p: "0 < p" using x q by (simp add: zero_less_divide_iff)
  define a b where "a = ndigits (nat p)" and "b = ndigits (nat q)"
  have pr: "of_int p = (of_nat (nat p) :: rat)" "of_int q = (of_nat (nat q) :: rat)"
    using p q by simp_all
  have P: "pow10 (int a - 1) \<le> of_int p" "of_int p < pow10 (int a)"
    using ndigits_pow10 [of "nat p"] p unfolding pr a_def by simp_all
  have Q: "pow10 (int b - 1) \<le> of_int q" "of_int q < pow10 (int b)"
    using ndigits_pow10 [of "nat q"] q unfolding pr b_def by simp_all
  let ?e = "int a - int b"
  have lo: "pow10 (?e - 1) \<le> \<bar>x\<bar>"
  proof -
    have "pow10 (?e - 1) * of_int q \<le> pow10 (?e - 1) * pow10 (int b)"
      using Q by (simp add: mult_left_mono less_imp_le)
    also have "\<dots> = pow10 (int a - 1)" by (simp flip: pow10_add)
    also have "\<dots> \<le> of_int p" by (rule P)
    finally show ?thesis using q by (simp add: x field_simps)
  qed
  have hi: "\<bar>x\<bar> < pow10 (?e + 1)"
  proof -
    have "of_int p < pow10 (?e + 1) * pow10 (int b - 1)"
      using P by (simp flip: pow10_add)
    also have "\<dots> \<le> pow10 (?e + 1) * of_int q" using Q by (simp add: mult_left_mono)
    finally show ?thesis using q by (simp add: x field_simps)
  qed
  from lo hi show ?thesis
    by (auto simp: adj_def pq Let_def a_def [symmetric] b_def [symmetric])
qed

lemma adj_unique:
  assumes "pow10 e \<le> \<bar>x\<bar>" and "\<bar>x\<bar> < pow10 (e + 1)"
  shows "adj x = e"
proof -
  have "x \<noteq> 0" using assms(1) pow10_pos [of e] by (metis abs_zero not_le)
  from adj_bounds [OF this] have "pow10 (adj x) < pow10 (e + 1)" "pow10 e < pow10 (adj x + 1)"
    using assms by auto
  then have "adj x < e + 1" "e < adj x + 1" by (blast dest: pow10_less_imp)+
  then show ?thesis by simp
qed

text \<open>Any quotient representation gives the exponent, so numerals evaluate without a gcd.\<close>

lemma adj_frac:
  assumes "0 < p" and "0 < q"
  shows "adj (of_nat p / of_nat q) =
    (let e = int (ndigits p) - int (ndigits q)
     in if pow10 e \<le> of_nat p / of_nat q then e else e - 1)"
proof -
  let ?x = "of_nat p / of_nat q :: rat" and ?e = "int (ndigits p) - int (ndigits q)"
  note P = ndigits_pow10 [OF assms(1)] and Q = ndigits_pow10 [OF assms(2)]
  have q: "(0::rat) < of_nat q" using assms by simp
  have "pow10 (?e - 1) * of_nat q \<le> pow10 (?e - 1) * pow10 (int (ndigits q))"
    using Q by (simp add: mult_left_mono less_imp_le)
  also have "\<dots> = pow10 (int (ndigits p) - 1)" by (simp flip: pow10_add)
  finally have lo: "pow10 (?e - 1) \<le> ?x" using P q by (simp add: field_simps)
  have "of_nat p < pow10 (?e + 1) * pow10 (int (ndigits q) - 1)"
    using P by (simp flip: pow10_add)
  also have "\<dots> \<le> pow10 (?e + 1) * of_nat q" using Q by (simp add: mult_left_mono)
  finally have hi: "?x < pow10 (?e + 1)" using q by (simp add: field_simps)
  have "\<bar>?x\<bar> = ?x" by simp
  with lo hi show ?thesis
    using adj_unique [of ?e ?x] adj_unique [of "?e - 1" ?x] by (auto simp: Let_def)
qed

lemma adj_numerals:
  "adj (numeral a / numeral b) =
     (let e = int (ndigits (numeral a)) - int (ndigits (numeral b))
      in if pow10 e \<le> numeral a / numeral b then e else e - 1)"
  "adj (1 / numeral b) =
     (let e = 1 - int (ndigits (numeral b)) in if pow10 e \<le> 1 / numeral b then e else e - 1)"
  "adj (numeral a) = int (ndigits (numeral a)) - 1"
  "adj 1 = 0"
proof -
  have d1: "ndigits 1 = 1" by (subst ndigits.simps) simp
  show "adj (numeral a / numeral b) =
     (let e = int (ndigits (numeral a)) - int (ndigits (numeral b))
      in if pow10 e \<le> numeral a / numeral b then e else e - 1)"
    using adj_frac [of "numeral a" "numeral b"] by simp
  show "adj (1 / numeral b) =
     (let e = 1 - int (ndigits (numeral b)) in if pow10 e \<le> 1 / numeral b then e else e - 1)"
    using adj_frac [of 1 "numeral b"] d1 by simp
  show "adj (numeral a) = int (ndigits (numeral a)) - 1"
    using ndigits_pow10 [of "numeral a"] by (intro adj_unique) simp_all
  show "adj 1 = 0" by (rule adj_unique) (simp_all add: pow10_def)
qed

subsection \<open>Rounding to 28 significant digits\<close>

definition dround :: "rat \<Rightarrow> dec" where
  "dround x = (if x = 0 then 0
               else let e = adj x - 27 in of_int (rhe (x / pow10 e)) * pow10 e)"

text \<open>The values a rounded operation can return: at most 28 significant digits.\<close>

definition dec28 :: "rat \<Rightarrow> bool" where
  "dec28 x \<longleftrightarrow> x = 0 \<or> x / pow10 (adj x - 27) \<in> \<int>"

lemma dround_0 [simp]: "dround 0 = 0"
  by (simp add: dround_def)

lemma adj_minus [simp]: "adj (- x) = adj x"
  by (simp add: adj_def)

lemma dround_minus [simp]: "dround (- x) = - dround x"
  by (simp add: dround_def Let_def)

lemma dround_exact: "dec28 x \<Longrightarrow> dround x = x"
proof (cases "x = 0")
  case False
  assume "dec28 x"
  with False obtain n where n: "x / pow10 (adj x - 27) = of_int n" by (auto simp: dec28_def Ints_def)
  then have "dround x = of_int n * pow10 (adj x - 27)" using False by (simp add: dround_def Let_def)
  also have "\<dots> = x" using n [symmetric] by simp
  finally show ?thesis .
qed simp

text \<open>Scaled to its 28 digits, a non-zero value lies between \<open>10 ^ 27\<close> and \<open>10 ^ 28\<close>.\<close>

lemma scaled_bounds:
  assumes "0 < x"
  shows "10 ^ 27 \<le> x / pow10 (adj x - 27) \<and> x / pow10 (adj x - 27) < 10 ^ 28"
proof -
  from adj_bounds [of x] assms have b: "pow10 (adj x) \<le> x" "x < pow10 (adj x + 1)" by auto
  have "pow10 (adj x) = pow10 (adj x - 27) * 10 ^ 27"
    using pow10_add [of "adj x - 27" 27] pow10_numeral [of 27] by simp
  moreover have "pow10 (adj x + 1) = pow10 (adj x - 27) * 10 ^ 28"
    using pow10_add [of "adj x - 27" 28] pow10_numeral [of 28] by (simp add: add.commute)
  ultimately show ?thesis using b by (simp add: field_simps)
qed

lemma rhe_between:
  assumes "of_int a \<le> x" and "x \<le> of_int b"
  shows "a \<le> rhe x \<and> rhe x \<le> b"
  using rhe_mono [OF assms(1)] rhe_mono [OF assms(2)] by simp

lemma dround_bracket:
  assumes "0 < x"
  shows "pow10 (adj x) \<le> dround x \<and> dround x \<le> pow10 (adj x + 1)"
proof -
  let ?e = "adj x - 27" and ?m = "rhe (x / pow10 (adj x - 27))"
  have "of_int (10 ^ 27) \<le> x / pow10 ?e" "x / pow10 ?e \<le> of_int (10 ^ 28)"
    using scaled_bounds [OF assms] by auto
  from rhe_between [OF this] have m: "10 ^ 27 \<le> ?m" "?m \<le> 10 ^ 28" by auto
  have "of_int (10 ^ 27) \<le> (of_int ?m :: rat)" "(of_int ?m :: rat) \<le> of_int (10 ^ 28)"
    using m by (simp_all only: of_int_le_iff)
  then have "10 ^ 27 * pow10 ?e \<le> of_int ?m * pow10 ?e"
    "of_int ?m * pow10 ?e \<le> 10 ^ 28 * pow10 ?e"
    by (auto intro!: mult_right_mono simp: less_imp_le)
  moreover have "pow10 (adj x) = 10 ^ 27 * pow10 ?e" "pow10 (adj x + 1) = 10 ^ 28 * pow10 ?e"
    using pow10_add [of 27 ?e] pow10_add [of 28 ?e] pow10_numeral [of 27] pow10_numeral [of 28]
    by (simp_all add: algebra_simps)
  ultimately show ?thesis using assms by (simp add: dround_def Let_def)
qed

lemma dround_pos: "0 < x \<Longrightarrow> 0 < dround x"
  using dround_bracket [of x] pow10_pos [of "adj x"] by linarith

lemma dround_mono_pos:
  assumes "0 < x" and "x \<le> y"
  shows "dround x \<le> dround y"
proof -
  have y: "0 < y" using assms by simp
  have "pow10 (adj x) < pow10 (adj y + 1)"
    using adj_bounds [of x] adj_bounds [of y] assms y by auto
  then have le: "adj x \<le> adj y" using pow10_less_imp by fastforce
  show ?thesis
  proof (cases "adj x = adj y")
    case True
    have "rhe (x / pow10 (adj x - 27)) \<le> rhe (y / pow10 (adj x - 27))"
      using assms by (intro rhe_mono) (simp add: divide_right_mono less_imp_le)
    then show ?thesis using assms y True
      by (simp add: dround_def Let_def mult_right_mono less_imp_le)
  next
    case False
    then have "pow10 (adj x + 1) \<le> pow10 (adj y)" using le by (intro pow10_mono) simp
    then show ?thesis using dround_bracket [OF assms(1)] dround_bracket [OF y] by linarith
  qed
qed

lemma dround_mono:
  assumes "x \<le> y"
  shows "dround x \<le> dround y"
proof -
  consider "0 < x" | "x \<le> 0" "0 \<le> y" | "y < 0" by linarith
  then show ?thesis
  proof cases
    case 1
    then show ?thesis using assms by (rule dround_mono_pos)
  next
    case 2
    have "dround x \<le> 0" using 2 dround_pos [of "- x"] by (cases "x = 0") auto
    moreover have "0 \<le> dround y" using 2 dround_pos [of y] by (cases "y = 0") auto
    ultimately show ?thesis by simp
  next
    case 3
    then show ?thesis using dround_mono_pos [of "- y" "- x"] assms by simp
  qed
qed

text \<open>A rounded value needs no further rounding.\<close>

lemma dec28I:
  assumes "x = of_int c * pow10 e" and "\<bar>c\<bar> \<le> 10 ^ 28"
  shows "dec28 x"
proof (cases "c = 0")
  case True
  then show ?thesis using assms by (simp add: dec28_def)
next
  case False
  have x0: "x \<noteq> 0" using False assms by simp
  have absx: "\<bar>x\<bar> = of_int \<bar>c\<bar> * pow10 e" using assms(1) by (simp add: abs_mult abs_of_pos)
  show ?thesis
  proof (cases "adj x - 27 \<le> e")
    case True
    then have "pow10 e = pow10 (adj x - 27) * 10 ^ nat (e - (adj x - 27))"
      using pow10_add [of "adj x - 27" "e - (adj x - 27)"] by (simp add: pow10_def)
    then have "x = of_int (c * 10 ^ nat (e - (adj x - 27))) * pow10 (adj x - 27)"
      using assms(1) by (metis (no_types, opaque_lifting) mult.assoc mult.commute of_int_mult
          of_int_numeral of_int_power)
    then have "x / pow10 (adj x - 27) = of_int (c * 10 ^ nat (e - (adj x - 27)))"
      by (metis nonzero_mult_div_cancel_right pow10_nz)
    then show ?thesis unfolding dec28_def by (metis Ints_of_int)
  next
    case False
    then have le: "pow10 (e + 28) \<le> pow10 (adj x)" by (intro pow10_mono) simp
    have "of_int \<bar>c\<bar> \<le> (of_int (10 ^ 28) :: rat)" using assms(2) by (simp only: of_int_le_iff)
    then have "\<bar>x\<bar> \<le> 10 ^ 28 * pow10 e" unfolding absx
      by (intro mult_right_mono) (simp_all add: less_imp_le)
    also have "\<dots> = pow10 (e + 28)" using pow10_numeral [of 28] by (simp add: pow10_add)
    finally have "\<bar>x\<bar> = pow10 (adj x)" using adj_bounds [OF x0] le by linarith
    then have "\<bar>x\<bar> / pow10 (adj x - 27) = of_int (10 ^ 27)"
      using pow10_add [of "adj x - 27" 27] pow10_numeral [of 27] by simp
    then have "x / pow10 (adj x - 27) = of_int (10 ^ 27) \<or> x / pow10 (adj x - 27) = of_int (- (10 ^ 27))"
      by (cases "0 \<le> x") auto
    then show ?thesis unfolding dec28_def by (metis Ints_of_int)
  qed
qed

lemma dec28_dround [simp]: "dec28 (dround x)"
proof (cases "x = 0")
  case True
  then show ?thesis by (simp add: dec28_def)
next
  case False
  let ?m = "rhe (\<bar>x\<bar> / pow10 (adj x - 27))"
  have "adj \<bar>x\<bar> = adj x" by (simp add: adj_def)
  then have "\<bar>x\<bar> / pow10 (adj x - 27) \<le> of_int (10 ^ 28)" "of_int 0 \<le> \<bar>x\<bar> / pow10 (adj x - 27)"
    using scaled_bounds [of "\<bar>x\<bar>"] False by (auto simp: less_imp_le)
  then have "0 \<le> ?m \<and> ?m \<le> 10 ^ 28" using rhe_between by blast
  then have "\<bar>rhe (x / pow10 (adj x - 27))\<bar> \<le> 10 ^ 28" by (cases "0 \<le> x") auto
  then show ?thesis using False by (intro dec28I) (auto simp: dround_def Let_def)
qed

text \<open>Representability is decided by rounding.\<close>

lemma dec28_code [code]: "dec28 x \<longleftrightarrow> dround x = x"
  using dround_exact dec28_dround by metis

lemma dround_idem [simp]: "dround (dround x) = dround x"
  by (simp add: dround_exact)

text \<open>The rounding error is at most half a unit in the 28th digit.\<close>

lemma dround_error: "\<bar>dround x - x\<bar> \<le> \<bar>x\<bar> * (1 / (2 * 10 ^ 27))"
proof (cases "x = 0")
  case True
  then show ?thesis by simp
next
  case False
  let ?p = "pow10 (adj x - 27)"
  have "\<bar>of_int (rhe (x / ?p)) - x / ?p\<bar> \<le> 1/2"
    using rhe_bounds [of "x / ?p"] unfolding abs_le_iff by linarith
  then have "\<bar>of_int (rhe (x / ?p)) - x / ?p\<bar> * ?p \<le> 1/2 * ?p"
    by (intro mult_right_mono) (simp_all add: less_imp_le)
  moreover have "\<bar>dround x - x\<bar> = \<bar>of_int (rhe (x / ?p)) - x / ?p\<bar> * ?p"
  proof -
    have "dround x - x = (of_int (rhe (x / ?p)) - x / ?p) * ?p"
      using False by (simp add: dround_def Let_def left_diff_distrib)
    then show ?thesis by (simp add: abs_mult less_imp_le)
  qed
  moreover have "10 ^ 27 * ?p \<le> \<bar>x\<bar>"
    using adj_bounds [OF False] pow10_add [of 27 "adj x - 27"] pow10_numeral [of 27] by simp
  ultimately have "\<bar>dround x - x\<bar> \<le> 1/2 * ?p" "10 ^ 27 * ?p \<le> \<bar>x\<bar>" by simp_all
  then show ?thesis by simp
qed

subsection \<open>Arithmetic\<close>

definition dadd :: "dec \<Rightarrow> dec \<Rightarrow> dec" where
  "dadd a b = dround (a + b)"

definition dsub :: "dec \<Rightarrow> dec \<Rightarrow> dec" where
  "dsub a b = dround (a - b)"

definition dmul :: "dec \<Rightarrow> dec \<Rightarrow> dec" where
  "dmul a b = dround (a * b)"

text \<open>The divisor is non-zero at every call: the code's guards are part of the callers' models.\<close>

definition ddiv :: "dec \<Rightarrow> dec \<Rightarrow> dec" where
  "ddiv a b = dround (a / b)"

definition dneg :: "dec \<Rightarrow> dec" where
  "dneg a = dround (- a)"

definition dabs :: "dec \<Rightarrow> dec" where
  "dabs a = dround \<bar>a\<bar>"

text \<open>\<open>total = Decimal("0"); for x in xs: total += x\<close>.\<close>

definition dsum :: "dec list \<Rightarrow> dec" where
  "dsum xs = fold (\<lambda>x acc. dadd acc x) xs 0"

lemma floor_rat_numerals:
  "\<lfloor>numeral a / numeral b :: rat\<rfloor> = numeral a div numeral b"
  "\<lfloor>1 / numeral b :: rat\<rfloor> = 1 div numeral b"
  using floor_divide_of_int_eq [of "numeral a" "numeral b", where 'a = rat]
    floor_divide_of_int_eq [of 1 "numeral b", where 'a = rat] by simp_all

text \<open>
  Evaluation of closed decimal expressions by the simplifier: only literals are rounded, so a
  loop over decimals unfolds before its arithmetic is evaluated.
\<close>

lemma dround_small_int: "\<bar>n\<bar> \<le> 10 ^ 28 \<Longrightarrow> dround (of_int n) = of_int n"
  by (intro dround_exact dec28I [of _ n 0]) (simp_all add: pow10_def)

lemma dround_numerals:
  "dround 1 = 1"
  "dround (numeral a) =
     (if (numeral a :: int) \<le> 10 ^ 28 then numeral a
      else let e = adj (numeral a) - 27 in of_int (rhe (numeral a / pow10 e)) * pow10 e)"
  "dround (1 / numeral b) =
     (let e = adj (1 / numeral b) - 27 in of_int (rhe (1 / numeral b / pow10 e)) * pow10 e)"
  "dround (numeral a / numeral b) =
     (let e = adj (numeral a / numeral b) - 27
      in of_int (rhe (numeral a / numeral b / pow10 e)) * pow10 e)"
  using dround_small_int [of 1] dround_small_int [of "numeral a"]
  by (auto simp: dround_def)

lemma rhe_numerals:
  "rhe (numeral a) = numeral a"
  "rhe 1 = 1"
  "rhe (numeral a / numeral b) =
     (let f = numeral a div numeral b; d = numeral a / numeral b - of_int f :: rat
      in if d < 1/2 \<or> (d = 1/2 \<and> even f) then f else f + 1)"
  "rhe (1 / numeral b) =
     (let f = 1 div numeral b; d = 1 / numeral b - of_int f :: rat
      in if d < 1/2 \<or> (d = 1/2 \<and> even f) then f else f + 1)"
  using rhe_of_int [of "numeral a"] rhe_of_int [of 1]
  by (simp_all only: rhe_def floor_rat_numerals) simp_all

lemmas dec_eval = dround_numerals rhe_numerals adj_numerals ndigits.simps pow10_def Let_def

lemmas dec_ops = dadd_def dsub_def dmul_def ddiv_def dneg_def dabs_def

text \<open>
  What the clients of the arithmetic rely on: rounding is monotone, odd and idempotent.  The
  risk engine's bounds need nothing else, so they hold for any such context.
\<close>

locale monotone_rounding =
  fixes rnd :: "rat \<Rightarrow> rat"
  assumes rnd_mono: "x \<le> y \<Longrightarrow> rnd x \<le> rnd y"
    and rnd_0: "rnd 0 = 0"
    and rnd_minus: "rnd (- x) = - rnd x"
    and rnd_idem: "rnd (rnd x) = rnd x"
begin

lemma rnd_nonneg: "0 \<le> x \<Longrightarrow> 0 \<le> rnd x"
  using rnd_mono [of 0 x] by (simp add: rnd_0)

lemma rnd_nonpos: "x \<le> 0 \<Longrightarrow> rnd x \<le> 0"
  using rnd_mono [of x 0] by (simp add: rnd_0)

lemma rnd_upper: "x \<le> y \<Longrightarrow> rnd y = y \<Longrightarrow> rnd x \<le> y"
  using rnd_mono [of x y] by simp

lemma rnd_lower: "y \<le> x \<Longrightarrow> rnd y = y \<Longrightarrow> y \<le> rnd x"
  using rnd_mono [of y x] by simp

text \<open>Scaling a representable non-negative value by a factor in [0, 1] shrinks it.\<close>

lemma rnd_scale_le:
  assumes "0 \<le> a" and "a \<le> 1" and "0 \<le> w" and "rnd w = w"
  shows "0 \<le> rnd (a * w) \<and> rnd (a * w) \<le> w"
proof
  show "0 \<le> rnd (a * w)" using assms by (simp add: rnd_nonneg)
  have "a * w \<le> w" using assms mult_right_mono [of a 1 w] by simp
  then show "rnd (a * w) \<le> w" using assms by (simp add: rnd_upper)
qed

text \<open>A rounded running total of non-negative terms never falls below where it started.\<close>

lemma fold_rnd_ge:
  assumes "\<forall>x \<in> set xs. 0 \<le> x" and "rnd acc = acc"
  shows "acc \<le> fold (\<lambda>x acc. rnd (acc + x)) xs acc \<and>
    rnd (fold (\<lambda>x acc. rnd (acc + x)) xs acc) = fold (\<lambda>x acc. rnd (acc + x)) xs acc"
  using assms
proof (induction xs arbitrary: acc)
  case Nil
  then show ?case by simp
next
  case (Cons x xs)
  have "acc \<le> rnd (acc + x)" using Cons.prems by (intro rnd_lower) auto
  then show ?case using Cons.IH [of "rnd (acc + x)"] Cons.prems by (simp add: rnd_idem)
qed

text \<open>Two running totals compare as their terms do.\<close>

lemma fold_rnd_mono:
  assumes "list_all2 (\<le>) xs ys" and "a \<le> b"
  shows "fold (\<lambda>x acc. rnd (acc + x)) xs a \<le> fold (\<lambda>x acc. rnd (acc + x)) ys b"
  using assms by (induction arbitrary: a b rule: list_all2_induct) (auto intro: rnd_mono add_mono)

end

interpretation dec_ctx: monotone_rounding dround
  by unfold_locales (simp_all add: dround_mono)

lemma dec28_minus [simp]: "dec28 (- x) = dec28 x"
  by (auto simp: dec28_def)

lemma dec28_ops [simp]:
  "dec28 (dadd a b)" "dec28 (dsub a b)" "dec28 (dmul a b)" "dec28 (ddiv a b)" "dec28 (dneg a)"
  "dec28 (dabs a)"
  by (simp_all add: dec_ops)

lemma dec28_0 [simp]: "dec28 0"
  by (simp add: dec28_def)

lemma dec28_of_int: "\<bar>n\<bar> \<le> 10 ^ 28 \<Longrightarrow> dec28 (of_int n)"
  by (rule dec28I [of _ n 0]) (simp_all add: pow10_def)

lemma dneg_exact: "dec28 a \<Longrightarrow> dneg a = - a"
  by (simp add: dneg_def dround_exact)

lemma dabs_exact: "dec28 a \<Longrightarrow> dabs a = \<bar>a\<bar>"
  by (cases "0 \<le> a") (simp_all add: dabs_def dround_exact)

lemma dabs_nonneg [simp]: "0 \<le> dabs a"
  by (simp add: dabs_def dec_ctx.rnd_nonneg)

lemma dmul_0 [simp]: "dmul 0 x = 0" "dmul x 0 = 0"
  by (simp_all add: dmul_def)

lemma dsub_self [simp]: "dsub x x = 0"
  by (simp add: dsub_def)

lemma dadd_commute: "dadd a b = dadd b a"
  by (simp add: dadd_def add.commute)

lemma dmul_commute: "dmul a b = dmul b a"
  by (simp add: dmul_def mult.commute)

lemma dsum_Nil [simp]: "dsum [] = 0"
  by (simp add: dsum_def)

lemma dsum_fold: "dsum xs = fold (\<lambda>x acc. dround (acc + x)) xs 0"
  by (simp add: dsum_def dadd_def)

lemma dsum_nonneg: "\<forall>x \<in> set xs. 0 \<le> x \<Longrightarrow> 0 \<le> dsum xs"
  using dec_ctx.fold_rnd_ge [of xs 0] by (simp add: dsum_fold)

lemma dsum_mono: "list_all2 (\<le>) xs ys \<Longrightarrow> dsum xs \<le> dsum ys"
  using dec_ctx.fold_rnd_mono [of xs ys 0 0] by (simp add: dsum_fold)

lemma dec_nonneg [simp, intro]:
  "0 \<le> a \<Longrightarrow> 0 \<le> b \<Longrightarrow> 0 \<le> dadd a b"
  "0 \<le> a \<Longrightarrow> 0 \<le> b \<Longrightarrow> 0 \<le> dmul a b"
  "0 \<le> a \<Longrightarrow> 0 \<le> b \<Longrightarrow> 0 \<le> ddiv a b"
  "b \<le> a \<Longrightarrow> 0 \<le> dsub a b"
  by (simp_all add: dec_ops dec_ctx.rnd_nonneg)

end
