(* ===== verification/Coordinator.thy ===== *)
theory Coordinator
  imports OrderLifecycle Restriction PyDecimal
begin

section \<open>The execution coordinator\<close>

text \<open>
  \<open>execution/coordinator.py\<close>: the owner of an order's shadow state.  A coordinator is the record
  \<open>coordinator\<close>; \<open>apply_event\<close> and \<open>reconcile\<close> return the outcome and the new coordinator.  The
  text of an incident is kept as the data it interpolates (\<open>incident_detail\<close>).
\<close>

datatype incident_kind =
  IK_LATE_EVENT | IK_DUPLICATE_EVENT | IK_RECONCILIATION_CONFLICT | IK_UNKNOWN_RECONCILIATION

datatype incident_detail =
    DuplicateIdentity string string
  | DuplicateReconcile
  | RejectedByAuthority execution_state_error
  | EvidenceRejected execution_state_error
  | ConflictDetail string string

record incident =
  in_incident_id :: string
  in_kind :: incident_kind
  in_execution_id :: string
  in_broker_event_id :: "string option"
  in_broker_sequence :: "string option"
  in_order_id :: "string option"
  in_shadow_state :: "string option"
  in_broker_observed_state :: "string option"
  in_evidence_refs :: "string list"
  in_observed_at :: "time option"
  in_detail :: incident_detail

record coordinator_event =
  ce_broker_event_id :: string
  ce_broker_sequence :: string
  ce_canonical_event :: execution_event
  ce_evidence :: "string option"
  ce_fill_qty :: "dec option"
  ce_order_id :: "string option"
  ce_observed_at :: "time option"
  ce_evidence_refs :: "string list"

record coordinator_outcome =
  oc_state :: order_lifecycle_state
  oc_filled_qty :: dec
  oc_was_duplicate :: bool
  oc_rejected :: bool
  oc_transition :: "execution_transition option"
  oc_incidents :: "incident list"
  oc_restriction_request :: "restriction_request option"

record coordinator =
  co_execution_id :: string
  co_intent_id :: "string option"
  co_requested_qty :: dec
  co_shadow_state :: order_lifecycle_state
  co_filled_qty :: dec
  co_seen :: "(string \<times> string) list"
  co_incidents :: "incident list"
  co_incident_counter :: nat
  co_disputed :: bool

record execution_snapshot =
  es_execution_id :: string
  es_state :: order_lifecycle_state
  es_requested_qty :: dec
  es_filled_qty :: dec
  es_disputed :: bool
  es_incident_count :: nat

datatype coordinator_error = ExecutionIdEmpty | RequestedQtyNegative

definition mk_coordinator ::
    "string \<Rightarrow> dec \<Rightarrow> order_lifecycle_state \<Rightarrow> string option \<Rightarrow> coordinator_error + coordinator" where
  "mk_coordinator execution_id requested_qty initial_state intent_id =
     (if blank execution_id then Inl ExecutionIdEmpty
      else if requested_qty < 0 then Inl RequestedQtyNegative
      else Inr \<lparr>co_execution_id = execution_id, co_intent_id = intent_id,
                co_requested_qty = requested_qty, co_shadow_state = initial_state,
                co_filled_qty = 0, co_seen = [], co_incidents = [], co_incident_counter = 0,
                co_disputed = False\<rparr>)"

definition snapshot_execution_state :: "coordinator \<Rightarrow> execution_snapshot" where
  "snapshot_execution_state c =
     \<lparr>es_execution_id = co_execution_id c, es_state = co_shadow_state c,
      es_requested_qty = co_requested_qty c, es_filled_qty = co_filled_qty c,
      es_disputed = co_disputed c, es_incident_count = length (co_incidents c)\<rparr>"

subsection \<open>Incidents and restriction requests\<close>

definition new_incident ::
    "incident_kind \<Rightarrow> coordinator_event \<Rightarrow> incident_detail \<Rightarrow> coordinator \<Rightarrow> incident \<times> coordinator" where
  "new_incident ik event detail c =
     (let n = co_incident_counter c + 1;
          i = \<lparr>in_incident_id = ''INC_'' @ co_execution_id c @ ''_'' @ str_nat n, in_kind = ik,
               in_execution_id = co_execution_id c,
               in_broker_event_id = Some (ce_broker_event_id event),
               in_broker_sequence = Some (ce_broker_sequence event),
               in_order_id = ce_order_id event,
               in_shadow_state = Some (state_value (co_shadow_state c)),
               in_broker_observed_state = ce_evidence event,
               in_evidence_refs = ce_evidence_refs event,
               in_observed_at = ce_observed_at event, in_detail = detail\<rparr>
      in (i, c\<lparr>co_incident_counter := n, co_incidents := co_incidents c @ [i]\<rparr>))"

definition build_restriction_request ::
    "coordinator \<Rightarrow> coordinator_event \<Rightarrow> restriction_reason \<Rightarrow> string \<Rightarrow> restriction_request" where
  "build_restriction_request c event reason observed =
     \<lparr>rq_request_id = co_execution_id c @ '':'' @ ce_broker_event_id event @ '':'' @ ce_broker_sequence event,
      rq_scope = SC_EXECUTION, rq_reason = reason, rq_strategy_id = None,
      rq_authorization_id = None, rq_execution_id = Some (co_execution_id c),
      rq_order_id = ce_order_id event, rq_evidence_refs = ce_evidence_refs event,
      rq_shadow_state = Some (state_value (co_shadow_state c)),
      rq_broker_observed_state = Some observed, rq_source = ''EXECUTION_COORDINATOR'',
      rq_observed_at = ce_observed_at event, rq_created_by = ''coordinator'',
      rq_detail = ''Reconciliation conflict: shadow and broker evidence diverge.''\<rparr>"

text \<open>The outcome of the coordinator as it stands.\<close>

definition outcome_now ::
    "coordinator \<Rightarrow> bool \<Rightarrow> bool \<Rightarrow> execution_transition option \<Rightarrow> incident list
     \<Rightarrow> restriction_request option \<Rightarrow> coordinator_outcome" where
  "outcome_now c dup rej tr incs req =
     \<lparr>oc_state = co_shadow_state c, oc_filled_qty = co_filled_qty c, oc_was_duplicate = dup,
      oc_rejected = rej, oc_transition = tr, oc_incidents = incs, oc_restriction_request = req\<rparr>"

subsection \<open>Applying events\<close>

definition event_key :: "coordinator_event \<Rightarrow> string \<times> string" where
  "event_key e = (ce_broker_event_id e, ce_broker_sequence e)"

definition accumulated :: "dec \<Rightarrow> coordinator_event \<Rightarrow> dec" where
  "accumulated filled event =
     (if ce_canonical_event event \<in> {EV_PARTIAL_FILL, EV_FILL}
      then (case ce_fill_qty event of
              None \<Rightarrow> filled
            | Some q \<Rightarrow> if q > 0 then dadd filled q else filled)
      else filled)"

definition apply_event :: "coordinator \<Rightarrow> coordinator_event \<Rightarrow> coordinator_outcome \<times> coordinator" where
  "apply_event c event =
     (let key = event_key event in
      if key \<in> set (co_seen c) then
        (let (i, c') = new_incident IK_DUPLICATE_EVENT event (DuplicateIdentity (fst key) (snd key)) c
         in (outcome_now c' True False None [i] None, c'))
      else
        (let c = c\<lparr>co_seen := key # co_seen c\<rparr> in
         case transition_order (co_shadow_state c) (ce_canonical_event event) (ce_evidence event) of
           Inl exc \<Rightarrow>
             (let (i, c') = new_incident IK_LATE_EVENT event (RejectedByAuthority exc) c
              in (outcome_now c' False True None [i] None, c'))
         | Inr t \<Rightarrow>
             (let c' = c\<lparr>co_shadow_state := new_state t,
                         co_filled_qty := accumulated (co_filled_qty c) event\<rparr>
              in (outcome_now c' False False (Some t) [] None, c'))))"

definition reconcile_event ::
    "string \<Rightarrow> string \<Rightarrow> string \<Rightarrow> string option \<Rightarrow> time option \<Rightarrow> string list \<Rightarrow> coordinator_event" where
  "reconcile_event beid bseq token oid ts refs =
     \<lparr>ce_broker_event_id = beid, ce_broker_sequence = bseq, ce_canonical_event = EV_RECONCILE,
      ce_evidence = Some token, ce_fill_qty = None, ce_order_id = oid, ce_observed_at = ts,
      ce_evidence_refs = refs\<rparr>"

definition reconcile ::
    "coordinator \<Rightarrow> string \<Rightarrow> string \<Rightarrow> string \<Rightarrow> string option \<Rightarrow> time option \<Rightarrow> string list
     \<Rightarrow> coordinator_outcome \<times> coordinator" where
  "reconcile c beid bseq token oid ts refs =
     (let event = reconcile_event beid bseq token oid ts refs; key = (beid, bseq) in
      if key \<in> set (co_seen c) then
        (let (i, c') = new_incident IK_DUPLICATE_EVENT event DuplicateReconcile c
         in (outcome_now c' True False None [i] None, c'))
      else
        (let c = c\<lparr>co_seen := key # co_seen c\<rparr> in
         if is_terminal (co_shadow_state c) then
           (let terminal_token = state_value (co_shadow_state c) in
            if upper (strip token) \<noteq> terminal_token then
              (let (i, c1) = new_incident IK_RECONCILIATION_CONFLICT event
                               (ConflictDetail terminal_token token) c;
                   c' = c1\<lparr>co_disputed := True\<rparr>;
                   req = build_restriction_request c' event RR_RECONCILIATION_CONFLICT (upper (strip token))
               in (outcome_now c' False False None [i] (Some req), c'))
            else (outcome_now c False False None [] None, c))
         else
           (case transition_order (co_shadow_state c) EV_RECONCILE (Some token) of
              Inl exc \<Rightarrow>
                (let (i, c1) = new_incident IK_UNKNOWN_RECONCILIATION event (EvidenceRejected exc) c;
                     c' = c1\<lparr>co_disputed := True\<rparr>
                 in (outcome_now c' False True None [i] None, c'))
            | Inr t \<Rightarrow>
                (let c1 = c\<lparr>co_shadow_state := new_state t\<rparr>;
                     c' = (if dispute t then c1\<lparr>co_disputed := True\<rparr> else c1)
                 in (outcome_now c' False False (Some t) [] None, c')))))"

text \<open>The lifecycle seam that forwards to \<open>reconcile\<close>.\<close>

definition apply_reconciliation ::
    "coordinator \<Rightarrow> string \<Rightarrow> string \<Rightarrow> string \<Rightarrow> string option \<Rightarrow> time option \<Rightarrow> string list
     \<Rightarrow> coordinator_outcome \<times> coordinator" where
  "apply_reconciliation = reconcile"

subsection \<open>Histories of deliveries\<close>

datatype call =
    Deliver coordinator_event
  | Reconcile string string string "string option" "time option" "string list"

fun call_key :: "call \<Rightarrow> string \<times> string" where
  "call_key (Deliver e) = event_key e"
| "call_key (Reconcile beid bseq token oid ts refs) = (beid, bseq)"

fun call_event :: "call \<Rightarrow> execution_event \<times> string option" where
  "call_event (Deliver e) = (ce_canonical_event e, ce_evidence e)"
| "call_event (Reconcile beid bseq token oid ts refs) = (EV_RECONCILE, Some token)"

fun perform :: "coordinator \<Rightarrow> call \<Rightarrow> coordinator_outcome \<times> coordinator" where
  "perform c (Deliver e) = apply_event c e"
| "perform c (Reconcile beid bseq token oid ts refs) = reconcile c beid bseq token oid ts refs"

definition after :: "coordinator \<Rightarrow> call \<Rightarrow> coordinator" where
  "after c x = snd (perform c x)"

definition run_calls :: "coordinator \<Rightarrow> call list \<Rightarrow> coordinator" where
  "run_calls = foldl after"

lemma run_calls_simps [simp]:
  "run_calls c [] = c"
  "run_calls c (x # xs) = run_calls (after c x) xs"
  "run_calls c (xs @ ys) = run_calls (run_calls c xs) ys"
  by (simp_all add: run_calls_def)

text \<open>What the incident log does not touch.\<close>

lemma new_incident_frame [simp]:
  "co_shadow_state (snd (new_incident k e d c)) = co_shadow_state c"
  "co_filled_qty (snd (new_incident k e d c)) = co_filled_qty c"
  "co_seen (snd (new_incident k e d c)) = co_seen c"
  "co_disputed (snd (new_incident k e d c)) = co_disputed c"
  "co_execution_id (snd (new_incident k e d c)) = co_execution_id c"
  "co_intent_id (snd (new_incident k e d c)) = co_intent_id c"
  "co_requested_qty (snd (new_incident k e d c)) = co_requested_qty c"
  "co_incidents (snd (new_incident k e d c)) = co_incidents c @ [fst (new_incident k e d c)]"
  by (simp_all add: new_incident_def Let_def)

lemmas coordinator_defs = apply_event_def reconcile_def outcome_now_def reconcile_event_def
  event_key_def Let_def case_prod_beta

text \<open>A delivery whose identity was seen changes only the incident log.\<close>

lemma seen_call:
  assumes "call_key x \<in> set (co_seen c)"
  shows "\<exists>i. co_incidents (after c x) = co_incidents c @ [i] \<and> in_kind i = IK_DUPLICATE_EVENT
    \<and> co_shadow_state (after c x) = co_shadow_state c \<and> co_filled_qty (after c x) = co_filled_qty c
    \<and> co_disputed (after c x) = co_disputed c \<and> co_seen (after c x) = co_seen c
    \<and> oc_was_duplicate (fst (perform c x))"
  using assms by (cases x) (auto simp: after_def coordinator_defs, auto simp: new_incident_def Let_def)

text \<open>The lifecycle projection: everything but the incident log.\<close>

definition lifecycle_view ::
    "coordinator \<Rightarrow> order_lifecycle_state \<times> dec \<times> (string \<times> string) set \<times> bool" where
  "lifecycle_view c = (co_shadow_state c, co_filled_qty c, set (co_seen c), co_disputed c)"

lemma view_fresh:
  assumes "call_key x \<notin> set (co_seen c)"
  shows "lifecycle_view (after c x) =
    (case x of
       Deliver e \<Rightarrow>
         (case transition_order (co_shadow_state c) (ce_canonical_event e) (ce_evidence e) of
            Inl _ \<Rightarrow> (co_shadow_state c, co_filled_qty c, insert (call_key x) (set (co_seen c)), co_disputed c)
          | Inr t \<Rightarrow> (new_state t, accumulated (co_filled_qty c) e, insert (call_key x) (set (co_seen c)),
                     co_disputed c))
     | Reconcile beid bseq token oid ts refs \<Rightarrow>
         if is_terminal (co_shadow_state c)
         then (co_shadow_state c, co_filled_qty c, insert (call_key x) (set (co_seen c)),
               co_disputed c \<or> upper (strip token) \<noteq> state_value (co_shadow_state c))
         else (case transition_order (co_shadow_state c) EV_RECONCILE (Some token) of
                 Inl _ \<Rightarrow> (co_shadow_state c, co_filled_qty c, insert (call_key x) (set (co_seen c)), True)
               | Inr t \<Rightarrow> (new_state t, co_filled_qty c, insert (call_key x) (set (co_seen c)),
                          co_disputed c \<or> dispute t)))"
proof (cases x)
  case (Deliver e)
  with assms show ?thesis
    by (auto simp: after_def coordinator_defs lifecycle_view_def split: sum.splits)
next
  case (Reconcile beid bseq token oid ts refs)
  with assms show ?thesis
    by (auto simp: after_def coordinator_defs lifecycle_view_def simp del: is_terminal_simps
        split: sum.splits)
qed

lemma view_seen: "call_key x \<in> set (co_seen c) \<Longrightarrow> lifecycle_view (after c x) = lifecycle_view c"
  using seen_call [of x c] by (auto simp: lifecycle_view_def)

lemma view_cong:
  assumes "lifecycle_view c = lifecycle_view d"
  shows "lifecycle_view (after c x) = lifecycle_view (after d x)"
proof -
  have eq: "co_shadow_state c = co_shadow_state d" "co_filled_qty c = co_filled_qty d"
      "set (co_seen c) = set (co_seen d)" "co_disputed c = co_disputed d"
    using assms by (simp_all add: lifecycle_view_def)
  show ?thesis
  proof (cases "call_key x \<in> set (co_seen c)")
    case True
    then show ?thesis using view_seen assms eq(3) by metis
  next
    case False
    then have "call_key x \<notin> set (co_seen d)" using eq(3) by simp
    from view_fresh [OF False] view_fresh [OF this] show ?thesis by (simp only: eq)
  qed
qed

lemma view_cong_run:
  "lifecycle_view c = lifecycle_view d \<Longrightarrow> lifecycle_view (run_calls c xs) = lifecycle_view (run_calls d xs)"
proof (induction xs arbitrary: c d)
  case (Cons x xs)
  show ?case unfolding run_calls_simps by (rule Cons.IH [OF view_cong [OF Cons.prems]])
qed simp

lemma seen_after: "set (co_seen (after c x)) = insert (call_key x) (set (co_seen c))"
proof (cases "call_key x \<in> set (co_seen c)")
  case True
  then show ?thesis using seen_call [OF True] by auto
next
  case False
  have "set (co_seen (after c x)) = fst (snd (snd (lifecycle_view (after c x))))"
    by (simp add: lifecycle_view_def)
  then show ?thesis
    unfolding view_fresh [OF False] by (cases x) (auto split: sum.splits simp del: is_terminal_simps)
qed

lemma seen_run: "set (co_seen (run_calls c xs)) = call_key ` set xs \<union> set (co_seen c)"
  by (induction xs arbitrary: c) (auto simp: seen_after)

text \<open>The first delivery of each identity.\<close>

fun first_deliveries :: "(string \<times> string) set \<Rightarrow> call list \<Rightarrow> call list" where
  "first_deliveries seen [] = []"
| "first_deliveries seen (x # xs) =
     (if call_key x \<in> seen then first_deliveries seen xs
      else x # first_deliveries (insert (call_key x) seen) xs)"

text \<open>C11: Exactly-once effect under at-least-once delivery.  However often, and in whatever order,
  events and reconciliations are redelivered, the shadow state, the filled quantity, the dispute
  flag and the set of known identities are those of delivering only the first message of each
  identity.\<close>

theorem redelivery_has_no_effect:
  "lifecycle_view (run_calls c xs)
    = lifecycle_view (run_calls c (first_deliveries (set (co_seen c)) xs))"
proof (induction xs arbitrary: c)
  case (Cons x xs)
  show ?case
  proof (cases "call_key x \<in> set (co_seen c)")
    case True
    have "lifecycle_view (run_calls c (x # xs)) = lifecycle_view (run_calls c xs)"
      using view_cong_run [OF view_seen [OF True]] by simp
    then show ?thesis using Cons.IH [of c] True by simp
  next
    case False
    then show ?thesis using Cons.IH [of "after c x"] by (simp add: seen_after)
  qed
qed simp

subsection \<open>The state machine is the only authority\<close>

lemma after_step:
  "co_shadow_state (after c x) = co_shadow_state c
   \<or> contract (co_shadow_state c) (fst (call_event x)) (snd (call_event x)) (co_shadow_state (after c x))"
proof (cases "call_key x \<in> set (co_seen c)")
  case True
  then show ?thesis using seen_call by blast
next
  case False
  have st: "co_shadow_state (after c x) = fst (lifecycle_view (after c x))"
    by (simp add: lifecycle_view_def)
  show ?thesis
    unfolding st view_fresh [OF False]
    by (cases x) (auto split: sum.splits dest: transition_contract simp del: is_terminal_simps)
qed

lemma after_frame:
  "co_execution_id (after c x) = co_execution_id c \<and> co_intent_id (after c x) = co_intent_id c
   \<and> co_requested_qty (after c x) = co_requested_qty c
   \<and> (\<exists>is. co_incidents (after c x) = co_incidents c @ is \<and> oc_incidents (fst (perform c x)) = is)
   \<and> (co_disputed c \<longrightarrow> co_disputed (after c x))
   \<and> oc_state (fst (perform c x)) = co_shadow_state (after c x)
   \<and> oc_filled_qty (fst (perform c x)) = co_filled_qty (after c x)"
  by (cases x) (auto simp: after_def coordinator_defs simp del: is_terminal_simps split: sum.splits)

text \<open>C12: The coordinator never decides a state itself and never loses a message silently.  After
  any delivery the shadow state is unchanged or follows by one row of the normative contract for
  the delivered event; if no transition was applied, state and filled quantity are unchanged and
  either an incident was logged or the delivery was a reconciliation that confirms the terminal
  state; the incident log only grows, a dispute is never withdrawn, and the identity of the
  execution never changes.\<close>

theorem coordinator_never_self_selects:
  "(co_shadow_state (after c x) = co_shadow_state c
      \<or> contract (co_shadow_state c) (fst (call_event x)) (snd (call_event x)) (co_shadow_state (after c x)))
   \<and> (oc_transition (fst (perform c x)) = None \<longrightarrow>
        co_shadow_state (after c x) = co_shadow_state c \<and> co_filled_qty (after c x) = co_filled_qty c
        \<and> (oc_incidents (fst (perform c x)) \<noteq> []
           \<or> is_terminal (co_shadow_state c) \<and> evidence_names (snd (call_event x)) (co_shadow_state c)))
   \<and> co_incidents (after c x) = co_incidents c @ oc_incidents (fst (perform c x))
   \<and> (co_disputed c \<longrightarrow> co_disputed (after c x))
   \<and> co_execution_id (after c x) = co_execution_id c \<and> co_requested_qty (after c x) = co_requested_qty c"
proof -
  have "oc_transition (fst (perform c x)) = None \<longrightarrow>
        co_shadow_state (after c x) = co_shadow_state c \<and> co_filled_qty (after c x) = co_filled_qty c
        \<and> (oc_incidents (fst (perform c x)) \<noteq> []
           \<or> is_terminal (co_shadow_state c) \<and> evidence_names (snd (call_event x)) (co_shadow_state c))"
    by (cases x)
      (auto simp: after_def coordinator_defs evidence_names_def simp del: is_terminal_simps split: sum.splits)
  then show ?thesis using after_step after_frame by (metis (no_types, lifting))
qed

text \<open>A terminal shadow state is final for the coordinator as well: whatever is delivered after
  it, events or contradictory reconciliations, neither state nor filled quantity changes.\<close>

theorem terminal_execution_is_final:
  assumes "is_terminal (co_shadow_state c)"
  shows "co_shadow_state (run_calls c xs) = co_shadow_state c
    \<and> co_filled_qty (run_calls c xs) = co_filled_qty c"
  using assms
proof (induction xs arbitrary: c)
  case (Cons x xs)
  have "co_shadow_state (after c x) = co_shadow_state c \<and> co_filled_qty (after c x) = co_filled_qty c"
  proof (cases "call_key x \<in> set (co_seen c)")
    case True
    then show ?thesis using seen_call by blast
  next
    case False
    have "(co_shadow_state (after c x), co_filled_qty (after c x))
        = (fst (lifecycle_view (after c x)), fst (snd (lifecycle_view (after c x))))"
      by (simp add: lifecycle_view_def)
    then show ?thesis
      unfolding view_fresh [OF False]
      by (cases x) (use Cons.prems terminal_raises in \<open>simp_all del: is_terminal_simps\<close>)
  qed
  then show ?case using Cons.IH [of "after c x"] Cons.prems by simp
qed simp

definition sample_coordinator :: "order_lifecycle_state \<Rightarrow> coordinator" where
  "sample_coordinator s =
     \<lparr>co_execution_id = ''E1'', co_intent_id = None, co_requested_qty = 1, co_shadow_state = s,
      co_filled_qty = 0, co_seen = [], co_incidents = [], co_incident_counter = 0, co_disputed = False\<rparr>"

lemma sample_coordinator_fields [simp]:
  "co_shadow_state (sample_coordinator s) = s" "co_filled_qty (sample_coordinator s) = 0"
  "co_seen (sample_coordinator s) = []" "co_execution_id (sample_coordinator s) = ''E1''"
  "co_requested_qty (sample_coordinator s) = 1" "co_incidents (sample_coordinator s) = []"
  "co_disputed (sample_coordinator s) = False"
  by (simp_all add: sample_coordinator_def)

definition sample_event :: "string \<Rightarrow> execution_event \<Rightarrow> dec \<Rightarrow> coordinator_event" where
  "sample_event i e q =
     \<lparr>ce_broker_event_id = i, ce_broker_sequence = i, ce_canonical_event = e, ce_evidence = None,
      ce_fill_qty = Some q, ce_order_id = None, ce_observed_at = None, ce_evidence_refs = []\<rparr>"

theorem coordinator_never_self_selects_witness:
  "co_shadow_state (after (sample_coordinator OL_CANCEL_REQUESTED) (Deliver (sample_event ''1'' EV_PARTIAL_FILL 1)))
     = OL_CANCEL_REQUESTED"
proof -
  let ?c = "sample_coordinator OL_CANCEL_REQUESTED" and ?x = "Deliver (sample_event ''1'' EV_PARTIAL_FILL 1)"
  have "oc_transition (fst (perform ?c ?x)) = None"
    by (simp add: coordinator_defs sample_event_def transition_order_def transitions_def)
  with coordinator_never_self_selects [of ?c ?x] show ?thesis by simp
qed

theorem terminal_execution_is_final_witness:
  "co_shadow_state (run_calls (sample_coordinator OL_FILLED)
     [Deliver (sample_event ''1'' EV_CANCEL_ACK 0), Reconcile ''2'' ''2'' ''CANCELLED'' None None []]) = OL_FILLED"
proof -
  have "is_terminal (co_shadow_state (sample_coordinator OL_FILLED))"
    by simp
  from terminal_execution_is_final [OF this] show ?thesis by (simp del: run_calls_simps)
qed

subsection \<open>Filled quantity\<close>

lemma accumulated_grows:
  assumes "0 \<le> q" and "dec28 q"
  shows "q \<le> accumulated q e \<and> 0 \<le> accumulated q e \<and> dec28 (accumulated q e)"
proof -
  have "q \<le> dadd q x" if "0 < x" for x
  proof -
    have "dround q \<le> dround (q + x)" using that by (intro dround_mono) simp
    then show ?thesis using dround_exact [OF assms(2)] by (simp add: dadd_def)
  qed
  then show ?thesis
    using assms by (force simp: accumulated_def split: option.splits)
qed

text \<open>The fills that count: the first delivery of a fill event that the state machine accepted.\<close>

fun counted_fill :: "coordinator \<Rightarrow> call \<Rightarrow> bool" where
  "counted_fill c (Deliver e) \<longleftrightarrow> event_key e \<notin> set (co_seen c)
     \<and> ce_canonical_event e \<in> {EV_PARTIAL_FILL, EV_FILL}
     \<and> (\<exists>t. transition_order (co_shadow_state c) (ce_canonical_event e) (ce_evidence e) = Inr t)
     \<and> (\<exists>q. ce_fill_qty e = Some q \<and> 0 < q)"
| "counted_fill c (Reconcile beid bseq token oid ts refs) \<longleftrightarrow> False"

fun fill_of :: "call \<Rightarrow> dec" where
  "fill_of (Deliver e) = (case ce_fill_qty e of None \<Rightarrow> 0 | Some q \<Rightarrow> q)"
| "fill_of (Reconcile beid bseq token oid ts refs) = 0"

fun counted_fills :: "coordinator \<Rightarrow> call list \<Rightarrow> dec list" where
  "counted_fills c [] = []"
| "counted_fills c (x # xs) = (if counted_fill c x then [fill_of x] else []) @ counted_fills (after c x) xs"

lemma filled_after:
  "co_filled_qty (after c x) = (if counted_fill c x then dadd (co_filled_qty c) (fill_of x) else co_filled_qty c)"
proof (cases "call_key x \<in> set (co_seen c)")
  case True
  then have "\<not> counted_fill c x" by (cases x) simp_all
  then show ?thesis using seen_call [OF True] by auto
next
  case False
  have "co_filled_qty (after c x) = fst (snd (lifecycle_view (after c x)))"
    by (simp add: lifecycle_view_def)
  then show ?thesis
    unfolding view_fresh [OF False]
    using False by (cases x) (auto simp: accumulated_def simp del: is_terminal_simps split: sum.splits option.splits)
qed

lemma filled_run:
  "co_filled_qty (run_calls c xs) = foldl dadd (co_filled_qty c) (counted_fills c xs)"
  by (induction xs arbitrary: c) (simp_all add: filled_after)

lemma counted_fills_pos: "\<forall>q \<in> set (counted_fills c xs). 0 < q"
proof (induction xs arbitrary: c)
  case (Cons x xs)
  have "counted_fill c x \<Longrightarrow> 0 < fill_of x" by (cases x) auto
  then show ?case using Cons by auto
qed simp

lemma foldl_dadd_grows:
  "0 \<le> q \<Longrightarrow> dec28 q \<Longrightarrow> \<forall>x \<in> set xs. 0 < x \<Longrightarrow> q \<le> foldl dadd q xs"
proof (induction xs arbitrary: q)
  case (Cons x xs)
  have "dround q \<le> dround (q + x)" using Cons.prems by (intro dround_mono) simp
  then have "q \<le> dadd q x" using dround_exact [OF Cons.prems(2)] by (simp add: dadd_def)
  then show ?case using Cons.IH [of "dadd q x"] Cons.prems by (auto intro: order_trans)
qed simp

text \<open>The filled quantity is exactly the decimal sum, in delivery order, of the positive
  quantities of the fill events that the state machine accepted on their first delivery, starting
  from what was filled before; it never decreases.\<close>

theorem filled_quantity_accounts_for_fills:
  assumes "0 \<le> co_filled_qty c" and "dec28 (co_filled_qty c)"
  shows "co_filled_qty (run_calls c xs) = foldl dadd (co_filled_qty c) (counted_fills c xs)
    \<and> (\<forall>q \<in> set (counted_fills c xs). 0 < q) \<and> co_filled_qty c \<le> co_filled_qty (run_calls c xs)"
  using filled_run counted_fills_pos foldl_dadd_grows [OF assms] by simp

theorem filled_quantity_accounts_for_fills_witness:
  "0 \<le> co_filled_qty (run_calls (sample_coordinator OL_ACKNOWLEDGED)
     [Deliver (sample_event ''1'' EV_PARTIAL_FILL 5), Deliver (sample_event ''1'' EV_PARTIAL_FILL 5)])"
proof -
  have "0 \<le> co_filled_qty (sample_coordinator OL_ACKNOWLEDGED)" "dec28 (co_filled_qty (sample_coordinator OL_ACKNOWLEDGED))"
    by simp_all
  from filled_quantity_accounts_for_fills [OF this, THEN conjunct2, THEN conjunct2] show ?thesis
    unfolding sample_coordinator_fields by blast
qed

text \<open>The coordinator does not compare the sum with the requested quantity.\<close>

lemma overfill_is_accepted:
  "let c = run_calls (sample_coordinator OL_ACKNOWLEDGED) [Deliver (sample_event ''1'' EV_PARTIAL_FILL 5)]
   in co_requested_qty c = 1 \<and> co_filled_qty c = 5 \<and> co_incidents c = []"
proof -
  have t: "transition_order OL_ACKNOWLEDGED EV_PARTIAL_FILL None
      = Inr \<lparr>new_state = OL_PARTIALLY_FILLED, now_terminal = False, dispute = False, evidence_required = False\<rparr>"
    by code_simp
  show ?thesis
    by (simp add: after_def coordinator_defs sample_coordinator_def sample_event_def t accumulated_def
        dadd_def dround_small_int [of 5, simplified])
qed

text \<open>A fill that races a pending cancel is lost.  When a cancel is pending, a partial fill the
  broker reports is rejected by the state machine, logged as a late event although the order is
  not terminal, and its identity is consumed: whatever happens next, for instance the broker
  rejecting the cancel so that the order works again, redelivering the same fill changes neither
  state nor filled quantity.\<close>

theorem fill_racing_cancel_is_lost:
  assumes "co_shadow_state c = OL_CANCEL_REQUESTED" and "event_key e \<notin> set (co_seen c)"
    and "ce_canonical_event e = EV_PARTIAL_FILL"
  shows "oc_rejected (fst (apply_event c e))
    \<and> map in_kind (oc_incidents (fst (apply_event c e))) = [IK_LATE_EVENT]
    \<and> co_filled_qty (after c (Deliver e)) = co_filled_qty c
    \<and> (\<forall>xs. let d = run_calls (after c (Deliver e)) xs in
         lifecycle_view (after d (Deliver e)) = lifecycle_view d)"
proof -
  have t: "transition_order OL_CANCEL_REQUESTED EV_PARTIAL_FILL ev
      = Inl (NotInTable OL_CANCEL_REQUESTED EV_PARTIAL_FILL)" for ev
    by (simp add: transition_order_def transitions_def)
  have 1: "oc_rejected (fst (apply_event c e))
    \<and> map in_kind (oc_incidents (fst (apply_event c e))) = [IK_LATE_EVENT]
    \<and> co_filled_qty (after c (Deliver e)) = co_filled_qty c"
    using assms by (simp add: coordinator_defs t after_def) (simp add: new_incident_def Let_def)
  have "call_key (Deliver e) \<in> set (co_seen (run_calls (after c (Deliver e)) xs))" for xs
    by (simp add: seen_run seen_after)
  with 1 show ?thesis using view_seen by (metis (no_types, lifting))
qed

theorem fill_racing_cancel_is_lost_witness:
  "let e = sample_event ''1'' EV_PARTIAL_FILL 1;
       c = run_calls (sample_coordinator OL_CANCEL_REQUESTED)
             [Deliver e, Deliver (sample_event ''2'' EV_CANCEL_REJECT 0), Deliver e]
   in co_shadow_state c = OL_ACKNOWLEDGED \<and> co_filled_qty c = 0"
proof -
  let ?e = "sample_event ''1'' EV_PARTIAL_FILL 1" and ?x = "Deliver (sample_event ''2'' EV_CANCEL_REJECT 0)"
  let ?c = "after (sample_coordinator OL_CANCEL_REQUESTED) (Deliver ?e)"
  have "co_shadow_state (sample_coordinator OL_CANCEL_REQUESTED) = OL_CANCEL_REQUESTED"
    "event_key ?e \<notin> set (co_seen (sample_coordinator OL_CANCEL_REQUESTED))"
    "ce_canonical_event ?e = EV_PARTIAL_FILL"
    by (simp_all add: sample_event_def)
  note lost = fill_racing_cancel_is_lost [OF this]
  have t: "transition_order OL_CANCEL_REQUESTED EV_CANCEL_REJECT None
      = Inr \<lparr>new_state = OL_ACKNOWLEDGED, now_terminal = False, dispute = False, evidence_required = False\<rparr>"
    "transition_order OL_CANCEL_REQUESTED EV_PARTIAL_FILL None
      = Inl (NotInTable OL_CANCEL_REQUESTED EV_PARTIAL_FILL)"
    by code_simp+
  have "lifecycle_view (run_calls ?c [?x]) = (OL_ACKNOWLEDGED, 0, {(''1'', ''1''), (''2'', ''2'')}, False)"
    by (auto simp: lifecycle_view_def after_def coordinator_defs sample_event_def t accumulated_def)
  moreover have "lifecycle_view (after (run_calls ?c [?x]) (Deliver ?e)) = lifecycle_view (run_calls ?c [?x])"
    using lost by (simp only: Let_def)
  ultimately show ?thesis by (simp add: lifecycle_view_def)
qed

subsection \<open>Conflicts and the restriction authority\<close>

text \<open>A reconciliation that contradicts a terminal state never changes it: the execution is
  marked disputed and the outcome carries a restriction request.  The authority opens it (the
  request's identifier is never blank) and the execution is then restricted; but the request has
  execution scope, which the admission gate does not consult, so no order intent is blocked by it
  that was not blocked before.\<close>

theorem conflict_restricts_execution_not_admission:
  assumes "is_terminal (co_shadow_state c)" and "upper (strip token) \<noteq> state_value (co_shadow_state c)"
    and "(beid, bseq) \<notin> set (co_seen c)" and "authority_ok a" and "\<not> blank (co_execution_id c)"
  shows "\<exists>q r a'. oc_restriction_request (fst (reconcile c beid bseq token oid ts refs)) = Some q
    \<and> open_restriction a q = Inr (r, a')
    \<and> co_disputed (snd (reconcile c beid bseq token oid ts refs))
    \<and> co_shadow_state (snd (reconcile c beid bseq token oid ts refs)) = co_shadow_state c
    \<and> has_open a' SC_EXECUTION (co_execution_id c)
    \<and> (\<forall>s i. gate_for_intent a' s i = gate_for_intent a s i)"
proof -
  let ?rec = "reconcile c beid bseq token oid ts refs"
  have rec: "co_disputed (snd ?rec)" "co_shadow_state (snd ?rec) = co_shadow_state c"
      "\<exists>q. oc_restriction_request (fst ?rec) = Some q \<and> rq_scope q = SC_EXECUTION
         \<and> rq_execution_id q = Some (co_execution_id c)
         \<and> rq_request_id q = co_execution_id c @ '':'' @ beid @ '':'' @ bseq"
    using assms(1-3)
    by (auto simp: coordinator_defs build_restriction_request_def simp del: is_terminal_simps)
  obtain q where q: "oc_restriction_request (fst ?rec) = Some q" "rq_scope q = SC_EXECUTION"
      "rq_execution_id q = Some (co_execution_id c)"
      "rq_request_id q = co_execution_id c @ '':'' @ beid @ '':'' @ bseq"
    using rec(3) by blast
  have "\<not> blank (rq_request_id q)"
    using assms(5) q(4) by (auto simp: blank_iff strip_eq_Nil_iff)
  then obtain r a' where o: "open_restriction a q = Inr (r, a')"
    by (simp add: open_restriction_def Let_def)
  note ok = open_restriction_Inr [OF o]
  have r: "rs_scope r = SC_EXECUTION" "rs_execution_id r = Some (co_execution_id c)" using ok q by simp_all
  note led = open_restriction_ledger [OF assms(4) o]
  have "\<not> applies r s i" for s i using r by (simp add: applies_def)
  then have "gate_restrictions (gate_for_intent a' s i) = gate_restrictions (gate_for_intent a s i)" for s i
    by (simp add: gate_alt led dict_values_def)
  then have "gate_for_intent a' s i = gate_for_intent a s i" for s i
    by (metis admission_gate.equality old.unit.exhaust)
  moreover have "has_open a' SC_EXECUTION (co_execution_id c)"
    using r ok(2) by (simp add: has_open_def open_for_scope_def ledger_all_def led dict_values_def)
  ultimately show ?thesis using rec(1,2) q(1) o by blast
qed

theorem conflict_restricts_execution_not_admission_witness:
  "\<exists>q r a'. oc_restriction_request (fst (reconcile (sample_coordinator OL_FILLED) ''1'' ''1'' ''CANCELLED'' None None []))
      = Some q \<and> open_restriction new_authority q = Inr (r, a') \<and> has_open a' SC_EXECUTION ''E1''
      \<and> \<not> is_blocked (gate_for_intent a' ''S'' ''A'')"
proof -
  have "is_terminal (co_shadow_state (sample_coordinator OL_FILLED))"
    "upper (strip ''CANCELLED'') \<noteq> state_value (co_shadow_state (sample_coordinator OL_FILLED))"
    "(''1'', ''1'') \<notin> set (co_seen (sample_coordinator OL_FILLED))"
    "\<not> blank (co_execution_id (sample_coordinator OL_FILLED))"
    by (simp_all add: string_eval)
  from conflict_restricts_execution_not_admission [OF this(1-3) new_authority_ok this(4)]
  obtain q r a' where "oc_restriction_request (fst (reconcile (sample_coordinator OL_FILLED)
        ''1'' ''1'' ''CANCELLED'' None None [])) = Some q"
    "open_restriction new_authority q = Inr (r, a')" "has_open a' SC_EXECUTION ''E1''"
    "gate_for_intent a' ''S'' ''A'' = gate_for_intent new_authority ''S'' ''A''"
    unfolding sample_coordinator_fields by blast
  moreover have "\<not> is_blocked (gate_for_intent new_authority ''S'' ''A'')"
    by (simp add: is_blocked_def gate_for_intent_def ledger_all_def new_authority_def dict_values_def)
  ultimately show ?thesis by auto
qed

end
