(* ===== verification/Serialization.thy ===== *)
theory Serialization
  imports Json PyDecimal "HOL-Library.Multiset"
begin

section \<open>The canonical serializer\<close>

text \<open>
  \<open>core/serialization.py\<close>: the type-preserving normalisation of Python values, the canonical
  JSON text and the SHA-256 digest over it that every ledger and evidence record of the system
  carries.  A dictionary key is a string or an object of another type (which is rejected).  The
  elements of a set are listed in iteration order.  \<open>POther\<close> is a value of a type outside the
  closed world.  SHA-256 itself is a parameter \<open>sha\<close> of the model, a function from text to
  text; claims that need it to separate two payloads say so as a hypothesis.
\<close>

datatype py_key = KStr string | KOther string

datatype py_value =
    PNone
  | PEnum string string py_value      \<comment> \<open>module, qualified name, member value\<close>
  | PBool bool
  | PInt int
  | PFloat raw_dec string             \<comment> \<open>value and its \<open>repr\<close>\<close>
  | PDec raw_dec
  | PStr string
  | PBytes string
  | PDict "(py_key \<times> py_value) list"
  | PMappingProxy "(py_key \<times> py_value) list"
  | PSet "py_value list"
  | PFrozenset "py_value list"
  | PList "py_value list"
  | PTuple "py_value list"
  | POther string

datatype data_contract_error =
    NonFiniteFloat | NonFiniteDecimal | DecimalMagnitude | NonStringKey string | UnsupportedType string

subsection \<open>Deep freezing\<close>

fun deep_freeze_value :: "py_value \<Rightarrow> py_value" where
  "deep_freeze_value (PDict kvs) = PMappingProxy (map (\<lambda>(k, v). (k, deep_freeze_value v)) kvs)"
| "deep_freeze_value (PMappingProxy kvs) =
     PMappingProxy (map (\<lambda>(k, v). (k, deep_freeze_value v)) kvs)"
| "deep_freeze_value (PList xs) = PTuple (map deep_freeze_value xs)"
| "deep_freeze_value (PTuple xs) = PTuple (map deep_freeze_value xs)"
| "deep_freeze_value (PSet xs) = PFrozenset (map deep_freeze_value xs)"
| "deep_freeze_value (PFrozenset xs) = PFrozenset (map deep_freeze_value xs)"
| "deep_freeze_value v = v"

subsection \<open>Normalisation\<close>

text \<open>\<open>quantize(1e-18, ROUND_HALF_EVEN)\<close> and the fixed-point text with 18 decimals.  The sign of a
  value that rounds to zero is kept by \<open>decimal\<close>, as in the code.\<close>

definition quantum_units :: "rat \<Rightarrow> nat" where
  "quantum_units x = nat (rhe (\<bar>x\<bar> * 10 ^ 18))"

definition fixed18 :: "rat \<Rightarrow> string" where
  "fixed18 x = (if x < 0 then ''-'' else []) @ str_nat (quantum_units x div 10 ^ 18)
     @ CHR ''.'' # pad_left 18 (str_nat (quantum_units x mod 10 ^ 18))"

text \<open>The identity of the profile, \<open>Q_18(x) = quantize(x, 10^-18, ROUND_HALF_EVEN)\<close>, as an integer number
  of quanta.\<close>

definition q18 :: "rat \<Rightarrow> int" where
  "q18 x = rhe (x * 10 ^ 18)"

definition hex_bytes :: "string \<Rightarrow> string" where
  "hex_bytes bs = concat (map (\<lambda>c. [hex_digit (of_char c div 16), hex_digit (of_char c mod 16)]) bs)"

definition tagged :: "string \<Rightarrow> json \<Rightarrow> json" where
  "tagged t j = JObj [(''__type__'', JStr t), (''value'', j)]"

definition full_class_name :: "string \<Rightarrow> string \<Rightarrow> string" where
  "full_class_name module_name qual_name =
     (if module_name = [] then qual_name else module_name @ CHR ''.'' # qual_name)"

definition serialize_decimal :: "raw_dec \<Rightarrow> data_contract_error + json" where
  "serialize_decimal d =
     (case d of
        Fin x \<Rightarrow> if x > 10 ^ 38 \<or> x < - (10 ^ 38) then Inl DecimalMagnitude
                 else Inr (tagged ''decimal'' (JStr (fixed18 x)))
      | _ \<Rightarrow> Inl NonFiniteDecimal)"

fun serialize_value :: "py_value \<Rightarrow> data_contract_error + json"
  and serialize_list :: "py_value list \<Rightarrow> data_contract_error + json list"
  and serialize_items :: "(py_key \<times> py_value) list \<Rightarrow> data_contract_error + (string \<times> json) list"
where
  "serialize_value PNone = Inr JNull"
| "serialize_value (PEnum m q v) = rbind (serialize_value v) (\<lambda>j.
     Inr (JObj [(''__type__'', JStr ''enum''), (''class'', JStr (full_class_name m q)), (''value'', j)]))"
| "serialize_value (PBool b) = Inr (tagged ''bool'' (JBool b))"
| "serialize_value (PInt i) = Inr (tagged ''int'' (JInt i))"
| "serialize_value (PFloat x r) =
     (if is_finite x then Inr (tagged ''float'' (JFloat r)) else Inl NonFiniteFloat)"
| "serialize_value (PDec d) = serialize_decimal d"
| "serialize_value (PStr s) = Inr (JStr s)"
| "serialize_value (PBytes bs) = Inr (tagged ''bytes'' (JStr (hex_bytes bs)))"
| "serialize_value (PDict kvs) = rbind (serialize_items kvs) (\<lambda>js. Inr (JObj (sort_key fst js)))"
| "serialize_value (PMappingProxy kvs) =
     rbind (serialize_items kvs) (\<lambda>js. Inr (JObj (sort_key fst js)))"
| "serialize_value (PSet xs) = rbind (serialize_list xs) (\<lambda>js. Inr (JList (sort_key dumps js)))"
| "serialize_value (PFrozenset xs) =
     rbind (serialize_list xs) (\<lambda>js. Inr (JList (sort_key dumps js)))"
| "serialize_value (PList xs) = rbind (serialize_list xs) (\<lambda>js. Inr (JList js))"
| "serialize_value (PTuple xs) = rbind (serialize_list xs) (\<lambda>js. Inr (JList js))"
| "serialize_value (POther t) = Inl (UnsupportedType t)"
| "serialize_list [] = Inr []"
| "serialize_list (x # xs) =
     rbind (serialize_value x) (\<lambda>j. rbind (serialize_list xs) (\<lambda>js. Inr (j # js)))"
| "serialize_items [] = Inr []"
| "serialize_items ((k, v) # kvs) =
     (case k of
        KOther t \<Rightarrow> Inl (NonStringKey t)
      | KStr k \<Rightarrow> rbind (serialize_value v) (\<lambda>j. rbind (serialize_items kvs) (\<lambda>js. Inr ((k, j) # js))))"

definition to_canonical_json :: "py_value \<Rightarrow> data_contract_error + string" where
  "to_canonical_json v = rbind (serialize_value v) (\<lambda>j. Inr (dumps j))"

definition compute_sha256 :: "(string \<Rightarrow> string) \<Rightarrow> py_value \<Rightarrow> data_contract_error + string" where
  "compute_sha256 sha v = rbind (to_canonical_json v) (\<lambda>payload. Inr (sha payload))"

text \<open>SHA-256 does not collide on these two texts.\<close>

definition separates :: "(string \<Rightarrow> string) \<Rightarrow> string \<Rightarrow> string \<Rightarrow> bool" where
  "separates sha s t \<longleftrightarrow> (sha s = sha t \<longrightarrow> s = t)"

subsection \<open>Well-formed values\<close>

text \<open>What Python guarantees of its objects: the keys of a dictionary are distinct, and the \<open>repr\<close>
  of a float is a number text with a point or an exponent.\<close>

fun py_ok :: "py_value \<Rightarrow> bool" where
  "py_ok (PEnum m q v) = py_ok v"
| "py_ok (PFloat x r) = (is_finite x \<longrightarrow> float_text r)"
| "py_ok (PDict kvs) = (distinct (map fst kvs) \<and> (\<forall>kv \<in> set kvs. py_ok (snd kv)))"
| "py_ok (PMappingProxy kvs) = (distinct (map fst kvs) \<and> (\<forall>kv \<in> set kvs. py_ok (snd kv)))"
| "py_ok (PSet xs) = (\<forall>x \<in> set xs. py_ok x)"
| "py_ok (PFrozenset xs) = (\<forall>x \<in> set xs. py_ok x)"
| "py_ok (PList xs) = (\<forall>x \<in> set xs. py_ok x)"
| "py_ok (PTuple xs) = (\<forall>x \<in> set xs. py_ok x)"
| "py_ok _ = True"

lemma serialize_list_Inr: "serialize_list xs = Inr js \<longleftrightarrow> list_all2 (\<lambda>x j. serialize_value x = Inr j) xs js"
proof (induction xs arbitrary: js)
  case (Cons x xs)
  then show ?case by (cases js) (auto simp: rbind_Inr_iff)
qed auto

lemma serialize_items_Inr:
  "serialize_items kvs = Inr js
    \<longleftrightarrow> list_all2 (\<lambda>kv kj. fst kv = KStr (fst kj) \<and> serialize_value (snd kv) = Inr (snd kj)) kvs js"
proof (induction kvs arbitrary: js)
  case (Cons kv kvs)
  then show ?case by (cases kv; cases js) (auto simp: rbind_Inr_iff split: py_key.splits)
qed auto

lemma items_keys:
  "list_all2 (\<lambda>kv kj. fst kv = KStr (fst kj) \<and> Q kv kj) kvs js \<Longrightarrow> map fst kvs = map KStr (map fst js)"
  by (induction rule: list_all2_induct) auto

lemma sorted_distinct_keys:
  "distinct (map fst js) \<Longrightarrow> sorted_wrt (<) (map fst (sort_key fst js))" for js :: "('k :: linorder \<times> 'v) list"
  by (simp add: strict_sorted_iff distinct_map inj_on_def sort_key_stable)

text \<open>Every normalised tree is canonical, so the results on the text apply to it.\<close>

lemma tagged_ok [simp]: "json_ok (tagged t j) = json_ok j"
  by (simp add: tagged_def)

lemma inj_KStr: "distinct (map KStr ks) \<longleftrightarrow> distinct ks"
  by (simp add: distinct_map inj_on_def)

lemma mapping_ok:
  assumes "serialize_items kvs = Inr js" and "distinct (map fst kvs)"
    and "\<And>kv j. kv \<in> set kvs \<Longrightarrow> serialize_value (snd kv) = Inr j \<Longrightarrow> json_ok j"
  shows "json_ok (JObj (sort_key fst js))" and "distinct (map fst js)"
proof -
  have all: "list_all2 (\<lambda>kv kj. fst kv = KStr (fst kj) \<and> serialize_value (snd kv) = Inr (snd kj)) kvs js"
    using assms(1) by (simp add: serialize_items_Inr)
  show dist: "distinct (map fst js)"
    using assms(2) items_keys [OF all] by (simp only: inj_KStr)
  have "\<forall>kj \<in> set js. json_ok (snd kj)"
    using list_all2_all [OF all, of "\<lambda>kj. json_ok (snd kj)"] assms(3) by blast
  with dist show "json_ok (JObj (sort_key fst js))" by (simp add: sorted_distinct_keys)
qed

lemma sequence_ok:
  assumes "serialize_list xs = Inr js"
    and "\<And>x j. x \<in> set xs \<Longrightarrow> serialize_value x = Inr j \<Longrightarrow> json_ok j"
  shows "\<forall>j \<in> set js. json_ok j"
  using assms list_all2_all [of _ xs js json_ok] by (simp add: serialize_list_Inr)

lemma serialize_value_ok: "py_ok v \<Longrightarrow> serialize_value v = Inr j \<Longrightarrow> json_ok j"
proof (induction v arbitrary: j)
  case (PDict kvs)
  then obtain js where js: "serialize_items kvs = Inr js" and j: "j = JObj (sort_key fst js)"
    by (auto simp: rbind_Inr_iff)
  show ?case unfolding j
    by (rule mapping_ok [OF js]) (use PDict in \<open>force+\<close>)
next
  case (PMappingProxy kvs)
  then obtain js where js: "serialize_items kvs = Inr js" and j: "j = JObj (sort_key fst js)"
    by (auto simp: rbind_Inr_iff)
  show ?case unfolding j
    by (rule mapping_ok [OF js]) (use PMappingProxy in \<open>force+\<close>)
next
  case (PSet xs)
  then obtain js where js: "serialize_list xs = Inr js" and j: "j = JList (sort_key dumps js)"
    by (auto simp: rbind_Inr_iff)
  show ?case using sequence_ok [OF js] PSet by (simp add: j)
next
  case (PFrozenset xs)
  then obtain js where js: "serialize_list xs = Inr js" and j: "j = JList (sort_key dumps js)"
    by (auto simp: rbind_Inr_iff)
  show ?case using sequence_ok [OF js] PFrozenset by (simp add: j)
next
  case (PList xs)
  then obtain js where js: "serialize_list xs = Inr js" and j: "j = JList js"
    by (auto simp: rbind_Inr_iff)
  show ?case using sequence_ok [OF js] PList by (simp add: j)
next
  case (PTuple xs)
  then obtain js where js: "serialize_list xs = Inr js" and j: "j = JList js"
    by (auto simp: rbind_Inr_iff)
  show ?case using sequence_ok [OF js] PTuple by (simp add: j)
qed (auto simp: rbind_Inr_iff serialize_decimal_def split: raw_dec.splits if_splits)

subsection \<open>Freezing does not change the identity\<close>

lemma serialize_frozen:
  "serialize_value (deep_freeze_value v) = serialize_value v"
  "serialize_list (map deep_freeze_value xs) = serialize_list xs"
  "serialize_items (map (\<lambda>(k, v). (k, deep_freeze_value v)) kvs) = serialize_items kvs"
  by (induction v and xs and kvs rule: serialize_value_serialize_list_serialize_items.induct)
    (simp_all split: py_key.splits)

text \<open>Deep freezing a configuration (read-only mappings, tuples and frozen sets all the way down)
  keeps its canonical identity: the frozen value has the same canonical JSON and the same digest,
  or is rejected with the same error, and freezing again changes nothing.\<close>

theorem deep_freeze_keeps_identity:
  "to_canonical_json (deep_freeze_value v) = to_canonical_json v
   \<and> compute_sha256 sha (deep_freeze_value v) = compute_sha256 sha v
   \<and> deep_freeze_value (deep_freeze_value v) = deep_freeze_value v"
proof -
  have "deep_freeze_value (deep_freeze_value v) = deep_freeze_value v"
    by (induction v) (force simp: case_prod_beta)+
  then show ?thesis by (simp add: to_canonical_json_def compute_sha256_def serialize_frozen)
qed

subsection \<open>Content\<close>

text \<open>The three kinds of collection the serializer distinguishes.\<close>

fun map_items :: "py_value \<Rightarrow> (py_key \<times> py_value) list option" where
  "map_items (PDict kvs) = Some kvs"
| "map_items (PMappingProxy kvs) = Some kvs"
| "map_items _ = None"

fun seq_items :: "py_value \<Rightarrow> py_value list option" where
  "seq_items (PList xs) = Some xs"
| "seq_items (PTuple xs) = Some xs"
| "seq_items _ = None"

fun set_items :: "py_value \<Rightarrow> py_value list option" where
  "set_items (PSet xs) = Some xs"
| "set_items (PFrozenset xs) = Some xs"
| "set_items _ = None"

fun_cases map_items_Some: "map_items v = Some kvs"
fun_cases seq_items_Some: "seq_items v = Some xs"
fun_cases set_items_Some: "set_items v = Some xs"

text \<open>Two decimals are the same for the serializer when their quantised values agree; a value that
  quantises to zero from below is still kept apart from zero (the profile says it is not, see
  \<open>negative_zero_is_kept\<close>).\<close>

definition same_decimal :: "rat \<Rightarrow> rat \<Rightarrow> bool" where
  "same_decimal x y \<longleftrightarrow> q18 x = q18 y \<and> (q18 x = 0 \<longrightarrow> (x < 0 \<longleftrightarrow> y < 0))"

lemma quantum_units_q18: "quantum_units x = nat \<bar>q18 x\<bar>"
proof -
  have "rhe (\<bar>x\<bar> * 10 ^ 18) = \<bar>q18 x\<bar>"
  proof (cases "x < 0")
    case True
    have "q18 x \<le> 0" using rhe_mono [of "x * 10 ^ 18" 0] rhe_of_int [of 0] True by (simp add: q18_def)
    moreover have "rhe (\<bar>x\<bar> * 10 ^ 18) = - q18 x"
      using rhe_minus [of "x * 10 ^ 18"] True by (simp add: q18_def)
    ultimately show ?thesis by simp
  next
    case False
    then have "0 \<le> q18 x" using rhe_mono [of 0 "x * 10 ^ 18"] rhe_of_int [of 0] by (simp add: q18_def)
    then show ?thesis using False by (simp add: q18_def)
  qed
  then show ?thesis by (simp add: quantum_units_def)
qed

lemma q18_sign: "x < 0 \<Longrightarrow> q18 x \<le> 0" "0 \<le> x \<Longrightarrow> 0 \<le> q18 x"
  using rhe_mono [of "x * 10 ^ 18" 0] rhe_mono [of 0 "x * 10 ^ 18"] rhe_of_int [of 0]
  by (simp_all add: q18_def)

lemma same_decimal_units:
  "same_decimal x y \<longleftrightarrow> quantum_units x = quantum_units y \<and> (x < 0 \<longleftrightarrow> y < 0)"
  using q18_sign [of x] q18_sign [of y]
  by (cases "x < 0"; cases "y < 0") (auto simp: same_decimal_def quantum_units_q18)

lemma same_decimal_sym: "same_decimal x y \<Longrightarrow> same_decimal y x"
  by (simp add: same_decimal_def)

text \<open>The text of a decimal identifies its units and its sign.\<close>

lemma units_text_inject:
  assumes "str_nat (m div 10 ^ 18) @ CHR ''.'' # pad_left 18 (str_nat (m mod 10 ^ 18))
    = str_nat (n div 10 ^ 18) @ CHR ''.'' # pad_left 18 (str_nat (n mod 10 ^ 18))"
  shows "m = n"
proof -
  have "m div 10 ^ 18 = n div 10 ^ 18
      \<and> pad_left 18 (str_nat (m mod 10 ^ 18)) = pad_left 18 (str_nat (n mod 10 ^ 18))"
    using field_prefix [of 0 "m div 10 ^ 18" "CHR ''.''" _ "n div 10 ^ 18" "CHR ''.''"] assms
    by (simp add: pad_left_def)
  then show ?thesis by (metis div_mult_mod_eq pad_left_inject)
qed

lemma fixed18_eq: "fixed18 x = fixed18 y \<longleftrightarrow> same_decimal x y"
proof
  let ?t = "\<lambda>n. str_nat (n div 10 ^ 18) @ CHR ''.'' # pad_left 18 (str_nat (n mod 10 ^ 18))"
  have no_sign: "CHR ''-'' # z \<noteq> ?t n" for z n
    using str_nat_digits [of "n div 10 ^ 18"] by (cases "str_nat (n div 10 ^ 18)") (auto simp: is_digit_def)
  assume eq: "fixed18 x = fixed18 y"
  then have "x < 0 \<longleftrightarrow> y < 0"
    using no_sign [of "?t (quantum_units x)" "quantum_units y"] no_sign [of "?t (quantum_units y)" "quantum_units x"]
    by (auto simp: fixed18_def split: if_splits)
  moreover from this have "quantum_units x = quantum_units y"
    using eq by (intro units_text_inject) (simp add: fixed18_def split: if_splits)
  ultimately show "same_decimal x y" by (simp add: same_decimal_units)
qed (simp add: same_decimal_units fixed18_def)

text \<open>Two values have the same content when they agree up to the order of dictionaries and sets, the
  frozen or mutable kind of a collection and the quantisation of decimals.\<close>

inductive same_content :: "py_value \<Rightarrow> py_value \<Rightarrow> bool" where
  same_refl: "same_content v v"
| same_dec: "same_decimal x y \<Longrightarrow> \<bar>x\<bar> \<le> 10 ^ 38 \<Longrightarrow> \<bar>y\<bar> \<le> 10 ^ 38
    \<Longrightarrow> same_content (PDec (Fin x)) (PDec (Fin y))"
| same_float: "is_finite x \<Longrightarrow> is_finite y \<Longrightarrow> same_content (PFloat x r) (PFloat y r)"
| same_enum: "full_class_name m q = full_class_name m' q' \<Longrightarrow> same_content v w
    \<Longrightarrow> same_content (PEnum m q v) (PEnum m' q' w)"
| same_map: "map_items v = Some kvs \<Longrightarrow> map_items w = Some lvs \<Longrightarrow> mset kvs' = mset kvs
    \<Longrightarrow> list_all2 (\<lambda>a b. fst a = fst b \<and> same_content (snd a) (snd b)) kvs' lvs
    \<Longrightarrow> same_content v w"
| same_seq: "seq_items v = Some xs \<Longrightarrow> seq_items w = Some ys \<Longrightarrow> list_all2 same_content xs ys
    \<Longrightarrow> same_content v w"
| same_set: "set_items v = Some xs \<Longrightarrow> set_items w = Some ys \<Longrightarrow> mset xs' = mset xs
    \<Longrightarrow> list_all2 same_content xs' ys \<Longrightarrow> same_content v w"

lemma serialize_map:
  "map_items v = Some kvs
    \<Longrightarrow> serialize_value v = rbind (serialize_items kvs) (\<lambda>js. Inr (JObj (sort_key fst js)))"
  by (auto elim: map_items_Some)

lemma serialize_seq:
  "seq_items v = Some xs \<Longrightarrow> serialize_value v = rbind (serialize_list xs) (\<lambda>js. Inr (JList js))"
  by (auto elim: seq_items_Some)

lemma serialize_set:
  "set_items v = Some xs
    \<Longrightarrow> serialize_value v = rbind (serialize_list xs) (\<lambda>js. Inr (JList (sort_key dumps js)))"
  by (auto elim: set_items_Some)

lemma map_items_ok:
  "map_items v = Some kvs \<Longrightarrow> py_ok v \<longleftrightarrow> distinct (map fst kvs) \<and> (\<forall>kv \<in> set kvs. py_ok (snd kv))"
  by (cases v) auto

lemma set_items_ok: "set_items v = Some xs \<Longrightarrow> py_ok v \<longleftrightarrow> (\<forall>x \<in> set xs. py_ok x)"
  by (cases v) auto

lemma seq_items_ok: "seq_items v = Some xs \<Longrightarrow> py_ok v \<longleftrightarrow> (\<forall>x \<in> set xs. py_ok x)"
  by (cases v) auto

lemma mapping_reorder:
  assumes "serialize_items kvs = Inr js" and "mset kvs' = mset kvs" and "distinct (map fst kvs)"
  obtains js' where "serialize_items kvs' = Inr js'" and "mset js' = mset js"
    and "sort_key fst js' = sort_key fst js"
proof -
  obtain js' where js': "list_all2 (\<lambda>kv kj. fst kv = KStr (fst kj) \<and> serialize_value (snd kv) = Inr (snd kj)) kvs' js'"
      "mset js' = mset js"
    using list_all2_reorder_left_invariance [OF assms(1) [unfolded serialize_items_Inr] assms(2)]
    by blast
  have "mset (map fst kvs') = mset (map fst kvs)" using assms(2) by simp
  then have "distinct (map fst kvs')" using assms(3) mset_eq_imp_distinct_iff by blast
  then have "distinct (map fst js')"
    using items_keys [OF js'(1)] by (simp only: inj_KStr)
  then have "sort_key fst js' = sort_key fst js"
    by (intro sort_key_eq_sort_key [OF js'(2)]) (simp add: distinct_map)
  then show thesis using that js' by (simp add: serialize_items_Inr)
qed

lemma same_content_serialize:
  assumes "same_content v w" and "py_ok v" and "py_ok w" and "serialize_value v = Inr j"
  shows "serialize_value w = Inr j"
  using assms
proof (induction arbitrary: j rule: same_content.induct)
  case (same_map v kvs w lvs kvs')
  obtain js where js: "serialize_items kvs = Inr js" and j: "j = JObj (sort_key fst js)"
    using same_map.prems(3) by (auto simp: serialize_map [OF same_map.hyps(1)] rbind_Inr_iff)
  obtain js' where js': "serialize_items kvs' = Inr js'" "sort_key fst js' = sort_key fst js"
    using mapping_reorder [OF js same_map.hyps(3)] same_map.prems(1)
      map_items_ok [OF same_map.hyps(1)] by blast
  have "set kvs' = set kvs" using same_map.hyps(3) by (rule mset_eq_setD)
  then have "serialize_items lvs = Inr js'"
    unfolding serialize_items_Inr
    by (intro list_all2_transfer [OF same_map.IH js'(1) [unfolded serialize_items_Inr]])
      (use same_map.prems(1,2) in \<open>auto simp: map_items_ok [OF same_map.hyps(1)]
        map_items_ok [OF same_map.hyps(2)]\<close>)
  then show ?case by (simp add: serialize_map [OF same_map.hyps(2)] j js'(2))
next
  case (same_seq v xs w ys)
  obtain js where js: "serialize_list xs = Inr js" and j: "j = JList js"
    using same_seq.prems(3) by (auto simp: serialize_seq [OF same_seq.hyps(1)] rbind_Inr_iff)
  have "serialize_list ys = Inr js"
    unfolding serialize_list_Inr
    by (intro list_all2_transfer [OF same_seq.IH js [unfolded serialize_list_Inr]])
      (use same_seq.prems(1,2) in \<open>auto simp: seq_items_ok [OF same_seq.hyps(1)]
        seq_items_ok [OF same_seq.hyps(2)]\<close>)
  then show ?case by (simp add: serialize_seq [OF same_seq.hyps(2)] j)
next
  case (same_set v xs w ys xs')
  obtain js where js: "serialize_list xs = Inr js" and j: "j = JList (sort_key dumps js)"
    using same_set.prems(3) by (auto simp: serialize_set [OF same_set.hyps(1)] rbind_Inr_iff)
  obtain js' where js': "list_all2 (\<lambda>x j. serialize_value x = Inr j) xs' js'" "mset js' = mset js"
    using list_all2_reorder_left_invariance [OF js [unfolded serialize_list_Inr] same_set.hyps(3)]
    by blast
  have "set xs' = set xs" using same_set.hyps(3) by (rule mset_eq_setD)
  then have "serialize_list ys = Inr js'"
    unfolding serialize_list_Inr
    by (intro list_all2_transfer [OF same_set.IH js'(1)])
      (use same_set.prems(1,2) in \<open>auto simp: set_items_ok [OF same_set.hyps(1)]
        set_items_ok [OF same_set.hyps(2)]\<close>)
  moreover have "\<forall>j \<in> set js. json_ok j"
    by (rule sequence_ok [OF js serialize_value_ok])
      (use same_set.prems(1) in \<open>simp_all add: set_items_ok [OF same_set.hyps(1)]\<close>)
  then have "inj_on dumps (set js')"
    using js'(2) by (auto simp: inj_on_def dumps_inject dest: mset_eq_setD)
  then have "sort_key dumps js' = sort_key dumps js"
    by (intro sort_key_eq_sort_key [OF js'(2)])
  ultimately show ?case by (simp add: serialize_set [OF same_set.hyps(2)] j)
qed (auto simp: rbind_Inr_iff serialize_decimal_def tagged_def fixed18_eq abs_le_iff intro: same_decimal_sym
  split: if_splits)

subsection \<open>The text determines the content\<close>

text \<open>
  Two shapes are outside this result, because the code maps them to text that another value also
  has: a set has the text of the sorted list of its members, and a mapping with a key
  \<open>__type__\<close> can have the text of a tagged scalar.
\<close>

fun plain :: "py_value \<Rightarrow> bool" where
  "plain (PEnum m q v) = plain v"
| "plain (PDict kvs) = (KStr ''__type__'' \<notin> fst ` set kvs \<and> (\<forall>kv \<in> set kvs. plain (snd kv)))"
| "plain (PMappingProxy kvs) =
     (KStr ''__type__'' \<notin> fst ` set kvs \<and> (\<forall>kv \<in> set kvs. plain (snd kv)))"
| "plain (PList xs) = (\<forall>x \<in> set xs. plain x)"
| "plain (PTuple xs) = (\<forall>x \<in> set xs. plain x)"
| "plain (PSet xs) = False"
| "plain (PFrozenset xs) = False"
| "plain _ = True"

text \<open>The kind of a value, and the kind its tree shows.\<close>

fun value_kind :: "py_value \<Rightarrow> string" where
  "value_kind PNone = ''null''"
| "value_kind (PEnum _ _ _) = ''enum''"
| "value_kind (PBool _) = ''bool''"
| "value_kind (PInt _) = ''int''"
| "value_kind (PFloat _ _) = ''float''"
| "value_kind (PDec _) = ''decimal''"
| "value_kind (PStr _) = ''str''"
| "value_kind (PBytes _) = ''bytes''"
| "value_kind (PDict _) = ''map''"
| "value_kind (PMappingProxy _) = ''map''"
| "value_kind (PSet _) = ''set''"
| "value_kind (PFrozenset _) = ''set''"
| "value_kind (PList _) = ''seq''"
| "value_kind (PTuple _) = ''seq''"
| "value_kind (POther _) = ''other''"

fun tree_kind :: "json \<Rightarrow> string" where
  "tree_kind JNull = ''null''"
| "tree_kind (JStr _) = ''str''"
| "tree_kind (JList _) = ''seq''"
| "tree_kind (JObj ((k, JStr t) # kvs)) = (if k = ''__type__'' then t else ''map'')"
| "tree_kind (JObj _) = ''map''"
| "tree_kind _ = ''raw''"

lemma tree_kind_map: "''__type__'' \<notin> fst ` set js \<Longrightarrow> tree_kind (JObj js) = ''map''"
  by (cases "JObj js" rule: tree_kind.cases) auto

lemma mapping_kind:
  assumes "KStr ''__type__'' \<notin> fst ` set kvs" and "serialize_items kvs = Inr js"
  shows "tree_kind (JObj (sort_key fst js)) = ''map''"
proof (rule tree_kind_map)
  have "map fst kvs = map KStr (map fst js)"
    using assms(2) by (intro items_keys) (simp add: serialize_items_Inr)
  then have "fst ` set kvs = KStr ` fst ` set js" by (metis set_map)
  then show "''__type__'' \<notin> fst ` set (sort_key fst js)" using assms(1) by auto
qed

lemma serialize_kind: "plain v \<Longrightarrow> serialize_value v = Inr j \<Longrightarrow> tree_kind j = value_kind v"
  by (cases v) (auto simp: rbind_Inr_iff serialize_decimal_def tagged_def mapping_kind
      split: raw_dec.splits if_splits)

lemma hex_char_inject:
  assumes "hex_digit (of_char c div 16) = hex_digit (of_char d div 16)"
    and "hex_digit (of_char c mod 16) = hex_digit (of_char d mod 16)"
  shows "c = d"
proof -
  have "16 * unhex (hex_digit (of_char d div 16)) + unhex (hex_digit (of_char d mod 16)) = (of_char c :: nat)"
    using hex_pair [of c] by (simp only: assms)
  then have "(of_char c :: nat) = of_char d" by (simp only: hex_pair)
  then show ?thesis by simp
qed

lemma hex_bytes_Cons:
  "hex_bytes (c # bs) = hex_digit (of_char c div 16) # hex_digit (of_char c mod 16) # hex_bytes bs"
  "hex_bytes [] = []"
  by (simp_all add: hex_bytes_def)

lemma hex_bytes_inject: "hex_bytes a = hex_bytes b \<Longrightarrow> a = b"
proof (induction a arbitrary: b)
  case Nil
  then show ?case by (cases b) (simp_all only: hex_bytes_Cons list.distinct)
next
  case (Cons c a)
  then obtain d b' where b: "b = d # b'" by (cases b) (simp_all only: hex_bytes_Cons list.distinct)
  then have "c = d" and "hex_bytes a = hex_bytes b'"
    using Cons.prems hex_char_inject [of c d] by (simp_all only: hex_bytes_Cons list.inject)
  then show ?case using Cons.IH b by simp
qed

lemma mapping_same:
  assumes "serialize_items kvs = Inr js" "serialize_items lvs = Inr js'" "mset js' = mset js"
    and "\<And>kv lv j. kv \<in> set kvs \<Longrightarrow> lv \<in> set lvs \<Longrightarrow> serialize_value (snd kv) = Inr j
      \<Longrightarrow> serialize_value (snd lv) = Inr j \<Longrightarrow> same_content (snd kv) (snd lv)"
  obtains kvs' where "mset kvs' = mset kvs"
    and "list_all2 (\<lambda>a b. fst a = fst b \<and> same_content (snd a) (snd b)) kvs' lvs"
proof -
  let ?R = "\<lambda>kv kj. fst kv = KStr (fst kj) \<and> serialize_value (snd kv) = Inr (snd kj)"
  have "list_all2 (\<lambda>kj kv. ?R kv kj) js kvs"
    using assms(1) by (simp add: serialize_items_Inr list.rel_flip list_all2_conv_all_nth)
  then obtain kvs' where k: "list_all2 (\<lambda>kj kv. ?R kv kj) js' kvs'" "mset kvs' = mset kvs"
    using list_all2_reorder_left_invariance assms(3) by blast
  have l: "list_all2 (\<lambda>kj kv. ?R kv kj) js' lvs"
    using assms(2) by (simp add: serialize_items_Inr list_all2_conv_all_nth)
  have "list_all2 (\<lambda>a b. fst a = fst b \<and> same_content (snd a) (snd b)) kvs' lvs"
  proof (rule list_all2_all_nthI)
    show len: "length kvs' = length lvs" using list_all2_lengthD [OF k(1)] list_all2_lengthD [OF l] by simp
    fix i assume i: "i < length kvs'"
    then have m: "kvs' ! i \<in> set kvs" "lvs ! i \<in> set lvs"
      using k(2) len mset_eq_setD nth_mem by fastforce+
    have "?R (kvs' ! i) (js' ! i)" "?R (lvs ! i) (js' ! i)"
      using k(1) l i by (auto simp: list_all2_conv_all_nth)
    with assms(4) [OF m, of "snd (js' ! i)"]
    show "fst (kvs' ! i) = fst (lvs ! i) \<and> same_content (snd (kvs' ! i)) (snd (lvs ! i))" by simp
  qed
  then show thesis using that k(2) by blast
qed

lemma sequence_same:
  assumes "serialize_list xs = Inr js" "serialize_list ys = Inr js"
    and "\<And>x y j. x \<in> set xs \<Longrightarrow> y \<in> set ys \<Longrightarrow> serialize_value x = Inr j
      \<Longrightarrow> serialize_value y = Inr j \<Longrightarrow> same_content x y"
  shows "list_all2 same_content xs ys"
  using assms by (auto simp: serialize_list_Inr list_all2_conv_all_nth)

lemma same_kind:
  "serialize_value v = Inr j \<Longrightarrow> serialize_value w = Inr j \<Longrightarrow> plain v \<Longrightarrow> plain w
    \<Longrightarrow> value_kind v = value_kind w"
  using serialize_kind by metis

lemma same_content_map_from_tree:
  assumes "map_items v = Some kvs" and "map_items w = Some lvs"
    and "serialize_value v = Inr j" and "serialize_value w = Inr j" and "py_ok v" and "py_ok w"
    and "\<And>kv lv j. kv \<in> set kvs \<Longrightarrow> lv \<in> set lvs \<Longrightarrow> serialize_value (snd kv) = Inr j
      \<Longrightarrow> serialize_value (snd lv) = Inr j \<Longrightarrow> same_content (snd kv) (snd lv)"
  shows "same_content v w"
proof -
  obtain js js' where js: "serialize_items kvs = Inr js" "serialize_items lvs = Inr js'"
    and "sort_key fst js = sort_key fst js'"
    using assms(3,4) by (auto simp: serialize_map [OF assms(1)] serialize_map [OF assms(2)] rbind_Inr_iff)
  then have "mset js' = mset js" by (metis mset_sort)
  from js this assms(7) show ?thesis
  proof (rule mapping_same)
    fix kvs' assume "mset kvs' = mset kvs"
      and "list_all2 (\<lambda>a b. fst a = fst b \<and> same_content (snd a) (snd b)) kvs' lvs"
    then show ?thesis by (rule same_map [OF assms(1,2)])
  qed
qed

lemma same_content_seq_from_tree:
  assumes "seq_items v = Some xs" and "seq_items w = Some ys"
    and "serialize_value v = Inr j" and "serialize_value w = Inr j"
    and "\<And>x y j. x \<in> set xs \<Longrightarrow> y \<in> set ys \<Longrightarrow> serialize_value x = Inr j
      \<Longrightarrow> serialize_value y = Inr j \<Longrightarrow> same_content x y"
  shows "same_content v w"
proof -
  obtain js where "serialize_list xs = Inr js" "serialize_list ys = Inr js"
    using assms(3,4) by (auto simp: serialize_seq [OF assms(1)] serialize_seq [OF assms(2)] rbind_Inr_iff)
  then show ?thesis using same_seq [OF assms(1,2)] sequence_same assms(5) by blast
qed

lemma map_kind: "value_kind w = ''map'' \<Longrightarrow> \<exists>lvs. map_items w = Some lvs"
  by (cases w) simp_all

lemma seq_kind: "value_kind w = ''seq'' \<Longrightarrow> \<exists>ys. seq_items w = Some ys"
  by (cases w) simp_all

lemma same_content_from_tree:
  assumes "serialize_value v = Inr j" "serialize_value w = Inr j" "plain v" "plain w" "py_ok v" "py_ok w"
  shows "same_content v w"
  using assms
proof (induction v arbitrary: w j)
  case (PEnum m q v)
  then show ?case
    using same_kind [OF PEnum.prems(1-4)] by (cases w) (auto simp: rbind_Inr_iff intro!: same_enum)
next
  case (PFloat x r)
  then show ?case using same_kind [OF PFloat(1-4)]
    by (cases w) (auto simp: tagged_def intro: same_float split: if_splits)
next
  case (PDec d)
  then show ?case using same_kind [OF PDec(1-4)]
    by (cases w) (auto simp: serialize_decimal_def tagged_def abs_le_iff fixed18_eq intro!: same_dec
        intro: same_decimal_sym split: raw_dec.splits if_splits)
next
  case (PBytes s)
  then show ?case using same_kind [OF PBytes(1-4)]
    by (cases w) (auto simp: tagged_def same_refl dest: hex_bytes_inject)
next
  case (PDict kvs)
  obtain lvs where lvs: "map_items w = Some lvs"
    using same_kind [OF PDict.prems(1-4)] map_kind [of w] by auto
  show ?case
  proof (rule same_content_map_from_tree [OF _ lvs PDict.prems(1,2,5,6)])
    fix kv lv j'
    assume "kv \<in> set kvs" "lv \<in> set lvs" "serialize_value (snd kv) = Inr j'" "serialize_value (snd lv) = Inr j'"
    then show "same_content (snd kv) (snd lv)"
      using PDict.IH [of kv "snd kv" j' "snd lv"] PDict.prems(3-6) lvs snds.intros [of kv]
      by (cases w) auto
  qed simp
next
  case (PMappingProxy kvs)
  obtain lvs where lvs: "map_items w = Some lvs"
    using same_kind [OF PMappingProxy.prems(1-4)] map_kind [of w] by auto
  show ?case
  proof (rule same_content_map_from_tree [OF _ lvs PMappingProxy.prems(1,2,5,6)])
    fix kv lv j'
    assume "kv \<in> set kvs" "lv \<in> set lvs" "serialize_value (snd kv) = Inr j'" "serialize_value (snd lv) = Inr j'"
    then show "same_content (snd kv) (snd lv)"
      using PMappingProxy.IH [of kv "snd kv" j' "snd lv"] PMappingProxy.prems(3-6) lvs snds.intros [of kv]
      by (cases w) auto
  qed simp
next
  case (PList xs)
  obtain ys where ys: "seq_items w = Some ys"
    using same_kind [OF PList.prems(1-4)] seq_kind [of w] by auto
  show ?case
  proof (rule same_content_seq_from_tree [OF _ ys PList.prems(1,2)])
    fix x y j'
    assume "x \<in> set xs" "y \<in> set ys" "serialize_value x = Inr j'" "serialize_value y = Inr j'"
    then show "same_content x y"
      using PList.IH [of x j' y] PList.prems(3-6) ys by (cases w) auto
  qed simp
next
  case (PTuple xs)
  obtain ys where ys: "seq_items w = Some ys"
    using same_kind [OF PTuple.prems(1-4)] seq_kind [of w] by auto
  show ?case
  proof (rule same_content_seq_from_tree [OF _ ys PTuple.prems(1,2)])
    fix x y j'
    assume "x \<in> set xs" "y \<in> set ys" "serialize_value x = Inr j'" "serialize_value y = Inr j'"
    then show "same_content x y"
      using PTuple.IH [of x j' y] PTuple.prems(3-6) ys by (cases w) auto
  qed simp
next
  case PNone
  then show ?case using same_kind [OF PNone(1-4)] by (cases w) (auto simp: same_refl)
next
  case (PBool b)
  then show ?case using same_kind [OF PBool(1-4)] by (cases w) (auto simp: tagged_def same_refl)
next
  case (PInt i)
  then show ?case using same_kind [OF PInt(1-4)] by (cases w) (auto simp: tagged_def same_refl)
next
  case (PStr s)
  then show ?case using same_kind [OF PStr(1-4)] by (cases w) (auto simp: same_refl)
qed simp_all

text \<open>C13: Over the values whose collections are mappings without a \<open>__type__\<close> key, lists and tuples,
  the canonical JSON text is a complete identity: two serialisable values have the same text
  exactly when they have the same content, that is, agree up to the order of mappings, the
  frozen or mutable kind of collections and the representation of decimals with one value of
  \<open>Q_18\<close>, where a negative decimal that quantises to zero has a text of its own.  Booleans,
  integers, floats, decimals, strings, bytes and enum members are never confused.\<close>

theorem canonical_json_characterises_content:
  assumes "py_ok v" "py_ok w" and "plain v" "plain w"
    and "to_canonical_json v = Inr s" and "to_canonical_json w = Inr t"
  shows "s = t \<longleftrightarrow> same_content v w"
proof -
  obtain j k where jk: "serialize_value v = Inr j" "s = dumps j" "serialize_value w = Inr k" "t = dumps k"
    using assms(5,6) by (auto simp: to_canonical_json_def rbind_Inr_iff)
  have "s = t \<longleftrightarrow> j = k"
    using jk dumps_inject serialize_value_ok assms(1,2) by simp
  moreover have "j = k \<Longrightarrow> same_content v w"
    using same_content_from_tree jk assms(1-4) by blast
  moreover have "same_content v w \<Longrightarrow> j = k"
    using same_content_serialize jk assms(1,2) by fastforce
  ultimately show ?thesis by blast
qed

theorem canonical_json_characterises_content_witness:
  "same_content
     (PDict [(KStr ''a'', PInt 1), (KStr ''b'', PList [PBool True, PBytes ''x''])])
     (PMappingProxy [(KStr ''b'', PTuple [PBool True, PBytes ''x'']), (KStr ''a'', PInt 1)])"
proof -
  let ?v = "PDict [(KStr ''a'', PInt 1), (KStr ''b'', PList [PBool True, PBytes ''x''])]"
  let ?w = "PMappingProxy [(KStr ''b'', PTuple [PBool True, PBytes ''x'']), (KStr ''a'', PInt 1)]"
  have ok: "py_ok ?v" "py_ok ?w" "plain ?v" "plain ?w" by simp_all
  have js: "serialize_value ?v = serialize_value ?w" "serialize_value ?v \<noteq> Inl e" for e
    by simp_all
  then obtain s where s: "to_canonical_json ?v = Inr s" "to_canonical_json ?w = Inr s"
    by (cases "serialize_value ?w") (simp_all add: to_canonical_json_def)
  show ?thesis using canonical_json_characterises_content [OF ok s] by (rule iffD1) (rule refl)
qed

text \<open>The digest does not depend on the order in which a dictionary or a set happens to be
  iterated, at any depth: a value with the same content as a digested one has that digest.\<close>

theorem digest_order_independent:
  assumes "same_content v w" "py_ok v" "py_ok w" and "compute_sha256 sha v = Inr d"
  shows "compute_sha256 sha w = Inr d"
  using assms same_content_serialize
  by (auto simp: compute_sha256_def to_canonical_json_def rbind_Inr_iff)

theorem digest_order_independent_witness:
  "compute_sha256 rev (PSet [PStr ''b'', PStr ''a'']) = Inr (rev (dumps (JList [JStr ''a'', JStr ''b''])))"
proof -
  have same: "same_content (PFrozenset [PStr ''a'', PStr ''b'']) (PSet [PStr ''b'', PStr ''a''])"
    by (rule same_set [where xs = "[PStr ''a'', PStr ''b'']" and xs' = "[PStr ''b'', PStr ''a'']"
          and ys = "[PStr ''b'', PStr ''a'']"]) (simp_all add: same_refl)
  have "sort_key dumps [JStr ''a'', JStr ''b''] = [JStr ''a'', JStr ''b'']"
    by code_simp
  then have "compute_sha256 rev (PFrozenset [PStr ''a'', PStr ''b''])
      = Inr (rev (dumps (JList [JStr ''a'', JStr ''b''])))"
    by (simp only: compute_sha256_def to_canonical_json_def serialize_value.simps serialize_list.simps
        rbind_simps)
  from digest_order_independent [OF same _ _ this] show ?thesis by simp
qed

subsection \<open>Where the profile's claims do not hold\<close>

text \<open>A mapping can have the text of a tagged scalar, and a decimal that rounds to zero from below
  keeps a minus sign, so it differs from positive zero although both quantise to zero.\<close>

lemma tagged_mapping_collides:
  "to_canonical_json (PDict [(KStr ''__type__'', PStr ''bytes''), (KStr ''value'', PStr (hex_bytes bs))])
   = to_canonical_json (PBytes bs)"
  by (simp add: to_canonical_json_def tagged_def)

lemma negative_zero_is_kept:
  "quantum_units (- (1 / 10 ^ 19)) = quantum_units 0"
  "to_canonical_json (PDec (Fin (- (1 / 10 ^ 19)))) \<noteq> to_canonical_json (PDec (Fin 0))"
proof -
  have z: "rhe 0 = 0" using rhe_of_int [of 0] by simp
  show q: "quantum_units (- (1 / 10 ^ 19)) = quantum_units 0"
    by (simp add: quantum_units_def rhe_numerals z)
  have "quantum_units 0 = 0"
    by (simp add: quantum_units_def z)
  then have "fixed18 0 \<noteq> fixed18 (- (1 / 10 ^ 19))"
    unfolding fixed18_def q by simp
  then show "to_canonical_json (PDec (Fin (- (1 / 10 ^ 19)))) \<noteq> to_canonical_json (PDec (Fin 0))"
    using quote_str_inject [of "fixed18 (- (1 / 10 ^ 19))" "[]" "fixed18 0" "[]"]
    by (auto simp: to_canonical_json_def serialize_decimal_def dumps_inject tagged_def)
qed

end
