(* ===== verification/BrokerEvents.thy ===== *)
theory BrokerEvents
  imports Serialization OrderLifecycle PyTime
begin

section \<open>Broker event normalisation and reconciliation evidence\<close>

text \<open>
  \<open>execution/broker_events.py\<close>: broker-reported event kinds, their normalisation into the events
  of the state machine, and the digested evidence record.  SHA-256 is the parameter \<open>sha\<close>;
  claims about tampering assume that it separates the two texts at hand (\<open>separates\<close>).
\<close>

datatype broker_event_kind =
    BK_ACK | BK_REJECT | BK_PARTIAL_FILL | BK_FILLED | BK_CANCEL_REJECTED | BK_ORDER_CANCELLED
  | BK_EXPIRED | BK_CONNECTION_LOST

fun kind_value :: "broker_event_kind \<Rightarrow> string" where
  "kind_value BK_ACK = ''ACK''"
| "kind_value BK_REJECT = ''REJECT''"
| "kind_value BK_PARTIAL_FILL = ''PARTIAL_FILL''"
| "kind_value BK_FILLED = ''FILLED''"
| "kind_value BK_CANCEL_REJECTED = ''CANCEL_REJECTED''"
| "kind_value BK_ORDER_CANCELLED = ''ORDER_CANCELLED''"
| "kind_value BK_EXPIRED = ''EXPIRED''"
| "kind_value BK_CONNECTION_LOST = ''CONNECTION_LOST''"

lemma kind_value_inject [simp]: "kind_value k = kind_value k' \<longleftrightarrow> k = k'"
  by (cases k; cases k') simp_all

text \<open>\<open>BrokerEventNormalizationError\<close>, one constructor per raise.\<close>

datatype normalization_error =
    EmptyField string
  | AmbiguousCancel
  | UnsupportedKind broker_event_kind
  | DigestMismatch string
  | NotVerifiable string
  | PayloadError data_contract_error

fun direct_event_map :: "broker_event_kind \<Rightarrow> execution_event option" where
  "direct_event_map BK_ACK = Some EV_ACK"
| "direct_event_map BK_REJECT = Some EV_REJECT"
| "direct_event_map BK_PARTIAL_FILL = Some EV_PARTIAL_FILL"
| "direct_event_map BK_FILLED = Some EV_FILL"
| "direct_event_map BK_CANCEL_REJECTED = Some EV_CANCEL_REJECT"
| "direct_event_map BK_EXPIRED = Some EV_EXPIRY"
| "direct_event_map BK_CONNECTION_LOST = Some EV_CONNECTION_LOST"
| "direct_event_map BK_ORDER_CANCELLED = None"

subsection \<open>Evidence\<close>

record reconciliation_evidence =
  ev_broker_order_id :: string
  ev_observed_status :: broker_event_kind
  ev_observed_at :: time
  ev_source :: string
  ev_broker_sequence :: string
  ev_evidence_refs :: "string list"
  ev_evidence_digest :: string

definition canonical_evidence_payload ::
    "string \<Rightarrow> broker_event_kind \<Rightarrow> time \<Rightarrow> string \<Rightarrow> string \<Rightarrow> string list \<Rightarrow> py_value" where
  "canonical_evidence_payload boid status ts source sequence refs =
     PDict [(KStr ''broker_order_id'', PStr boid),
            (KStr ''observed_status'', PStr (kind_value status)),
            (KStr ''observed_at'', PStr (isoformat ts)),
            (KStr ''source'', PStr source),
            (KStr ''broker_sequence'', PStr sequence),
            (KStr ''evidence_refs'', PList (map PStr refs))]"

definition evidence_digest_of ::
    "(string \<Rightarrow> string) \<Rightarrow> string \<Rightarrow> broker_event_kind \<Rightarrow> time \<Rightarrow> string \<Rightarrow> string \<Rightarrow> string list
     \<Rightarrow> normalization_error + string" where
  "evidence_digest_of sha boid status ts source sequence refs =
     (case to_canonical_json (canonical_evidence_payload boid status ts source sequence refs) of
        Inl e \<Rightarrow> Inl (PayloadError e)
      | Inr payload \<Rightarrow> Inr (sha payload))"

definition mk_evidence ::
    "string \<Rightarrow> broker_event_kind \<Rightarrow> time \<Rightarrow> string \<Rightarrow> string \<Rightarrow> string list \<Rightarrow> string
     \<Rightarrow> normalization_error + reconciliation_evidence" where
  "mk_evidence boid status ts source sequence refs digest =
     raise_if (blank boid) (EmptyField ''broker_order_id'') (
     raise_if (blank source) (EmptyField ''source'') (
     raise_if (blank sequence) (EmptyField ''broker_sequence'') (
       Inr \<lparr>ev_broker_order_id = strip boid, ev_observed_status = status, ev_observed_at = ts,
            ev_source = strip source, ev_broker_sequence = strip sequence,
            ev_evidence_refs = refs, ev_evidence_digest = digest\<rparr>)))"

definition verify_digest :: "(string \<Rightarrow> string) \<Rightarrow> reconciliation_evidence \<Rightarrow> normalization_error + unit" where
  "verify_digest sha e =
     rbind (evidence_digest_of sha (ev_broker_order_id e) (ev_observed_status e) (ev_observed_at e)
       (ev_source e) (ev_broker_sequence e) (ev_evidence_refs e)) (\<lambda>expected.
     raise_if (ev_evidence_digest e \<noteq> expected) (DigestMismatch (ev_broker_order_id e)) (Inr ()))"

fun to_evidence_string :: "reconciliation_evidence \<Rightarrow> normalization_error + string" where
  "to_evidence_string e =
     (case ev_observed_status e of
        BK_FILLED \<Rightarrow> Inr ''FILLED''
      | BK_ORDER_CANCELLED \<Rightarrow> Inr ''CANCELLED''
      | BK_REJECT \<Rightarrow> Inr ''REJECTED''
      | BK_EXPIRED \<Rightarrow> Inr ''EXPIRED''
      | k \<Rightarrow> Inl (NotVerifiable (kind_value k)))"

subsection \<open>Normalisation\<close>

definition verifiable :: "broker_event_kind \<Rightarrow> bool" where
  "verifiable k \<longleftrightarrow> k \<in> {BK_FILLED, BK_REJECT, BK_ORDER_CANCELLED, BK_EXPIRED}"

definition build_evidence ::
    "(string \<Rightarrow> string) \<Rightarrow> string \<Rightarrow> broker_event_kind \<Rightarrow> time \<Rightarrow> string \<Rightarrow> string \<Rightarrow> string list
     \<Rightarrow> normalization_error + reconciliation_evidence option" where
  "build_evidence sha boid kd ts source sequence refs =
     (if \<not> verifiable kd then Inr None
      else rbind (evidence_digest_of sha boid kd ts source sequence refs) (\<lambda>digest.
           rbind (mk_evidence boid kd ts source sequence refs digest) (\<lambda>e. Inr (Some e))))"

definition normalize_broker_event ::
    "(string \<Rightarrow> string) \<Rightarrow> string \<Rightarrow> broker_event_kind \<Rightarrow> time \<Rightarrow> string \<Rightarrow> string \<Rightarrow> bool \<Rightarrow> string list
     \<Rightarrow> normalization_error + execution_event \<times> reconciliation_evidence option" where
  "normalize_broker_event sha boid kd ts source sequence cancel_was_requested refs =
     raise_if (strip boid = []) (EmptyField ''broker_order_id'') (
     raise_if (strip source = []) (EmptyField ''source'') (
     raise_if (strip sequence = []) (EmptyField ''broker_sequence'') (
     rbind (if kd = BK_ORDER_CANCELLED
            then (if \<not> cancel_was_requested then Inl AmbiguousCancel else Inr EV_CANCEL_ACK)
            else (case direct_event_map kd of
                    None \<Rightarrow> Inl (UnsupportedKind kd)
                  | Some e \<Rightarrow> Inr e)) (\<lambda>canonical_event.
     rbind (build_evidence sha boid kd ts source sequence refs) (\<lambda>evidence.
       Inr (canonical_event, evidence))))))"

subsection \<open>The digest binds the evidence\<close>

definition payload_tree ::
    "string \<Rightarrow> broker_event_kind \<Rightarrow> time \<Rightarrow> string \<Rightarrow> string \<Rightarrow> string list \<Rightarrow> json" where
  "payload_tree boid status ts source sequence refs =
     JObj [(''broker_order_id'', JStr boid), (''broker_sequence'', JStr sequence),
           (''evidence_refs'', JList (map JStr refs)), (''observed_at'', JStr (isoformat ts)),
           (''observed_status'', JStr (kind_value status)), (''source'', JStr source)]"

lemma serialize_strings [simp]: "serialize_list (map PStr refs) = Inr (map JStr refs)"
  by (induction refs) simp_all

lemma payload_json:
  "to_canonical_json (canonical_evidence_payload boid status ts source sequence refs)
     = Inr (dumps (payload_tree boid status ts source sequence refs))"
  by (simp add: canonical_evidence_payload_def payload_tree_def to_canonical_json_def)

lemma payload_tree_ok: "json_ok (payload_tree boid status ts source sequence refs)"
  by (auto simp: payload_tree_def)

lemma evidence_digest_of [simp]:
  "evidence_digest_of sha boid status ts source sequence refs
     = Inr (sha (dumps (payload_tree boid status ts source sequence refs)))"
  by (simp add: evidence_digest_of_def payload_json)

lemma payload_tree_inject:
  assumes "datetime_ok t" "datetime_ok t'"
  shows "dumps (payload_tree b k t s q r) = dumps (payload_tree b' k' t' s' q' r')
    \<longleftrightarrow> b = b' \<and> k = k' \<and> t = t' \<and> s = s' \<and> q = q' \<and> r = r'"
proof -
  have "inj JStr" by (simp add: inj_on_def)
  then have "map JStr r = map JStr r' \<longleftrightarrow> r = r'" by simp
  moreover have "isoformat t = isoformat t' \<longleftrightarrow> t = t'" using isoformat_inject assms by blast
  ultimately show ?thesis
    unfolding dumps_inject [OF payload_tree_ok payload_tree_ok] by (auto simp: payload_tree_def)
qed

text \<open>The content of an evidence record, without its digest, and its digested text.\<close>

definition evidence_text :: "reconciliation_evidence \<Rightarrow> string" where
  "evidence_text e = dumps (payload_tree (ev_broker_order_id e) (ev_observed_status e)
     (ev_observed_at e) (ev_source e) (ev_broker_sequence e) (ev_evidence_refs e))"

lemma verify_digest_iff: "verify_digest sha e = Inr () \<longleftrightarrow> ev_evidence_digest e = sha (evidence_text e)"
  by (simp add: verify_digest_def evidence_text_def raise_if_def)

text \<open>Evidence is tamper-evident.  Two evidence records that carry the same digest and both pass
  \<open>verify_digest\<close> are the same record, field for field, provided SHA-256 does not collide on
  their two canonical texts; and a record any of whose fields was changed after digesting is
  rejected with the digest mismatch.\<close>

theorem evidence_tamper_evident:
  assumes "verify_digest sha e = Inr ()"
    and "ev_evidence_digest e' = ev_evidence_digest e"
    and "separates sha (evidence_text e) (evidence_text e')"
    and "datetime_ok (ev_observed_at e)" "datetime_ok (ev_observed_at e')"
  shows "if e' = e then verify_digest sha e' = Inr ()
    else verify_digest sha e' = Inl (DigestMismatch (ev_broker_order_id e'))"
proof -
  have cases: "verify_digest sha e' = Inr () \<or> verify_digest sha e' = Inl (DigestMismatch (ev_broker_order_id e'))"
    by (simp add: verify_digest_def raise_if_def)
  have eq: "e' = e" if "verify_digest sha e' = Inr ()"
  proof -
    have "evidence_text e = evidence_text e'"
      using assms(1-3) that by (simp add: verify_digest_iff separates_def)
    note same = this [unfolded evidence_text_def payload_tree_inject [OF assms(4,5)]]
    show ?thesis
    proof (rule reconciliation_evidence.equality)
      show "reconciliation_evidence.more e' = reconciliation_evidence.more e" by simp
    qed (simp_all only: same assms(2))
  qed
  show ?thesis
  proof (cases "e' = e")
    case True
    then show ?thesis using assms(1) by simp
  next
    case False
    then show ?thesis using cases eq by (metis (no_types))
  qed
qed

definition sample_evidence :: reconciliation_evidence where
  "sample_evidence = \<lparr>ev_broker_order_id = ''B1'', ev_observed_status = BK_FILLED, ev_observed_at = 0,
     ev_source = ''X'', ev_broker_sequence = ''7'', ev_evidence_refs = [],
     ev_evidence_digest = dumps (payload_tree ''B1'' BK_FILLED 0 ''X'' ''7'' [])\<rparr>"

theorem evidence_tamper_evident_witness:
  "verify_digest (\<lambda>s. s) (sample_evidence\<lparr>ev_observed_status := BK_ORDER_CANCELLED\<rparr>)
     = Inl (DigestMismatch ''B1'')"
proof -
  let ?e' = "sample_evidence\<lparr>ev_observed_status := BK_ORDER_CANCELLED\<rparr>"
  have "verify_digest (\<lambda>s. s) sample_evidence = Inr ()"
    by (simp add: verify_digest_iff sample_evidence_def evidence_text_def)
  from evidence_tamper_evident [OF this, of ?e'] have
    "if ?e' = sample_evidence then verify_digest (\<lambda>s. s) ?e' = Inr ()
     else verify_digest (\<lambda>s. s) ?e' = Inl (DigestMismatch (ev_broker_order_id ?e'))"
    by (simp add: separates_def sample_evidence_def datetime_ok_def)
  then show ?thesis by (simp add: sample_evidence_def)
qed

subsection \<open>Normalisation and the state machine\<close>

text \<open>The terminal outcome a broker kind reports.\<close>

fun outcome :: "broker_event_kind \<Rightarrow> order_lifecycle_state option" where
  "outcome BK_FILLED = Some OL_FILLED"
| "outcome BK_ORDER_CANCELLED = Some OL_CANCELLED"
| "outcome BK_REJECT = Some OL_REJECTED"
| "outcome BK_EXPIRED = Some OL_EXPIRED"
| "outcome _ = None"

lemma verifiable_outcome: "verifiable k \<longleftrightarrow> (\<exists>s. outcome k = Some s)"
  by (cases k) (simp_all add: verifiable_def)

lemma build_evidence_cases:
  assumes "\<not> blank boid" "\<not> blank source" "\<not> blank sequence"
  shows "build_evidence sha boid kd ts source sequence refs =
    Inr (if verifiable kd then
      Some \<lparr>ev_broker_order_id = strip boid, ev_observed_status = kd, ev_observed_at = ts,
            ev_source = strip source, ev_broker_sequence = strip sequence, ev_evidence_refs = refs,
            ev_evidence_digest = sha (dumps (payload_tree boid kd ts source sequence refs))\<rparr>
      else None)"
  using assms by (simp add: build_evidence_def mk_evidence_def)

lemma reconcile_token:
  assumes "outcome (ev_observed_status e) = Some s"
  shows "\<exists>token. to_evidence_string e = Inr token
    \<and> order_step OL_UNKNOWN (EV_RECONCILE, Some token) = Inr s"
  using assms
  by (cases "ev_observed_status e")
    (simp_all only: outcome.simps option.inject option.distinct to_evidence_string.simps
      broker_event_kind.case sum.inject unknown_reconcile evidence_names_def is_terminal_simps,
     auto simp: string_eval)

text \<open>Normalisation agrees with the state machine.  A report with non-blank identifiers is
  rejected exactly when it is a cancellation nobody requested; otherwise it yields one event.  A
  report of an outcome also yields evidence, whose token, given to the reconciliation of an
  \<open>UNKNOWN\<close> order, drives it to the very state that the event confirms for a working order; the
  other reports yield no evidence.\<close>

theorem normalization_agrees_with_lifecycle:
  assumes "\<not> blank boid" "\<not> blank source" "\<not> blank sequence"
  shows "case normalize_broker_event sha boid kd ts source sequence canc refs of
      Inl err \<Rightarrow> err = AmbiguousCancel \<and> kd = BK_ORDER_CANCELLED \<and> \<not> canc
    | Inr (e, evidence) \<Rightarrow> \<not> (kd = BK_ORDER_CANCELLED \<and> \<not> canc)
        \<and> (case outcome kd of
             None \<Rightarrow> evidence = None \<and> (\<forall>s. \<not> confirms e s)
           | Some s \<Rightarrow> confirms e s \<and> (\<exists>ev token. evidence = Some ev \<and> ev_observed_status ev = kd
               \<and> to_evidence_string ev = Inr token
               \<and> order_step OL_UNKNOWN (EV_RECONCILE, Some token) = Inr s))"
proof (cases "kd = BK_ORDER_CANCELLED \<and> \<not> canc")
  case True
  then show ?thesis using assms by (simp add: normalize_broker_event_def blank_iff)
next
  case False
  obtain e where e: "normalize_broker_event sha boid kd ts source sequence canc refs
      = rbind (build_evidence sha boid kd ts source sequence refs) (\<lambda>ev. Inr (e, ev))"
    and conf: "\<forall>s. confirms e s \<longleftrightarrow> Some s = outcome kd"
    using assms False
    by (cases kd) (auto simp: normalize_broker_event_def blank_iff)
  show ?thesis
  proof (cases "outcome kd")
    case None
    then have "\<not> verifiable kd" by (simp add: verifiable_outcome)
    then show ?thesis using e conf None False by (simp add: build_evidence_cases [OF assms])
  next
    case (Some s)
    then have "verifiable kd" by (simp add: verifiable_outcome)
    then show ?thesis using e conf Some False
      by (simp add: build_evidence_cases [OF assms] reconcile_token del: to_evidence_string.simps)
  qed
qed

theorem normalization_agrees_with_lifecycle_witness:
  "\<exists>ev. normalize_broker_event (\<lambda>s. s) ''B1'' BK_REJECT 0 ''X'' ''7'' False [] = Inr (EV_REJECT, Some ev)"
proof -
  have "\<not> blank ''B1''" "\<not> blank ''X''" "\<not> blank ''7''" by (simp_all add: string_eval)
  from normalization_agrees_with_lifecycle [OF this, where sha = "\<lambda>s. s" and kd = BK_REJECT and ts = 0
      and canc = False and refs = "[]"]
  have "\<exists>e ev. normalize_broker_event (\<lambda>s. s) ''B1'' BK_REJECT 0 ''X'' ''7'' False [] = Inr (e, Some ev)
      \<and> confirms e OL_REJECTED"
    by (auto split: sum.splits)
  moreover have "confirms e OL_REJECTED \<Longrightarrow> e = EV_REJECT" for e by (cases e) simp_all
  ultimately show ?thesis by blast
qed

text \<open>The digest is taken before the validators strip the identifiers, so the evidence a
  normalisation produces verifies exactly when its identifiers had no surrounding blanks (SHA-256
  separating the two texts): authentic evidence with a blank in an identifier is reported as
  tampered.\<close>

theorem normalized_evidence_verifies_iff_trimmed:
  assumes "normalize_broker_event sha boid kd ts source sequence canc refs = Inr (e, Some ev)"
    and "separates sha (dumps (payload_tree boid kd ts source sequence refs)) (evidence_text ev)"
    and "datetime_ok ts"
  shows "verify_digest sha ev = Inr ()
    \<longleftrightarrow> strip boid = boid \<and> strip source = source \<and> strip sequence = sequence"
proof -
  have nb: "\<not> blank boid" "\<not> blank source" "\<not> blank sequence"
    using assms(1) by (auto simp: normalize_broker_event_def blank_iff rbind_Inr_iff)
  have "build_evidence sha boid kd ts source sequence refs = Inr (Some ev)"
    using assms(1) by (auto simp: normalize_broker_event_def rbind_Inr_iff)
  then have ev: "ev = \<lparr>ev_broker_order_id = strip boid, ev_observed_status = kd, ev_observed_at = ts,
            ev_source = strip source, ev_broker_sequence = strip sequence, ev_evidence_refs = refs,
            ev_evidence_digest = sha (dumps (payload_tree boid kd ts source sequence refs))\<rparr>"
    by (auto simp: build_evidence_cases [OF nb] split: if_splits)
  have "verify_digest sha ev = Inr ()
    \<longleftrightarrow> dumps (payload_tree boid kd ts source sequence refs) = evidence_text ev"
    using assms(2) by (auto simp: verify_digest_iff ev separates_def)
  then show ?thesis
    by (auto simp: ev evidence_text_def payload_tree_inject [OF assms(3) assms(3)])
qed

theorem normalized_evidence_verifies_iff_trimmed_witness:
  "\<exists>ev. normalize_broker_event (\<lambda>s. s) '' B1'' BK_FILLED 0 ''X'' ''7'' False [] = Inr (EV_FILL, Some ev)
    \<and> verify_digest (\<lambda>s. s) ev \<noteq> Inr ()"
proof -
  have nb: "\<not> blank '' B1''" "\<not> blank ''X''" "\<not> blank ''7''" by (simp_all add: string_eval)
  then obtain ev where n:
    "normalize_broker_event (\<lambda>s. s) '' B1'' BK_FILLED 0 ''X'' ''7'' False [] = Inr (EV_FILL, Some ev)"
    by (simp add: normalize_broker_event_def build_evidence_cases verifiable_def blank_iff)
  have "strip '' B1'' \<noteq> '' B1''" by (simp add: string_eval)
  with normalized_evidence_verifies_iff_trimmed [OF n] n show ?thesis
    by (simp add: separates_def datetime_ok_def)
qed

end
