(* ===== verification/MockBroker.thy ===== *)
theory MockBroker
  imports Coordinator BrokerEvents
begin

section \<open>The mock broker, the sandbox adapter and the engine pump\<close>

text \<open>
  \<open>execution/mock_broker.py\<close> and \<open>execution/broker_adapter.py\<close>: the broker-side order book of
  the sandbox, the adapter over it, and \<open>to_coordinator_event\<close>, the seam that turns a raw
  observation into an event of the coordinator.  The time \<open>datetime.now\<close> returns is an argument.
\<close>

datatype mock_broker_status =
    MB_NEW | MB_ACKNOWLEDGED | MB_PARTIALLY_FILLED | MB_FILLED | MB_CANCELLED | MB_REJECTED
  | MB_EXPIRED | MB_DISCONNECTED

record broker_raw_event =
  re_broker_order_id :: string
  re_event_kind :: broker_event_kind
  re_observed_at :: time
  re_source :: string
  re_broker_sequence :: string
  re_cancel_was_requested :: bool

record mock_order =
  mo_broker_order_id :: string
  mo_client_order_id :: string
  mo_requested_qty :: dec
  mo_symbol :: string
  mo_status :: mock_broker_status
  mo_filled_qty :: dec
  mo_cancel_was_requested :: bool
  mo_sequence_counter :: nat
  mo_events :: "broker_raw_event list"

record mock_broker =
  mb_source :: string
  mb_orders :: "(string, mock_order) dict"
  mb_counter :: nat

datatype broker_error =
    KeyError string
  | CannotAck mock_broker_status
  | AlreadyFilled
  | NoPendingCancel

definition new_mock_broker :: "string \<Rightarrow> mock_broker" where
  "new_mock_broker source = \<lparr>mb_source = source, mb_orders = [], mb_counter = 0\<rparr>"

definition new_broker_id :: "nat \<Rightarrow> string \<Rightarrow> string" where
  "new_broker_id n client_order_id = ''BROKER_'' @ str_nat n @ ''_'' @ client_order_id"

definition place_order :: "mock_broker \<Rightarrow> string \<Rightarrow> string \<Rightarrow> dec \<Rightarrow> mock_order \<times> mock_broker" where
  "place_order b client_order_id sy quantity =
     (let n = mb_counter b + 1; boid = new_broker_id n client_order_id;
          order = \<lparr>mo_broker_order_id = boid, mo_client_order_id = client_order_id,
                   mo_requested_qty = quantity, mo_symbol = sy, mo_status = MB_NEW,
                   mo_filled_qty = 0, mo_cancel_was_requested = False,
                   mo_sequence_counter = 0, mo_events = []\<rparr>
      in (order, b\<lparr>mb_counter := n, mb_orders := dict_put boid order (mb_orders b)\<rparr>))"

definition has_order :: "mock_broker \<Rightarrow> string \<Rightarrow> bool" where
  "has_order b boid \<longleftrightarrow> dict_get (mb_orders b) boid \<noteq> None"

definition get_order :: "mock_broker \<Rightarrow> string \<Rightarrow> mock_order option" where
  "get_order b boid = dict_get (mb_orders b) boid"

definition require :: "mock_broker \<Rightarrow> string \<Rightarrow> broker_error + mock_order" where
  "require b boid = (case dict_get (mb_orders b) boid of None \<Rightarrow> Inl (KeyError boid) | Some x \<Rightarrow> Inr x)"

subsection \<open>Broker-side behaviours\<close>

text \<open>\<open>_raw\<close> followed by \<open>order.events.append\<close>.\<close>

definition sequence_text :: "nat \<Rightarrow> string" where
  "sequence_text n = ''SEQ_'' @ str_nat n"

definition emit :: "string \<Rightarrow> time \<Rightarrow> broker_event_kind \<Rightarrow> mock_order \<Rightarrow> broker_raw_event \<times> mock_order" where
  "emit source now kd x =
     (let n = mo_sequence_counter x + 1;
          ev = \<lparr>re_broker_order_id = mo_broker_order_id x, re_event_kind = kd, re_observed_at = now,
                re_source = source, re_broker_sequence = sequence_text n,
                re_cancel_was_requested = mo_cancel_was_requested x\<rparr>
      in (ev, x\<lparr>mo_sequence_counter := n, mo_events := mo_events x @ [ev]\<rparr>))"

text \<open>The order-level part of each method: the updated order, or the exception.\<close>

definition do_acknowledge :: "mock_order \<Rightarrow> broker_error + mock_order" where
  "do_acknowledge x =
     (if mo_status x \<noteq> MB_NEW \<and> mo_status x \<noteq> MB_ACKNOWLEDGED then Inl (CannotAck (mo_status x))
      else Inr (x\<lparr>mo_status := MB_ACKNOWLEDGED\<rparr>))"

definition do_partial_fill :: "dec \<Rightarrow> mock_order \<Rightarrow> broker_error + mock_order" where
  "do_partial_fill q x =
     (if mo_status x = MB_FILLED then Inl AlreadyFilled
      else Inr (x\<lparr>mo_status := MB_PARTIALLY_FILLED, mo_filled_qty := dadd (mo_filled_qty x) q\<rparr>))"

definition do_full_fill :: "mock_order \<Rightarrow> broker_error + mock_order" where
  "do_full_fill x = Inr (x\<lparr>mo_status := MB_FILLED, mo_filled_qty := mo_requested_qty x\<rparr>)"

definition do_reject :: "mock_order \<Rightarrow> broker_error + mock_order" where
  "do_reject x = Inr (x\<lparr>mo_status := MB_REJECTED\<rparr>)"

definition do_expire :: "mock_order \<Rightarrow> broker_error + mock_order" where
  "do_expire x = Inr (x\<lparr>mo_status := MB_EXPIRED\<rparr>)"

definition do_request_cancel :: "mock_order \<Rightarrow> broker_error + mock_order" where
  "do_request_cancel x = Inr (x\<lparr>mo_cancel_was_requested := True\<rparr>)"

definition do_confirm_cancel :: "mock_order \<Rightarrow> broker_error + mock_order" where
  "do_confirm_cancel x =
     (if \<not> mo_cancel_was_requested x then Inl NoPendingCancel
      else Inr (x\<lparr>mo_status := MB_CANCELLED\<rparr>))"

definition do_fill_during_cancel :: "mock_order \<Rightarrow> broker_error + mock_order" where
  "do_fill_during_cancel x = Inr (x\<lparr>mo_status := MB_FILLED, mo_filled_qty := mo_requested_qty x\<rparr>)"

definition do_connection_lost :: "mock_order \<Rightarrow> broker_error + mock_order" where
  "do_connection_lost x = Inr (x\<lparr>mo_status := MB_DISCONNECTED\<rparr>)"

definition do_reject_cancel :: "mock_order \<Rightarrow> broker_error + mock_order" where
  "do_reject_cancel x =
     (if \<not> mo_cancel_was_requested x then Inl NoPendingCancel
      else Inr (x\<lparr>mo_status := MB_ACKNOWLEDGED, mo_cancel_was_requested := False\<rparr>))"

text \<open>The methods of \<open>MockBroker\<close>, each with the event it reports (a cancel request has none).\<close>

datatype broker_op =
    B_ack | B_partial_fill dec | B_full_fill | B_reject | B_expire | B_request_cancel
  | B_confirm_cancel | B_fill_during_cancel | B_connection_lost | B_reject_cancel

fun op_effect :: "broker_op \<Rightarrow> mock_order \<Rightarrow> broker_error + mock_order" where
  "op_effect B_ack x = do_acknowledge x"
| "op_effect (B_partial_fill q) x = do_partial_fill q x"
| "op_effect B_full_fill x = do_full_fill x"
| "op_effect B_reject x = do_reject x"
| "op_effect B_expire x = do_expire x"
| "op_effect B_request_cancel x = do_request_cancel x"
| "op_effect B_confirm_cancel x = do_confirm_cancel x"
| "op_effect B_fill_during_cancel x = do_fill_during_cancel x"
| "op_effect B_connection_lost x = do_connection_lost x"
| "op_effect B_reject_cancel x = do_reject_cancel x"

fun op_event :: "broker_op \<Rightarrow> broker_event_kind option" where
  "op_event B_ack = Some BK_ACK"
| "op_event (B_partial_fill q) = Some BK_PARTIAL_FILL"
| "op_event B_full_fill = Some BK_FILLED"
| "op_event B_reject = Some BK_REJECT"
| "op_event B_expire = Some BK_EXPIRED"
| "op_event B_request_cancel = None"
| "op_event B_confirm_cancel = Some BK_ORDER_CANCELLED"
| "op_event B_fill_during_cancel = Some BK_FILLED"
| "op_event B_connection_lost = Some BK_CONNECTION_LOST"
| "op_event B_reject_cancel = Some BK_CANCEL_REJECTED"

definition order_op ::
    "string \<Rightarrow> time \<Rightarrow> broker_op \<Rightarrow> mock_order \<Rightarrow> broker_error + broker_raw_event option \<times> mock_order" where
  "order_op source now op x =
     rbind (op_effect op x) (\<lambda>x'.
       case op_event op of
         None \<Rightarrow> Inr (None, x')
       | Some kd \<Rightarrow> (let (ev, x'') = emit source now kd x' in Inr (Some ev, x'')))"

definition broker_do ::
    "mock_broker \<Rightarrow> string \<Rightarrow> time \<Rightarrow> broker_op \<Rightarrow> broker_error + broker_raw_event option \<times> mock_broker" where
  "broker_do b boid now op =
     rbind (require b boid) (\<lambda>x.
     rbind (order_op (mb_source b) now op x) (\<lambda>(ev, x').
       Inr (ev, b\<lparr>mb_orders := dict_put boid x' (mb_orders b)\<rparr>)))"

subsection \<open>The sandbox adapter\<close>

record broker_position =
  bp_symbol :: string
  bp_quantity :: dec
  bp_venue :: string

record submission_receipt =
  sr_broker_order_id :: string
  sr_client_order_id :: string

record sandbox_adapter =
  sa_broker :: mock_broker
  sa_source :: string
  sa_positions :: "(string, broker_position) dict"

datatype adapter_error =
    QuantityNotPositive string
  | UnknownOrder string
  | Guarded broker_error
  | Overfill string

definition new_sandbox_adapter :: "string \<Rightarrow> sandbox_adapter" where
  "new_sandbox_adapter source =
     \<lparr>sa_broker = new_mock_broker source, sa_source = source, sa_positions = []\<rparr>"

definition submit_order ::
    "sandbox_adapter \<Rightarrow> string \<Rightarrow> string \<Rightarrow> dec \<Rightarrow> adapter_error + submission_receipt \<times> sandbox_adapter" where
  "submit_order a client_order_id sy quantity =
     (if quantity \<le> 0 then Inl (QuantityNotPositive sy)
      else let (order, b) = place_order (sa_broker a) client_order_id sy quantity;
               pos = \<lparr>bp_symbol = sy, bp_quantity = 0, bp_venue = sa_source a\<rparr>
           in Inr (\<lparr>sr_broker_order_id = mo_broker_order_id order, sr_client_order_id = client_order_id\<rparr>,
                   a\<lparr>sa_broker := b, sa_positions := dict_put sy pos (sa_positions a)\<rparr>))"

definition query_order :: "sandbox_adapter \<Rightarrow> string \<Rightarrow> adapter_error + mock_order" where
  "query_order a boid =
     (case get_order (sa_broker a) boid of None \<Rightarrow> Inl (UnknownOrder boid) | Some x \<Rightarrow> Inr x)"

definition query_position :: "sandbox_adapter \<Rightarrow> string \<Rightarrow> broker_position option" where
  "query_position a sy = dict_get (sa_positions a) sy"

definition subscribe_events :: "sandbox_adapter \<Rightarrow> string \<Rightarrow> adapter_error + broker_raw_event list" where
  "subscribe_events a boid =
     (case get_order (sa_broker a) boid of None \<Rightarrow> Inl (UnknownOrder boid) | Some x \<Rightarrow> Inr (mo_events x))"

definition guarded :: "broker_error + 'a \<Rightarrow> adapter_error + 'a" where
  "guarded r = (case r of Inl e \<Rightarrow> Inl (Guarded e) | Inr x \<Rightarrow> Inr x)"

definition update_position :: "sandbox_adapter \<Rightarrow> string \<Rightarrow> adapter_error + sandbox_adapter" where
  "update_position a boid =
     rbind (query_order a boid) (\<lambda>x.
       Inr (a\<lparr>sa_positions := dict_put (mo_symbol x)
              \<lparr>bp_symbol = mo_symbol x, bp_quantity = mo_filled_qty x, bp_venue = sa_source a\<rparr>
              (sa_positions a)\<rparr>))"

text \<open>The driver methods: the guarded broker call, and a position update after the three fills.\<close>

definition fills :: "broker_op \<Rightarrow> bool" where
  "fills op \<longleftrightarrow> op = B_full_fill \<or> op = B_fill_during_cancel \<or> (\<exists>q. op = B_partial_fill q)"

definition adapter_do ::
    "sandbox_adapter \<Rightarrow> string \<Rightarrow> time \<Rightarrow> broker_op \<Rightarrow> adapter_error + broker_raw_event option \<times> sandbox_adapter" where
  "adapter_do a boid now op =
     rbind (guarded (broker_do (sa_broker a) boid now op)) (\<lambda>(ev, b).
       let a' = a\<lparr>sa_broker := b\<rparr> in
       if fills op then rbind (update_position a' boid) (\<lambda>a''. Inr (ev, a'')) else Inr (ev, a'))"

definition expect_overfill_guard :: "sandbox_adapter \<Rightarrow> string \<Rightarrow> dec \<Rightarrow> adapter_error + unit" where
  "expect_overfill_guard a boid cumulative_qty =
     rbind (query_order a boid) (\<lambda>x.
       if cumulative_qty > mo_requested_qty x then Inl (Overfill boid) else Inr ())"

subsection \<open>The engine pump\<close>

definition to_coordinator_event ::
    "(string \<Rightarrow> string) \<Rightarrow> broker_raw_event \<Rightarrow> dec option \<Rightarrow> normalization_error + coordinator_event" where
  "to_coordinator_event sha raw fill_qty =
     rbind (normalize_broker_event sha (re_broker_order_id raw) (re_event_kind raw) (re_observed_at raw)
              (re_source raw) (re_broker_sequence raw) (re_cancel_was_requested raw) []) (\<lambda>(event, evidence).
       Inr \<lparr>ce_broker_event_id = re_broker_order_id raw @ '':'' @ re_broker_sequence raw,
            ce_broker_sequence = re_broker_sequence raw, ce_canonical_event = event,
            ce_evidence = None, ce_fill_qty = fill_qty, ce_order_id = None, ce_observed_at = None,
            ce_evidence_refs = []\<rparr>)"

subsection \<open>Broker invariants\<close>

text \<open>An order's log numbers its events 1, 2, ... and every event names the order; the broker's
  keys are the identifiers of its orders, made by counter values already used.\<close>

definition order_ok :: "mock_order \<Rightarrow> bool" where
  "order_ok x \<longleftrightarrow> map re_broker_sequence (mo_events x) = map sequence_text [1..<Suc (mo_sequence_counter x)]
     \<and> (\<forall>ev \<in> set (mo_events x). re_broker_order_id ev = mo_broker_order_id x)"

definition broker_ok :: "mock_broker \<Rightarrow> bool" where
  "broker_ok b \<longleftrightarrow> (\<forall>k x. dict_get (mb_orders b) k = Some x \<longrightarrow> mo_broker_order_id x = k \<and> order_ok x
     \<and> (\<exists>n client. k = new_broker_id n client \<and> n \<le> mb_counter b))"

lemma op_effect_frame:
  "op_effect op x = Inr x' \<Longrightarrow> mo_broker_order_id x' = mo_broker_order_id x
    \<and> mo_sequence_counter x' = mo_sequence_counter x \<and> mo_events x' = mo_events x
    \<and> mo_client_order_id x' = mo_client_order_id x \<and> mo_requested_qty x' = mo_requested_qty x
    \<and> mo_symbol x' = mo_symbol x"
  by (cases op) (auto simp: do_acknowledge_def do_partial_fill_def do_full_fill_def do_reject_def
      do_expire_def do_request_cancel_def do_confirm_cancel_def do_fill_during_cancel_def
      do_connection_lost_def do_reject_cancel_def split: if_splits)

lemma order_op_ok:
  assumes "order_ok x" and "order_op source now op x = Inr (ev, x')"
  shows "order_ok x' \<and> mo_broker_order_id x' = mo_broker_order_id x
    \<and> mo_requested_qty x' = mo_requested_qty x \<and> mo_symbol x' = mo_symbol x
    \<and> mo_events x' = mo_events x @ (case ev of None \<Rightarrow> [] | Some e \<Rightarrow> [e])
    \<and> (\<forall>e. ev = Some e \<longrightarrow> re_broker_order_id e = mo_broker_order_id x
         \<and> re_broker_sequence e = sequence_text (mo_sequence_counter x + 1)
         \<and> mo_sequence_counter x' = mo_sequence_counter x + 1)"
  using assms
  by (auto simp: order_op_def rbind_Inr_iff order_ok_def emit_def Let_def
      dest!: op_effect_frame split: option.splits)

lemma new_broker_id_counter: "new_broker_id n c = new_broker_id n' c' \<Longrightarrow> n = n'"
proof -
  assume "new_broker_id n c = new_broker_id n' c'"
  then have "str_nat n @ CHR ''_'' # c = str_nat n' @ CHR ''_'' # c'"
    by (simp add: new_broker_id_def)
  moreover have "\<not> is_digit (CHR ''_'')" by (simp add: is_digit_def)
  ultimately have "str_nat n = str_nat n'"
    using digits_prefix str_nat_digits by blast
  then show ?thesis by simp
qed

subsection \<open>Identities are unique\<close>

datatype market_op = Place string string dec | Do string time broker_op

fun market_step :: "mock_broker \<Rightarrow> market_op \<Rightarrow> broker_error + mock_broker" where
  "market_step b (Place client sy q) = Inr (snd (place_order b client sy q))"
| "market_step b (Do boid now op) = rbind (broker_do b boid now op) (\<lambda>(ev, b'). Inr b')"

lemma place_order_fresh:
  assumes "broker_ok b"
  shows "dict_get (mb_orders b) (new_broker_id (mb_counter b + 1) client) = None"
proof (rule ccontr)
  assume "dict_get (mb_orders b) (new_broker_id (mb_counter b + 1) client) \<noteq> None"
  then obtain n c where "new_broker_id (mb_counter b + 1) client = new_broker_id n c" "n \<le> mb_counter b"
    using assms by (fastforce simp: broker_ok_def)
  then show False using new_broker_id_counter by fastforce
qed

lemma market_step_ok:
  assumes "broker_ok b" and "market_step b op = Inr b'"
  shows "broker_ok b'"
proof (cases op)
  case (Place client sy q)
  define x where "x = fst (place_order b client sy q)"
  have x: "order_ok x" "mo_broker_order_id x = new_broker_id (mb_counter b + 1) client"
    by (simp_all add: x_def place_order_def Let_def order_ok_def)
  have b': "b' = b\<lparr>mb_counter := mb_counter b + 1,
      mb_orders := dict_put (new_broker_id (mb_counter b + 1) client) x (mb_orders b)\<rparr>"
    using assms(2) by (auto simp: Place x_def place_order_def Let_def)
  show ?thesis
    unfolding broker_ok_def
  proof (intro allI impI)
    fix k y assume y: "dict_get (mb_orders b') k = Some y"
    show "mo_broker_order_id y = k \<and> order_ok y \<and> (\<exists>n client. k = new_broker_id n client \<and> n \<le> mb_counter b')"
    proof (cases "k = new_broker_id (mb_counter b + 1) client")
      case True
      then have "y = x" using y by (simp add: b' dict_get_put)
      moreover have "mb_counter b + 1 \<le> mb_counter b'" by (simp add: b')
      ultimately show ?thesis using x True by blast
    next
      case False
      then have "dict_get (mb_orders b) k = Some y" using y by (simp add: b' dict_get_put)
      then have "mo_broker_order_id y = k \<and> order_ok y
          \<and> (\<exists>n client. k = new_broker_id n client \<and> n \<le> mb_counter b)"
        using assms(1) by (simp add: broker_ok_def)
      moreover have "mb_counter b \<le> mb_counter b'" by (simp add: b')
      ultimately show ?thesis using order_trans by blast
    qed
  qed
next
  case (Do boid now op')
  then obtain ev x x' where x: "dict_get (mb_orders b) boid = Some x"
    and o: "order_op (mb_source b) now op' x = Inr (ev, x')"
    and b': "b' = b\<lparr>mb_orders := dict_put boid x' (mb_orders b)\<rparr>"
    using assms(2) by (auto simp: broker_do_def require_def rbind_Inr_iff split: option.splits)
  have xo: "order_ok x" "mo_broker_order_id x = boid"
      "\<exists>n client. boid = new_broker_id n client \<and> n \<le> mb_counter b"
    using assms(1) x by (auto simp: broker_ok_def)
  from order_op_ok [OF xo(1) o] xo(2,3) assms(1) show ?thesis
    by (simp add: b' broker_ok_def dict_get_put)
qed

lemma reachable_broker_ok: "broker_ok (run_lossy market_step (new_mock_broker source) ops)"
  by (rule run_lossy_invariant [of broker_ok, OF market_step_ok])
    (auto simp: broker_ok_def new_mock_broker_def)

definition identity :: "broker_raw_event \<Rightarrow> string \<times> string" where
  "identity ev = (re_broker_order_id ev @ '':'' @ re_broker_sequence ev, re_broker_sequence ev)"

text \<open>In every reachable broker, whatever is placed, filled, cancelled or disconnected in whatever
  order, placing an order never overwrites another one, and the identity the pump gives an event
  determines the order and the position in its log: two different events of the broker are never
  taken for a redelivery of each other.\<close>

theorem broker_event_identities_unique:
  assumes "b = run_lossy market_step (new_mock_broker source) ops"
  shows "dict_get (mb_orders b) (mo_broker_order_id (fst (place_order b client sy q))) = None
    \<and> (\<forall>k k' x y i j. dict_get (mb_orders b) k = Some x \<and> dict_get (mb_orders b) k' = Some y
        \<and> i < length (mo_events x) \<and> j < length (mo_events y)
        \<and> identity (mo_events x ! i) = identity (mo_events y ! j) \<longrightarrow> k = k' \<and> i = j)"
proof
  have ok: "broker_ok b" unfolding assms by (rule reachable_broker_ok)
  show "dict_get (mb_orders b) (mo_broker_order_id (fst (place_order b client sy q))) = None"
    using place_order_fresh [OF ok] by (simp add: place_order_def Let_def)
  show "\<forall>k k' x y i j. dict_get (mb_orders b) k = Some x \<and> dict_get (mb_orders b) k' = Some y
        \<and> i < length (mo_events x) \<and> j < length (mo_events y)
        \<and> identity (mo_events x ! i) = identity (mo_events y ! j) \<longrightarrow> k = k' \<and> i = j"
  proof (intro allI impI, elim conjE)
    fix k k' x y i j
    assume x: "dict_get (mb_orders b) k = Some x" and y: "dict_get (mb_orders b) k' = Some y"
      and i: "i < length (mo_events x)" and j: "j < length (mo_events y)"
      and id: "identity (mo_events x ! i) = identity (mo_events y ! j)"
    have nth: "re_broker_sequence (mo_events z ! n) = sequence_text (Suc n)
        \<and> re_broker_order_id (mo_events z ! n) = kz"
      if "dict_get (mb_orders b) kz = Some z" "n < length (mo_events z)" for z kz n
    proof -
      have z: "order_ok z" "mo_broker_order_id z = kz" using ok that(1) by (auto simp: broker_ok_def)
      then have seqs: "map re_broker_sequence (mo_events z) = map sequence_text [1..<Suc (mo_sequence_counter z)]"
        by (simp add: order_ok_def)
      have "length (mo_events z) = mo_sequence_counter z"
        using arg_cong [OF seqs, of length] by simp
      then have "map re_broker_sequence (mo_events z) ! n = sequence_text (Suc n)"
        using that(2) by (simp add: seqs del: upt_Suc)
      then show ?thesis using that(2) z by (auto simp: order_ok_def)
    qed
    from nth [OF x i] nth [OF y j] id show "k = k' \<and> i = j"
      by (auto simp: identity_def sequence_text_def)
  qed
qed

lemma reachable_sample:
  "dict_get (mb_orders (run_lossy market_step (new_mock_broker ''X'')
      [Place ''A'' ''BTC'' 1, Do ''BROKER_1_A'' 0 B_ack])) ''BROKER_1_A'' \<noteq> None"
  by code_simp

theorem broker_event_identities_unique_witness:
  "let b = run_lossy market_step (new_mock_broker ''X'') [Place ''A'' ''BTC'' 1, Do ''BROKER_1_A'' 0 B_ack]
   in \<exists>x. dict_get (mb_orders b) ''BROKER_1_A'' = Some x
      \<and> dict_get (mb_orders b) (mo_broker_order_id (fst (place_order b ''A'' ''BTC'' 1))) = None"
  using reachable_sample
    broker_event_identities_unique [OF refl, of "''X''" "[Place ''A'' ''BTC'' 1, Do ''BROKER_1_A'' 0 B_ack]" "''A''" "''BTC''" 1]
  by (auto simp: Let_def)

subsection \<open>The shadow state follows the broker\<close>

text \<open>The event the pump delivers for each reported kind.\<close>

definition canonical_event :: "broker_event_kind \<Rightarrow> execution_event" where
  "canonical_event kd = (case direct_event_map kd of None \<Rightarrow> EV_CANCEL_ACK | Some e \<Rightarrow> e)"

lemma pump_event:
  assumes "\<not> blank (re_broker_order_id raw)" "\<not> blank (re_source raw)" "\<not> blank (re_broker_sequence raw)"
    and "re_event_kind raw = BK_ORDER_CANCELLED \<Longrightarrow> re_cancel_was_requested raw"
  shows "\<exists>e. to_coordinator_event sha raw q = Inr e \<and> event_key e = identity raw
    \<and> ce_canonical_event e = canonical_event (re_event_kind raw) \<and> ce_evidence e = None
    \<and> ce_fill_qty e = q"
  using assms
  by (cases "re_event_kind raw")
    (simp_all add: to_coordinator_event_def normalize_broker_event_def build_evidence_cases blank_iff
      event_key_def identity_def canonical_event_def)

text \<open>A lawful exchange: what it may do to an order, given its status and a pending cancel.  (The mock
  itself allows more, for instance a rejection after a fill.)\<close>

fun lawful :: "mock_broker_status \<Rightarrow> bool \<Rightarrow> broker_op \<Rightarrow> bool" where
  "lawful MB_NEW False op \<longleftrightarrow> op \<in> {B_ack, B_reject, B_connection_lost}"
| "lawful MB_ACKNOWLEDGED False op \<longleftrightarrow> (\<exists>q > 0. op = B_partial_fill q)
     \<or> op \<in> {B_full_fill, B_request_cancel, B_reject, B_expire, B_connection_lost}"
| "lawful MB_PARTIALLY_FILLED False op \<longleftrightarrow> (\<exists>q > 0. op = B_partial_fill q)
     \<or> op \<in> {B_full_fill, B_request_cancel, B_expire, B_connection_lost}"
| "lawful MB_ACKNOWLEDGED True op \<longleftrightarrow>
     op \<in> {B_confirm_cancel, B_reject_cancel, B_fill_during_cancel, B_connection_lost}"
| "lawful MB_PARTIALLY_FILLED True op \<longleftrightarrow>
     op \<in> {B_confirm_cancel, B_reject_cancel, B_fill_during_cancel, B_connection_lost}"
| "lawful _ _ op \<longleftrightarrow> False"

text \<open>The shadow state that mirrors a broker-side status.\<close>

fun mirror :: "mock_broker_status \<Rightarrow> bool \<Rightarrow> order_lifecycle_state" where
  "mirror MB_NEW canc = OL_SUBMITTED"
| "mirror MB_ACKNOWLEDGED canc = (if canc then OL_CANCEL_REQUESTED else OL_ACKNOWLEDGED)"
| "mirror MB_PARTIALLY_FILLED canc = (if canc then OL_CANCEL_REQUESTED else OL_PARTIALLY_FILLED)"
| "mirror MB_FILLED canc = OL_FILLED"
| "mirror MB_CANCELLED canc = OL_CANCELLED"
| "mirror MB_REJECTED canc = OL_REJECTED"
| "mirror MB_EXPIRED canc = OL_EXPIRED"
| "mirror MB_DISCONNECTED canc = OL_UNKNOWN"

definition shadow_of :: "mock_order \<Rightarrow> order_lifecycle_state" where
  "shadow_of x = mirror (mo_status x) (mo_cancel_was_requested x)"

fun pumped_qty :: "broker_op \<Rightarrow> dec option" where
  "pumped_qty (B_partial_fill q) = Some q"
| "pumped_qty _ = None"

text \<open>An event that the transition authority accepts drives the mirrored state to the mirror of the new
  status, whatever the broker did.\<close>

lemma accepted_op:
  assumes "op_effect op x = Inr x'" and "op_event op = Some kd"
    and "contract (shadow_of x) (canonical_event kd) None s'"
    and "mo_status x = MB_NEW \<longrightarrow> \<not> mo_cancel_was_requested x"
  shows "s' = shadow_of x' \<and> (mo_status x' = MB_NEW \<longrightarrow> \<not> mo_cancel_was_requested x')
    \<and> mo_status x \<noteq> MB_FILLED
    \<and> (mo_status x' \<noteq> MB_FILLED \<longrightarrow>
        mo_filled_qty x' = (case pumped_qty op of None \<Rightarrow> mo_filled_qty x | Some q \<Rightarrow> dadd (mo_filled_qty x) q))
    \<and> (\<forall>q. pumped_qty op = Some q \<longrightarrow> canonical_event kd = EV_PARTIAL_FILL)"
  using assms
  by (cases "mo_status x"; cases "mo_cancel_was_requested x"; cases op)
    (auto simp: do_acknowledge_def do_partial_fill_def do_full_fill_def do_reject_def
      do_expire_def do_confirm_cancel_def do_fill_during_cancel_def do_connection_lost_def
      do_reject_cancel_def shadow_of_def canonical_event_def contract_simps)

lemma accepted_cancel_request:
  "contract (shadow_of x) EV_CANCEL_REQUEST ev s' \<Longrightarrow> s' = shadow_of (x\<lparr>mo_cancel_was_requested := True\<rparr>)
    \<and> mo_status x \<noteq> MB_NEW"
  by (cases "mo_status x"; cases "mo_cancel_was_requested x") (simp_all add: shadow_of_def contract_simps)

lemma lawful_event_accepted:
  assumes "lawful (mo_status x) (mo_cancel_was_requested x) op" and "op_event op = Some kd"
  shows "(\<exists>x'. op_effect op x = Inr x') \<and> (\<exists>s'. contract (shadow_of x) (canonical_event kd) None s')"
  using assms
  by (cases "mo_status x"; cases "mo_cancel_was_requested x"; cases op)
    (simp_all add: do_acknowledge_def do_partial_fill_def do_full_fill_def do_reject_def
      do_expire_def do_confirm_cancel_def do_fill_during_cancel_def do_connection_lost_def
      do_reject_cancel_def shadow_of_def canonical_event_def contract_simps)

lemma lawful_cancel_accepted:
  "lawful (mo_status x) (mo_cancel_was_requested x) B_request_cancel
    \<Longrightarrow> \<exists>s'. contract (shadow_of x) EV_CANCEL_REQUEST ev s'"
  by (cases "mo_status x"; cases "mo_cancel_was_requested x") (simp_all add: shadow_of_def contract_simps)

text \<open>
  The composed system: a fresh order and its coordinator; then the exchange performs any operations
  the mock broker admits, whose events are pumped once and in order, and the engine's cancel requests
  reach both sides, under an identity of its own that no broker event has.  The index \<open>ops\<close> lists the
  operations performed, \<open>orderly\<close> tells whether all of them were lawful.
\<close>

definition broker_identity :: "string \<times> string \<Rightarrow> bool" where
  "broker_identity k \<longleftrightarrow> (\<exists>boid n. k = (boid @ '':'' @ sequence_text n, sequence_text n))"

inductive composed ::
    "(string \<Rightarrow> string) \<Rightarrow> string \<Rightarrow> broker_op list \<Rightarrow> bool \<Rightarrow> mock_order \<Rightarrow> coordinator \<Rightarrow> bool"
  for sha source where
  start: "mo_status x = MB_NEW \<Longrightarrow> \<not> mo_cancel_was_requested x \<Longrightarrow> mo_filled_qty x = 0
    \<Longrightarrow> order_ok x \<Longrightarrow> \<not> blank (mo_broker_order_id x)
    \<Longrightarrow> mk_coordinator eid (mo_requested_qty x) OL_SUBMITTED iid = Inr c
    \<Longrightarrow> composed sha source [] True x c"
| report: "composed sha source ops orderly x c
    \<Longrightarrow> order_op source now op x = Inr (Some raw, x')
    \<Longrightarrow> to_coordinator_event sha raw (pumped_qty op) = Inr e
    \<Longrightarrow> composed sha source (ops @ [op]) (orderly \<and> lawful (mo_status x) (mo_cancel_was_requested x) op)
          x' (after c (Deliver e))"
| cancel: "composed sha source ops orderly x c
    \<Longrightarrow> order_op source now B_request_cancel x = Inr (None, x')
    \<Longrightarrow> ce_canonical_event e = EV_CANCEL_REQUEST \<Longrightarrow> event_key e \<notin> set (co_seen c)
    \<Longrightarrow> \<not> broker_identity (event_key e)
    \<Longrightarrow> composed sha source (ops @ [B_request_cancel])
          (orderly \<and> lawful (mo_status x) (mo_cancel_was_requested x) B_request_cancel)
          x' (after c (Deliver e))"

inductive_cases composed_cases: "composed sha source ops orderly x c"

text \<open>A fresh, accepted delivery.\<close>

lemma accepted_delivery:
  assumes "event_key e \<notin> set (co_seen c)"
    and "contract (co_shadow_state c) (ce_canonical_event e) (ce_evidence e) s'"
  shows "co_shadow_state (after c (Deliver e)) = s'"
    and "co_filled_qty (after c (Deliver e)) = accumulated (co_filled_qty c) e"
    and "co_seen (after c (Deliver e)) = event_key e # co_seen c"
    and "co_incidents (after c (Deliver e)) = co_incidents c"
    and "co_disputed (after c (Deliver e)) = co_disputed c"
proof -
  obtain t where t: "transition_order (co_shadow_state c) (ce_canonical_event e) (ce_evidence e) = Inr t"
      "new_state t = s'"
    using assms(2) unfolding order_step_contract [symmetric] by (auto simp: order_step_def rbind_Inr_iff)
  then show "co_shadow_state (after c (Deliver e)) = s'"
    and "co_filled_qty (after c (Deliver e)) = accumulated (co_filled_qty c) e"
    and "co_seen (after c (Deliver e)) = event_key e # co_seen c"
    and "co_incidents (after c (Deliver e)) = co_incidents c"
    and "co_disputed (after c (Deliver e)) = co_disputed c"
    using assms(1) by (simp_all add: after_def apply_event_def Let_def outcome_now_def)
qed

text \<open>A fresh delivery that the authority refuses: the identity is kept and an incident is recorded.\<close>

lemma refused_delivery:
  assumes "event_key e \<notin> set (co_seen c)"
    and "\<nexists>s'. contract (co_shadow_state c) (ce_canonical_event e) (ce_evidence e) s'"
  shows "co_seen (after c (Deliver e)) = event_key e # co_seen c"
    and "co_incidents (after c (Deliver e)) \<noteq> []"
proof -
  obtain err where "transition_order (co_shadow_state c) (ce_canonical_event e) (ce_evidence e) = Inl err"
    using assms(2) transition_contract by (metis old.sum.exhaust)
  then show "co_seen (after c (Deliver e)) = event_key e # co_seen c"
    and "co_incidents (after c (Deliver e)) \<noteq> []"
    using assms(1) by (simp_all add: after_def apply_event_def Let_def outcome_now_def new_incident_def)
qed

lemma fresh_delivery:
  assumes "event_key e \<notin> set (co_seen c)"
  shows "co_seen (after c (Deliver e)) = event_key e # co_seen c"
    and "co_incidents (after c (Deliver e)) = []
      \<longleftrightarrow> co_incidents c = [] \<and> (\<exists>s'. contract (co_shadow_state c) (ce_canonical_event e) (ce_evidence e) s')"
  using refused_delivery [OF assms] accepted_delivery(3,4) [OF assms] by metis+

text \<open>The simulation invariant; identities used so far are those of the log or not the broker's.\<close>

definition positive_fills :: "broker_op list \<Rightarrow> bool" where
  "positive_fills ops \<longleftrightarrow> (\<forall>q. B_partial_fill q \<in> set ops \<longrightarrow> 0 < q)"

definition in_step :: "broker_op list \<Rightarrow> mock_order \<Rightarrow> coordinator \<Rightarrow> bool" where
  "in_step ops x c \<longleftrightarrow> co_shadow_state c = shadow_of x \<and> \<not> co_disputed c
     \<and> (mo_status x = MB_NEW \<longrightarrow> \<not> mo_cancel_was_requested x)
     \<and> (positive_fills ops \<and> mo_status x \<noteq> MB_FILLED \<longrightarrow> co_filled_qty c = mo_filled_qty x)"

definition tracked :: "broker_op list \<Rightarrow> bool \<Rightarrow> mock_order \<Rightarrow> coordinator \<Rightarrow> bool" where
  "tracked ops orderly x c \<longleftrightarrow> order_ok x \<and> \<not> blank (mo_broker_order_id x)
     \<and> (\<forall>k \<in> set (co_seen c). broker_identity k
          \<longrightarrow> (\<exists>n \<le> mo_sequence_counter x. snd k = sequence_text n))
     \<and> (co_incidents c = [] \<longrightarrow> in_step ops x c) \<and> (orderly \<longrightarrow> co_incidents c = [])"

lemma sequence_text_inject [simp]: "sequence_text m = sequence_text n \<longleftrightarrow> m = n"
  by (simp add: sequence_text_def)

lemma not_blank_sequence: "\<not> blank (sequence_text n)"
  by (simp add: blank_iff strip_eq_Nil_iff sequence_text_def is_space_def)

text \<open>The report of any operation the broker performs becomes an event of the coordinator.\<close>

lemma pump_total:
  assumes "order_ok x" "\<not> blank (mo_broker_order_id x)" "\<not> blank source"
    and "order_op source now op x = Inr (Some raw, x')"
  shows "\<exists>kd x1 e. op_event op = Some kd \<and> op_effect op x = Inr x1
    \<and> shadow_of x' = shadow_of x1 \<and> mo_status x' = mo_status x1 \<and> mo_filled_qty x' = mo_filled_qty x1
    \<and> mo_cancel_was_requested x' = mo_cancel_was_requested x1
    \<and> to_coordinator_event sha raw (pumped_qty op) = Inr e \<and> event_key e = identity raw
    \<and> ce_canonical_event e = canonical_event kd \<and> ce_evidence e = None \<and> ce_fill_qty e = pumped_qty op"
proof -
  obtain kd x1 where kd: "op_event op = Some kd" "op_effect op x = Inr x1"
    using assms(4) by (cases "op_event op") (auto simp: order_op_def rbind_Inr_iff)
  have raw: "re_event_kind raw = kd" "re_source raw = source"
      "re_cancel_was_requested raw = mo_cancel_was_requested x1"
      "shadow_of x' = shadow_of x1" "mo_status x' = mo_status x1" "mo_filled_qty x' = mo_filled_qty x1"
      "mo_cancel_was_requested x' = mo_cancel_was_requested x1"
    using assms(4) kd by (auto simp: order_op_def emit_def Let_def shadow_of_def)
  have "kd = BK_ORDER_CANCELLED \<Longrightarrow> mo_cancel_was_requested x1"
    using kd by (cases op) (auto simp: do_confirm_cancel_def split: if_splits)
  then show ?thesis
    using pump_event [of raw sha "pumped_qty op"] raw kd assms(2,3) order_op_ok [OF assms(1,4)] not_blank_sequence
    by auto
qed

lemma report_tracked:
  assumes "tracked ops orderly x c" and "\<not> blank source"
    and op: "order_op source now op x = Inr (Some raw, x')"
    and pump: "to_coordinator_event sha raw (pumped_qty op) = Inr e"
  shows "tracked (ops @ [op]) (orderly \<and> lawful (mo_status x) (mo_cancel_was_requested x) op) x' (after c (Deliver e))"
proof -
  have x: "order_ok x" "\<not> blank (mo_broker_order_id x)" using assms(1) by (simp_all add: tracked_def)
  obtain kd x1 where kd: "op_event op = Some kd" "op_effect op x = Inr x1"
    and same: "shadow_of x' = shadow_of x1" "mo_status x' = mo_status x1" "mo_filled_qty x' = mo_filled_qty x1"
      "mo_cancel_was_requested x' = mo_cancel_was_requested x1"
    and ev: "event_key e = identity raw" "ce_canonical_event e = canonical_event kd" "ce_evidence e = None"
      "ce_fill_qty e = pumped_qty op"
    using pump_total [OF x assms(2) op, of sha] pump by auto
  note o = order_op_ok [OF x(1) op, simplified]
  have key: "event_key e = (mo_broker_order_id x @ '':'' @ sequence_text (Suc (mo_sequence_counter x)),
      sequence_text (Suc (mo_sequence_counter x)))"
    using o by (simp add: ev(1) identity_def)
  then have bid: "broker_identity (event_key e)" by (auto simp: broker_identity_def)
  have fresh: "event_key e \<notin> set (co_seen c)"
    using assms(1) bid key by (fastforce simp: tracked_def)
  note del = fresh_delivery [OF fresh, unfolded ev]
  have ids: "\<forall>k \<in> set (co_seen (after c (Deliver e))). broker_identity k
      \<longrightarrow> (\<exists>n \<le> mo_sequence_counter x'. snd k = sequence_text n)"
    using assms(1) key o by (auto simp: fresh_delivery(1) [OF fresh] tracked_def intro: le_SucI)
  have step: "in_step (ops @ [op]) x' (after c (Deliver e))" if inc: "co_incidents (after c (Deliver e)) = []"
  proof -
    have c: "in_step ops x c" using inc del(2) assms(1) unfolding tracked_def by blast
    then obtain s' where s': "contract (shadow_of x) (canonical_event kd) None s'"
      using inc del(2) unfolding in_step_def by metis
    have "contract (co_shadow_state c) (ce_canonical_event e) (ce_evidence e) s'"
      using s' c by (simp add: ev in_step_def)
    note c' = accepted_delivery [OF fresh this]
    have a: "s' = shadow_of x1" "mo_status x1 = MB_NEW \<longrightarrow> \<not> mo_cancel_was_requested x1" "mo_status x \<noteq> MB_FILLED"
        "mo_status x1 \<noteq> MB_FILLED \<longrightarrow>
          mo_filled_qty x1 = (case pumped_qty op of None \<Rightarrow> mo_filled_qty x | Some q \<Rightarrow> dadd (mo_filled_qty x) q)"
        "\<forall>q. pumped_qty op = Some q \<longrightarrow> canonical_event kd = EV_PARTIAL_FILL"
      using accepted_op [OF kd(2,1) s'] c by (simp_all add: in_step_def)
    have pos: "0 < q" if "positive_fills (ops @ [op])" "pumped_qty op = Some q" for q
      using that by (cases op) (auto simp: positive_fills_def)
    have "co_filled_qty (after c (Deliver e)) = mo_filled_qty x1"
      if "positive_fills (ops @ [op])" "mo_status x1 \<noteq> MB_FILLED"
    proof -
      have "positive_fills ops" using that(1) by (simp add: positive_fills_def)
      then have "co_filled_qty c = mo_filled_qty x" using c a(3) by (simp add: in_step_def)
      then show ?thesis using a(4,5) that pos by (cases "pumped_qty op") (auto simp: c'(2) accumulated_def ev)
    qed
    then show ?thesis using c c' a same by (simp add: in_step_def)
  qed
  moreover have "co_incidents (after c (Deliver e)) = []"
    if "orderly \<and> lawful (mo_status x) (mo_cancel_was_requested x) op"
    using that assms(1) del(2) lawful_event_accepted [OF _ kd(1), of x] unfolding tracked_def in_step_def by metis
  ultimately show ?thesis using ids o x by (simp add: tracked_def)
qed

lemma cancel_tracked:
  assumes "tracked ops orderly x c"
    and op: "order_op source now B_request_cancel x = Inr (None, x')"
    and e: "ce_canonical_event e = EV_CANCEL_REQUEST" "event_key e \<notin> set (co_seen c)"
      "\<not> broker_identity (event_key e)"
  shows "tracked (ops @ [B_request_cancel])
    (orderly \<and> lawful (mo_status x) (mo_cancel_was_requested x) B_request_cancel) x' (after c (Deliver e))"
proof -
  have x': "x' = x\<lparr>mo_cancel_was_requested := True\<rparr>"
    using op by (simp add: order_op_def do_request_cancel_def)
  note del = fresh_delivery [OF e(2), unfolded e(1)]
  have pos: "positive_fills (ops @ [B_request_cancel]) = positive_fills ops" by (simp add: positive_fills_def)
  have "in_step (ops @ [B_request_cancel]) x' (after c (Deliver e))" if inc: "co_incidents (after c (Deliver e)) = []"
  proof -
    have c: "in_step ops x c" using inc del(2) assms(1) unfolding tracked_def by blast
    then obtain s' where s': "contract (shadow_of x) EV_CANCEL_REQUEST (ce_evidence e) s'"
      using inc del(2) unfolding in_step_def by metis
    have "contract (co_shadow_state c) (ce_canonical_event e) (ce_evidence e) s'"
      using s' c by (simp add: e in_step_def)
    note c' = accepted_delivery [OF e(2) this]
    have "accumulated q e = q" for q by (simp add: accumulated_def e)
    then show ?thesis using c c' accepted_cancel_request [OF s'] by (simp add: in_step_def x' pos)
  qed
  moreover have "co_incidents (after c (Deliver e)) = []"
    if "orderly \<and> lawful (mo_status x) (mo_cancel_was_requested x) B_request_cancel"
    using that assms(1) del(2) lawful_cancel_accepted [of x] unfolding tracked_def in_step_def by metis
  moreover have "order_ok x'" "mo_sequence_counter x' = mo_sequence_counter x"
      "mo_broker_order_id x' = mo_broker_order_id x"
    using assms(1) by (simp_all add: x' tracked_def order_ok_def)
  ultimately show ?thesis using assms(1) e(3) by (simp add: tracked_def del(1))
qed

lemma composed_tracked: "composed sha source ops orderly x c \<Longrightarrow> \<not> blank source \<Longrightarrow> tracked ops orderly x c"
proof (induction rule: composed.induct)
  case (start x eid iid c)
  then show ?case
    by (auto simp: tracked_def in_step_def mk_coordinator_def shadow_of_def split: if_splits)
next
  case (report ops orderly x c now op raw x' e)
  then show ?case by (intro report_tracked) simp_all
next
  case (cancel ops orderly x c now x' e)
  then show ?case by (intro cancel_tracked) simp_all
qed

text \<open>C10: The shadow state follows the broker or the divergence is on record.  Whatever operations the
  mock broker performs on an order, and whenever the engine asks for a cancel, with every event pumped
  once and in order: as long as the coordinator has recorded no incident, its shadow state is the
  mirror of the broker-side status, there is no dispute, and up to the final fill the two filled
  quantities are equal (if the partial fills were positive).  A run of lawful operations records no
  incident, so there the shadow always follows; the operations that break the mirror (for instance a
  partial fill while a cancel is pending) all leave one.  The pump never refuses an event of the broker,
  and the broker performs every lawful operation.\<close>

theorem shadow_follows_broker:
  assumes "composed sha source ops orderly x c" and "\<not> blank source"
  shows "(co_incidents c = [] \<longrightarrow> co_shadow_state c = shadow_of x \<and> \<not> co_disputed c
      \<and> (positive_fills ops \<and> mo_status x \<noteq> MB_FILLED \<longrightarrow> co_filled_qty c = mo_filled_qty x))
    \<and> (orderly \<longrightarrow> co_incidents c = [])
    \<and> (\<forall>op now raw x'. order_op source now op x = Inr (Some raw, x') \<longrightarrow>
         (\<exists>e. to_coordinator_event sha raw (pumped_qty op) = Inr e))
    \<and> (\<forall>op now. lawful (mo_status x) (mo_cancel_was_requested x) op \<longrightarrow>
         (\<exists>raw x'. order_op source now op x = Inr (raw, x')))"
proof -
  have st: "tracked ops orderly x c" using composed_tracked assms by blast
  have "\<exists>raw x'. order_op source now op x = Inr (raw, x')"
    if law: "lawful (mo_status x) (mo_cancel_was_requested x) op" for op now
  proof (cases "op_event op")
    case None
    then have "op = B_request_cancel" by (cases op) simp_all
    then show ?thesis by (simp add: order_op_def do_request_cancel_def)
  next
    case (Some kd)
    from lawful_event_accepted [OF law Some] show ?thesis using Some by (auto simp: order_op_def emit_def Let_def)
  qed
  then show ?thesis
    using st pump_total [of x source _ _ _ _ sha] assms(2) unfolding tracked_def in_step_def by blast
qed

definition sample_order :: mock_order where
  "sample_order = \<lparr>mo_broker_order_id = ''BROKER_1_A'', mo_client_order_id = ''A'', mo_requested_qty = 1,
     mo_symbol = ''BTC'', mo_status = MB_NEW, mo_filled_qty = 0, mo_cancel_was_requested = False,
     mo_sequence_counter = 0, mo_events = []\<rparr>"

lemma fresh_order_composed: "composed (\<lambda>s. s) ''X'' [] True sample_order (sample_coordinator OL_SUBMITTED)"
  by (rule start [where eid = "''E1''" and iid = None])
    (simp_all add: sample_order_def order_ok_def mk_coordinator_def sample_coordinator_def string_eval)

theorem shadow_follows_broker_witness:
  "\<exists>x c. composed (\<lambda>s. s) ''X'' [B_ack] True x c \<and> mo_status x = MB_ACKNOWLEDGED
     \<and> co_shadow_state c = OL_ACKNOWLEDGED"
proof -
  have src: "\<not> blank ''X''" by (simp add: string_eval)
  obtain raw x' where o: "order_op ''X'' 0 B_ack sample_order = Inr (Some raw, x')" "mo_status x' = MB_ACKNOWLEDGED"
      "mo_cancel_was_requested x' = False"
    by (simp add: order_op_def do_acknowledge_def sample_order_def emit_def Let_def)
  then obtain e where e: "to_coordinator_event (\<lambda>s. s) raw (pumped_qty B_ack) = Inr e"
    using shadow_follows_broker [OF fresh_order_composed src] by blast
  have law: "lawful (mo_status sample_order) (mo_cancel_was_requested sample_order) B_ack"
    by (simp add: sample_order_def)
  have s1: "composed (\<lambda>s. s) ''X'' [B_ack] True x' (after (sample_coordinator OL_SUBMITTED) (Deliver e))"
    using report [OF fresh_order_composed o(1) e] law by simp
  from shadow_follows_broker [OF s1 src] have
    "co_shadow_state (after (sample_coordinator OL_SUBMITTED) (Deliver e)) = OL_ACKNOWLEDGED"
    using o by (simp add: shadow_of_def)
  with s1 o(2) show ?thesis by blast
qed

end
