(* ===== verification/HashChain.thy ===== *)
theory HashChain
  imports Serialization
begin

section \<open>Digests and hash chains\<close>

text \<open>
  Three ledgers of the code are hash chains: every entry carries the digest of the entry before it,
  and its own digest is SHA-256 of a canonical text that contains that link
  (\<open>risk/kill_switch.py\<close>, \<open>runtime/ledger.py\<close>, \<open>ppds/ledger.py\<close>).  The interface \<open>hash_chain\<close> is what they share;
  its lemmas say how much of the history the digest of the last entry determines.
\<close>

subsection \<open>Digest strings\<close>

text \<open>\<open>re.compile("^[0-9a-f]{64}$").match(v)\<close>.  The \<open>$\<close> of Python also matches in front of a final
  newline, so a digest followed by one newline is accepted too.\<close>

definition is_hex_char :: "char \<Rightarrow> bool" where
  "is_hex_char c \<longleftrightarrow> (let n = (of_char c :: nat) in (48 \<le> n \<and> n \<le> 57) \<or> (97 \<le> n \<and> n \<le> 102))"

definition valid_sha256 :: "string \<Rightarrow> bool" where
  "valid_sha256 v \<longleftrightarrow>
     (let w = (if v \<noteq> [] \<and> last v = CHR 0x0A then butlast v else v)
      in length w = 64 \<and> list_all is_hex_char w)"

lemma is_hex_zero: "is_hex_char (CHR ''0'')"
  by (simp add: is_hex_char_def)

lemma not_hex_newline: "\<not> is_hex_char (CHR 0x0A)"
  by (simp add: is_hex_char_def)

lemma valid_sha256_hex: "length v = 64 \<Longrightarrow> list_all is_hex_char v \<Longrightarrow> valid_sha256 v"
proof -
  assume v: "length v = 64" "list_all is_hex_char v"
  then have "v \<noteq> []" by auto
  then have "last v \<noteq> CHR 0x0A"
    using v(2) not_hex_newline by (metis last_in_set list_all_iff)
  with v show ?thesis by (simp add: valid_sha256_def)
qed

lemma valid_zero_digest [simp]: "valid_sha256 zero_digest"
  by (rule valid_sha256_hex) (simp_all add: zero_digest_def list_all_length is_hex_zero)

text \<open>What \<open>hexdigest\<close> promises: 64 lower-case hexadecimal digits.\<close>

definition hex_digests :: "(string \<Rightarrow> string) \<Rightarrow> bool" where
  "hex_digests sha \<longleftrightarrow> (\<forall>s. length (sha s) = 64 \<and> list_all is_hex_char (sha s))"

lemma hex_digestsD [simp]: "hex_digests sha \<Longrightarrow> valid_sha256 (sha s)"
  by (simp add: hex_digests_def valid_sha256_hex)

lemma zero_digest_hex: "hex_digests (\<lambda>_. zero_digest)"
  by (simp add: hex_digests_def zero_digest_def list_all_length is_hex_zero)

lemma not_space_hex: "is_hex_char c \<Longrightarrow> \<not> is_space c"
  by (auto simp: is_hex_char_def is_space_def Let_def)

lemma strip_hex:
  assumes "list_all is_hex_char v"
  shows "strip v = v"
proof -
  have keep: "dropWhile is_space w = w" if "list_all is_hex_char w" for w
    using that not_space_hex by (cases w) auto
  have "list_all is_hex_char (rev v)" using assms by (simp add: list_all_iff)
  then show ?thesis using keep assms by (simp add: strip_def)
qed

lemma strip_digest [simp]: "hex_digests sha \<Longrightarrow> strip (sha s) = sha s"
  by (simp add: hex_digests_def strip_hex)

lemma sort_key_idem [simp]: "sort_key f (sort_key f xs) = sort_key f xs"
  by (rule sort_key_id_if_sorted) simp

subsection \<open>Canonical text of a dictionary of strings\<close>

definition str_items :: "(string \<times> string) list \<Rightarrow> (py_key \<times> py_value) list" where
  "str_items kvs = map (\<lambda>(k, v). (KStr k, PStr v)) kvs"

lemma serialize_str_items [simp]: "serialize_items (str_items kvs) = Inr (map (apsnd JStr) kvs)"
  by (induction kvs) (auto simp: str_items_def)

lemma serialize_texts: "serialize_list (map PStr ss) = Inr (map JStr ss)"
  by (induction ss) simp_all

lemma sort_str_items: "sort_key fst (map (apsnd JStr) kvs) = map (apsnd JStr) (sort_key fst kvs)"
proof -
  have ins: "insort_key fst (apsnd JStr x) (map (apsnd JStr) ys) = map (apsnd JStr) (insort_key fst x ys)"
    for x :: "'k :: linorder \<times> string" and ys
    by (induction ys) simp_all
  show ?thesis by (induction kvs) (simp_all add: ins)
qed

lemma map_JStr_inject: "map (apsnd JStr) xs = map (apsnd JStr) ys \<longleftrightarrow> xs = ys"
proof -
  have "inj (apsnd JStr)" by (auto simp: inj_on_def)
  then show ?thesis by (rule inj_map_eq_map)
qed

lemma str_object_ok:
  assumes "distinct (map fst kvs)"
  shows "json_ok (JObj (map (apsnd JStr) (sort_key fst kvs)))"
proof -
  have "map fst (map (apsnd JStr) (sort_key fst kvs)) = map fst (sort_key fst kvs)"
    by simp
  then show ?thesis using sorted_distinct_keys [OF assms] by auto
qed

subsection \<open>Chains\<close>

text \<open>\<open>chained\<close>: the first entry links to \<open>d\<close> and every later one to its predecessor;
  \<open>chain_head\<close>: the digest of the last entry, or \<open>d\<close> when there is none.\<close>

fun chained :: "(string \<Rightarrow> string) \<Rightarrow> ('e \<Rightarrow> string) \<Rightarrow> ('e \<Rightarrow> string) \<Rightarrow> string \<Rightarrow> 'e list \<Rightarrow> bool" where
  "chained sha body link d [] \<longleftrightarrow> True"
| "chained sha body link d (e # es) \<longleftrightarrow> link e = d \<and> chained sha body link (sha (body e)) es"

definition chain_head :: "(string \<Rightarrow> string) \<Rightarrow> ('e \<Rightarrow> string) \<Rightarrow> string \<Rightarrow> 'e list \<Rightarrow> string" where
  "chain_head sha body d es = (if es = [] then d else sha (body (last es)))"

lemma chain_head_simps [simp]:
  "chain_head sha body d [] = d"
  "chain_head sha body d (es @ [e]) = sha (body e)"
  by (simp_all add: chain_head_def)

lemma chain_head_Cons: "chain_head sha body d (e # es) = chain_head sha body (sha (body e)) es"
  by (simp add: chain_head_def)

lemma chained_append:
  "chained sha body link d (es @ fs)
     \<longleftrightarrow> chained sha body link d es \<and> chained sha body link (chain_head sha body d es) fs"
  by (induction es arbitrary: d) (auto simp: chain_head_Cons)

lemma chained_snoc [simp]:
  "chained sha body link d (es @ [e])
     \<longleftrightarrow> chained sha body link d es \<and> link e = chain_head sha body d es"
  by (simp add: chained_append)

text \<open>What the ledgers promise of their entries: the hashed text contains the link.\<close>

locale hash_chain =
  fixes body :: "'e \<Rightarrow> string"
    and link :: "'e \<Rightarrow> string"
    and entry_ok :: "'e \<Rightarrow> bool"
  assumes body_binds_link: "entry_ok e \<Longrightarrow> entry_ok e' \<Longrightarrow> body e = body e' \<Longrightarrow> link e = link e'"
begin

text \<open>Two ledgers of the same length with the same head have the same content throughout.\<close>

lemma head_determines_history:
  assumes "chained sha body link d es" and "chained sha body link d' es'"
    and "length es = length es'"
    and "chain_head sha body d es = chain_head sha body d' es'"
    and "\<forall>e \<in> set es. entry_ok e" and "\<forall>e \<in> set es'. entry_ok e"
    and "\<forall>e \<in> set es. \<forall>e' \<in> set es'. separates sha (body e) (body e')"
  shows "d = d' \<and> map body es = map body es'"
  using assms
proof (induction es arbitrary: es' rule: rev_induct)
  case (snoc e es)
  then obtain fs f where es': "es' = fs @ [f]" by (cases es' rule: rev_cases) auto
  have "body e = body f" using snoc.prems(4,7) by (auto simp: es' separates_def)
  moreover from this have "link e = link f" using body_binds_link snoc.prems(5,6) by (simp add: es')
  moreover have "d = d' \<and> map body es = map body fs"
    using snoc.prems \<open>link e = link f\<close> by (intro snoc.IH) (auto simp: es')
  ultimately show ?case by (simp add: es')
qed simp

text \<open>Without a comparison of the lengths, the shorter ledger is a tail of the longer one.\<close>

lemma head_determines_tail:
  assumes "chained sha body link d es" and "chained sha body link d' es'"
    and "chain_head sha body d es = chain_head sha body d' es'" and "es \<noteq> []" and "es' \<noteq> []"
    and "\<forall>e \<in> set es. entry_ok e" and "\<forall>e \<in> set es'. entry_ok e"
    and "\<forall>e \<in> set es. \<forall>e' \<in> set es'. separates sha (body e) (body e')"
    and n: "n = min (length es) (length es')"
  shows "map body (drop (length es - n) es) = map body (drop (length es' - n) es')"
proof -
  have tail: "chained sha body link (chain_head sha body c (take k fs)) (drop k fs)
      \<and> chain_head sha body (chain_head sha body c (take k fs)) (drop k fs) = chain_head sha body c fs"
    if "chained sha body link c fs" "k < length fs" for c k fs
    using that chained_append [of sha body link c "take k fs" "drop k fs"]
    by (auto simp: chain_head_def last_drop)
  let ?i = "length es - n" and ?j = "length es' - n"
  have "?i < length es" "?j < length es'" using assms(4,5) n by auto
  note t = tail [OF assms(1) this(1)] tail [OF assms(2) this(2)]
  have sub: "set (drop ?i es) \<subseteq> set es" "set (drop ?j es') \<subseteq> set es'" by (rule set_drop_subset)+
  show ?thesis
    by (rule head_determines_history [THEN conjunct2, OF conjunct1 [OF t(1)] conjunct1 [OF t(2)]])
      (use assms(3,6-8) t n sub in \<open>simp_all, blast+\<close>)
qed

text \<open>With ledgers that start from one genesis digest, which no entry hashes to, the head alone
  determines the history: no entry can be altered, dropped, added or moved behind it.\<close>

lemma head_determines_anchored_history:
  assumes "chained sha body link d es" and "chained sha body link d es'"
    and "chain_head sha body d es = chain_head sha body d es'"
    and "\<forall>e \<in> set es. entry_ok e \<and> sha (body e) \<noteq> d" and "\<forall>e \<in> set es'. entry_ok e \<and> sha (body e) \<noteq> d"
    and "\<forall>e \<in> set es. \<forall>e' \<in> set es'. separates sha (body e) (body e')"
  shows "map body es = map body es'"
  using assms
proof (induction es arbitrary: es' rule: rev_induct)
  case Nil
  then show ?case by (cases es' rule: rev_cases) auto
next
  case (snoc e es)
  then obtain fs f where es': "es' = fs @ [f]" by (cases es' rule: rev_cases) auto
  have "body e = body f" using snoc.prems(3,6) by (auto simp: es' separates_def)
  moreover from this have "link e = link f" using body_binds_link snoc.prems(4,5) by (simp add: es')
  moreover have "map body es = map body fs"
    using snoc.prems \<open>link e = link f\<close> by (intro snoc.IH) (auto simp: es')
  ultimately show ?case by (simp add: es')
qed

end

end
