(* ===== verification/Crypto.thy ===== *)
theory Crypto
  imports PyTime
begin

section \<open>The Ed25519 trust store\<close>

text \<open>
  \<open>execution/crypto.py\<close>: the registry of trusted keys, their validity intervals and revocation,
  and signature verification through it.  The Ed25519 primitive of the \<open>cryptography\<close> package is
  the parameter \<open>ed25519 key signature message\<close>, true when \<open>from_public_bytes(key)\<close> and its
  \<open>verify\<close> return without raising.  Times are aware UTC datetimes.
\<close>

datatype key_status = KEY_ACTIVE | KEY_REVOKED | KEY_ROTATED

text \<open>\<open>DomainValidationError\<close>, one constructor per raise.\<close>

datatype trust_error =
    BlankKeyField string
  | InvalidPublicKey string
  | RevokedKey string
  | KeyNotValidAt string time
  | UnknownKey string
  | MalformedSignature string
  | SignatureFailed string

record trust_entry =
  te_key_id :: string
  te_issuer_id :: string
  te_public_key :: string
  te_valid_from :: time
  te_valid_until :: "time option"
  te_status :: key_status
  te_predecessor :: "string option"

definition mk_trust_entry :: "trust_entry \<Rightarrow> trust_error + trust_entry" where
  "mk_trust_entry e =
     raise_if (blank (te_key_id e)) (BlankKeyField ''key_id'') (
     raise_if (blank (te_issuer_id e)) (BlankKeyField ''issuer_id'') (
     raise_if (blank (te_public_key e)) (BlankKeyField ''public_key_b64'') (
       Inr (e\<lparr>te_key_id := strip (te_key_id e), te_issuer_id := strip (te_issuer_id e),
              te_public_key := strip (te_public_key e)\<rparr>))))"

definition was_valid_at :: "trust_entry \<Rightarrow> time \<Rightarrow> bool" where
  "was_valid_at e ts =
     (if ts < te_valid_from e then False
      else case te_valid_until e of
             Some until \<Rightarrow> \<not> until < ts
           | None \<Rightarrow> True)"

subsection \<open>Base64\<close>

text \<open>\<open>base64.b64decode(s, validate=True)\<close>: the standard alphabet in groups of four, padding only in
  the last group.  \<open>None\<close> stands for \<open>binascii.Error\<close>.\<close>

definition b64_value :: "char \<Rightarrow> nat option" where
  "b64_value c = (let n = (of_char c :: nat) in
     if 65 \<le> n \<and> n \<le> 90 then Some (n - 65)
     else if 97 \<le> n \<and> n \<le> 122 then Some (n - 71)
     else if 48 \<le> n \<and> n \<le> 57 then Some (n + 4)
     else if n = 43 then Some 62
     else if n = 47 then Some 63
     else None)"

fun b64decode :: "string \<Rightarrow> nat list option" where
  "b64decode [] = Some []"
| "b64decode (a # b # c # d # rest) =
     (case (b64_value a, b64_value b) of
        (Some x, Some y) \<Rightarrow>
          if c = CHR ''='' then (if d = CHR ''='' \<and> rest = [] then Some [4 * x + y div 16] else None)
          else (case b64_value c of
              None \<Rightarrow> None
            | Some z \<Rightarrow>
                if d = CHR ''=''
                then (if rest = [] then Some [4 * x + y div 16, y mod 16 * 16 + z div 4] else None)
                else (case b64_value d of
                    None \<Rightarrow> None
                  | Some w \<Rightarrow> map_option
                      (\<lambda>bs. (4 * x + y div 16) # (y mod 16 * 16 + z div 4) # (z mod 4 * 64 + w) # bs)
                      (b64decode rest)))
      | _ \<Rightarrow> None)"
| "b64decode _ = None"

lemma b64_value_bound: "b64_value c = Some v \<Longrightarrow> v < 64"
  by (auto simp: b64_value_def Let_def split: if_splits)

text \<open>What is decoded are bytes.\<close>

lemma b64decode_bytes: "b64decode s = Some bs \<Longrightarrow> \<forall>b \<in> set bs. b < 256"
proof (induction s arbitrary: bs rule: b64decode.induct)
  case (2 a b c d rest)
  then show ?case
    by (auto split: option.splits if_splits dest!: b64_value_bound)
qed auto

subsection \<open>Resolution and verification\<close>

definition load_public_key :: "trust_entry \<Rightarrow> trust_error + nat list" where
  "load_public_key e =
     (case b64decode (te_public_key e) of
        None \<Rightarrow> Inl (InvalidPublicKey (te_key_id e))
      | Some raw \<Rightarrow> if length raw \<noteq> 32 then Inl (InvalidPublicKey (te_key_id e)) else Inr raw)"

fun resolve :: "trust_entry list \<Rightarrow> string \<Rightarrow> time option \<Rightarrow> trust_error + trust_entry" where
  "resolve [] key_id at_time = Inl (UnknownKey key_id)"
| "resolve (e # es) key_id at_time =
     (if te_key_id e = key_id then
        (if te_status e = KEY_REVOKED then Inl (RevokedKey key_id)
         else case at_time of
                Some ts \<Rightarrow> if \<not> was_valid_at e ts then Inl (KeyNotValidAt key_id ts) else Inr e
              | None \<Rightarrow> Inr e)
      else resolve es key_id at_time)"

definition verify_signature ::
    "(nat list \<Rightarrow> nat list \<Rightarrow> string \<Rightarrow> bool) \<Rightarrow> trust_entry list \<Rightarrow> string \<Rightarrow> string \<Rightarrow> string
     \<Rightarrow> time option \<Rightarrow> trust_error + unit" where
  "verify_signature ed25519 entries key_id payload signature at_time =
     rbind (resolve entries key_id at_time) (\<lambda>entry.
     case b64decode signature of
       None \<Rightarrow> Inl (MalformedSignature key_id)
     | Some sig_bytes \<Rightarrow>
         raise_if (length sig_bytes \<noteq> 64) (MalformedSignature key_id) (
         rbind (load_public_key entry) (\<lambda>pub_key.
         raise_if (\<not> ed25519 pub_key sig_bytes payload) (SignatureFailed key_id) (Inr ()))))"

lemma resolve_Inr:
  "resolve es k t = Inr e \<Longrightarrow> e \<in> set es \<and> te_key_id e = k \<and> te_status e \<noteq> KEY_REVOKED
     \<and> (\<forall>ts. t = Some ts \<longrightarrow> was_valid_at e ts)"
  by (induction es) (auto split: if_splits option.splits)

lemma resolve_distinct:
  "distinct (map te_key_id es) \<Longrightarrow> e \<in> set es \<Longrightarrow> te_key_id e = k \<Longrightarrow> te_status e \<noteq> KEY_REVOKED
    \<Longrightarrow> (\<forall>ts. t = Some ts \<longrightarrow> was_valid_at e ts) \<Longrightarrow> resolve es k t = Inr e"
  by (induction es) (force split: option.splits)+

text \<open>The public key and signature bytes under which a verification succeeds.\<close>

definition signed_under ::
    "(nat list \<Rightarrow> nat list \<Rightarrow> string \<Rightarrow> bool) \<Rightarrow> trust_entry \<Rightarrow> string \<Rightarrow> string \<Rightarrow> bool" where
  "signed_under ed25519 e payload signature \<longleftrightarrow>
     (case (b64decode (te_public_key e), b64decode signature) of
        (Some pk, Some sg) \<Rightarrow> length pk = 32 \<and> length sg = 64 \<and> ed25519 pk sg payload
      | _ \<Rightarrow> False)"

lemma verify_signature_resolved:
  "verify_signature ed25519 es k payload signature t = Inr () \<longleftrightarrow>
     (\<exists>e. resolve es k t = Inr e \<and> signed_under ed25519 e payload signature)"
proof (cases "resolve es k t")
  case (Inr e)
  then show ?thesis
    by (cases "b64decode signature"; cases "b64decode (te_public_key e)")
      (simp_all add: verify_signature_def load_public_key_def signed_under_def)
qed (simp add: verify_signature_def)

text \<open>Verification through the trust store succeeds exactly on signatures of a trusted key.  In
  a store whose key ids are distinct, \<open>verify\<close> returns if and only if the store has an entry with
  that key id that is not revoked, was inside its validity interval at the signing time, holds a
  32-byte key, and whose Ed25519 verification of the 64-byte signature over exactly these payload
  bytes succeeds.  In particular a revoked or unknown key verifies nothing, at any time.\<close>

theorem verify_accepts_exactly_trusted:
  assumes "distinct (map te_key_id es)"
  shows "verify_signature ed25519 es k payload signature (Some ts) = Inr () \<longleftrightarrow>
     (\<exists>e \<in> set es. te_key_id e = k \<and> te_status e \<noteq> KEY_REVOKED
        \<and> te_valid_from e \<le> ts \<and> (\<forall>u. te_valid_until e = Some u \<longrightarrow> ts \<le> u)
        \<and> signed_under ed25519 e payload signature)"
proof -
  have valid: "was_valid_at e ts \<longleftrightarrow> te_valid_from e \<le> ts \<and> (\<forall>u. te_valid_until e = Some u \<longrightarrow> ts \<le> u)" for e
    by (auto simp: was_valid_at_def split: option.splits)
  have "(\<exists>e. resolve es k (Some ts) = Inr e \<and> signed_under ed25519 e payload signature) \<longleftrightarrow>
     (\<exists>e \<in> set es. te_key_id e = k \<and> te_status e \<noteq> KEY_REVOKED \<and> was_valid_at e ts
        \<and> signed_under ed25519 e payload signature)"
    using resolve_Inr [of es k "Some ts"] resolve_distinct [OF assms, of _ k "Some ts"] by blast
  then show ?thesis by (simp only: verify_signature_resolved valid simp_thms conj_assoc)
qed

definition sample_key :: trust_entry where
  "sample_key = \<lparr>te_key_id = ''k1'', te_issuer_id = ''root'', te_public_key = replicate 43 (CHR ''A'') @ ''='',
     te_valid_from = 10, te_valid_until = Some 20, te_status = KEY_ACTIVE, te_predecessor = None\<rparr>"

definition sample_signature :: string where
  "sample_signature = replicate 86 (CHR ''A'') @ ''==''"

lemma sample_key_signs:
  "signed_under ed25519 sample_key m sample_signature = ed25519 (replicate 32 0) (replicate 64 0) m"
proof -
  have "b64decode (te_public_key sample_key) = Some (replicate 32 0)" by code_simp
  moreover have "b64decode sample_signature = Some (replicate 64 0)" by code_simp
  ultimately show ?thesis by (simp add: signed_under_def)
qed

theorem verify_accepts_exactly_trusted_witness:
  "verify_signature (\<lambda>_ _ m. m = ''msg'') [sample_key] ''k1'' ''msg'' sample_signature (Some 20)
     = Inr ()
   \<and> verify_signature (\<lambda>_ _ m. m = ''msg'') [sample_key] ''k1'' ''msg'' sample_signature (Some 21)
     \<noteq> Inr ()"
proof -
  have "distinct (map te_key_id [sample_key])" by simp
  note iff = verify_accepts_exactly_trusted [OF this]
  show ?thesis unfolding iff by (simp add: sample_key_signs) (simp add: sample_key_def)
qed

text \<open>Entries are searched in order and ids are not checked to be distinct: an active entry in front
  of a revoked one with the same id keeps the revoked key verifying.\<close>

lemma revoked_duplicate_still_verifies:
  assumes "signed_under ed25519 e payload signature" and "was_valid_at e ts" and "te_status e = KEY_ACTIVE"
  shows "verify_signature ed25519 [e, e\<lparr>te_status := KEY_REVOKED\<rparr>] (te_key_id e) payload signature (Some ts)
     = Inr ()"
  using assms by (simp add: verify_signature_resolved)

end
