(* ===== verification/RiskSchema.thy ===== *)
theory RiskSchema
  imports HashChain PyTime PyDecimal Crypto
begin

section \<open>Risk contracts\<close>

text \<open>
  \<open>risk/risk_schema.py\<close> and the signed approval of \<open>execution/schema.py\<close>: the risk policy, the
  candidate allocation, the evaluation report, the reset proposal and the emergency flatten intent,
  with the validators that pydantic runs on construction.  Numbers reach the validators as decimals
  (\<open>raw_dec\<close>).  The digests of policy, candidate, report and intent hash the text \<open>str(Decimal)\<close>,
  whose trailing zeros the decimal model does not keep; these digests are arguments of the model.
\<close>

datatype risk_verdict = APPROVED | REDUCED | REJECTED_RISK | KILL_SWITCH_BLOCKED
datatype derisk_policy = EXACT_SCALE_DOWN | BINARY_REJECT
datatype kill_switch_state = KS_ACTIVE | KS_TRIPPED | KS_PERSISTENTLY_BLOCKED | KS_RESET_PENDING
datatype flatten_status = FLATTEN_REQUESTED | FLATTEN_COMPLETED | FLATTEN_FAILED

fun kill_switch_value :: "kill_switch_state \<Rightarrow> string" where
  "kill_switch_value KS_ACTIVE = ''ACTIVE''"
| "kill_switch_value KS_TRIPPED = ''TRIPPED''"
| "kill_switch_value KS_PERSISTENTLY_BLOCKED = ''PERSISTENTLY_BLOCKED''"
| "kill_switch_value KS_RESET_PENDING = ''RESET_PENDING''"

lemma kill_switch_value_inject [simp]: "kill_switch_value s = kill_switch_value s' \<longleftrightarrow> s = s'"
  by (cases s; cases s') simp_all

text \<open>\<open>DataContractError\<close> (and \<open>DomainValidationError\<close>) of this package, one constructor per raise.\<close>

datatype risk_error =
    NonFinite string
  | NegativeValue string
  | BelowMinimum string
  | AboveMaximum string
  | NotSha256 string
  | NonPositiveInt string
  | BlankText string
  | InvalidSymbol string
  | ExpiresBeforeEvaluation
  | TooFewApprovals
  | NonZeroTarget string
  | CanonicalError data_contract_error

subsection \<open>Value checks\<close>

fun verify_finite_decimal ::
    "raw_dec \<Rightarrow> string \<Rightarrow> bool \<Rightarrow> dec option \<Rightarrow> dec option \<Rightarrow> risk_error + dec" where
  "verify_finite_decimal (Fin d) ctx allow_negative min_val max_val =
     raise_if (\<not> allow_negative \<and> d < 0) (NegativeValue ctx) (
     raise_if (case min_val of Some m \<Rightarrow> d < m | None \<Rightarrow> False) (BelowMinimum ctx) (
     raise_if (case max_val of Some m \<Rightarrow> m < d | None \<Rightarrow> False) (AboveMaximum ctx) (Inr d)))"
| "verify_finite_decimal _ ctx allow_negative min_val max_val = Inl (NonFinite ctx)"

definition validate_sha256 :: "string \<Rightarrow> string \<Rightarrow> risk_error + string" where
  "validate_sha256 v ctx = (if valid_sha256 v then Inr v else Inl (NotSha256 ctx))"

lemma validate_sha256_Inr [simp]: "validate_sha256 v ctx = Inr w \<longleftrightarrow> w = v \<and> valid_sha256 v"
  by (auto simp: validate_sha256_def)

lemma validate_sha256_valid [simp]: "valid_sha256 v \<Longrightarrow> validate_sha256 v ctx = Inr v"
  by simp

lemma verify_finite_decimal_Inr:
  "verify_finite_decimal v ctx neg lo hi = Inr d \<longleftrightarrow> v = Fin d \<and> (neg \<or> 0 \<le> d)
     \<and> (\<forall>m. lo = Some m \<longrightarrow> m \<le> d) \<and> (\<forall>m. hi = Some m \<longrightarrow> d \<le> m)"
  by (cases v) (auto split: option.splits simp: not_less)

text \<open>\<open>{sym.strip().upper(): check(w) for ...}\<close>: the cleaning loop of every weight mapping.  A later
  symbol that normalises to an earlier one overwrites its weight.\<close>

fun clean_weights ::
    "string \<Rightarrow> (string \<times> raw_dec) list \<Rightarrow> (string, dec) dict \<Rightarrow> risk_error + (string, dec) dict" where
  "clean_weights ctx [] acc = Inr acc"
| "clean_weights ctx ((sy, w) # kvs) acc =
     raise_if (strip sy = []) (InvalidSymbol sy) (
     rbind (verify_finite_decimal w ctx False None None) (\<lambda>d.
       clean_weights ctx kvs (dict_put (upper (strip sy)) d acc)))"

lemma clean_weights_wf:
  "clean_weights ctx kvs acc = Inr ws \<Longrightarrow> dict_wf acc \<Longrightarrow> \<forall>w \<in> set (dict_values acc). 0 \<le> w
    \<Longrightarrow> dict_wf ws \<and> (\<forall>w \<in> set (dict_values ws). 0 \<le> w)"
proof (induction ctx kvs acc rule: clean_weights.induct)
  case (2 ctx sy w kvs acc)
  then obtain d where d: "w = Fin d" "0 \<le> d" "strip sy \<noteq> []"
      "clean_weights ctx kvs (dict_put (upper (strip sy)) d acc) = Inr ws"
    by (auto simp: rbind_Inr_iff verify_finite_decimal_Inr)
  have "\<forall>w \<in> set (dict_values (dict_put (upper (strip sy)) d acc)). 0 \<le> w"
    using set_dict_put_subset [of "upper (strip sy)" d acc] 2(4) d(2) by blast
  then show ?case using "2.IH" [OF d(4) dict_wf_put [OF "2.prems"(2)]] by blast
qed simp

subsection \<open>Policy\<close>

record risk_policy =
  rp_version :: string
  rp_derisk :: derisk_policy
  rp_max_gross_leverage :: dec
  rp_max_asset_concentration :: dec
  rp_min_cash_buffer :: dec
  rp_max_drawdown_pct :: dec
  rp_max_daily_loss :: dec
  rp_min_margin_buffer :: dec
  rp_max_data_age_ms :: int
  rp_max_clock_drift_ms :: int
  rp_ttl_seconds :: int
  rp_digest :: string

definition mk_policy ::
    "string \<Rightarrow> derisk_policy \<Rightarrow> raw_dec \<Rightarrow> raw_dec \<Rightarrow> raw_dec \<Rightarrow> raw_dec \<Rightarrow> raw_dec \<Rightarrow> raw_dec
     \<Rightarrow> int \<Rightarrow> int \<Rightarrow> int \<Rightarrow> string \<Rightarrow> risk_error + risk_policy" where
  "mk_policy version derisk lev conc cash dd loss margin age drift ttl digest =
     rbind (verify_finite_decimal lev ''max_gross_leverage'' False (Some 0) None) (\<lambda>max_lev.
     rbind (verify_finite_decimal conc ''max_asset_concentration'' False (Some 0) (Some 1)) (\<lambda>max_conc.
     rbind (verify_finite_decimal cash ''min_cash_buffer'' False (Some 0) (Some 1)) (\<lambda>min_cash.
     rbind (verify_finite_decimal dd ''max_drawdown_limit_pct'' False (Some 0) (Some 100)) (\<lambda>max_dd.
     rbind (verify_finite_decimal loss ''max_daily_loss_usd'' False (Some 0) None) (\<lambda>max_loss.
     rbind (verify_finite_decimal margin ''min_margin_buffer_usd'' False (Some 0) None) (\<lambda>min_margin.
     raise_if (min_cash > 1) (AboveMaximum ''min_cash_buffer'') (
     raise_if (\<not> 0 < age) (NonPositiveInt ''max_market_data_age_ms'') (
     raise_if (\<not> 0 < drift) (NonPositiveInt ''max_clock_drift_ms'') (
     raise_if (\<not> 0 < ttl) (NonPositiveInt ''evaluation_ttl_seconds'') (
       Inr \<lparr>rp_version = version, rp_derisk = derisk, rp_max_gross_leverage = max_lev,
            rp_max_asset_concentration = max_conc, rp_min_cash_buffer = min_cash,
            rp_max_drawdown_pct = max_dd, rp_max_daily_loss = max_loss,
            rp_min_margin_buffer = min_margin, rp_max_data_age_ms = age,
            rp_max_clock_drift_ms = drift, rp_ttl_seconds = ttl, rp_digest = digest\<rparr>))))))))))"

text \<open>What a constructed policy guarantees.\<close>

definition policy_ok :: "risk_policy \<Rightarrow> bool" where
  "policy_ok p \<longleftrightarrow> 0 \<le> rp_max_gross_leverage p
     \<and> 0 \<le> rp_max_asset_concentration p \<and> rp_max_asset_concentration p \<le> 1
     \<and> 0 \<le> rp_min_cash_buffer p \<and> rp_min_cash_buffer p \<le> 1
     \<and> 0 \<le> rp_max_drawdown_pct p \<and> rp_max_drawdown_pct p \<le> 100
     \<and> 0 \<le> rp_max_daily_loss p \<and> 0 \<le> rp_min_margin_buffer p
     \<and> 0 < rp_max_data_age_ms p \<and> 0 < rp_max_clock_drift_ms p \<and> 0 < rp_ttl_seconds p"

lemma mk_policy_ok: "mk_policy v d lev conc cash dd loss margin age drift ttl dg = Inr p \<Longrightarrow> policy_ok p"
  by (auto simp: mk_policy_def policy_ok_def rbind_Inr_iff verify_finite_decimal_Inr)

text \<open>\<open>RiskPolicyConfig()\<close>: all defaults.\<close>

definition default_policy :: "string \<Rightarrow> risk_policy" where
  "default_policy digest =
     \<lparr>rp_version = ''v1.0.0'', rp_derisk = EXACT_SCALE_DOWN, rp_max_gross_leverage = 1,
      rp_max_asset_concentration = 1/4, rp_min_cash_buffer = 1/20, rp_max_drawdown_pct = 15,
      rp_max_daily_loss = 10000, rp_min_margin_buffer = 5000, rp_max_data_age_ms = 1500,
      rp_max_clock_drift_ms = 500, rp_ttl_seconds = 60, rp_digest = digest\<rparr>"

lemma default_policy_constructed:
  "mk_policy ''v1.0.0'' EXACT_SCALE_DOWN (Fin 1) (Fin (1/4)) (Fin (1/20)) (Fin 15) (Fin 10000) (Fin 5000)
     1500 500 60 digest = Inr (default_policy digest)"
  by (simp add: mk_policy_def default_policy_def)

lemma default_policy_ok: "policy_ok (default_policy digest)"
  by (rule mk_policy_ok [OF default_policy_constructed])

text \<open>The comment on the validator announces that the cash buffer and the leverage limit sum to at
  most one; only the buffer is checked, and the default policy breaks the announced invariant.\<close>

lemma default_policy_breaks_announced_invariant:
  "rp_min_cash_buffer (default_policy digest) + rp_max_gross_leverage (default_policy digest) > 1"
  by (simp add: default_policy_def)

subsection \<open>Candidate allocation\<close>

record candidate_allocation =
  ca_id :: string
  ca_strategy :: string
  ca_weights :: "(string, dec) dict"
  ca_cash_weight :: dec
  ca_source_digest :: string
  ca_as_of :: time
  ca_digest :: string

definition mk_candidate ::
    "string \<Rightarrow> string \<Rightarrow> (string \<times> raw_dec) list \<Rightarrow> raw_dec \<Rightarrow> string \<Rightarrow> time \<Rightarrow> string
     \<Rightarrow> risk_error + candidate_allocation" where
  "mk_candidate cid strategy weights cash source_digest as_of digest =
     rbind (validate_sha256 source_digest ''source_decision_digest'') (\<lambda>_.
     rbind (clean_weights ''weights'' weights []) (\<lambda>cleaned.
     rbind (verify_finite_decimal cash ''cash_weight'' False None None) (\<lambda>cash_w.
       Inr \<lparr>ca_id = cid, ca_strategy = strategy, ca_weights = cleaned, ca_cash_weight = cash_w,
            ca_source_digest = source_digest, ca_as_of = as_of, ca_digest = digest\<rparr>)))"

definition weights_ok :: "(string, dec) dict \<Rightarrow> bool" where
  "weights_ok ws \<longleftrightarrow> dict_wf ws \<and> (\<forall>w \<in> set (dict_values ws). 0 \<le> w)"

lemma clean_weights_ok: "clean_weights ctx kvs [] = Inr ws \<Longrightarrow> weights_ok ws"
  using clean_weights_wf [of ctx kvs "[]" ws] by (simp add: weights_ok_def dict_wf_def dict_values_def)

lemma mk_candidate_ok: "mk_candidate i st ws c sd ts dg = Inr ca \<Longrightarrow> weights_ok (ca_weights ca)"
  by (auto simp: mk_candidate_def rbind_Inr_iff intro: clean_weights_ok)

subsection \<open>Signed approvals and the reset proposal\<close>

datatype approver_role = RISK_OFFICER | PORTFOLIO_MANAGER | COMPLIANCE_OFFICER

fun role_value :: "approver_role \<Rightarrow> string" where
  "role_value RISK_OFFICER = ''RISK_OFFICER''"
| "role_value PORTFOLIO_MANAGER = ''PORTFOLIO_MANAGER''"
| "role_value COMPLIANCE_OFFICER = ''COMPLIANCE_OFFICER''"

record approval =
  ap_approver_id :: string
  ap_key_id :: string
  ap_role :: approver_role
  ap_authorization_id :: string
  ap_approved_at :: time
  ap_signature :: string
  ap_digest :: string

definition mk_approval ::
    "string \<Rightarrow> string \<Rightarrow> approver_role \<Rightarrow> string \<Rightarrow> time \<Rightarrow> string \<Rightarrow> string \<Rightarrow> risk_error + approval" where
  "mk_approval approver key role authorization approved_at signature digest =
     raise_if (blank approver) (BlankText ''approver_id'') (
     raise_if (blank key) (BlankText ''public_key_id'') (
     raise_if (blank authorization) (BlankText ''authorization_id'') (
     raise_if (blank signature) (BlankText ''approval_signature'') (
     rbind (validate_sha256 digest ''approval_digest'') (\<lambda>dg.
       Inr \<lparr>ap_approver_id = strip approver, ap_key_id = strip key, ap_role = role,
            ap_authorization_id = strip authorization, ap_approved_at = approved_at,
            ap_signature = strip signature, ap_digest = dg\<rparr>)))))"

definition approval_payload :: "approval \<Rightarrow> risk_error + string" where
  "approval_payload a =
     (case to_canonical_json (PDict
         [(KStr ''authorization_id'', PStr (ap_authorization_id a)),
          (KStr ''approver_id'', PStr (ap_approver_id a)),
          (KStr ''public_key_id'', PStr (ap_key_id a)),
          (KStr ''role'', PStr (role_value (ap_role a))),
          (KStr ''approved_at'', PStr (isoformat (ap_approved_at a)))]) of
        Inl e \<Rightarrow> Inl (CanonicalError e)
      | Inr s \<Rightarrow> Inr s)"

definition approval_text :: "approval \<Rightarrow> string" where
  "approval_text a = dumps (JObj
     [(''approved_at'', JStr (isoformat (ap_approved_at a))), (''approver_id'', JStr (ap_approver_id a)),
      (''authorization_id'', JStr (ap_authorization_id a)), (''public_key_id'', JStr (ap_key_id a)),
      (''role'', JStr (role_value (ap_role a)))])"

lemma approval_payload_eq [simp]: "approval_payload a = Inr (approval_text a)"
  by (simp add: approval_payload_def to_canonical_json_def approval_text_def)

record reset_proposal =
  rs_event_id :: string
  rs_kill_switch_event_id :: string
  rs_root_cause :: string
  rs_approvals :: "approval list"
  rs_required :: int
  rs_created_at :: time
  rs_digest :: string

definition reset_digest_of ::
    "(string \<Rightarrow> string) \<Rightarrow> string \<Rightarrow> string \<Rightarrow> string \<Rightarrow> approval list \<Rightarrow> int \<Rightarrow> time \<Rightarrow> risk_error + string" where
  "reset_digest_of sha event_id target root_cause approvals required created_at =
     (case to_canonical_json (PDict
         [(KStr ''event_id'', PStr event_id),
          (KStr ''kill_switch_event_id'', PStr target),
          (KStr ''root_cause_summary'', PStr (strip root_cause)),
          (KStr ''required_approvals'', PInt required),
          (KStr ''approval_digests'', PTuple (map PStr (sort (map ap_digest approvals)))),
          (KStr ''created_at_utc'', PStr (isoformat created_at))]) of
        Inl e \<Rightarrow> Inl (CanonicalError e)
      | Inr s \<Rightarrow> Inr (sha s))"

definition mk_reset ::
    "(string \<Rightarrow> string) \<Rightarrow> string \<Rightarrow> string \<Rightarrow> string \<Rightarrow> approval list \<Rightarrow> int \<Rightarrow> time \<Rightarrow> risk_error + reset_proposal" where
  "mk_reset sha event_id target root_cause approvals required created_at =
     raise_if (strip root_cause = []) (BlankText ''root_cause_summary'') (
     raise_if (int (length approvals) < required) TooFewApprovals (
     rbind (reset_digest_of sha event_id target root_cause approvals required created_at) (\<lambda>digest.
     raise_if (length approvals < 1) TooFewApprovals (
     raise_if (required < 1) (NonPositiveInt ''required_approvals'') (
       Inr \<lparr>rs_event_id = event_id, rs_kill_switch_event_id = target, rs_root_cause = root_cause,
            rs_approvals = approvals, rs_required = required, rs_created_at = created_at,
            rs_digest = digest\<rparr>)))))"

text \<open>What every constructed proposal satisfies: at least one approval, and as many as it requires.\<close>

definition proposal_ok :: "reset_proposal \<Rightarrow> bool" where
  "proposal_ok r \<longleftrightarrow> strip (rs_root_cause r) \<noteq> [] \<and> rs_approvals r \<noteq> [] \<and> 1 \<le> rs_required r
     \<and> rs_required r \<le> int (length (rs_approvals r))"

lemma mk_reset_ok: "mk_reset sha i t cause as n created = Inr r \<Longrightarrow> proposal_ok r"
  by (auto simp: mk_reset_def rbind_Inr_iff proposal_ok_def)

subsection \<open>Evaluation report\<close>

text \<open>The machine-readable rejection codes, with the numbers of their messages.\<close>

datatype rejection =
    BROKER_DISCONNECTED
  | STALE_MARKET_DATA int
  | CLOCK_SKEW_DETECTED int
  | INVALID_EQUITY dec
  | MAX_DRAWDOWN_BREACHED dec
  | MAX_DAILY_LOSS_BREACHED dec
  | MARGIN_BUFFER_BREACHED dec
  | REJECT_LIMITS bool bool bool     \<comment> \<open>leverage, concentration, cash buffer breached\<close>
  | SCALE_DOWN_FAILED

record risk_report =
  rr_evaluation_id :: string
  rr_verdict :: risk_verdict
  rr_allocation_digest :: string
  rr_portfolio_digest :: string
  rr_account_digest :: string
  rr_policy_digest :: string
  rr_weights :: "(string, dec) dict"
  rr_cash_weight :: dec
  rr_metrics :: "(string, dec) dict"
  rr_rejection :: "rejection option"
  rr_evaluated_at :: time
  rr_expires_at :: time

text \<open>The engine hands over finite metrics, which the cleaning loop copies unchanged.\<close>

definition mk_report ::
    "string \<Rightarrow> risk_verdict \<Rightarrow> string \<Rightarrow> string \<Rightarrow> string \<Rightarrow> string \<Rightarrow> (string, dec) dict \<Rightarrow> dec
     \<Rightarrow> (string, dec) dict \<Rightarrow> rejection option \<Rightarrow> time \<Rightarrow> time \<Rightarrow> risk_error + risk_report" where
  "mk_report eid verdict alloc_dg port_dg acc_dg policy_dg weights cash metrics reason eval_at exp_at =
     rbind (validate_sha256 alloc_dg ''original_allocation_digest'') (\<lambda>_.
     rbind (validate_sha256 port_dg ''portfolio_state_digest'') (\<lambda>_.
     rbind (validate_sha256 acc_dg ''account_state_digest'') (\<lambda>_.
     rbind (validate_sha256 policy_dg ''risk_policy_digest'') (\<lambda>_.
     rbind (clean_weights ''adjusted_weights'' (map (apsnd Fin) weights) []) (\<lambda>cleaned.
     rbind (verify_finite_decimal (Fin cash) ''cash_weight'' False None None) (\<lambda>cash_w.
     raise_if (exp_at < eval_at) ExpiresBeforeEvaluation (
       Inr \<lparr>rr_evaluation_id = eid, rr_verdict = verdict, rr_allocation_digest = alloc_dg,
            rr_portfolio_digest = port_dg, rr_account_digest = acc_dg, rr_policy_digest = policy_dg,
            rr_weights = cleaned, rr_cash_weight = cash_w, rr_metrics = metrics,
            rr_rejection = reason, rr_evaluated_at = eval_at, rr_expires_at = exp_at\<rparr>)))))))"

definition is_expired :: "risk_report \<Rightarrow> time \<Rightarrow> bool" where
  "is_expired r as_of \<longleftrightarrow> as_of \<ge> rr_expires_at r"

text \<open>Symbols that are already normalised pass the cleaning loop unchanged.\<close>

definition clean_symbol :: "string \<Rightarrow> bool" where
  "clean_symbol sy \<longleftrightarrow> strip sy \<noteq> [] \<and> upper (strip sy) = sy"

lemma clean_weights_append:
  assumes "dict_wf (acc @ ws)" and "\<forall>(sy, w) \<in> set ws. clean_symbol sy \<and> 0 \<le> w"
  shows "clean_weights ctx (map (apsnd Fin) ws) acc = Inr (acc @ ws)"
  using assms
proof (induction ws arbitrary: acc)
  case (Cons kv ws)
  obtain sy w where kv: "kv = (sy, w)" by (cases kv)
  have "dict_get acc sy = None"
    using Cons.prems(1) by (auto simp: kv dict_wf_def dict_get_def map_of_eq_None_iff)
  then have "dict_put sy w acc = acc @ [(sy, w)]" by (rule dict_put_fresh)
  moreover have "clean_weights ctx (map (apsnd Fin) ws) (acc @ [(sy, w)]) = Inr ((acc @ [(sy, w)]) @ ws)"
    using Cons.prems by (intro Cons.IH) (auto simp: kv)
  moreover have "clean_symbol sy" "0 \<le> w" using Cons.prems(2) by (auto simp: kv)
  ultimately show ?case by (simp add: kv clean_symbol_def)
qed simp

lemma clean_weights_id:
  "dict_wf ws \<Longrightarrow> \<forall>(sy, w) \<in> set ws. clean_symbol sy \<and> 0 \<le> w
    \<Longrightarrow> clean_weights ctx (map (apsnd Fin) ws) [] = Inr ws"
  using clean_weights_append [of "[]" ws ctx] by simp

text \<open>The strip of \<open>upper\<close>: no letter is white space.\<close>

lemma is_space_upper_char [simp]: "is_space (upper_char c) = is_space c"
proof (cases "97 \<le> (of_char c :: nat) \<and> (of_char c :: nat) \<le> 122")
  case True
  then have "((of_char c :: nat) - 32) mod 256 = of_char c - 32" by (intro mod_less) linarith
  then have "(of_char (upper_char c) :: nat) = of_char c - 32"
    using True by (simp add: upper_char_def)
  then show ?thesis using True by (auto simp: is_space_def Let_def)
qed (auto simp: upper_char_def)

lemma dropWhile_upper: "dropWhile is_space (map upper_char s) = map upper_char (dropWhile is_space s)"
  by (induction s) simp_all

lemma strip_upper: "strip (upper s) = upper (strip s)"
  by (simp add: strip_def upper_def dropWhile_upper rev_map)

lemma clean_symbol_normalised: "strip sy \<noteq> [] \<Longrightarrow> clean_symbol (upper (strip sy))"
  by (simp add: clean_symbol_def strip_upper) (simp add: upper_def)

lemma set_dict_put: "set (dict_put k v d) \<subseteq> insert (k, v) (set d)"
  by (induction d) (auto split: if_splits)

lemma clean_weights_symbols:
  "clean_weights ctx kvs acc = Inr ws \<Longrightarrow> \<forall>(sy, w) \<in> set acc. clean_symbol sy \<and> 0 \<le> w
    \<Longrightarrow> \<forall>(sy, w) \<in> set ws. clean_symbol sy \<and> 0 \<le> w"
proof (induction ctx kvs acc rule: clean_weights.induct)
  case (2 ctx sy w kvs acc)
  then obtain d where d: "w = Fin d" "0 \<le> d" "strip sy \<noteq> []"
      "clean_weights ctx kvs (dict_put (upper (strip sy)) d acc) = Inr ws"
    by (auto simp: rbind_Inr_iff verify_finite_decimal_Inr)
  have "\<forall>(sy, w) \<in> set (dict_put (upper (strip sy)) d acc). clean_symbol sy \<and> 0 \<le> w"
    using set_dict_put [of "upper (strip sy)" d acc] 2(3) d(2) clean_symbol_normalised [OF d(3)]
    by blast
  then show ?case using "2.IH" [OF d(4)] by blast
qed simp

subsection \<open>Emergency flatten intent\<close>

record flatten_intent =
  fi_intent_id :: string
  fi_kill_switch_event_id :: string
  fi_targets :: "(string, dec) dict"
  fi_deltas :: "(string, dec) dict"
  fi_issued_at :: time
  fi_status :: flatten_status

fun clean_targets ::
    "(string \<times> raw_dec) list \<Rightarrow> (string, dec) dict \<Rightarrow> risk_error + (string, dec) dict" where
  "clean_targets [] acc = Inr acc"
| "clean_targets ((sy, q) # kvs) acc =
     rbind (verify_finite_decimal q ''target_positions'' False None None) (\<lambda>d.
     raise_if (d \<noteq> 0) (NonZeroTarget sy) (
       clean_targets kvs (dict_put (upper (strip sy)) 0 acc)))"

fun clean_deltas ::
    "(string \<times> raw_dec) list \<Rightarrow> (string, dec) dict \<Rightarrow> risk_error + (string, dec) dict" where
  "clean_deltas [] acc = Inr acc"
| "clean_deltas ((sy, q) # kvs) acc =
     rbind (verify_finite_decimal q ''closing_deltas'' True None None) (\<lambda>d.
       clean_deltas kvs (dict_put (upper (strip sy)) d acc))"

definition mk_flatten_intent ::
    "string \<Rightarrow> string \<Rightarrow> (string \<times> raw_dec) list \<Rightarrow> (string \<times> raw_dec) list \<Rightarrow> time \<Rightarrow> flatten_status
     \<Rightarrow> risk_error + flatten_intent" where
  "mk_flatten_intent intent_id event_id targets deltas issued_at status =
     rbind (clean_targets targets []) (\<lambda>cleaned_targets.
     rbind (clean_deltas deltas []) (\<lambda>cleaned_deltas.
       Inr \<lparr>fi_intent_id = intent_id, fi_kill_switch_event_id = event_id, fi_targets = cleaned_targets,
            fi_deltas = cleaned_deltas, fi_issued_at = issued_at, fi_status = status\<rparr>))"

end
