(* ===== verification/Float64.thy ===== *)
theory Float64
  imports PyDecimal
begin

section \<open>Rounding to double precision\<close>

text \<open>
  Python's \<open>float\<close> enters the modelled code where a timestamp is turned into an integer number of
  milliseconds or nanoseconds.  \<open>float64\<close> is the rounding of a rational to 53 significant bits, half to
  even; from \<open>2 powi -64\<close> on, which covers whole microseconds, the exponent is the number of bits of the
  scaled integer part.  The lemmas bound the rounding error by the number of bits.
\<close>

fun nbits :: "nat \<Rightarrow> nat" where
  "nbits n = (if n = 0 then 0 else Suc (nbits (n div 2)))"

declare nbits.simps [simp del]

definition float64 :: "rat \<Rightarrow> rat" where
  "float64 x = (if x = 0 then 0
     else let u = int (nbits (nat \<lfloor>\<bar>x\<bar> * 2 ^ 64\<rfloor>)) - 117
          in of_int (rhe (x * 2 powi (- u))) * 2 powi u)"

text \<open>\<open>int(x)\<close>\<close>

definition truncate_rat :: "rat \<Rightarrow> int" where
  "truncate_rat x = (if x < 0 then \<lceil>x\<rceil> else \<lfloor>x\<rfloor>)"

lemma nbits_least: "n < 2 ^ k \<Longrightarrow> nbits n \<le> k"
proof (induction k arbitrary: n)
  case (Suc k)
  show ?case
  proof (cases "n = 0")
    case False
    have "n div 2 < 2 ^ k" using Suc.prems by (simp add: less_mult_imp_div_less mult.commute)
    then show ?thesis using Suc.IH False by (subst nbits.simps) simp
  qed (simp add: nbits.simps)
qed (simp add: nbits.simps)

lemma powi_2_mono: "a \<le> b \<Longrightarrow> (2 :: rat) powi a \<le> 2 powi b"
  by (simp add: power_int_increasing)

lemma rhe_error: "\<bar>of_int (rhe x) - x\<bar> \<le> 1/2"
  unfolding abs_le_iff using rhe_bounds [of x] by linarith

text \<open>Below \<open>2 ^ k\<close> the rounding error is at most \<open>2 powi (k - 54)\<close>.\<close>

lemma float64_error:
  assumes "\<bar>x\<bar> < 2 ^ k"
  shows "\<bar>float64 x - x\<bar> \<le> 2 powi (int k - 54)"
proof (cases "x = 0")
  case False
  let ?n = "nat \<lfloor>\<bar>x\<bar> * 2 ^ 64\<rfloor>" let ?u = "int (nbits ?n) - 117"
  have "\<bar>x\<bar> * 2 ^ 64 < 2 ^ (k + 64)" using assms by (simp add: power_add)
  then have "\<lfloor>\<bar>x\<bar> * 2 ^ 64\<rfloor> < 2 ^ (k + 64)"
    by (simp add: floor_less_iff)
  then have "?n < 2 ^ (k + 64)" by (simp add: nat_less_iff)
  then have u: "?u \<le> int k - 53" using nbits_least by fastforce
  have pos: "(0 :: rat) < 2 powi ?u" by simp
  let ?y = "x * 2 powi (- ?u)"
  have "(2 :: rat) powi (- ?u) * 2 powi ?u = 1"
    unfolding power_int_add [of "2 :: rat" "- ?u" ?u, simplified, symmetric] by simp
  then have "x = ?y * 2 powi ?u" by (metis mult.assoc mult_1_right)
  then have "float64 x - x = (of_int (rhe ?y) - ?y) * 2 powi ?u"
    using False by (simp add: float64_def Let_def algebra_simps)
  then have "\<bar>float64 x - x\<bar> = \<bar>of_int (rhe ?y) - ?y\<bar> * 2 powi ?u"
    using pos by (simp add: abs_mult)
  also have "\<dots> \<le> 1/2 * 2 powi ?u"
    by (intro mult_right_mono rhe_error) (use pos in simp)
  also have "\<dots> \<le> 1/2 * 2 powi (int k - 53)"
    using powi_2_mono [OF u] by simp
  also have "\<dots> = 2 powi (int k - 54)"
    using power_int_add [of "2 :: rat" "int k - 54" 1] by simp
  finally show ?thesis .
qed (simp add: float64_def)

lemma float64_nonneg: "0 \<le> x \<Longrightarrow> 0 \<le> float64 x"
proof -
  assume "0 \<le> x"
  have "0 \<le> rhe (x * 2 powi u)" for u
    using rhe_mono [of 0 "x * 2 powi u"] rhe_of_int [of 0] \<open>0 \<le> x\<close> by simp
  then show ?thesis by (simp add: float64_def Let_def)
qed

end
