(* ===== verification/KillSwitch.thy ===== *)
theory KillSwitch
  imports RiskSchema Float64
begin

section \<open>The sovereign kill switch\<close>

text \<open>
  \<open>risk/kill_switch.py\<close>: the controller that blocks execution admission, its append-only ledger of
  chained events and its quorum reset.  The ledger file is a list of lines; a line that is not the
  JSON of an event is \<open>Garbled\<close>, any other line is the record of its fields (a canonical line has
  its mappings in key order; the digest in the line is recomputed on reading, not compared).  Parameters: SHA-256 (\<open>sha\<close>) and the Ed25519 primitive.  Writing the file is taken to
  succeed; a process that dies between two writes leaves a prefix of the lines.
\<close>

subsection \<open>Event identifiers\<close>

text \<open>\<open>int(now.timestamp() * 1000)\<close>: the division by a million and the product are each rounded to a double.\<close>

definition epoch_ms :: "time \<Rightarrow> int" where
  "epoch_ms ts = truncate_rat (float64 (float64 (of_int ts / 1000000) * 1000))"

definition event_id_of :: "string \<Rightarrow> time \<Rightarrow> string" where
  "event_id_of prefix ts = prefix @ str_int (epoch_ms ts)"

subsection \<open>Events\<close>

record kill_switch_event =
  ke_id :: string
  ke_previous_state :: kill_switch_state
  ke_resulting_state :: kill_switch_state
  ke_reason :: string
  ke_evidence :: "(string \<times> string) list"
  ke_policy_version :: string
  ke_policy_digest :: string
  ke_previous_digest :: string
  ke_timestamp :: time
  ke_digest :: string

text \<open>\<open>DataContractError\<close>, one constructor per raise.\<close>

datatype ks_error =
    AdmissionBlocked kill_switch_state
  | EmptyReason
  | IllegalTransition kill_switch_state
  | AlreadyActive
  | NoTripEvent
  | StaleProposal string string
  | EmptyRootCause
  | InsufficientApprovals
  | ReplayedApproval string
  | DuplicateApprover string
  | DuplicateKey string
  | UnauthorizedRole approver_role
  | SignatureRejected string trust_error
  | EventRejected risk_error
  | RecoveryFailed

definition event_payload ::
    "string \<Rightarrow> kill_switch_state \<Rightarrow> kill_switch_state \<Rightarrow> string \<Rightarrow> (string \<times> string) list \<Rightarrow> string
     \<Rightarrow> string \<Rightarrow> string \<Rightarrow> time \<Rightarrow> py_value" where
  "event_payload eid prev res reason evidence pversion pdigest prev_digest ts =
     PDict [(KStr ''event_id'', PStr eid),
            (KStr ''previous_state'', PStr (kill_switch_value prev)),
            (KStr ''resulting_state'', PStr (kill_switch_value res)),
            (KStr ''trigger_reason'', PStr (strip reason)),
            (KStr ''trigger_evidence'', PDict (str_items evidence)),
            (KStr ''policy_version'', PStr pversion),
            (KStr ''policy_digest'', PStr pdigest),
            (KStr ''previous_event_digest'', PStr prev_digest),
            (KStr ''timestamp_utc'', PStr (isoformat ts))]"

definition mk_event ::
    "(string \<Rightarrow> string) \<Rightarrow> string \<Rightarrow> kill_switch_state \<Rightarrow> kill_switch_state \<Rightarrow> string
     \<Rightarrow> (string \<times> string) list \<Rightarrow> string \<Rightarrow> string \<Rightarrow> string \<Rightarrow> time \<Rightarrow> risk_error + kill_switch_event" where
  "mk_event sha eid prev res reason evidence pversion pdigest prev_digest ts =
     rbind (validate_sha256 pdigest ''policy_digest'') (\<lambda>_.
     rbind (validate_sha256 prev_digest ''previous_event_digest'') (\<lambda>_.
     case to_canonical_json (event_payload eid prev res reason evidence pversion pdigest prev_digest ts) of
       Inl e \<Rightarrow> Inl (CanonicalError e)
     | Inr text \<Rightarrow>
         Inr \<lparr>ke_id = eid, ke_previous_state = prev, ke_resulting_state = res, ke_reason = reason,
              ke_evidence = evidence, ke_policy_version = pversion, ke_policy_digest = pdigest,
              ke_previous_digest = prev_digest, ke_timestamp = ts, ke_digest = sha text\<rparr>))"

fun allowed_transitions :: "kill_switch_state \<Rightarrow> kill_switch_state set" where
  "allowed_transitions KS_ACTIVE = {KS_TRIPPED}"
| "allowed_transitions KS_TRIPPED = {KS_PERSISTENTLY_BLOCKED}"
| "allowed_transitions KS_PERSISTENTLY_BLOCKED = {KS_RESET_PENDING, KS_TRIPPED}"
| "allowed_transitions KS_RESET_PENDING = {KS_ACTIVE, KS_TRIPPED}"

subsection \<open>The controller\<close>

datatype ledger_line = Garbled | Line kill_switch_event

record controller =
  kc_trust :: "trust_entry list"
  kc_policy :: risk_policy
  kc_persistent :: bool             \<comment> \<open>a persistence path is configured\<close>
  kc_disk :: "ledger_line list"     \<comment> \<open>the ledger file\<close>
  kc_state :: kill_switch_state
  kc_latest :: "kill_switch_event option"
  kc_consumed :: "string set"

definition is_blocked_state :: "kill_switch_state \<Rightarrow> bool" where
  "is_blocked_state s \<longleftrightarrow> s \<in> {KS_TRIPPED, KS_PERSISTENTLY_BLOCKED, KS_RESET_PENDING}"

definition assert_admission_allowed :: "controller \<Rightarrow> ks_error + unit" where
  "assert_admission_allowed c =
     raise_if (is_blocked_state (kc_state c)) (AdmissionBlocked (kc_state c)) (Inr ())"

text \<open>The fields of the canonical JSON line of an event: mappings in key order.\<close>

definition canon :: "kill_switch_event \<Rightarrow> kill_switch_event" where
  "canon e = e\<lparr>ke_evidence := sort_key fst (ke_evidence e)\<rparr>"

definition persist_event :: "controller \<Rightarrow> kill_switch_event \<Rightarrow> controller" where
  "persist_event c e =
     (if kc_persistent c then c\<lparr>kc_disk := kc_disk c @ [Line (canon e)]\<rparr> else c)"

definition latest_digest :: "controller \<Rightarrow> string" where
  "latest_digest c = (case kc_latest c of Some e \<Rightarrow> ke_digest e | None \<Rightarrow> zero_digest)"

text \<open>A method returns the controller as it leaves it, also when it raises.\<close>

definition trip ::
    "(string \<Rightarrow> string) \<Rightarrow> string \<Rightarrow> (string \<times> string) list \<Rightarrow> time \<Rightarrow> controller
     \<Rightarrow> controller \<times> (ks_error + kill_switch_event)" where
  "trip sha reason evidence now c =
     (let prev_state = kc_state c; prev_digest = latest_digest c in
      if blank reason then (c, Inl EmptyReason)
      else if KS_TRIPPED \<notin> allowed_transitions prev_state
           \<and> prev_state \<notin> {KS_TRIPPED, KS_PERSISTENTLY_BLOCKED}
      then (c, Inl (IllegalTransition prev_state))
      else case mk_event sha (event_id_of ''KILL_TRIP_'' now) prev_state KS_TRIPPED (strip reason) evidence
                  (rp_version (kc_policy c)) (rp_digest (kc_policy c)) prev_digest now of
        Inl e \<Rightarrow> (c, Inl (EventRejected e))
      | Inr trip_event \<Rightarrow>
          let c1 = c\<lparr>kc_state := KS_TRIPPED, kc_latest := Some trip_event\<rparr> in
          case mk_event sha (event_id_of ''KILL_PERSIST_'' now) KS_TRIPPED KS_PERSISTENTLY_BLOCKED
                 (''Hardened to persistence ledger: '' @ strip reason) evidence
                 (rp_version (kc_policy c)) (rp_digest (kc_policy c)) (ke_digest trip_event) now of
            Inl e \<Rightarrow> (c1, Inl (EventRejected e))
          | Inr persisted \<Rightarrow>
              (persist_event (persist_event
                 (c1\<lparr>kc_state := KS_PERSISTENTLY_BLOCKED, kc_latest := Some persisted\<rparr>)
                 trip_event) persisted, Inr persisted))"

fun check_approvals ::
    "(nat list \<Rightarrow> nat list \<Rightarrow> string \<Rightarrow> bool) \<Rightarrow> trust_entry list \<Rightarrow> string set \<Rightarrow> string set \<Rightarrow> string set
     \<Rightarrow> approval list \<Rightarrow> ks_error + unit" where
  "check_approvals ed trust consumed approvers keys [] = Inr ()"
| "check_approvals ed trust consumed approvers keys (a # as) =
     raise_if (ap_digest a \<in> consumed) (ReplayedApproval (ap_digest a)) (
     raise_if (ap_approver_id a \<in> approvers) (DuplicateApprover (ap_approver_id a)) (
     raise_if (ap_key_id a \<in> keys) (DuplicateKey (ap_key_id a)) (
     raise_if (ap_role a \<notin> {RISK_OFFICER, COMPLIANCE_OFFICER}) (UnauthorizedRole (ap_role a)) (
     case approval_payload a of
       Inl e \<Rightarrow> Inl (EventRejected e)
     | Inr payload \<Rightarrow>
         (case verify_signature ed trust (ap_key_id a) payload (ap_signature a) (Some (ap_approved_at a)) of
            Inl e \<Rightarrow> Inl (SignatureRejected (ap_approver_id a) e)
          | Inr _ \<Rightarrow> check_approvals ed trust consumed (insert (ap_approver_id a) approvers)
                      (insert (ap_key_id a) keys) as)))))"

definition submit_reset ::
    "(string \<Rightarrow> string) \<Rightarrow> (nat list \<Rightarrow> nat list \<Rightarrow> string \<Rightarrow> bool) \<Rightarrow> reset_proposal \<Rightarrow> time \<Rightarrow> controller
     \<Rightarrow> controller \<times> (ks_error + kill_switch_event)" where
  "submit_reset sha ed r now c =
     (if \<not> is_blocked_state (kc_state c) then (c, Inl AlreadyActive)
      else case kc_latest c of
        None \<Rightarrow> (c, Inl NoTripEvent)
      | Some latest \<Rightarrow>
          if rs_kill_switch_event_id r \<noteq> ke_id latest
          then (c, Inl (StaleProposal (rs_kill_switch_event_id r) (ke_id latest)))
          else if strip (rs_root_cause r) = [] then (c, Inl EmptyRootCause)
          else if int (length (rs_approvals r)) < rs_required r then (c, Inl InsufficientApprovals)
          else case check_approvals ed (kc_trust c) (kc_consumed c) {} {} (rs_approvals r) of
            Inl e \<Rightarrow> (c, Inl e)
          | Inr _ \<Rightarrow>
              (case mk_event sha (event_id_of ''KILL_PENDING_'' now) (kc_state c) KS_RESET_PENDING
                      (''Multi-sig quorum verified: '' @ strip (rs_root_cause r))
                      [(''reset_event_id'', rs_event_id r),
                       (''approver_count'', str_nat (length (rs_approvals r)))]
                      (rp_version (kc_policy c)) (rp_digest (kc_policy c)) (ke_digest latest) now of
                 Inl e \<Rightarrow> (c, Inl (EventRejected e))
               | Inr pending \<Rightarrow>
                   let c1 = persist_event (c\<lparr>kc_state := KS_RESET_PENDING, kc_latest := Some pending\<rparr>) pending
                   in case mk_event sha (event_id_of ''KILL_RESET_'' now) KS_RESET_PENDING KS_ACTIVE
                             (''Kill switch deactivated. Root cause: '' @ strip (rs_root_cause r))
                             [(''reset_event_id'', rs_event_id r)]
                             (rp_version (kc_policy c)) (rp_digest (kc_policy c)) (ke_digest pending) now of
                        Inl e \<Rightarrow> (c1, Inl (EventRejected e))
                      | Inr active \<Rightarrow>
                          let c2 = persist_event (c1\<lparr>kc_state := KS_ACTIVE, kc_latest := Some active\<rparr>) active
                          in (c2\<lparr>kc_consumed := kc_consumed c2 \<union> ap_digest ` set (rs_approvals r)\<rparr>,
                              Inr active)))"

subsection \<open>Recovery\<close>

definition model_validate :: "(string \<Rightarrow> string) \<Rightarrow> kill_switch_event \<Rightarrow> risk_error + kill_switch_event" where
  "model_validate sha e =
     mk_event sha (ke_id e) (ke_previous_state e) (ke_resulting_state e) (ke_reason e)
       (ke_evidence e) (ke_policy_version e) (ke_policy_digest e) (ke_previous_digest e)
       (ke_timestamp e)"

fun recover_lines ::
    "(string \<Rightarrow> string) \<Rightarrow> nat \<Rightarrow> string \<Rightarrow> kill_switch_state \<Rightarrow> kill_switch_event option \<Rightarrow> ledger_line list
     \<Rightarrow> ks_error + kill_switch_state \<times> kill_switch_event option" where
  "recover_lines sha idx expected_prev state latest [] = Inr (state, latest)"
| "recover_lines sha idx expected_prev state latest (Garbled # ls) = Inl RecoveryFailed"
| "recover_lines sha idx expected_prev state latest (Line entry # ls) =
     (case model_validate sha entry of
        Inl _ \<Rightarrow> Inl RecoveryFailed
      | Inr event \<Rightarrow>
          if ke_previous_digest event \<noteq> expected_prev \<and> idx > 0 then Inl RecoveryFailed
          else recover_lines sha (Suc idx) (ke_digest event) (ke_resulting_state event) (Some event) ls)"

definition new_controller ::
    "(string \<Rightarrow> string) \<Rightarrow> trust_entry list \<Rightarrow> risk_policy \<Rightarrow> bool \<Rightarrow> ledger_line list \<Rightarrow> kill_switch_state
     \<Rightarrow> ks_error + controller" where
  "new_controller sha trust policy persistent disk initial_state =
     (let c = \<lparr>kc_trust = trust, kc_policy = policy, kc_persistent = persistent, kc_disk = disk,
               kc_state = initial_state, kc_latest = None, kc_consumed = {}\<rparr> in
      if \<not> persistent \<or> disk = [] then Inr c
      else rbind (recover_lines sha 0 zero_digest KS_ACTIVE None disk) (\<lambda>(state, latest).
           Inr (c\<lparr>kc_state := state, kc_latest := latest\<rparr>)))"

subsection \<open>Sealed events\<close>

definition event_tree :: "kill_switch_event \<Rightarrow> json" where
  "event_tree e =
     JObj [(''event_id'', JStr (ke_id e)),
           (''policy_digest'', JStr (ke_policy_digest e)),
           (''policy_version'', JStr (ke_policy_version e)),
           (''previous_event_digest'', JStr (ke_previous_digest e)),
           (''previous_state'', JStr (kill_switch_value (ke_previous_state e))),
           (''resulting_state'', JStr (kill_switch_value (ke_resulting_state e))),
           (''timestamp_utc'', JStr (isoformat (ke_timestamp e))),
           (''trigger_evidence'', JObj (map (apsnd JStr) (sort_key fst (ke_evidence e)))),
           (''trigger_reason'', JStr (strip (ke_reason e)))]"

definition event_body :: "kill_switch_event \<Rightarrow> string" where
  "event_body e = dumps (event_tree e)"

definition evidence_ok :: "kill_switch_event \<Rightarrow> bool" where
  "evidence_ok e \<longleftrightarrow> distinct (map fst (ke_evidence e))"

definition sealed :: "(string \<Rightarrow> string) \<Rightarrow> kill_switch_event \<Rightarrow> bool" where
  "sealed sha e \<longleftrightarrow> ke_digest e = sha (event_body e) \<and> valid_sha256 (ke_policy_digest e)
     \<and> valid_sha256 (ke_previous_digest e) \<and> evidence_ok e"

definition seal :: "(string \<Rightarrow> string) \<Rightarrow> kill_switch_event \<Rightarrow> kill_switch_event" where
  "seal sha e = e\<lparr>ke_digest := sha (event_body e)\<rparr>"

lemma event_payload_json:
  "to_canonical_json (event_payload (ke_id e) (ke_previous_state e) (ke_resulting_state e) (ke_reason e)
     (ke_evidence e) (ke_policy_version e) (ke_policy_digest e) (ke_previous_digest e) (ke_timestamp e))
   = Inr (event_body e)"
  by (simp add: event_payload_def to_canonical_json_def event_body_def event_tree_def sort_str_items)

lemma model_validate_eq:
  "model_validate sha e =
     (if \<not> valid_sha256 (ke_policy_digest e) then Inl (NotSha256 ''policy_digest'')
      else if \<not> valid_sha256 (ke_previous_digest e) then Inl (NotSha256 ''previous_event_digest'')
      else Inr (seal sha e))"
  by (simp add: model_validate_def mk_event_def event_payload_json validate_sha256_def seal_def)

lemma mk_event_valid:
  assumes "valid_sha256 pd" "valid_sha256 dg"
  obtains e where "mk_event sha i p r rs ev pv pd dg ts = Inr e"
    and "ke_id e = i" "ke_previous_state e = p" "ke_resulting_state e = r" "ke_reason e = rs"
    and "ke_evidence e = ev" "ke_policy_version e = pv" "ke_policy_digest e = pd"
    and "ke_previous_digest e = dg" "ke_timestamp e = ts" "ke_digest e = sha (event_body e)"
proof -
  let ?e = "\<lparr>ke_id = i, ke_previous_state = p, ke_resulting_state = r, ke_reason = rs, ke_evidence = ev,
     ke_policy_version = pv, ke_policy_digest = pd, ke_previous_digest = dg, ke_timestamp = ts,
     ke_digest = []\<rparr>"
  have "mk_event sha i p r rs ev pv pd dg ts = Inr (seal sha ?e)"
    using assms model_validate_eq [of sha ?e] by (simp add: model_validate_def)
  then show thesis by (rule that) (simp_all add: seal_def event_body_def event_tree_def)
qed

lemma evidence_sort_ok [simp]: "distinct (map fst (sort_key fst kvs)) = distinct (map fst kvs)"
  by (metis distinct_map distinct_sort inj_on_def set_sort)

lemma canon_simps [simp]:
  "event_body (canon e) = event_body e"
  "ke_digest (canon e) = ke_digest e"
  "ke_previous_digest (canon e) = ke_previous_digest e"
  "ke_previous_state (canon e) = ke_previous_state e"
  "ke_resulting_state (canon e) = ke_resulting_state e"
  "ke_id (canon e) = ke_id e"
  "sealed sha (canon e) = sealed sha e"
  "canon (canon e) = canon e"
  by (simp_all add: canon_def event_body_def event_tree_def sealed_def evidence_ok_def)

lemma model_validate_sealed: "sealed sha e \<Longrightarrow> model_validate sha e = Inr e"
  by (simp add: model_validate_eq sealed_def seal_def)

lemma event_tree_ok: "evidence_ok e \<Longrightarrow> json_ok (event_tree e)"
  using str_object_ok [of "ke_evidence e"] by (simp add: event_tree_def evidence_ok_def)

lemma event_body_inject:
  assumes "evidence_ok e" "evidence_ok e'" "event_body e = event_body e'"
  shows "event_tree e = event_tree e'"
  using assms dumps_inject [OF event_tree_ok event_tree_ok] by (simp add: event_body_def)

interpretation ks_chain: hash_chain event_body ke_previous_digest evidence_ok
proof
  fix e e' :: kill_switch_event
  assume "evidence_ok e" "evidence_ok e'" "event_body e = event_body e'"
  then have "event_tree e = event_tree e'" by (rule event_body_inject)
  then show "ke_previous_digest e = ke_previous_digest e'" by (simp add: event_tree_def)
qed

subsection \<open>Memory and ledger agree\<close>

definition memory_agrees :: "kill_switch_event list \<Rightarrow> kill_switch_state \<Rightarrow> kill_switch_event option \<Rightarrow> bool" where
  "memory_agrees es s latest \<longleftrightarrow>
     (if es = [] then s = KS_ACTIVE \<and> latest = None
      else s = ke_resulting_state (last es) \<and> map_option canon latest = Some (last es))"

definition ledger_ok :: "(string \<Rightarrow> string) \<Rightarrow> kill_switch_event list \<Rightarrow> bool" where
  "ledger_ok sha es \<longleftrightarrow> chained sha event_body ke_previous_digest zero_digest es
     \<and> (\<forall>e \<in> set es. sealed sha e \<and> canon e = e)"

definition controller_ok :: "(string \<Rightarrow> string) \<Rightarrow> controller \<Rightarrow> bool" where
  "controller_ok sha c \<longleftrightarrow> kc_persistent c \<and> valid_sha256 (rp_digest (kc_policy c))
     \<and> (\<exists>es. kc_disk c = map Line es \<and> ledger_ok sha es \<and> memory_agrees es (kc_state c) (kc_latest c))"

lemma inj_Line: "inj Line"
  by (simp add: inj_on_def)

lemma ledger_okI [intro?]:
  "ledger_ok sha es \<Longrightarrow> sealed sha e \<Longrightarrow> ke_previous_digest e = chain_head sha event_body zero_digest es
    \<Longrightarrow> ledger_ok sha (es @ [canon e])"
  by (simp add: ledger_ok_def)

lemma ledger_ok_take: "ledger_ok sha es \<Longrightarrow> ledger_ok sha (take n es)"
proof -
  assume ok: "ledger_ok sha es"
  then have "chained sha event_body ke_previous_digest zero_digest (take n es @ drop n es)"
    by (simp add: ledger_ok_def)
  then show ?thesis using ok unfolding chained_append ledger_ok_def by (meson in_set_takeD)
qed

lemma latest_digest_head:
  assumes "ledger_ok sha es" and "memory_agrees es s (kc_latest c)"
  shows "latest_digest c = chain_head sha event_body zero_digest es"
proof (cases es rule: rev_cases)
  case Nil
  then show ?thesis using assms(2) by (simp add: memory_agrees_def latest_digest_def)
next
  case (snoc fs f)
  then obtain e where e: "kc_latest c = Some e" "canon e = f"
    using assms(2) by (auto simp: memory_agrees_def)
  have "sealed sha f" using assms(1) by (simp add: snoc ledger_ok_def)
  then have "ke_digest f = sha (event_body f)" by (simp add: sealed_def)
  then show ?thesis using e by (auto simp: snoc latest_digest_def)
qed

lemma latest_digest_valid:
  assumes "hex_digests sha" and "ledger_ok sha es"
  shows "valid_sha256 (chain_head sha event_body zero_digest es)"
  using assms(1) by (cases es rule: rev_cases) simp_all

text \<open>Recovery reads the ledger of an agreeing controller back, line by line.\<close>

lemma recover_lines_ok:
  "chained sha event_body ke_previous_digest d es \<Longrightarrow> \<forall>e \<in> set es. sealed sha e
    \<Longrightarrow> recover_lines sha i d s latest (map Line es)
      = Inr (if es = [] then (s, latest) else (ke_resulting_state (last es), Some (last es)))"
proof (induction es arbitrary: i d s latest)
  case (Cons e es)
  then have "model_validate sha e = Inr e" "ke_digest e = sha (event_body e)"
    using model_validate_sealed by (simp_all add: sealed_def)
  then show ?case using Cons by simp
qed simp

lemma recover_ledger:
  "ledger_ok sha es \<Longrightarrow> new_controller sha trust policy True (map Line es) KS_ACTIVE =
     Inr \<lparr>kc_trust = trust, kc_policy = policy, kc_persistent = True, kc_disk = map Line es,
          kc_state = (if es = [] then KS_ACTIVE else ke_resulting_state (last es)),
          kc_latest = (if es = [] then None else Some (last es)), kc_consumed = {}\<rparr>"
  by (simp add: new_controller_def Let_def recover_lines_ok ledger_ok_def)

lemma recover_ledger_ok:
  assumes "ledger_ok sha es" and "valid_sha256 (rp_digest policy)"
    and "new_controller sha trust policy True (map Line es) KS_ACTIVE = Inr c"
  shows "controller_ok sha c" and "kc_trust c = trust" and "kc_policy c = policy" and "kc_consumed c = {}"
    and "kc_disk c = map Line es"
    and "kc_state c = (if es = [] then KS_ACTIVE else ke_resulting_state (last es))"
    and "kc_latest c = (if es = [] then None else Some (last es))"
proof -
  have c: "c = \<lparr>kc_trust = trust, kc_policy = policy, kc_persistent = True, kc_disk = map Line es,
          kc_state = (if es = [] then KS_ACTIVE else ke_resulting_state (last es)),
          kc_latest = (if es = [] then None else Some (last es)), kc_consumed = {}\<rparr>"
    using assms(3) unfolding recover_ledger [OF assms(1)] by simp
  have "canon (last es) = last es" if "es \<noteq> []"
    using assms(1) that by (simp add: ledger_ok_def)
  then have "memory_agrees es (kc_state c) (kc_latest c)"
    by (simp add: c memory_agrees_def)
  then show "controller_ok sha c"
    using assms(1,2) by (auto simp: controller_ok_def c)
qed (use assms(3) in \<open>auto simp: recover_ledger [OF assms(1)]\<close>)

subsection \<open>The effect of a trip\<close>

lemma trip_total: "KS_TRIPPED \<in> allowed_transitions s \<or> s \<in> {KS_TRIPPED, KS_PERSISTENTLY_BLOCKED}"
  by (cases s) simp_all

lemma trip_effect:
  assumes ok: "controller_ok sha c" and hex: "hex_digests sha" and ev: "distinct (map fst evidence)"
    and disk: "kc_disk c = map Line es" "ledger_ok sha es" "memory_agrees es (kc_state c) (kc_latest c)"
    and "\<not> blank reason"
  obtains e1 e2 where
    "trip sha reason evidence now c
       = (c\<lparr>kc_state := KS_PERSISTENTLY_BLOCKED, kc_latest := Some e2,
            kc_disk := map Line (es @ [canon e1, canon e2])\<rparr>, Inr e2)"
    and "ledger_ok sha (es @ [canon e1, canon e2])" and "ledger_ok sha (es @ [canon e1])"
    and "ke_previous_state e1 = kc_state c" "ke_resulting_state e1 = KS_TRIPPED"
    and "ke_previous_state e2 = KS_TRIPPED" "ke_resulting_state e2 = KS_PERSISTENTLY_BLOCKED"
    and "ke_reason e1 = strip reason" "ke_timestamp e1 = now" "ke_evidence e1 = evidence"
    and "ke_id e2 = event_id_of ''KILL_PERSIST_'' now" "ke_timestamp e2 = now" "ke_evidence e2 = evidence"
proof -
  let ?head = "chain_head sha event_body zero_digest es" and ?p = "kc_policy c"
  have pd: "valid_sha256 (rp_digest ?p)" and pers: "kc_persistent c" using ok by (simp_all add: controller_ok_def)
  have head: "latest_digest c = ?head" using latest_digest_head disk(2,3) by blast
  obtain e1 where e1: "mk_event sha (event_id_of ''KILL_TRIP_'' now) (kc_state c) KS_TRIPPED (strip reason)
        evidence (rp_version ?p) (rp_digest ?p) ?head now = Inr e1"
    and f1: "ke_previous_state e1 = kc_state c" "ke_resulting_state e1 = KS_TRIPPED"
      "ke_reason e1 = strip reason" "ke_timestamp e1 = now" "ke_evidence e1 = evidence"
      "ke_previous_digest e1 = ?head" "ke_digest e1 = sha (event_body e1)" "ke_policy_digest e1 = rp_digest ?p"
    by (rule mk_event_valid [OF pd latest_digest_valid [OF hex disk(2)], where sha = sha
          and i = "event_id_of ''KILL_TRIP_'' now" and p = "kc_state c" and r = KS_TRIPPED
          and rs = "strip reason" and ev = evidence and pv = "rp_version ?p" and ts = now])
  have v1: "valid_sha256 (ke_digest e1)" by (simp add: f1 hex)
  obtain e2 where e2: "mk_event sha (event_id_of ''KILL_PERSIST_'' now) KS_TRIPPED KS_PERSISTENTLY_BLOCKED
        (''Hardened to persistence ledger: '' @ strip reason) evidence (rp_version ?p) (rp_digest ?p)
        (ke_digest e1) now = Inr e2"
    and f2: "ke_id e2 = event_id_of ''KILL_PERSIST_'' now" "ke_previous_state e2 = KS_TRIPPED"
      "ke_resulting_state e2 = KS_PERSISTENTLY_BLOCKED" "ke_timestamp e2 = now" "ke_evidence e2 = evidence"
      "ke_previous_digest e2 = ke_digest e1" "ke_digest e2 = sha (event_body e2)"
      "ke_policy_digest e2 = rp_digest ?p"
    by (rule mk_event_valid [OF pd v1, where sha = sha
          and i = "event_id_of ''KILL_PERSIST_'' now" and p = KS_TRIPPED and r = KS_PERSISTENTLY_BLOCKED
          and rs = "''Hardened to persistence ledger: '' @ strip reason" and ev = evidence
          and pv = "rp_version ?p" and ts = now])
  have s1: "sealed sha e1" and s2: "sealed sha e2"
    using pd v1 ev latest_digest_valid [OF hex disk(2)] by (simp_all add: sealed_def evidence_ok_def f1 f2)
  have l1: "ledger_ok sha (es @ [canon e1])"
    by (rule ledger_okI [OF disk(2) s1]) (simp add: f1)
  have l2: "ledger_ok sha ((es @ [canon e1]) @ [canon e2])"
    by (rule ledger_okI [OF l1 s2]) (simp add: f2 f1)
  have "trip sha reason evidence now c
       = (c\<lparr>kc_state := KS_PERSISTENTLY_BLOCKED, kc_latest := Some e2,
            kc_disk := map Line (es @ [canon e1, canon e2])\<rparr>, Inr e2)"
    using assms(7) trip_total [of "kc_state c"]
    by (auto simp: trip_def Let_def head e1 e2 [simplified] persist_event_def pers disk(1))
  then show thesis by (rule that) (use l1 l2 f1 f2 in simp_all)
qed

subsection \<open>The effect of a reset\<close>

text \<open>An approval that counts: an officer's, signed under a trusted key, not consumed before.\<close>

definition approval_counts ::
    "(nat list \<Rightarrow> nat list \<Rightarrow> string \<Rightarrow> bool) \<Rightarrow> controller \<Rightarrow> approval \<Rightarrow> bool" where
  "approval_counts ed c a \<longleftrightarrow> ap_role a \<in> {RISK_OFFICER, COMPLIANCE_OFFICER}
     \<and> ap_digest a \<notin> kc_consumed c
     \<and> verify_signature ed (kc_trust c) (ap_key_id a) (approval_text a) (ap_signature a)
         (Some (ap_approved_at a)) = Inr ()"

text \<open>What \<open>submit_reset\<close> asks of a proposal on a blocked controller: it targets the latest event,
  states a root cause and has the approvals it requires, all of them counting, by distinct approvers
  with distinct keys.  That there is at least one approval and that at least one is required is the
  business of the schema of the proposal (\<open>proposal_ok\<close>); the method does not check it again.\<close>

definition quorum ::
    "(nat list \<Rightarrow> nat list \<Rightarrow> string \<Rightarrow> bool) \<Rightarrow> controller \<Rightarrow> reset_proposal \<Rightarrow> bool" where
  "quorum ed c r \<longleftrightarrow> map_option ke_id (kc_latest c) = Some (rs_kill_switch_event_id r)
     \<and> strip (rs_root_cause r) \<noteq> [] \<and> rs_required r \<le> int (length (rs_approvals r))
     \<and> distinct (map ap_approver_id (rs_approvals r)) \<and> distinct (map ap_key_id (rs_approvals r))
     \<and> list_all (approval_counts ed c) (rs_approvals r)"

lemma check_approvals_Inr:
  "check_approvals ed (kc_trust c) (kc_consumed c) approvers keys as = Inr () \<longleftrightarrow>
     list_all (approval_counts ed c) as
     \<and> distinct (map ap_approver_id as) \<and> ap_approver_id ` set as \<inter> approvers = {}
     \<and> distinct (map ap_key_id as) \<and> ap_key_id ` set as \<inter> keys = {}"
proof (induction as arbitrary: approvers keys)
  case (Cons a as)
  show ?case
  proof (cases "verify_signature ed (kc_trust c) (ap_key_id a) (approval_text a) (ap_signature a)
      (Some (ap_approved_at a))")
    case (Inr u)
    then show ?thesis using Cons.IH by (auto simp: approval_counts_def)
  qed (simp add: approval_counts_def)
qed simp

lemma submit_reset_quorum:
  "submit_reset sha ed r now c = (c', res) \<Longrightarrow> c' \<noteq> c \<or> (\<exists>e. res = Inr e)
    \<Longrightarrow> quorum ed c r \<and> is_blocked_state (kc_state c)"
  using check_approvals_Inr [of ed c "{}" "{}" "rs_approvals r"]
  by (auto simp: submit_reset_def quorum_def not_less split: if_splits option.splits sum.splits)

lemma reset_effect:
  assumes ok: "controller_ok sha c" and hex: "hex_digests sha"
    and disk: "kc_disk c = map Line es" "ledger_ok sha es" "memory_agrees es (kc_state c) (kc_latest c)"
    and q: "quorum ed c r" and blocked: "is_blocked_state (kc_state c)"
  obtains e1 e2 where
    "submit_reset sha ed r now c
       = (c\<lparr>kc_state := KS_ACTIVE, kc_latest := Some e2, kc_disk := map Line (es @ [canon e1, canon e2]),
            kc_consumed := kc_consumed c \<union> ap_digest ` set (rs_approvals r)\<rparr>, Inr e2)"
    and "ledger_ok sha (es @ [canon e1, canon e2])" and "ledger_ok sha (es @ [canon e1])"
    and "ke_previous_state e1 = kc_state c" "ke_resulting_state e1 = KS_RESET_PENDING"
    and "ke_previous_state e2 = KS_RESET_PENDING" "ke_resulting_state e2 = KS_ACTIVE"
    and "ke_id e2 = event_id_of ''KILL_RESET_'' now"
proof -
  let ?head = "chain_head sha event_body zero_digest es" and ?p = "kc_policy c"
  have pd: "valid_sha256 (rp_digest ?p)" and pers: "kc_persistent c" using ok by (simp_all add: controller_ok_def)
  obtain e0 where e0: "kc_latest c = Some e0" "ke_id e0 = rs_kill_switch_event_id r"
    using q by (auto simp: quorum_def)
  have head: "ke_digest e0 = ?head" using latest_digest_head [OF disk(2,3)] e0 by (simp add: latest_digest_def)
  have checks: "check_approvals ed (kc_trust c) (kc_consumed c) {} {} (rs_approvals r) = Inr ()"
    using q by (simp add: check_approvals_Inr quorum_def)
  obtain e1 where e1: "mk_event sha (event_id_of ''KILL_PENDING_'' now) (kc_state c) KS_RESET_PENDING
        (''Multi-sig quorum verified: '' @ strip (rs_root_cause r)) [(''reset_event_id'', rs_event_id r),
         (''approver_count'', str_nat (length (rs_approvals r)))] (rp_version ?p) (rp_digest ?p) ?head now = Inr e1"
    and f1: "ke_previous_state e1 = kc_state c" "ke_resulting_state e1 = KS_RESET_PENDING"
      "ke_evidence e1 = [(''reset_event_id'', rs_event_id r),
         (''approver_count'', str_nat (length (rs_approvals r)))]"
      "ke_previous_digest e1 = ?head" "ke_digest e1 = sha (event_body e1)" "ke_policy_digest e1 = rp_digest ?p"
    by (rule mk_event_valid [OF pd latest_digest_valid [OF hex disk(2)], where sha = sha
          and i = "event_id_of ''KILL_PENDING_'' now" and p = "kc_state c" and r = KS_RESET_PENDING
          and rs = "''Multi-sig quorum verified: '' @ strip (rs_root_cause r)"
          and ev = "[(''reset_event_id'', rs_event_id r),
             (''approver_count'', str_nat (length (rs_approvals r)))]"
          and pv = "rp_version ?p" and ts = now])
  have v1: "valid_sha256 (ke_digest e1)" by (simp add: f1 hex)
  obtain e2 where e2: "mk_event sha (event_id_of ''KILL_RESET_'' now) KS_RESET_PENDING KS_ACTIVE
        (''Kill switch deactivated. Root cause: '' @ strip (rs_root_cause r))
        [(''reset_event_id'', rs_event_id r)] (rp_version ?p) (rp_digest ?p) (ke_digest e1) now = Inr e2"
    and f2: "ke_id e2 = event_id_of ''KILL_RESET_'' now" "ke_previous_state e2 = KS_RESET_PENDING"
      "ke_resulting_state e2 = KS_ACTIVE" "ke_evidence e2 = [(''reset_event_id'', rs_event_id r)]"
      "ke_previous_digest e2 = ke_digest e1" "ke_digest e2 = sha (event_body e2)"
      "ke_policy_digest e2 = rp_digest ?p"
    by (rule mk_event_valid [OF pd v1, where sha = sha
          and i = "event_id_of ''KILL_RESET_'' now" and p = KS_RESET_PENDING and r = KS_ACTIVE
          and rs = "''Kill switch deactivated. Root cause: '' @ strip (rs_root_cause r)"
          and ev = "[(''reset_event_id'', rs_event_id r)]" and pv = "rp_version ?p" and ts = now])
  have s1: "sealed sha e1" and s2: "sealed sha e2"
    using pd v1 latest_digest_valid [OF hex disk(2)] by (simp_all add: sealed_def evidence_ok_def f1 f2)
  have l1: "ledger_ok sha (es @ [canon e1])"
    by (rule ledger_okI [OF disk(2) s1]) (simp add: f1)
  have l2: "ledger_ok sha ((es @ [canon e1]) @ [canon e2])"
    by (rule ledger_okI [OF l1 s2]) (simp add: f2 f1)
  have "submit_reset sha ed r now c
       = (c\<lparr>kc_state := KS_ACTIVE, kc_latest := Some e2, kc_disk := map Line (es @ [canon e1, canon e2]),
            kc_consumed := kc_consumed c \<union> ap_digest ` set (rs_approvals r)\<rparr>, Inr e2)"
    using q blocked
    by (simp add: submit_reset_def Let_def e0 head checks quorum_def e1 [simplified] e2 [simplified]
        persist_event_def pers disk(1))
  then show thesis by (rule that) (use l1 l2 f1 f2 in simp_all)
qed

subsection \<open>Runs of the controller\<close>

text \<open>The life of a persistent controller: trips, attempts to reset it with a constructed proposal,
  restarts of the process, and crashes after any number of the ledger writes of an operation, followed by a restart.\<close>

definition restart :: "(string \<Rightarrow> string) \<Rightarrow> controller \<Rightarrow> ledger_line list \<Rightarrow> ks_error + controller" where
  "restart sha c disk = new_controller sha (kc_trust c) (kc_policy c) True disk KS_ACTIVE"

inductive ks_step ::
    "(string \<Rightarrow> string) \<Rightarrow> (nat list \<Rightarrow> nat list \<Rightarrow> string \<Rightarrow> bool) \<Rightarrow> controller \<Rightarrow> controller \<Rightarrow> bool"
  for sha and ed
where
  step_trip: "trip sha reason evidence now c = (c', res) \<Longrightarrow> distinct (map fst evidence)
    \<Longrightarrow> ks_step sha ed c c'"
| step_reset: "submit_reset sha ed r now c = (c', res) \<Longrightarrow> proposal_ok r \<Longrightarrow> ks_step sha ed c c'"
| step_restart: "restart sha c (kc_disk c) = Inr c' \<Longrightarrow> ks_step sha ed c c'"
| step_trip_crash: "trip sha reason evidence now c = (c1, res) \<Longrightarrow> distinct (map fst evidence)
    \<Longrightarrow> length (kc_disk c) \<le> n \<Longrightarrow> restart sha c (take n (kc_disk c1)) = Inr c' \<Longrightarrow> ks_step sha ed c c'"
| step_reset_crash: "submit_reset sha ed r now c = (c1, res) \<Longrightarrow> proposal_ok r
    \<Longrightarrow> length (kc_disk c) \<le> n \<Longrightarrow> restart sha c (take n (kc_disk c1)) = Inr c' \<Longrightarrow> ks_step sha ed c c'"

lemma controller_okE:
  assumes "controller_ok sha c"
  obtains es where "kc_disk c = map Line es" "ledger_ok sha es" "memory_agrees es (kc_state c) (kc_latest c)"
  using assms by (auto simp: controller_ok_def)

lemma restart_ok:
  assumes "controller_ok sha c" and "ledger_ok sha es"
  obtains c' where "restart sha c (map Line es) = Inr c'" and "controller_ok sha c'"
    and "kc_trust c' = kc_trust c" and "kc_policy c' = kc_policy c" and "kc_consumed c' = {}"
    and "kc_disk c' = map Line es"
    and "kc_state c' = (if es = [] then KS_ACTIVE else ke_resulting_state (last es))"
    and "kc_latest c' = (if es = [] then None else Some (last es))"
proof -
  have pd: "valid_sha256 (rp_digest (kc_policy c))" using assms(1) by (simp add: controller_ok_def)
  obtain c' where c': "restart sha c (map Line es) = Inr c'"
    unfolding restart_def recover_ledger [OF assms(2)] by blast
  note recovered = recover_ledger_ok [OF assms(2) pd c' [unfolded restart_def]]
  show thesis by (rule that [OF c']) (rule recovered)+
qed

lemma trip_ok:
  assumes "controller_ok sha c" "hex_digests sha" "distinct (map fst evidence)"
    and "trip sha reason evidence now c = (c', res)"
  shows "controller_ok sha c' \<and> kc_trust c' = kc_trust c \<and> kc_policy c' = kc_policy c
    \<and> (is_blocked_state (kc_state c) \<longrightarrow> is_blocked_state (kc_state c'))"
proof (cases "blank reason")
  case True
  then show ?thesis using assms by (simp add: trip_def Let_def)
next
  case False
  obtain es where es: "kc_disk c = map Line es" "ledger_ok sha es" "memory_agrees es (kc_state c) (kc_latest c)"
    using assms(1) by (rule controller_okE)
  obtain e1 e2 where t: "trip sha reason evidence now c
       = (c\<lparr>kc_state := KS_PERSISTENTLY_BLOCKED, kc_latest := Some e2,
            kc_disk := map Line (es @ [canon e1, canon e2])\<rparr>, Inr e2)"
    and l: "ledger_ok sha (es @ [canon e1, canon e2])" and r: "ke_resulting_state e2 = KS_PERSISTENTLY_BLOCKED"
    by (rule trip_effect [OF assms(1-3) es False])
  have "\<exists>fs. map Line (es @ [canon e1, canon e2]) = map Line fs \<and> ledger_ok sha fs
      \<and> memory_agrees fs KS_PERSISTENTLY_BLOCKED (Some e2)"
    by (rule exI [of _ "es @ [canon e1, canon e2]"]) (use l r in \<open>simp add: memory_agrees_def\<close>)
  then show ?thesis
    using assms(1,4) by (auto simp: t controller_ok_def is_blocked_state_def)
qed

lemma reset_ok:
  assumes "controller_ok sha c" "hex_digests sha" and "submit_reset sha ed r now c = (c', res)"
  shows "controller_ok sha c' \<and> kc_trust c' = kc_trust c \<and> kc_policy c' = kc_policy c"
proof (cases "c' \<noteq> c \<or> (\<exists>e. res = Inr e)")
  case False
  then show ?thesis using assms by simp
next
  case True
  obtain es where es: "kc_disk c = map Line es" "ledger_ok sha es" "memory_agrees es (kc_state c) (kc_latest c)"
    using assms(1) by (rule controller_okE)
  have q: "quorum ed c r" "is_blocked_state (kc_state c)" using submit_reset_quorum [OF assms(3) True] by simp_all
  obtain e1 e2 where t: "submit_reset sha ed r now c
       = (c\<lparr>kc_state := KS_ACTIVE, kc_latest := Some e2, kc_disk := map Line (es @ [canon e1, canon e2]),
            kc_consumed := kc_consumed c \<union> ap_digest ` set (rs_approvals r)\<rparr>, Inr e2)"
    and l: "ledger_ok sha (es @ [canon e1, canon e2])" and r: "ke_resulting_state e2 = KS_ACTIVE"
    by (rule reset_effect [OF assms(1,2) es q])
  have "\<exists>fs. map Line (es @ [canon e1, canon e2]) = map Line fs \<and> ledger_ok sha fs
      \<and> memory_agrees fs KS_ACTIVE (Some e2)"
    by (rule exI [of _ "es @ [canon e1, canon e2]"]) (use l r in \<open>simp add: memory_agrees_def\<close>)
  then show ?thesis using assms(1,3) by (auto simp: t controller_ok_def)
qed

lemma reset_accepted:
  assumes "controller_ok sha c" "hex_digests sha" and "submit_reset sha ed r now c = (c', res)"
    and "quorum ed c r" "is_blocked_state (kc_state c)"
  shows "\<exists>e. res = Inr e"
proof -
  obtain es where es: "kc_disk c = map Line es" "ledger_ok sha es" "memory_agrees es (kc_state c) (kc_latest c)"
    using assms(1) by (rule controller_okE)
  show ?thesis by (rule reset_effect [OF assms(1,2) es assms(4,5), of now]) (use assms(3) in auto)
qed

lemma restart_prefix:
  assumes "controller_ok sha c" and "controller_ok sha c1" and "restart sha c (take n (kc_disk c1)) = Inr c'"
  shows "controller_ok sha c' \<and> kc_trust c' = kc_trust c \<and> kc_policy c' = kc_policy c"
proof -
  obtain es where es: "kc_disk c1 = map Line es" "ledger_ok sha es" using assms(2) by (rule controller_okE)
  show ?thesis
    by (rule restart_ok [OF assms(1) ledger_ok_take [OF es(2), of n]])
      (use assms(3) in \<open>simp add: es take_map\<close>)
qed

lemma ks_step_ok:
  assumes "ks_step sha ed c c'" "controller_ok sha c" "hex_digests sha"
  shows "controller_ok sha c' \<and> kc_trust c' = kc_trust c \<and> kc_policy c' = kc_policy c"
  using assms(1)
proof cases
  case step_restart
  then show ?thesis using restart_prefix [OF assms(2,2), of "length (kc_disk c)"] by simp
next
  case (step_trip_crash reason evidence now c1 res n)
  then show ?thesis using trip_ok [OF assms(2,3)] restart_prefix [OF assms(2)] by blast
next
  case (step_reset_crash r now c1 res n)
  then show ?thesis using reset_ok [OF assms(2,3)] restart_prefix [OF assms(2)] by blast
qed (use trip_ok [OF assms(2,3)] reset_ok [OF assms(2,3)] in blast)+

text \<open>Reading the ledger of an agreeing controller gives its state back.\<close>

lemma restart_same:
  assumes "controller_ok sha c"
  obtains c' where "restart sha c (kc_disk c) = Inr c'" and "controller_ok sha c'" and "kc_disk c' = kc_disk c"
    and "kc_state c' = kc_state c" and "kc_latest c' = map_option canon (kc_latest c)"
    and "kc_trust c' = kc_trust c" "kc_policy c' = kc_policy c" "kc_consumed c' = {}"
proof -
  obtain es where es: "kc_disk c = map Line es" "ledger_ok sha es" "memory_agrees es (kc_state c) (kc_latest c)"
    using assms by (rule controller_okE)
  obtain c' where c': "restart sha c (map Line es) = Inr c'" "controller_ok sha c'" "kc_disk c' = map Line es"
      "kc_state c' = (if es = [] then KS_ACTIVE else ke_resulting_state (last es))"
      "kc_latest c' = (if es = [] then None else Some (last es))"
      "kc_trust c' = kc_trust c" "kc_policy c' = kc_policy c" "kc_consumed c' = {}"
    by (rule restart_ok [OF assms es(2)]) blast
  show thesis
    by (rule that [of c']) (use c' es in \<open>simp_all add: memory_agrees_def split: if_splits\<close>)
qed

text \<open>A crash during an operation on a blocked controller without a quorum leaves it blocked.\<close>

lemma restart_crashed:
  assumes "controller_ok sha c" and "restart sha c (map Line (take n (es @ [x, y]))) = Inr c'"
    and "ledger_ok sha es" "memory_agrees es (kc_state c) latest" "length es \<le> n"
    and "ledger_ok sha (es @ [x])" "ledger_ok sha (es @ [x, y])"
  shows "kc_state c' \<in> {kc_state c, ke_resulting_state x, ke_resulting_state y}"
proof -
  have "take n (es @ [x, y]) \<in> {es, es @ [x], es @ [x, y]}"
    using assms(5) by (cases "n - length es"; cases "n - length es - 1") auto
  then consider "take n (es @ [x, y]) = es" | "take n (es @ [x, y]) = es @ [x]"
    | "take n (es @ [x, y]) = es @ [x, y]" by blast
  then show ?thesis
  proof cases
    case 1
    show ?thesis
      by (rule restart_ok [OF assms(1,3)])
        (use assms(2) [unfolded 1] assms(4) in \<open>auto simp: memory_agrees_def split: if_splits\<close>)
  next
    case 2
    show ?thesis by (rule restart_ok [OF assms(1,6)]) (use assms(2) [unfolded 2] in simp)
  next
    case 3
    show ?thesis by (rule restart_ok [OF assms(1,7)]) (use assms(2) [unfolded 3] in simp)
  qed
qed

lemma trip_crash_blocked:
  assumes "controller_ok sha c" "hex_digests sha" "distinct (map fst evidence)"
    and "trip sha reason evidence now c = (c1, res)" "length (kc_disk c) \<le> n"
    and "restart sha c (take n (kc_disk c1)) = Inr c'" and "is_blocked_state (kc_state c)"
  shows "is_blocked_state (kc_state c')"
proof (cases "blank reason")
  case True
  then have "restart sha c (kc_disk c) = Inr c'" using assms(4-6) by (simp add: trip_def Let_def)
  then show ?thesis using assms(7) by (auto intro: restart_same [OF assms(1)])
next
  case False
  obtain es where es: "kc_disk c = map Line es" "ledger_ok sha es" "memory_agrees es (kc_state c) (kc_latest c)"
    using assms(1) by (rule controller_okE)
  obtain e1 e2 where t: "trip sha reason evidence now c
       = (c\<lparr>kc_state := KS_PERSISTENTLY_BLOCKED, kc_latest := Some e2,
            kc_disk := map Line (es @ [canon e1, canon e2])\<rparr>, Inr e2)"
    and l: "ledger_ok sha (es @ [canon e1, canon e2])" "ledger_ok sha (es @ [canon e1])"
    and r: "ke_resulting_state e1 = KS_TRIPPED" "ke_resulting_state e2 = KS_PERSISTENTLY_BLOCKED"
    by (rule trip_effect [OF assms(1-3) es False])
  have "kc_state c' \<in> {kc_state c, ke_resulting_state (canon e1), ke_resulting_state (canon e2)}"
  proof (rule restart_crashed [OF assms(1) _ es(2,3) _ l(2,1)])
    show "restart sha c (map Line (take n (es @ [canon e1, canon e2]))) = Inr c'"
      using assms(6) unfolding take_map [symmetric] using assms(4) by (auto simp: t)
    show "length es \<le> n" using assms(5) by (simp add: es)
  qed
  then show ?thesis using assms(7) r by (auto simp: is_blocked_state_def)
qed

text \<open>The reset that opens a blocked controller: a proposal with a quorum is submitted and accepted, and
  the process lives on in the new state or on the ledger lines that it had written when it crashed.\<close>

definition reopened_by ::
    "(string \<Rightarrow> string) \<Rightarrow> (nat list \<Rightarrow> nat list \<Rightarrow> string \<Rightarrow> bool) \<Rightarrow> controller \<Rightarrow> reset_proposal
     \<Rightarrow> controller \<Rightarrow> bool" where
  "reopened_by sha ed c r c' \<longleftrightarrow> (\<exists>now c1 e. submit_reset sha ed r now c = (c1, Inr e)
     \<and> (c' = c1 \<or> (\<exists>n. length (kc_disk c) \<le> n \<and> restart sha c (take n (kc_disk c1)) = Inr c')))"

lemma unblocked_by_quorum:
  assumes "ks_step sha ed c c'" "controller_ok sha c" "hex_digests sha"
    and "is_blocked_state (kc_state c)" and "\<not> is_blocked_state (kc_state c')"
  shows "\<exists>r. proposal_ok r \<and> quorum ed c r \<and> reopened_by sha ed c r c'"
  using assms(1)
proof cases
  case (step_trip reason evidence now res)
  then show ?thesis using trip_ok [OF assms(2,3)] assms(4,5) by blast
next
  case (step_reset r now res)
  then have q: "quorum ed c r" using submit_reset_quorum assms(4,5) by blast
  obtain e where "res = Inr e" using reset_accepted [OF assms(2,3) step_reset(1) q assms(4)] by blast
  then show ?thesis using step_reset q unfolding reopened_by_def by blast
next
  case step_restart
  then show ?thesis using assms(4,5) by (auto intro: restart_same [OF assms(2)])
next
  case (step_trip_crash reason evidence now c1 res n)
  then show ?thesis using trip_crash_blocked [OF assms(2,3)] assms(4,5) by blast
next
  case (step_reset_crash r now c1 res n)
  show ?thesis
  proof (cases "c1 = c")
    case True
    then have "restart sha c (kc_disk c) = Inr c'" using step_reset_crash by simp
    then show ?thesis using assms(4,5) by (auto intro: restart_same [OF assms(2)])
  next
    case False
    then have q: "quorum ed c r" using submit_reset_quorum step_reset_crash(1) by blast
    obtain e where "res = Inr e" using reset_accepted [OF assms(2,3) step_reset_crash(1) q assms(4)] by blast
    then show ?thesis using step_reset_crash q unfolding reopened_by_def by blast
  qed
qed

text \<open>C15: A blocked kill switch opens only through an accepted quorum reset.  Over any sequence of trips,
  reset attempts, process restarts and crashes at any point between two ledger writes: if execution
  admission was refused before and is allowed afterwards, then at some moment in between, while
  admission was refused, a reset proposal was submitted and accepted that targets the latest event,
  states a root cause and carries at least one approval and as many as it requires, by distinct
  approvers with distinct keys, all risk or compliance officers, none consumed before, each verified
  through the trust store the process was given; and admission was allowed right after that reset (or
  after the restart from the lines it had written).\<close>

theorem blocked_until_quorum:
  assumes "controller_ok sha c" and "hex_digests sha" and "(ks_step sha ed)\<^sup>*\<^sup>* c c'"
    and "assert_admission_allowed c \<noteq> Inr ()" and "assert_admission_allowed c' = Inr ()"
  shows "\<exists>u r w. (ks_step sha ed)\<^sup>*\<^sup>* c u \<and> assert_admission_allowed u \<noteq> Inr () \<and> kc_trust u = kc_trust c
    \<and> proposal_ok r \<and> quorum ed u r \<and> reopened_by sha ed u r w
    \<and> assert_admission_allowed w = Inr () \<and> (ks_step sha ed)\<^sup>*\<^sup>* w c'"
proof -
  have allowed: "assert_admission_allowed x = Inr () \<longleftrightarrow> \<not> is_blocked_state (kc_state x)" for x
    by (simp add: assert_admission_allowed_def raise_if_def)
  have "controller_ok sha c' \<and> kc_trust c' = kc_trust c \<and> (\<not> is_blocked_state (kc_state c') \<longrightarrow>
    (\<exists>u r w. (ks_step sha ed)\<^sup>*\<^sup>* c u \<and> is_blocked_state (kc_state u) \<and> kc_trust u = kc_trust c
      \<and> proposal_ok r \<and> quorum ed u r \<and> reopened_by sha ed u r w
      \<and> \<not> is_blocked_state (kc_state w) \<and> (ks_step sha ed)\<^sup>*\<^sup>* w c'))"
    using assms(3)
  proof (induction rule: rtranclp_induct)
    case base
    then show ?case using assms(1,4) allowed by blast
  next
    case (step x y)
    then have y: "controller_ok sha y" "kc_trust y = kc_trust c"
      using ks_step_ok [OF step(2) _ assms(2)] by simp_all
    show ?case
    proof (cases "is_blocked_state (kc_state x)")
      case True
      then show ?thesis
        using step y unblocked_by_quorum [OF step(2) _ assms(2) True] by blast
    next
      case False
      then show ?thesis using step y by (meson rtranclp.rtrancl_into_rtrancl)
    qed
  qed
  then show ?thesis using assms(5) unfolding allowed by blast
qed

subsection \<open>A sample life\<close>

abbreviation zero_sha :: "string \<Rightarrow> string" where
  "zero_sha \<equiv> \<lambda>_. zero_digest"

abbreviation any_ed :: "nat list \<Rightarrow> nat list \<Rightarrow> string \<Rightarrow> bool" where
  "any_ed \<equiv> \<lambda>_ _ _. True"

definition sample_controller :: controller where
  "sample_controller = \<lparr>kc_trust = [sample_key], kc_policy = default_policy zero_digest, kc_persistent = True,
     kc_disk = [], kc_state = KS_ACTIVE, kc_latest = None, kc_consumed = {}\<rparr>"

definition sample_approval :: approval where
  "sample_approval = \<lparr>ap_approver_id = ''alice'', ap_key_id = ''k1'', ap_role = RISK_OFFICER,
     ap_authorization_id = ''A1'', ap_approved_at = 15, ap_signature = sample_signature,
     ap_digest = zero_digest\<rparr>"

definition sample_reset :: "time \<Rightarrow> reset_proposal" where
  "sample_reset now = \<lparr>rs_event_id = ''R1'', rs_kill_switch_event_id = event_id_of ''KILL_PERSIST_'' now,
     rs_root_cause = ''feed outage'', rs_approvals = [sample_approval], rs_required = 1, rs_created_at = 0,
     rs_digest = zero_digest\<rparr>"

definition sample_tripped :: controller where
  "sample_tripped = fst (trip zero_sha ''drawdown'' [] 0 sample_controller)"

definition sample_reopened :: controller where
  "sample_reopened = fst (submit_reset zero_sha any_ed (sample_reset 0) 1 sample_tripped)"

lemma zero_sha_hex: "hex_digests zero_sha"
  by (rule zero_digest_hex)

lemma sample_controller_ok: "controller_ok zero_sha sample_controller"
  by (simp add: controller_ok_def sample_controller_def default_policy_def ledger_ok_def memory_agrees_def)

lemma not_blank_texts: "\<not> blank ''drawdown''" "strip ''feed outage'' \<noteq> []"
  by (simp_all add: string_eval)

text \<open>After a trip: blocked, the ledger in agreement, the latest event as named.\<close>

lemma trip_summary:
  assumes "controller_ok sha c" "hex_digests sha" "distinct (map fst evidence)" "\<not> blank reason"
  obtains e where "trip sha reason evidence now c = (fst (trip sha reason evidence now c), Inr e)"
    and "controller_ok sha (fst (trip sha reason evidence now c))"
    and "kc_state (fst (trip sha reason evidence now c)) = KS_PERSISTENTLY_BLOCKED"
    and "kc_latest (fst (trip sha reason evidence now c)) = Some e"
    and "ke_id e = event_id_of ''KILL_PERSIST_'' now"
    and "kc_trust (fst (trip sha reason evidence now c)) = kc_trust c"
    and "kc_consumed (fst (trip sha reason evidence now c)) = kc_consumed c"
    and "kc_disk (fst (trip sha reason evidence now c)) \<noteq> []"
proof -
  obtain es where es: "kc_disk c = map Line es" "ledger_ok sha es" "memory_agrees es (kc_state c) (kc_latest c)"
    using assms(1) by (rule controller_okE)
  obtain e1 e2 where t: "trip sha reason evidence now c
       = (c\<lparr>kc_state := KS_PERSISTENTLY_BLOCKED, kc_latest := Some e2,
            kc_disk := map Line (es @ [canon e1, canon e2])\<rparr>, Inr e2)"
    and i: "ke_id e2 = event_id_of ''KILL_PERSIST_'' now"
    by (rule trip_effect [OF assms(1-3) es assms(4)])
  show thesis
    by (rule that [of e2]) (use trip_ok [OF assms(1-3) t] i in \<open>simp_all add: t\<close>)
qed

lemma sample_tripped:
  "controller_ok zero_sha sample_tripped" "is_blocked_state (kc_state sample_tripped)"
  "quorum any_ed sample_tripped (sample_reset 0)" "kc_disk sample_tripped \<noteq> []"
proof -
  obtain e where e: "controller_ok zero_sha sample_tripped"
      "kc_state sample_tripped = KS_PERSISTENTLY_BLOCKED" "kc_latest sample_tripped = Some e"
      "ke_id e = event_id_of ''KILL_PERSIST_'' 0" "kc_trust sample_tripped = [sample_key]"
      "kc_consumed sample_tripped = {}" "kc_disk sample_tripped \<noteq> []"
    by (rule trip_summary [OF sample_controller_ok zero_sha_hex _ not_blank_texts(1), of "[]" 0])
      (simp_all add: sample_tripped_def [symmetric], simp add: sample_controller_def)
  have "approval_counts any_ed sample_tripped sample_approval"
    by (simp add: approval_counts_def e verify_signature_resolved sample_approval_def sample_key_signs)
      (simp add: sample_key_def was_valid_at_def)
  then show "quorum any_ed sample_tripped (sample_reset 0)"
    using not_blank_texts(2) by (simp add: quorum_def sample_reset_def e)
  show "controller_ok zero_sha sample_tripped" "kc_disk sample_tripped \<noteq> []" using e by simp_all
  show "is_blocked_state (kc_state sample_tripped)" by (simp add: e is_blocked_state_def)
qed

lemma reset_summary:
  assumes "controller_ok sha c" "hex_digests sha" "quorum ed c r" "is_blocked_state (kc_state c)"
  obtains e where "submit_reset sha ed r now c = (fst (submit_reset sha ed r now c), Inr e)"
    and "controller_ok sha (fst (submit_reset sha ed r now c))"
    and "kc_state (fst (submit_reset sha ed r now c)) = KS_ACTIVE"
    and "kc_trust (fst (submit_reset sha ed r now c)) = kc_trust c"
    and "kc_consumed (fst (submit_reset sha ed r now c)) = kc_consumed c \<union> ap_digest ` set (rs_approvals r)"
    and "ke_resulting_state e = KS_ACTIVE"
proof -
  obtain es where es: "kc_disk c = map Line es" "ledger_ok sha es" "memory_agrees es (kc_state c) (kc_latest c)"
    using assms(1) by (rule controller_okE)
  obtain e1 e2 where t: "submit_reset sha ed r now c
       = (c\<lparr>kc_state := KS_ACTIVE, kc_latest := Some e2, kc_disk := map Line (es @ [canon e1, canon e2]),
            kc_consumed := kc_consumed c \<union> ap_digest ` set (rs_approvals r)\<rparr>, Inr e2)"
    and "ke_resulting_state e2 = KS_ACTIVE"
    by (rule reset_effect [OF assms(1,2) es assms(3,4)])
  then show thesis by (intro that [of e2]) (use reset_ok [OF assms(1,2) t] in \<open>simp_all add: t\<close>)
qed

lemma sample_reset_ok: "proposal_ok (sample_reset now)"
  using not_blank_texts(2) by (simp add: proposal_ok_def sample_reset_def)

theorem blocked_until_quorum_witness:
  "\<exists>u r w. (ks_step zero_sha any_ed)\<^sup>*\<^sup>* sample_tripped u \<and> assert_admission_allowed u \<noteq> Inr ()
    \<and> kc_trust u = kc_trust sample_tripped \<and> proposal_ok r \<and> quorum any_ed u r
    \<and> reopened_by zero_sha any_ed u r w \<and> assert_admission_allowed w = Inr ()
    \<and> (ks_step zero_sha any_ed)\<^sup>*\<^sup>* w sample_reopened"
proof (rule blocked_until_quorum)
  show "controller_ok zero_sha sample_tripped" "hex_digests zero_sha"
    by (simp_all only: sample_tripped zero_sha_hex)
  show "assert_admission_allowed sample_tripped \<noteq> Inr ()"
    by (simp add: assert_admission_allowed_def sample_tripped)
  obtain e where "submit_reset zero_sha any_ed (sample_reset 0) 1 sample_tripped = (sample_reopened, Inr e)"
      and "kc_state sample_reopened = KS_ACTIVE"
    by (rule reset_summary [OF sample_tripped(1) zero_sha_hex sample_tripped(3,2), of 1])
      (simp_all add: sample_reopened_def)
  then show "(ks_step zero_sha any_ed)\<^sup>*\<^sup>* sample_tripped sample_reopened"
      and "assert_admission_allowed sample_reopened = Inr ()"
    using sample_reset_ok by (auto intro: step_reset simp: assert_admission_allowed_def is_blocked_state_def)
qed

subsection \<open>Trips and resets, branch by branch\<close>

text \<open>A trip always blocks.  In whatever state the controller is (also while a reset is pending),
  \<open>trip\<close> with a non-blank reason returns the persisted event, leaves the controller
  \<open>PERSISTENTLY_BLOCKED\<close> with that event as the latest one, and appends exactly two lines to the
  ledger, the transition into \<open>TRIPPED\<close> and the one into \<open>PERSISTENTLY_BLOCKED\<close>; the illegal
  transition error is never raised.  With a blank reason it raises and changes nothing.\<close>

theorem trip_always_blocks:
  assumes "controller_ok sha c" and "hex_digests sha" and "distinct (map fst evidence)"
  shows "if blank reason then trip sha reason evidence now c = (c, Inl EmptyReason)
    else \<exists>e1 e2. trip sha reason evidence now c =
        (c\<lparr>kc_state := KS_PERSISTENTLY_BLOCKED, kc_latest := Some e2,
           kc_disk := kc_disk c @ [Line (canon e1), Line (canon e2)]\<rparr>, Inr e2)
      \<and> ke_previous_state e1 = kc_state c \<and> ke_resulting_state e1 = KS_TRIPPED
      \<and> ke_previous_digest e1 = latest_digest c \<and> ke_reason e1 = strip reason
      \<and> ke_previous_state e2 = KS_TRIPPED \<and> ke_resulting_state e2 = KS_PERSISTENTLY_BLOCKED
      \<and> ke_previous_digest e2 = ke_digest e1"
proof (cases "blank reason")
  case True
  then show ?thesis by (simp add: trip_def Let_def)
next
  case False
  obtain es where es: "kc_disk c = map Line es" "ledger_ok sha es" "memory_agrees es (kc_state c) (kc_latest c)"
    using assms(1) by (rule controller_okE)
  obtain e1 e2 where t: "trip sha reason evidence now c
       = (c\<lparr>kc_state := KS_PERSISTENTLY_BLOCKED, kc_latest := Some e2,
            kc_disk := map Line (es @ [canon e1, canon e2])\<rparr>, Inr e2)"
    and l: "ledger_ok sha (es @ [canon e1, canon e2])" and "ke_previous_state e1 = kc_state c"
      "ke_resulting_state e1 = KS_TRIPPED" "ke_previous_state e2 = KS_TRIPPED"
      "ke_resulting_state e2 = KS_PERSISTENTLY_BLOCKED" "ke_reason e1 = strip reason"
    by (rule trip_effect [OF assms(1-3) es False])
  moreover have "ke_previous_digest e1 = latest_digest c" "ke_previous_digest e2 = ke_digest e1"
  proof -
    have "sealed sha (canon e1)" and "chained sha event_body ke_previous_digest zero_digest (es @ [canon e1, canon e2])"
      using l by (simp_all add: ledger_ok_def)
    then show "ke_previous_digest e1 = latest_digest c" "ke_previous_digest e2 = ke_digest e1"
      using latest_digest_head [OF es(2,3)] by (simp_all add: chained_append sealed_def)
  qed
  ultimately show ?thesis using False es(1) by auto
qed

theorem trip_always_blocks_witness:
  "\<exists>e1 e2. trip zero_sha ''drawdown'' [] 0 sample_controller =
     (sample_controller\<lparr>kc_state := KS_PERSISTENTLY_BLOCKED, kc_latest := Some e2,
        kc_disk := [Line (canon e1), Line (canon e2)]\<rparr>, Inr e2)"
proof -
  have "distinct (map fst ([] :: (string \<times> string) list))" by simp
  from trip_always_blocks [OF sample_controller_ok zero_sha_hex this, of "''drawdown''" 0]
  show ?thesis using not_blank_texts(1) by (auto simp: sample_controller_def)
qed

text \<open>C16: A reset succeeds exactly on a quorum.  \<open>submit_reset\<close> returns an event if and only if the
  controller is blocked and the proposal is a quorum for its latest event; then the controller is
  \<open>ACTIVE\<close>, its ledger has two more lines, and the digests of the approvals are consumed.  In every
  other case it raises and leaves the controller and the ledger as they were.\<close>

theorem reset_exactly_on_quorum:
  assumes "controller_ok sha c" and "hex_digests sha"
  shows "if is_blocked_state (kc_state c) \<and> quorum ed c r
    then \<exists>c' e. submit_reset sha ed r now c = (c', Inr e) \<and> kc_state c' = KS_ACTIVE
      \<and> kc_latest c' = Some e \<and> ke_resulting_state e = KS_ACTIVE
      \<and> length (kc_disk c') = length (kc_disk c) + 2 \<and> take (length (kc_disk c)) (kc_disk c') = kc_disk c
      \<and> kc_consumed c' = kc_consumed c \<union> ap_digest ` set (rs_approvals r)
    else \<exists>err. submit_reset sha ed r now c = (c, Inl err)"
proof (cases "is_blocked_state (kc_state c) \<and> quorum ed c r")
  case True
  then have q: "quorum ed c r" "is_blocked_state (kc_state c)" by simp_all
  obtain es where es: "kc_disk c = map Line es" "ledger_ok sha es" "memory_agrees es (kc_state c) (kc_latest c)"
    using assms(1) by (rule controller_okE)
  obtain e1 e2 where t: "submit_reset sha ed r now c
       = (c\<lparr>kc_state := KS_ACTIVE, kc_latest := Some e2, kc_disk := map Line (es @ [canon e1, canon e2]),
            kc_consumed := kc_consumed c \<union> ap_digest ` set (rs_approvals r)\<rparr>, Inr e2)"
    and "ke_resulting_state e2 = KS_ACTIVE"
    by (rule reset_effect [OF assms es q])
  then show ?thesis using True by (simp add: es)
next
  case False
  obtain c' res where t: "submit_reset sha ed r now c = (c', res)" by (cases "submit_reset sha ed r now c")
  with submit_reset_quorum [OF t] False have "c' = c" "\<nexists>e. res = Inr e" by blast+
  then show ?thesis using False t by (cases res) auto
qed

theorem reset_exactly_on_quorum_witness:
  "\<exists>c' e. submit_reset zero_sha any_ed (sample_reset 0) 1 sample_tripped = (c', Inr e) \<and> kc_state c' = KS_ACTIVE"
  using reset_exactly_on_quorum [OF sample_tripped(1) zero_sha_hex, of any_ed "sample_reset 0" 1]
  by (simp add: sample_tripped) blast

subsection \<open>Recovery from the ledger\<close>

text \<open>C17: Restarting restores the state.  A process that starts on the ledger file of a running
  controller never refuses it and comes up in the state of that controller, with its latest event
  (mappings in key order); cut after any number of complete lines, the file is accepted too and the
  new process comes up in the resulting state of the last line left, \<open>ACTIVE\<close> when none is left.  A
  file with a line that is not an event is refused.  (The contract asks for more: a boot on
  \<open>TRIPPED\<close> should come up \<open>PERSISTENTLY_BLOCKED\<close>; the code comes up \<open>TRIPPED\<close>, which refuses
  admission as well, see \<open>boot_between_trip_lines\<close>.)\<close>

theorem restart_restores_state:
  assumes "controller_ok sha c"
  shows "(\<exists>c'. restart sha c (kc_disk c) = Inr c' \<and> kc_state c' = kc_state c
      \<and> kc_latest c' = map_option canon (kc_latest c) \<and> kc_disk c' = kc_disk c)
    \<and> (\<exists>c'. restart sha c (take n (kc_disk c)) = Inr c'
      \<and> (if n = 0 \<or> kc_disk c = [] then kc_state c' = KS_ACTIVE \<and> kc_latest c' = None
         else \<exists>e. last (take n (kc_disk c)) = Line e \<and> kc_latest c' = Some e
           \<and> kc_state c' = ke_resulting_state e))
    \<and> restart sha c (kc_disk c @ Garbled # rest) = Inl RecoveryFailed"
proof (intro conjI)
  show "\<exists>c'. restart sha c (kc_disk c) = Inr c' \<and> kc_state c' = kc_state c
      \<and> kc_latest c' = map_option canon (kc_latest c) \<and> kc_disk c' = kc_disk c"
    using restart_same [OF assms] by metis
  obtain es where es: "kc_disk c = map Line es" "ledger_ok sha es" using assms by (rule controller_okE)
  let ?fs = "take n es"
  obtain c' where c': "restart sha c (map Line ?fs) = Inr c'"
      "kc_state c' = (if ?fs = [] then KS_ACTIVE else ke_resulting_state (last ?fs))"
      "kc_latest c' = (if ?fs = [] then None else Some (last ?fs))"
    by (rule restart_ok [OF assms ledger_ok_take [OF es(2), of n]]) blast
  have "last (take n (kc_disk c)) = Line (last ?fs)" if "?fs \<noteq> []"
    using that unfolding es take_map by (rule last_map)
  moreover have "?fs = [] \<longleftrightarrow> n = 0 \<or> kc_disk c = []" by (simp add: es)
  ultimately show "\<exists>c'. restart sha c (take n (kc_disk c)) = Inr c'
      \<and> (if n = 0 \<or> kc_disk c = [] then kc_state c' = KS_ACTIVE \<and> kc_latest c' = None
         else \<exists>e. last (take n (kc_disk c)) = Line e \<and> kc_latest c' = Some e
           \<and> kc_state c' = ke_resulting_state e)"
    using c' by (intro exI [of _ c']) (auto simp: es take_map)
  have "recover_lines sha i d s l (map Line fs @ Garbled # rest) = Inl RecoveryFailed" for i d s l fs
    by (induction fs arbitrary: i d s l) (auto split: sum.splits)
  then show "restart sha c (kc_disk c @ Garbled # rest) = Inl RecoveryFailed"
    by (simp add: restart_def new_controller_def es)
qed

theorem restart_restores_state_witness:
  "\<exists>c'. restart zero_sha sample_tripped (kc_disk sample_tripped) = Inr c'
     \<and> is_blocked_state (kc_state c')"
  using restart_restores_state [OF sample_tripped(1), THEN conjunct1] sample_tripped(2) by auto

text \<open>After a crash between the two ledger lines of a trip the last line says \<open>TRIPPED\<close>; the next
  process comes up \<open>TRIPPED\<close>, where the contract document promises \<open>PERSISTENTLY_BLOCKED\<close>.  Admission is
  refused in both states.\<close>

theorem boot_between_trip_lines:
  assumes "controller_ok sha c" "hex_digests sha" "distinct (map fst evidence)" "\<not> blank reason"
  shows "\<exists>c'. restart sha c (take (length (kc_disk c) + 1) (kc_disk (fst (trip sha reason evidence now c)))) = Inr c'
    \<and> kc_state c' = KS_TRIPPED \<and> assert_admission_allowed c' \<noteq> Inr ()"
proof -
  obtain es where es: "kc_disk c = map Line es" "ledger_ok sha es" "memory_agrees es (kc_state c) (kc_latest c)"
    using assms(1) by (rule controller_okE)
  obtain e1 e2 where t: "trip sha reason evidence now c
       = (c\<lparr>kc_state := KS_PERSISTENTLY_BLOCKED, kc_latest := Some e2,
            kc_disk := map Line (es @ [canon e1, canon e2])\<rparr>, Inr e2)"
    and l: "ledger_ok sha (es @ [canon e1])" and r: "ke_resulting_state e1 = KS_TRIPPED"
    by (rule trip_effect [OF assms(1-3) es assms(4)])
  have cut: "take (length (kc_disk c) + 1) (kc_disk (fst (trip sha reason evidence now c))) = map Line (es @ [canon e1])"
    by (simp add: t es)
  obtain c' where "restart sha c (map Line (es @ [canon e1])) = Inr c'" "kc_state c' = KS_TRIPPED"
    by (rule restart_ok [OF assms(1) l]) (use r in simp)
  then show ?thesis unfolding cut by (auto simp: assert_admission_allowed_def is_blocked_state_def)
qed

theorem boot_between_trip_lines_witness:
  "\<exists>c'. restart zero_sha sample_controller (take 1 (kc_disk sample_tripped)) = Inr c' \<and> kc_state c' = KS_TRIPPED"
  using boot_between_trip_lines [OF sample_controller_ok zero_sha_hex _ not_blank_texts(1), of "[]" 0]
  by (auto simp: sample_tripped_def sample_controller_def)

text \<open>What an accepted file looks like.\<close>

definition file_ok :: "ledger_line list \<Rightarrow> bool" where
  "file_ok ls \<longleftrightarrow> (\<forall>l \<in> set ls. \<forall>e. l = Line e \<longrightarrow> evidence_ok e)"

lemma seal_body [simp]: "event_body (seal sha e) = event_body e" "ke_previous_digest (seal sha e) = ke_previous_digest e"
  "event_tree (seal sha e) = event_tree e" "evidence_ok (seal sha e) = evidence_ok e"
  by (simp_all add: seal_def event_body_def event_tree_def evidence_ok_def)

lemma recover_lines_Inr:
  "recover_lines sha i d s latest ls = Inr (s', latest') \<Longrightarrow> 0 < i \<or> d = link \<Longrightarrow>
    \<exists>es. ls = map Line es \<and> (0 < i \<longrightarrow> chained sha event_body ke_previous_digest d es)
      \<and> (es \<noteq> [] \<longrightarrow> chained sha event_body ke_previous_digest (ke_previous_digest (hd es)) es
          \<and> latest' = Some (seal sha (last es)))"
proof (induction sha i d s latest ls rule: recover_lines.induct)
  case (3 sha i d s latest e ls)
  then have v: "model_validate sha e = Inr (seal sha e)" "\<not> (ke_previous_digest e \<noteq> d \<and> 0 < i)"
      "recover_lines sha (Suc i) (sha (event_body e)) (ke_resulting_state e) (Some (seal sha e)) ls
        = Inr (s', latest')"
    by (auto simp: model_validate_eq seal_def split: if_splits)
  obtain es where es: "ls = map Line es" "chained sha event_body ke_previous_digest (sha (event_body e)) es"
      "es \<noteq> [] \<longrightarrow> latest' = Some (seal sha (last es))"
    using "3.IH" [OF v(1)] v by (auto simp: seal_def)
  have "es = [] \<longrightarrow> latest' = Some (seal sha e)" using v(3) es(1) by auto
  then show ?case using es v(2) by (intro exI [of _ "e # es"]) auto
qed auto

lemma new_controller_file:
  assumes "new_controller sha trust policy True disk s0 = Inr c" and "disk \<noteq> []"
  obtains es where "disk = map Line es" "es \<noteq> []" "latest_digest c = sha (event_body (last es))"
    "chained sha event_body ke_previous_digest (ke_previous_digest (hd es)) es"
proof -
  obtain s latest where r: "recover_lines sha 0 zero_digest KS_ACTIVE None disk = Inr (s, latest)"
      and c: "kc_latest c = latest"
    using assms by (auto simp: new_controller_def Let_def rbind_Inr_iff)
  from recover_lines_Inr [OF r, of zero_digest] obtain es where es: "disk = map Line es"
      "es \<noteq> [] \<longrightarrow> chained sha event_body ke_previous_digest (ke_previous_digest (hd es)) es
          \<and> latest = Some (seal sha (last es))"
    by auto
  moreover from this have "es \<noteq> []" using assms(2) by auto
  moreover from calculation have "latest_digest c = sha (event_body (last es))"
    by (simp add: latest_digest_def c) (simp add: seal_def)
  ultimately show thesis using that by blast
qed

text \<open>C18: The digest of the last event determines the lines behind it.  Two ledger files that recovery
  accepts and whose recovered latest events carry the same digest record the same events, line for
  line from the end and field for field of the digested content, as far back as the shorter file
  reaches (provided SHA-256 does not collide on their texts): whoever knows the digest of the last
  event detects every altered, exchanged, inserted or replaced line, and files of the same length are
  the same throughout.  A file that is cut at its front is not detected
  (\<open>front_truncation_accepted\<close>).\<close>

theorem ledger_head_determines_history:
  assumes "new_controller sha trust policy True disk s0 = Inr c"
    and "new_controller sha trust' policy' True disk' s0' = Inr c'"
    and "latest_digest c = latest_digest c'" and "disk \<noteq> []" and "disk' \<noteq> []"
    and "file_ok disk" and "file_ok disk'"
    and "\<forall>e e'. Line e \<in> set disk \<longrightarrow> Line e' \<in> set disk' \<longrightarrow> separates sha (event_body e) (event_body e')"
    and "n = min (length disk) (length disk')"
  shows "list_all2 (\<lambda>l l'. \<exists>e e'. l = Line e \<and> l' = Line e' \<and> event_tree e = event_tree e')
    (drop (length disk - n) disk) (drop (length disk' - n) disk')"
proof -
  obtain es where es: "disk = map Line es" "es \<noteq> []" "latest_digest c = sha (event_body (last es))"
      "chained sha event_body ke_previous_digest (ke_previous_digest (hd es)) es"
    by (rule new_controller_file [OF assms(1,4)])
  obtain fs where fs: "disk' = map Line fs" "fs \<noteq> []" "latest_digest c' = sha (event_body (last fs))"
      "chained sha event_body ke_previous_digest (ke_previous_digest (hd fs)) fs"
    by (rule new_controller_file [OF assms(2,5)])
  have ok: "\<forall>e \<in> set es. evidence_ok e" "\<forall>e \<in> set fs. evidence_ok e"
    using assms(6,7) by (auto simp: es fs file_ok_def)
  have n: "n = min (length es) (length fs)" using assms(9) by (simp add: es fs)
  let ?es = "drop (length es - n) es" and ?fs = "drop (length fs - n) fs"
  have sub: "set ?es \<subseteq> set es" "set ?fs \<subseteq> set fs" by (rule set_drop_subset)+
  have "map event_body ?es = map event_body ?fs"
    by (rule ks_chain.head_determines_tail [OF es(4) fs(4) _ es(2) fs(2) ok _ n])
      (use assms(3,8) es fs in \<open>auto simp: chain_head_def\<close>)
  then have "list_all2 (\<lambda>e e'. event_body e = event_body e') ?es ?fs"
    by (simp add: list_all2_conv_all_nth list_eq_iff_nth_eq)
  then have "list_all2 (\<lambda>e e'. event_tree e = event_tree e') ?es ?fs"
    by (rule list.rel_mono_strong) (use ok sub event_body_inject in blast)
  then show ?thesis by (simp add: es fs drop_map list_all2_map1 list_all2_map2)
qed

definition sample_event :: kill_switch_event where
  "sample_event = \<lparr>ke_id = ''KILL_TRIP_0'', ke_previous_state = KS_ACTIVE, ke_resulting_state = KS_TRIPPED,
     ke_reason = ''r'', ke_evidence = [], ke_policy_version = ''v1.0.0'', ke_policy_digest = zero_digest,
     ke_previous_digest = zero_digest, ke_timestamp = 0, ke_digest = zero_digest\<rparr>"

lemma sample_event_simps [simp]:
  "ke_policy_digest sample_event = zero_digest" "ke_previous_digest sample_event = zero_digest"
  "ke_resulting_state sample_event = KS_TRIPPED" "evidence_ok sample_event"
  by (simp_all add: sample_event_def evidence_ok_def)

theorem ledger_head_determines_history_witness:
  "list_all2 (\<lambda>l l'. \<exists>e e'. l = Line e \<and> l' = Line e' \<and> event_tree e = event_tree e')
     [Line sample_event] [Line (sample_event\<lparr>ke_digest := ''forged''\<rparr>)]"
proof -
  let ?e' = "sample_event\<lparr>ke_digest := ''forged''\<rparr>" and ?p = "default_policy zero_digest"
  have body: "event_body ?e' = event_body sample_event" "evidence_ok ?e'"
    by (simp_all add: event_body_def event_tree_def evidence_ok_def sample_event_def)
  have load: "new_controller zero_sha [] ?p True [Line e] KS_ACTIVE =
      Inr \<lparr>kc_trust = [], kc_policy = ?p, kc_persistent = True, kc_disk = [Line e], kc_state = KS_TRIPPED,
        kc_latest = Some (seal zero_sha e), kc_consumed = {}\<rparr>" if "e = sample_event \<or> e = ?e'" for e
    using that by (auto simp: new_controller_def Let_def model_validate_eq seal_def)
  show ?thesis
    using ledger_head_determines_history [OF load [of sample_event] load [of ?e'], of 1]
    by (simp add: latest_digest_def seal_def body separates_def file_ok_def)
qed

text \<open>The link of the first line is compared with nothing: without its first lines the file of a
  controller is still accepted, with the same state and the same digest of the latest event.\<close>

theorem front_truncation_accepted:
  assumes "controller_ok sha c" and "k < length (kc_disk c)"
  shows "\<exists>c'. restart sha c (drop k (kc_disk c)) = Inr c' \<and> kc_state c' = kc_state c
    \<and> latest_digest c' = latest_digest c"
proof -
  obtain es where es: "kc_disk c = map Line es" "ledger_ok sha es" "memory_agrees es (kc_state c) (kc_latest c)"
    using assms(1) by (rule controller_okE)
  have "k < length es" using assms(2) by (simp add: es)
  then obtain f fs where f: "drop k es = f # fs" by (cases "drop k es") auto
  then have last: "last es = last (f # fs)" "es \<noteq> []" using \<open>k < length es\<close> by (metis last_drop, auto)
  have "ledger_ok sha (take k es @ f # fs)" using es(2) f by (metis append_take_drop_id)
  then have ok: "model_validate sha f = Inr f" "ke_digest f = sha (event_body f)" "\<forall>e \<in> set fs. sealed sha e"
      "chained sha event_body ke_previous_digest (sha (event_body f)) fs" "sealed sha (last (f # fs))"
    by (auto simp: ledger_ok_def chained_append model_validate_sealed sealed_def)
  have "recover_lines sha 0 zero_digest KS_ACTIVE None (map Line (f # fs))
      = Inr (ke_resulting_state (last (f # fs)), Some (last (f # fs)))"
    by (simp add: ok recover_lines_ok)
  moreover have "kc_state c = ke_resulting_state (last (f # fs))" "latest_digest c = ke_digest (last (f # fs))"
    using es(3) latest_digest_head [OF es(2,3)] ok(5) last
    by (simp_all add: memory_agrees_def chain_head_def sealed_def)
  ultimately show ?thesis
    by (simp add: restart_def new_controller_def Let_def es drop_map f latest_digest_def)
qed

theorem front_truncation_accepted_witness:
  "\<exists>c'. restart zero_sha sample_tripped (drop 1 (kc_disk sample_tripped)) = Inr c'
     \<and> kc_state c' = kc_state sample_tripped"
proof -
  have "1 < length (kc_disk sample_tripped)"
    using trip_always_blocks [OF sample_controller_ok zero_sha_hex, of "[]" "''drawdown''" 0] not_blank_texts(1)
    by (auto simp: sample_tripped_def)
  then show ?thesis using front_truncation_accepted [OF sample_tripped(1)] by blast
qed

text \<open>The end of the ledger is not protected.  The digest of a line is recomputed on reading, and
  the first line's link is not compared, so whoever can write the file can unblock the switch without
  a signature: replacing the resulting state in the last line by \<open>ACTIVE\<close> is accepted by recovery and
  admission is allowed; so is deleting all lines, or all but one line with any resulting state.\<close>

theorem forged_last_line_unblocks:
  assumes "controller_ok sha c" and "kc_disk c = ls @ [Line e]"
  shows "(\<exists>c'. restart sha c (ls @ [Line (e\<lparr>ke_resulting_state := KS_ACTIVE\<rparr>)]) = Inr c'
      \<and> assert_admission_allowed c' = Inr ())
    \<and> (\<exists>c'. restart sha c [] = Inr c' \<and> assert_admission_allowed c' = Inr ())
    \<and> (\<exists>c'. restart sha c [Line (e\<lparr>ke_resulting_state := KS_ACTIVE\<rparr>)] = Inr c'
      \<and> assert_admission_allowed c' = Inr ())"
proof (intro conjI)
  let ?e' = "e\<lparr>ke_resulting_state := KS_ACTIVE\<rparr>"
  obtain es where es: "kc_disk c = map Line es" "ledger_ok sha es" using assms(1) by (rule controller_okE)
  then obtain fs where fs: "es = fs @ [e]" "ls = map Line fs"
    using assms(2) by (auto simp: map_eq_append_conv eq_commute [of _ "map Line es"])
  have pd: "valid_sha256 (rp_digest (kc_policy c))" using assms(1) by (simp add: controller_ok_def)
  have e: "valid_sha256 (ke_policy_digest e)" "valid_sha256 (ke_previous_digest e)"
      and chain: "chained sha event_body ke_previous_digest zero_digest fs" "\<forall>f \<in> set fs. sealed sha f"
      and link: "ke_previous_digest e = chain_head sha event_body zero_digest fs"
    using es(2) by (auto simp: fs ledger_ok_def sealed_def)
  have v: "model_validate sha ?e' = Inr (seal sha ?e')" by (simp add: model_validate_eq e)
  have st: "ke_resulting_state (seal sha ?e') = KS_ACTIVE" by (simp add: seal_def)
  have "recover_lines sha i d s l (map Line fs @ [Line ?e'])
      = Inr (KS_ACTIVE, Some (seal sha ?e'))"
    if "chained sha event_body ke_previous_digest d fs"
      "ke_previous_digest e = chain_head sha event_body d fs \<or> i = 0 \<and> fs = []" for i d s l
    using that chain(2)
  proof (induction fs arbitrary: i d s l)
    case Nil
    then show ?case by (auto simp: v st)
  next
    case (Cons f fs)
    have "model_validate sha f = Inr f" "ke_digest f = sha (event_body f)"
      using Cons.prems(3) model_validate_sealed by (simp_all add: sealed_def)
    then show ?case using Cons by (simp add: chain_head_Cons)
  qed
  from this [OF chain(1)] link show "\<exists>c'. restart sha c (ls @ [Line ?e']) = Inr c'
      \<and> assert_admission_allowed c' = Inr ()"
    by (simp add: restart_def new_controller_def fs assert_admission_allowed_def is_blocked_state_def)
  show "\<exists>c'. restart sha c [] = Inr c' \<and> assert_admission_allowed c' = Inr ()"
    by (simp add: restart_def new_controller_def assert_admission_allowed_def is_blocked_state_def)
  show "\<exists>c'. restart sha c [Line ?e'] = Inr c' \<and> assert_admission_allowed c' = Inr ()"
    by (simp add: restart_def new_controller_def v st assert_admission_allowed_def is_blocked_state_def)
qed

theorem forged_last_line_unblocks_witness:
  "\<exists>e c'. restart zero_sha sample_tripped
     (butlast (kc_disk sample_tripped) @ [Line (e\<lparr>ke_resulting_state := KS_ACTIVE\<rparr>)]) = Inr c'
     \<and> Line e = last (kc_disk sample_tripped) \<and> assert_admission_allowed c' = Inr ()"
proof -
  obtain es where es: "kc_disk sample_tripped = map Line es" using sample_tripped(1) by (rule controller_okE)
  then have ne: "es \<noteq> []" using sample_tripped(4) by auto
  have "kc_disk sample_tripped = butlast (kc_disk sample_tripped) @ [Line (last es)]"
    using ne by (simp add: es) (metis append_butlast_last_id list.map_disc_iff last_map)
  from forged_last_line_unblocks [OF sample_tripped(1) this] show ?thesis
    using ne by (auto simp: es last_map)
qed

subsection \<open>Replayed approvals\<close>

text \<open>The proposal that uses the same approvals for a later trip, each carrying another digest.\<close>

definition retarget :: "string \<Rightarrow> (string \<Rightarrow> string) \<Rightarrow> reset_proposal \<Rightarrow> reset_proposal" where
  "retarget event_id redigest r = r\<lparr>rs_kill_switch_event_id := event_id,
     rs_approvals := map (\<lambda>a. a\<lparr>ap_digest := redigest (ap_digest a)\<rparr>) (rs_approvals r)\<rparr>"

lemma approval_counts_redigest:
  "approval_counts ed c a \<Longrightarrow> kc_trust c' = kc_trust c \<Longrightarrow> dg \<notin> kc_consumed c'
    \<Longrightarrow> approval_counts ed c' (a\<lparr>ap_digest := dg\<rparr>)"
  by (simp add: approval_counts_def approval_text_def)

lemma quorum_retarget:
  assumes "quorum ed c r" and "kc_trust c' = kc_trust c" and "kc_latest c' = Some e"
    and "\<forall>a \<in> set (rs_approvals r). redigest (ap_digest a) \<notin> kc_consumed c'"
  shows "quorum ed c' (retarget (ke_id e) redigest r)"
  using assms approval_counts_redigest [of ed c _ c']
  by (auto simp: quorum_def retarget_def comp_def list_all_iff)

text \<open>C19: Replay protection covers the unsigned digest, in one process.  After a quorum reset and a new
  trip, the same approvals presented again verbatim are rejected as replayed.  But the signatures
  cover neither the event being reset nor the approval digest: with the digest field replaced by any
  unused value the very same signatures clear the new trip, and after a restart of the process, which
  forgets the consumed digests, they clear it verbatim.\<close>

theorem approvals_can_be_replayed:
  assumes "controller_ok sha c" and "hex_digests sha" and "is_blocked_state (kc_state c)"
    and "quorum ed c r" and "rs_approvals r \<noteq> []" and "\<not> blank reason"
    and c2: "c2 = fst (trip sha reason [] now2 (fst (submit_reset sha ed r now1 c)))"
    and fresh: "\<forall>a \<in> set (rs_approvals r). redigest (ap_digest a) \<notin> kc_consumed c2"
  shows "\<exists>i. snd (submit_reset sha ed (retarget i (\<lambda>d. d) r) now3 c2)
        = Inl (ReplayedApproval (ap_digest (hd (rs_approvals r))))
      \<and> (\<exists>e. snd (submit_reset sha ed (retarget i redigest r) now3 c2) = Inr e
           \<and> ke_resulting_state e = KS_ACTIVE)
      \<and> (\<exists>c3 e. restart sha c2 (kc_disk c2) = Inr c3
           \<and> snd (submit_reset sha ed (retarget i (\<lambda>d. d) r) now3 c3) = Inr e
           \<and> ke_resulting_state e = KS_ACTIVE)"
proof -
  let ?c1 = "fst (submit_reset sha ed r now1 c)"
  have c1: "controller_ok sha ?c1" "kc_trust ?c1 = kc_trust c"
      "kc_consumed ?c1 = kc_consumed c \<union> ap_digest ` set (rs_approvals r)"
    by (rule reset_summary [OF assms(1,2,4,3), of now1]; simp)+
  obtain e where e: "controller_ok sha c2" "kc_state c2 = KS_PERSISTENTLY_BLOCKED" "kc_latest c2 = Some e"
      "kc_trust c2 = kc_trust c" "kc_consumed c2 = kc_consumed c \<union> ap_digest ` set (rs_approvals r)"
    unfolding c2 by (rule trip_summary [OF c1(1) assms(2) _ assms(6), of "[]" now2]) (simp_all add: c1)
  have blocked: "is_blocked_state (kc_state c2)" by (simp add: e is_blocked_state_def)
  obtain a as where a: "rs_approvals r = a # as" using assms(5) by (cases "rs_approvals r") auto
  have used: "ap_digest a \<in> kc_consumed c2" by (simp add: e a)
  have "strip (rs_root_cause r) \<noteq> []" "rs_required r \<le> int (length (rs_approvals r))"
    using assms(4) by (simp_all add: quorum_def)
  then have verbatim: "snd (submit_reset sha ed (retarget (ke_id e) (\<lambda>d. d) r) now3 c2)
      = Inl (ReplayedApproval (ap_digest (hd (rs_approvals r))))"
    using blocked used by (simp add: submit_reset_def e(3) retarget_def a)
  have q: "quorum ed c2 (retarget (ke_id e) redigest r)"
    using quorum_retarget [OF assms(4) e(4,3) fresh] .
  have changed: "\<exists>e'. snd (submit_reset sha ed (retarget (ke_id e) redigest r) now3 c2) = Inr e'
      \<and> ke_resulting_state e' = KS_ACTIVE"
    by (rule reset_summary [OF e(1) assms(2) q blocked, of now3]) (metis snd_conv)
  obtain c3 where c3: "restart sha c2 (kc_disk c2) = Inr c3" "controller_ok sha c3" "kc_state c3 = kc_state c2"
      "kc_latest c3 = map_option canon (kc_latest c2)" "kc_trust c3 = kc_trust c2" "kc_consumed c3 = {}"
    by (rule restart_same [OF e(1)]) blast
  have "quorum ed c3 (retarget (ke_id (canon e)) (\<lambda>d. d) r)"
    by (rule quorum_retarget [OF assms(4)]) (simp_all add: c3 e)
  then have q3: "quorum ed c3 (retarget (ke_id e) (\<lambda>d. d) r)" by simp
  have "is_blocked_state (kc_state c3)" using c3 blocked by simp
  from reset_summary [OF c3(2) assms(2) q3 this, of now3]
  have "\<exists>e'. snd (submit_reset sha ed (retarget (ke_id e) (\<lambda>d. d) r) now3 c3) = Inr e'
      \<and> ke_resulting_state e' = KS_ACTIVE"
    by (metis snd_conv)
  then show ?thesis using verbatim changed c3(1) by blast
qed

theorem approvals_can_be_replayed_witness:
  "\<exists>i. snd (submit_reset zero_sha any_ed (retarget i (\<lambda>d. d) (sample_reset 0)) 3
       (fst (trip zero_sha ''drawdown'' [] 2 sample_reopened))) = Inl (ReplayedApproval zero_digest)
     \<and> (\<exists>e. snd (submit_reset zero_sha any_ed (retarget i (\<lambda>d. CHR ''1'' # tl d) (sample_reset 0)) 3
       (fst (trip zero_sha ''drawdown'' [] 2 sample_reopened))) = Inr e)"
proof -
  have consumed: "kc_consumed (fst (trip zero_sha ''drawdown'' [] 2 sample_reopened)) = {zero_digest}"
  proof -
    have tr: "kc_consumed sample_tripped = {}"
      unfolding sample_tripped_def
      by (rule trip_summary [OF sample_controller_ok zero_sha_hex _ not_blank_texts(1), of "[]" 0])
        (simp_all add: sample_controller_def)
    have re: "controller_ok zero_sha sample_reopened" "kc_consumed sample_reopened = {zero_digest}"
      unfolding sample_reopened_def
      by (rule reset_summary [OF sample_tripped(1) zero_sha_hex sample_tripped(3,2), of 1];
          simp add: tr sample_reset_def sample_approval_def)+
    show ?thesis
      by (rule trip_summary [OF re(1) zero_sha_hex _ not_blank_texts(1), of "[]" 2]) (simp_all add: re)
  qed
  have approvals: "rs_approvals (sample_reset 0) = [sample_approval]" "ap_digest sample_approval = zero_digest"
    by (simp_all add: sample_reset_def sample_approval_def)
  have fresh: "CHR ''1'' # tl zero_digest \<noteq> zero_digest"
    by (simp add: zero_digest_def eval_nat_numeral)
  have "\<forall>a \<in> set (rs_approvals (sample_reset 0)). CHR ''1'' # tl (ap_digest a)
      \<notin> kc_consumed (fst (trip zero_sha ''drawdown'' [] 2 sample_reopened))"
    by (simp add: approvals consumed fresh)
  from approvals_can_be_replayed [OF sample_tripped(1) zero_sha_hex sample_tripped(2,3) _
      not_blank_texts(1) refl this [unfolded sample_reopened_def], of 3]
  show ?thesis unfolding sample_reopened_def [symmetric] approvals list.sel approvals(2) by blast
qed

end
