(* ===== verification/Domain.thy ===== *)
theory Domain
  imports PyDecimal PyTime
begin

section \<open>Domain models: orders, fills, market data, positions and portfolios\<close>

text \<open>
  The validated value objects of \<open>core/domain\<close>.  A class is a record, its validators are the
  \<open>mk_\<close> function that builds it from raw arguments: the fields are checked in declaration
  order and the first failing check is the exception raised.  Timestamps are microseconds
  since the epoch in UTC.  A floating-point field that the code only compares is a
  \<open>raw_dec\<close>: a finite double is a rational.
\<close>

text \<open>The exception classes, with the field or invariant that failed.\<close>

datatype domain_error =
    DomainValidationError string
  | NonFinite string
  | InvariantViolationError string

datatype order_side = BUY | SELL

datatype order_type = MARKET | LIMIT | STOP

datatype order_status =
  OS_PENDING | OS_SUBMITTED | OS_FILLED | OS_PARTIALLY_FILLED | OS_CANCELLED | OS_REJECTED

datatype bar_timeframe = M1 | M5 | M15 | H1 | H4 | D1

datatype asset_class = CRYPTO | EQUITY | FX | COMMODITY

subsection \<open>Field checks\<close>

definition ensure_finite_decimal :: "raw_dec \<Rightarrow> string \<Rightarrow> domain_error + dec" where
  "ensure_finite_decimal v field_name =
     (case v of Fin x \<Rightarrow> Inr x | _ \<Rightarrow> Inl (NonFinite field_name))"

definition non_empty_str :: "string \<Rightarrow> string \<Rightarrow> domain_error + string" where
  "non_empty_str v field_name =
     (if blank v then Inl (DomainValidationError field_name) else Inr (strip v))"

definition non_empty_upper :: "string \<Rightarrow> string \<Rightarrow> domain_error + string" where
  "non_empty_upper v field_name =
     (if blank v then Inl (DomainValidationError field_name) else Inr (upper (strip v)))"

definition positive_decimal :: "raw_dec \<Rightarrow> string \<Rightarrow> domain_error + dec" where
  "positive_decimal v field_name =
     rbind (ensure_finite_decimal v field_name) (\<lambda>x.
       if x \<le> 0 then Inl (DomainValidationError field_name) else Inr x)"

definition non_negative_decimal :: "raw_dec \<Rightarrow> string \<Rightarrow> domain_error + dec" where
  "non_negative_decimal v field_name =
     rbind (ensure_finite_decimal v field_name) (\<lambda>x.
       if x < 0 then Inl (DomainValidationError field_name) else Inr x)"

lemma ensure_finite_decimal_Inr [simp]: "ensure_finite_decimal v f = Inr x \<longleftrightarrow> v = Fin x"
  by (cases v) (auto simp: ensure_finite_decimal_def)

lemma ensure_finite_decimal_Fin [simp]: "ensure_finite_decimal (Fin x) f = Inr x"
  by simp

lemma positive_decimal_Inr [simp]: "positive_decimal v f = Inr x \<longleftrightarrow> v = Fin x \<and> 0 < x"
  by (auto simp: positive_decimal_def rbind_def ensure_finite_decimal_def split: raw_dec.splits)

lemma non_negative_decimal_Inr [simp]: "non_negative_decimal v f = Inr x \<longleftrightarrow> v = Fin x \<and> 0 \<le> x"
  by (auto simp: non_negative_decimal_def rbind_def ensure_finite_decimal_def split: raw_dec.splits)

lemma non_empty_str_Inr [simp]:
  "non_empty_str v f = Inr s \<longleftrightarrow> \<not> blank v \<and> s = strip v"
  by (auto simp: non_empty_str_def)

lemma non_empty_upper_Inr [simp]:
  "non_empty_upper v f = Inr s \<longleftrightarrow> \<not> blank v \<and> s = upper (strip v)"
  by (auto simp: non_empty_upper_def)

subsection \<open>Order and Fill\<close>

record order =
  ord_id :: string
  ord_symbol :: string
  ord_type :: order_type
  ord_side :: order_side
  ord_quantity :: dec
  ord_price_limit :: "dec option"
  ord_status :: order_status
  ord_idempotency_key :: string
  ord_correlation_id :: string
  ord_created_at :: time

definition mk_order ::
    "string \<Rightarrow> string \<Rightarrow> order_type \<Rightarrow> order_side \<Rightarrow> raw_dec \<Rightarrow> raw_dec option \<Rightarrow> order_status
     \<Rightarrow> string \<Rightarrow> string \<Rightarrow> time \<Rightarrow> domain_error + order" where
  "mk_order oid sy ot sd qty plim st key corr ts =
     rbind (non_empty_str oid ''order_id'') (\<lambda>oid.
     rbind (non_empty_str sy ''symbol'') (\<lambda>sy.
     rbind (positive_decimal qty ''quantity'') (\<lambda>qty.
     rbind (case plim of None \<Rightarrow> Inr None
            | Some v \<Rightarrow> rbind (positive_decimal v ''price_limit'') (\<lambda>x. Inr (Some x))) (\<lambda>plim.
     rbind (non_empty_str key ''idempotency_key'') (\<lambda>key.
     rbind (non_empty_str corr ''correlation_id'') (\<lambda>corr.
       Inr \<lparr>ord_id = oid, ord_symbol = sy, ord_type = ot, ord_side = sd, ord_quantity = qty,
            ord_price_limit = plim, ord_status = st, ord_idempotency_key = key,
            ord_correlation_id = corr, ord_created_at = ts\<rparr>))))))"

record fill =
  fill_id :: string
  fill_order_id :: string
  fill_symbol :: string
  fill_side :: order_side
  fill_price :: dec
  fill_quantity :: dec
  fill_fee :: dec
  fill_slippage :: dec
  fill_correlation_id :: string
  fill_timestamp :: time

definition mk_fill ::
    "string \<Rightarrow> string \<Rightarrow> string \<Rightarrow> order_side \<Rightarrow> raw_dec \<Rightarrow> raw_dec \<Rightarrow> raw_dec \<Rightarrow> raw_dec \<Rightarrow> string
     \<Rightarrow> time \<Rightarrow> domain_error + fill" where
  "mk_fill fid oid sy sd price qty fee slip corr ts =
     rbind (non_empty_str fid ''fill_id'') (\<lambda>fid.
     rbind (non_empty_str oid ''order_id'') (\<lambda>oid.
     rbind (non_empty_str sy ''symbol'') (\<lambda>sy.
     rbind (positive_decimal price ''fill_price'') (\<lambda>price.
     rbind (positive_decimal qty ''fill_quantity'') (\<lambda>qty.
     rbind (non_negative_decimal fee ''fee'') (\<lambda>fee.
     rbind (ensure_finite_decimal slip ''slippage'') (\<lambda>slip.
     rbind (non_empty_str corr ''correlation_id'') (\<lambda>corr.
       Inr \<lparr>fill_id = fid, fill_order_id = oid, fill_symbol = sy, fill_side = sd,
            fill_price = price, fill_quantity = qty, fill_fee = fee, fill_slippage = slip,
            fill_correlation_id = corr, fill_timestamp = ts\<rparr>))))))))"

text \<open>What the validators of \<open>Fill\<close> leave true of every fill object.\<close>

definition fill_ok :: "fill \<Rightarrow> bool" where
  "fill_ok f \<longleftrightarrow> 0 < fill_price f \<and> 0 < fill_quantity f \<and> 0 \<le> fill_fee f
     \<and> fill_symbol f \<noteq> [] \<and> strip (fill_symbol f) = fill_symbol f"

lemma mk_fill_ok: "mk_fill a b c d p q r s t u = Inr f \<Longrightarrow> fill_ok f"
  by (auto simp: mk_fill_def fill_ok_def rbind_Inr_iff blank_iff)

subsection \<open>Instrument\<close>

record instrument =
  inst_symbol :: string
  inst_asset_class :: asset_class
  inst_base_currency :: string
  inst_quote_currency :: string
  inst_tick_size :: dec
  inst_lot_size :: dec
  inst_min_order_quantity :: dec

definition mk_instrument ::
    "string \<Rightarrow> asset_class \<Rightarrow> string \<Rightarrow> string \<Rightarrow> raw_dec \<Rightarrow> raw_dec \<Rightarrow> raw_dec
     \<Rightarrow> domain_error + instrument" where
  "mk_instrument sy ac base quote tick lot minq =
     rbind (non_empty_upper sy ''symbol'') (\<lambda>sy.
     rbind (non_empty_upper base ''base_currency'') (\<lambda>base.
     rbind (non_empty_upper quote ''quote_currency'') (\<lambda>quote.
     rbind (positive_decimal tick ''tick_size'') (\<lambda>tick.
     rbind (positive_decimal lot ''lot_size'') (\<lambda>lot.
     rbind (positive_decimal minq ''min_order_quantity'') (\<lambda>minq.
       Inr \<lparr>inst_symbol = sy, inst_asset_class = ac, inst_base_currency = base,
            inst_quote_currency = quote, inst_tick_size = tick, inst_lot_size = lot,
            inst_min_order_quantity = minq\<rparr>))))))"

subsection \<open>Bars and top-of-book snapshots\<close>

record bar =
  bar_symbol :: string
  bar_timeframe :: bar_timeframe
  bar_event_start :: time
  bar_event_end :: time
  bar_knowledge_time :: time
  bar_open :: dec
  bar_high :: dec
  bar_low :: dec
  bar_close :: dec
  bar_volume :: dec
  bar_provenance_hash :: "string option"

definition bar_invariants :: "bar \<Rightarrow> domain_error + bar" where
  "bar_invariants b =
     (if bar_event_end b < bar_event_start b then Inl (InvariantViolationError ''event_end_utc'')
      else if bar_knowledge_time b < bar_event_end b
        then Inl (InvariantViolationError ''knowledge_time_utc'')
      else if bar_high b < max (bar_open b) (bar_close b) then Inl (InvariantViolationError ''high'')
      else if bar_low b > min (bar_open b) (bar_close b) then Inl (InvariantViolationError ''low'')
      else Inr b)"

definition mk_bar ::
    "string \<Rightarrow> bar_timeframe \<Rightarrow> time \<Rightarrow> time \<Rightarrow> time \<Rightarrow> raw_dec \<Rightarrow> raw_dec \<Rightarrow> raw_dec \<Rightarrow> raw_dec \<Rightarrow> raw_dec
     \<Rightarrow> string option \<Rightarrow> domain_error + bar" where
  "mk_bar sy tf st en kn op hi lo cl vol prov =
     rbind (non_empty_upper sy ''symbol'') (\<lambda>sy.
     rbind (positive_decimal op ''open'') (\<lambda>op.
     rbind (positive_decimal hi ''high'') (\<lambda>hi.
     rbind (positive_decimal lo ''low'') (\<lambda>lo.
     rbind (positive_decimal cl ''close'') (\<lambda>cl.
     rbind (non_negative_decimal vol ''volume'') (\<lambda>vol.
       bar_invariants
         \<lparr>bar_symbol = sy, bar_timeframe = tf, bar_event_start = st, bar_event_end = en,
          bar_knowledge_time = kn, bar_open = op, bar_high = hi, bar_low = lo, bar_close = cl,
          bar_volume = vol, bar_provenance_hash = prov\<rparr>))))))"

record market_snapshot =
  snap_symbol :: string
  snap_bid :: dec
  snap_ask :: dec
  snap_bid_size :: dec
  snap_ask_size :: dec
  snap_last_price :: dec
  snap_timestamp :: time

definition mk_market_snapshot ::
    "string \<Rightarrow> raw_dec \<Rightarrow> raw_dec \<Rightarrow> raw_dec \<Rightarrow> raw_dec \<Rightarrow> raw_dec \<Rightarrow> time
     \<Rightarrow> domain_error + market_snapshot" where
  "mk_market_snapshot sy bid ask bsz asz lst ts =
     rbind (non_empty_upper sy ''symbol'') (\<lambda>sy.
     rbind (positive_decimal bid ''bid'') (\<lambda>bid.
     rbind (positive_decimal ask ''ask'') (\<lambda>ask.
     rbind (non_negative_decimal bsz ''bid_size'') (\<lambda>bsz.
     rbind (non_negative_decimal asz ''ask_size'') (\<lambda>asz.
     rbind (positive_decimal lst ''last_price'') (\<lambda>lst.
       if ask < bid then Inl (InvariantViolationError ''spread'')
       else Inr \<lparr>snap_symbol = sy, snap_bid = bid, snap_ask = ask, snap_bid_size = bsz,
                 snap_ask_size = asz, snap_last_price = lst, snap_timestamp = ts\<rparr>))))))"

text \<open>Every bar that exists is temporally ordered and geometrically consistent.\<close>

lemma mk_bar_invariants:
  assumes "mk_bar sy tf st en kn op hi lo cl vol prov = Inr b"
  shows "bar_event_start b \<le> bar_event_end b \<and> bar_event_end b \<le> bar_knowledge_time b
    \<and> 0 < bar_low b \<and> bar_low b \<le> min (bar_open b) (bar_close b)
    \<and> max (bar_open b) (bar_close b) \<le> bar_high b \<and> 0 \<le> bar_volume b"
  using assms by (auto simp: mk_bar_def bar_invariants_def rbind_Inr_iff not_less split: if_splits)

end
