(* ===== verification/Portfolio.thy ===== *)
theory Portfolio
  imports Domain
begin

section \<open>Positions, portfolios and the fill transitions\<close>

text \<open>
  \<open>core/domain/position.py\<close>, \<open>portfolio.py\<close> and \<open>transitions.py\<close>.  Positions and portfolios are
  immutable snapshots: a fill or a price update builds a new portfolio through the validating
  constructor \<open>mk_portfolio\<close>, which recomputes every aggregate and raises on a mismatch.  The
  positions form an insertion-ordered dictionary, and all sums run in that order with the
  rounding of the decimal context.
\<close>

subsection \<open>Position\<close>

record position =
  pos_symbol :: string
  pos_quantity :: dec
  pos_entry_price :: dec
  pos_current_price :: dec
  pos_unrealized_pnl :: dec
  pos_realized_pnl :: dec
  pos_timestamp :: time

definition mk_position ::
    "string \<Rightarrow> dec \<Rightarrow> dec \<Rightarrow> dec \<Rightarrow> dec \<Rightarrow> dec \<Rightarrow> time \<Rightarrow> domain_error + position" where
  "mk_position sy qty entry cur unr rea ts =
     rbind (non_empty_upper sy ''symbol'') (\<lambda>sy.
       if entry < 0 then Inl (DomainValidationError ''entry_price'')
       else if cur < 0 then Inl (DomainValidationError ''current_price'')
       else Inr \<lparr>pos_symbol = sy, pos_quantity = qty, pos_entry_price = entry,
                 pos_current_price = cur, pos_unrealized_pnl = unr, pos_realized_pnl = rea,
                 pos_timestamp = ts\<rparr>)"

definition market_value :: "position \<Rightarrow> dec" where
  "market_value p = dmul (pos_quantity p) (pos_current_price p)"

definition is_long :: "position \<Rightarrow> bool" where
  "is_long p \<longleftrightarrow> 0 < pos_quantity p"

definition is_short :: "position \<Rightarrow> bool" where
  "is_short p \<longleftrightarrow> pos_quantity p < 0"

definition is_flat :: "position \<Rightarrow> bool" where
  "is_flat p \<longleftrightarrow> pos_quantity p = 0"

text \<open>What the validators leave true of every position, and the representability of its amounts.\<close>

definition position_ok :: "position \<Rightarrow> bool" where
  "position_ok p \<longleftrightarrow> 0 \<le> pos_entry_price p \<and> 0 \<le> pos_current_price p"

lemma mk_position_Inr:
  "mk_position sy q e c u r t = Inr p \<longleftrightarrow>
     \<not> blank sy \<and> 0 \<le> e \<and> 0 \<le> c \<and>
     p = \<lparr>pos_symbol = upper (strip sy), pos_quantity = q, pos_entry_price = e,
          pos_current_price = c, pos_unrealized_pnl = u, pos_realized_pnl = r, pos_timestamp = t\<rparr>"
  by (auto simp: mk_position_def rbind_Inr_iff not_less)

lemma mk_position_ok: "mk_position sy q e c u r t = Inr p \<Longrightarrow> position_ok p"
  by (simp add: mk_position_Inr position_ok_def)

subsection \<open>Portfolio\<close>

record portfolio =
  pf_timestamp :: time
  pf_positions :: "(string, position) dict"
  pf_cash_balance :: dec
  pf_total_equity :: dec
  pf_margin_used :: dec
  pf_gross_exposure :: dec
  pf_net_exposure :: dec
  pf_unrealized_pnl :: dec
  pf_realized_pnl :: dec

text \<open>The four running totals of the portfolio loops.\<close>

definition sum_market_value :: "(string, position) dict \<Rightarrow> dec" where
  "sum_market_value d = dsum (map market_value (dict_values d))"

definition sum_gross :: "(string, position) dict \<Rightarrow> dec" where
  "sum_gross d = dsum (map (\<lambda>p. dabs (market_value p)) (dict_values d))"

definition sum_unrealized :: "(string, position) dict \<Rightarrow> dec" where
  "sum_unrealized d = dsum (map pos_unrealized_pnl (dict_values d))"

definition sum_realized :: "(string, position) dict \<Rightarrow> dec" where
  "sum_realized d = dsum (map pos_realized_pnl (dict_values d))"

text \<open>\<open>validated[str(symbol).upper()] = pos\<close> over the items of the argument.\<close>

definition validate_and_freeze_positions :: "(string, position) dict \<Rightarrow> (string, position) dict" where
  "validate_and_freeze_positions d = fold (\<lambda>(s, p) acc. dict_put (upper s) p acc) d []"

definition validate_accounting_invariants :: "portfolio \<Rightarrow> domain_error + portfolio" where
  "validate_accounting_invariants s =
     (let mv = sum_market_value (pf_positions s) in
      if pf_total_equity s \<noteq> dadd (pf_cash_balance s) mv
        then Inl (InvariantViolationError ''total_equity'')
      else if pf_gross_exposure s \<noteq> sum_gross (pf_positions s)
        then Inl (InvariantViolationError ''gross_exposure'')
      else if pf_net_exposure s \<noteq> mv then Inl (InvariantViolationError ''net_exposure'')
      else if pf_unrealized_pnl s \<noteq> sum_unrealized (pf_positions s)
        then Inl (InvariantViolationError ''unrealized_pnl'')
      else Inr s)"

definition mk_portfolio ::
    "time \<Rightarrow> (string, position) dict \<Rightarrow> dec \<Rightarrow> dec \<Rightarrow> dec \<Rightarrow> dec \<Rightarrow> dec \<Rightarrow> dec \<Rightarrow> dec
     \<Rightarrow> domain_error + portfolio" where
  "mk_portfolio ts ps cash eq margin gross net unr rea =
     (if margin < 0 then Inl (DomainValidationError ''margin_used'')
      else validate_accounting_invariants
        \<lparr>pf_timestamp = ts, pf_positions = validate_and_freeze_positions ps,
         pf_cash_balance = cash, pf_total_equity = eq, pf_margin_used = margin,
         pf_gross_exposure = gross, pf_net_exposure = net, pf_unrealized_pnl = unr,
         pf_realized_pnl = rea\<rparr>)"

text \<open>
  The invariant of every portfolio object: distinct upper-case keys, aggregates that agree with
  the positions.
\<close>

definition upper_keys :: "(string, 'v) dict \<Rightarrow> bool" where
  "upper_keys d \<longleftrightarrow> list_all (\<lambda>k. upper k = k) (map fst d)"

definition portfolio_ok :: "portfolio \<Rightarrow> bool" where
  "portfolio_ok s \<longleftrightarrow>
     dict_wf (pf_positions s) \<and> upper_keys (pf_positions s) \<and>
     pf_total_equity s = dadd (pf_cash_balance s) (sum_market_value (pf_positions s)) \<and>
     pf_gross_exposure s = sum_gross (pf_positions s) \<and>
     pf_net_exposure s = sum_market_value (pf_positions s) \<and>
     pf_unrealized_pnl s = sum_unrealized (pf_positions s) \<and>
     0 \<le> pf_margin_used s"

lemma upper_keys_simps [simp]:
  "upper_keys []"
  "upper_keys ((k, v) # d) \<longleftrightarrow> upper k = k \<and> upper_keys d"
  by (simp_all add: upper_keys_def)

lemma upper_keys_put: "upper_keys d \<Longrightarrow> upper k = k \<Longrightarrow> upper_keys (dict_put k v d)"
  by (induction d) auto

lemma freeze_wf_upper:
  "dict_wf acc \<Longrightarrow> upper_keys acc \<Longrightarrow>
   dict_wf (fold (\<lambda>(s, p) acc. dict_put (upper s) p acc) d acc) \<and>
   upper_keys (fold (\<lambda>(s, p) acc. dict_put (upper s) p acc) d acc)"
  by (induction d arbitrary: acc) (auto simp: dict.wf_put upper_keys_put)

lemma dict_put_append: "k \<notin> set (map fst d) \<Longrightarrow> dict_put k v d = d @ [(k, v)]"
  by (induction d) auto

lemma freeze_fixed:
  "distinct (map fst (acc @ d)) \<Longrightarrow> upper_keys d \<Longrightarrow>
   fold (\<lambda>(s, p) acc. dict_put (upper s) p acc) d acc = acc @ d"
proof (induction d arbitrary: acc)
  case Nil
  then show ?case by simp
next
  case (Cons sp d)
  obtain s p where sp: "sp = (s, p)" by force
  have "dict_put s p acc = acc @ [(s, p)]"
    using Cons.prems sp by (intro dict_put_append) auto
  then show ?case using Cons.IH [of "acc @ [(s, p)]"] Cons.prems by (simp add: sp)
qed

lemma validate_and_freeze_fixed:
  "dict_wf d \<Longrightarrow> upper_keys d \<Longrightarrow> validate_and_freeze_positions d = d"
  using freeze_fixed [of "[]" d] by (simp add: validate_and_freeze_positions_def dict_wf_def)

lemma validate_and_freeze_ok:
  "dict_wf (validate_and_freeze_positions d)"
  "upper_keys (validate_and_freeze_positions d)"
  using freeze_wf_upper [of "[]" d] by (simp_all add: validate_and_freeze_positions_def dict.wf_empty)

text \<open>No portfolio object violates the invariant: the constructor is its only source.\<close>

lemma mk_portfolio_ok: "mk_portfolio ts ps cash eq m g n u r = Inr s \<Longrightarrow> portfolio_ok s"
  by (auto simp: mk_portfolio_def validate_accounting_invariants_def portfolio_ok_def Let_def
      validate_and_freeze_ok split: if_splits)

lemma mk_portfolio_Inr:
  assumes "dict_wf ps" and "upper_keys ps" and "0 \<le> m"
    and "eq = dadd cash (sum_market_value ps)" and "g = sum_gross ps"
    and "n = sum_market_value ps" and "u = sum_unrealized ps"
  shows "mk_portfolio ts ps cash eq m g n u r = Inr
    \<lparr>pf_timestamp = ts, pf_positions = ps, pf_cash_balance = cash, pf_total_equity = eq,
     pf_margin_used = m, pf_gross_exposure = g, pf_net_exposure = n, pf_unrealized_pnl = u,
     pf_realized_pnl = r\<rparr>"
  using assms by (simp add: mk_portfolio_def validate_accounting_invariants_def Let_def
      validate_and_freeze_fixed)

subsection \<open>The account at the broker\<close>

text \<open>\<open>AccountState\<close>; a float is its value, or not finite.\<close>

record account_state =
  acc_id :: string
  acc_currency :: string
  acc_balance :: dec
  acc_equity :: dec
  acc_free_margin :: dec
  acc_margin_level_pct :: "dec option"
  acc_leverage :: dec
  acc_is_live :: bool
  acc_timestamp :: time

definition ensure_finite_float :: "raw_dec \<Rightarrow> string \<Rightarrow> domain_error + dec" where
  "ensure_finite_float v field_name =
     (case v of Fin x \<Rightarrow> Inr x | _ \<Rightarrow> Inl (NonFinite field_name))"

definition mk_account_state ::
    "string \<Rightarrow> string \<Rightarrow> raw_dec \<Rightarrow> raw_dec \<Rightarrow> raw_dec \<Rightarrow> raw_dec option \<Rightarrow> raw_dec \<Rightarrow> bool \<Rightarrow> time
     \<Rightarrow> domain_error + account_state" where
  "mk_account_state aid currency balance equity free_margin level leverage live ts =
     rbind (non_empty_upper aid ''account_id'') (\<lambda>aid.
     rbind (non_empty_upper currency ''currency'') (\<lambda>currency.
     rbind (ensure_finite_decimal balance ''balance'') (\<lambda>balance.
     rbind (ensure_finite_decimal equity ''equity'') (\<lambda>equity.
     rbind (ensure_finite_decimal free_margin ''free_margin'') (\<lambda>free_margin.
     rbind (case level of None \<Rightarrow> Inr None
            | Some v \<Rightarrow> rbind (ensure_finite_float v ''margin_level_pct'') (\<lambda>x. Inr (Some x))) (\<lambda>level.
     rbind (ensure_finite_float leverage ''leverage'') (\<lambda>leverage.
     if leverage < 1 then Inl (DomainValidationError ''leverage'')
     else Inr \<lparr>acc_id = aid, acc_currency = currency, acc_balance = balance, acc_equity = equity,
               acc_free_margin = free_margin, acc_margin_level_pct = level, acc_leverage = leverage,
               acc_is_live = live, acc_timestamp = ts\<rparr>)))))))"

subsection \<open>Applying a fill to a position\<close>

definition apply_fill_to_position :: "position option \<Rightarrow> fill \<Rightarrow> domain_error + position" where
  "apply_fill_to_position cur f =
     (let sy = fill_symbol f; fq = fill_quantity f; fp = fill_price f; ts = fill_timestamp f in
      case cur of
        None \<Rightarrow>
          (case fill_side f of
             BUY \<Rightarrow> mk_position sy fq fp fp 0 0 ts
           | SELL \<Rightarrow> mk_position sy (dneg fq) fp fp 0 0 ts)
      | Some p \<Rightarrow>
          if is_flat p then
            (case fill_side f of
               BUY \<Rightarrow> mk_position sy fq fp fp 0 (pos_realized_pnl p) ts
             | SELL \<Rightarrow> mk_position sy (dneg fq) fp fp 0 (pos_realized_pnl p) ts)
          else
            let oq = pos_quantity p; oe = pos_entry_price p; orl = pos_realized_pnl p in
            if is_long p then
              (case fill_side f of
                 BUY \<Rightarrow>
                   let nq = dadd oq fq;
                       ne = ddiv (dadd (dmul oq oe) (dmul fq fp)) nq
                   in mk_position sy nq ne fp (dmul nq (dsub fp ne)) orl ts
               | SELL \<Rightarrow>
                   if fq < oq then
                     let nq = dsub oq fq;
                         nr = dadd orl (dmul fq (dsub fp oe))
                     in mk_position sy nq oe fp (dmul nq (dsub fp oe)) nr ts
                   else if fq = oq then
                     mk_position sy 0 0 fp 0 (dadd orl (dmul fq (dsub fp oe))) ts
                   else
                     mk_position sy (dneg (dsub fq oq)) fp fp 0
                       (dadd orl (dmul oq (dsub fp oe))) ts)
            else
              let aq = dabs oq in
              (case fill_side f of
                 SELL \<Rightarrow>
                   let naq = dadd aq fq;
                       nq = dneg naq;
                       ne = ddiv (dadd (dmul aq oe) (dmul fq fp)) naq
                   in mk_position sy nq ne fp (dmul nq (dsub fp ne)) orl ts
               | BUY \<Rightarrow>
                   if fq < aq then
                     let nq = dneg (dsub aq fq);
                         nr = dadd orl (dmul fq (dsub oe fp))
                     in mk_position sy nq oe fp (dmul nq (dsub fp oe)) nr ts
                   else if fq = aq then
                     mk_position sy 0 0 fp 0 (dadd orl (dmul fq (dsub oe fp))) ts
                   else
                     mk_position sy (dsub fq aq) fp fp 0
                       (dadd orl (dmul aq (dsub oe fp))) ts))"

subsection \<open>Applying a fill to a portfolio\<close>

definition cash_delta :: "fill \<Rightarrow> dec" where
  "cash_delta f =
     (let tv = dmul (fill_price f) (fill_quantity f) in
      case fill_side f of
        BUY \<Rightarrow> dsub (dneg tv) (fill_fee f)
      | SELL \<Rightarrow> dsub tv (fill_fee f))"

definition apply_fill_to_portfolio :: "portfolio \<Rightarrow> fill \<Rightarrow> domain_error + portfolio" where
  "apply_fill_to_portfolio s f =
     (let cash = dadd (pf_cash_balance s) (cash_delta f) in
      rbind (apply_fill_to_position (dict_get (pf_positions s) (fill_symbol f)) f) (\<lambda>np.
        let ps = dict_put (fill_symbol f) np (pf_positions s) in
        mk_portfolio (fill_timestamp f) ps cash
          (dadd cash (sum_market_value ps)) (pf_margin_used s) (sum_gross ps)
          (sum_market_value ps) (sum_unrealized ps) (sum_realized ps)))"

subsection \<open>Marking a portfolio to market\<close>

definition mark_position ::
    "(string, raw_dec) dict \<Rightarrow> time \<Rightarrow> string \<Rightarrow> position \<Rightarrow> domain_error + position" where
  "mark_position prices ts sy p =
     (case dict_get prices sy of
        None \<Rightarrow> Inr p
      | Some v \<Rightarrow>
          if is_flat p then Inr p
          else rbind (ensure_finite_decimal v ''prices'') (\<lambda>np.
            mk_position (pos_symbol p) (pos_quantity p) (pos_entry_price p) np
              (dmul (pos_quantity p) (dsub np (pos_entry_price p))) (pos_realized_pnl p) ts))"

fun mark_positions ::
    "(string, raw_dec) dict \<Rightarrow> time \<Rightarrow> (string, position) dict \<Rightarrow> domain_error + (string, position) dict" where
  "mark_positions prices ts [] = Inr []"
| "mark_positions prices ts ((sy, p) # rest) =
     rbind (mark_position prices ts sy p) (\<lambda>p'.
     rbind (mark_positions prices ts rest) (\<lambda>rest'. Inr ((sy, p') # rest')))"

definition update_portfolio_market_prices ::
    "portfolio \<Rightarrow> (string, raw_dec) dict \<Rightarrow> time \<Rightarrow> domain_error + portfolio" where
  "update_portfolio_market_prices s prices ts =
     rbind (mark_positions prices ts (pf_positions s)) (\<lambda>ps.
       mk_portfolio ts ps (pf_cash_balance s) (dadd (pf_cash_balance s) (sum_market_value ps))
         (pf_margin_used s) (sum_gross ps) (sum_market_value ps) (sum_unrealized ps)
         (sum_realized ps))"

subsection \<open>What the transitions compute\<close>

text \<open>The reference for a position: signed holdings, and the quantity a fill closes.\<close>

definition held :: "position option \<Rightarrow> dec" where
  "held cur = (case cur of None \<Rightarrow> 0 | Some p \<Rightarrow> pos_quantity p)"

definition signed_quantity :: "fill \<Rightarrow> dec" where
  "signed_quantity f = (case fill_side f of BUY \<Rightarrow> fill_quantity f | SELL \<Rightarrow> - fill_quantity f)"

definition realized :: "position option \<Rightarrow> dec" where
  "realized cur = (case cur of None \<Rightarrow> 0 | Some p \<Rightarrow> pos_realized_pnl p)"

definition opposes :: "position option \<Rightarrow> fill \<Rightarrow> bool" where
  "opposes cur f \<longleftrightarrow> held cur * signed_quantity f < 0"

definition realized_delta :: "position \<Rightarrow> fill \<Rightarrow> dec" where
  "realized_delta p f =
     dmul (min (fill_quantity f) \<bar>pos_quantity p\<bar>)
       (if 0 < pos_quantity p then dsub (fill_price f) (pos_entry_price p)
        else dsub (pos_entry_price p) (fill_price f))"

text \<open>Quantities that occur have at most 28 digits, so negation and \<open>abs\<close> do not round them.\<close>

definition quantities_ok :: "position option \<Rightarrow> fill \<Rightarrow> bool" where
  "quantities_ok cur f \<longleftrightarrow>
     fill_ok f \<and> dec28 (fill_quantity f) \<and>
     (case cur of None \<Rightarrow> True | Some p \<Rightarrow> position_ok p \<and> dec28 (pos_quantity p))"

lemma fill_ok_not_blank: "fill_ok f \<Longrightarrow> \<not> blank (fill_symbol f)"
  by (simp add: fill_ok_def blank_def)

lemma position_sign_cases:
  obtains "is_flat p" | "is_long p" "\<not> is_flat p" | "is_short p" "\<not> is_flat p" "\<not> is_long p"
  unfolding is_flat_def is_long_def is_short_def by linarith

lemmas fill_position_simps =
  apply_fill_to_position_def quantities_ok_def fill_ok_def position_ok_def held_def signed_quantity_def
  realized_def opposes_def realized_delta_def mk_position_Inr dneg_exact dabs_exact Let_def

lemma apply_fill_none:
  assumes "quantities_ok None f"
  shows "\<exists>p'. apply_fill_to_position None f = Inr p' \<and> position_ok p' \<and>
     pos_quantity p' = dround (held None + signed_quantity f) \<and>
     pos_realized_pnl p' = realized None \<and> pos_current_price p' = fill_price f"
  using assms fill_ok_not_blank [of f]
  by (cases "fill_side f") (auto simp: fill_position_simps dround_exact)

lemma apply_fill_flat:
  assumes "quantities_ok (Some p) f" and "is_flat p"
  shows "\<exists>p'. apply_fill_to_position (Some p) f = Inr p' \<and> position_ok p' \<and>
     pos_quantity p' = dround (pos_quantity p + signed_quantity f) \<and>
     pos_realized_pnl p' = pos_realized_pnl p \<and> pos_current_price p' = fill_price f"
  using assms fill_ok_not_blank [of f]
  by (cases "fill_side f") (auto simp: fill_position_simps is_flat_def dround_exact)

lemma apply_fill_long:
  assumes "quantities_ok (Some p) f" and "is_long p"
  shows "\<exists>p'. apply_fill_to_position (Some p) f = Inr p' \<and> position_ok p' \<and>
     pos_quantity p' = dround (pos_quantity p + signed_quantity f) \<and>
     pos_realized_pnl p' = (case fill_side f of BUY \<Rightarrow> pos_realized_pnl p
       | SELL \<Rightarrow> dadd (pos_realized_pnl p) (realized_delta p f)) \<and>
     pos_current_price p' = fill_price f"
proof -
  have long: "0 < pos_quantity p" "\<not> is_flat p" using assms(2) by (auto simp: is_long_def is_flat_def)
  note facts = assms long fill_ok_not_blank [of f]
  show ?thesis
  proof (cases "fill_side f")
    case BUY
    with facts show ?thesis
      by (simp add: fill_position_simps) (simp add: dadd_def)
  next
    case SELL
    consider "fill_quantity f < pos_quantity p" | "fill_quantity f = pos_quantity p"
      | "pos_quantity p < fill_quantity f" by linarith
    then show ?thesis
    proof cases
      case 1
      with SELL facts show ?thesis
        by (simp add: fill_position_simps min_def) (simp add: dsub_def)
    next
      case 2
      with SELL facts show ?thesis by (simp add: fill_position_simps min_def)
    next
      case 3
      with SELL facts show ?thesis
        by (simp add: fill_position_simps min_def) (simp add: dsub_def flip: dround_minus)
    qed
  qed
qed

lemma apply_fill_short:
  assumes "quantities_ok (Some p) f" and "is_short p"
  shows "\<exists>p'. apply_fill_to_position (Some p) f = Inr p' \<and> position_ok p' \<and>
     pos_quantity p' = dround (pos_quantity p + signed_quantity f) \<and>
     pos_realized_pnl p' = (case fill_side f of SELL \<Rightarrow> pos_realized_pnl p
       | BUY \<Rightarrow> dadd (pos_realized_pnl p) (realized_delta p f)) \<and>
     pos_current_price p' = fill_price f"
proof -
  have short: "pos_quantity p < 0" "\<not> is_flat p" "\<not> is_long p"
    using assms(2) by (auto simp: is_short_def is_long_def is_flat_def)
  note facts = assms short fill_ok_not_blank [of f]
  show ?thesis
  proof (cases "fill_side f")
    case SELL
    with facts show ?thesis
      by (simp add: fill_position_simps) (simp add: dadd_def add.commute flip: dround_minus)
  next
    case BUY
    consider "fill_quantity f < - pos_quantity p" | "fill_quantity f = - pos_quantity p"
      | "- pos_quantity p < fill_quantity f" by linarith
    then show ?thesis
    proof cases
      case 1
      with BUY facts show ?thesis
        by (simp add: fill_position_simps min_def) (simp add: dsub_def add.commute flip: dround_minus)
    next
      case 2
      with BUY facts show ?thesis by (simp add: fill_position_simps min_def)
    next
      case 3
      with BUY facts show ?thesis
        by (simp add: fill_position_simps min_def) (simp add: dsub_def add.commute)
    qed
  qed
qed

text \<open>All eight quantity scenarios, the flat restart and the first fill in one statement.\<close>

lemma apply_fill_sound:
  assumes "quantities_ok cur f"
  shows "\<exists>p'. apply_fill_to_position cur f = Inr p' \<and> position_ok p' \<and>
     pos_quantity p' = dround (held cur + signed_quantity f) \<and>
     pos_realized_pnl p' = (if opposes cur f then dadd (realized cur) (realized_delta (the cur) f)
                            else realized cur) \<and>
     pos_current_price p' = fill_price f"
proof (cases cur)
  case None
  then show ?thesis using apply_fill_none assms by (simp add: opposes_def held_def)
next
  case (Some p)
  have fq: "0 < fill_quantity f" using assms by (simp add: quantities_ok_def fill_ok_def)
  show ?thesis
  proof (cases rule: position_sign_cases [of p])
    case 1
    then have "\<not> opposes cur f" by (simp add: opposes_def held_def is_flat_def Some)
    then show ?thesis using apply_fill_flat [of p f] assms 1 Some
      by (simp add: held_def realized_def)
  next
    case 2
    then have "opposes cur f \<longleftrightarrow> fill_side f = SELL" using fq Some
      by (cases "fill_side f")
        (auto simp: opposes_def held_def signed_quantity_def is_long_def mult_less_0_iff)
    then show ?thesis using apply_fill_long [of p f] assms 2 Some
      by (cases "fill_side f") (auto simp: held_def realized_def)
  next
    case 3
    then have "opposes cur f \<longleftrightarrow> fill_side f = BUY" using fq Some
      by (cases "fill_side f")
        (auto simp: opposes_def held_def signed_quantity_def is_short_def mult_less_0_iff
          zero_less_mult_iff)
    then show ?thesis using apply_fill_short [of p f] assms 3 Some
      by (cases "fill_side f") (auto simp: held_def realized_def)
  qed
qed

subsection \<open>Portfolio steps\<close>

lemma portfolio_okD:
  assumes "portfolio_ok s"
  shows "dict_wf (pf_positions s)" "upper_keys (pf_positions s)" "0 \<le> pf_margin_used s"
  using assms by (simp_all add: portfolio_ok_def)

text \<open>A fill whose symbol is in upper case is booked, whatever the rounding does.\<close>

lemma apply_fill_to_portfolio_Inr:
  assumes "portfolio_ok s" and "upper (fill_symbol f) = fill_symbol f"
    and "apply_fill_to_position (dict_get (pf_positions s) (fill_symbol f)) f = Inr np"
  shows "apply_fill_to_portfolio s f = Inr
    (let ps = dict_put (fill_symbol f) np (pf_positions s);
         cash = dadd (pf_cash_balance s) (cash_delta f)
     in \<lparr>pf_timestamp = fill_timestamp f, pf_positions = ps, pf_cash_balance = cash,
         pf_total_equity = dadd cash (sum_market_value ps), pf_margin_used = pf_margin_used s,
         pf_gross_exposure = sum_gross ps, pf_net_exposure = sum_market_value ps,
         pf_unrealized_pnl = sum_unrealized ps, pf_realized_pnl = sum_realized ps\<rparr>)"
  using portfolio_okD [OF assms(1)] assms(2,3)
  by (simp add: apply_fill_to_portfolio_def Let_def mk_portfolio_Inr dict.wf_put upper_keys_put)

text \<open>Marking to market moves prices and unrealized profit only.\<close>

definition same_holding :: "position \<Rightarrow> position \<Rightarrow> bool" where
  "same_holding p q \<longleftrightarrow> pos_quantity q = pos_quantity p \<and> pos_entry_price q = pos_entry_price p
     \<and> pos_realized_pnl q = pos_realized_pnl p"

lemma mark_position_same: "mark_position prices ts sy p = Inr q \<Longrightarrow> same_holding p q"
  by (auto simp: mark_position_def same_holding_def mk_position_Inr rbind_Inr_iff
      split: option.splits if_splits)

lemma mark_positions_same:
  "mark_positions prices ts d = Inr d' \<Longrightarrow>
     map fst d' = map fst d \<and> list_all2 same_holding (dict_values d) (dict_values d')"
proof (induction d arbitrary: d')
  case Nil
  then show ?case by (simp add: dict_values_def)
next
  case (Cons sp d)
  obtain sy p where sp: "sp = (sy, p)" by force
  obtain q d'' where q: "mark_position prices ts sy p = Inr q"
    and d'': "mark_positions prices ts d = Inr d''" "d' = (sy, q) # d''"
    using Cons.prems by (auto simp: sp rbind_Inr_iff)
  show ?case using mark_position_same [OF q] Cons.IH [OF d''(1)] by (simp add: sp d'' dict_values_def)
qed

lemma upper_keys_fst: "map fst d' = map fst d \<Longrightarrow> upper_keys d' = upper_keys d"
  by (simp add: upper_keys_def)

lemma sum_realized_same:
  "list_all2 same_holding (dict_values d) (dict_values d') \<Longrightarrow> sum_realized d' = sum_realized d"
proof -
  assume "list_all2 same_holding (dict_values d) (dict_values d')"
  then have "map pos_realized_pnl (dict_values d') = map pos_realized_pnl (dict_values d)"
    by (induction rule: list_all2_induct) (auto simp: same_holding_def)
  then show ?thesis by (simp add: sum_realized_def)
qed

subsection \<open>Properties\<close>

text \<open>C1: Applying a fill to a position always succeeds and nets correctly: in all eight signed
  scenarios, and from a missing or flat position, the new quantity is the old signed quantity plus
  the signed fill quantity (rounded once), the price fields stay non-negative, realized profit
  changes only when the fill opposes the holding, and then by the closed quantity
  \<open>min(fill, |held|)\<close> times the price difference, longs and shorts with opposite sign.\<close>

theorem fill_position_netting:
  assumes "quantities_ok cur f"
  shows "\<exists>p'. apply_fill_to_position cur f = Inr p' \<and> position_ok p' \<and>
     pos_quantity p' = dround (held cur + signed_quantity f) \<and>
     pos_realized_pnl p' = (if opposes cur f then dadd (realized cur) (realized_delta (the cur) f)
                            else realized cur) \<and>
     pos_current_price p' = fill_price f"
  using apply_fill_sound [OF assms] .

definition sample_fill :: "order_side \<Rightarrow> dec \<Rightarrow> dec \<Rightarrow> fill" where
  "sample_fill sd price qty =
     \<lparr>fill_id = ''F1'', fill_order_id = ''O1'', fill_symbol = ''SPY'', fill_side = sd,
      fill_price = price, fill_quantity = qty, fill_fee = 1, fill_slippage = 0,
      fill_correlation_id = ''C1'', fill_timestamp = 5\<rparr>"

definition sample_position :: "dec \<Rightarrow> position" where
  "sample_position q =
     \<lparr>pos_symbol = ''SPY'', pos_quantity = q, pos_entry_price = 100, pos_current_price = 100,
      pos_unrealized_pnl = 0, pos_realized_pnl = 7, pos_timestamp = 1\<rparr>"

definition sample_portfolio :: portfolio where
  "sample_portfolio =
     \<lparr>pf_timestamp = 1, pf_positions = [(''SPY'', sample_position 10)], pf_cash_balance = 5000,
      pf_total_equity = 6000, pf_margin_used = 0, pf_gross_exposure = 1000, pf_net_exposure = 1000,
      pf_unrealized_pnl = 0, pf_realized_pnl = 7\<rparr>"

text \<open>Bundles that evaluate closed instances.\<close>

lemmas samples = sample_fill_def sample_position_def sample_portfolio_def

lemmas sums_eval = sum_market_value_def sum_gross_def sum_unrealized_def sum_realized_def dsum_def
  dict_values_def market_value_def

lemmas portfolio_eval = samples sums_eval portfolio_ok_def dict_wf_def upper_keys_def
  quantities_ok_def fill_ok_def position_ok_def held_def signed_quantity_def realized_def
  opposes_def realized_delta_def cash_delta_def is_flat_def is_long_def is_short_def
  apply_fill_to_portfolio_def apply_fill_to_position_def mk_position_def non_empty_upper_def
  mk_portfolio_def validate_and_freeze_positions_def validate_accounting_invariants_def
  update_portfolio_market_prices_def mark_position_def string_eval

lemma sample_portfolio_ok: "portfolio_ok sample_portfolio"
  by (simp add: portfolio_eval dec_ops dec_eval)

text \<open>A long of 10 at 100 sold down by 15 at 110: a short of 5 and 100 of realized profit.\<close>

lemma fill_position_netting_witness:
  "\<exists>p'. apply_fill_to_position (Some (sample_position 10)) (sample_fill SELL 110 15) = Inr p' \<and>
     pos_quantity p' = -5 \<and> pos_realized_pnl p' = 107"
proof -
  have h: "quantities_ok (Some (sample_position 10)) (sample_fill SELL 110 15)"
    by (simp add: portfolio_eval dec28_code dec_ops dec_eval)
  have n: "dround (held (Some (sample_position 10)) + signed_quantity (sample_fill SELL 110 15)) = -5"
    by (simp add: portfolio_eval dec28_code dec_ops dec_eval)
  have r: "(if opposes (Some (sample_position 10)) (sample_fill SELL 110 15)
      then dadd (realized (Some (sample_position 10)))
        (realized_delta (the (Some (sample_position 10))) (sample_fill SELL 110 15))
      else realized (Some (sample_position 10))) = 107"
    by (simp add: portfolio_eval dec28_code dec_ops dec_eval)
  from fill_position_netting [OF h] show ?thesis unfolding n r by blast
qed

text \<open>One booked fill, with everything a run of fills needs to know about it.\<close>

lemma fill_portfolio_step:
  assumes "portfolio_ok s" and "upper (fill_symbol f) = fill_symbol f"
    and "quantities_ok (dict_get (pf_positions s) (fill_symbol f)) f"
  shows "\<exists>s' p'. apply_fill_to_portfolio s f = Inr s' \<and> portfolio_ok s' \<and>
     pf_cash_balance s' = dadd (pf_cash_balance s) (cash_delta f) \<and>
     apply_fill_to_position (dict_get (pf_positions s) (fill_symbol f)) f = Inr p' \<and>
     (\<forall>k. dict_get (pf_positions s') k =
        (if k = fill_symbol f then Some p' else dict_get (pf_positions s) k))"
proof -
  obtain p' where p': "apply_fill_to_position (dict_get (pf_positions s) (fill_symbol f)) f = Inr p'"
    using apply_fill_sound [OF assms(3)] by blast
  have "portfolio_ok (projr (apply_fill_to_portfolio s f))"
    using portfolio_okD [OF assms(1)] assms(2)
    by (simp add: apply_fill_to_portfolio_Inr [OF assms(1,2) p'] Let_def portfolio_ok_def
        dict.wf_put upper_keys_put)
  then show ?thesis
    using p' by (auto simp: apply_fill_to_portfolio_Inr [OF assms(1,2) p'] Let_def dict.get_put)
qed

text \<open>C2: Booking a fill with an upper-case symbol on a consistent portfolio never fails and keeps
  every accounting invariant (equity = cash + market value, gross, net and unrealized sums, distinct
  upper-case keys); cash moves by minus the trade value on a buy and plus it on a sale, less the fee, the filled symbol gets the new
  position and every other position is untouched.\<close>

theorem fill_portfolio_consistent:
  assumes "portfolio_ok s" and "upper (fill_symbol f) = fill_symbol f"
    and "quantities_ok (dict_get (pf_positions s) (fill_symbol f)) f"
  shows "\<exists>s' p'. apply_fill_to_portfolio s f = Inr s' \<and> portfolio_ok s' \<and>
     pf_cash_balance s' = dadd (pf_cash_balance s)
       (dsub (if fill_side f = BUY then dneg (dmul (fill_price f) (fill_quantity f))
              else dmul (fill_price f) (fill_quantity f)) (fill_fee f)) \<and>
     apply_fill_to_position (dict_get (pf_positions s) (fill_symbol f)) f = Inr p' \<and>
     (\<forall>k. dict_get (pf_positions s') k =
        (if k = fill_symbol f then Some p' else dict_get (pf_positions s) k))"
  using fill_portfolio_step [OF assms] by (cases "fill_side f") (simp_all add: cash_delta_def Let_def)

lemma fill_portfolio_consistent_witness:
  "\<exists>s'. apply_fill_to_portfolio sample_portfolio (sample_fill BUY 110 10) = Inr s' \<and>
     portfolio_ok s' \<and> pf_cash_balance s' = 3899"
proof -
  have h: "portfolio_ok sample_portfolio"
    "upper (fill_symbol (sample_fill BUY 110 10)) = fill_symbol (sample_fill BUY 110 10)"
    "quantities_ok (dict_get (pf_positions sample_portfolio) (fill_symbol (sample_fill BUY 110 10)))
       (sample_fill BUY 110 10)"
    by (rule sample_portfolio_ok) (simp_all add: portfolio_eval dec28_code dec_ops dec_eval)
  have c: "dadd (pf_cash_balance sample_portfolio) (dsub (dneg (dmul (fill_price (sample_fill BUY 110 10))
      (fill_quantity (sample_fill BUY 110 10)))) (fill_fee (sample_fill BUY 110 10))) = 3899"
    by (simp add: portfolio_eval dec28_code dec_ops dec_eval)
  have "fill_side (sample_fill BUY 110 10) = BUY" by (simp add: sample_fill_def)
  with fill_portfolio_consistent [OF h] show ?thesis by (simp only: if_True refl c) blast
qed

text \<open>The portfolio looks a fill up under the symbol as written, but stores positions under
  upper-case keys: a buy of \<open>spy\<close> against a portfolio that holds \<open>SPY\<close> is priced as a new position,
  the constructor then merges both keys, and the fill is rejected with an accounting mismatch.\<close>

theorem lower_case_fill_rejected:
  "portfolio_ok sample_portfolio \<and>
   fill_ok (sample_fill BUY 110 10\<lparr>fill_symbol := ''spy''\<rparr>) \<and>
   apply_fill_to_portfolio sample_portfolio (sample_fill BUY 110 10\<lparr>fill_symbol := ''spy''\<rparr>)
     = Inl (InvariantViolationError ''total_equity'')"
  by (intro conjI sample_portfolio_ok) (simp_all add: portfolio_eval dec_ops dec_eval)

text \<open>Marking a portfolio to market never touches cash, margin, quantities, entry prices or
  realized profit, keeps the keys and their order, and yields a consistent portfolio again.\<close>

theorem mark_to_market_frame:
  assumes "update_portfolio_market_prices s prices ts = Inr s'" and "portfolio_ok s"
  shows "portfolio_ok s' \<and> pf_cash_balance s' = pf_cash_balance s \<and>
     pf_margin_used s' = pf_margin_used s \<and>
     map fst (pf_positions s') = map fst (pf_positions s) \<and>
     list_all2 same_holding (dict_values (pf_positions s)) (dict_values (pf_positions s')) \<and>
     pf_realized_pnl s' = sum_realized (pf_positions s)"
proof -
  obtain ps where ps: "mark_positions prices ts (pf_positions s) = Inr ps"
    and s': "mk_portfolio ts ps (pf_cash_balance s) (dadd (pf_cash_balance s) (sum_market_value ps))
         (pf_margin_used s) (sum_gross ps) (sum_market_value ps) (sum_unrealized ps)
         (sum_realized ps) = Inr s'"
    using assms(1) by (auto simp: update_portfolio_market_prices_def)
  note same = mark_positions_same [OF ps]
  have wf: "dict_wf ps" "upper_keys ps" "0 \<le> pf_margin_used s"
    using portfolio_okD [OF assms(2)] same by (simp_all add: dict_wf_def upper_keys_def)
  have ok: "portfolio_ok s'" using s' by (rule mk_portfolio_ok)
  have s'_eq: "pf_positions s' = ps" "pf_cash_balance s' = pf_cash_balance s"
    "pf_margin_used s' = pf_margin_used s" "pf_realized_pnl s' = sum_realized ps"
    using s' wf by (auto simp: mk_portfolio_Inr)
  show ?thesis using ok same s'_eq sum_realized_same [of "pf_positions s" ps] by simp
qed

lemma mark_to_market_frame_witness:
  "\<exists>s'. update_portfolio_market_prices sample_portfolio [(''SPY'', Fin 120)] 9 = Inr s' \<and>
     pf_cash_balance s' = 5000 \<and> pf_realized_pnl s' = 7"
proof -
  let ?s' = "projr (update_portfolio_market_prices sample_portfolio [(''SPY'', Fin 120)] 9)"
  have h: "update_portfolio_market_prices sample_portfolio [(''SPY'', Fin 120)] 9 = Inr ?s'"
    by (simp add: portfolio_eval dec28_code dec_ops dec_eval)
  note ok = sample_portfolio_ok
  have v: "pf_cash_balance sample_portfolio = 5000" "sum_realized (pf_positions sample_portfolio) = 7"
    by (simp_all add: portfolio_eval dec_ops dec_eval)
  from mark_to_market_frame [OF h ok] h v show ?thesis by metis
qed

end
