(* ===== verification/RiskEngine.thy ===== *)
theory RiskEngine
  imports KillSwitch Portfolio
begin

section \<open>The deterministic risk engine\<close>

text \<open>
  \<open>risk/risk_engine.py\<close>: the scale-down factor, the derisking of candidate weights and the gates a
  candidate allocation passes, in the order of the code.  The digests of the portfolio and of the
  account hash decimal texts and are the parameters \<open>port_digest\<close> and \<open>acc_digest\<close>.
\<close>

subsection \<open>Scaling down\<close>

fun check_weights :: "(string \<times> dec) list \<Rightarrow> risk_error + dec list" where
  "check_weights [] = Inr []"
| "check_weights ((sy, w) # kvs) =
     rbind (verify_finite_decimal (Fin w) ''weights'' False None None) (\<lambda>d.
     rbind (check_weights kvs) (\<lambda>ds. Inr (d # ds)))"

definition concentration_factor :: "dec \<Rightarrow> dec list \<Rightarrow> dec" where
  "concentration_factor max_conc ws =
     fold (\<lambda>w alpha. if w > 0 \<and> ddiv max_conc w < alpha then ddiv max_conc w else alpha) ws 1"

definition scale_down_factor :: "(string \<times> dec) list \<Rightarrow> dec \<Rightarrow> dec \<Rightarrow> dec \<Rightarrow> risk_error + dec" where
  "scale_down_factor weights max_lev max_conc min_cash =
     rbind (verify_finite_decimal (Fin max_lev) ''max_gross_leverage'' False (Some 0) None) (\<lambda>_.
     rbind (verify_finite_decimal (Fin max_conc) ''max_asset_concentration'' False (Some 0) (Some 1)) (\<lambda>_.
     rbind (verify_finite_decimal (Fin min_cash) ''min_cash_buffer'' False (Some 0) (Some 1)) (\<lambda>_.
     if min_cash > 1 \<or> max_lev \<le> 0 then Inr 0
     else rbind (check_weights weights) (\<lambda>ws.
       let sum_risky = dsum ws in
       if sum_risky = 0 then Inr 1
       else
         let alpha_lev = ddiv max_lev sum_risky;
             alpha_conc = concentration_factor max_conc ws;
             avail = dsub 1 min_cash
         in if avail < 0 then Inr 0
            else Inr (max 0 (min (min (min 1 alpha_lev) alpha_conc) (ddiv avail sum_risky)))))))"

text \<open>The scanning loop of \<open>evaluate_and_derisk\<close>: cleaned weights, their running total and maximum.\<close>

fun scan_weights ::
    "(string \<times> dec) list \<Rightarrow> (string, dec) dict \<Rightarrow> dec \<Rightarrow> dec \<Rightarrow> risk_error + (string, dec) dict \<times> dec \<times> dec" where
  "scan_weights [] cleaned acc largest = Inr (cleaned, acc, largest)"
| "scan_weights ((sy, w) # kvs) cleaned acc largest =
     rbind (verify_finite_decimal (Fin w) ''weights'' False None None) (\<lambda>d.
       scan_weights kvs (dict_put (upper (strip sy)) d cleaned) (dadd acc d)
         (if d > largest then d else largest))"

definition evaluate_and_derisk ::
    "(string \<times> dec) list \<Rightarrow> risk_policy
     \<Rightarrow> risk_error + (string, dec) dict \<times> dec \<times> risk_verdict \<times> rejection option" where
  "evaluate_and_derisk weights p =
     rbind (scan_weights weights [] 0 0) (\<lambda>(cleaned, sum_risky, max_conc).
     let cash = dsub 1 sum_risky;
         lev_safe = sum_risky \<le> rp_max_gross_leverage p;
         conc_safe = max_conc \<le> rp_max_asset_concentration p;
         cash_safe = cash \<ge> rp_min_cash_buffer p
     in if lev_safe \<and> conc_safe \<and> cash_safe then Inr (cleaned, cash, APPROVED, None)
        else case rp_derisk p of
          BINARY_REJECT \<Rightarrow>
            Inr ([], 1, REJECTED_RISK, Some (REJECT_LIMITS (\<not> lev_safe) (\<not> conc_safe) (\<not> cash_safe)))
        | EXACT_SCALE_DOWN \<Rightarrow>
            rbind (scale_down_factor cleaned (rp_max_gross_leverage p) (rp_max_asset_concentration p)
                (rp_min_cash_buffer p)) (\<lambda>alpha.
              if alpha = 0 then Inr ([], 1, REJECTED_RISK, Some SCALE_DOWN_FAILED)
              else let scaled = map (\<lambda>(sy, w). (sy, dmul alpha w)) cleaned
                   in Inr (scaled, dsub 1 (dsum (dict_values scaled)), REDUCED, None)))"

subsection \<open>The gates\<close>

definition rejection_report ::
    "(portfolio \<Rightarrow> string) \<Rightarrow> (account_state option \<Rightarrow> string) \<Rightarrow> risk_policy \<Rightarrow> candidate_allocation
     \<Rightarrow> portfolio \<Rightarrow> account_state option \<Rightarrow> rejection \<Rightarrow> time \<Rightarrow> time \<Rightarrow> risk_verdict
     \<Rightarrow> (string, dec) dict \<Rightarrow> risk_error + risk_report" where
  "rejection_report port_digest acc_digest p ca pf acc reason eval_time exp_time verdict metrics =
     mk_report (event_id_of ''RISK_EVAL_REJ_'' eval_time) verdict (ca_digest ca) (port_digest pf)
       (acc_digest acc) (rp_digest p) [] 1 metrics (Some reason) eval_time exp_time"

text \<open>\<open>peak_equity or curr_equity\<close>: a missing or zero peak is replaced by the current equity.\<close>

definition historical_peak :: "raw_dec option \<Rightarrow> dec \<Rightarrow> raw_dec" where
  "historical_peak peak equity = (case peak of None \<Rightarrow> Fin equity | Some v \<Rightarrow> if v = Fin 0 then Fin equity else v)"

definition drawdown_pct :: "dec \<Rightarrow> dec \<Rightarrow> dec" where
  "drawdown_pct peak equity =
     (if peak > 0 \<and> equity < peak then dmul (ddiv (dsub peak equity) peak) 100 else 0)"

definition evaluate_candidate_allocation ::
    "(portfolio \<Rightarrow> string) \<Rightarrow> (account_state option \<Rightarrow> string) \<Rightarrow> risk_policy \<Rightarrow> candidate_allocation
     \<Rightarrow> portfolio \<Rightarrow> account_state option \<Rightarrow> raw_dec option \<Rightarrow> dec option \<Rightarrow> int option \<Rightarrow> int option
     \<Rightarrow> bool \<Rightarrow> time \<Rightarrow> risk_error + risk_report" where
  "evaluate_candidate_allocation port_digest acc_digest p ca pf acc peak pnl_today data_age drift broker_connected
       eval_time =
     (let exp_time = eval_time + rp_ttl_seconds p * 1000000;
          reject = (\<lambda>reason verdict metrics.
            rejection_report port_digest acc_digest p ca pf acc reason eval_time exp_time verdict metrics);
          equity = pf_total_equity pf
      in if \<not> broker_connected then reject BROKER_DISCONNECTED KILL_SWITCH_BLOCKED []
      else if (case data_age of Some a \<Rightarrow> a > rp_max_data_age_ms p | None \<Rightarrow> False)
        then reject (STALE_MARKET_DATA (the data_age)) KILL_SWITCH_BLOCKED []
      else if (case drift of Some d \<Rightarrow> d > rp_max_clock_drift_ms p | None \<Rightarrow> False)
        then reject (CLOCK_SKEW_DETECTED (the drift)) KILL_SWITCH_BLOCKED []
      else if equity \<le> 0 then reject (INVALID_EQUITY equity) REJECTED_RISK []
      else rbind (verify_finite_decimal (historical_peak peak equity) ''peak_equity'' False (Some 0) None) (\<lambda>hp.
        let dd = drawdown_pct hp equity;
            today = (case pnl_today of Some v \<Rightarrow> v | None \<Rightarrow> pf_realized_pnl pf);
            total_pnl = dadd today (pf_unrealized_pnl pf)
        in if hp > 0 \<and> equity < hp \<and> dd \<ge> rp_max_drawdown_pct p
           then reject (MAX_DRAWDOWN_BREACHED dd) KILL_SWITCH_BLOCKED
                  [(''drawdown_pct'', dd), (''peak_equity'', hp)]
        else if total_pnl < dneg (rp_max_daily_loss p)
           then reject (MAX_DAILY_LOSS_BREACHED total_pnl) KILL_SWITCH_BLOCKED
                  [(''total_daily_pnl'', total_pnl), (''daily_loss_limit'', rp_max_daily_loss p)]
        else if (case acc of Some a \<Rightarrow> acc_free_margin a < rp_min_margin_buffer p | None \<Rightarrow> False)
           then reject (MARGIN_BUFFER_BREACHED (acc_free_margin (the acc))) REJECTED_RISK
                  [(''free_margin'', acc_free_margin (the acc)), (''min_margin_buffer'', rp_min_margin_buffer p)]
        else rbind (evaluate_and_derisk (ca_weights ca) p) (\<lambda>(adj, cash_w, verdict, reason).
          mk_report (event_id_of ''RISK_EVAL_'' eval_time) verdict (ca_digest ca) (port_digest pf)
            (acc_digest acc) (rp_digest p) adj cash_w
            [(''gross_leverage'', dsum (dict_values adj)),
             (''max_asset_concentration'', fold max (dict_values adj) 0),
             (''cash_weight'', cash_w), (''drawdown_pct'', dd), (''total_daily_pnl'', total_pnl)]
            reason eval_time exp_time)))"

subsection \<open>Rounding bounds\<close>

text \<open>Half a unit in the 28th digit, the relative error of one decimal operation.\<close>

definition ulp :: rat where
  "ulp = 1 / (2 * 10 ^ 27)"

lemma ulp_bounds: "0 < ulp" "ulp < 1"
  by (simp_all add: ulp_def)

lemma dround_within: "0 \<le> x \<Longrightarrow> \<bar>dround x - x\<bar> \<le> x * ulp"
  using dround_error [of x] by (simp only: ulp_def abs_of_nonneg)

lemma dround_upper: "0 \<le> x \<Longrightarrow> dround x \<le> x * (1 + ulp)"
  using dround_within [of x] by (simp add: distrib_left abs_le_iff)

lemma dround_lower: "0 \<le> x \<Longrightarrow> x * (1 - ulp) \<le> dround x"
  using dround_within [of x] by (simp add: right_diff_distrib abs_le_iff)

text \<open>A rounded running total against the exact one.\<close>

lemma fold_dadd_upper:
  "\<forall>x \<in> set xs. 0 \<le> x \<Longrightarrow> 0 \<le> a
    \<Longrightarrow> fold (\<lambda>x acc. dadd acc x) xs a \<le> (a + sum_list xs) * (1 + ulp) ^ length xs"
proof (induction xs arbitrary: a)
  case (Cons x xs)
  have nn: "0 \<le> x" "0 \<le> a" "0 \<le> sum_list xs" using Cons.prems by (auto intro: sum_list_nonneg)
  have u: "0 \<le> 1 + ulp" using ulp_bounds by simp
  have "fold (\<lambda>x acc. dadd acc x) xs (dadd a x) \<le> (dadd a x + sum_list xs) * (1 + ulp) ^ length xs"
    using Cons nn by (intro Cons.IH) auto
  also have "\<dots> \<le> ((a + x + sum_list xs) * (1 + ulp)) * (1 + ulp) ^ length xs"
  proof (rule mult_right_mono)
    have "sum_list xs \<le> sum_list xs * (1 + ulp)"
      using nn(3) ulp_bounds by (simp add: distrib_left)
    then show "dadd a x + sum_list xs \<le> (a + x + sum_list xs) * (1 + ulp)"
      using dround_upper [of "a + x"] nn by (simp add: dadd_def distrib_right)
  qed (use u in simp)
  finally show ?case by (simp add: mult.assoc add.assoc)
qed simp

lemma fold_dadd_lower:
  "\<forall>x \<in> set xs. 0 \<le> x \<Longrightarrow> 0 \<le> a
    \<Longrightarrow> (a + sum_list xs) * (1 - ulp) ^ length xs \<le> fold (\<lambda>x acc. dadd acc x) xs a"
proof (induction xs arbitrary: a)
  case (Cons x xs)
  have nn: "0 \<le> x" "0 \<le> a" "0 \<le> sum_list xs" using Cons.prems by (auto intro: sum_list_nonneg)
  have u: "0 \<le> 1 - ulp" using ulp_bounds by simp
  have "((a + x + sum_list xs) * (1 - ulp)) * (1 - ulp) ^ length xs
      \<le> (dadd a x + sum_list xs) * (1 - ulp) ^ length xs"
  proof (rule mult_right_mono)
    have "sum_list xs * (1 - ulp) \<le> sum_list xs"
      using nn(3) ulp_bounds by (simp add: right_diff_distrib)
    then show "(a + x + sum_list xs) * (1 - ulp) \<le> dadd a x + sum_list xs"
      using dround_lower [of "a + x"] nn by (simp add: dadd_def distrib_right)
  qed (use u in simp)
  also have "\<dots> \<le> fold (\<lambda>x acc. dadd acc x) xs (dadd a x)"
    using Cons nn by (intro Cons.IH) auto
  finally show ?case by (simp add: mult.assoc add.assoc)
qed simp

lemma dsum_upper: "\<forall>x \<in> set xs. 0 \<le> x \<Longrightarrow> dsum xs \<le> sum_list xs * (1 + ulp) ^ length xs"
  using fold_dadd_upper [of xs 0] by (simp add: dsum_def)

lemma dsum_lower: "\<forall>x \<in> set xs. 0 \<le> x \<Longrightarrow> sum_list xs * (1 - ulp) ^ length xs \<le> dsum xs"
  using fold_dadd_lower [of xs 0] by (simp add: dsum_def)

subsection \<open>The scale-down factor\<close>

lemma check_weights_Inr:
  "check_weights kvs = Inr ws \<longleftrightarrow> ws = map snd kvs \<and> (\<forall>w \<in> set (map snd kvs). 0 \<le> w)"
proof (induction kvs arbitrary: ws)
  case (Cons kv kvs)
  then show ?case by (cases kv) (auto simp: rbind_Inr_iff not_less)
qed auto

lemma concentration_factor_le:
  "fold (\<lambda>w alpha. if w > 0 \<and> ddiv c w < alpha then ddiv c w else alpha) ws a \<le> a
   \<and> (\<forall>w \<in> set ws. 0 < w \<longrightarrow>
       fold (\<lambda>w alpha. if w > 0 \<and> ddiv c w < alpha then ddiv c w else alpha) ws a \<le> ddiv c w)"
proof (induction ws arbitrary: a)
  case (Cons w ws)
  let ?a = "if w > 0 \<and> ddiv c w < a then ddiv c w else a"
  have "?a \<le> a" "0 < w \<longrightarrow> ?a \<le> ddiv c w" by auto
  then show ?case using Cons.IH [of ?a] by (auto intro: order_trans)
qed simp

lemma concentration_factor_nonneg:
  "0 \<le> c \<Longrightarrow> \<forall>w \<in> set ws. 0 \<le> w \<Longrightarrow> 0 \<le> a
    \<Longrightarrow> 0 \<le> fold (\<lambda>w alpha. if w > 0 \<and> ddiv c w < alpha then ddiv c w else alpha) ws a"
  by (induction ws arbitrary: a) auto

text \<open>The factor is total on validated input, and below every quotient it is the minimum of.\<close>

lemma scale_down_factor_sound:
  assumes "0 \<le> lev" "0 \<le> conc" "conc \<le> 1" "0 \<le> cash" "cash \<le> 1" and "\<forall>w \<in> set (map snd ws). 0 \<le> w"
  obtains alpha where "scale_down_factor ws lev conc cash = Inr alpha" and "0 \<le> alpha" "alpha \<le> 1"
    and "\<forall>w \<in> set (map snd ws). 0 < w \<longrightarrow> alpha \<le> ddiv conc w"
    and "dsum (map snd ws) \<noteq> 0 \<longrightarrow> alpha \<le> ddiv lev (dsum (map snd ws))
      \<and> alpha \<le> ddiv (dsub 1 cash) (dsum (map snd ws))"
proof -
  let ?vs = "map snd ws" and ?S = "dsum (map snd ws)"
  have checks: "check_weights ws = Inr ?vs" using assms(6) by (simp add: check_weights_Inr)
  have lims: "verify_finite_decimal (Fin lev) ''max_gross_leverage'' False (Some 0) None = Inr lev"
    "verify_finite_decimal (Fin conc) ''max_asset_concentration'' False (Some 0) (Some 1) = Inr conc"
    "verify_finite_decimal (Fin cash) ''min_cash_buffer'' False (Some 0) (Some 1) = Inr cash"
    using assms(1-5) by (simp_all only: verify_finite_decimal_Inr) auto
  have S: "0 \<le> ?S" using assms(6) by (rule dsum_nonneg)
  have avail: "0 \<le> dsub 1 cash" using assms(5) by simp
  then have na: "(dsub 1 cash < 0) = False" unfolding eq_False by (simp only: not_less)
  consider (zero) "lev \<le> 0" | (empty) "0 < lev" "?S = 0" | (some) "0 < lev" "?S \<noteq> 0" by linarith
  then show thesis
  proof cases
    case zero
    then have "scale_down_factor ws lev conc cash = Inr 0"
      by (simp only: scale_down_factor_def lims rbind_simps) simp
    then show thesis by (rule that) (use assms S avail in auto)
  next
    case empty
    have "sum_list ?vs * (1 - ulp) ^ length ?vs \<le> 0" using dsum_lower [OF assms(6)] empty(2) by simp
    moreover have "0 < (1 - ulp) ^ length ?vs" using ulp_bounds by simp
    ultimately have "sum_list ?vs \<le> 0" by (simp add: mult_le_0_iff)
    then have none: "\<forall>w \<in> set ?vs. w = 0"
      using assms(6) sum_list_nonneg_eq_0_iff [of ?vs] sum_list_nonneg [of ?vs] by force
    have "scale_down_factor ws lev conc cash = Inr 1"
      using empty assms(5) by (simp only: scale_down_factor_def lims rbind_simps checks Let_def) simp
    then show thesis by (rule that) (use none empty(2) in auto)
  next
    case some
    let ?alpha = "max 0 (min (min (min 1 (ddiv lev ?S)) (concentration_factor conc ?vs)) (ddiv (dsub 1 cash) ?S))"
    have "scale_down_factor ws lev conc cash = Inr ?alpha"
      using some assms(5) avail
      by (simp only: scale_down_factor_def lims rbind_simps checks Let_def) (simp add: na)
    moreover have "0 \<le> ddiv lev ?S" "0 \<le> ddiv (dsub 1 cash) ?S"
      using some S avail by simp_all
    moreover have "0 \<le> concentration_factor conc ?vs" "concentration_factor conc ?vs \<le> 1"
      "\<forall>w \<in> set ?vs. 0 < w \<longrightarrow> concentration_factor conc ?vs \<le> ddiv conc w"
      using concentration_factor_le [of conc ?vs 1] concentration_factor_nonneg [OF assms(2,6), of 1]
      by (simp_all add: concentration_factor_def)
    ultimately show thesis by (intro that [of ?alpha]) (auto simp: min.coboundedI1 min.coboundedI2)
  qed
qed

subsection \<open>Derisking\<close>

text \<open>The weights of a constructed candidate, representable in 28 digits.\<close>

definition candidate_weights :: "(string \<times> dec) list \<Rightarrow> bool" where
  "candidate_weights ws \<longleftrightarrow> dict_wf ws \<and> (\<forall>(sy, w) \<in> set ws. clean_symbol sy \<and> 0 \<le> w \<and> dec28 w)"

lemma scan_weights_clean:
  "dict_wf (cl @ ws) \<Longrightarrow> \<forall>(sy, w) \<in> set ws. clean_symbol sy \<and> 0 \<le> w
    \<Longrightarrow> scan_weights ws cl a m = Inr (cl @ ws, fold (\<lambda>x acc. dadd acc x) (map snd ws) a,
      fold (\<lambda>d m. if d > m then d else m) (map snd ws) m)"
proof (induction ws arbitrary: cl a m)
  case (Cons kv ws)
  obtain sy w where kv: "kv = (sy, w)" by (cases kv)
  have "dict_get cl sy = None"
    using Cons.prems(1) by (auto simp: kv dict_wf_def dict_get_def map_of_eq_None_iff)
  then have "dict_put sy w cl = cl @ [(sy, w)]" by (rule dict_put_fresh)
  moreover have "clean_symbol sy" "0 \<le> w" using Cons.prems(2) by (auto simp: kv)
  moreover have "dict_wf ((cl @ [(sy, w)]) @ ws)" using Cons.prems(1) by (simp add: kv)
  ultimately show ?case
    using Cons.IH [of "cl @ [(sy, w)]" "dadd a w" "if w > m then w else m"] Cons.prems(2)
    by (simp add: kv clean_symbol_def)
qed simp

lemma fold_largest:
  "m \<le> fold (\<lambda>d m. if d > m then d else m) ws (m :: rat)
   \<and> (\<forall>w \<in> set ws. w \<le> fold (\<lambda>d m. if d > m then d else m) ws m)"
proof (induction ws arbitrary: m)
  case (Cons w ws)
  let ?m = "if w > m then w else m"
  have "m \<le> ?m" "w \<le> ?m" by auto
  then show ?case using Cons.IH [of ?m] by (auto intro: order_trans)
qed simp

text \<open>The scaled weights, one by one and in total.\<close>

lemma scaled_weight:
  assumes "0 \<le> alpha" "alpha \<le> 1" "0 \<le> w" "dec28 w" "0 \<le> conc" "0 < w \<longrightarrow> alpha \<le> ddiv conc w"
  shows "0 \<le> dmul alpha w \<and> dmul alpha w \<le> w \<and> dmul alpha w \<le> conc * (1 + ulp) ^ 2"
proof -
  have "alpha * w \<le> conc * (1 + ulp)"
  proof (cases "0 < w")
    case True
    have "alpha \<le> conc / w * (1 + ulp)"
      using assms True dround_upper [of "conc / w"] by (simp add: ddiv_def)
    then have "alpha * w \<le> (conc / w * (1 + ulp)) * w" using True by (intro mult_right_mono) auto
    then show ?thesis using True by simp
  qed (use assms ulp_bounds in simp)
  then have "alpha * w * (1 + ulp) \<le> conc * (1 + ulp) * (1 + ulp)"
    using ulp_bounds by (intro mult_right_mono) simp_all
  moreover have "dmul alpha w \<le> alpha * w * (1 + ulp)"
    using assms dround_upper [of "alpha * w"] by (simp add: dmul_def)
  ultimately show ?thesis
    using dec_ctx.rnd_scale_le [of alpha w] assms by (simp add: dmul_def dround_exact power2_eq_square mult.assoc)
qed

lemma scaled_total:
  assumes "0 \<le> alpha" "\<forall>w \<in> set ws. 0 \<le> w" "0 \<le> cap"
    and "dsum ws \<noteq> 0 \<longrightarrow> alpha \<le> ddiv cap (dsum ws)" "0 < dsum ws"
  shows "dsum (map (dmul alpha) ws) * (1 - ulp) ^ length ws \<le> cap * (1 + ulp) ^ (length ws + 2)"
proof -
  let ?n = "length ws" and ?u = "1 + ulp" and ?d = "1 - ulp" and ?S = "dsum ws"
  have u: "0 \<le> ?u ^ k" "0 \<le> ?d ^ k" for k using ulp_bounds by simp_all
  have nn: "\<forall>w \<in> set (map (dmul alpha) ws). 0 \<le> w" using assms(1,2) by auto
  have "sum_list (map (dmul alpha) ws) \<le> sum_list (map (\<lambda>w. alpha * w * ?u) ws)"
    by (rule sum_list_mono) (use assms(1,2) dround_upper in \<open>auto simp: dmul_def\<close>)
  also have "\<dots> = alpha * ?u * sum_list ws"
    by (induction ws) (simp_all add: algebra_simps)
  finally have total: "sum_list (map (dmul alpha) ws) \<le> alpha * ?u * sum_list ws" .
  have "alpha \<le> cap / ?S * ?u"
    using assms(3-5) dround_upper [of "cap / ?S"] by (simp add: ddiv_def)
  then have aS: "alpha * ?S \<le> cap * ?u"
    using mult_right_mono [of alpha "cap / ?S * ?u" ?S] assms(5) by simp
  have "dsum (map (dmul alpha) ws) * ?d ^ ?n \<le> (sum_list (map (dmul alpha) ws) * ?u ^ ?n) * ?d ^ ?n"
    using dsum_upper [OF nn] u by (intro mult_right_mono) simp_all
  also have "\<dots> \<le> ((alpha * ?u * sum_list ws) * ?u ^ ?n) * ?d ^ ?n"
    using total u by (intro mult_right_mono) simp_all
  also have "\<dots> = alpha * ?u ^ (?n + 1) * (sum_list ws * ?d ^ ?n)" by (simp add: algebra_simps)
  also have "\<dots> \<le> alpha * ?u ^ (?n + 1) * ?S"
    using dsum_lower [OF assms(2)] assms(1) u(1) [of "?n + 1"] by (intro mult_left_mono) simp_all
  also have "\<dots> = (alpha * ?S) * ?u ^ (?n + 1)" by (simp add: algebra_simps)
  also have "\<dots> \<le> (cap * ?u) * ?u ^ (?n + 1)"
    by (rule mult_right_mono [OF aS u(1)])
  finally show ?thesis by (simp add: algebra_simps)
qed

lemma scaled_weights_list:
  assumes "0 \<le> alpha" "alpha \<le> 1" "0 \<le> conc" "\<forall>w \<in> set vs. 0 \<le> w \<and> dec28 w"
    and "\<forall>w \<in> set vs. 0 < w \<longrightarrow> alpha \<le> ddiv conc w"
  shows "list_all2 (\<lambda>w' w. 0 \<le> w' \<and> w' \<le> w \<and> w' \<le> conc * (1 + ulp) ^ 2) (map (dmul alpha) vs) vs"
  using assms(4,5) scaled_weight [OF assms(1,2) _ _ assms(3)]
  by (simp add: list_all2_map1 list_all2_same)

lemma derisk_outcome:
  assumes "policy_ok p" and "candidate_weights ws"
  shows "\<exists>adj cash verdict reason. evaluate_and_derisk ws p = Inr (adj, cash, verdict, reason)
    \<and> (case verdict of
        APPROVED \<Rightarrow> adj = ws \<and> cash = dsub 1 (dsum (dict_values ws)) \<and> reason = None
          \<and> dsum (dict_values ws) \<le> rp_max_gross_leverage p
          \<and> (\<forall>w \<in> set (dict_values ws). w \<le> rp_max_asset_concentration p)
          \<and> rp_min_cash_buffer p \<le> cash
      | REDUCED \<Rightarrow> rp_derisk p = EXACT_SCALE_DOWN \<and> map fst adj = map fst ws
          \<and> cash = dsub 1 (dsum (dict_values adj)) \<and> reason = None
          \<and> list_all2 (\<lambda>w' w. 0 \<le> w' \<and> w' \<le> w \<and> w' \<le> rp_max_asset_concentration p * (1 + ulp) ^ 2)
              (dict_values adj) (dict_values ws)
          \<and> dsum (dict_values adj) * (1 - ulp) ^ length ws
              \<le> min (rp_max_gross_leverage p) (dsub 1 (rp_min_cash_buffer p)) * (1 + ulp) ^ (length ws + 2)
      | REJECTED_RISK \<Rightarrow> adj = [] \<and> cash = 1 \<and> reason \<noteq> None
      | KILL_SWITCH_BLOCKED \<Rightarrow> False)"
proof -
  let ?vs = "map snd ws" and ?L = "rp_max_gross_leverage p" and ?C = "rp_max_asset_concentration p"
    and ?B = "rp_min_cash_buffer p"
  have wf: "dict_wf ws" and all: "\<forall>(sy, w) \<in> set ws. clean_symbol sy \<and> 0 \<le> w"
    and vs: "\<forall>w \<in> set ?vs. 0 \<le> w \<and> dec28 w"
    using assms(2) by (auto simp: candidate_weights_def)
  define largest where "largest = fold (\<lambda>d m. if d > m then d else m) ?vs 0"
  have scan: "scan_weights ws [] 0 0 = Inr (ws, dsum ?vs, largest)"
    using scan_weights_clean [of "[]" ws 0 0] wf all by (simp add: dsum_def largest_def)
  have largest: "\<forall>w \<in> set ?vs. w \<le> largest"
    using fold_largest [of 0 ?vs] by (simp add: largest_def)
  note eval = evaluate_and_derisk_def scan rbind_simps case_prod_conv Let_def
  show ?thesis
  proof (cases "dsum ?vs \<le> ?L \<and> largest \<le> ?C \<and> dsub 1 (dsum ?vs) \<ge> ?B")
    case True
    then have "evaluate_and_derisk ws p = Inr (ws, dsub 1 (dsum ?vs), APPROVED, None)"
      by (simp only: eval) simp
    then show ?thesis using True largest by (auto simp: dict_values_def intro: order_trans)
  next
    case False
    show ?thesis
    proof (cases "rp_derisk p")
      case BINARY_REJECT
      have "\<exists>r. evaluate_and_derisk ws p = Inr ([], 1, REJECTED_RISK, Some r)"
        using False by (simp only: eval BINARY_REJECT derisk_policy.case) auto
      then show ?thesis by auto
    next
      case EXACT_SCALE_DOWN
      obtain alpha where f: "scale_down_factor ws ?L ?C ?B = Inr alpha" "0 \<le> alpha" "alpha \<le> 1"
          "\<forall>w \<in> set ?vs. 0 < w \<longrightarrow> alpha \<le> ddiv ?C w"
          "dsum ?vs \<noteq> 0 \<longrightarrow> alpha \<le> ddiv ?L (dsum ?vs) \<and> alpha \<le> ddiv (dsub 1 ?B) (dsum ?vs)"
        by (rule scale_down_factor_sound [of ?L ?C ?B ws])
          (use assms(1) vs in \<open>auto simp: policy_ok_def\<close>)
      show ?thesis
      proof (cases "alpha = 0")
        case True
        then have "evaluate_and_derisk ws p = Inr ([], 1, REJECTED_RISK, Some SCALE_DOWN_FAILED)"
          using False f(1) by (simp only: eval EXACT_SCALE_DOWN derisk_policy.case) auto
        then show ?thesis by auto
      next
        case scaled: False
        let ?adj = "map (\<lambda>(sy, w). (sy, dmul alpha w)) ws"
        have r: "evaluate_and_derisk ws p = Inr (?adj, dsub 1 (dsum (dict_values ?adj)), REDUCED, None)"
          using False f(1) scaled by (simp only: eval EXACT_SCALE_DOWN derisk_policy.case) auto
        have vals: "dict_values ?adj = map (dmul alpha) ?vs" and keys: "map fst ?adj = map fst ws"
          by (simp_all add: dict_values_def case_prod_beta)
        have lims: "0 \<le> ?L" "0 \<le> dsub 1 ?B" "0 \<le> ?C" using assms(1) by (simp_all add: policy_ok_def)
        have vs0: "\<forall>w \<in> set ?vs. 0 \<le> w" using vs by blast
        have totals: "dsum (map (dmul alpha) ?vs) * (1 - ulp) ^ length ws \<le> cap * (1 + ulp) ^ (length ws + 2)"
          if "0 \<le> cap" "dsum ?vs \<noteq> 0 \<longrightarrow> alpha \<le> ddiv cap (dsum ?vs)" for cap
        proof (cases "dsum ?vs = 0")
          case True
          have "dsum (map (dmul alpha) ?vs) \<le> dsum ?vs"
            using scaled_weights_list [OF f(2,3) lims(3) vs f(4)]
            by (intro dsum_mono) (auto elim: list_all2_mono)
          moreover have "0 \<le> dsum (map (dmul alpha) ?vs)" using vs0 f(2) by (intro dsum_nonneg) auto
          ultimately have "dsum (map (dmul alpha) ?vs) = 0" using True by simp
          then show ?thesis using that(1) ulp_bounds by simp
        next
          case False
          then have "0 < dsum ?vs" using dsum_nonneg [OF vs0] by simp
          from scaled_total [OF f(2) vs0 that this] show ?thesis by simp
        qed
        have "dsum (map (dmul alpha) ?vs) * (1 - ulp) ^ length ws
            \<le> min ?L (dsub 1 ?B) * (1 + ulp) ^ (length ws + 2)"
          using totals [OF lims(1)] totals [OF lims(2)] f(5) by (simp add: min_def)
        note granted = this [folded vals] scaled_weights_list [OF f(2,3) lims(3) vs f(4), folded vals,
            folded dict_values_def [of ws]]
        show ?thesis
          by (intro exI, rule conjI [OF r]) (simp only: risk_verdict.case granted keys EXACT_SCALE_DOWN simp_thms)
      qed
    qed
  qed
qed

text \<open>C20: What derisking grants.  For the weights of a candidate under any constructed policy,
  \<open>evaluate_and_derisk\<close> returns one of three outcomes.  APPROVED: the weights are unchanged and
  meet every limit exactly.  REDUCED: only under EXACT_SCALE_DOWN; the symbols are the same, every
  weight is non-negative, at most the proposed one and at most the concentration limit, and the
  gross leverage is at most the leverage limit and what the cash buffer leaves, the limits up to the
  accumulated relative error of the decimal operations (half a unit in the 28th digit each).
  REJECTED: no weights and all cash.\<close>

theorem derisk_respects_limits:
  assumes "policy_ok p" and "candidate_weights ws"
  shows "\<exists>adj cash verdict reason. evaluate_and_derisk ws p = Inr (adj, cash, verdict, reason)
    \<and> (case verdict of
        APPROVED \<Rightarrow> adj = ws \<and> cash = dsub 1 (dsum (dict_values ws)) \<and> reason = None
          \<and> dsum (dict_values ws) \<le> rp_max_gross_leverage p
          \<and> (\<forall>w \<in> set (dict_values ws). w \<le> rp_max_asset_concentration p)
          \<and> rp_min_cash_buffer p \<le> cash
      | REDUCED \<Rightarrow> rp_derisk p = EXACT_SCALE_DOWN \<and> map fst adj = map fst ws
          \<and> cash = dsub 1 (dsum (dict_values adj)) \<and> reason = None
          \<and> list_all2 (\<lambda>w' w. 0 \<le> w' \<and> w' \<le> w \<and> w' \<le> rp_max_asset_concentration p * (1 + ulp) ^ 2)
              (dict_values adj) (dict_values ws)
          \<and> dsum (dict_values adj) * (1 - ulp) ^ length ws
              \<le> min (rp_max_gross_leverage p) (dsub 1 (rp_min_cash_buffer p)) * (1 + ulp) ^ (length ws + 2)
      | REJECTED_RISK \<Rightarrow> adj = [] \<and> cash = 1 \<and> reason \<noteq> None
      | KILL_SWITCH_BLOCKED \<Rightarrow> False)"
  using derisk_outcome [OF assms] .

text \<open>The limits are not met exactly, although the docstring of the factor calls them proven.  With a
  leverage limit of 1/2, the weights 0.1 and 0.8 are reduced to a gross leverage that exceeds the
  limit by one unit in the 28th decimal.\<close>

definition half_leverage :: risk_policy where
  "half_leverage = (default_policy zero_digest)
     \<lparr>rp_max_gross_leverage := 1/2, rp_max_asset_concentration := 1, rp_min_cash_buffer := 0\<rparr>"

definition sample_weights :: "(string \<times> dec) list" where
  "sample_weights = [(''A'', 1/10), (''B'', 4/5)]"

lemma half_leverage_simps [simp]:
  "rp_max_gross_leverage half_leverage = 1/2" "rp_max_asset_concentration half_leverage = 1"
  "rp_min_cash_buffer half_leverage = 0" "rp_derisk half_leverage = EXACT_SCALE_DOWN"
  "policy_ok half_leverage" "rp_digest half_leverage = zero_digest" "rp_ttl_seconds half_leverage = 60"
  by (simp_all add: half_leverage_def default_policy_def policy_ok_def)

lemma sample_arithmetic:
  "dadd 0 (1/10) = 1/10" "dadd (1/10) (4/5) = 9/10" "dsub 1 (9/10) = 1/10" "dsub 1 0 = 1"
  "ddiv (1/2) (9/10) = 1388888888888888888888888889 / 2500000000000000000000000000" "ddiv 1 (1/10) = 10" "ddiv 1 (4/5) = 5/4"
  "ddiv 1 (9/10) = 1111111111111111111111111111 / 1000000000000000000000000000"
  "dmul (1388888888888888888888888889 / 2500000000000000000000000000) (1/10) = 1388888888888888888888888889 / 25000000000000000000000000000"
  "dmul (1388888888888888888888888889 / 2500000000000000000000000000) (4/5) = 888888888888888888888888889 / 2000000000000000000000000000"
  "dadd 0 (1388888888888888888888888889 / 25000000000000000000000000000) = 1388888888888888888888888889 / 25000000000000000000000000000"
  "dadd (1388888888888888888888888889 / 25000000000000000000000000000) (888888888888888888888888889 / 2000000000000000000000000000)
     = 5000000000000000000000000001 / 10000000000000000000000000000"
  by (simp_all add: dec_ops dec_eval)


lemma sample_candidate_weights: "candidate_weights sample_weights"
  by (simp add: candidate_weights_def sample_weights_def dict_wf_def clean_symbol_def string_eval
      dec28_code dec_eval)

lemma sample_total:
  "dsum [1388888888888888888888888889 / 25000000000000000000000000000, 888888888888888888888888889 / 2000000000000000000000000000]
     = 5000000000000000000000000001 / 10000000000000000000000000000"
  by (simp only: dsum_def fold.simps comp_def id_def sample_arithmetic)

lemma sample_reduced:
  "evaluate_and_derisk sample_weights half_leverage =
     Inr ([(''A'', 1388888888888888888888888889 / 25000000000000000000000000000), (''B'', 888888888888888888888888889 / 2000000000000000000000000000)],
       dsub 1 (5000000000000000000000000001 / 10000000000000000000000000000), REDUCED, None)"
proof -
  have scan: "scan_weights sample_weights [] 0 0 = Inr (sample_weights, 9/10, 4/5)"
    by (simp add: sample_weights_def sample_arithmetic string_eval)
  have lims: "verify_finite_decimal (Fin (1/2)) ''max_gross_leverage'' False (Some 0) None = Inr (1/2)"
    "verify_finite_decimal (Fin 1) ''max_asset_concentration'' False (Some 0) (Some 1) = Inr 1"
    "verify_finite_decimal (Fin 0) ''min_cash_buffer'' False (Some 0) (Some 1) = Inr 0"
    by simp_all
  have ws: "check_weights sample_weights = Inr [1/10, 4/5]" by (simp add: sample_weights_def)
  have total: "dsum [1/10, 4/5] = 9/10" by (simp add: dsum_def sample_arithmetic)
  have "scale_down_factor sample_weights (1/2) 1 0 = Inr (1388888888888888888888888889 / 2500000000000000000000000000)"
    unfolding scale_down_factor_def lims rbind_simps ws Let_def total
    by (simp add: concentration_factor_def sample_arithmetic)
  then show ?thesis
    unfolding evaluate_and_derisk_def scan rbind_simps case_prod_conv Let_def
    by (simp only: half_leverage_simps derisk_policy.case rbind_simps)
      (simp add: sample_arithmetic(3,9,10) sample_weights_def dict_values_def sample_total)
qed

theorem derisk_respects_limits_witness:
  "\<exists>adj cash. evaluate_and_derisk sample_weights half_leverage = Inr (adj, cash, REDUCED, None)
    \<and> rp_max_gross_leverage half_leverage < dsum (dict_values adj)
    \<and> dsum (dict_values adj) * (1 - ulp) ^ 2 \<le> rp_max_gross_leverage half_leverage * (1 + ulp) ^ 4"
proof -
  obtain adj where r: "evaluate_and_derisk sample_weights half_leverage
      = Inr (adj, dsub 1 (5000000000000000000000000001 / 10000000000000000000000000000), REDUCED, None)"
    and adj: "dict_values adj = [1388888888888888888888888889 / 25000000000000000000000000000, 888888888888888888888888889 / 2000000000000000000000000000]"
    using sample_reduced by (auto simp: dict_values_def)
  have bound: "dsum (dict_values adj) * (1 - ulp) ^ length sample_weights
      \<le> min (1/2) (dsub 1 0) * (1 + ulp) ^ (length sample_weights + 2)"
    using derisk_respects_limits [OF half_leverage_simps(5) sample_candidate_weights] unfolding r by auto
  have "dsum (dict_values adj) = 5000000000000000000000000001 / 10000000000000000000000000000"
    unfolding adj by (rule sample_total)
  then have "rp_max_gross_leverage half_leverage < dsum (dict_values adj)" by simp
  moreover have "dsum (dict_values adj) * (1 - ulp) ^ 2 \<le> 1/2 * (1 + ulp) ^ 4"
    using bound by (simp add: sample_weights_def sample_arithmetic eval_nat_numeral)
  ultimately show ?thesis using r by auto
qed

subsection \<open>No exposure unless every gate is clear\<close>

text \<open>The gates as one condition on what the engine observes; \<open>hp\<close> is the peak equity in force.\<close>

definition gates_clear ::
    "risk_policy \<Rightarrow> portfolio \<Rightarrow> account_state option \<Rightarrow> dec \<Rightarrow> dec option \<Rightarrow> int option \<Rightarrow> int option
     \<Rightarrow> bool \<Rightarrow> bool" where
  "gates_clear p pf acc hp pnl_today data_age drift broker_connected \<longleftrightarrow>
     broker_connected
     \<and> (\<forall>a. data_age = Some a \<longrightarrow> a \<le> rp_max_data_age_ms p)
     \<and> (\<forall>d. drift = Some d \<longrightarrow> d \<le> rp_max_clock_drift_ms p)
     \<and> 0 < pf_total_equity pf
     \<and> (pf_total_equity pf < hp \<longrightarrow> drawdown_pct hp (pf_total_equity pf) < rp_max_drawdown_pct p)
     \<and> dneg (rp_max_daily_loss p)
         \<le> dadd (case pnl_today of Some v \<Rightarrow> v | None \<Rightarrow> pf_realized_pnl pf) (pf_unrealized_pnl pf)
     \<and> (\<forall>a. acc = Some a \<longrightarrow> rp_min_margin_buffer p \<le> acc_free_margin a)"

definition digests_ok ::
    "(portfolio \<Rightarrow> string) \<Rightarrow> (account_state option \<Rightarrow> string) \<Rightarrow> risk_policy \<Rightarrow> candidate_allocation
     \<Rightarrow> portfolio \<Rightarrow> account_state option \<Rightarrow> bool" where
  "digests_ok port_digest acc_digest p ca pf acc \<longleftrightarrow> valid_sha256 (ca_digest ca)
     \<and> valid_sha256 (port_digest pf) \<and> valid_sha256 (acc_digest acc) \<and> valid_sha256 (rp_digest p)"

lemma mk_report_valid:
  assumes "valid_sha256 a" "valid_sha256 b" "valid_sha256 c" "valid_sha256 d" "e \<le> x"
    and "dict_wf ws" "\<forall>(sy, w) \<in> set ws. clean_symbol sy \<and> 0 \<le> w"
  shows "mk_report i v a b c d ws cash m r e x =
    (if cash < 0 then Inl (NegativeValue ''cash_weight'')
     else Inr \<lparr>rr_evaluation_id = i, rr_verdict = v, rr_allocation_digest = a, rr_portfolio_digest = b,
       rr_account_digest = c, rr_policy_digest = d, rr_weights = ws, rr_cash_weight = cash,
       rr_metrics = m, rr_rejection = r, rr_evaluated_at = e, rr_expires_at = x\<rparr>)"
  using assms by (simp add: mk_report_def clean_weights_id raise_if_def)

lemma rejection_report_valid:
  assumes "digests_ok port_digest acc_digest p ca pf acc" "policy_ok p"
  obtains r where "rejection_report port_digest acc_digest p ca pf acc reason ts
      (ts + rp_ttl_seconds p * 1000000) verdict metrics = Inr r"
    and "rr_verdict r = verdict" "rr_weights r = []" "rr_cash_weight r = 1" "rr_rejection r = Some reason"
    and "rr_expires_at r = ts + rp_ttl_seconds p * 1000000"
proof -
  have "ts \<le> ts + rp_ttl_seconds p * 1000000" using assms(2) by (simp add: policy_ok_def)
  with assms(1) have "rejection_report port_digest acc_digest p ca pf acc reason ts
      (ts + rp_ttl_seconds p * 1000000) verdict metrics =
      Inr \<lparr>rr_evaluation_id = event_id_of ''RISK_EVAL_REJ_'' ts, rr_verdict = verdict,
        rr_allocation_digest = ca_digest ca, rr_portfolio_digest = port_digest pf,
        rr_account_digest = acc_digest acc, rr_policy_digest = rp_digest p, rr_weights = [],
        rr_cash_weight = 1, rr_metrics = metrics, rr_rejection = Some reason, rr_evaluated_at = ts,
        rr_expires_at = ts + rp_ttl_seconds p * 1000000\<rparr>"
    by (simp add: rejection_report_def digests_ok_def mk_report_valid dict_wf_def)
  then show thesis by (rule that) simp_all
qed

lemma derisked_weights_clean:
  assumes "policy_ok p" "candidate_weights ws" "evaluate_and_derisk ws p = Inr (ws', cash, verdict, reason)"
  shows "dict_wf ws' \<and> (\<forall>(sy, w) \<in> set ws'. clean_symbol sy \<and> 0 \<le> w)"
proof -
  note grant = derisk_outcome [OF assms(1,2), unfolded assms(3)]
  show ?thesis
  proof (cases verdict)
    case REDUCED
    then have keys: "map fst ws' = map fst ws"
      and vals: "list_all2 (\<lambda>w' w. 0 \<le> w' \<and> w' \<le> w \<and> w' \<le> rp_max_asset_concentration p * (1 + ulp) ^ 2)
        (dict_values ws') (dict_values ws)"
      using grant by auto
    have "\<forall>w \<in> set (dict_values ws'). 0 \<le> w"
      using vals by (auto simp: list_all2_conv_all_nth in_set_conv_nth)
    moreover have "fst ` set ws' = fst ` set ws" using keys by (metis set_map)
    then have "\<forall>sy \<in> fst ` set ws'. clean_symbol sy"
      using assms(2) by (auto simp: candidate_weights_def)
    ultimately show ?thesis
      using assms(2) keys by (auto simp: candidate_weights_def dict_wf_def dict_values_def)
  qed (use grant assms(2) in \<open>auto simp: candidate_weights_def dict_wf_def\<close>)
qed

text \<open>The report of a rejection, and the two ways the evaluation can go.\<close>

definition rejects :: "risk_report \<Rightarrow> bool" where
  "rejects r \<longleftrightarrow> rr_verdict r \<in> {REJECTED_RISK, KILL_SWITCH_BLOCKED} \<and> rr_weights r = []
     \<and> rr_cash_weight r = 1 \<and> rr_rejection r \<noteq> None"

lemma rejection_rejects:
  assumes "digests_ok port_digest acc_digest p ca pf acc" "policy_ok p"
    and "verdict \<in> {REJECTED_RISK, KILL_SWITCH_BLOCKED}"
  shows "\<exists>r. rejection_report port_digest acc_digest p ca pf acc reason ts
      (ts + rp_ttl_seconds p * 1000000) verdict metrics = Inr r \<and> rejects r
      \<and> rr_expires_at r = ts + rp_ttl_seconds p * 1000000"
  by (rule rejection_report_valid [OF assms(1,2), of reason ts verdict metrics])
    (use assms(3) in \<open>auto simp: rejects_def\<close>)

lemma gate_forms:
  "(case data_age of Some a \<Rightarrow> a > rp_max_data_age_ms p | None \<Rightarrow> False)
     = (\<not> (\<forall>a. data_age = Some a \<longrightarrow> a \<le> rp_max_data_age_ms p))"
  "(case drift of Some d \<Rightarrow> d > rp_max_clock_drift_ms p | None \<Rightarrow> False)
     = (\<not> (\<forall>d. drift = Some d \<longrightarrow> d \<le> rp_max_clock_drift_ms p))"
  "(case acc of Some a \<Rightarrow> acc_free_margin a < rp_min_margin_buffer p | None \<Rightarrow> False)
     = (\<not> (\<forall>a. acc = Some a \<longrightarrow> rp_min_margin_buffer p \<le> acc_free_margin a))"
  by (auto split: option.splits)

lemma peak_accepted:
  "historical_peak peak equity = Fin hp \<Longrightarrow> 0 \<le> hp
    \<Longrightarrow> verify_finite_decimal (historical_peak peak equity) ''peak_equity'' False (Some 0) None = Inr hp"
  by simp

lemma gate_blocks:
  assumes "policy_ok p" and "digests_ok port_digest acc_digest p ca pf acc"
    and "historical_peak peak (pf_total_equity pf) = Fin hp" and "0 \<le> hp"
    and blocked: "\<not> gates_clear p pf acc hp pnl_today data_age drift broker_connected"
  shows "\<exists>r. evaluate_candidate_allocation port_digest acc_digest p ca pf acc peak pnl_today data_age drift
      broker_connected ts = Inr r \<and> rejects r \<and> rr_expires_at r = ts + rp_ttl_seconds p * 1000000"
    (is "\<exists>r. ?eval = Inr r \<and> _")
proof -
  let ?equity = "pf_total_equity pf"
    and ?pnl = "dadd (case pnl_today of Some v \<Rightarrow> v | None \<Rightarrow> pf_realized_pnl pf) (pf_unrealized_pnl pf)"
    and ?dd = "0 < hp \<and> pf_total_equity pf < hp \<and> rp_max_drawdown_pct p \<le> drawdown_pct hp (pf_total_equity pf)"
  note rej = rejection_rejects [OF assms(2,1)]
  note eval = evaluate_candidate_allocation_def Let_def gate_forms peak_accepted [OF assms(3,4)] rbind_simps
  consider (pre) "\<not> (broker_connected \<and> (\<forall>a. data_age = Some a \<longrightarrow> a \<le> rp_max_data_age_ms p)
      \<and> (\<forall>d. drift = Some d \<longrightarrow> d \<le> rp_max_clock_drift_ms p) \<and> 0 < ?equity)"
    | (post) "broker_connected" "\<forall>a. data_age = Some a \<longrightarrow> a \<le> rp_max_data_age_ms p"
      "\<forall>d. drift = Some d \<longrightarrow> d \<le> rp_max_clock_drift_ms p" "0 < ?equity"
    by blast
  then show ?thesis
  proof cases
    case pre
    then show ?thesis unfolding eval by (simp add: rej not_less) blast?
  next
    case post
    have "(?equity \<le> 0) = False" using post(4) by simp
    note passed = this post(1-3) [THEN eqTrueI]
    have "?equity < hp \<Longrightarrow> 0 < hp" using post(4) by linarith
    then have "?dd \<or> ?pnl < dneg (rp_max_daily_loss p)
        \<or> \<not> (\<forall>a. acc = Some a \<longrightarrow> rp_min_margin_buffer p \<le> acc_free_margin a)"
      using blocked post by (auto simp: gates_clear_def not_le)
    then consider (drawdown) ?dd | (loss) "\<not> ?dd" "?pnl < dneg (rp_max_daily_loss p)"
      | (margin) "\<not> ?dd" "\<not> ?pnl < dneg (rp_max_daily_loss p)"
        "\<not> (\<forall>a. acc = Some a \<longrightarrow> rp_min_margin_buffer p \<le> acc_free_margin a)"
      by blast
    then show ?thesis
      by cases (simp_all only: eval passed if_True if_False simp_thms, simp_all only: rej insert_iff simp_thms)
  qed
qed

lemma gates_pass:
  assumes "historical_peak peak (pf_total_equity pf) = Fin hp" and "0 \<le> hp"
    and "evaluate_and_derisk (ca_weights ca) p = Inr (ws', cash, verdict, reason)"
    and clear: "gates_clear p pf acc hp pnl_today data_age drift broker_connected"
  shows "\<exists>metrics. evaluate_candidate_allocation port_digest acc_digest p ca pf acc peak pnl_today data_age drift
      broker_connected ts = mk_report (event_id_of ''RISK_EVAL_'' ts) verdict (ca_digest ca) (port_digest pf)
      (acc_digest acc) (rp_digest p) ws' cash metrics reason ts (ts + rp_ttl_seconds p * 1000000)"
proof -
  note eval = evaluate_candidate_allocation_def Let_def gate_forms peak_accepted [OF assms(1,2)] rbind_simps
    assms(3) case_prod_conv
  show ?thesis using clear unfolding eval gates_clear_def by (simp add: not_le not_less) force
qed

text \<open>C21: No exposure through a closed gate.  If the broker is disconnected, the market data too
  old, the clock skewed, the equity not positive, the drawdown from the peak at its limit, the daily
  loss beyond its limit or the free margin below its buffer, then \<open>evaluate_candidate_allocation\<close>
  emits a rejection: no weights, all cash, a rejection code, whatever the candidate asks for.  If all
  gates are clear the report carries exactly the weights, cash and verdict of the derisking, which may
  itself reject the candidate; the evaluation raises when the derisked cash weight is negative.  Every
  report expires the policy's time-to-live after its evaluation.  (The gate for the daily loss
  is clear at the limit itself, where the module's docstring and the contract ask for a strict bound,
  see \<open>loss_at_the_limit_is_admitted\<close>.)\<close>

theorem gates_fail_closed:
  assumes "policy_ok p" and "digests_ok port_digest acc_digest p ca pf acc"
    and "candidate_weights (ca_weights ca)"
    and "historical_peak peak (pf_total_equity pf) = Fin hp" and "0 \<le> hp"
    and "evaluate_and_derisk (ca_weights ca) p = Inr (ws', cash, verdict, reason)"
  shows "(case evaluate_candidate_allocation port_digest acc_digest p ca pf acc peak pnl_today data_age drift
      broker_connected ts of
      Inl e \<Rightarrow> gates_clear p pf acc hp pnl_today data_age drift broker_connected \<and> cash < 0
        \<and> e = NegativeValue ''cash_weight''
    | Inr r \<Rightarrow> rr_expires_at r = ts + rp_ttl_seconds p * 1000000
        \<and> (if gates_clear p pf acc hp pnl_today data_age drift broker_connected
           then 0 \<le> cash \<and> rr_weights r = ws' \<and> rr_cash_weight r = cash \<and> rr_verdict r = verdict
           else rejects r))"
proof (cases "gates_clear p pf acc hp pnl_today data_age drift broker_connected")
  case True
  have "ts \<le> ts + rp_ttl_seconds p * 1000000" using assms(1) by (simp add: policy_ok_def)
  moreover have "dict_wf ws'" "\<forall>(sy, w) \<in> set ws'. clean_symbol sy \<and> 0 \<le> w"
    using derisked_weights_clean [OF assms(1,3,6)] by simp_all
  moreover obtain metrics where "evaluate_candidate_allocation port_digest acc_digest p ca pf acc peak pnl_today
      data_age drift broker_connected ts = mk_report (event_id_of ''RISK_EVAL_'' ts) verdict (ca_digest ca)
      (port_digest pf) (acc_digest acc) (rp_digest p) ws' cash metrics reason ts (ts + rp_ttl_seconds p * 1000000)"
    using gates_pass [where port_digest = port_digest and acc_digest = acc_digest and ts = ts,
        OF assms(4-6) True] by blast
  ultimately show ?thesis using True assms(2) by (simp add: digests_ok_def mk_report_valid)
next
  case False
  show ?thesis using gate_blocks [OF assms(1,2,4,5) False, of ts] False by auto
qed

subsection \<open>Sample evaluations\<close>

definition sample_candidate :: candidate_allocation where
  "sample_candidate = \<lparr>ca_id = ''C'', ca_strategy = ''S'', ca_weights = sample_weights, ca_cash_weight = 0,
     ca_source_digest = zero_digest, ca_as_of = 0, ca_digest = zero_digest\<rparr>"

lemma sample_candidate_simps [simp]: "ca_weights sample_candidate = sample_weights"
  "ca_digest sample_candidate = zero_digest"
  by (simp_all add: sample_candidate_def)

theorem gates_fail_closed_witness:
  "(\<exists>r. evaluate_candidate_allocation (\<lambda>_. zero_digest) (\<lambda>_. zero_digest) half_leverage sample_candidate
       sample_portfolio None None None (Some 2000) None True 0 = Inr r \<and> rejects r)
   \<and> (\<exists>r. evaluate_candidate_allocation (\<lambda>_. zero_digest) (\<lambda>_. zero_digest) half_leverage sample_candidate
       sample_portfolio None None None (Some 100) None True 0 = Inr r \<and> rr_verdict r = REDUCED)"
proof -
  have d: "digests_ok (\<lambda>_. zero_digest) (\<lambda>_. zero_digest) half_leverage sample_candidate sample_portfolio None"
    by (simp add: digests_ok_def)
  have w: "candidate_weights (ca_weights sample_candidate)" by (simp add: sample_candidate_weights)
  have h: "historical_peak None (pf_total_equity sample_portfolio) = Fin 6000"
    by (simp add: historical_peak_def sample_portfolio_def)
  have e: "evaluate_and_derisk (ca_weights sample_candidate) half_leverage =
     Inr ([(''A'', 1388888888888888888888888889 / 25000000000000000000000000000),
           (''B'', 888888888888888888888888889 / 2000000000000000000000000000)],
       dsub 1 (5000000000000000000000000001 / 10000000000000000000000000000), REDUCED, None)"
    by (simp only: sample_candidate_simps sample_reduced)
  have cash: "\<not> dsub 1 (5000000000000000000000000001 / 10000000000000000000000000000) < 0" by (simp add: not_less)
  have g: "gates_clear half_leverage sample_portfolio None 6000 None (Some a) None True \<longleftrightarrow> a \<le> 1500" for a
  proof -
    have "dneg 10000 = -10000" "dadd 7 0 = 7" by (simp_all add: dec_ops dec_eval)
    then show ?thesis by (simp add: gates_clear_def sample_portfolio_def half_leverage_def default_policy_def)
  qed
  note gates = gates_fail_closed [OF half_leverage_simps(5) d w h _ e, where pnl_today = None and drift = None
      and broker_connected = True and ts = 0]
  have "\<exists>r. evaluate_candidate_allocation (\<lambda>_. zero_digest) (\<lambda>_. zero_digest) half_leverage sample_candidate
       sample_portfolio None None None (Some a) None True 0 = Inr r
     \<and> (if a \<le> 1500 then rr_verdict r = REDUCED else rejects r)" for a
    using gates [of "Some a"] cash by (auto simp: g split: sum.splits if_splits)
  from this [of 2000] this [of 100] show ?thesis by simp
qed

text \<open>A day that has lost exactly the limit is admitted.\<close>

theorem loss_at_the_limit_is_admitted:
  "\<exists>r. evaluate_candidate_allocation (\<lambda>_. zero_digest) (\<lambda>_. zero_digest) half_leverage sample_candidate
       sample_portfolio None None (Some (- rp_max_daily_loss half_leverage)) (Some 100) None True 0 = Inr r
     \<and> rr_verdict r = REDUCED \<and> rr_weights r \<noteq> []"
proof -
  have h: "historical_peak None (pf_total_equity sample_portfolio) = Fin 6000"
    by (simp add: historical_peak_def sample_portfolio_def)
  have e: "evaluate_and_derisk (ca_weights sample_candidate) half_leverage =
     Inr ([(''A'', 1388888888888888888888888889 / 25000000000000000000000000000),
           (''B'', 888888888888888888888888889 / 2000000000000000000000000000)],
       dsub 1 (5000000000000000000000000001 / 10000000000000000000000000000), REDUCED, None)"
    by (simp only: sample_candidate_simps sample_reduced)
  have "dneg 10000 = -10000" "dadd (-10000) 0 = -10000" by (simp_all add: dec_ops dec_eval)
  then have g: "gates_clear half_leverage sample_portfolio None 6000 (Some (- rp_max_daily_loss half_leverage))
      (Some 100) None True"
    by (simp add: gates_clear_def sample_portfolio_def half_leverage_def default_policy_def)
  have clean: "dict_wf ws'" "\<forall>(sy, w) \<in> set ws'. clean_symbol sy \<and> 0 \<le> w"
    if "ws' = [(''A'', 1388888888888888888888888889 / 25000000000000000000000000000),
           (''B'', 888888888888888888888888889 / 2000000000000000000000000000)]" for ws' :: "(string, dec) dict"
    using derisked_weights_clean [OF half_leverage_simps(5) _ e] sample_candidate_weights that by simp_all
  have cash: "0 \<le> dsub 1 (5000000000000000000000000001 / 10000000000000000000000000000)" by simp
  obtain metrics where "evaluate_candidate_allocation (\<lambda>_. zero_digest) (\<lambda>_. zero_digest) half_leverage
      sample_candidate sample_portfolio None None (Some (- rp_max_daily_loss half_leverage)) (Some 100) None True 0
    = mk_report (event_id_of ''RISK_EVAL_'' 0) REDUCED (ca_digest sample_candidate) zero_digest zero_digest
        (rp_digest half_leverage) [(''A'', 1388888888888888888888888889 / 25000000000000000000000000000),
           (''B'', 888888888888888888888888889 / 2000000000000000000000000000)]
        (dsub 1 (5000000000000000000000000001 / 10000000000000000000000000000)) metrics None 0
        (0 + rp_ttl_seconds half_leverage * 1000000)"
    using gates_pass [OF h _ e g, of "\<lambda>_. zero_digest" "\<lambda>_. zero_digest" 0] by auto
  moreover have "valid_sha256 (rp_digest half_leverage)" "0 \<le> 0 + rp_ttl_seconds half_leverage * 1000000"
    using half_leverage_simps(5) by (simp_all add: policy_ok_def)
  ultimately show ?thesis using cash clean [OF refl] by (simp add: mk_report_valid not_less)
qed

text \<open>The evaluation can also raise on a valid candidate: with a leverage limit of one and no cash
  buffer, twelve assets of weight 1/2 each are scaled to a total that rounds to just above one, the
  cash weight becomes negative and the report's validator refuses it.\<close>

definition full_leverage :: risk_policy where
  "full_leverage = half_leverage\<lparr>rp_max_gross_leverage := 1\<rparr>"

lemma twelve_halves:
  "dadd (0) (1 / 2) = 1 / 2"
  "dadd (1 / 2) (1 / 2) = 1"
  "dadd (1) (1 / 2) = 3 / 2"
  "dadd (3 / 2) (1 / 2) = 2"
  "dadd (2) (1 / 2) = 5 / 2"
  "dadd (5 / 2) (1 / 2) = 3"
  "dadd (3) (1 / 2) = 7 / 2"
  "dadd (7 / 2) (1 / 2) = 4"
  "dadd (4) (1 / 2) = 9 / 2"
  "dadd (9 / 2) (1 / 2) = 5"
  "dadd (5) (1 / 2) = 11 / 2"
  "dadd (11 / 2) (1 / 2) = 6"
  by (simp_all add: dec_ops dec_eval)

lemma twelve_scaled:
  "ddiv 1 6 = 1666666666666666666666666667 / 10000000000000000000000000000" "ddiv 1 (1/2) = 2" "dsub 1 6 = -5"
  "dmul (1666666666666666666666666667 / 10000000000000000000000000000) (1/2) = 1666666666666666666666666667 / 20000000000000000000000000000"
  "dadd (0) (1666666666666666666666666667 / 20000000000000000000000000000) = 1666666666666666666666666667 / 20000000000000000000000000000"
  "dadd (1666666666666666666666666667 / 20000000000000000000000000000) (1666666666666666666666666667 / 20000000000000000000000000000) = 1666666666666666666666666667 / 10000000000000000000000000000"
  "dadd (1666666666666666666666666667 / 10000000000000000000000000000) (1666666666666666666666666667 / 20000000000000000000000000000) = 1 / 4"
  "dadd (1 / 4) (1666666666666666666666666667 / 20000000000000000000000000000) = 1666666666666666666666666667 / 5000000000000000000000000000"
  "dadd (1666666666666666666666666667 / 5000000000000000000000000000) (1666666666666666666666666667 / 20000000000000000000000000000) = 1041666666666666666666666667 / 2500000000000000000000000000"
  "dadd (1041666666666666666666666667 / 2500000000000000000000000000) (1666666666666666666666666667 / 20000000000000000000000000000) = 2500000000000000000000000001 / 5000000000000000000000000000"
  "dadd (2500000000000000000000000001 / 5000000000000000000000000000) (1666666666666666666666666667 / 20000000000000000000000000000) = 729166666666666666666666667 / 1250000000000000000000000000"
  "dadd (729166666666666666666666667 / 1250000000000000000000000000) (1666666666666666666666666667 / 20000000000000000000000000000) = 666666666666666666666666667 / 1000000000000000000000000000"
  "dadd (666666666666666666666666667 / 1000000000000000000000000000) (1666666666666666666666666667 / 20000000000000000000000000000) = 1875000000000000000000000001 / 2500000000000000000000000000"
  "dadd (1875000000000000000000000001 / 2500000000000000000000000000) (1666666666666666666666666667 / 20000000000000000000000000000) = 4166666666666666666666666669 / 5000000000000000000000000000"
  "dadd (4166666666666666666666666669 / 5000000000000000000000000000) (1666666666666666666666666667 / 20000000000000000000000000000) = 572916666666666666666666667 / 625000000000000000000000000"
  "dadd (572916666666666666666666667 / 625000000000000000000000000) (1666666666666666666666666667 / 20000000000000000000000000000) = 1000000000000000000000000001 / 1000000000000000000000000000"
  "dsub 1 (1000000000000000000000000001 / 1000000000000000000000000000) = - (1 / 1000000000000000000000000000)"
  by (simp_all add: dec_ops dec_eval)

definition twelve_weights :: "(string \<times> dec) list" where
  "twelve_weights = map (\<lambda>c. ([c], 1/2)) ''ABCDEFGHIJKL''"

lemma derisked_cash_can_be_negative:
  "\<exists>adj cash. evaluate_and_derisk twelve_weights full_leverage = Inr (adj, cash, REDUCED, None) \<and> cash < 0"
proof -
  have scan: "scan_weights twelve_weights [] 0 0 = Inr (twelve_weights, 6, 1/2)"
    by (simp add: twelve_weights_def string_eval twelve_halves)
  have ws: "check_weights twelve_weights = Inr (replicate 12 (1/2))"
    by (simp add: twelve_weights_def eval_nat_numeral)
  have total: "dsum (replicate 12 (1/2)) = 6"
    by (simp add: dsum_def eval_nat_numeral twelve_halves)
  have lims: "verify_finite_decimal (Fin 1) ''max_gross_leverage'' False (Some 0) None = Inr 1"
    "verify_finite_decimal (Fin 1) ''max_asset_concentration'' False (Some 0) (Some 1) = Inr 1"
    "verify_finite_decimal (Fin 0) ''min_cash_buffer'' False (Some 0) (Some 1) = Inr 0"
    by simp_all
  have conc: "concentration_factor 1 (replicate 12 (1/2)) = 1"
    by (simp add: concentration_factor_def eval_nat_numeral twelve_scaled(2))
  have alpha: "scale_down_factor twelve_weights 1 1 0 = Inr (1666666666666666666666666667 / 10000000000000000000000000000)"
    unfolding scale_down_factor_def lims rbind_simps ws Let_def total conc
    by (simp add: twelve_scaled(1) sample_arithmetic(4))
  have vals: "dict_values (map (\<lambda>(sy, w). (sy, dmul (1666666666666666666666666667 / 10000000000000000000000000000) w)) twelve_weights)
      = replicate 12 (1666666666666666666666666667 / 20000000000000000000000000000)"
    by (simp add: dict_values_def twelve_weights_def eval_nat_numeral twelve_scaled(4))
  have sum: "dsum (replicate 12 (1666666666666666666666666667 / 20000000000000000000000000000)) = 1000000000000000000000000001 / 1000000000000000000000000000"
  proof -
    have "replicate 12 z = [z, z, z, z, z, z, z, z, z, z, z, z]" for z :: dec by (simp add: eval_nat_numeral)
    then show ?thesis by (simp only: dsum_def fold.simps comp_def id_def twelve_scaled)
  qed
  show ?thesis
    unfolding evaluate_and_derisk_def scan rbind_simps case_prod_conv Let_def vals sum
    by (simp add: full_leverage_def alpha) (simp add: twelve_scaled alpha vals sum)
qed

end
