(* ===== verification/Emergency.thy ===== *)
theory Emergency
  imports RiskEngine
begin

section \<open>Emergency flattening\<close>

text \<open>
  \<open>risk/emergency.py\<close>: the zero-target intent emitted for a blocked kill switch, the check that it
  has completed, and the follow-up intent for what is left.  The quantities of a portfolio object
  are finite.
\<close>

datatype flatten_error =
    NotBlocked kill_switch_state
  | InvalidPositionSymbol string
  | InvalidGrossExposure dec
  | IntentRejected risk_error

text \<open>The loops over the positions: zero targets and closing deltas of the open ones.\<close>

fun residual_deltas ::
    "(string \<times> position) list \<Rightarrow> (string, dec) dict \<times> (string, dec) dict
     \<Rightarrow> (string, dec) dict \<times> (string, dec) dict" where
  "residual_deltas [] acc = acc"
| "residual_deltas ((sy, p) # rest) (targets, deltas) =
     residual_deltas rest
       (if pos_quantity p \<noteq> 0
        then (dict_put (upper (strip sy)) 0 targets, dict_put (upper (strip sy)) (dneg (pos_quantity p)) deltas)
        else (targets, deltas))"

fun closing_deltas ::
    "(string \<times> position) list \<Rightarrow> (string, dec) dict \<times> (string, dec) dict
     \<Rightarrow> flatten_error + (string, dec) dict \<times> (string, dec) dict" where
  "closing_deltas [] acc = Inr acc"
| "closing_deltas ((sy, p) # rest) (targets, deltas) =
     (if strip sy = [] then Inl (InvalidPositionSymbol sy)
      else closing_deltas rest
        (if pos_quantity p \<noteq> 0
         then (dict_put (upper (strip sy)) 0 targets, dict_put (upper (strip sy)) (dneg (pos_quantity p)) deltas)
         else (targets, deltas)))"

definition intent_of ::
    "string \<Rightarrow> string \<Rightarrow> (string, dec) dict \<Rightarrow> (string, dec) dict \<Rightarrow> time \<Rightarrow> flatten_error + flatten_intent" where
  "intent_of intent_id event_id targets deltas now =
     (case mk_flatten_intent intent_id event_id (map (apsnd Fin) targets) (map (apsnd Fin) deltas) now
             FLATTEN_REQUESTED of
        Inl e \<Rightarrow> Inl (IntentRejected e)
      | Inr i \<Rightarrow> Inr i)"

definition generate_flatten_intent ::
    "portfolio \<Rightarrow> kill_switch_event \<Rightarrow> time \<Rightarrow> flatten_error + flatten_intent" where
  "generate_flatten_intent s e now =
     (if ke_resulting_state e \<notin> {KS_TRIPPED, KS_PERSISTENTLY_BLOCKED}
      then Inl (NotBlocked (ke_resulting_state e))
      else rbind (closing_deltas (pf_positions s) ([], [])) (\<lambda>(targets, deltas).
        intent_of (''FLATTEN_'' @ ke_id e @ ''_'' @ str_int (epoch_ms now)) (ke_id e) targets deltas now))"

definition open_positions :: "(string, position) dict \<Rightarrow> (string, dec) dict" where
  "open_positions ps = map (apsnd pos_quantity) (filter (\<lambda>(sy, p). pos_quantity p \<noteq> 0) ps)"

definition verify_flatten_completion ::
    "flatten_intent \<Rightarrow> portfolio \<Rightarrow> bool \<Rightarrow> flatten_error + flatten_status \<times> (string, dec) dict" where
  "verify_flatten_completion intent s is_broker_reconciled =
     (if \<not> is_broker_reconciled then Inr (FLATTEN_REQUESTED, open_positions (pf_positions s))
      else let remaining = open_positions (pf_positions s) in
        if pf_gross_exposure s < 0 then Inl (InvalidGrossExposure (pf_gross_exposure s))
        else if length remaining = 0 \<and> pf_gross_exposure s = 0 then Inr (FLATTEN_COMPLETED, [])
        else Inr (FLATTEN_REQUESTED, remaining))"

definition generate_residual_intent ::
    "flatten_intent \<Rightarrow> portfolio \<Rightarrow> time \<Rightarrow> flatten_error + flatten_intent option" where
  "generate_residual_intent parent s now =
     (let (targets, deltas) = residual_deltas (pf_positions s) ([], []) in
      if targets = [] then Inr None
      else rbind (intent_of (''FLATTEN_RESIDUAL_'' @ fi_intent_id parent @ ''_'' @ str_int (epoch_ms now))
             (fi_kill_switch_event_id parent) targets deltas now) (\<lambda>i. Inr (Some i)))"

subsection \<open>Portfolios that can be flattened\<close>

text \<open>Consistent, with normalised symbols and quantities of at most 28 digits.\<close>

definition flattenable :: "portfolio \<Rightarrow> bool" where
  "flattenable s \<longleftrightarrow> portfolio_ok s
     \<and> (\<forall>(sy, p) \<in> set (pf_positions s). clean_symbol sy \<and> position_ok p \<and> dec28 (pos_quantity p))"

lemma closing_deltas_clean:
  assumes "dict_wf (done_ps @ ps)" and "\<forall>(sy, p) \<in> set ps. clean_symbol sy \<and> dec28 (pos_quantity p)"
  shows "closing_deltas ps (map (apsnd (\<lambda>_. 0)) (open_positions done_ps), map (apsnd uminus) (open_positions done_ps))
      = Inr (map (apsnd (\<lambda>_. 0)) (open_positions (done_ps @ ps)), map (apsnd uminus) (open_positions (done_ps @ ps)))
    \<and> residual_deltas ps (map (apsnd (\<lambda>_. 0)) (open_positions done_ps), map (apsnd uminus) (open_positions done_ps))
      = (map (apsnd (\<lambda>_. 0)) (open_positions (done_ps @ ps)), map (apsnd uminus) (open_positions (done_ps @ ps)))"
  using assms
proof (induction ps arbitrary: done_ps)
  case (Cons kp ps)
  obtain sy p where kp: "kp = (sy, p)" by (cases kp)
  have fresh: "sy \<notin> fst ` set done_ps" using Cons.prems(1) by (auto simp: kp dict_wf_def)
  have put: "dict_put sy v (map (apsnd g) (open_positions done_ps)) = map (apsnd g) (open_positions done_ps) @ [(sy, v)]"
    for v :: dec and g
  proof (rule dict_put_fresh)
    have "sy \<notin> fst ` set (map (apsnd g) (open_positions done_ps))"
      using fresh by (force simp: open_positions_def)
    then show "dict_get (map (apsnd g) (open_positions done_ps)) sy = None"
      by (simp add: dict_get_def map_of_eq_None_iff)
  qed
  have sy: "strip sy \<noteq> []" "upper (strip sy) = sy" and q: "dneg (pos_quantity p) = - pos_quantity p"
    using Cons.prems(2) by (auto simp: kp clean_symbol_def dneg_exact)
  have IH: "\<forall>(sy, p) \<in> set ps. clean_symbol sy \<and> dec28 (pos_quantity p)" "dict_wf ((done_ps @ [kp]) @ ps)"
    using Cons.prems by simp_all
  show ?case
    using Cons.IH [OF IH(2,1)]
    by (cases "pos_quantity p = 0") (simp_all add: kp sy q put, simp_all add: open_positions_def)
qed (simp add: open_positions_def)

lemma clean_symbol_dict:
  "dict_wf (acc @ ws) \<Longrightarrow> \<forall>sy \<in> fst ` set ws. clean_symbol sy \<Longrightarrow> \<forall>w \<in> snd ` set ws. w = 0
    \<Longrightarrow> clean_targets (map (apsnd Fin) ws) acc = Inr (acc @ ws)"
proof (induction ws arbitrary: acc)
  case (Cons kv ws)
  obtain sy w where kv: "kv = (sy, w)" by (cases kv)
  have "dict_get acc sy = None"
    using Cons.prems(1) by (auto simp: kv dict_wf_def dict_get_def map_of_eq_None_iff)
  then have "dict_put sy 0 acc = acc @ [(sy, 0)]" by (rule dict_put_fresh)
  then show ?case using Cons.IH [of "acc @ [(sy, 0)]"] Cons.prems by (simp add: kv clean_symbol_def)
qed simp

lemma clean_deltas_dict:
  "dict_wf (acc @ ws) \<Longrightarrow> \<forall>sy \<in> fst ` set ws. clean_symbol sy
    \<Longrightarrow> clean_deltas (map (apsnd Fin) ws) acc = Inr (acc @ ws)"
proof (induction ws arbitrary: acc)
  case (Cons kv ws)
  obtain sy w where kv: "kv = (sy, w)" by (cases kv)
  have "dict_get acc sy = None"
    using Cons.prems(1) by (auto simp: kv dict_wf_def dict_get_def map_of_eq_None_iff)
  then have "dict_put sy w acc = acc @ [(sy, w)]" by (rule dict_put_fresh)
  then show ?case using Cons.IH [of "acc @ [(sy, w)]"] Cons.prems by (simp add: kv clean_symbol_def)
qed simp

lemma open_positions_wf: "dict_wf ps \<Longrightarrow> dict_wf (map (apsnd g) (open_positions ps))"
  by (simp add: dict_wf_def open_positions_def comp_def distinct_map_filter)

lemma open_positions_keys: "fst ` set (map (apsnd g) (open_positions ps)) \<subseteq> fst ` set ps"
  by (force simp: open_positions_def)

lemma intent_of_clean:
  assumes "dict_wf ps" "\<forall>sy \<in> fst ` set ps. clean_symbol sy"
  shows "intent_of i e (map (apsnd (\<lambda>_. 0)) (open_positions ps)) (map (apsnd uminus) (open_positions ps)) now =
    Inr \<lparr>fi_intent_id = i, fi_kill_switch_event_id = e, fi_targets = map (apsnd (\<lambda>_. 0)) (open_positions ps),
      fi_deltas = map (apsnd uminus) (open_positions ps), fi_issued_at = now, fi_status = FLATTEN_REQUESTED\<rparr>"
proof -
  have keys: "\<forall>sy \<in> fst ` set (map (apsnd g) (open_positions ps)). clean_symbol sy" for g :: "dec \<Rightarrow> dec"
    using assms(2) open_positions_keys by blast
  have "\<forall>w \<in> snd ` set (map (apsnd (\<lambda>_. 0 :: dec)) (open_positions ps)). w = 0" by auto
  then have "clean_targets (map (apsnd Fin) (map (apsnd (\<lambda>_. 0)) (open_positions ps))) [] =
      Inr (map (apsnd (\<lambda>_. 0)) (open_positions ps))"
    by (rule clean_symbol_dict [of "[]", unfolded append_Nil, OF open_positions_wf [OF assms(1)] keys])
  moreover have "clean_deltas (map (apsnd Fin) (map (apsnd uminus) (open_positions ps))) [] =
      Inr (map (apsnd uminus) (open_positions ps))"
    by (rule clean_deltas_dict [of "[]", unfolded append_Nil, OF open_positions_wf [OF assms(1)] keys])
  ultimately show ?thesis by (simp only: intent_of_def mk_flatten_intent_def rbind_simps sum.case)
qed

lemma flattenable_parts:
  assumes "flattenable s"
  shows "dict_wf (pf_positions s)" "\<forall>sy \<in> fst ` set (pf_positions s). clean_symbol sy"
    "\<forall>(sy, p) \<in> set (pf_positions s). clean_symbol sy \<and> dec28 (pos_quantity p)"
  using assms by (auto simp: flattenable_def dest: portfolio_okD)

lemma generated_intent:
  assumes "flattenable s" and "ke_resulting_state e \<in> {KS_TRIPPED, KS_PERSISTENTLY_BLOCKED}"
  obtains i where "generate_flatten_intent s e now = Inr i"
    and "fi_kill_switch_event_id i = ke_id e" and "fi_status i = FLATTEN_REQUESTED"
    and "fi_targets i = map (apsnd (\<lambda>_. 0)) (open_positions (pf_positions s))"
    and "fi_deltas i = map (apsnd uminus) (open_positions (pf_positions s))"
proof -
  let ?ps = "pf_positions s"
  note parts = flattenable_parts [OF assms(1)]
  have "closing_deltas ?ps ([], []) =
      Inr (map (apsnd (\<lambda>_. 0)) (open_positions ?ps), map (apsnd uminus) (open_positions ?ps))"
    using closing_deltas_clean [of "[]" ?ps] parts(1,3) by (simp add: open_positions_def [of "[]"])
  then show thesis
    using assms(2) intent_of_clean [OF parts(1,2)]
    by (intro that [of "\<lparr>fi_intent_id = ''FLATTEN_'' @ ke_id e @ ''_'' @ str_int (epoch_ms now),
      fi_kill_switch_event_id = ke_id e, fi_targets = map (apsnd (\<lambda>_. 0)) (open_positions ?ps),
      fi_deltas = map (apsnd uminus) (open_positions ?ps), fi_issued_at = now, fi_status = FLATTEN_REQUESTED\<rparr>"])
      (simp_all add: generate_flatten_intent_def)
qed

lemma residual_intent_None:
  assumes "flattenable s"
  shows "generate_residual_intent parent s now = Inr None \<longleftrightarrow> open_positions (pf_positions s) = []"
proof -
  let ?ps = "pf_positions s"
  note parts = flattenable_parts [OF assms]
  have "residual_deltas ?ps ([], []) =
      (map (apsnd (\<lambda>_. 0)) (open_positions ?ps), map (apsnd uminus) (open_positions ?ps))"
    using closing_deltas_clean [of "[]" ?ps] parts(1,3) by (simp add: open_positions_def [of "[]"])
  then show ?thesis
    using intent_of_clean [OF parts(1,2)] by (simp add: generate_residual_intent_def)
qed

text \<open>A flat book has no gross exposure.\<close>

lemma dsum_zeros: "\<forall>x \<in> set xs. x = 0 \<Longrightarrow> dsum xs = 0"
proof -
  have "fold (\<lambda>x acc. dadd acc x) xs 0 = 0" if "\<forall>x \<in> set xs. x = 0" for xs
    using that by (induction xs) (simp_all add: dadd_def)
  then show "\<forall>x \<in> set xs. x = 0 \<Longrightarrow> dsum xs = 0" by (simp add: dsum_def)
qed

lemma open_positions_Nil: "open_positions ps = [] \<longleftrightarrow> (\<forall>p \<in> set (dict_values ps). pos_quantity p = 0)"
  by (auto simp: open_positions_def dict_values_def filter_empty_conv)

lemma flat_gross: "portfolio_ok s \<Longrightarrow> open_positions (pf_positions s) = [] \<Longrightarrow> pf_gross_exposure s = 0"
  unfolding open_positions_Nil portfolio_ok_def sum_gross_def
  by (auto intro!: dsum_zeros simp: market_value_def dabs_def)

lemma gross_nonneg: "portfolio_ok s \<Longrightarrow> 0 \<le> pf_gross_exposure s"
  by (simp add: portfolio_ok_def sum_gross_def dsum_nonneg)

lemma completion_iff:
  "portfolio_ok s \<Longrightarrow> verify_flatten_completion i s reconciled =
     Inr (if reconciled \<and> open_positions (pf_positions s) = [] then (FLATTEN_COMPLETED, [])
          else (FLATTEN_REQUESTED, open_positions (pf_positions s)))"
  using flat_gross [of s] gross_nonneg [of s] by (auto simp: verify_flatten_completion_def Let_def not_less)

subsection \<open>Properties\<close>

text \<open>A fill that executes the closing delta of its symbol.\<close>

definition executes :: "(string, dec) dict \<Rightarrow> fill \<Rightarrow> bool" where
  "executes deltas f \<longleftrightarrow> fill_ok f \<and> dec28 (fill_quantity f)
     \<and> dict_get deltas (fill_symbol f) = Some (signed_quantity f)"

lemma flatten_fills:
  assumes "portfolio_ok s" and "distinct (map fill_symbol fs)"
    and "\<forall>f \<in> set fs. fill_ok f \<and> dec28 (fill_quantity f) \<and> upper (fill_symbol f) = fill_symbol f
      \<and> (\<exists>p. dict_get (pf_positions s) (fill_symbol f) = Some p \<and> position_ok p \<and> dec28 (pos_quantity p)
           \<and> signed_quantity f = - pos_quantity p)"
  shows "\<exists>s'. run_strict apply_fill_to_portfolio s fs = Inr s' \<and> portfolio_ok s'
    \<and> (\<forall>k. if k \<in> fill_symbol ` set fs
           then \<exists>p. dict_get (pf_positions s') k = Some p \<and> pos_quantity p = 0
           else dict_get (pf_positions s') k = dict_get (pf_positions s) k)"
  using assms
proof (induction fs arbitrary: s)
  case (Cons f fs)
  let ?k = "fill_symbol f"
  obtain p where p: "dict_get (pf_positions s) ?k = Some p" "position_ok p" "dec28 (pos_quantity p)"
      "signed_quantity f = - pos_quantity p"
    and f: "fill_ok f" "dec28 (fill_quantity f)" "upper ?k = ?k"
    using Cons.prems(3) by auto
  have q: "quantities_ok (dict_get (pf_positions s) ?k) f"
    using p f by (simp add: quantities_ok_def)
  obtain s1 p1 where s1: "apply_fill_to_portfolio s f = Inr s1" "portfolio_ok s1"
      "apply_fill_to_position (dict_get (pf_positions s) ?k) f = Inr p1"
      "\<forall>k. dict_get (pf_positions s1) k = (if k = ?k then Some p1 else dict_get (pf_positions s) k)"
    using fill_portfolio_step [OF Cons.prems(1) f(3) q] by blast
  have flat: "pos_quantity p1 = 0"
    using apply_fill_sound [OF q] s1(3) p(1,4) by (auto simp: held_def)
  have others: "\<forall>g \<in> set fs. fill_symbol g \<noteq> ?k" using Cons.prems(2) by (auto simp: image_iff)
  obtain s' where s': "run_strict apply_fill_to_portfolio s1 fs = Inr s'" "portfolio_ok s'"
      "\<forall>k. if k \<in> fill_symbol ` set fs
           then \<exists>p. dict_get (pf_positions s') k = Some p \<and> pos_quantity p = 0
           else dict_get (pf_positions s') k = dict_get (pf_positions s1) k"
    using Cons.IH [OF s1(2)] Cons.prems(2,3) others s1(4) by auto
  have "?k \<notin> fill_symbol ` set fs" using others by auto
  then have "\<forall>k. if k \<in> fill_symbol ` set (f # fs)
       then \<exists>p. dict_get (pf_positions s') k = Some p \<and> pos_quantity p = 0
       else dict_get (pf_positions s') k = dict_get (pf_positions s) k"
    using s'(3) s1(4) flat by (auto split: if_splits)
  then show ?case using s'(1,2) s1(1) by auto
qed simp

lemma dict_get_apsnd: "dict_get (map (apsnd g) d) k = map_option g (dict_get d k)"
  by (induction d) auto

lemma dict_get_open:
  "dict_get (open_positions ps) k = Some q \<Longrightarrow> dict_wf ps
    \<Longrightarrow> \<exists>p. dict_get ps k = Some p \<and> pos_quantity p = q \<and> q \<noteq> 0"
proof (induction ps)
  case (Cons kp ps)
  have "k \<noteq> fst kp" if "dict_get (open_positions ps) k \<noteq> None"
  proof
    assume "k = fst kp"
    then have "k \<notin> fst ` set ps" using Cons.prems(2) by (auto simp: dict_wf_def)
    then have "k \<notin> fst ` set (open_positions ps)" using open_positions_keys [of id ps] by auto
    then have "dict_get (open_positions ps) k = None" by (simp add: dict_get_def map_of_eq_None_iff)
    with that show False by simp
  qed
  then show ?case using Cons
    by (cases kp) (auto simp: open_positions_def dict_wf_def split: if_splits)
qed (simp add: open_positions_def)

text \<open>A fill that executes a closing delta meets an open position and closes it exactly.\<close>

lemma executing_fill:
  assumes "flattenable s" and "executes (map (apsnd uminus) (open_positions (pf_positions s))) f"
  shows "fill_ok f \<and> dec28 (fill_quantity f) \<and> upper (fill_symbol f) = fill_symbol f
      \<and> (\<exists>p. dict_get (pf_positions s) (fill_symbol f) = Some p \<and> position_ok p \<and> dec28 (pos_quantity p)
           \<and> signed_quantity f = - pos_quantity p)"
proof -
  have wf: "dict_wf (pf_positions s)"
    using assms(1) by (auto simp: flattenable_def dest: portfolio_okD)
  have mem: "position_ok p \<and> dec28 (pos_quantity p) \<and> clean_symbol k"
    if "dict_get (pf_positions s) k = Some p" for k p
    using that assms(1) by (auto simp: flattenable_def dict_get_def dest: map_of_SomeD)
  obtain q where q: "dict_get (open_positions (pf_positions s)) (fill_symbol f) = Some q" "signed_quantity f = - q"
    using assms(2) by (fastforce simp: executes_def dict_get_apsnd)
  obtain p where p: "dict_get (pf_positions s) (fill_symbol f) = Some p" "pos_quantity p = q"
    using dict_get_open [OF q(1) wf] by blast
  have "upper (fill_symbol f) = fill_symbol f"
    using mem [OF p(1)] by (metis clean_symbol_def upper_idem)
  then show ?thesis using assms(2) mem [OF p(1)] p q(2) by (auto simp: executes_def)
qed

text \<open>Where every open position has been closed and the others kept, nothing is open.\<close>

lemma all_closed:
  assumes "dict_wf ps'"
    and "\<forall>k. if k \<in> fst ` set (open_positions ps)
           then \<exists>p. dict_get ps' k = Some p \<and> pos_quantity p = 0
           else dict_get ps' k = dict_get ps k"
  shows "open_positions ps' = []"
proof -
  have "pos_quantity p = 0" if val: "p \<in> set (dict_values ps')" for p
  proof (rule ccontr)
    assume open_p: "pos_quantity p \<noteq> 0"
    obtain k where k: "dict_get ps' k = Some p"
      using iffD1 [OF dict_values_get [OF assms(1)] val] ..
    then have kept: "k \<notin> fst ` set (open_positions ps)" "dict_get ps k = Some p"
      using assms(2) [rule_format, of k] open_p by (auto split: if_splits)
    then have "(k, p) \<in> set ps" by (simp add: dict_get_def map_of_SomeD)
    then have "(k, pos_quantity p) \<in> set (open_positions ps)" using open_p by (force simp: open_positions_def)
    then show False using kept(1) by force
  qed
  then show ?thesis by (simp add: open_positions_Nil)
qed

text \<open>C22: Flattening works.  For a blocked kill-switch event and a consistent portfolio with normalised
  symbols, \<open>generate_flatten_intent\<close> returns an intent whose targets are zero and whose deltas are
  minus the quantity for exactly the open positions.  Once every delta has been executed by one fill,
  in any order and at any prices, booked by \<open>apply_fill_to_portfolio\<close>, the portfolio is consistent
  and completion is verified, provided the broker is reconciled.\<close>

theorem flatten_completes:
  assumes "flattenable s" and "ke_resulting_state e \<in> {KS_TRIPPED, KS_PERSISTENTLY_BLOCKED}"
    and "generate_flatten_intent s e now = Inr i"
    and "mset (map fill_symbol fs) = mset (map fst (fi_deltas i))" and "\<forall>f \<in> set fs. executes (fi_deltas i) f"
  shows "fi_targets i = map (apsnd (\<lambda>_. 0)) (open_positions (pf_positions s))
    \<and> fi_deltas i = map (apsnd uminus) (open_positions (pf_positions s))
    \<and> (\<exists>s'. run_strict apply_fill_to_portfolio s fs = Inr s' \<and> portfolio_ok s'
        \<and> verify_flatten_completion i s' True = Inr (FLATTEN_COMPLETED, [])
        \<and> verify_flatten_completion i s' False = Inr (FLATTEN_REQUESTED, []))"
proof -
  let ?ps = "pf_positions s"
  have ok: "portfolio_ok s" "dict_wf ?ps"
    using assms(1) by (auto simp: flattenable_def dest: portfolio_okD)
  have i: "fi_targets i = map (apsnd (\<lambda>_. 0)) (open_positions ?ps)"
      "fi_deltas i = map (apsnd uminus) (open_positions ?ps)"
    using generated_intent [OF assms(1,2), of now] assms(3) by auto
  have "distinct (map fst (fi_deltas i))"
    using open_positions_wf [OF ok(2)] by (simp only: i dict_wf_def)
  then have dist: "distinct (map fill_symbol fs)" using assms(4) by (metis mset_eq_imp_distinct_iff)
  have keys: "fill_symbol ` set fs = fst ` set (open_positions ?ps)"
    using mset_eq_setD [OF assms(4)] by (force simp: i)
  note step = executing_fill [OF assms(1) bspec [OF assms(5) [unfolded i]]]
  then obtain s' where s': "run_strict apply_fill_to_portfolio s fs = Inr s'" "portfolio_ok s'"
      "\<forall>k. if k \<in> fill_symbol ` set fs
           then \<exists>p. dict_get (pf_positions s') k = Some p \<and> pos_quantity p = 0
           else dict_get (pf_positions s') k = dict_get ?ps k"
    using flatten_fills [OF ok(1) dist] by blast
  have "open_positions (pf_positions s') = []"
    using all_closed [OF portfolio_okD(1) [OF s'(2)]] s'(3) unfolding keys by blast
  then show ?thesis using i s'(1,2) completion_iff [OF s'(2)] by auto
qed

text \<open>The sample portfolio holds 10 SPY; one sale of 10 closes it.\<close>

definition sample_block :: kill_switch_event where
  "sample_block = sample_event\<lparr>ke_resulting_state := KS_PERSISTENTLY_BLOCKED\<rparr>"

lemma sample_flattenable: "flattenable sample_portfolio"
  using sample_portfolio_ok
  by (simp add: flattenable_def) (simp add: samples position_ok_def clean_symbol_def string_eval dec28_code dec_eval)

lemma sample_open_position: "open_positions (pf_positions sample_portfolio) = [(''SPY'', 10)]"
  by (simp add: open_positions_def samples)

theorem flatten_completes_witness:
  "\<exists>i s'. generate_flatten_intent sample_portfolio sample_block 0 = Inr i \<and> fi_deltas i = [(''SPY'', -10)]
     \<and> run_strict apply_fill_to_portfolio sample_portfolio [sample_fill SELL 110 10] = Inr s'
     \<and> verify_flatten_completion i s' True = Inr (FLATTEN_COMPLETED, [])"
proof -
  have blocked: "ke_resulting_state sample_block \<in> {KS_TRIPPED, KS_PERSISTENTLY_BLOCKED}"
    by (simp add: sample_block_def)
  obtain i where i: "generate_flatten_intent sample_portfolio sample_block 0 = Inr i"
      "fi_deltas i = [(''SPY'', -10)]"
    by (rule generated_intent [OF sample_flattenable blocked, of 0]) (simp add: sample_open_position)
  have "executes (fi_deltas i) (sample_fill SELL 110 10)"
    by (simp add: executes_def i fill_ok_def signed_quantity_def sample_fill_def string_eval dec28_code dec_eval)
  moreover have "mset (map fill_symbol [sample_fill SELL 110 10]) = mset (map fst (fi_deltas i))"
    by (simp add: i sample_fill_def)
  ultimately show ?thesis
    using flatten_completes [OF sample_flattenable blocked i(1), of "[sample_fill SELL 110 10]"] i by auto
qed

text \<open>Completion is exactly flatness.  For a consistent portfolio the check never raises; it reports
  FLATTEN_COMPLETED if and only if the broker is reconciled and every position is flat, otherwise
  FLATTEN_REQUESTED with exactly the open quantities.  A residual intent is generated if and only if
  some position is open, so a flatten is never declared complete while there is one to emit.\<close>

theorem completion_exact:
  assumes "flattenable s"
  shows "verify_flatten_completion i s reconciled =
      Inr (if reconciled \<and> (\<forall>p \<in> set (dict_values (pf_positions s)). is_flat p)
           then (FLATTEN_COMPLETED, []) else (FLATTEN_REQUESTED, open_positions (pf_positions s)))
    \<and> (generate_residual_intent parent s now = Inr None
        \<longleftrightarrow> (\<forall>p \<in> set (dict_values (pf_positions s)). is_flat p))"
  using assms completion_iff [of s i reconciled] residual_intent_None [OF assms, of parent now]
  by (simp add: flattenable_def open_positions_Nil is_flat_def)

definition sample_intent :: flatten_intent where
  "sample_intent = \<lparr>fi_intent_id = ''F'', fi_kill_switch_event_id = ''K'', fi_targets = [(''SPY'', 0)],
     fi_deltas = [(''SPY'', -10)], fi_issued_at = 0, fi_status = FLATTEN_REQUESTED\<rparr>"

theorem completion_exact_witness:
  "verify_flatten_completion sample_intent sample_portfolio True = Inr (FLATTEN_REQUESTED, [(''SPY'', 10)])
   \<and> generate_residual_intent sample_intent sample_portfolio 0 \<noteq> Inr None"
  using completion_exact [OF sample_flattenable, of sample_intent True sample_intent 0]
  by (simp add: sample_open_position) (simp add: samples dict_values_def is_flat_def)

end
