(* ===== verification/OpLedger.thy ===== *)
theory OpLedger
  imports HashChain PyTime "HOL-Library.Sublist"
begin

section \<open>The operational ledger\<close>

text \<open>
  \<open>runtime/schema.py\<close> (cycle identity and cycle event) and \<open>runtime/ledger.py\<close>: the append-only
  ledger of executed cycles with its sequence numbers, hash chain and duplicate check, its replay on
  start-up and its audit.  A line of the file is \<open>Garbled\<close> when it is not the JSON of typed event
  fields, otherwise it is the record of its fields.  Blank lines are skipped by every reader and are
  left out.  SHA-256 is the parameter \<open>sha\<close>; reading and writing the file is taken to succeed.
\<close>

subsection \<open>Cycle identity and cycle event\<close>

datatype runtime_regime = PRE_MARKET | MARKET_OPEN | REBALANCE_PULSE | POST_MARKET_CLOSE | MAINTENANCE
datatype runtime_health = RUNTIME_HEALTHY | RUNTIME_DEGRADED | RUNTIME_PAUSED | RUNTIME_HALTED
datatype cycle_outcome =
    SUCCESS | RISK_REJECTED | DATA_STALE | DISPATCH_FAILED | INTERRUPTED_CRASH | IDEMPOTENT_SKIPPED

fun regime_value :: "runtime_regime \<Rightarrow> string" where
  "regime_value PRE_MARKET = ''PRE_MARKET''"
| "regime_value MARKET_OPEN = ''MARKET_OPEN''"
| "regime_value REBALANCE_PULSE = ''REBALANCE_PULSE''"
| "regime_value POST_MARKET_CLOSE = ''POST_MARKET_CLOSE''"
| "regime_value MAINTENANCE = ''MAINTENANCE''"

fun health_value :: "runtime_health \<Rightarrow> string" where
  "health_value RUNTIME_HEALTHY = ''RUNTIME_HEALTHY''"
| "health_value RUNTIME_DEGRADED = ''RUNTIME_DEGRADED''"
| "health_value RUNTIME_PAUSED = ''RUNTIME_PAUSED''"
| "health_value RUNTIME_HALTED = ''RUNTIME_HALTED''"

fun outcome_value :: "cycle_outcome \<Rightarrow> string" where
  "outcome_value SUCCESS = ''SUCCESS''"
| "outcome_value RISK_REJECTED = ''RISK_REJECTED''"
| "outcome_value DATA_STALE = ''DATA_STALE''"
| "outcome_value DISPATCH_FAILED = ''DISPATCH_FAILED''"
| "outcome_value INTERRUPTED_CRASH = ''INTERRUPTED_CRASH''"
| "outcome_value IDEMPOTENT_SKIPPED = ''IDEMPOTENT_SKIPPED''"

lemma enum_values_inject [simp]:
  "regime_value a = regime_value b \<longleftrightarrow> a = b"
  "health_value c = health_value d \<longleftrightarrow> c = d"
  "outcome_value e = outcome_value f \<longleftrightarrow> e = f"
  by ((cases a; cases b; simp), (cases c; cases d; simp), (cases e; cases f; simp))

text \<open>\<open>DataContractError\<close>, one constructor per raise.\<close>

datatype ledger_error =
    EmptyCycleId
  | NegativeSequence
  | TemporalInversion
  | InvalidDigest string
  | EventDigestMismatch
  | PayloadRejected data_contract_error
  | LineCorrupted
  | SequenceMismatch int int
  | ChainBroken
  | DuplicateCycle string

record cycle_identity =
  ci_cycle_id :: string
  ci_as_of :: time
  ci_regime :: runtime_regime
  ci_sequence :: int
  ci_digest :: string

definition identity_payload :: "string \<Rightarrow> time \<Rightarrow> runtime_regime \<Rightarrow> int \<Rightarrow> py_value" where
  "identity_payload cid as_of regime sequence =
     PDict [(KStr ''cycle_id'', PStr cid), (KStr ''as_of_utc'', PStr (isoformat as_of)),
            (KStr ''regime'', PStr (regime_value regime)), (KStr ''sequence_number'', PInt sequence)]"

definition mk_cycle_identity :: "(string \<Rightarrow> string) \<Rightarrow> cycle_identity \<Rightarrow> ledger_error + cycle_identity" where
  "mk_cycle_identity sha i =
     (let cid = strip (ci_cycle_id i) in
      raise_if (cid = []) EmptyCycleId (
      raise_if (ci_sequence i < 0) NegativeSequence (
      case to_canonical_json (identity_payload cid (ci_as_of i) (ci_regime i) (ci_sequence i)) of
        Inl e \<Rightarrow> Inl (PayloadRejected e)
      | Inr text \<Rightarrow> Inr (i\<lparr>ci_cycle_id := cid, ci_digest := sha text\<rparr>))))"

record cycle_event =
  oe_identity :: cycle_identity
  oe_wall_clock :: time
  oe_health :: runtime_health
  oe_dossiers :: "string list"
  oe_portfolio :: string
  oe_account :: string
  oe_allocation :: string
  oe_risk :: string
  oe_manifests :: "string list"
  oe_kill_switch :: string
  oe_outcome :: cycle_outcome
  oe_error :: "string option"
  oe_previous :: string
  oe_digest :: string

definition event_payload_of :: "cycle_event \<Rightarrow> py_value" where
  "event_payload_of e =
     PDict [(KStr ''cycle_identity_digest'', PStr (ci_digest (oe_identity e))),
            (KStr ''wall_clock_utc'', PStr (isoformat (oe_wall_clock e))),
            (KStr ''runtime_health'', PStr (health_value (oe_health e))),
            (KStr ''active_dossier_digests'', PTuple (map PStr (oe_dossiers e))),
            (KStr ''portfolio_state_digest'', PStr (oe_portfolio e)),
            (KStr ''account_state_digest'', PStr (oe_account e)),
            (KStr ''allocation_decision_digest'', PStr (oe_allocation e)),
            (KStr ''risk_report_digest'', PStr (oe_risk e)),
            (KStr ''execution_manifest_digests'', PTuple (map PStr (oe_manifests e))),
            (KStr ''kill_switch_state_val'', PStr (oe_kill_switch e)),
            (KStr ''cycle_outcome'', PStr (outcome_value (oe_outcome e))),
            (KStr ''error_message'', (case oe_error e of
               Some m \<Rightarrow> if m = [] then PNone else PStr m | None \<Rightarrow> PNone)),
            (KStr ''previous_event_digest'', PStr (oe_previous e))]"

text \<open>An optional lineage digest is checked when it is not blank.\<close>

definition optional_digest_bad :: "string \<Rightarrow> bool" where
  "optional_digest_bad d \<longleftrightarrow> d \<noteq> [] \<and> \<not> valid_sha256 d"

text \<open>The validator on the fields of an event: normalised fields, then the recomputed digest, which a
  digest supplied with the fields must equal.\<close>

definition normalise_event :: "cycle_event \<Rightarrow> cycle_event" where
  "normalise_event e = e\<lparr>oe_previous := strip (oe_previous e), oe_portfolio := strip (oe_portfolio e),
     oe_account := strip (oe_account e), oe_allocation := strip (oe_allocation e),
     oe_risk := strip (oe_risk e), oe_dossiers := sort (map strip (oe_dossiers e)),
     oe_manifests := sort (map strip (oe_manifests e))\<rparr>"

definition mk_cycle_event :: "(string \<Rightarrow> string) \<Rightarrow> cycle_event \<Rightarrow> ledger_error + cycle_event" where
  "mk_cycle_event sha raw =
     rbind (mk_cycle_identity sha (oe_identity raw)) (\<lambda>identity.
     raise_if (oe_wall_clock raw < ci_as_of identity) TemporalInversion (
     let e = normalise_event (raw\<lparr>oe_identity := identity\<rparr>) in
     raise_if (\<not> valid_sha256 (oe_previous e)) (InvalidDigest ''previous_event_digest'') (
     raise_if (optional_digest_bad (oe_portfolio e)) (InvalidDigest ''portfolio_state_digest'') (
     raise_if (optional_digest_bad (oe_account e)) (InvalidDigest ''account_state_digest'') (
     raise_if (optional_digest_bad (oe_allocation e)) (InvalidDigest ''allocation_decision_digest'') (
     raise_if (optional_digest_bad (oe_risk e)) (InvalidDigest ''risk_report_digest'') (
     raise_if (\<not> list_all valid_sha256 (oe_dossiers e)) (InvalidDigest ''active_dossier_digest'') (
     raise_if (\<not> list_all valid_sha256 (oe_manifests e)) (InvalidDigest ''execution_manifest_digest'') (
     case to_canonical_json (event_payload_of e) of
       Inl err \<Rightarrow> Inl (PayloadRejected err)
     | Inr text \<Rightarrow>
         raise_if (strip (oe_digest raw) \<noteq> [] \<and> strip (oe_digest raw) \<noteq> sha text) EventDigestMismatch (
           Inr (e\<lparr>oe_digest := sha text\<rparr>)))))))))))"

subsection \<open>The ledger\<close>

datatype op_line = GarbledLine | OpLine cycle_event

record op_ledger =
  lg_file :: "op_line list"
  lg_last_digest :: string
  lg_last_sequence :: int
  lg_cycle_ids :: "string set"
  lg_count :: int

text \<open>The loop of the replay, and of \<open>verify_ledger_integrity\<close>, from an expected state.\<close>

fun replay_lines ::
    "(string \<Rightarrow> string) \<Rightarrow> string \<Rightarrow> int \<Rightarrow> string set \<Rightarrow> int \<Rightarrow> op_line list
     \<Rightarrow> ledger_error + string \<times> int \<times> string set \<times> int" where
  "replay_lines sha prev sequence seen cnt [] = Inr (prev, sequence, seen, cnt)"
| "replay_lines sha prev sequence seen cnt (GarbledLine # ls) = Inl LineCorrupted"
| "replay_lines sha prev sequence seen cnt (OpLine raw # ls) =
     (case mk_cycle_event sha raw of
        Inl _ \<Rightarrow> Inl LineCorrupted
      | Inr e \<Rightarrow>
          if ci_sequence (oe_identity e) \<noteq> sequence
          then Inl (SequenceMismatch sequence (ci_sequence (oe_identity e)))
          else if oe_previous e \<noteq> prev then Inl ChainBroken
          else if ci_cycle_id (oe_identity e) \<in> seen then Inl (DuplicateCycle (ci_cycle_id (oe_identity e)))
          else replay_lines sha (oe_digest e) (sequence + 1) (insert (ci_cycle_id (oe_identity e)) seen)
                 (cnt + 1) ls)"

definition open_ledger :: "(string \<Rightarrow> string) \<Rightarrow> op_line list \<Rightarrow> ledger_error + op_ledger" where
  "open_ledger sha file =
     (if file = []
      then Inr \<lparr>lg_file = [], lg_last_digest = zero_digest, lg_last_sequence = -1, lg_cycle_ids = {}, lg_count = 0\<rparr>
      else rbind (replay_lines sha zero_digest 0 {} 0 file) (\<lambda>(prev, sequence, seen, cnt).
        Inr \<lparr>lg_file = file, lg_last_digest = prev, lg_last_sequence = sequence - 1, lg_cycle_ids = seen,
             lg_count = cnt\<rparr>))"

definition append_event :: "op_ledger \<Rightarrow> cycle_event \<Rightarrow> ledger_error + op_ledger" where
  "append_event l e =
     (let expected = lg_last_sequence l + 1; cid = ci_cycle_id (oe_identity e) in
      raise_if (ci_sequence (oe_identity e) \<noteq> expected)
        (SequenceMismatch expected (ci_sequence (oe_identity e))) (
      raise_if (oe_previous e \<noteq> lg_last_digest l) ChainBroken (
      raise_if (cid \<in> lg_cycle_ids l) (DuplicateCycle cid) (
        Inr \<lparr>lg_file = lg_file l @ [OpLine e], lg_last_digest = oe_digest e, lg_last_sequence = expected,
             lg_cycle_ids = insert cid (lg_cycle_ids l), lg_count = lg_count l + 1\<rparr>))))"

fun read_lines :: "(string \<Rightarrow> string) \<Rightarrow> op_line list \<Rightarrow> ledger_error + cycle_event list" where
  "read_lines sha [] = Inr []"
| "read_lines sha (GarbledLine # ls) = Inl LineCorrupted"
| "read_lines sha (OpLine raw # ls) =
     rbind (mk_cycle_event sha raw) (\<lambda>e. rbind (read_lines sha ls) (\<lambda>es. Inr (e # es)))"

definition read_all_events :: "(string \<Rightarrow> string) \<Rightarrow> op_ledger \<Rightarrow> ledger_error + cycle_event list" where
  "read_all_events sha l = read_lines sha (lg_file l)"

fun audit_lines ::
    "(string \<Rightarrow> string) \<Rightarrow> string \<Rightarrow> int \<Rightarrow> string set \<Rightarrow> op_line list \<Rightarrow> ledger_error + bool \<times> int \<times> string" where
  "audit_lines sha prev sequence seen [] = Inr (True, sequence, prev)"
| "audit_lines sha prev sequence seen (GarbledLine # ls) = Inl LineCorrupted"
| "audit_lines sha prev sequence seen (OpLine raw # ls) =
     rbind (mk_cycle_event sha raw) (\<lambda>e.
     raise_if (ci_sequence (oe_identity e) \<noteq> sequence)
       (SequenceMismatch sequence (ci_sequence (oe_identity e))) (
     raise_if (oe_previous e \<noteq> prev) ChainBroken (
     raise_if (ci_cycle_id (oe_identity e) \<in> seen) (DuplicateCycle (ci_cycle_id (oe_identity e))) (
       audit_lines sha (oe_digest e) (sequence + 1) (insert (ci_cycle_id (oe_identity e)) seen) ls))))"

definition verify_ledger_integrity :: "(string \<Rightarrow> string) \<Rightarrow> op_ledger \<Rightarrow> ledger_error + bool \<times> int \<times> string" where
  "verify_ledger_integrity sha l = audit_lines sha zero_digest 0 {} (lg_file l)"

subsection \<open>Events as they are digested\<close>

definition identity_tree :: "cycle_identity \<Rightarrow> json" where
  "identity_tree i = JObj [(''as_of_utc'', JStr (isoformat (ci_as_of i))), (''cycle_id'', JStr (ci_cycle_id i)),
     (''regime'', JStr (regime_value (ci_regime i))), (''sequence_number'', tagged ''int'' (JInt (ci_sequence i)))]"

definition error_tree :: "string option \<Rightarrow> json" where
  "error_tree m = (case m of None \<Rightarrow> JNull | Some t \<Rightarrow> if t = [] then JNull else JStr t)"

definition cycle_tree :: "cycle_event \<Rightarrow> json" where
  "cycle_tree e = JObj
     [(''account_state_digest'', JStr (oe_account e)),
      (''active_dossier_digests'', JList (map JStr (oe_dossiers e))),
      (''allocation_decision_digest'', JStr (oe_allocation e)),
      (''cycle_identity_digest'', JStr (ci_digest (oe_identity e))),
      (''cycle_outcome'', JStr (outcome_value (oe_outcome e))),
      (''error_message'', error_tree (oe_error e)),
      (''execution_manifest_digests'', JList (map JStr (oe_manifests e))),
      (''kill_switch_state_val'', JStr (oe_kill_switch e)),
      (''portfolio_state_digest'', JStr (oe_portfolio e)),
      (''previous_event_digest'', JStr (oe_previous e)),
      (''risk_report_digest'', JStr (oe_risk e)),
      (''runtime_health'', JStr (health_value (oe_health e))),
      (''wall_clock_utc'', JStr (isoformat (oe_wall_clock e)))]"

definition identity_body :: "cycle_identity \<Rightarrow> string" where
  "identity_body i = dumps (identity_tree i)"

definition cycle_body :: "cycle_event \<Rightarrow> string" where
  "cycle_body e = dumps (cycle_tree e)"

lemma identity_json:
  "to_canonical_json (identity_payload (ci_cycle_id i) (ci_as_of i) (ci_regime i) (ci_sequence i))
     = Inr (identity_body i)"
  by (simp add: identity_payload_def to_canonical_json_def identity_body_def identity_tree_def)

lemma cycle_json: "to_canonical_json (event_payload_of e) = Inr (cycle_body e)"
  by (cases "oe_error e")
    (simp_all add: event_payload_of_def to_canonical_json_def cycle_body_def cycle_tree_def error_tree_def
      serialize_texts)

lemma identity_tree_ok: "json_ok (identity_tree i)"
  by (simp add: identity_tree_def tagged_def)

lemma cycle_tree_ok: "json_ok (cycle_tree e)"
  by (auto simp: cycle_tree_def error_tree_def split: option.splits)

lemma cycle_body_inject: "cycle_body e = cycle_body e' \<longleftrightarrow> cycle_tree e = cycle_tree e'"
  by (simp add: cycle_body_def dumps_inject [OF cycle_tree_ok cycle_tree_ok])

lemma identity_body_inject: "identity_body i = identity_body i' \<longleftrightarrow> identity_tree i = identity_tree i'"
  by (simp add: identity_body_def dumps_inject [OF identity_tree_ok identity_tree_ok])

interpretation op_chain: hash_chain cycle_body oe_previous "\<lambda>_. True"
  by unfold_locales (simp add: cycle_body_inject, simp add: cycle_tree_def)

subsection \<open>Validated events\<close>

lemma mk_cycle_identity_eq:
  "mk_cycle_identity sha i =
     (if strip (ci_cycle_id i) = [] then Inl EmptyCycleId
      else if ci_sequence i < 0 then Inl NegativeSequence
      else let j = i\<lparr>ci_cycle_id := strip (ci_cycle_id i)\<rparr> in Inr (j\<lparr>ci_digest := sha (identity_body j)\<rparr>))"
  using identity_json [of "i\<lparr>ci_cycle_id := strip (ci_cycle_id i)\<rparr>"]
  by (simp add: mk_cycle_identity_def Let_def raise_if_def)

definition valid_lineage :: "cycle_event \<Rightarrow> bool" where
  "valid_lineage e \<longleftrightarrow> valid_sha256 (oe_previous e) \<and> \<not> optional_digest_bad (oe_portfolio e)
     \<and> \<not> optional_digest_bad (oe_account e) \<and> \<not> optional_digest_bad (oe_allocation e)
     \<and> \<not> optional_digest_bad (oe_risk e) \<and> list_all valid_sha256 (oe_dossiers e)
     \<and> list_all valid_sha256 (oe_manifests e)"

lemma mk_cycle_event_Inr:
  "mk_cycle_event sha raw = Inr e \<longleftrightarrow>
     (\<exists>i f. mk_cycle_identity sha (oe_identity raw) = Inr i \<and> ci_as_of i \<le> oe_wall_clock raw
        \<and> f = normalise_event (raw\<lparr>oe_identity := i\<rparr>) \<and> valid_lineage f
        \<and> (strip (oe_digest raw) = [] \<or> strip (oe_digest raw) = sha (cycle_body f))
        \<and> e = f\<lparr>oe_digest := sha (cycle_body f)\<rparr>)"
  by (auto simp: mk_cycle_event_def Let_def cycle_json valid_lineage_def rbind_Inr_iff not_less)

lemma cycle_body_digest [simp]: "cycle_body (e\<lparr>oe_digest := d\<rparr>) = cycle_body e"
  by (simp add: cycle_body_def cycle_tree_def)

lemma identity_body_digest [simp]: "identity_body (i\<lparr>ci_digest := d\<rparr>) = identity_body i"
  by (simp add: identity_body_def identity_tree_def)

lemma map_strip_sort: "map strip (sort (map strip xs)) = sort (map strip xs)"
  by (rule map_idI) auto

lemma normalise_idem [simp]: "normalise_event (normalise_event e) = normalise_event e"
  by (simp add: normalise_event_def map_strip_sort)

lemma identity_reload:
  "mk_cycle_identity sha raw = Inr i \<Longrightarrow> mk_cycle_identity sha i = Inr i"
  by (auto simp: mk_cycle_identity_eq Let_def identity_body_def identity_tree_def split: if_splits)

text \<open>Reading a validated event back gives the same event.\<close>

lemma mk_cycle_event_reload:
  assumes "hex_digests sha" and "mk_cycle_event sha raw = Inr e"
  shows "mk_cycle_event sha e = Inr e"
proof -
  obtain i f where i: "mk_cycle_identity sha (oe_identity raw) = Inr i" "ci_as_of i \<le> oe_wall_clock raw"
    and f: "f = normalise_event (raw\<lparr>oe_identity := i\<rparr>)" "valid_lineage f"
    and e: "e = f\<lparr>oe_digest := sha (cycle_body f)\<rparr>"
    using assms(2) mk_cycle_event_Inr by blast
  have ident: "oe_identity e = i" "oe_wall_clock e = oe_wall_clock raw" "oe_digest e = sha (cycle_body f)"
    by (simp_all add: e f normalise_event_def)
  have n: "normalise_event (e\<lparr>oe_identity := i\<rparr>) = e"
    by (simp add: e f normalise_event_def map_strip_sort)
  have body: "cycle_body e = cycle_body f" by (simp add: e)
  have lineage: "valid_lineage e" using f(2) by (simp add: e valid_lineage_def)
  have "e\<lparr>oe_digest := sha (cycle_body e)\<rparr> = e" by (simp add: body) (simp add: e)
  then show ?thesis
    unfolding mk_cycle_event_Inr ident
    using identity_reload [OF i(1)] i(2) lineage assms(1)
    by (intro exI [of _ i] exI [of _ e]) (simp only: n body strip_digest simp_thms)
qed

lemma identity_sealed:
  "mk_cycle_identity sha raw = Inr i \<Longrightarrow> ci_digest i = sha (identity_body i) \<and> 0 \<le> ci_sequence i"
  by (auto simp: mk_cycle_identity_eq Let_def split: if_splits)

text \<open>An event object: the validator returns it unchanged.\<close>

definition event_ok :: "(string \<Rightarrow> string) \<Rightarrow> cycle_event \<Rightarrow> bool" where
  "event_ok sha e \<longleftrightarrow> mk_cycle_event sha e = Inr e"

lemma event_ok_digests:
  assumes "event_ok sha e"
  shows "oe_digest e = sha (cycle_body e)" and "ci_digest (oe_identity e) = sha (identity_body (oe_identity e))"
    and "ci_as_of (oe_identity e) \<le> oe_wall_clock e" and "0 \<le> ci_sequence (oe_identity e)"
proof -
  obtain i f where i: "mk_cycle_identity sha (oe_identity e) = Inr i" "ci_as_of i \<le> oe_wall_clock e"
    and f: "f = normalise_event (e\<lparr>oe_identity := i\<rparr>)" and e: "e = f\<lparr>oe_digest := sha (cycle_body f)\<rparr>"
    using assms unfolding event_ok_def mk_cycle_event_Inr by blast
  have ident: "oe_identity e = i" by (subst e) (simp add: f normalise_event_def)
  have body: "cycle_body e = cycle_body f" by (subst e) simp
  show "oe_digest e = sha (cycle_body e)" unfolding body by (subst e) simp
  show "ci_digest (oe_identity e) = sha (identity_body (oe_identity e))" "0 \<le> ci_sequence (oe_identity e)"
    unfolding ident using identity_sealed [OF i(1)] by simp_all
  show "ci_as_of (oe_identity e) \<le> oe_wall_clock e" using i(2) ident by simp
qed

subsection \<open>The entries of a ledger\<close>

abbreviation cycle_ids :: "cycle_event list \<Rightarrow> string list" where
  "cycle_ids es \<equiv> map (\<lambda>e. ci_cycle_id (oe_identity e)) es"

fun numbered :: "int \<Rightarrow> cycle_event list \<Rightarrow> bool" where
  "numbered s [] \<longleftrightarrow> True"
| "numbered s (e # es) \<longleftrightarrow> ci_sequence (oe_identity e) = s \<and> numbered (s + 1) es"

lemma numbered_append: "numbered s (es @ fs) \<longleftrightarrow> numbered s es \<and> numbered (s + int (length es)) fs"
  by (induction es arbitrary: s) (auto simp: algebra_simps)

definition entries_ok :: "(string \<Rightarrow> string) \<Rightarrow> cycle_event list \<Rightarrow> bool" where
  "entries_ok sha es \<longleftrightarrow> (\<forall>e \<in> set es. event_ok sha e) \<and> chained sha cycle_body oe_previous zero_digest es
     \<and> numbered 0 es \<and> distinct (cycle_ids es)"

definition ledger_of :: "(string \<Rightarrow> string) \<Rightarrow> cycle_event list \<Rightarrow> op_ledger" where
  "ledger_of sha es = \<lparr>lg_file = map OpLine es, lg_last_digest = chain_head sha cycle_body zero_digest es,
     lg_last_sequence = int (length es) - 1, lg_cycle_ids = set (cycle_ids es), lg_count = int (length es)\<rparr>"

lemma replay_entries:
  assumes "\<forall>e \<in> set es. event_ok sha e" "chained sha cycle_body oe_previous d es" "numbered s es"
    and "distinct (cycle_ids es)" "set (cycle_ids es) \<inter> seen = {}"
  shows "replay_lines sha d s seen c (map OpLine es) =
      Inr (chain_head sha cycle_body d es, s + int (length es), seen \<union> set (cycle_ids es), c + int (length es))
    \<and> read_lines sha (map OpLine es) = Inr es
    \<and> audit_lines sha d s seen (map OpLine es) = Inr (True, s + int (length es), chain_head sha cycle_body d es)"
  using assms
proof (induction es arbitrary: d s seen c)
  case (Cons e es)
  have e: "mk_cycle_event sha e = Inr e" "oe_digest e = sha (cycle_body e)"
    using Cons.prems(1) event_ok_digests(1) by (auto simp: event_ok_def)
  show ?case
    using Cons.prems Cons.IH [of "sha (cycle_body e)" "s + 1" "insert (ci_cycle_id (oe_identity e)) seen" "c + 1"]
    by (simp add: e chain_head_Cons algebra_simps)
qed simp

lemma open_entries: "entries_ok sha es \<Longrightarrow> open_ledger sha (map OpLine es) = Inr (ledger_of sha es)"
  using replay_entries [of es sha zero_digest 0 "{}" 0]
  by (simp add: open_ledger_def entries_ok_def ledger_of_def)

lemma append_entries:
  assumes "entries_ok sha es" and "event_ok sha e"
  shows "append_event (ledger_of sha es) e =
    (if ci_sequence (oe_identity e) \<noteq> int (length es)
     then Inl (SequenceMismatch (int (length es)) (ci_sequence (oe_identity e)))
     else if oe_previous e \<noteq> chain_head sha cycle_body zero_digest es then Inl ChainBroken
     else if ci_cycle_id (oe_identity e) \<in> set (cycle_ids es) then Inl (DuplicateCycle (ci_cycle_id (oe_identity e)))
     else Inr (ledger_of sha (es @ [e])))"
  using event_ok_digests(1) [OF assms(2)]
  by (simp add: append_event_def Let_def ledger_of_def raise_if_def)

lemma append_entries_ok:
  assumes "entries_ok sha es" "event_ok sha e" "append_event (ledger_of sha es) e = Inr l"
  shows "l = ledger_of sha (es @ [e]) \<and> entries_ok sha (es @ [e])"
  using assms by (auto simp: append_entries entries_ok_def numbered_append split: if_splits)

lemma run_entries:
  assumes "\<forall>e \<in> set evs. event_ok sha e" and "entries_ok sha es0"
  shows "\<exists>es. run_lossy append_event (ledger_of sha es0) evs = ledger_of sha (es0 @ es)
    \<and> entries_ok sha (es0 @ es) \<and> subseq es evs"
  using assms
proof (induction evs arbitrary: es0)
  case (Cons e evs)
  show ?case
  proof (cases "append_event (ledger_of sha es0) e")
    case (Inl err)
    then show ?thesis using Cons.IH [OF _ Cons.prems(2)] Cons.prems(1) by (auto intro: list_emb_Cons)
  next
    case (Inr l)
    have l: "l = ledger_of sha (es0 @ [e])" "entries_ok sha (es0 @ [e])"
      using append_entries_ok [OF Cons.prems(2) _ Inr] Cons.prems(1) by simp_all
    obtain es where "run_lossy append_event (ledger_of sha (es0 @ [e])) evs = ledger_of sha ((es0 @ [e]) @ es)"
        "entries_ok sha ((es0 @ [e]) @ es)" "subseq es evs"
      using Cons.IH [OF _ l(2)] Cons.prems(1) by auto
    then show ?thesis using Inr l(1) by (intro exI [of _ "e # es"]) simp
  qed
qed (auto intro: exI [of _ "[]"])

lemma empty_ledger: "open_ledger sha [] = Inr (ledger_of sha [])" "entries_ok sha []"
  by (simp_all add: open_ledger_def ledger_of_def entries_ok_def)

text \<open>C23: The ledger survives restarts.  Start on an empty file and offer any events, valid objects in any
  order, whose refusals are caught: the events kept are a subsequence of those offered, numbered
  0, 1, 2, ..., chained from the genesis digest and without a repeated cycle id; reopening the file
  restores exactly the ledger in memory; reading it back returns exactly the events kept; and the
  audit reports a valid ledger with their number and head digest.\<close>

theorem ledger_survives_restart:
  assumes "hex_digests sha" and "\<forall>e \<in> set evs. \<exists>raw. mk_cycle_event sha raw = Inr e"
    and "open_ledger sha [] = Inr l0"
  shows "\<exists>kept. let l = run_lossy append_event l0 evs in
      subseq kept evs \<and> numbered 0 kept \<and> distinct (cycle_ids kept)
      \<and> chained sha cycle_body oe_previous zero_digest kept
      \<and> open_ledger sha (lg_file l) = Inr l
      \<and> read_all_events sha l = Inr kept
      \<and> verify_ledger_integrity sha l = Inr (True, lg_count l, lg_last_digest l)
      \<and> lg_count l = int (length kept)"
proof -
  have ok: "\<forall>e \<in> set evs. event_ok sha e"
    using assms(2) mk_cycle_event_reload [OF assms(1)] by (auto simp: event_ok_def)
  have l0: "l0 = ledger_of sha []" using assms(3) empty_ledger(1) [of sha] by simp
  obtain es where es: "run_lossy append_event l0 evs = ledger_of sha es" "entries_ok sha es" "subseq es evs"
    using run_entries [OF ok empty_ledger(2)] l0 by auto
  then have parts: "\<forall>e \<in> set es. event_ok sha e" "chained sha cycle_body oe_previous zero_digest es"
      "numbered 0 es" "distinct (cycle_ids es)"
    by (simp_all add: entries_ok_def)
  note replay = replay_entries [OF parts, of "{}" 0]
  have "open_ledger sha (lg_file (ledger_of sha es)) = Inr (ledger_of sha es)"
    using open_entries [OF es(2)] by (simp add: ledger_of_def)
  moreover have "read_all_events sha (ledger_of sha es) = Inr es"
    using replay by (simp add: read_all_events_def ledger_of_def)
  moreover have "verify_ledger_integrity sha (ledger_of sha es)
      = Inr (True, lg_count (ledger_of sha es), lg_last_digest (ledger_of sha es))"
    using replay by (simp add: verify_ledger_integrity_def ledger_of_def)
  ultimately show ?thesis
    using es parts by (intro exI [of _ es]) (simp add: Let_def, simp add: ledger_of_def)
qed

definition sample_cycle :: "int \<Rightarrow> string \<Rightarrow> string \<Rightarrow> cycle_event" where
  "sample_cycle n cid prev =
     \<lparr>oe_identity = \<lparr>ci_cycle_id = cid, ci_as_of = 0, ci_regime = MARKET_OPEN, ci_sequence = n, ci_digest = []\<rparr>,
      oe_wall_clock = 5, oe_health = RUNTIME_HEALTHY, oe_dossiers = [], oe_portfolio = [], oe_account = [],
      oe_allocation = [], oe_risk = [], oe_manifests = [], oe_kill_switch = ''ACTIVE'', oe_outcome = SUCCESS,
      oe_error = None, oe_previous = prev, oe_digest = []\<rparr>"

lemma sample_cycle_valid:
  assumes "strip cid \<noteq> []" "0 \<le> n" "prev = zero_digest"
  obtains e where "mk_cycle_event (\<lambda>_. zero_digest) (sample_cycle n cid prev) = Inr e"
    and "ci_sequence (oe_identity e) = n" "oe_previous e = zero_digest" "oe_digest e = zero_digest"
    and "ci_cycle_id (oe_identity e) = strip cid"
proof -
  have z: "strip zero_digest = zero_digest" by (rule strip_digest [OF zero_digest_hex])
  obtain e where e: "mk_cycle_event (\<lambda>_. zero_digest) (sample_cycle n cid prev) = Inr e"
    using assms
    by (simp add: mk_cycle_event_def mk_cycle_identity_eq sample_cycle_def Let_def normalise_event_def z
        optional_digest_bad_def cycle_json)
  show thesis
    by (rule that [OF e])
      (use e assms in \<open>auto simp: mk_cycle_event_Inr mk_cycle_identity_eq sample_cycle_def Let_def
        normalise_event_def z split: if_splits\<close>)
qed

theorem ledger_survives_restart_witness:
  "\<exists>e l0 l. open_ledger (\<lambda>_. zero_digest) [] = Inr l0 \<and> l = run_lossy append_event l0 [e, e]
     \<and> open_ledger (\<lambda>_. zero_digest) (lg_file l) = Inr l \<and> lg_file l = [OpLine e]"
proof -
  let ?sha = "\<lambda>_. zero_digest"
  have nb: "strip ''C1'' \<noteq> []" by (simp add: string_eval)
  obtain e where e: "mk_cycle_event ?sha (sample_cycle 0 ''C1'' zero_digest) = Inr e"
      "ci_sequence (oe_identity e) = 0" "oe_previous e = zero_digest" "oe_digest e = zero_digest"
    by (rule sample_cycle_valid [OF nb order_refl refl])
  have "\<forall>x \<in> set [e, e]. \<exists>raw. mk_cycle_event ?sha raw = Inr x" using e(1) by auto
  from ledger_survives_restart [OF zero_digest_hex this empty_ledger(1)]
  have "open_ledger ?sha (lg_file (run_lossy append_event (ledger_of ?sha []) [e, e]))
      = Inr (run_lossy append_event (ledger_of ?sha []) [e, e])"
    by (auto simp: Let_def)
  moreover have "lg_file (run_lossy append_event (ledger_of ?sha []) [e, e]) = [OpLine e]"
    by (simp add: append_event_def ledger_of_def e Let_def raise_if_def)
  ultimately show ?thesis using empty_ledger(1) by blast
qed

subsection \<open>The head digest determines the ledger\<close>

lemma replay_sound:
  "replay_lines sha d s seen c ls = Inr (d', r)
    \<Longrightarrow> \<exists>raws es. ls = map OpLine raws \<and> read_lines sha ls = Inr es
      \<and> chained sha cycle_body oe_previous d es \<and> d' = chain_head sha cycle_body d es
      \<and> (\<forall>e \<in> set es. \<exists>raw. mk_cycle_event sha raw = Inr e)"
proof (induction sha d s seen c ls rule: replay_lines.induct)
  case (3 sha d s seen c raw ls)
  then obtain e where e: "mk_cycle_event sha raw = Inr e" "oe_previous e = d"
      "ci_sequence (oe_identity e) = s" "ci_cycle_id (oe_identity e) \<notin> seen"
      "replay_lines sha (oe_digest e) (s + 1) (insert (ci_cycle_id (oe_identity e)) seen) (c + 1) ls = Inr (d', r)"
    by (auto split: sum.splits if_splits)
  have dg: "oe_digest e = sha (cycle_body e)" using e(1) by (auto simp: mk_cycle_event_Inr)
  obtain raws es where "ls = map OpLine raws" "read_lines sha ls = Inr es"
      "chained sha cycle_body oe_previous (oe_digest e) es" "d' = chain_head sha cycle_body (oe_digest e) es"
      "\<forall>e \<in> set es. \<exists>raw. mk_cycle_event sha raw = Inr e"
    using "3.IH" [OF e(1)] e by auto
  then show ?case using e(1,2) dg
    by (intro exI [of _ "raw # raws"] exI [of _ "e # es"]) (auto simp: chain_head_Cons)
qed auto

lemma open_ledger_sound:
  assumes "open_ledger sha file = Inr l"
  obtains es where "read_all_events sha l = Inr es" "chained sha cycle_body oe_previous zero_digest es"
    and "lg_last_digest l = chain_head sha cycle_body zero_digest es"
    and "\<forall>e \<in> set es. \<exists>raw. mk_cycle_event sha raw = Inr e"
proof (cases "file = []")
  case True
  then show thesis using assms that [of "[]"] by (auto simp: open_ledger_def read_all_events_def)
next
  case False
  then obtain d s ids c where "replay_lines sha zero_digest 0 {} 0 file = Inr (d, s, ids, c)"
      "lg_file l = file" "lg_last_digest l = d"
    using assms by (auto simp: open_ledger_def rbind_Inr_iff)
  then show thesis using that replay_sound by (fastforce simp: read_all_events_def)
qed

text \<open>Two events that record the same cycle: equal identities and equal digested content (an empty error
  message counts as none).\<close>

definition same_cycle :: "cycle_event \<Rightarrow> cycle_event \<Rightarrow> bool" where
  "same_cycle e e' \<longleftrightarrow> identity_tree (oe_identity e) = identity_tree (oe_identity e') \<and> cycle_tree e = cycle_tree e'"

lemma event_identity_sealed:
  assumes "mk_cycle_event sha raw = Inr e"
  shows "ci_digest (oe_identity e) = sha (identity_body (oe_identity e))"
proof -
  have "\<exists>i. mk_cycle_identity sha (oe_identity raw) = Inr i \<and> oe_identity e = i"
    using assms by (auto simp: mk_cycle_event_Inr normalise_event_def)
  then obtain i where "mk_cycle_identity sha (oe_identity raw) = Inr i" "oe_identity e = i" by blast
  then show ?thesis using identity_sealed by metis
qed

text \<open>The head digest determines the whole history.  Two ledger files that both open, and whose
  ledgers end in the same digest, record the same cycles in the same order, field for field (provided
  SHA-256 does not collide on their texts and yields the genesis value for none of them): no entry can
  be altered, removed, inserted, moved or cut off without changing the digest of the last event.\<close>

theorem head_digest_fixes_cycles:
  assumes "open_ledger sha file = Inr l" and "open_ledger sha file' = Inr l'"
    and "lg_last_digest l = lg_last_digest l'"
    and "read_all_events sha l = Inr es" and "read_all_events sha l' = Inr es'"
    and "\<forall>e \<in> set es \<union> set es'. sha (cycle_body e) \<noteq> zero_digest"
    and "\<forall>e \<in> set es. \<forall>e' \<in> set es'. separates sha (cycle_body e) (cycle_body e')
      \<and> separates sha (identity_body (oe_identity e)) (identity_body (oe_identity e'))"
  shows "list_all2 same_cycle es es'"
proof -
  have l: "chained sha cycle_body oe_previous zero_digest es"
      "lg_last_digest l = chain_head sha cycle_body zero_digest es"
      "\<forall>e \<in> set es. \<exists>raw. mk_cycle_event sha raw = Inr e"
    by (rule open_ledger_sound [OF assms(1)]; use assms(4) in simp)+
  have l': "chained sha cycle_body oe_previous zero_digest es'"
      "lg_last_digest l' = chain_head sha cycle_body zero_digest es'"
      "\<forall>e \<in> set es'. \<exists>raw. mk_cycle_event sha raw = Inr e"
    by (rule open_ledger_sound [OF assms(2)]; use assms(5) in simp)+
  have "map cycle_body es = map cycle_body es'"
    by (rule op_chain.head_determines_anchored_history [OF l(1) l'(1)])
      (use assms(3,6,7) l(2) l'(2) in auto)
  then have "list_all2 (\<lambda>e e'. cycle_body e = cycle_body e') es es'"
    by (simp add: list_all2_conv_all_nth list_eq_iff_nth_eq)
  then show ?thesis
  proof (rule list.rel_mono_strong)
    fix e e' assume e: "e \<in> set es" "e' \<in> set es'" "cycle_body e = cycle_body e'"
    then have tree: "cycle_tree e = cycle_tree e'" by (simp add: cycle_body_inject)
    then have "ci_digest (oe_identity e) = ci_digest (oe_identity e')" by (simp add: cycle_tree_def)
    moreover have "ci_digest (oe_identity x) = sha (identity_body (oe_identity x))"
      if valid: "\<exists>raw. mk_cycle_event sha raw = Inr x" for x
      using valid event_identity_sealed by blast
    ultimately have "identity_body (oe_identity e) = identity_body (oe_identity e')"
      using assms(7) e l(3) l'(3) by (metis separates_def)
    then show "same_cycle e e'" using tree by (simp add: same_cycle_def identity_body_inject)
  qed
qed

theorem head_digest_fixes_cycles_witness:
  "\<exists>e. list_all2 same_cycle [e] [e] \<and> open_ledger (\<lambda>_. replicate 64 (CHR ''1'')) [OpLine e]
     = Inr (ledger_of (\<lambda>_. replicate 64 (CHR ''1'')) [e])"
proof -
  let ?one = "replicate 64 (CHR ''1'')"
  let ?sha = "\<lambda>_ :: string. ?one"
  have hex: "hex_digests ?sha" by (simp add: hex_digests_def list_all_length is_hex_char_def)
  have z: "strip zero_digest = zero_digest" by (rule strip_digest [OF zero_digest_hex])
  have nb: "strip ''C1'' \<noteq> []" by (simp add: string_eval)
  obtain e where e: "mk_cycle_event ?sha (sample_cycle 0 ''C1'' zero_digest) = Inr e"
    using nb by (simp add: mk_cycle_event_def mk_cycle_identity_eq sample_cycle_def Let_def normalise_event_def z
        optional_digest_bad_def cycle_json)
  then have f: "ci_sequence (oe_identity e) = 0" "oe_previous e = zero_digest"
    by (auto simp: mk_cycle_event_Inr mk_cycle_identity_eq sample_cycle_def Let_def normalise_event_def z
        split: if_splits)
  have ok: "event_ok ?sha e" using mk_cycle_event_reload [OF hex e] by (simp add: event_ok_def)
  have "entries_ok ?sha [e]" using ok f by (simp add: entries_ok_def)
  from open_entries [OF this] have o: "open_ledger ?sha [OpLine e] = Inr (ledger_of ?sha [e])" by simp
  have r: "read_all_events ?sha (ledger_of ?sha [e]) = Inr [e]"
    using ok by (simp add: read_all_events_def ledger_of_def event_ok_def)
  have "?one \<noteq> zero_digest" by (simp add: zero_digest_def eval_nat_numeral)
  then have "list_all2 same_cycle [e] [e]"
    by (intro head_digest_fixes_cycles [OF o o refl r r]) (simp_all add: separates_def)
  with o show ?thesis by blast
qed

text \<open>A limit of the replay: an event line whose stored digest is blank is sealed anew, so the last line
  of a file can be altered by whoever also blanks its digest; the change shows in the head digest only.\<close>

lemma blank_digest_is_resealed:
  assumes "event_ok sha e" and "hex_digests sha" and "valid_lineage (e\<lparr>oe_kill_switch := k\<rparr>)"
  shows "\<exists>e'. mk_cycle_event sha (e\<lparr>oe_kill_switch := k, oe_digest := []\<rparr>) = Inr e' \<and> oe_kill_switch e' = k"
proof -
  obtain i f where i: "mk_cycle_identity sha (oe_identity e) = Inr i" "ci_as_of i \<le> oe_wall_clock e"
    and f: "f = normalise_event (e\<lparr>oe_identity := i\<rparr>)" "valid_lineage f"
    using assms(1) unfolding event_ok_def mk_cycle_event_Inr by blast
  let ?f = "normalise_event (e\<lparr>oe_kill_switch := k, oe_digest := [], oe_identity := i\<rparr>)"
  have "valid_lineage ?f" using f by (simp add: valid_lineage_def normalise_event_def)
  then have "mk_cycle_event sha (e\<lparr>oe_kill_switch := k, oe_digest := []\<rparr>)
      = Inr (?f\<lparr>oe_digest := sha (cycle_body ?f)\<rparr>)"
    using i by (auto simp: mk_cycle_event_Inr)
  then show ?thesis by (simp add: normalise_event_def)
qed

end
