(* ===== verification/DecimalText.thy ===== *)
theory DecimalText
  imports PyDecimal Json
begin

section \<open>Decimal objects and their text\<close>

text \<open>
  A \<open>Decimal\<close> object is a sign, a coefficient and an exponent: \<open>1.0\<close> and \<open>1.00\<close> are equal numbers
  and different objects, and the digests of the execution layer hash \<open>str(d)\<close>, which tells them
  apart.  \<open>dec_str\<close> is \<open>Decimal.__str__\<close> (plain notation, or scientific notation for a positive
  exponent or a magnitude below \<open>1E-6\<close>), \<open>dec_value\<close> the number.  The result of the theory is
  \<open>dec_read_str\<close>: the text can be read back, so equal texts are equal objects.
\<close>

record py_decimal =
  dc_negative :: bool
  dc_coeff :: nat
  dc_exp :: int

definition dec_value :: "py_decimal \<Rightarrow> dec" where
  "dec_value d = (if dc_negative d then - 1 else 1) * of_nat (dc_coeff d) * pow10 (dc_exp d)"

definition exponent_text :: "int \<Rightarrow> string" where
  "exponent_text e = CHR ''E'' # (if e < 0 then CHR ''-'' # str_nat (nat (- e)) else CHR ''+'' # str_nat (nat e))"

definition dec_str :: "py_decimal \<Rightarrow> string" where
  "dec_str d =
     (let digits = str_nat (dc_coeff d); n = int (length digits);
          left = dc_exp d + n;
          dot = (if dc_exp d \<le> 0 \<and> left > -6 then left else 1);
          mantissa =
            (if dot \<le> 0 then ''0.'' @ replicate (nat (- dot)) (CHR ''0'') @ digits
             else if dot \<ge> n then digits @ replicate (nat (dot - n)) (CHR ''0'')
             else take (nat dot) digits @ ''.'' @ drop (nat dot) digits)
      in (if dc_negative d then ''-'' else []) @ mantissa
         @ (if left = dot then [] else exponent_text (left - dot)))"

text \<open>Reading the three parts back.\<close>

definition read_exponent :: "string \<Rightarrow> int" where
  "read_exponent s = (case s of
       e # mark # ds \<Rightarrow> (if mark = CHR ''-'' then - int (digits_value 0 ds) else int (digits_value 0 ds))
     | _ \<Rightarrow> 0)"

definition read_number :: "bool \<Rightarrow> string \<Rightarrow> py_decimal" where
  "read_number neg t =
     (let mantissa = takeWhile (\<lambda>c. c \<noteq> CHR ''E'') t;
          integral = takeWhile (\<lambda>c. c \<noteq> CHR ''.'') mantissa;
          decimals = tl (dropWhile (\<lambda>c. c \<noteq> CHR ''.'') mantissa)
      in \<lparr>dc_negative = neg, dc_coeff = digits_value 0 (integral @ decimals),
          dc_exp = read_exponent (dropWhile (\<lambda>c. c \<noteq> CHR ''E'') t) - int (length decimals)\<rparr>)"

definition dec_read :: "string \<Rightarrow> py_decimal" where
  "dec_read s = (if s \<noteq> [] \<and> hd s = CHR ''-'' then read_number True (tl s) else read_number False s)"

lemma digits_no_marks:
  assumes "list_all is_digit s" and "c \<in> set s"
  shows "c \<noteq> CHR ''E''" and "c \<noteq> CHR ''.''" and "c \<noteq> CHR ''-''"
  using assms by (auto simp: list_all_iff is_digit_def)

lemma read_exponent_text [simp]: "read_exponent (exponent_text e) = e"
  by (simp add: read_exponent_def exponent_text_def digits_value_str_nat)

lemma read_number_parts:
  assumes "list_all is_digit integral" and "list_all is_digit decimals"
    and "tail = [] \<or> (\<exists>e. tail = exponent_text e)"
  shows "read_number neg (integral @ (if decimals = [] then [] else CHR ''.'' # decimals) @ tail)
    = \<lparr>dc_negative = neg, dc_coeff = digits_value 0 (integral @ decimals),
       dc_exp = read_exponent tail - int (length decimals)\<rparr>"
proof -
  note marks = digits_no_marks [OF assms(1)] digits_no_marks [OF assms(2)]
  let ?m = "integral @ (if decimals = [] then [] else CHR ''.'' # decimals)"
  have m: "\<forall>c \<in> set ?m. c \<noteq> CHR ''E''" using marks by auto
  have tail: "takeWhile (\<lambda>c. c \<noteq> CHR ''E'') tail = []" "dropWhile (\<lambda>c. c \<noteq> CHR ''E'') tail = tail"
    using assms(3) by (auto simp: exponent_text_def)
  have "takeWhile (\<lambda>c. c \<noteq> CHR ''E'') (?m @ tail) = ?m"
    using m tail by (subst takeWhile_append2) auto
  moreover have "dropWhile (\<lambda>c. c \<noteq> CHR ''E'') (?m @ tail) = tail"
    using m tail by (subst dropWhile_append2) auto
  moreover have "takeWhile (\<lambda>c. c \<noteq> CHR ''.'') ?m = integral"
    using marks by (subst takeWhile_append2) auto
  moreover have "tl (dropWhile (\<lambda>c. c \<noteq> CHR ''.'') ?m) = decimals"
    using marks by (subst dropWhile_append2) auto
  ultimately show ?thesis by (simp only: read_number_def Let_def append_assoc)
qed

text \<open>The unsigned text in its three shapes.\<close>

lemma dec_str_parts:
  obtains integral decimals tail where "dec_str d = (if dc_negative d then ''-'' else [])
      @ integral @ (if decimals = [] then [] else CHR ''.'' # decimals) @ tail"
    and "integral \<noteq> []" and "list_all is_digit integral" and "list_all is_digit decimals"
    and "tail = [] \<or> (\<exists>e. tail = exponent_text e)"
    and "digits_value 0 (integral @ decimals) = dc_coeff d"
    and "read_exponent tail - int (length decimals) = dc_exp d"
proof -
  define digits where "digits = str_nat (dc_coeff d)"
  define n where "n = length digits"
  define left where "left = dc_exp d + int n"
  define dot where "dot = (if dc_exp d \<le> 0 \<and> left > -6 then left else 1)"
  define tail where "tail = (if left = dot then [] else exponent_text (left - dot))"
  have dg: "list_all is_digit digits" "digits \<noteq> []" "digits_value 0 digits = dc_coeff d" "0 < n"
    using str_nat_digits by (auto simp: digits_def n_def digits_value_str_nat)
  have tl: "tail = [] \<or> (\<exists>e. tail = exponent_text e)" "read_exponent tail = left - dot"
    by (auto simp: tail_def read_exponent_def [of "[]"])
  have str: "dec_str d = (if dc_negative d then ''-'' else [])
      @ (if dot \<le> 0 then ''0.'' @ replicate (nat (- dot)) (CHR ''0'') @ digits
         else if dot \<ge> int n then digits @ replicate (nat (dot - int n)) (CHR ''0'')
         else take (nat dot) digits @ ''.'' @ drop (nat dot) digits) @ tail"
    by (simp add: dec_str_def Let_def digits_def n_def left_def dot_def tail_def)
  consider (small) "dot \<le> 0" | (all) "0 < dot" "dot \<ge> int n" | (mid) "0 < dot" "dot < int n" by linarith
  then show thesis
  proof cases
    case small
    let ?f = "replicate (nat (- dot)) (CHR ''0'') @ digits"
    have "list_all is_digit ?f" using dg(1) by (auto simp: list_all_iff is_digit_def)
    moreover have "dot = left" using small by (simp add: dot_def split: if_splits)
    ultimately show thesis using small dg tl
      by (intro that [of "''0''" ?f tail]) (auto simp: str is_digit_def digits_value_zeros left_def n_def)
  next
    case all
    then have "dot = int n"
      using dg(4) by (auto simp: dot_def left_def split: if_splits)
    then show thesis using all dg tl
      by (intro that [of digits "[]" tail]) (auto simp: str left_def)
  next
    case mid
    have len: "nat dot < length digits" "0 < nat dot" using mid by (simp_all add: n_def)
    have "list_all is_digit (take (nat dot) digits)" "list_all is_digit (drop (nat dot) digits)"
      using dg(1) by (auto simp: list_all_iff dest: in_set_takeD in_set_dropD)
    then show thesis using mid dg tl len
      by (intro that [of "take (nat dot) digits" "drop (nat dot) digits" tail]) (auto simp: str left_def n_def)
  qed
qed

text \<open>What \<open>str\<close> wrote reads back as the object it was.\<close>

lemma dec_read_str: "dec_read (dec_str d) = d"
proof -
  obtain integral decimals tail where str: "dec_str d = (if dc_negative d then ''-'' else [])
      @ integral @ (if decimals = [] then [] else CHR ''.'' # decimals) @ tail"
    and w: "integral \<noteq> []" "list_all is_digit integral" "list_all is_digit decimals"
    and t: "tail = [] \<or> (\<exists>e. tail = exponent_text e)"
    and v: "digits_value 0 (integral @ decimals) = dc_coeff d" "read_exponent tail - int (length decimals) = dc_exp d"
    by (rule dec_str_parts)
  have "hd integral \<noteq> CHR ''-''" using digits_no_marks(3) [OF w(2), of "hd integral"] w(1) by auto
  then show ?thesis
    using w(1) read_number_parts [OF w(2,3) t] v by (auto simp: dec_read_def str)
qed

lemma dec_str_inject [simp]: "dec_str a = dec_str b \<longleftrightarrow> a = b"
  by (metis dec_read_str)

lemma dec_str_samples:
  "dec_str \<lparr>dc_negative = False, dc_coeff = 1000, dc_exp = -1\<rparr> = ''100.0''"
  "dec_str \<lparr>dc_negative = True, dc_coeff = 5, dc_exp = -3\<rparr> = ''-0.005''"
  "dec_str \<lparr>dc_negative = False, dc_coeff = 123, dc_exp = 4\<rparr> = ''1.23E+6''"
  "dec_str \<lparr>dc_negative = False, dc_coeff = 1, dc_exp = -7\<rparr> = ''1E-7''"
  by code_simp+


subsection \<open>Absolute value\<close>

text \<open>\<open>abs(d)\<close> rounds to the 28 digits of the default context, half to even.\<close>

definition dec_abs :: "py_decimal \<Rightarrow> py_decimal" where
  "dec_abs d =
     (let extra = length (str_nat (dc_coeff d)) - 28 in
      if extra = 0 then d\<lparr>dc_negative := False\<rparr>
      else let q = nat (rhe (of_nat (dc_coeff d) / 10 ^ extra)) in
        if q = 10 ^ 28
        then \<lparr>dc_negative = False, dc_coeff = 10 ^ 27, dc_exp = dc_exp d + int extra + 1\<rparr>
        else \<lparr>dc_negative = False, dc_coeff = q, dc_exp = dc_exp d + int extra\<rparr>)"

lemma dec_value_abs:
  assumes "length (str_nat (dc_coeff d)) \<le> 28"
  shows "dec_value (dec_abs d) = \<bar>dec_value d\<bar>"
  using assms by (auto simp: dec_abs_def dec_value_def Let_def abs_mult abs_of_pos)

end
