(* ===== verification/Governance.thy ===== *)
theory Governance
  imports RiskSchema DecimalText
begin

section \<open>Certificates, authorizations and their schemas\<close>

text \<open>
  The governance half of \<open>execution/schema.py\<close>: the validation certificate, its revocation, the live
  authorization with its canonical digest, and the reactivation of a suspended authorization.  A
  class is a record, its pydantic validators are the \<open>mk_\<close> function on a record of raw fields: the
  fields in declaration order, then the constraints of \<open>Field\<close>, which pydantic reports last.
  Amounts are finite \<open>Decimal\<close> objects with their exponent, because the digests hash their text; a
  non-finite amount is refused by the schema on every path.  Times are aware UTC datetimes.
\<close>

datatype governance_verdict =
    PASS_TRADEABLE_ALPHA | REJECT_MISSING_TRIAL_LEDGER | REJECT_OVERFIT_DSR | REJECT_HIGH_PBO
  | REJECT_PARAMETER_FRAGILE | REJECT_MISSING_PERTURBATION_GRID | REJECT_MISSING_CPCV_EVIDENCE
  | REJECT_MULTIPLE_TESTING_FWER | REJECT_HAIRCUT_SHARPE | REJECT_INSUFFICIENT_TRL | REJECT_OOS_DEGRADATION
  | REJECT_MISSING_OOS_DATA

datatype authorization_status = DRAFT | PENDING_APPROVAL | ACTIVE | SUSPENDED | REVOKED | EXPIRED

text \<open>\<open>DomainValidationError\<close> and \<open>PreLiveRiskAdmissionError\<close>, one constructor per raise.\<close>

datatype admission_error =
    BlankField string
  | NotSha256Field string
  | NotPositiveField string
  | OutOfRangeField string
  | EmptyField string
  | NotCanonical data_contract_error
  | TrustFailure trust_error
  | VerdictNotPass
  | CertificateExpired
  | RevocationStrategyMismatch string
  | FutureRevocation string
  | RevocationDigestMismatch string
  | CertificateRevoked string
  | UnsupportedAlgorithm string
  | IssuerMismatch string
  | PositionAboveNotional
  | ExpiresBeforeAuthorized
  | TooFewRequired
  | DuplicateApproverId string
  | DuplicateKeyId string
  | ApprovalNotBound string
  | ApprovalDigestMismatch string
  | TooManyApprovals
  | WrongStatus authorization_status
  | ReactivationMismatch string
  | ReactivationDigestMismatch
  | ReactivationQuorumNotMet
  | NotYetExpired
  | RestrictionOpen string
  | AuthorizationExpired
  | VenueNotAllowed string
  | SymbolNotAllowed string
  | QuantityAboveLimit
  | RiskNotNominal
  | RiskNotNormal

subsection \<open>Field checks\<close>

definition non_blank :: "string \<Rightarrow> string \<Rightarrow> admission_error + string" where
  "non_blank field v = (if blank v then Inl (BlankField field) else Inr (strip v))"

definition sha256_field :: "string \<Rightarrow> string \<Rightarrow> admission_error + string" where
  "sha256_field field v = (if valid_sha256 v then Inr v else Inl (NotSha256Field field))"

definition positive_field :: "string \<Rightarrow> py_decimal \<Rightarrow> admission_error + py_decimal" where
  "positive_field field v = (if dec_value v \<le> 0 then Inl (NotPositiveField field) else Inr v)"

definition string_set :: "string \<Rightarrow> string list \<Rightarrow> admission_error + string list" where
  "string_set field v =
     (if list_ex blank v then Inl (BlankField field) else Inr (sort (remdups (map strip v))))"

definition canonical_text :: "py_value \<Rightarrow> admission_error + string" where
  "canonical_text v = (case to_canonical_json v of Inl e \<Rightarrow> Inl (NotCanonical e) | Inr s \<Rightarrow> Inr s)"

lemma non_blank_Inr [simp]: "non_blank f v = Inr w \<longleftrightarrow> \<not> blank v \<and> w = strip v"
  by (auto simp: non_blank_def)

lemma sha256_field_Inr [simp]: "sha256_field f v = Inr w \<longleftrightarrow> valid_sha256 v \<and> w = v"
  by (auto simp: sha256_field_def)

lemma positive_field_Inr [simp]: "positive_field f v = Inr w \<longleftrightarrow> 0 < dec_value v \<and> w = v"
  by (auto simp: positive_field_def)

lemma string_set_Inr [simp]:
  "string_set f v = Inr w \<longleftrightarrow> list_all (\<lambda>s. \<not> blank s) v \<and> w = sort (remdups (map strip v))"
  by (auto simp: string_set_def list_ex_iff list_all_iff)

subsection \<open>Validation certificate and its revocation\<close>

record certificate =
  ct_certificate_id :: string
  ct_validation_id :: string
  ct_strategy_id :: string
  ct_hypothesis_id :: string
  ct_verdict :: governance_verdict
  ct_decision_digest :: string
  ct_evidence_digest :: string
  ct_report_hash :: string
  ct_issuer_id :: string
  ct_issuer_key_id :: string
  ct_algorithm :: string
  ct_signature :: string
  ct_methodology :: string
  ct_created_at :: time
  ct_expires_at :: "time option"

definition mk_certificate :: "certificate \<Rightarrow> admission_error + certificate" where
  "mk_certificate c =
     rbind (non_blank ''certificate_id'' (ct_certificate_id c)) (\<lambda>cid.
     rbind (non_blank ''validation_id'' (ct_validation_id c)) (\<lambda>vid.
     rbind (non_blank ''strategy_id'' (ct_strategy_id c)) (\<lambda>sid.
     rbind (non_blank ''hypothesis_id'' (ct_hypothesis_id c)) (\<lambda>hid.
     raise_if (ct_verdict c \<noteq> PASS_TRADEABLE_ALPHA) VerdictNotPass (
     rbind (sha256_field ''decision_digest'' (ct_decision_digest c)) (\<lambda>_.
     rbind (sha256_field ''evidence_digest'' (ct_evidence_digest c)) (\<lambda>_.
     rbind (sha256_field ''source_report_hash'' (ct_report_hash c)) (\<lambda>_.
     rbind (non_blank ''issuer_id'' (ct_issuer_id c)) (\<lambda>iid.
     rbind (non_blank ''issuer_public_key_id'' (ct_issuer_key_id c)) (\<lambda>kid.
     rbind (non_blank ''certificate_signature'' (ct_signature c)) (\<lambda>sg.
     rbind (non_blank ''methodology_version'' (ct_methodology c)) (\<lambda>mv.
     raise_if (ct_algorithm c \<noteq> ''Ed25519'') (UnsupportedAlgorithm (ct_algorithm c)) (
       Inr (c\<lparr>ct_certificate_id := cid, ct_validation_id := vid, ct_strategy_id := sid,
              ct_hypothesis_id := hid, ct_issuer_id := iid, ct_issuer_key_id := kid,
              ct_signature := sg, ct_methodology := mv\<rparr>))))))))))))))"

definition verdict_value :: "governance_verdict \<Rightarrow> string" where
  "verdict_value v = (case v of
     PASS_TRADEABLE_ALPHA \<Rightarrow> ''PASS_TRADEABLE_ALPHA''
   | REJECT_MISSING_TRIAL_LEDGER \<Rightarrow> ''REJECT_MISSING_TRIAL_LEDGER''
   | REJECT_OVERFIT_DSR \<Rightarrow> ''REJECT_OVERFIT_DSR''
   | REJECT_HIGH_PBO \<Rightarrow> ''REJECT_HIGH_PBO''
   | REJECT_PARAMETER_FRAGILE \<Rightarrow> ''REJECT_PARAMETER_FRAGILE''
   | REJECT_MISSING_PERTURBATION_GRID \<Rightarrow> ''REJECT_MISSING_PERTURBATION_GRID''
   | REJECT_MISSING_CPCV_EVIDENCE \<Rightarrow> ''REJECT_MISSING_CPCV_EVIDENCE''
   | REJECT_MULTIPLE_TESTING_FWER \<Rightarrow> ''REJECT_MULTIPLE_TESTING_FWER''
   | REJECT_HAIRCUT_SHARPE \<Rightarrow> ''REJECT_HAIRCUT_SHARPE''
   | REJECT_INSUFFICIENT_TRL \<Rightarrow> ''REJECT_INSUFFICIENT_TRL''
   | REJECT_OOS_DEGRADATION \<Rightarrow> ''REJECT_OOS_DEGRADATION''
   | REJECT_MISSING_OOS_DATA \<Rightarrow> ''REJECT_MISSING_OOS_DATA'')"

definition optional_time :: "time option \<Rightarrow> py_value" where
  "optional_time ts = (case ts of Some u \<Rightarrow> PStr (isoformat u) | None \<Rightarrow> PNone)"

definition certificate_payload :: "certificate \<Rightarrow> admission_error + string" where
  "certificate_payload c = canonical_text (PDict
     [(KStr ''certificate_id'', PStr (ct_certificate_id c)),
      (KStr ''validation_id'', PStr (ct_validation_id c)),
      (KStr ''strategy_id'', PStr (ct_strategy_id c)),
      (KStr ''hypothesis_id'', PStr (ct_hypothesis_id c)),
      (KStr ''verdict'', PStr (verdict_value (ct_verdict c))),
      (KStr ''decision_digest'', PStr (ct_decision_digest c)),
      (KStr ''evidence_digest'', PStr (ct_evidence_digest c)),
      (KStr ''source_report_hash'', PStr (ct_report_hash c)),
      (KStr ''issuer_id'', PStr (ct_issuer_id c)),
      (KStr ''issuer_public_key_id'', PStr (ct_issuer_key_id c)),
      (KStr ''signature_algorithm'', PStr (ct_algorithm c)),
      (KStr ''methodology_version'', PStr (ct_methodology c)),
      (KStr ''created_at'', PStr (isoformat (ct_created_at c))),
      (KStr ''expires_at'', optional_time (ct_expires_at c))])"

record revocation =
  rv_revocation_id :: string
  rv_certificate_id :: string
  rv_strategy_id :: string
  rv_revoked_at :: time
  rv_reason :: string
  rv_actor :: string
  rv_actor_key_id :: string
  rv_signature :: string
  rv_digest :: string

definition mk_revocation :: "revocation \<Rightarrow> admission_error + revocation" where
  "mk_revocation r =
     rbind (non_blank ''revocation_id'' (rv_revocation_id r)) (\<lambda>rid.
     rbind (non_blank ''certificate_id'' (rv_certificate_id r)) (\<lambda>cid.
     rbind (non_blank ''strategy_id'' (rv_strategy_id r)) (\<lambda>sid.
     rbind (non_blank ''reason'' (rv_reason r)) (\<lambda>reason.
     rbind (non_blank ''actor'' (rv_actor r)) (\<lambda>actor.
     rbind (non_blank ''actor_public_key_id'' (rv_actor_key_id r)) (\<lambda>kid.
     rbind (non_blank ''revocation_signature'' (rv_signature r)) (\<lambda>sg.
     rbind (sha256_field ''revocation_digest'' (rv_digest r)) (\<lambda>_.
       Inr (r\<lparr>rv_revocation_id := rid, rv_certificate_id := cid, rv_strategy_id := sid, rv_reason := reason,
              rv_actor := actor, rv_actor_key_id := kid, rv_signature := sg\<rparr>)))))))))"

definition revocation_payload :: "revocation \<Rightarrow> admission_error + string" where
  "revocation_payload r = canonical_text (PDict
     [(KStr ''revocation_id'', PStr (rv_revocation_id r)),
      (KStr ''certificate_id'', PStr (rv_certificate_id r)),
      (KStr ''strategy_id'', PStr (rv_strategy_id r)),
      (KStr ''revoked_at'', PStr (isoformat (rv_revoked_at r))),
      (KStr ''reason'', PStr (rv_reason r)),
      (KStr ''actor'', PStr (rv_actor r)),
      (KStr ''actor_public_key_id'', PStr (rv_actor_key_id r))])"


subsection \<open>Live authorization\<close>

record live_authorization =
  la_authorization_id :: string
  la_certificate_id :: string
  la_strategy_id :: string
  la_status :: authorization_status
  la_authorized_at :: time
  la_expires_at :: time
  la_max_notional :: py_decimal
  la_max_position_size :: py_decimal
  la_max_order_rate :: int
  la_max_daily_loss :: py_decimal
  la_max_drawdown :: py_decimal
  la_venues :: "string list"
  la_symbols :: "string list"
  la_policy_version :: string
  la_required :: int
  la_approvals :: "approval list"
  la_digest :: string

definition mk_live_authorization :: "live_authorization \<Rightarrow> admission_error + live_authorization" where
  "mk_live_authorization a =
     rbind (non_blank ''authorization_id'' (la_authorization_id a)) (\<lambda>aid.
     rbind (non_blank ''certificate_id'' (la_certificate_id a)) (\<lambda>cid.
     rbind (non_blank ''strategy_id'' (la_strategy_id a)) (\<lambda>sid.
     rbind (positive_field ''max_notional'' (la_max_notional a)) (\<lambda>_.
     rbind (positive_field ''max_position_size'' (la_max_position_size a)) (\<lambda>_.
     rbind (positive_field ''max_daily_loss_notional'' (la_max_daily_loss a)) (\<lambda>_.
     raise_if (dec_value (la_max_drawdown a) \<le> 0 \<or> 100 < dec_value (la_max_drawdown a))
       (OutOfRangeField ''max_drawdown_pct'') (
     rbind (string_set ''allowed_venues'' (la_venues a)) (\<lambda>venues.
     rbind (string_set ''allowed_symbols'' (la_symbols a)) (\<lambda>symbols.
     rbind (non_blank ''risk_policy_version'' (la_policy_version a)) (\<lambda>pv.
     rbind (sha256_field ''authorization_digest'' (la_digest a)) (\<lambda>_.
     raise_if (\<not> 0 < la_max_order_rate a) (OutOfRangeField ''max_order_rate_per_minute'') (
     raise_if (la_venues a = []) (EmptyField ''allowed_venues'') (
     raise_if (la_symbols a = []) (EmptyField ''allowed_symbols'') (
     raise_if (la_required a < 1) (OutOfRangeField ''required_approvals'') (
       Inr (a\<lparr>la_authorization_id := aid, la_certificate_id := cid, la_strategy_id := sid,
              la_venues := venues, la_symbols := symbols, la_policy_version := pv\<rparr>))))))))))))))))"

text \<open>\<open>compute_authorization_digest\<close> takes the terms of an authorization and the approval digests; the
  terms are those of a record, whose status, approvals and digest are not read.\<close>

definition authorization_payload :: "live_authorization \<Rightarrow> string list \<Rightarrow> py_value" where
  "authorization_payload a digests = PDict
     [(KStr ''authorization_id'', PStr (la_authorization_id a)),
      (KStr ''certificate_id'', PStr (la_certificate_id a)),
      (KStr ''strategy_id'', PStr (la_strategy_id a)),
      (KStr ''authorized_at'', PStr (isoformat (la_authorized_at a))),
      (KStr ''expires_at'', PStr (isoformat (la_expires_at a))),
      (KStr ''max_notional'', PStr (dec_str (la_max_notional a))),
      (KStr ''max_position_size'', PStr (dec_str (la_max_position_size a))),
      (KStr ''max_order_rate_per_minute'', PInt (la_max_order_rate a)),
      (KStr ''max_daily_loss_notional'', PStr (dec_str (la_max_daily_loss a))),
      (KStr ''max_drawdown_pct'', PStr (dec_str (la_max_drawdown a))),
      (KStr ''allowed_venues'', PList (map PStr (sort (la_venues a)))),
      (KStr ''allowed_symbols'', PList (map PStr (sort (la_symbols a)))),
      (KStr ''risk_policy_version'', PStr (la_policy_version a)),
      (KStr ''required_approvals'', PInt (la_required a)),
      (KStr ''approval_digests'', PList (map PStr (sort digests)))]"

definition compute_authorization_digest ::
    "(string \<Rightarrow> string) \<Rightarrow> live_authorization \<Rightarrow> string list \<Rightarrow> admission_error + string" where
  "compute_authorization_digest sha a digests =
     rbind (canonical_text (authorization_payload a digests)) (\<lambda>text. Inr (sha text))"

subsection \<open>Reactivation\<close>

record reactivation_approval =
  ra_approver_id :: string
  ra_key_id :: string
  ra_role :: approver_role
  ra_reactivation_id :: string
  ra_authorization_id :: string
  ra_approved_at :: time
  ra_signature :: string
  ra_digest :: string

definition mk_reactivation_approval :: "reactivation_approval \<Rightarrow> admission_error + reactivation_approval" where
  "mk_reactivation_approval a =
     rbind (non_blank ''approver_id'' (ra_approver_id a)) (\<lambda>approver.
     rbind (non_blank ''public_key_id'' (ra_key_id a)) (\<lambda>key.
     rbind (non_blank ''reactivation_id'' (ra_reactivation_id a)) (\<lambda>rid.
     rbind (non_blank ''authorization_id'' (ra_authorization_id a)) (\<lambda>aid.
     rbind (non_blank ''approval_signature'' (ra_signature a)) (\<lambda>sg.
     rbind (sha256_field ''approval_digest'' (ra_digest a)) (\<lambda>_.
       Inr (a\<lparr>ra_approver_id := approver, ra_key_id := key, ra_reactivation_id := rid,
              ra_authorization_id := aid, ra_signature := sg\<rparr>)))))))"

definition reactivation_approval_payload :: "reactivation_approval \<Rightarrow> admission_error + string" where
  "reactivation_approval_payload a = canonical_text (PDict
     [(KStr ''reactivation_id'', PStr (ra_reactivation_id a)),
      (KStr ''authorization_id'', PStr (ra_authorization_id a)),
      (KStr ''approver_id'', PStr (ra_approver_id a)),
      (KStr ''public_key_id'', PStr (ra_key_id a)),
      (KStr ''role'', PStr (role_value (ra_role a))),
      (KStr ''approved_at'', PStr (isoformat (ra_approved_at a)))])"

record reactivation_event =
  re_reactivation_id :: string
  re_authorization_id :: string
  re_strategy_id :: string
  re_reactivated_at :: time
  re_root_cause :: string
  re_required :: int
  re_approvals :: "reactivation_approval list"
  re_digest :: string

definition mk_reactivation_event :: "reactivation_event \<Rightarrow> admission_error + reactivation_event" where
  "mk_reactivation_event e =
     rbind (non_blank ''reactivation_id'' (re_reactivation_id e)) (\<lambda>rid.
     rbind (non_blank ''authorization_id'' (re_authorization_id e)) (\<lambda>aid.
     rbind (non_blank ''strategy_id'' (re_strategy_id e)) (\<lambda>sid.
     rbind (non_blank ''root_cause_summary'' (re_root_cause e)) (\<lambda>cause.
     rbind (sha256_field ''reactivation_digest'' (re_digest e)) (\<lambda>_.
     raise_if (re_required e < 1) (OutOfRangeField ''required_approvals'') (
       Inr (e\<lparr>re_reactivation_id := rid, re_authorization_id := aid, re_strategy_id := sid,
              re_root_cause := cause\<rparr>)))))))"

definition reactivation_event_payload :: "reactivation_event \<Rightarrow> admission_error + string" where
  "reactivation_event_payload e = canonical_text (PDict
     [(KStr ''reactivation_id'', PStr (re_reactivation_id e)),
      (KStr ''authorization_id'', PStr (re_authorization_id e)),
      (KStr ''strategy_id'', PStr (re_strategy_id e)),
      (KStr ''reactivated_at'', PStr (isoformat (re_reactivated_at e))),
      (KStr ''root_cause_summary'', PStr (re_root_cause e)),
      (KStr ''required_approvals'', PInt (re_required e)),
      (KStr ''approval_digests'', PList (map PStr (sort (map ra_digest (re_approvals e)))))])"

subsection \<open>The digest of an authorization binds its terms\<close>

text \<open>The canonical tree of the authorization payload.\<close>

definition authorization_tree :: "live_authorization \<Rightarrow> string list \<Rightarrow> json" where
  "authorization_tree a digests = JObj
     [(''allowed_symbols'', JList (map JStr (sort (la_symbols a)))),
      (''allowed_venues'', JList (map JStr (sort (la_venues a)))),
      (''approval_digests'', JList (map JStr (sort digests))),
      (''authorization_id'', JStr (la_authorization_id a)),
      (''authorized_at'', JStr (isoformat (la_authorized_at a))),
      (''certificate_id'', JStr (la_certificate_id a)),
      (''expires_at'', JStr (isoformat (la_expires_at a))),
      (''max_daily_loss_notional'', JStr (dec_str (la_max_daily_loss a))),
      (''max_drawdown_pct'', JStr (dec_str (la_max_drawdown a))),
      (''max_notional'', JStr (dec_str (la_max_notional a))),
      (''max_order_rate_per_minute'', tagged ''int'' (JInt (la_max_order_rate a))),
      (''max_position_size'', JStr (dec_str (la_max_position_size a))),
      (''required_approvals'', tagged ''int'' (JInt (la_required a))),
      (''risk_policy_version'', JStr (la_policy_version a)),
      (''strategy_id'', JStr (la_strategy_id a))]"

lemma authorization_json:
  "to_canonical_json (authorization_payload a digests) = Inr (dumps (authorization_tree a digests))"
  by (simp add: authorization_payload_def to_canonical_json_def authorization_tree_def serialize_texts)

lemma compute_authorization_digest_eq [simp]:
  "compute_authorization_digest sha a digests = Inr (sha (dumps (authorization_tree a digests)))"
  by (simp add: compute_authorization_digest_def canonical_text_def authorization_json)

lemma authorization_tree_ok: "json_ok (authorization_tree a digests)"
  by (auto simp: authorization_tree_def tagged_def)

text \<open>The terms of two authorizations agree: identifiers, interval, limits as objects, whitelists as
  multisets.\<close>

definition same_terms :: "live_authorization \<Rightarrow> live_authorization \<Rightarrow> bool" where
  "same_terms a b \<longleftrightarrow> la_authorization_id a = la_authorization_id b
     \<and> la_certificate_id a = la_certificate_id b \<and> la_strategy_id a = la_strategy_id b
     \<and> la_authorized_at a = la_authorized_at b \<and> la_expires_at a = la_expires_at b
     \<and> la_max_notional a = la_max_notional b \<and> la_max_position_size a = la_max_position_size b
     \<and> la_max_order_rate a = la_max_order_rate b \<and> la_max_daily_loss a = la_max_daily_loss b
     \<and> la_max_drawdown a = la_max_drawdown b \<and> la_policy_version a = la_policy_version b
     \<and> la_required a = la_required b
     \<and> mset (la_venues a) = mset (la_venues b) \<and> mset (la_symbols a) = mset (la_symbols b)"

lemma sort_eq_iff_mset: "sort xs = sort ys \<longleftrightarrow> mset xs = mset (ys :: 'a :: linorder list)"
  by (metis mset_sort properties_for_sort sorted_sort)

lemma authorization_tree_inject:
  assumes "datetime_ok (la_authorized_at a)" "datetime_ok (la_expires_at a)"
    and "datetime_ok (la_authorized_at b)" "datetime_ok (la_expires_at b)"
  shows "dumps (authorization_tree a ds) = dumps (authorization_tree b ds')
    \<longleftrightarrow> same_terms a b \<and> mset ds = mset ds'"
proof -
  have JStrs: "map JStr xs = map JStr ys \<longleftrightarrow> xs = ys" for xs ys
    by (rule inj_map_eq_map) (simp add: inj_on_def)
  have iso: "isoformat (la_authorized_at a) = isoformat (la_authorized_at b) \<longleftrightarrow> la_authorized_at a = la_authorized_at b"
      "isoformat (la_expires_at a) = isoformat (la_expires_at b) \<longleftrightarrow> la_expires_at a = la_expires_at b"
    using isoformat_inject [OF _ assms(1,3)] isoformat_inject [OF _ assms(2,4)] by auto
  show ?thesis
    unfolding dumps_inject [OF authorization_tree_ok authorization_tree_ok]
    by (auto simp: authorization_tree_def tagged_def same_terms_def JStrs iso sort_eq_iff_mset)
qed

end
