(* ===== verification/Admission.thy ===== *)
theory Admission
  imports KillSwitch Restriction Governance
begin

section \<open>Pre-live admission\<close>

text \<open>
  \<open>execution/admission.py\<close>: verification of the validation certificate, issuance and life cycle of
  the live authorization, admission of order intents against the authorization, the restriction
  authority and the risk state, and the automated kill-switch triggers.  \<open>sha\<close> is the hex digest of
  SHA-256, \<open>ed\<close> the Ed25519 primitive, \<open>trust\<close> the entries of the trust store.
\<close>

subsection \<open>Certificates\<close>

definition verify_trust_store_signature ::
    "(nat list \<Rightarrow> nat list \<Rightarrow> string \<Rightarrow> bool) \<Rightarrow> trust_entry list \<Rightarrow> string \<Rightarrow> string \<Rightarrow> string \<Rightarrow> time
     \<Rightarrow> admission_error + unit" where
  "verify_trust_store_signature ed trust key_id payload signature signed_at =
     (case verify_signature ed trust key_id payload signature (Some signed_at) of
        Inl e \<Rightarrow> Inl (TrustFailure e)
      | Inr u \<Rightarrow> Inr u)"

definition verify_revocation_event ::
    "(string \<Rightarrow> string) \<Rightarrow> (nat list \<Rightarrow> nat list \<Rightarrow> string \<Rightarrow> bool) \<Rightarrow> trust_entry list \<Rightarrow> revocation \<Rightarrow> certificate
     \<Rightarrow> time \<Rightarrow> admission_error + unit" where
  "verify_revocation_event sha ed trust r c now =
     (if rv_certificate_id r \<noteq> ct_certificate_id c then Inr ()
      else raise_if (rv_strategy_id r \<noteq> ct_strategy_id c) (RevocationStrategyMismatch (rv_revocation_id r)) (
      raise_if (now < rv_revoked_at r) (FutureRevocation (rv_revocation_id r)) (
      rbind (revocation_payload r) (\<lambda>payload.
      raise_if (rv_digest r \<noteq> sha payload) (RevocationDigestMismatch (rv_revocation_id r)) (
      rbind (verify_trust_store_signature ed trust (rv_actor_key_id r) payload (rv_signature r)
          (rv_revoked_at r)) (\<lambda>_.
        Inl (CertificateRevoked (ct_certificate_id c))))))))"

fun verify_revocations ::
    "(string \<Rightarrow> string) \<Rightarrow> (nat list \<Rightarrow> nat list \<Rightarrow> string \<Rightarrow> bool) \<Rightarrow> trust_entry list \<Rightarrow> certificate \<Rightarrow> time
     \<Rightarrow> revocation list \<Rightarrow> admission_error + unit" where
  "verify_revocations sha ed trust c now [] = Inr ()"
| "verify_revocations sha ed trust c now (r # rs) =
     rbind (verify_revocation_event sha ed trust r c now) (\<lambda>_. verify_revocations sha ed trust c now rs)"

definition verify_validation_certificate ::
    "(string \<Rightarrow> string) \<Rightarrow> (nat list \<Rightarrow> nat list \<Rightarrow> string \<Rightarrow> bool) \<Rightarrow> trust_entry list \<Rightarrow> revocation list
     \<Rightarrow> certificate \<Rightarrow> time \<Rightarrow> admission_error + unit" where
  "verify_validation_certificate sha ed trust revocations c now =
     raise_if (ct_verdict c \<noteq> PASS_TRADEABLE_ALPHA) VerdictNotPass (
     raise_if (case ct_expires_at c of Some u \<Rightarrow> u < now | None \<Rightarrow> False) CertificateExpired (
     rbind (verify_revocations sha ed trust c now revocations) (\<lambda>_.
     raise_if (ct_algorithm c \<noteq> ''Ed25519'') (UnsupportedAlgorithm (ct_algorithm c)) (
     case resolve trust (ct_issuer_key_id c) (Some (ct_created_at c)) of
       Inl e \<Rightarrow> Inl (TrustFailure e)
     | Inr entry \<Rightarrow>
         raise_if (te_issuer_id entry \<noteq> ct_issuer_id c) (IssuerMismatch (ct_issuer_id c)) (
         rbind (certificate_payload c) (\<lambda>payload.
           verify_trust_store_signature ed trust (ct_issuer_key_id c) payload (ct_signature c)
             (ct_created_at c)))))))"

subsection \<open>Approvals\<close>

definition verify_authorization_approval ::
    "(string \<Rightarrow> string) \<Rightarrow> (nat list \<Rightarrow> nat list \<Rightarrow> string \<Rightarrow> bool) \<Rightarrow> trust_entry list \<Rightarrow> string \<Rightarrow> approval
     \<Rightarrow> admission_error + unit" where
  "verify_authorization_approval sha ed trust authorization_id a =
     raise_if (ap_authorization_id a \<noteq> authorization_id) (ApprovalNotBound (ap_approver_id a)) (
     case approval_payload a of
       Inl e \<Rightarrow> Inl (ApprovalDigestMismatch (ap_approver_id a))
     | Inr payload \<Rightarrow>
         raise_if (ap_digest a \<noteq> sha payload) (ApprovalDigestMismatch (ap_approver_id a)) (
           verify_trust_store_signature ed trust (ap_key_id a) payload (ap_signature a) (ap_approved_at a)))"

fun collect_verified_approvals ::
    "(string \<Rightarrow> string) \<Rightarrow> (nat list \<Rightarrow> nat list \<Rightarrow> string \<Rightarrow> bool) \<Rightarrow> trust_entry list \<Rightarrow> string
     \<Rightarrow> string set \<Rightarrow> string set \<Rightarrow> approval list \<Rightarrow> admission_error + approval list" where
  "collect_verified_approvals sha ed trust authorization_id approvers keys [] = Inr []"
| "collect_verified_approvals sha ed trust authorization_id approvers keys (a # as) =
     raise_if (ap_approver_id a \<in> approvers) (DuplicateApproverId (ap_approver_id a)) (
     raise_if (ap_key_id a \<in> keys) (DuplicateKeyId (ap_key_id a)) (
     rbind (verify_authorization_approval sha ed trust authorization_id a) (\<lambda>_.
     rbind (collect_verified_approvals sha ed trust authorization_id (insert (ap_approver_id a) approvers)
         (insert (ap_key_id a) keys) as) (\<lambda>verified.
       Inr (a # verified)))))"

subsection \<open>Issuance\<close>

text \<open>The keyword arguments of issuance that are not read from the certificate.\<close>

record authorization_request =
  aq_authorization_id :: string
  aq_max_notional :: py_decimal
  aq_max_position_size :: py_decimal
  aq_max_order_rate :: int
  aq_max_daily_loss :: py_decimal
  aq_max_drawdown :: py_decimal
  aq_venues :: "string list"
  aq_symbols :: "string list"
  aq_policy_version :: string
  aq_required :: int
  aq_authorized_at :: time
  aq_expires_at :: time

definition validate_authorization_params :: "certificate \<Rightarrow> authorization_request \<Rightarrow> admission_error + unit" where
  "validate_authorization_params c q =
     raise_if (dec_value (aq_max_notional q) < dec_value (aq_max_position_size q)) PositionAboveNotional (
     raise_if (aq_expires_at q \<le> aq_authorized_at q) ExpiresBeforeAuthorized (
     raise_if (strip (ct_strategy_id c) = []) (BlankField ''strategy_id'') (Inr ())))"

definition raw_authorization ::
    "certificate \<Rightarrow> authorization_request \<Rightarrow> authorization_status \<Rightarrow> approval list \<Rightarrow> live_authorization" where
  "raw_authorization c q status approvals =
     \<lparr>la_authorization_id = aq_authorization_id q, la_certificate_id = ct_certificate_id c,
      la_strategy_id = ct_strategy_id c, la_status = status, la_authorized_at = aq_authorized_at q,
      la_expires_at = aq_expires_at q, la_max_notional = aq_max_notional q,
      la_max_position_size = aq_max_position_size q, la_max_order_rate = aq_max_order_rate q,
      la_max_daily_loss = aq_max_daily_loss q, la_max_drawdown = aq_max_drawdown q,
      la_venues = aq_venues q, la_symbols = aq_symbols q, la_policy_version = aq_policy_version q,
      la_required = aq_required q, la_approvals = approvals, la_digest = []\<rparr>"

definition build_live_authorization ::
    "(string \<Rightarrow> string) \<Rightarrow> certificate \<Rightarrow> authorization_request \<Rightarrow> authorization_status \<Rightarrow> approval list
     \<Rightarrow> admission_error + live_authorization" where
  "build_live_authorization sha c q status approvals =
     (let raw = raw_authorization c q status approvals in
      rbind (compute_authorization_digest sha raw (sort (map ap_digest approvals))) (\<lambda>digest.
        mk_live_authorization (raw\<lparr>la_digest := digest\<rparr>)))"

definition create_draft_authorization ::
    "(string \<Rightarrow> string) \<Rightarrow> (nat list \<Rightarrow> nat list \<Rightarrow> string \<Rightarrow> bool) \<Rightarrow> trust_entry list \<Rightarrow> revocation list
     \<Rightarrow> certificate \<Rightarrow> authorization_request \<Rightarrow> admission_error + live_authorization" where
  "create_draft_authorization sha ed trust revocations c q =
     rbind (verify_validation_certificate sha ed trust revocations c (aq_authorized_at q)) (\<lambda>_.
     rbind (validate_authorization_params c q) (\<lambda>_.
     raise_if (aq_required q < 1) TooFewRequired (
       build_live_authorization sha c q DRAFT [])))"

definition issue_live_authorization ::
    "(string \<Rightarrow> string) \<Rightarrow> (nat list \<Rightarrow> nat list \<Rightarrow> string \<Rightarrow> bool) \<Rightarrow> trust_entry list \<Rightarrow> revocation list
     \<Rightarrow> certificate \<Rightarrow> authorization_request \<Rightarrow> approval list \<Rightarrow> admission_error + live_authorization" where
  "issue_live_authorization sha ed trust revocations c q approvals =
     rbind (verify_validation_certificate sha ed trust revocations c (aq_authorized_at q)) (\<lambda>_.
     rbind (validate_authorization_params c q) (\<lambda>_.
     raise_if (aq_required q < 1) TooFewRequired (
     rbind (collect_verified_approvals sha ed trust (aq_authorization_id q) {} {} approvals) (\<lambda>verified.
     raise_if (aq_required q < int (length verified)) TooManyApprovals (
       build_live_authorization sha c q
         (if aq_required q \<le> int (length verified) then ACTIVE else PENDING_APPROVAL) verified)))))"

subsection \<open>Life cycle\<close>

definition submit_for_approval :: "live_authorization \<Rightarrow> admission_error + live_authorization" where
  "submit_for_approval a =
     raise_if (la_status a \<noteq> DRAFT) (WrongStatus (la_status a)) (Inr (a\<lparr>la_status := PENDING_APPROVAL\<rparr>))"

fun refuse_duplicates :: "approval \<Rightarrow> approval list \<Rightarrow> admission_error + unit" where
  "refuse_duplicates a [] = Inr ()"
| "refuse_duplicates a (b # bs) =
     raise_if (ap_approver_id b = ap_approver_id a) (DuplicateApproverId (ap_approver_id a)) (
     raise_if (ap_key_id b = ap_key_id a) (DuplicateKeyId (ap_key_id a)) (
       refuse_duplicates a bs))"

definition apply_approval ::
    "(string \<Rightarrow> string) \<Rightarrow> (nat list \<Rightarrow> nat list \<Rightarrow> string \<Rightarrow> bool) \<Rightarrow> trust_entry list \<Rightarrow> live_authorization
     \<Rightarrow> approval \<Rightarrow> admission_error + live_authorization" where
  "apply_approval sha ed trust a approval =
     raise_if (la_status a \<noteq> PENDING_APPROVAL) (WrongStatus (la_status a)) (
     rbind (refuse_duplicates approval (la_approvals a)) (\<lambda>_.
     rbind (verify_authorization_approval sha ed trust (la_authorization_id a) approval) (\<lambda>_.
     let new_approvals = la_approvals a @ [approval] in
     raise_if (la_required a < int (length new_approvals)) TooManyApprovals (
     rbind (compute_authorization_digest sha a (sort (map ap_digest new_approvals))) (\<lambda>new_digest.
       Inr (a\<lparr>la_status := if la_required a \<le> int (length new_approvals) then ACTIVE else PENDING_APPROVAL,
              la_approvals := new_approvals, la_digest := new_digest\<rparr>))))))"

definition suspend_authorization :: "live_authorization \<Rightarrow> string \<Rightarrow> string \<Rightarrow> admission_error + live_authorization" where
  "suspend_authorization a reason actor =
     raise_if (la_status a \<noteq> ACTIVE) (WrongStatus (la_status a)) (
     raise_if (blank reason) (BlankField ''reason'') (
     raise_if (blank actor) (BlankField ''actor_id'') (
       Inr (a\<lparr>la_status := SUSPENDED\<rparr>))))"

definition verify_reactivation_approval ::
    "(string \<Rightarrow> string) \<Rightarrow> (nat list \<Rightarrow> nat list \<Rightarrow> string \<Rightarrow> bool) \<Rightarrow> trust_entry list \<Rightarrow> string \<Rightarrow> string
     \<Rightarrow> reactivation_approval \<Rightarrow> admission_error + unit" where
  "verify_reactivation_approval sha ed trust reactivation_id authorization_id a =
     raise_if (ra_reactivation_id a \<noteq> reactivation_id) (ApprovalNotBound (ra_approver_id a)) (
     raise_if (ra_authorization_id a \<noteq> authorization_id) (ApprovalNotBound (ra_approver_id a)) (
     rbind (reactivation_approval_payload a) (\<lambda>payload.
     raise_if (ra_digest a \<noteq> sha payload) (ApprovalDigestMismatch (ra_approver_id a)) (
       verify_trust_store_signature ed trust (ra_key_id a) payload (ra_signature a) (ra_approved_at a)))))"

fun count_reactivation_approvals ::
    "(string \<Rightarrow> string) \<Rightarrow> (nat list \<Rightarrow> nat list \<Rightarrow> string \<Rightarrow> bool) \<Rightarrow> trust_entry list \<Rightarrow> string \<Rightarrow> string
     \<Rightarrow> string set \<Rightarrow> string set \<Rightarrow> reactivation_approval list \<Rightarrow> admission_error + int" where
  "count_reactivation_approvals sha ed trust rid aid approvers keys [] = Inr 0"
| "count_reactivation_approvals sha ed trust rid aid approvers keys (a # as) =
     raise_if (ra_approver_id a \<in> approvers) (DuplicateApproverId (ra_approver_id a)) (
     raise_if (ra_key_id a \<in> keys) (DuplicateKeyId (ra_key_id a)) (
     rbind (verify_reactivation_approval sha ed trust rid aid a) (\<lambda>_.
     rbind (count_reactivation_approvals sha ed trust rid aid (insert (ra_approver_id a) approvers)
         (insert (ra_key_id a) keys) as) (\<lambda>n. Inr (n + 1)))))"

definition reactivate_authorization ::
    "(string \<Rightarrow> string) \<Rightarrow> (nat list \<Rightarrow> nat list \<Rightarrow> string \<Rightarrow> bool) \<Rightarrow> trust_entry list \<Rightarrow> live_authorization
     \<Rightarrow> reactivation_event \<Rightarrow> admission_error + live_authorization" where
  "reactivate_authorization sha ed trust a e =
     raise_if (la_status a \<noteq> SUSPENDED) (WrongStatus (la_status a)) (
     raise_if (re_authorization_id e \<noteq> la_authorization_id a) (ReactivationMismatch ''authorization_id'') (
     raise_if (re_strategy_id e \<noteq> la_strategy_id a) (ReactivationMismatch ''strategy_id'') (
     raise_if (re_required e \<noteq> la_required a) (ReactivationMismatch ''required_approvals'') (
     raise_if (blank (re_root_cause e)) (BlankField ''root_cause_summary'') (
     rbind (reactivation_event_payload e) (\<lambda>payload.
     raise_if (re_digest e \<noteq> sha payload) ReactivationDigestMismatch (
     rbind (count_reactivation_approvals sha ed trust (re_reactivation_id e) (la_authorization_id a) {} {}
         (re_approvals e)) (\<lambda>verified.
     raise_if (verified < la_required a) ReactivationQuorumNotMet (
       Inr (a\<lparr>la_status := ACTIVE\<rparr>))))))))))"

definition revoke_authorization :: "live_authorization \<Rightarrow> string \<Rightarrow> string \<Rightarrow> admission_error + live_authorization" where
  "revoke_authorization a reason actor =
     raise_if (la_status a \<in> {REVOKED, EXPIRED}) (WrongStatus (la_status a)) (
     raise_if (blank reason) (BlankField ''reason'') (
     raise_if (blank actor) (BlankField ''actor_id'') (
       Inr (a\<lparr>la_status := REVOKED\<rparr>))))"

definition expire_authorization :: "live_authorization \<Rightarrow> time \<Rightarrow> admission_error + live_authorization" where
  "expire_authorization a now =
     raise_if (la_status a \<noteq> ACTIVE) (WrongStatus (la_status a)) (
     raise_if (now \<le> la_expires_at a) NotYetExpired (
       Inr (a\<lparr>la_status := EXPIRED\<rparr>)))"


subsection \<open>What verification accepts\<close>

lemma verify_trust_store_signature_Inr [simp]:
  "verify_trust_store_signature ed trust k m sg ts = Inr ()
     \<longleftrightarrow> (\<exists>e. resolve trust k (Some ts) = Inr e \<and> signed_under ed e m sg)"
  by (auto simp: verify_trust_store_signature_def verify_signature_resolved [symmetric] split: sum.splits)

definition certificate_tree :: "certificate \<Rightarrow> json" where
  "certificate_tree c = JObj
     [(''certificate_id'', JStr (ct_certificate_id c)), (''created_at'', JStr (isoformat (ct_created_at c))),
      (''decision_digest'', JStr (ct_decision_digest c)), (''evidence_digest'', JStr (ct_evidence_digest c)),
      (''expires_at'', case ct_expires_at c of Some u \<Rightarrow> JStr (isoformat u) | None \<Rightarrow> JNull),
      (''hypothesis_id'', JStr (ct_hypothesis_id c)), (''issuer_id'', JStr (ct_issuer_id c)),
      (''issuer_public_key_id'', JStr (ct_issuer_key_id c)), (''methodology_version'', JStr (ct_methodology c)),
      (''signature_algorithm'', JStr (ct_algorithm c)), (''source_report_hash'', JStr (ct_report_hash c)),
      (''strategy_id'', JStr (ct_strategy_id c)), (''validation_id'', JStr (ct_validation_id c)),
      (''verdict'', JStr (verdict_value (ct_verdict c)))]"

lemma certificate_payload_eq [simp]: "certificate_payload c = Inr (dumps (certificate_tree c))"
  by (cases "ct_expires_at c")
    (simp_all add: certificate_payload_def canonical_text_def to_canonical_json_def certificate_tree_def
      optional_time_def)

lemma revocation_payload_total: "\<exists>text. revocation_payload r = Inr text"
  by (simp add: revocation_payload_def canonical_text_def to_canonical_json_def)

text \<open>A revocation of this certificate ends the verification, whatever its signature and dates.\<close>

lemma verify_revocation_event_Inr [simp]:
  "verify_revocation_event sha ed trust r c now = Inr () \<longleftrightarrow> rv_certificate_id r \<noteq> ct_certificate_id c"
  using revocation_payload_total [of r] by (auto simp: verify_revocation_event_def rbind_Inr_iff)

lemma verify_revocations_Inr [simp]:
  "verify_revocations sha ed trust c now rs = Inr ()
     \<longleftrightarrow> (\<forall>r \<in> set rs. rv_certificate_id r \<noteq> ct_certificate_id c)"
  by (induction rs) (auto simp: rbind_Inr_iff)

text \<open>What certificate verification accepts.  \<open>verify_validation_certificate\<close> returns if and only
  if the verdict is PASS_TRADEABLE_ALPHA, the certificate has not expired, the signature algorithm is
  Ed25519, the issuer's key resolves in the trust store at the creation time to an entry of that very
  issuer, under which the signature over the canonical text of the certificate verifies, and no
  revocation event names the certificate: any event that does, even a malformed, future or unsigned
  one, blocks it (fail closed).  The signed text determines the certificate's content.\<close>

theorem certificate_verified_exactly:
  "(verify_validation_certificate sha ed trust revocations c now = Inr ()
     \<longleftrightarrow> ct_verdict c = PASS_TRADEABLE_ALPHA \<and> \<not> (\<exists>u. ct_expires_at c = Some u \<and> u < now)
       \<and> ct_algorithm c = ''Ed25519''
       \<and> \<not> (\<exists>r. r \<in> set revocations \<and> rv_certificate_id r = ct_certificate_id c)
       \<and> (\<exists>entry. resolve trust (ct_issuer_key_id c) (Some (ct_created_at c)) = Inr entry
            \<and> te_issuer_id entry = ct_issuer_id c
            \<and> signed_under ed entry (dumps (certificate_tree c)) (ct_signature c)))
   \<and> (dumps (certificate_tree c) = dumps (certificate_tree c') \<longleftrightarrow> certificate_tree c = certificate_tree c')"
proof -
  have ok: "json_ok (certificate_tree x)" for x
    by (simp add: certificate_tree_def split: option.splits)
  show ?thesis
    unfolding dumps_inject [OF ok ok]
    by (auto simp: verify_validation_certificate_def rbind_Inr_iff split: option.splits sum.splits)
qed

subsection \<open>Approvals that count\<close>

definition approval_verified ::
    "(string \<Rightarrow> string) \<Rightarrow> (nat list \<Rightarrow> nat list \<Rightarrow> string \<Rightarrow> bool) \<Rightarrow> trust_entry list \<Rightarrow> string \<Rightarrow> approval \<Rightarrow> bool" where
  "approval_verified sha ed trust authorization_id a \<longleftrightarrow> ap_authorization_id a = authorization_id
     \<and> ap_digest a = sha (approval_text a)
     \<and> verify_signature ed trust (ap_key_id a) (approval_text a) (ap_signature a) (Some (ap_approved_at a)) = Inr ()"

lemma verify_authorization_approval_Inr [simp]:
  "verify_authorization_approval sha ed trust aid a = Inr () \<longleftrightarrow> approval_verified sha ed trust aid a"
  by (auto simp: verify_authorization_approval_def approval_verified_def verify_signature_resolved)

lemma collect_verified_approvals_Inr [simp]:
  "collect_verified_approvals sha ed trust aid approvers keys as = Inr vs \<longleftrightarrow>
     vs = as \<and> distinct (map ap_approver_id as) \<and> distinct (map ap_key_id as)
     \<and> ap_approver_id ` set as \<inter> approvers = {} \<and> ap_key_id ` set as \<inter> keys = {}
     \<and> (\<forall>a \<in> set as. approval_verified sha ed trust aid a)"
  by (induction as arbitrary: approvers keys vs) (auto simp: rbind_Inr_iff)

lemma refuse_duplicates_Inr [simp]:
  "refuse_duplicates a bs = Inr ()
     \<longleftrightarrow> ap_approver_id a \<notin> ap_approver_id ` set bs \<and> ap_key_id a \<notin> ap_key_id ` set bs"
  by (induction bs) auto


subsection \<open>Schema-valid authorizations\<close>

definition clean_text :: "string \<Rightarrow> bool" where
  "clean_text s \<longleftrightarrow> \<not> blank s \<and> strip s = s"

text \<open>An authorization that the schema accepts unchanged.\<close>

definition schema_ok :: "live_authorization \<Rightarrow> bool" where
  "schema_ok a \<longleftrightarrow> clean_text (la_authorization_id a) \<and> clean_text (la_certificate_id a)
     \<and> clean_text (la_strategy_id a) \<and> clean_text (la_policy_version a)
     \<and> 0 < dec_value (la_max_notional a) \<and> 0 < dec_value (la_max_position_size a)
     \<and> 0 < dec_value (la_max_daily_loss a) \<and> 0 < dec_value (la_max_drawdown a)
     \<and> dec_value (la_max_drawdown a) \<le> 100 \<and> 0 < la_max_order_rate a \<and> 1 \<le> la_required a
     \<and> la_venues a \<noteq> [] \<and> la_symbols a \<noteq> [] \<and> list_all clean_text (la_venues a)
     \<and> list_all clean_text (la_symbols a) \<and> sorted (la_venues a) \<and> distinct (la_venues a)
     \<and> sorted (la_symbols a) \<and> distinct (la_symbols a) \<and> valid_sha256 (la_digest a)"

lemma clean_text_strip: "\<not> blank s \<Longrightarrow> clean_text (strip s)"
  by (simp add: clean_text_def blank_iff strip_idem)

lemma map_strip_clean: "list_all clean_text xs \<Longrightarrow> map strip xs = xs"
  by (induction xs) (simp_all add: clean_text_def)

lemma string_set_clean:
  assumes "list_all (\<lambda>s. \<not> blank s) v" and "v \<noteq> []"
  defines "w \<equiv> sort (remdups (map strip v))"
  shows "w \<noteq> [] \<and> list_all clean_text w \<and> sorted w \<and> distinct w"
proof -
  have set: "set w = strip ` set v" by (simp add: w_def)
  then have "w \<noteq> []" using assms(2) by (metis empty_set image_is_empty set_empty)
  then show ?thesis using set assms(1) by (auto simp: list_all_iff clean_text_strip w_def)
qed

lemma string_set_id:
  "list_all clean_text w \<Longrightarrow> sorted w \<Longrightarrow> distinct w \<Longrightarrow> string_set f w = Inr w"
  by (auto simp: map_strip_clean distinct_remdups_id sorted_sort_id clean_text_def list_all_iff)

lemma mk_live_authorization_ok:
  assumes "mk_live_authorization raw = Inr a"
  shows "schema_ok a" and "a = raw\<lparr>la_authorization_id := strip (la_authorization_id raw),
      la_certificate_id := strip (la_certificate_id raw), la_strategy_id := strip (la_strategy_id raw),
      la_venues := sort (remdups (map strip (la_venues raw))),
      la_symbols := sort (remdups (map strip (la_symbols raw))),
      la_policy_version := strip (la_policy_version raw)\<rparr>"
  using assms string_set_clean [of "la_venues raw"] string_set_clean [of "la_symbols raw"]
  by (auto simp: mk_live_authorization_def rbind_Inr_iff schema_ok_def clean_text_strip)

lemma schema_ok_accepted: "schema_ok a \<Longrightarrow> mk_live_authorization a = Inr a"
  by (auto simp: mk_live_authorization_def rbind_Inr_iff schema_ok_def clean_text_def string_set_id
      list_all_iff map_strip_clean distinct_remdups_id sorted_sort_id)

lemma schema_ok_updates [simp]:
  "schema_ok (a\<lparr>la_status := s\<rparr>) = schema_ok a"
  "schema_ok (a\<lparr>la_approvals := as\<rparr>) = schema_ok a"
  "valid_sha256 d \<Longrightarrow> schema_ok a \<Longrightarrow> schema_ok (a\<lparr>la_digest := d\<rparr>)"
  by (simp_all add: schema_ok_def)

subsection \<open>Histories of an authorization\<close>

datatype authorization_op =
    OpSubmit
  | OpApprove approval
  | OpSuspend string string
  | OpReactivate reactivation_event
  | OpRevoke string string
  | OpExpire time

fun authorization_step ::
    "(string \<Rightarrow> string) \<Rightarrow> (nat list \<Rightarrow> nat list \<Rightarrow> string \<Rightarrow> bool) \<Rightarrow> trust_entry list \<Rightarrow> live_authorization
     \<Rightarrow> authorization_op \<Rightarrow> admission_error + live_authorization" where
  "authorization_step sha ed trust a OpSubmit = submit_for_approval a"
| "authorization_step sha ed trust a (OpApprove p) = apply_approval sha ed trust a p"
| "authorization_step sha ed trust a (OpSuspend reason actor) = suspend_authorization a reason actor"
| "authorization_step sha ed trust a (OpReactivate e) = reactivate_authorization sha ed trust a e"
| "authorization_step sha ed trust a (OpRevoke reason actor) = revoke_authorization a reason actor"
| "authorization_step sha ed trust a (OpExpire now) = expire_authorization a now"

text \<open>The approvals an authorization rests on: by distinct approvers with distinct keys, bound to it,
  sealed and signed.\<close>

definition approved :: "(string \<Rightarrow> string) \<Rightarrow> (nat list \<Rightarrow> nat list \<Rightarrow> string \<Rightarrow> bool) \<Rightarrow> trust_entry list
    \<Rightarrow> live_authorization \<Rightarrow> bool" where
  "approved sha ed trust a \<longleftrightarrow> distinct (map ap_approver_id (la_approvals a))
     \<and> distinct (map ap_key_id (la_approvals a))
     \<and> (\<forall>p \<in> set (la_approvals a). approval_verified sha ed trust (la_authorization_id a) p)"

definition approval_count_ok :: "live_authorization \<Rightarrow> bool" where
  "approval_count_ok a \<longleftrightarrow>
     (let n = int (length (la_approvals a)) in
      case la_status a of
        DRAFT \<Rightarrow> n = 0
      | PENDING_APPROVAL \<Rightarrow> n < la_required a
      | REVOKED \<Rightarrow> n \<le> la_required a
      | _ \<Rightarrow> n = la_required a)"

definition authorization_ok :: "(string \<Rightarrow> string) \<Rightarrow> (nat list \<Rightarrow> nat list \<Rightarrow> string \<Rightarrow> bool)
    \<Rightarrow> trust_entry list \<Rightarrow> live_authorization \<Rightarrow> bool" where
  "authorization_ok sha ed trust a \<longleftrightarrow> schema_ok a \<and> approved sha ed trust a \<and> approval_count_ok a"

text \<open>What a schema-valid approval guarantees of its binding.\<close>

lemma mk_approval_clean: "mk_approval p k r aid ts sg dg = Inr a \<Longrightarrow> clean_text (ap_authorization_id a)"
  by (auto simp: mk_approval_def rbind_Inr_iff clean_text_strip)

lemma build_ok:
  assumes "build_live_authorization sha c q status as = Inr a"
    and "distinct (map ap_approver_id as)" "distinct (map ap_key_id as)"
    and "\<forall>p \<in> set as. approval_verified sha ed trust (aq_authorization_id q) p"
    and "\<forall>p \<in> set as. clean_text (ap_authorization_id p)"
  shows "schema_ok a" "approved sha ed trust a" "la_approvals a = as" "la_status a = status"
    "la_required a = aq_required q"
proof -
  obtain digest where mk: "mk_live_authorization ((raw_authorization c q status as)\<lparr>la_digest := digest\<rparr>) = Inr a"
    using assms(1) by (auto simp: build_live_authorization_def Let_def)
  note a = mk_live_authorization_ok [OF mk]
  show "schema_ok a" by (rule a(1))
  show f: "la_approvals a = as" "la_status a = status" "la_required a = aq_required q"
    by (simp_all add: a(2) raw_authorization_def)
  have "strip (aq_authorization_id q) = aq_authorization_id q" if "p \<in> set as" for p
    using assms(4,5) that by (auto simp: approval_verified_def clean_text_def)
  then show "approved sha ed trust a"
    using assms(2-4) by (auto simp: approved_def f) (simp add: a(2) raw_authorization_def)
qed

lemma draft_ok:
  assumes "create_draft_authorization sha ed trust revocations c q = Inr a"
  shows "authorization_ok sha ed trust a"
  using assms build_ok [of sha c q DRAFT "[]" a ed trust]
  by (auto simp: create_draft_authorization_def rbind_Inr_iff authorization_ok_def approval_count_ok_def)

lemma issued_ok:
  assumes "issue_live_authorization sha ed trust revocations c q as = Inr a"
    and "\<forall>p \<in> set as. clean_text (ap_authorization_id p)"
  shows "authorization_ok sha ed trust a"
  using assms build_ok [of sha c q _ as a ed trust]
  by (auto simp: issue_live_authorization_def rbind_Inr_iff authorization_ok_def approval_count_ok_def
      split: if_splits)

lemma authorization_step_ok:
  assumes "hex_digests sha" and "authorization_ok sha ed trust a" and "authorization_step sha ed trust a op = Inr a'"
  shows "authorization_ok sha ed trust a'"
proof (cases op)
  case (OpApprove p)
  then show ?thesis using assms
    by (auto simp: apply_approval_def Let_def rbind_Inr_iff authorization_ok_def approved_def approval_count_ok_def)
next
  case (OpRevoke reason actor)
  have "1 \<le> la_required a" using assms(2) by (simp add: authorization_ok_def schema_ok_def)
  with OpRevoke show ?thesis using assms
    by (cases "la_status a")
      (auto simp: revoke_authorization_def authorization_ok_def approved_def approval_count_ok_def)
qed (use assms in \<open>auto simp: submit_for_approval_def suspend_authorization_def reactivate_authorization_def
    expire_authorization_def rbind_Inr_iff authorization_ok_def approved_def approval_count_ok_def
    schema_ok_def\<close>)


text \<open>Where an authorization comes from: a draft, or an issuance over schema-valid approvals.\<close>

definition lawful_origin :: "(string \<Rightarrow> string) \<Rightarrow> (nat list \<Rightarrow> nat list \<Rightarrow> string \<Rightarrow> bool)
    \<Rightarrow> trust_entry list \<Rightarrow> live_authorization \<Rightarrow> bool" where
  "lawful_origin sha ed trust a \<longleftrightarrow> (\<exists>revocations c q.
     create_draft_authorization sha ed trust revocations c q = Inr a
     \<or> (\<exists>as. (\<forall>p \<in> set as. clean_text (ap_authorization_id p))
          \<and> issue_live_authorization sha ed trust revocations c q as = Inr a))"

lemma history_ok:
  assumes "hex_digests sha" and "lawful_origin sha ed trust a"
  shows "authorization_ok sha ed trust (run_lossy (authorization_step sha ed trust) a ops)"
proof (rule run_lossy_invariant [where P = "authorization_ok sha ed trust"])
  show "authorization_ok sha ed trust a"
    using assms(2) draft_ok issued_ok by (auto simp: lawful_origin_def)
qed (use authorization_step_ok [OF assms(1)] in blast)

text \<open>The life cycle of the class documentation.\<close>

definition lifecycle :: "(authorization_status \<times> authorization_status) set" where
  "lifecycle = {(DRAFT, PENDING_APPROVAL), (PENDING_APPROVAL, PENDING_APPROVAL), (PENDING_APPROVAL, ACTIVE),
     (ACTIVE, SUSPENDED), (SUSPENDED, ACTIVE), (ACTIVE, EXPIRED),
     (DRAFT, REVOKED), (PENDING_APPROVAL, REVOKED), (ACTIVE, REVOKED), (SUSPENDED, REVOKED)}"

definition amends :: "live_authorization \<Rightarrow> live_authorization \<Rightarrow> bool" where
  "amends a a' \<longleftrightarrow> (\<exists>s as d. a' = a\<lparr>la_status := s, la_approvals := la_approvals a @ as, la_digest := d\<rparr>)"

lemma amends_refl: "amends a a"
  by (auto simp: amends_def intro!: exI [of _ "la_status a"] exI [of _ "[]"] exI [of _ "la_digest a"])

lemma amends_trans:
  assumes "amends a b" and "amends b c"
  shows "amends a c"
proof -
  obtain s as d where b: "b = a\<lparr>la_status := s, la_approvals := la_approvals a @ as, la_digest := d\<rparr>"
    using assms(1) by (auto simp: amends_def)
  obtain s' as' d' where "c = b\<lparr>la_status := s', la_approvals := la_approvals b @ as', la_digest := d'\<rparr>"
    using assms(2) by (auto simp: amends_def)
  then have "c = a\<lparr>la_status := s', la_approvals := la_approvals a @ (as @ as'), la_digest := d'\<rparr>"
    using b by simp
  then show ?thesis by (auto simp only: amends_def)
qed

lemma amends_status: "a' = a\<lparr>la_status := s\<rparr> \<Longrightarrow> amends a a'"
  by (auto simp: amends_def intro!: exI [of _ s] exI [of _ "[]"] exI [of _ "la_digest a"])

lemma amends_same_terms: "amends a a' \<Longrightarrow> same_terms a' a"
  by (auto simp: amends_def same_terms_def)

lemma authorization_step_lifecycle:
  assumes "authorization_step sha ed trust a op = Inr a'"
  shows "(la_status a, la_status a') \<in> lifecycle \<and> amends a a'"
proof (cases op)
  case (OpApprove p)
  then show ?thesis using assms
    by (auto simp: apply_approval_def Let_def rbind_Inr_iff lifecycle_def amends_def split: if_splits)
next
  case (OpRevoke reason actor)
  then show ?thesis using assms
    by (cases "la_status a") (auto simp: revoke_authorization_def lifecycle_def intro: amends_status)
qed (use assms in \<open>auto simp: submit_for_approval_def suspend_authorization_def reactivate_authorization_def
    expire_authorization_def rbind_Inr_iff lifecycle_def intro: amends_status\<close>)

lemma run_amends: "amends a (run_lossy (authorization_step sha ed trust) a ops)"
  by (rule run_lossy_invariant [where P = "amends a"])
    (use amends_refl amends_trans authorization_step_lifecycle in blast)+

text \<open>C8: Authorizations stay well formed although no operation revalidates.  \<open>model_copy\<close> skips the
  schema, yet from a draft or an issued authorization every sequence of life-cycle calls, whose
  refusals are caught, leaves an object that the schema accepts unchanged and whose identifiers,
  interval, limits and whitelists are those of its creation.\<close>

theorem authorization_stays_valid:
  assumes "hex_digests sha" and "lawful_origin sha ed trust a0"
    and "a = run_lossy (authorization_step sha ed trust) a0 ops"
  shows "mk_live_authorization a = Inr a \<and> same_terms a a0 \<and> take (length (la_approvals a0)) (la_approvals a) = la_approvals a0"
proof -
  have "schema_ok a" using history_ok [OF assms(1,2)] by (simp add: assms(3) authorization_ok_def)
  moreover have "amends a0 a" unfolding assms(3) by (rule run_amends)
  ultimately show ?thesis by (auto simp: schema_ok_accepted amends_same_terms) (auto simp: amends_def)
qed

text \<open>C9: The life cycle.  A call changes the status only along the documented edges; REVOKED and
  EXPIRED are final; and for an authorization with a lawful history an approval makes it ACTIVE
  exactly when it completes the quorum.\<close>

theorem authorization_lifecycle:
  assumes "authorization_ok sha ed trust a"
  shows "(\<forall>a'. authorization_step sha ed trust a op = Inr a' \<longrightarrow> (la_status a, la_status a') \<in> lifecycle)
    \<and> (la_status a \<in> {REVOKED, EXPIRED} \<longrightarrow> (\<exists>e. authorization_step sha ed trust a op = Inl e))
    \<and> (\<forall>p a'. apply_approval sha ed trust a p = Inr a' \<longrightarrow>
         (la_status a' = ACTIVE \<longleftrightarrow> int (length (la_approvals a)) + 1 = la_required a))"
proof (intro conjI allI impI)
  show "(la_status a, la_status a') \<in> lifecycle" if "authorization_step sha ed trust a op = Inr a'" for a'
    using authorization_step_lifecycle [OF that] ..
  show "\<exists>e. authorization_step sha ed trust a op = Inl e" if final: "la_status a \<in> {REVOKED, EXPIRED}"
  proof (cases "authorization_step sha ed trust a op")
    case (Inr a')
    from authorization_step_lifecycle [OF this] final show ?thesis by (auto simp: lifecycle_def)
  qed blast
  show "la_status a' = ACTIVE \<longleftrightarrow> int (length (la_approvals a)) + 1 = la_required a"
    if "apply_approval sha ed trust a p = Inr a'" for p a'
    using that by (auto simp: apply_approval_def Let_def rbind_Inr_iff split: if_splits)
qed


subsection \<open>A sample authorization\<close>

definition sample_amount :: "nat \<Rightarrow> py_decimal" where
  "sample_amount n = \<lparr>dc_negative = False, dc_coeff = n, dc_exp = 0\<rparr>"

definition sample_certificate :: certificate where
  "sample_certificate = \<lparr>ct_certificate_id = ''C1'', ct_validation_id = ''V1'', ct_strategy_id = ''S1'',
     ct_hypothesis_id = ''H1'', ct_verdict = PASS_TRADEABLE_ALPHA, ct_decision_digest = zero_digest,
     ct_evidence_digest = zero_digest, ct_report_hash = zero_digest, ct_issuer_id = ''root'',
     ct_issuer_key_id = ''k1'', ct_algorithm = ''Ed25519'', ct_signature = sample_signature,
     ct_methodology = ''v1'', ct_created_at = 15, ct_expires_at = None\<rparr>"

definition sample_terms :: authorization_request where
  "sample_terms = \<lparr>aq_authorization_id = ''A1'', aq_max_notional = sample_amount 500,
     aq_max_position_size = sample_amount 10, aq_max_order_rate = 5, aq_max_daily_loss = sample_amount 50,
     aq_max_drawdown = sample_amount 10, aq_venues = [''MT5''], aq_symbols = [''XAUUSD''],
     aq_policy_version = ''v1'', aq_required = 1, aq_authorized_at = 16, aq_expires_at = 1000\<rparr>"

definition sample_authorization :: live_authorization where
  "sample_authorization = (raw_authorization sample_certificate sample_terms ACTIVE [sample_approval])
     \<lparr>la_digest := zero_digest\<rparr>"

lemma sample_texts:
  "strip ''A1'' = ''A1''" "strip ''C1'' = ''C1''" "strip ''S1'' = ''S1''" "strip ''MT5'' = ''MT5''"
  "strip ''XAUUSD'' = ''XAUUSD''" "strip ''v1'' = ''v1''" "\<not> blank ''A1''" "\<not> blank ''C1''" "\<not> blank ''S1''"
  "\<not> blank ''MT5''" "\<not> blank ''XAUUSD''" "\<not> blank ''v1''"
  by (simp_all add: string_eval)

lemma sample_amount_value [simp]: "dec_value (sample_amount n) = of_nat n"
  by (simp add: dec_value_def sample_amount_def pow10_def)

lemma sample_key_resolves: "resolve [sample_key] ''k1'' (Some 15) = Inr sample_key"
  by (simp add: sample_key_def was_valid_at_def)

lemma sample_key_verifies: "verify_signature any_ed [sample_key] ''k1'' m sample_signature (Some 15) = Inr ()"
  by (simp add: verify_signature_resolved sample_key_resolves sample_key_signs del: resolve.simps)

lemma sample_approval_verified: "approval_verified zero_sha any_ed [sample_key] ''A1'' sample_approval"
  using sample_key_verifies by (simp add: approval_verified_def sample_approval_def)

lemma sample_issued:
  "issue_live_authorization zero_sha any_ed [sample_key] [] sample_certificate sample_terms [sample_approval]
     = Inr sample_authorization"
proof -
  have "verify_validation_certificate zero_sha any_ed [sample_key] [] sample_certificate 16 = Inr ()"
    by (simp add: verify_validation_certificate_def sample_certificate_def sample_key_resolves sample_key_signs
        raise_if_def del: resolve.simps) (simp add: sample_key_def)
  moreover have "collect_verified_approvals zero_sha any_ed [sample_key] ''A1'' {} {} [sample_approval]
      = Inr [sample_approval]"
    by (simp add: sample_approval_verified del: collect_verified_approvals.simps)
  moreover have "build_live_authorization zero_sha sample_certificate sample_terms ACTIVE [sample_approval]
      = Inr sample_authorization"
    by (simp add: build_live_authorization_def mk_live_authorization_def raw_authorization_def sample_terms_def
        sample_certificate_def sample_authorization_def sample_texts positive_field_def non_blank_def
        string_set_def sha256_field_def raise_if_def)
  ultimately show ?thesis
    by (simp add: issue_live_authorization_def validate_authorization_params_def raise_if_def)
      (simp add: sample_terms_def sample_certificate_def sample_texts)
qed

lemma sample_origin: "lawful_origin zero_sha any_ed [sample_key] sample_authorization"
proof -
  have "clean_text (ap_authorization_id sample_approval)"
    by (simp add: sample_approval_def clean_text_def sample_texts)
  then have "\<forall>p \<in> set [sample_approval]. clean_text (ap_authorization_id p)" by simp
  then show ?thesis using sample_issued unfolding lawful_origin_def by blast
qed

theorem authorization_stays_valid_witness:
  "\<exists>a. a = run_lossy (authorization_step zero_sha any_ed [sample_key]) sample_authorization
        [OpSuspend ''drill'' ''ops'', OpSubmit, OpRevoke ''drill'' ''ops'']
    \<and> mk_live_authorization a = Inr a \<and> la_status a = REVOKED"
proof -
  let ?ops = "[OpSuspend ''drill'' ''ops'', OpSubmit, OpRevoke ''drill'' ''ops'']"
  have b: "\<not> blank ''drill''" "\<not> blank ''ops''" by (simp_all add: string_eval)
  have "la_status (run_lossy (authorization_step zero_sha any_ed [sample_key]) sample_authorization ?ops) = REVOKED"
    by (simp add: suspend_authorization_def submit_for_approval_def revoke_authorization_def b raise_if_def)
      (simp add: sample_authorization_def raw_authorization_def)
  then show ?thesis
    using authorization_stays_valid [OF zero_sha_hex sample_origin refl, of ?ops] by blast
qed

theorem authorization_lifecycle_witness:
  "\<exists>e. authorization_step zero_sha any_ed [sample_key] (sample_authorization\<lparr>la_status := REVOKED\<rparr>) OpSubmit = Inl e"
proof -
  have "authorization_ok zero_sha any_ed [sample_key] sample_authorization"
    using history_ok [OF zero_sha_hex sample_origin, of "[]"] by simp
  then have "authorization_ok zero_sha any_ed [sample_key] (sample_authorization\<lparr>la_status := REVOKED\<rparr>)"
    by (simp add: authorization_ok_def)
      (simp add: approved_def approval_count_ok_def sample_authorization_def raw_authorization_def)
  from authorization_lifecycle [OF this, of OpSubmit] show ?thesis by simp
qed


subsection \<open>What the authorization digest seals\<close>

lemma separated_images:
  assumes "sha ` X = sha ` Y" and "\<forall>x \<in> X. \<forall>y \<in> Y. separates sha x y"
  shows "X = Y"
proof (intro equalityI subsetI)
  fix x assume x: "x \<in> X"
  then obtain y where "y \<in> Y" "sha x = sha y" using assms(1) by (metis image_iff)
  then show "x \<in> Y" using assms(2) x by (auto simp: separates_def)
next
  fix y assume y: "y \<in> Y"
  then obtain x where "x \<in> X" "sha x = sha y" using assms(1) by (metis image_iff)
  then show "y \<in> X" using assms(2) y by (auto simp: separates_def)
qed

text \<open>The digest of an authorization seals its terms and its approvals.  Two authorizations whose
  last approval was applied and whose digests agree have the same identifiers, interval, limits as
  they were written, whitelists and required approvals, and approvals with the same payloads:
  changing a limit or an approver changes the digest (provided SHA-256 does not collide on their
  texts).\<close>

theorem authorization_digest_seals_terms:
  assumes "apply_approval sha ed trust a p = Inr x" and "apply_approval sha ed' trust' b p' = Inr y"
    and "authorization_ok sha ed trust a" and "authorization_ok sha ed' trust' b"
    and "la_digest x = la_digest y"
    and "datetime_ok (la_authorized_at x)" "datetime_ok (la_expires_at x)"
      "datetime_ok (la_authorized_at y)" "datetime_ok (la_expires_at y)"
    and "separates sha (dumps (authorization_tree x (map ap_digest (la_approvals x))))
      (dumps (authorization_tree y (map ap_digest (la_approvals y))))"
    and "\<forall>m \<in> set (la_approvals x). \<forall>m' \<in> set (la_approvals y). separates sha (approval_text m) (approval_text m')"
  shows "same_terms x y \<and> approval_text ` set (la_approvals x) = approval_text ` set (la_approvals y)"
proof -
  have sealed: "la_digest z = sha (dumps (authorization_tree z (map ap_digest (la_approvals z))))"
    if "apply_approval sha e t c q = Inr z" for e t c q z
    using that by (auto simp: apply_approval_def Let_def rbind_Inr_iff authorization_tree_def)
  have ok: "\<forall>m \<in> set (la_approvals z). ap_digest m = sha (approval_text m)"
    if "apply_approval sha e t c q = Inr z" "authorization_ok sha e t c" for e t c q z
    using that by (auto simp: apply_approval_def Let_def rbind_Inr_iff authorization_ok_def approved_def
        approval_verified_def)
  have "dumps (authorization_tree x (map ap_digest (la_approvals x)))
      = dumps (authorization_tree y (map ap_digest (la_approvals y)))"
    using assms(5,10) sealed [OF assms(1)] sealed [OF assms(2)] by (simp add: separates_def)
  then have eq: "same_terms x y" "mset (map ap_digest (la_approvals x)) = mset (map ap_digest (la_approvals y))"
    using authorization_tree_inject [OF assms(6-9)] by blast+
  from mset_eq_setD [OF eq(2)]
  have "sha ` approval_text ` set (la_approvals x) = sha ` approval_text ` set (la_approvals y)"
    using ok [OF assms(1,3)] ok [OF assms(2,4)] by (simp add: image_image cong: image_cong)
  then have "approval_text ` set (la_approvals x) = approval_text ` set (la_approvals y)"
    by (rule separated_images) (use assms(11) in blast)
  with eq(1) show ?thesis ..
qed

theorem authorization_digest_seals_terms_witness:
  "\<exists>x. apply_approval zero_sha any_ed [sample_key]
        (sample_authorization\<lparr>la_status := PENDING_APPROVAL, la_approvals := []\<rparr>) sample_approval = Inr x
      \<and> la_status x = ACTIVE \<and> same_terms x x"
proof -
  let ?a = "sample_authorization\<lparr>la_status := PENDING_APPROVAL, la_approvals := []\<rparr>"
  have f: "la_authorization_id ?a = ''A1''" "la_required ?a = 1" "la_status ?a = PENDING_APPROVAL" "la_approvals ?a = []"
    by (simp_all add: sample_authorization_def raw_authorization_def sample_terms_def)
  have verified: "verify_authorization_approval zero_sha any_ed [sample_key] ''A1'' sample_approval = Inr ()"
    by (simp add: sample_approval_verified)
  obtain x where x: "apply_approval zero_sha any_ed [sample_key] ?a sample_approval = Inr x" "la_status x = ACTIVE"
      "la_approvals x = [sample_approval]" "la_authorized_at x = 16" "la_expires_at x = 1000"
    by (simp add: apply_approval_def f Let_def verified raise_if_def)
      (simp add: sample_authorization_def raw_authorization_def sample_terms_def)
  have "authorization_ok zero_sha any_ed [sample_key] sample_authorization"
    using history_ok [OF zero_sha_hex sample_origin, of "[]"] by simp
  then have ok: "authorization_ok zero_sha any_ed [sample_key] ?a"
    using f by (simp add: authorization_ok_def approved_def approval_count_ok_def)
  have "same_terms x x \<and> approval_text ` set (la_approvals x) = approval_text ` set (la_approvals x)"
    by (rule authorization_digest_seals_terms [OF x(1,1) ok ok refl])
      (simp_all add: x separates_def datetime_ok_def)
  with x show ?thesis by blast
qed

text \<open>A suspended authorization can be reactivated again and again with one reactivation event: the
  event is neither consumed nor tied to the suspension it answers.\<close>

lemma reactivation_event_replays:
  assumes "reactivate_authorization sha ed trust a e = Inr b" and "\<not> blank reason" and "\<not> blank actor"
  shows "\<exists>c. suspend_authorization b reason actor = Inr c \<and> reactivate_authorization sha ed trust c e = Inr b"
proof (intro exI conjI)
  let ?c = "b\<lparr>la_status := SUSPENDED\<rparr>"
  have b: "b = a\<lparr>la_status := ACTIVE\<rparr>" "la_status a = SUSPENDED"
    using assms(1) by (auto simp: reactivate_authorization_def rbind_Inr_iff)
  show "suspend_authorization b reason actor = Inr ?c"
    using assms(2,3) b by (simp add: suspend_authorization_def raise_if_def)
  have "?c = a" using b by simp
  then show "reactivate_authorization sha ed trust ?c e = Inr b" using assms(1) by simp
qed

end
