(* ===== verification/OrderAdmission.thy ===== *)
theory OrderAdmission
  imports Admission
begin

section \<open>Order intents and automated kill-switch triggers\<close>

text \<open>
  The second half of \<open>execution/admission.py\<close> with its schemas: the risk state, the order intent that
  is constructed only under an active authorization with no open restriction and a nominal risk
  state, and the trigger evaluation that turns a breach into a halt event.
\<close>

subsection \<open>Schemas\<close>

datatype execution_side = XS_BUY | XS_SELL
datatype execution_order_type = XO_LIMIT | XO_MARKET | XO_STOP_LIMIT
datatype time_in_force = GTC | IOC | FOK | DAY
datatype calculation_status = CALC_NOMINAL | CALC_DEGRADED | CALC_STALE | CALC_UNKNOWN
datatype risk_status = RISK_NORMAL | RISK_WARNING | RISK_RESTRICTED | RISK_HALTED
datatype halt_action =
  HALT_NEW_ORDERS | CANCEL_WORKING_ORDERS | CONTROLLED_DERISK | EMERGENCY_FLATTEN | FREEZE_AND_RECONCILE
datatype trigger_type =
    TR_STALE_MARKET_DATA | TR_MAX_DAILY_LOSS | TR_MAX_DRAWDOWN | TR_BROKER_DISCONNECTED
  | TR_RECONCILIATION_FAILURE | TR_CLOCK_SKEW_DETECTED | TR_MARKET_CLOSED | TR_MANUAL_HALT

definition side_value :: "execution_side \<Rightarrow> string" where
  "side_value s = (case s of XS_BUY \<Rightarrow> ''BUY'' | XS_SELL \<Rightarrow> ''SELL'')"

definition order_type_value :: "execution_order_type \<Rightarrow> string" where
  "order_type_value t = (case t of XO_LIMIT \<Rightarrow> ''LIMIT'' | XO_MARKET \<Rightarrow> ''MARKET'' | XO_STOP_LIMIT \<Rightarrow> ''STOP_LIMIT'')"

definition tif_value :: "time_in_force \<Rightarrow> string" where
  "tif_value t = (case t of GTC \<Rightarrow> ''GTC'' | IOC \<Rightarrow> ''IOC'' | FOK \<Rightarrow> ''FOK'' | DAY \<Rightarrow> ''DAY'')"

definition calculation_value :: "calculation_status \<Rightarrow> string" where
  "calculation_value s = (case s of CALC_NOMINAL \<Rightarrow> ''NOMINAL'' | CALC_DEGRADED \<Rightarrow> ''DEGRADED''
     | CALC_STALE \<Rightarrow> ''STALE'' | CALC_UNKNOWN \<Rightarrow> ''UNKNOWN'')"

definition action_value :: "halt_action \<Rightarrow> string" where
  "action_value a = (case a of HALT_NEW_ORDERS \<Rightarrow> ''HALT_NEW_ORDERS''
     | CANCEL_WORKING_ORDERS \<Rightarrow> ''CANCEL_WORKING_ORDERS'' | CONTROLLED_DERISK \<Rightarrow> ''CONTROLLED_DERISK''
     | EMERGENCY_FLATTEN \<Rightarrow> ''EMERGENCY_FLATTEN'' | FREEZE_AND_RECONCILE \<Rightarrow> ''FREEZE_AND_RECONCILE'')"

definition trigger_value :: "trigger_type \<Rightarrow> string" where
  "trigger_value t = (case t of TR_STALE_MARKET_DATA \<Rightarrow> ''STALE_MARKET_DATA''
     | TR_MAX_DAILY_LOSS \<Rightarrow> ''MAX_DAILY_LOSS'' | TR_MAX_DRAWDOWN \<Rightarrow> ''MAX_DRAWDOWN''
     | TR_BROKER_DISCONNECTED \<Rightarrow> ''BROKER_DISCONNECTED''
     | TR_RECONCILIATION_FAILURE \<Rightarrow> ''RECONCILIATION_FAILURE''
     | TR_CLOCK_SKEW_DETECTED \<Rightarrow> ''CLOCK_SKEW_DETECTED'' | TR_MARKET_CLOSED \<Rightarrow> ''MARKET_CLOSED''
     | TR_MANUAL_HALT \<Rightarrow> ''MANUAL_HALT'')"

record risk_state =
  rk_timestamp :: time
  rk_authorization_id :: string
  rk_strategy_id :: string
  rk_total_equity :: py_decimal
  rk_realized_pnl_today :: py_decimal
  rk_unrealized_pnl :: py_decimal
  rk_drawdown_pct :: py_decimal
  rk_gross_exposure :: py_decimal
  rk_net_exposure :: py_decimal
  rk_concentration :: py_decimal
  rk_parametric_var :: py_decimal
  rk_historical_cvar :: py_decimal
  rk_confidence :: raw_dec
  rk_window_bars :: int
  rk_model_version :: string
  rk_data_timestamp :: time
  rk_data_age_ms :: int
  rk_calculation :: calculation_status
  rk_stale :: bool
  rk_broker_connected :: bool
  rk_clock_skew :: bool
  rk_status :: risk_status
  rk_kill_switch_event :: "string option"

definition mk_risk_state :: "risk_state \<Rightarrow> admission_error + risk_state" where
  "mk_risk_state r =
     rbind (non_blank ''authorization_id'' (rk_authorization_id r)) (\<lambda>aid.
     rbind (non_blank ''strategy_id'' (rk_strategy_id r)) (\<lambda>sid.
     raise_if (dec_value (rk_drawdown_pct r) < 0 \<or> 100 < dec_value (rk_drawdown_pct r))
       (OutOfRangeField ''current_drawdown_pct'') (
     raise_if (dec_value (rk_concentration r) < 0 \<or> 1 < dec_value (rk_concentration r))
       (OutOfRangeField ''concentration_ratio'') (
     rbind (non_blank ''risk_model_version'' (rk_model_version r)) (\<lambda>mv.
     raise_if (rk_data_age_ms r < 0) (OutOfRangeField ''data_age_ms'') (
       Inr (r\<lparr>rk_authorization_id := aid, rk_strategy_id := sid, rk_model_version := mv\<rparr>)))))))"

record order_intent =
  oi_intent_id :: string
  oi_authorization_id :: string
  oi_strategy_id :: string
  oi_venue :: string
  oi_symbol :: string
  oi_side :: execution_side
  oi_order_type :: execution_order_type
  oi_tif :: time_in_force
  oi_quantity :: py_decimal
  oi_limit_price :: "py_decimal option"
  oi_stop_price :: "py_decimal option"
  oi_created_at :: time
  oi_signal_hash :: string
  oi_risk_hash :: string
  oi_digest :: string

definition positive_price :: "string \<Rightarrow> py_decimal option \<Rightarrow> admission_error + py_decimal option" where
  "positive_price field v = (case v of None \<Rightarrow> Inr None
     | Some x \<Rightarrow> if dec_value x \<le> 0 then Inl (NotPositiveField field) else Inr (Some x))"

definition mk_order_intent :: "order_intent \<Rightarrow> admission_error + order_intent" where
  "mk_order_intent i =
     rbind (non_blank ''intent_id'' (oi_intent_id i)) (\<lambda>iid.
     rbind (non_blank ''authorization_id'' (oi_authorization_id i)) (\<lambda>aid.
     rbind (non_blank ''strategy_id'' (oi_strategy_id i)) (\<lambda>sid.
     rbind (non_blank ''venue'' (oi_venue i)) (\<lambda>venue.
     rbind (non_blank ''symbol'' (oi_symbol i)) (\<lambda>symbol.
     rbind (positive_field ''quantity'' (oi_quantity i)) (\<lambda>_.
     rbind (positive_price ''limit_price'' (oi_limit_price i)) (\<lambda>_.
     rbind (positive_price ''stop_price'' (oi_stop_price i)) (\<lambda>_.
     rbind (sha256_field ''signal_event_hash'' (oi_signal_hash i)) (\<lambda>_.
     rbind (sha256_field ''risk_snapshot_hash'' (oi_risk_hash i)) (\<lambda>_.
     rbind (sha256_field ''intent_digest'' (oi_digest i)) (\<lambda>_.
       Inr (i\<lparr>oi_intent_id := iid, oi_authorization_id := aid, oi_strategy_id := sid, oi_venue := venue,
              oi_symbol := symbol\<rparr>))))))))))))"

subsection \<open>Admission of an order intent\<close>

definition risk_snapshot_payload :: "risk_state \<Rightarrow> admission_error + string" where
  "risk_snapshot_payload r = canonical_text (PDict
     [(KStr ''timestamp'', PStr (isoformat (rk_timestamp r))),
      (KStr ''total_equity'', PStr (dec_str (rk_total_equity r))),
      (KStr ''gross_exposure_notional'', PStr (dec_str (rk_gross_exposure r))),
      (KStr ''current_drawdown_pct'', PStr (dec_str (rk_drawdown_pct r))),
      (KStr ''calculation_status'', PStr (calculation_value (rk_calculation r)))])"

definition optional_text :: "py_decimal option \<Rightarrow> py_value" where
  "optional_text v = (case v of Some x \<Rightarrow> PStr (dec_str x) | None \<Rightarrow> PNone)"

definition order_intent_payload :: "order_intent \<Rightarrow> admission_error + string" where
  "order_intent_payload i = canonical_text (PDict
     [(KStr ''intent_id'', PStr (oi_intent_id i)),
      (KStr ''authorization_id'', PStr (oi_authorization_id i)),
      (KStr ''strategy_id'', PStr (oi_strategy_id i)),
      (KStr ''venue'', PStr (oi_venue i)),
      (KStr ''symbol'', PStr (oi_symbol i)),
      (KStr ''side'', PStr (side_value (oi_side i))),
      (KStr ''order_type'', PStr (order_type_value (oi_order_type i))),
      (KStr ''time_in_force'', PStr (tif_value (oi_tif i))),
      (KStr ''quantity'', PStr (dec_str (oi_quantity i))),
      (KStr ''limit_price'', optional_text (oi_limit_price i)),
      (KStr ''stop_price'', optional_text (oi_stop_price i)),
      (KStr ''created_at'', PStr (isoformat (oi_created_at i))),
      (KStr ''signal_event_hash'', PStr (oi_signal_hash i)),
      (KStr ''risk_snapshot_hash'', PStr (oi_risk_hash i))])"

text \<open>The arguments of \<open>construct_order_intent\<close> that become fields of the intent.\<close>

record order_request =
  or_intent_id :: string
  or_venue :: string
  or_symbol :: string
  or_side :: execution_side
  or_order_type :: execution_order_type
  or_quantity :: py_decimal
  or_signal_hash :: string
  or_created_at :: time
  or_limit_price :: "py_decimal option"
  or_stop_price :: "py_decimal option"
  or_tif :: time_in_force

definition raw_intent :: "live_authorization \<Rightarrow> order_request \<Rightarrow> string \<Rightarrow> order_intent" where
  "raw_intent a q risk_hash =
     \<lparr>oi_intent_id = or_intent_id q, oi_authorization_id = la_authorization_id a,
      oi_strategy_id = la_strategy_id a, oi_venue = or_venue q, oi_symbol = or_symbol q,
      oi_side = or_side q, oi_order_type = or_order_type q, oi_tif = or_tif q,
      oi_quantity = or_quantity q, oi_limit_price = or_limit_price q, oi_stop_price = or_stop_price q,
      oi_created_at = or_created_at q, oi_signal_hash = or_signal_hash q, oi_risk_hash = risk_hash,
      oi_digest = []\<rparr>"

definition construct_order_intent ::
    "(string \<Rightarrow> string) \<Rightarrow> live_authorization \<Rightarrow> order_request \<Rightarrow> risk_state \<Rightarrow> restriction_authority
     \<Rightarrow> admission_error + order_intent" where
  "construct_order_intent sha a q risk authority =
     raise_if (la_status a \<noteq> ACTIVE) (WrongStatus (la_status a)) (
     case block_reason (gate_for_intent authority (la_strategy_id a) (la_authorization_id a)) of
       Some reason \<Rightarrow> Inl (RestrictionOpen reason)
     | None \<Rightarrow>
         raise_if (la_expires_at a < or_created_at q) AuthorizationExpired (
         raise_if (or_venue q \<notin> set (la_venues a)) (VenueNotAllowed (or_venue q)) (
         raise_if (or_symbol q \<notin> set (la_symbols a)) (SymbolNotAllowed (or_symbol q)) (
         raise_if (dec_value (la_max_position_size a) < dec_value (or_quantity q)) QuantityAboveLimit (
         raise_if (rk_calculation risk \<noteq> CALC_NOMINAL) RiskNotNominal (
         raise_if (rk_status risk \<noteq> RISK_NORMAL) RiskNotNormal (
         rbind (risk_snapshot_payload risk) (\<lambda>snapshot.
         let intent = raw_intent a q (sha snapshot) in
         rbind (order_intent_payload intent) (\<lambda>payload.
           mk_order_intent (intent\<lparr>oi_digest := sha payload\<rparr>))))))))))"

subsection \<open>Kill-switch triggers\<close>

record halt_event =
  he_event_id :: string
  he_triggered_at :: time
  he_trigger :: trigger_type
  he_severity :: string
  he_observed :: string
  he_threshold :: string
  he_strategies :: "string list"
  he_primary :: halt_action
  he_position :: halt_action
  he_actor :: string
  he_digest :: string

definition mk_halt_event :: "halt_event \<Rightarrow> admission_error + halt_event" where
  "mk_halt_event e =
     rbind (non_blank ''event_id'' (he_event_id e)) (\<lambda>eid.
     rbind (non_blank ''severity'' (he_severity e)) (\<lambda>severity.
     rbind (non_blank ''observed_metric_value'' (he_observed e)) (\<lambda>observed.
     rbind (non_blank ''threshold_limit_value'' (he_threshold e)) (\<lambda>threshold.
     rbind (string_set ''affected_strategies'' (he_strategies e)) (\<lambda>strategies.
     rbind (non_blank ''actor'' (he_actor e)) (\<lambda>actor.
     rbind (sha256_field ''event_digest'' (he_digest e)) (\<lambda>_.
     raise_if (he_strategies e = []) (EmptyField ''affected_strategies'') (
       Inr (e\<lparr>he_event_id := eid, he_severity := severity, he_observed := observed,
              he_threshold := threshold, he_strategies := strategies, he_actor := actor\<rparr>)))))))))"

definition halt_event_payload :: "halt_event \<Rightarrow> admission_error + string" where
  "halt_event_payload e = canonical_text (PDict
     [(KStr ''event_id'', PStr (he_event_id e)),
      (KStr ''triggered_at'', PStr (isoformat (he_triggered_at e))),
      (KStr ''trigger_type'', PStr (trigger_value (he_trigger e))),
      (KStr ''severity'', PStr (he_severity e)),
      (KStr ''observed_metric_value'', PStr (he_observed e)),
      (KStr ''threshold_limit_value'', PStr (he_threshold e)),
      (KStr ''affected_strategies'', PList (map PStr (he_strategies e))),
      (KStr ''primary_action'', PStr (action_value (he_primary e))),
      (KStr ''position_action'', PStr (action_value (he_position e))),
      (KStr ''actor'', PStr (he_actor e))])"

text \<open>The chain of conditions: trigger, observed metric, threshold, primary and position action.\<close>

definition breach_of ::
    "live_authorization \<Rightarrow> risk_state \<Rightarrow> int \<Rightarrow> int
     \<Rightarrow> (trigger_type \<times> string \<times> string \<times> halt_action \<times> halt_action) option" where
  "breach_of a r staleness_threshold_ms clock_skew_threshold_ms =
     (if \<not> rk_broker_connected r then
        Some (TR_BROKER_DISCONNECTED, ''broker_connected=False'', ''broker_connected=True'',
              HALT_NEW_ORDERS, FREEZE_AND_RECONCILE)
      else if rk_stale r \<or> staleness_threshold_ms < rk_data_age_ms r then
        Some (TR_STALE_MARKET_DATA, ''data_age_ms='' @ str_int (rk_data_age_ms r),
              ''max_allowed='' @ str_int staleness_threshold_ms @ ''ms'',
              CANCEL_WORKING_ORDERS, FREEZE_AND_RECONCILE)
      else if rk_clock_skew r then
        Some (TR_CLOCK_SKEW_DETECTED, ''clock_skew_detected=True'',
              ''max_drift='' @ str_int clock_skew_threshold_ms @ ''ms'',
              CANCEL_WORKING_ORDERS, FREEZE_AND_RECONCILE)
      else if dec_value (rk_realized_pnl_today r) < dneg (dec_value (la_max_daily_loss a)) then
        Some (TR_MAX_DAILY_LOSS, ''realized_loss='' @ dec_str (dec_abs (rk_realized_pnl_today r)),
              ''max_daily_loss='' @ dec_str (la_max_daily_loss a), CANCEL_WORKING_ORDERS, CONTROLLED_DERISK)
      else if dec_value (la_max_drawdown a) \<le> dec_value (rk_drawdown_pct r) then
        Some (TR_MAX_DRAWDOWN, ''drawdown_pct='' @ dec_str (rk_drawdown_pct r) @ ''%'',
              ''max_drawdown_pct='' @ dec_str (la_max_drawdown a) @ ''%'',
              CANCEL_WORKING_ORDERS, EMERGENCY_FLATTEN)
      else None)"

definition evaluate_kill_switch_triggers ::
    "(string \<Rightarrow> string) \<Rightarrow> live_authorization \<Rightarrow> risk_state \<Rightarrow> int \<Rightarrow> int \<Rightarrow> time
     \<Rightarrow> admission_error + halt_event option" where
  "evaluate_kill_switch_triggers sha a r staleness_threshold_ms clock_skew_threshold_ms event_time =
     (case breach_of a r staleness_threshold_ms clock_skew_threshold_ms of
        None \<Rightarrow> Inr None
      | Some (trigger, metric, threshold, primary, position) \<Rightarrow>
          let event = \<lparr>he_event_id = event_id_of (''KILL_'' @ trigger_value trigger @ ''_'') event_time,
                he_triggered_at = event_time, he_trigger = trigger, he_severity = ''CRITICAL'',
                he_observed = metric, he_threshold = threshold, he_strategies = [la_strategy_id a],
                he_primary = primary, he_position = position, he_actor = ''SYSTEM_AUTOMATED_RISK_GATE'',
                he_digest = []\<rparr>
          in rbind (halt_event_payload event) (\<lambda>payload.
             rbind (mk_halt_event (event\<lparr>he_digest := sha payload\<rparr>)) (\<lambda>e. Inr (Some e))))"


subsection \<open>What admission accepts\<close>

definition risk_snapshot_tree :: "risk_state \<Rightarrow> json" where
  "risk_snapshot_tree r = JObj
     [(''calculation_status'', JStr (calculation_value (rk_calculation r))),
      (''current_drawdown_pct'', JStr (dec_str (rk_drawdown_pct r))),
      (''gross_exposure_notional'', JStr (dec_str (rk_gross_exposure r))),
      (''timestamp'', JStr (isoformat (rk_timestamp r))),
      (''total_equity'', JStr (dec_str (rk_total_equity r)))]"

lemma risk_snapshot_payload_eq [simp]: "risk_snapshot_payload r = Inr (dumps (risk_snapshot_tree r))"
  by (simp add: risk_snapshot_payload_def canonical_text_def to_canonical_json_def risk_snapshot_tree_def)

lemma order_intent_payload_total: "\<exists>text. order_intent_payload i = Inr text"
  by (cases "oi_limit_price i"; cases "oi_stop_price i")
    (simp_all add: order_intent_payload_def canonical_text_def to_canonical_json_def optional_text_def)

lemma positive_price_Inr [simp]:
  "positive_price f v = Inr w \<longleftrightarrow> w = v \<and> \<not> (\<exists>x. v = Some x \<and> dec_value x \<le> 0)"
  by (auto simp: positive_price_def split: option.splits)

text \<open>No open restriction applies to the strategy or the authorization.\<close>

definition unrestricted :: "restriction_authority \<Rightarrow> live_authorization \<Rightarrow> bool" where
  "unrestricted authority a \<longleftrightarrow> \<not> (\<exists>r \<in> set (dict_values (ra_ledger authority)).
     rs_status r = RS_OPEN \<and> applies r (la_strategy_id a) (la_authorization_id a))"

lemma gate_open_iff:
  "gate_restrictions (gate_for_intent authority (la_strategy_id a) (la_authorization_id a)) = []
     \<longleftrightarrow> unrestricted authority a"
  by (auto simp: gate_alt unrestricted_def filter_empty_conv)

text \<open>An order request whose own fields the schema accepts.\<close>

definition request_ok :: "order_request \<Rightarrow> bool" where
  "request_ok q \<longleftrightarrow> \<not> blank (or_intent_id q) \<and> 0 < dec_value (or_quantity q)
     \<and> \<not> (\<exists>x. or_limit_price q = Some x \<and> dec_value x \<le> 0)
     \<and> \<not> (\<exists>x. or_stop_price q = Some x \<and> dec_value x \<le> 0) \<and> valid_sha256 (or_signal_hash q)"

definition within_authorization :: "live_authorization \<Rightarrow> order_request \<Rightarrow> bool" where
  "within_authorization a q \<longleftrightarrow> or_created_at q \<le> la_expires_at a \<and> or_venue q \<in> set (la_venues a)
     \<and> or_symbol q \<in> set (la_symbols a) \<and> dec_value (or_quantity q) \<le> dec_value (la_max_position_size a)"

lemma order_intent_Inr:
  assumes "hex_digests sha" and "schema_ok a"
  shows "(\<exists>i. construct_order_intent sha a q risk authority = Inr i) \<longleftrightarrow>
    la_status a = ACTIVE \<and> unrestricted authority a \<and> within_authorization a q
    \<and> rk_calculation risk = CALC_NOMINAL \<and> rk_status risk = RISK_NORMAL \<and> request_ok q"
proof -
  have ids: "\<not> blank (la_authorization_id a)" "\<not> blank (la_strategy_id a)"
    using assms(2) by (simp_all add: schema_ok_def clean_text_def)
  have names: "\<not> blank v" if "v \<in> set (la_venues a) \<or> v \<in> set (la_symbols a)" for v
    using assms(2) that by (auto simp: schema_ok_def list_all_iff clean_text_def)
  obtain payload where "order_intent_payload (raw_intent a q (sha (dumps (risk_snapshot_tree risk)))) = Inr payload"
    using order_intent_payload_total by blast
  then have "(\<exists>i. construct_order_intent sha a q risk authority = Inr i) \<longleftrightarrow>
      la_status a = ACTIVE \<and> unrestricted authority a \<and> within_authorization a q
      \<and> rk_calculation risk = CALC_NOMINAL \<and> rk_status risk = RISK_NORMAL
      \<and> (\<exists>i. mk_order_intent ((raw_intent a q (sha (dumps (risk_snapshot_tree risk))))\<lparr>oi_digest := sha payload\<rparr>) = Inr i)"
    by (auto simp: construct_order_intent_def Let_def gate_open_iff [symmetric] within_authorization_def not_less
        block_reason_def split: if_splits)
  also have "\<dots> \<longleftrightarrow> la_status a = ACTIVE \<and> unrestricted authority a \<and> within_authorization a q
      \<and> rk_calculation risk = CALC_NOMINAL \<and> rk_status risk = RISK_NORMAL \<and> request_ok q"
    using assms(1) ids names
    by (auto simp: mk_order_intent_def rbind_Inr_iff request_ok_def raw_intent_def within_authorization_def)
  finally show ?thesis .
qed

lemma admitted_fields:
  assumes "construct_order_intent sha a q risk authority = Inr i"
  shows "oi_quantity i = or_quantity q" "oi_side i = or_side q" "oi_symbol i = strip (or_symbol q)"
    "oi_authorization_id i = strip (la_authorization_id a)"
    "oi_risk_hash i = sha (dumps (risk_snapshot_tree risk))"
  using assms by (auto simp: construct_order_intent_def mk_order_intent_def raw_intent_def rbind_Inr_iff Let_def
      split: option.splits)

text \<open>The notional, rate, loss and drawdown limits and the digest that seals them play no part in the
  admission of an order: an authorization whose limits were changed under its old digest admits the
  same orders, up to the position size.  Nor is the risk state compared with the authorization.\<close>

lemma limits_not_enforced_at_admission:
  "construct_order_intent sha (a\<lparr>la_max_notional := n, la_max_order_rate := k, la_max_daily_loss := l,
       la_max_drawdown := d, la_digest := dg\<rparr>) q (risk\<lparr>rk_authorization_id := x, rk_strategy_id := y\<rparr>) authority
     = construct_order_intent sha a q risk authority"
  by (simp add: construct_order_intent_def raw_intent_def risk_snapshot_tree_def cong: option.case_cong)



definition sample_order :: order_request where
  "sample_order = \<lparr>or_intent_id = ''I1'', or_venue = ''MT5'', or_symbol = ''XAUUSD'', or_side = XS_BUY,
     or_order_type = XO_MARKET, or_quantity = sample_amount 2, or_signal_hash = zero_digest,
     or_created_at = 20, or_limit_price = None, or_stop_price = None, or_tif = GTC\<rparr>"

definition sample_risk :: risk_state where
  "sample_risk = \<lparr>rk_timestamp = 19, rk_authorization_id = ''A1'', rk_strategy_id = ''S1'',
     rk_total_equity = sample_amount 1000, rk_realized_pnl_today = sample_amount 0,
     rk_unrealized_pnl = sample_amount 0, rk_drawdown_pct = sample_amount 1, rk_gross_exposure = sample_amount 0,
     rk_net_exposure = sample_amount 0, rk_concentration = sample_amount 0, rk_parametric_var = sample_amount 0,
     rk_historical_cvar = sample_amount 0, rk_confidence = Fin (19/20), rk_window_bars = 252,
     rk_model_version = ''v1'', rk_data_timestamp = 19, rk_data_age_ms = 1, rk_calculation = CALC_NOMINAL,
     rk_stale = False, rk_broker_connected = True, rk_clock_skew = False, rk_status = RISK_NORMAL,
     rk_kill_switch_event = None\<rparr>"


subsection \<open>What the triggers report\<close>

lemma not_blank_text [simp]: "\<not> is_space c \<Longrightarrow> \<not> blank (c # s)"
  by (auto simp: blank_iff strip_eq_Nil_iff)

lemma halt_event_payload_total: "\<exists>payload. halt_event_payload e = Inr payload"
  by (simp add: halt_event_payload_def canonical_text_def to_canonical_json_def serialize_texts)

definition within_risk_limits :: "live_authorization \<Rightarrow> risk_state \<Rightarrow> int \<Rightarrow> bool" where
  "within_risk_limits a r staleness_ms \<longleftrightarrow> rk_broker_connected r \<and> \<not> rk_stale r
     \<and> rk_data_age_ms r \<le> staleness_ms \<and> \<not> rk_clock_skew r
     \<and> dneg (dec_value (la_max_daily_loss a)) \<le> dec_value (rk_realized_pnl_today r)
     \<and> dec_value (rk_drawdown_pct r) < dec_value (la_max_drawdown a)"

lemma breach_of_None: "breach_of a r st cs = None \<longleftrightarrow> within_risk_limits a r st"
  by (auto simp: breach_of_def within_risk_limits_def)

lemma breach_texts:
  "breach_of a r st cs = Some (t, metric, threshold, primary, position) \<Longrightarrow> \<not> blank metric \<and> \<not> blank threshold"
  by (auto simp: breach_of_def is_space_def char_of_bits split: if_splits)

lemma halt_event_built:
  assumes "hex_digests sha" and "clean_text s" and "\<not> blank eid" "\<not> blank metric" "\<not> blank threshold"
  shows "mk_halt_event \<lparr>he_event_id = eid, he_triggered_at = ts, he_trigger = t, he_severity = ''CRITICAL'',
      he_observed = metric, he_threshold = threshold, he_strategies = [s], he_primary = p, he_position = q,
      he_actor = ''SYSTEM_AUTOMATED_RISK_GATE'', he_digest = sha payload\<rparr>
    = Inr \<lparr>he_event_id = strip eid, he_triggered_at = ts, he_trigger = t, he_severity = ''CRITICAL'',
      he_observed = strip metric, he_threshold = strip threshold, he_strategies = [s], he_primary = p,
      he_position = q, he_actor = ''SYSTEM_AUTOMATED_RISK_GATE'', he_digest = sha payload\<rparr>"
proof -
  have "strip ''CRITICAL'' = ''CRITICAL''" "strip ''SYSTEM_AUTOMATED_RISK_GATE'' = ''SYSTEM_AUTOMATED_RISK_GATE''"
      "\<not> blank ''CRITICAL''" "\<not> blank ''SYSTEM_AUTOMATED_RISK_GATE''"
    by (simp_all add: string_eval)
  then show ?thesis using assms
    by (simp add: mk_halt_event_def non_blank_def string_set_def sha256_field_def raise_if_def clean_text_def)
qed

text \<open>The automated triggers report the first breach.  The evaluation never raises.  It reports
  nothing exactly while the broker is connected, the market data fresh, the clocks aligned, the loss
  of the day within its limit and the drawdown below its limit; otherwise it returns one event for
  the strategy, with the trigger of the first breach in that order and the action on positions that
  belongs to it.\<close>

theorem triggers_report_first_breach:
  assumes "hex_digests sha" and "schema_ok a"
  shows "if within_risk_limits a r st then evaluate_kill_switch_triggers sha a r st cs ts = Inr None
    else \<exists>e. evaluate_kill_switch_triggers sha a r st cs ts = Inr (Some e)
      \<and> he_strategies e = [la_strategy_id a] \<and> valid_sha256 (he_digest e)
      \<and> (he_trigger e, he_position e) =
          (if \<not> rk_broker_connected r then (TR_BROKER_DISCONNECTED, FREEZE_AND_RECONCILE)
           else if rk_stale r \<or> st < rk_data_age_ms r then (TR_STALE_MARKET_DATA, FREEZE_AND_RECONCILE)
           else if rk_clock_skew r then (TR_CLOCK_SKEW_DETECTED, FREEZE_AND_RECONCILE)
           else if dec_value (rk_realized_pnl_today r) < dneg (dec_value (la_max_daily_loss a))
             then (TR_MAX_DAILY_LOSS, CONTROLLED_DERISK)
           else (TR_MAX_DRAWDOWN, EMERGENCY_FLATTEN))"
proof (cases "breach_of a r st cs")
  case None
  then show ?thesis using breach_of_None [of a r st cs] by (simp add: evaluate_kill_switch_triggers_def)
next
  case (Some b)
  obtain t metric threshold p q where b: "b = (t, metric, threshold, p, q)" by (cases b) auto
  let ?eid = "event_id_of (''KILL_'' @ trigger_value t @ ''_'') ts"
  have strategy: "clean_text (la_strategy_id a)" using assms(2) by (simp add: schema_ok_def)
  have eid: "\<not> blank ?eid" by (simp add: event_id_of_def is_space_def char_of_bits)
  note texts = breach_texts [OF Some [unfolded b]]
  obtain payload where "halt_event_payload \<lparr>he_event_id = ?eid, he_triggered_at = ts, he_trigger = t,
      he_severity = ''CRITICAL'', he_observed = metric, he_threshold = threshold,
      he_strategies = [la_strategy_id a], he_primary = p, he_position = q,
      he_actor = ''SYSTEM_AUTOMATED_RISK_GATE'', he_digest = []\<rparr> = Inr payload"
    using halt_event_payload_total by blast
  then have "\<exists>e. evaluate_kill_switch_triggers sha a r st cs ts = Inr (Some e)
      \<and> he_strategies e = [la_strategy_id a] \<and> valid_sha256 (he_digest e) \<and> he_trigger e = t \<and> he_position e = q"
    using halt_event_built [OF assms(1) strategy eid] texts assms(1)
    by (simp add: evaluate_kill_switch_triggers_def Some b Let_def)
  moreover have "\<not> within_risk_limits a r st" using Some breach_of_None [of a r st cs] by simp
  ultimately show ?thesis using Some unfolding b by (auto simp: breach_of_def split: if_splits)
qed

theorem triggers_report_first_breach_witness:
  "\<exists>e. evaluate_kill_switch_triggers zero_sha sample_authorization (sample_risk\<lparr>rk_clock_skew := True\<rparr>)
      1500 500 20 = Inr (Some e) \<and> he_trigger e = TR_CLOCK_SKEW_DETECTED"
proof -
  have "schema_ok sample_authorization"
    using history_ok [OF zero_sha_hex sample_origin, of "[]"] by (simp add: authorization_ok_def)
  from triggers_report_first_breach [OF zero_sha_hex this, of "sample_risk\<lparr>rk_clock_skew := True\<rparr>"
      1500 500 20]
  show ?thesis
    by (auto simp: within_risk_limits_def sample_risk_def)
qed

end
