(* ===== verification/Scheduler.thy ===== *)
theory Scheduler
  imports OpLedger
begin

section \<open>The cadence scheduler\<close>

text \<open>
  \<open>runtime/scheduler.py\<close>: the operational clock that gives every rebalance cycle its identity, lets one
  cycle run at a time and refuses repeated cycles and clocks that run backwards; and the runtime policy
  of \<open>runtime/schema.py\<close> that sets its drift tolerance.  Every method holds the lock for its whole body,
  so a concurrent execution is a sequence of calls.  The tolerance is compared in whole microseconds;
  the source compares the two quotients in binary64, which agrees for tolerances below \<open>2^32\<close> seconds.
\<close>

subsection \<open>Runtime policy\<close>

record runtime_policy =
  rt_version :: string
  rt_cron :: string
  rt_heartbeat_s :: int
  rt_max_data_age_ms :: int
  rt_max_drift_ms :: int
  rt_timeout_s :: int
  rt_max_degraded :: int
  rt_path :: string
  rt_digest :: string

datatype scheduler_error =
    EmptyPolicyText string
  | PolicyBounds
  | PolicyPayload data_contract_error
  | NegativeInitialSequence
  | WallBeforeAsOf time time
  | CycleLockedBusy string
  | CycleAlreadyCompleted string
  | ClockRollback time time
  | AsOfRegression time time
  | IdentityRejected ledger_error
  | DigestAlreadyCompleted string
  | NoActiveCycle
  | CycleMismatch string string

definition runtime_policy_payload :: "runtime_policy \<Rightarrow> py_value" where
  "runtime_policy_payload p =
     PDict [(KStr ''policy_version'', PStr (rt_version p)), (KStr ''rebalance_cron'', PStr (rt_cron p)),
            (KStr ''heartbeat_interval_seconds'', PInt (rt_heartbeat_s p)),
            (KStr ''max_market_data_age_ms'', PInt (rt_max_data_age_ms p)),
            (KStr ''max_clock_drift_ms'', PInt (rt_max_drift_ms p)),
            (KStr ''cycle_timeout_seconds'', PInt (rt_timeout_s p)),
            (KStr ''max_degraded_cycles_before_pause'', PInt (rt_max_degraded p)),
            (KStr ''persistence_path'', PStr (rt_path p))]"

definition mk_runtime_policy :: "(string \<Rightarrow> string) \<Rightarrow> runtime_policy \<Rightarrow> scheduler_error + runtime_policy" where
  "mk_runtime_policy sha raw =
     (let p = raw\<lparr>rt_version := strip (rt_version raw), rt_cron := strip (rt_cron raw),
                  rt_path := strip (rt_path raw)\<rparr> in
      raise_if (rt_version p = []) (EmptyPolicyText ''policy_version'') (
      raise_if (rt_cron p = []) (EmptyPolicyText ''rebalance_cron'') (
      raise_if (rt_heartbeat_s p < 1 \<or> rt_max_data_age_ms p < 100 \<or> rt_max_drift_ms p < 50
          \<or> rt_timeout_s p < 1 \<or> rt_max_degraded p < 1) PolicyBounds (
      case to_canonical_json (runtime_policy_payload p) of
        Inl e \<Rightarrow> Inl (PolicyPayload e)
      | Inr doc \<Rightarrow> Inr (p\<lparr>rt_digest := sha doc\<rparr>)))))"

definition default_runtime_policy :: runtime_policy where
  "default_runtime_policy =
     \<lparr>rt_version = ''v1.0.0'', rt_cron = ''0 14 * * 1-5'', rt_heartbeat_s = 5, rt_max_data_age_ms = 1500,
      rt_max_drift_ms = 500, rt_timeout_s = 30, rt_max_degraded = 3,
      rt_path = ''data/runtime/operational_ledger.jsonl'', rt_digest = []\<rparr>"

subsection \<open>The market regime of a timestamp\<close>

text \<open>\<open>datetime.weekday()\<close> (Monday is 0) and the time of day in microseconds.\<close>

definition weekday :: "time \<Rightarrow> int" where
  "weekday t = (t div 86400000000 + 719163 + 6) mod 7"

definition time_of_day :: "time \<Rightarrow> int" where
  "time_of_day t = t mod 86400000000"

definition clock_time :: "int \<Rightarrow> int \<Rightarrow> int" where
  "clock_time h m = (h * 60 + m) * 60000000"

definition determine_regime :: "time \<Rightarrow> runtime_regime" where
  "determine_regime as_of =
     (if weekday as_of \<ge> 5 then MAINTENANCE
      else let t = time_of_day as_of in
        if t < clock_time 13 30 then PRE_MARKET
        else if clock_time 13 30 \<le> t \<and> t < clock_time 14 0 then MARKET_OPEN
        else if clock_time 14 0 \<le> t \<and> t < clock_time 14 5 then REBALANCE_PULSE
        else if clock_time 14 5 \<le> t \<and> t < clock_time 20 0 then MARKET_OPEN
        else if clock_time 20 0 \<le> t \<and> t < clock_time 21 0 then POST_MARKET_CLOSE
        else MAINTENANCE)"

definition is_pulse_due :: "time \<Rightarrow> bool" where
  "is_pulse_due as_of \<longleftrightarrow> determine_regime as_of = REBALANCE_PULSE"

subsection \<open>State and operations\<close>

record scheduler =
  sc_policy :: runtime_policy
  sc_sequence :: int
  sc_active :: "cycle_identity option"
  sc_digests :: "string set"
  sc_ids :: "string set"
  sc_last_as_of :: "time option"
  sc_last_wall :: "time option"

definition new_scheduler :: "runtime_policy \<Rightarrow> int \<Rightarrow> scheduler_error + scheduler" where
  "new_scheduler p initial =
     raise_if (initial < 0) NegativeInitialSequence (
       Inr \<lparr>sc_policy = p, sc_sequence = initial, sc_active = None, sc_digests = {}, sc_ids = {},
            sc_last_as_of = None, sc_last_wall = None\<rparr>)"

definition is_cycle_active :: "scheduler \<Rightarrow> bool" where
  "is_cycle_active sc \<longleftrightarrow> sc_active sc \<noteq> None"

definition create_cycle_identity ::
    "(string \<Rightarrow> string) \<Rightarrow> scheduler \<Rightarrow> string \<Rightarrow> time \<Rightarrow> runtime_regime option \<Rightarrow> ledger_error + cycle_identity" where
  "create_cycle_identity sha sc cid as_of regime =
     mk_cycle_identity sha \<lparr>ci_cycle_id = cid, ci_as_of = as_of,
       ci_regime = (case regime of Some r \<Rightarrow> r | None \<Rightarrow> determine_regime as_of),
       ci_sequence = sc_sequence sc, ci_digest = []\<rparr>"

definition is_duplicate_cycle :: "scheduler \<Rightarrow> cycle_identity \<Rightarrow> bool" where
  "is_duplicate_cycle sc i \<longleftrightarrow> ci_cycle_id i \<in> sc_ids sc \<or> ci_digest i \<in> sc_digests sc"

definition rolled_back :: "scheduler \<Rightarrow> time \<Rightarrow> bool" where
  "rolled_back sc wall \<longleftrightarrow> (case sc_last_wall sc of
     None \<Rightarrow> False | Some w \<Rightarrow> w - wall > 1000 * rt_max_drift_ms (sc_policy sc))"

definition start_cycle ::
    "(string \<Rightarrow> string) \<Rightarrow> scheduler \<Rightarrow> string \<Rightarrow> time \<Rightarrow> time \<Rightarrow> runtime_regime option
     \<Rightarrow> scheduler_error + cycle_identity \<times> scheduler" where
  "start_cycle sha sc cid as_of wall regime =
     raise_if (wall < as_of) (WallBeforeAsOf wall as_of) (
     case sc_active sc of
       Some i \<Rightarrow> Inl (CycleLockedBusy (ci_cycle_id i))
     | None \<Rightarrow>
         raise_if (cid \<in> sc_ids sc) (CycleAlreadyCompleted cid) (
         raise_if (rolled_back sc wall) (ClockRollback wall (the (sc_last_wall sc))) (
         raise_if (case sc_last_as_of sc of None \<Rightarrow> False | Some t \<Rightarrow> as_of < t)
           (AsOfRegression as_of (the (sc_last_as_of sc))) (
         case mk_cycle_identity sha \<lparr>ci_cycle_id = cid, ci_as_of = as_of,
                ci_regime = (case regime of Some r \<Rightarrow> r | None \<Rightarrow> determine_regime as_of),
                ci_sequence = sc_sequence sc, ci_digest = []\<rparr> of
           Inl e \<Rightarrow> Inl (IdentityRejected e)
         | Inr i \<Rightarrow>
             raise_if (ci_digest i \<in> sc_digests sc) (DigestAlreadyCompleted (ci_digest i)) (
               Inr (i, sc\<lparr>sc_active := Some i, sc_last_as_of := Some as_of, sc_last_wall := Some wall\<rparr>))))))"

definition complete_cycle :: "scheduler \<Rightarrow> string \<Rightarrow> time \<Rightarrow> scheduler_error + scheduler" where
  "complete_cycle sc cid wall =
     (case sc_active sc of
        None \<Rightarrow> Inl NoActiveCycle
      | Some i \<Rightarrow>
          raise_if (ci_cycle_id i \<noteq> cid) (CycleMismatch (ci_cycle_id i) cid) (
            Inr (sc\<lparr>sc_ids := insert (ci_cycle_id i) (sc_ids sc),
                    sc_digests := insert (ci_digest i) (sc_digests sc), sc_active := None,
                    sc_sequence := sc_sequence sc + 1, sc_last_wall := Some wall\<rparr>)))"

text \<open>A caller that catches refusals, and what it sees.\<close>

datatype scheduler_call = StartCall string time time "runtime_regime option" | CompleteCall string time
datatype sched_note = Started cycle_identity | Finished cycle_identity | Refused scheduler_error

fun sched_step :: "(string \<Rightarrow> string) \<Rightarrow> scheduler \<Rightarrow> scheduler_call \<Rightarrow> sched_note \<times> scheduler" where
  "sched_step sha sc (StartCall cid as_of wall regime) =
     (case start_cycle sha sc cid as_of wall regime of
        Inl e \<Rightarrow> (Refused e, sc) | Inr (i, sc') \<Rightarrow> (Started i, sc'))"
| "sched_step sha sc (CompleteCall cid wall) =
     (case complete_cycle sc cid wall of
        Inl e \<Rightarrow> (Refused e, sc) | Inr sc' \<Rightarrow> (Finished (the (sc_active sc)), sc'))"

fun sched_run :: "(string \<Rightarrow> string) \<Rightarrow> scheduler \<Rightarrow> scheduler_call list \<Rightarrow> sched_note list \<times> scheduler" where
  "sched_run sha sc [] = ([], sc)"
| "sched_run sha sc (c # cs) =
     (let (n, sc') = sched_step sha sc c; (ns, sc'') = sched_run sha sc' cs in (n # ns, sc''))"

subsection \<open>The regime table\<close>

text \<open>The regimes cut a weekday into consecutive half-open sessions: the regime of a time is that of the
  last session that has begun.\<close>

definition session_table :: "(int \<times> runtime_regime) list" where
  "session_table = [(0, PRE_MARKET), (clock_time 13 30, MARKET_OPEN), (clock_time 14 0, REBALANCE_PULSE),
     (clock_time 14 5, MARKET_OPEN), (clock_time 20 0, POST_MARKET_CLOSE), (clock_time 21 0, MAINTENANCE)]"

lemma determine_regime_table:
  "determine_regime t = (if weekday t \<in> {5, 6} then MAINTENANCE
     else snd (last (filter (\<lambda>(start, _). start \<le> time_of_day t) session_table)))"
proof -
  have "0 \<le> weekday t" "weekday t < 7" "0 \<le> time_of_day t" by (simp_all add: weekday_def time_of_day_def)
  then show ?thesis by (auto simp: determine_regime_def session_table_def clock_time_def Let_def)
qed

subsection \<open>Cadence\<close>

text \<open>What the sequence of notes promises, as an automaton over the next sequence number, the latest
  evaluation time and the running cycle: a cycle starts when none runs, takes the next number and a time
  not before the latest; only the running cycle finishes.\<close>

fun cadence :: "int \<Rightarrow> time option \<Rightarrow> cycle_identity option \<Rightarrow> sched_note list \<Rightarrow> bool" where
  "cadence n t running [] \<longleftrightarrow> True"
| "cadence n t running (Refused e # ns) \<longleftrightarrow> cadence n t running ns"
| "cadence n t running (Started i # ns) \<longleftrightarrow> running = None \<and> ci_sequence i = n
     \<and> (\<forall>u. t = Some u \<longrightarrow> u \<le> ci_as_of i) \<and> cadence n (Some (ci_as_of i)) (Some i) ns"
| "cadence n t running (Finished i # ns) \<longleftrightarrow> running = Some i \<and> cadence (n + 1) t None ns"

fun finished :: "sched_note list \<Rightarrow> cycle_identity list" where
  "finished [] = []"
| "finished (Finished i # ns) = i # finished ns"
| "finished (_ # ns) = finished ns"

lemma start_cycle_Inr:
  "start_cycle sha sc cid as_of wall regime = Inr (i, sc') \<longleftrightarrow>
     as_of \<le> wall \<and> sc_active sc = None \<and> cid \<notin> sc_ids sc \<and> \<not> rolled_back sc wall
     \<and> (\<forall>u. sc_last_as_of sc = Some u \<longrightarrow> u \<le> as_of)
     \<and> create_cycle_identity sha sc cid as_of regime = Inr i \<and> ci_digest i \<notin> sc_digests sc
     \<and> sc' = sc\<lparr>sc_active := Some i, sc_last_as_of := Some as_of, sc_last_wall := Some wall\<rparr>"
  by (auto simp: start_cycle_def create_cycle_identity_def not_less split: option.splits sum.splits)

lemma complete_cycle_Inr:
  "complete_cycle sc cid wall = Inr sc' \<longleftrightarrow>
     (\<exists>i. sc_active sc = Some i \<and> ci_cycle_id i = cid
       \<and> sc' = sc\<lparr>sc_ids := insert (ci_cycle_id i) (sc_ids sc), sc_digests := insert (ci_digest i) (sc_digests sc),
                  sc_active := None, sc_sequence := sc_sequence sc + 1, sc_last_wall := Some wall\<rparr>)"
  by (auto simp: complete_cycle_def split: option.splits)

lemma created_identity:
  assumes "create_cycle_identity sha sc cid as_of regime = Inr i"
  shows "ci_cycle_id i = strip cid" "ci_as_of i = as_of" "ci_sequence i = sc_sequence sc"
    and "ci_digest i = sha (identity_body i)" "strip cid \<noteq> []"
    and "ci_regime i = (case regime of Some r \<Rightarrow> r | None \<Rightarrow> determine_regime as_of)"
  using assms identity_sealed [OF assms [unfolded create_cycle_identity_def]]
  by (auto simp: create_cycle_identity_def mk_cycle_identity_eq Let_def split: if_splits)

lemma run_cadence:
  assumes "sched_run sha sc cs = (ns, sc')"
  shows "cadence (sc_sequence sc) (sc_last_as_of sc) (sc_active sc) ns
    \<and> sc_sequence sc' = sc_sequence sc + int (length (finished ns))
    \<and> sc_ids sc' = sc_ids sc \<union> ci_cycle_id ` set (finished ns)
    \<and> sc_digests sc' = sc_digests sc \<union> ci_digest ` set (finished ns)"
  using assms
proof (induction cs arbitrary: sc ns)
  case (Cons c cs)
  obtain n sc1 ns' where step: "sched_step sha sc c = (n, sc1)" "sched_run sha sc1 cs = (ns', sc')" "ns = n # ns'"
    using Cons.prems by (auto simp: Let_def split: prod.splits)
  note ih = Cons.IH [OF step(2)]
  show ?case
  proof (cases c)
    case (StartCall cid as_of wall regime)
    then show ?thesis
      using step ih by (auto simp: start_cycle_Inr created_identity split: sum.splits)
  next
    case (CompleteCall cid wall)
    then show ?thesis
      using step ih by (auto simp: complete_cycle_Inr split: sum.splits)
  qed
qed simp

lemma run_distinct:
  assumes "sched_run sha sc cs = (ns, sc')"
    and "\<forall>cid as_of wall r. StartCall cid as_of wall r \<in> set cs \<longrightarrow> strip cid = cid"
    and "\<forall>i. sc_active sc = Some i \<longrightarrow> ci_cycle_id i \<notin> sc_ids sc"
  shows "distinct (map ci_cycle_id (finished ns)) \<and> ci_cycle_id ` set (finished ns) \<inter> sc_ids sc = {}"
  using assms
proof (induction cs arbitrary: sc ns)
  case (Cons c cs)
  obtain n sc1 ns' where step: "sched_step sha sc c = (n, sc1)" "sched_run sha sc1 cs = (ns', sc')" "ns = n # ns'"
    using Cons.prems(1) by (auto simp: Let_def split: prod.splits)
  have trimmed: "\<forall>cid as_of wall r. StartCall cid as_of wall r \<in> set cs \<longrightarrow> strip cid = cid"
    using Cons.prems(2) by simp
  show ?case
  proof (cases c)
    case (StartCall cid as_of wall regime)
    have "strip cid = cid" using Cons.prems(2) StartCall by simp
    then have "\<forall>i. sc_active sc1 = Some i \<longrightarrow> ci_cycle_id i \<notin> sc_ids sc1"
      using step(1) StartCall Cons.prems(3)
      by (auto simp: start_cycle_Inr created_identity split: sum.splits)
    then show ?thesis
      using step(1,3) StartCall Cons.IH [OF step(2) trimmed]
      by (auto simp: start_cycle_Inr disjoint_iff split: sum.splits)
  next
    case (CompleteCall cid wall)
    show ?thesis
    proof (cases "complete_cycle sc cid wall")
      case (Inl e)
      then have "n = Refused e" "sc1 = sc" using step(1) CompleteCall by auto
      then show ?thesis using step(3) Cons.IH [OF step(2) trimmed] Cons.prems(3) by simp
    next
      case (Inr sc2)
      obtain i where "sc_active sc = Some i" "sc_active sc2 = None"
          "sc_ids sc2 = insert (ci_cycle_id i) (sc_ids sc)"
        using Inr by (auto simp: complete_cycle_Inr)
      moreover have "n = Finished (the (sc_active sc))" "sc1 = sc2"
        using step(1) CompleteCall Inr by simp_all
      ultimately show ?thesis using step(3) Cons.IH [OF step(2) trimmed] Cons.prems(3) by auto
    qed
  qed
qed simp

lemma new_scheduler_Inr:
  "new_scheduler p n = Inr sc \<longleftrightarrow> 0 \<le> n \<and> sc = \<lparr>sc_policy = p, sc_sequence = n, sc_active = None,
     sc_digests = {}, sc_ids = {}, sc_last_as_of = None, sc_last_wall = None\<rparr>"
  by (auto simp: new_scheduler_def)

text \<open>C24: The scheduler keeps its cadence.  Whatever calls are made to a new scheduler, in whatever order and
  with refusals caught: cycles never overlap, only the running cycle can finish, the n-th cycle to finish
  has the n-th sequence number (an abandoned start takes none), evaluation times never decrease, the
  sequence counter counts the finished cycles, and, when the callers' cycle ids carry no outer blanks, no
  cycle id finishes twice.  Neither holds more generally: a padded id runs again
  (\<open>padded_id_runs_again\<close>), and the wall clock can be set back by a completion
  (\<open>completion_rolls_the_clock_back\<close>).\<close>

theorem scheduler_keeps_cadence:
  assumes "new_scheduler p n = Inr sc" and "sched_run sha sc cs = (ns, sc')"
  shows "cadence n None None ns
    \<and> sc_sequence sc' = n + int (length (finished ns))
    \<and> sc_ids sc' = ci_cycle_id ` set (finished ns)
    \<and> ((\<forall>cid as_of wall r. StartCall cid as_of wall r \<in> set cs \<longrightarrow> strip cid = cid)
        \<longrightarrow> distinct (map ci_cycle_id (finished ns)))"
  using run_cadence [OF assms(2)] run_distinct [OF assms(2)] assms(1)
  by (auto simp: new_scheduler_Inr)

text \<open>Concrete values: 5 January 2024, a Friday, at 14:00 UTC.\<close>

definition friday_pulse :: time where
  "friday_pulse = 1704463200000000"

definition idle_scheduler :: scheduler where
  "idle_scheduler = \<lparr>sc_policy = default_runtime_policy, sc_sequence = 0, sc_active = None, sc_digests = {},
     sc_ids = {}, sc_last_as_of = None, sc_last_wall = None\<rparr>"

lemma idle_new: "new_scheduler default_runtime_policy 0 = Inr idle_scheduler"
  by (simp add: new_scheduler_Inr idle_scheduler_def)

lemma friday_regime: "determine_regime friday_pulse = REBALANCE_PULSE" "is_pulse_due friday_pulse"
  by code_simp+

definition sample_identity :: "(string \<Rightarrow> string) \<Rightarrow> cycle_identity" where
  "sample_identity sha = (let i = \<lparr>ci_cycle_id = ''C1'', ci_as_of = friday_pulse, ci_regime = REBALANCE_PULSE,
     ci_sequence = 0, ci_digest = []\<rparr> in i\<lparr>ci_digest := sha (identity_body i)\<rparr>)"

lemma strip_C1: "strip ''C1'' = ''C1''" "strip '' C1'' = ''C1''"
  by (simp_all add: string_eval)

lemma sample_start:
  "start_cycle sha idle_scheduler ''C1'' friday_pulse (friday_pulse + 5) None =
     Inr (sample_identity sha, idle_scheduler\<lparr>sc_active := Some (sample_identity sha),
       sc_last_as_of := Some friday_pulse, sc_last_wall := Some (friday_pulse + 5)\<rparr>)"
  by (simp add: start_cycle_def idle_scheduler_def mk_cycle_identity_eq strip_C1 sample_identity_def
      friday_regime rolled_back_def Let_def)

theorem scheduler_keeps_cadence_witness:
  "\<exists>sc'. sched_run (\<lambda>_. zero_digest) idle_scheduler
       [StartCall ''C1'' friday_pulse (friday_pulse + 5) None, CompleteCall ''C1'' (friday_pulse + 9)]
     = ([Started (sample_identity (\<lambda>_. zero_digest)), Finished (sample_identity (\<lambda>_. zero_digest))], sc')
     \<and> sc_sequence sc' = 1"
proof -
  let ?sha = "\<lambda>_ :: string. zero_digest"
  obtain sc' where r: "sched_run ?sha idle_scheduler
       [StartCall ''C1'' friday_pulse (friday_pulse + 5) None, CompleteCall ''C1'' (friday_pulse + 9)]
     = ([Started (sample_identity ?sha), Finished (sample_identity ?sha)], sc')"
    by (simp add: sample_start complete_cycle_def) (simp add: sample_identity_def Let_def)
  from scheduler_keeps_cadence [OF idle_new this] have "sc_sequence sc' = 1" by simp
  with r show ?thesis by blast
qed

subsection \<open>Which cycles are accepted\<close>

text \<open>The digest of an identity contains its sequence number, so the second duplicate check can only fire
  on a collision of SHA-256.\<close>

lemma fresh_digest:
  assumes "cadence n t running ns" "i \<in> set (finished ns)" "\<forall>r. running = Some r \<longrightarrow> ci_sequence r = n"
  shows "ci_sequence i < n + int (length (finished ns))"
  using assms
proof (induction n t running ns rule: cadence.induct)
  case (4 n t running j ns)
  then show ?case by auto
qed auto

lemma finished_sealed:
  assumes "sched_run sha sc cs = (ns, sc')" "i \<in> set (finished ns)"
    and "\<forall>r. sc_active sc = Some r \<longrightarrow> ci_digest r = sha (identity_body r)"
  shows "ci_digest i = sha (identity_body i)"
  using assms
proof (induction cs arbitrary: sc ns)
  case (Cons c cs)
  obtain n sc1 ns' where step: "sched_step sha sc c = (n, sc1)" "sched_run sha sc1 cs = (ns', sc')" "ns = n # ns'"
    using Cons.prems(1) by (auto simp: Let_def split: prod.splits)
  have "\<forall>r. sc_active sc1 = Some r \<longrightarrow> ci_digest r = sha (identity_body r)"
    using step(1) Cons.prems(3)
    by (cases c) (auto simp: start_cycle_Inr complete_cycle_Inr created_identity split: sum.splits)
  moreover have "i \<in> set (finished ns') \<or> sc_active sc = Some i"
    using step Cons.prems(2) by (cases c) (auto simp: complete_cycle_Inr split: sum.splits)
  ultimately show ?case using Cons.IH [OF step(2)] Cons.prems(3) by blast
qed simp

text \<open>A new scheduler after any calls starts a cycle exactly when the wall clock is not before the
  evaluation time, no cycle runs, the id has not finished and is not blank, the wall clock has not gone
  back beyond the drift tolerance and the evaluation time is not before the latest one (SHA-256 must not
  collide on the identities involved); the cycle then has the next number, the requested regime or that
  of its evaluation time, and holds the lock.\<close>

theorem start_cycle_exact:
  assumes "new_scheduler p n = Inr sc0" and "sched_run sha sc0 cs = (ns, sc)"
    and "\<forall>j \<in> set (finished ns). \<forall>i. create_cycle_identity sha sc cid as_of regime = Inr i
      \<longrightarrow> separates sha (identity_body j) (identity_body i)"
  shows "(\<exists>i sc'. start_cycle sha sc cid as_of wall regime = Inr (i, sc')) \<longleftrightarrow>
      as_of \<le> wall \<and> \<not> is_cycle_active sc \<and> cid \<notin> ci_cycle_id ` set (finished ns) \<and> strip cid \<noteq> []
      \<and> \<not> rolled_back sc wall \<and> (\<forall>u. sc_last_as_of sc = Some u \<longrightarrow> u \<le> as_of)" (is "?started \<longleftrightarrow> ?free")
    and "start_cycle sha sc cid as_of wall regime = Inr (i, sc') \<Longrightarrow>
      ci_cycle_id i = strip cid \<and> ci_as_of i = as_of \<and> ci_sequence i = n + int (length (finished ns))
      \<and> ci_regime i = (case regime of Some r \<Rightarrow> r | None \<Rightarrow> determine_regime as_of) \<and> sc_active sc' = Some i"
proof -
  have n: "0 \<le> n" "sc_sequence sc0 = n" "sc_active sc0 = None" "sc_ids sc0 = {}" "sc_digests sc0 = {}"
    using assms(1) by (auto simp: new_scheduler_Inr)
  have run: "cadence n (sc_last_as_of sc0) None ns" "sc_sequence sc = n + int (length (finished ns))"
      "sc_ids sc = ci_cycle_id ` set (finished ns)" "sc_digests sc = ci_digest ` set (finished ns)"
    using run_cadence [OF assms(2)] n by auto
  have fresh: "ci_digest i \<notin> sc_digests sc" if i: "create_cycle_identity sha sc cid as_of regime = Inr i" for i
  proof
    assume "ci_digest i \<in> sc_digests sc"
    then obtain j where j: "j \<in> set (finished ns)" "ci_digest j = ci_digest i" using run(4) by auto
    have "ci_digest j = sha (identity_body j)" by (rule finished_sealed [OF assms(2) j(1)]) (simp add: n)
    then have "identity_body j = identity_body i"
      using assms(3) i j created_identity(4) [OF i] by (auto simp: separates_def)
    then have "ci_sequence j = ci_sequence i" by (simp add: identity_body_inject identity_tree_def tagged_def)
    then show False
      using fresh_digest [OF run(1) j(1)] created_identity(3) [OF i] run(2) by simp
  qed
  show "?started \<longleftrightarrow> ?free"
  proof
    assume ?started
    then obtain i sc' where "start_cycle sha sc cid as_of wall regime = Inr (i, sc')" by blast
    then show ?free
      using run(3) created_identity(5) unfolding start_cycle_Inr by (auto simp: is_cycle_active_def)
  next
    assume free: ?free
    then obtain i where "create_cycle_identity sha sc cid as_of regime = Inr i"
      using run(2) n(1) by (auto simp: create_cycle_identity_def mk_cycle_identity_eq Let_def)
    then show ?started
      using free fresh run(3) unfolding start_cycle_Inr by (auto simp: is_cycle_active_def)
  qed
  show "ci_cycle_id i = strip cid \<and> ci_as_of i = as_of \<and> ci_sequence i = n + int (length (finished ns))
      \<and> ci_regime i = (case regime of Some r \<Rightarrow> r | None \<Rightarrow> determine_regime as_of) \<and> sc_active sc' = Some i"
    if "start_cycle sha sc cid as_of wall regime = Inr (i, sc')"
  proof -
    have i: "create_cycle_identity sha sc cid as_of regime = Inr i" "sc_active sc' = Some i"
      using that by (auto simp: start_cycle_Inr)
    then show ?thesis using run(2) created_identity(1-3,6) [OF i(1)] by simp
  qed
qed

theorem start_cycle_exact_witness:
  "\<exists>i sc'. start_cycle (\<lambda>_. zero_digest) idle_scheduler ''C1'' friday_pulse (friday_pulse + 5) None = Inr (i, sc')"
proof -
  have "sched_run (\<lambda>_. zero_digest) idle_scheduler [] = ([], idle_scheduler)" by simp
  from start_cycle_exact(1) [OF idle_new this, of "''C1''" friday_pulse None "friday_pulse + 5"] show ?thesis
    by (simp add: is_cycle_active_def idle_scheduler_def rolled_back_def strip_C1)
qed

subsection \<open>Limits of the duplicate and rollback checks\<close>

text \<open>The duplicate check compares the id as it was passed, the record of finished cycles the stripped id:
  a finished cycle runs again under its id with an outer blank.\<close>

lemma padded_id_runs_again:
  assumes "sc_active sc = None" "''C1'' \<in> sc_ids sc" "'' C1'' \<notin> sc_ids sc"
    and "sc_last_as_of sc = Some t" "sc_last_wall sc = Some t" "0 \<le> sc_sequence sc" "50 \<le> rt_max_drift_ms (sc_policy sc)"
    and "\<forall>i. create_cycle_identity sha sc '' C1'' t None = Inr i \<longrightarrow> ci_digest i \<notin> sc_digests sc"
  shows "\<exists>i sc'. start_cycle sha sc '' C1'' t t None = Inr (i, sc') \<and> ci_cycle_id i \<in> sc_ids sc"
proof -
  obtain i where i: "create_cycle_identity sha sc '' C1'' t None = Inr i"
    using assms(6) by (auto simp: create_cycle_identity_def mk_cycle_identity_eq Let_def strip_C1)
  then show ?thesis
    using assms created_identity(1) [OF i] by (auto simp: start_cycle_Inr rolled_back_def strip_C1)
qed

text \<open>Completing a cycle records any wall clock: after a completion reported with an earlier clock, starts
  are measured against that one, however far back it lies.\<close>

lemma completion_rolls_the_clock_back:
  assumes "sc_active sc = Some i"
    and "0 \<le> rt_max_drift_ms (sc_policy sc)"
  obtains sc' where "complete_cycle sc (ci_cycle_id i) earlier = Inr sc'" "sc_last_wall sc' = Some earlier"
    and "\<not> rolled_back sc' earlier"
  using assms by (auto simp: complete_cycle_def rolled_back_def)

end
