(* ===== verification/Supervisor.thy ===== *)
theory Supervisor
  imports Scheduler RiskEngine
begin

section \<open>The runtime supervisor and the paper daemon\<close>

text \<open>
  \<open>runtime/supervisor.py\<close>: one rebalance cycle as five stages (data freshness, strategy census,
  tournament, risk and kill switch, admission hook), each of which records the cycle in the operational
  ledger and releases the scheduler when it ends the cycle; an exception anywhere ends in one more attempt
  to record the cycle as crashed.  \<open>runtime/daemon.py\<close>: the life cycle around it.

  The tournament and the admission hook are callbacks of the caller: functions that return a value or
  raise with a message.  The digests of values whose decimals are rendered with \<open>str\<close> (candidate, risk
  snapshot, account) and the texts of exceptions and of the risk engine's rejection reasons are the
  functions of the record \<open>renderings\<close>.  Ledger writes succeed.
\<close>

subsection \<open>Inputs and results\<close>

datatype alpha_lifecycle_state =
    HYPOTHESIS | RESEARCH_SEARCH | CANDIDATE | STATISTICAL_VALIDATED | ECONOMIC_EDGE_QUALIFIED
  | FORWARD_PAPER_MONITORED | RESEARCH_QUALIFIED
  | REJECTED_STATISTICAL_GATE | REJECTED_HURDLE_COLLAPSE | DEGRADED_FORWARD_TEST
  | RETIRED_STRUCTURAL_BREAK | TERMINALLY_FALSIFIED

text \<open>Of a dossier the supervisor reads two fields; a tournament may read more, which an extension of the
  record holds.\<close>

record dossier =
  ds_state :: alpha_lifecycle_state
  ds_digest :: string

record allocation_decision =
  al_candidate_id :: string
  al_allocator :: string
  al_weights :: "(string \<times> raw_dec) list"
  al_cash_weight :: raw_dec
  al_digest :: string

record 'd cycle_request =
  rq_cycle_id :: string
  rq_as_of :: time
  rq_wall_clock :: time
  rq_portfolio :: portfolio
  rq_account :: account_state
  rq_dossiers :: "'d dossier_scheme list"
  rq_tournament :: "'d dossier_scheme list \<Rightarrow> portfolio \<Rightarrow> time \<Rightarrow> string + allocation_decision"
  rq_data_age_ms :: int
  rq_hook :: "(risk_report \<Rightarrow> portfolio \<Rightarrow> string + bool) option"

datatype pipeline_error =
    CandidateRejected risk_error
  | EvaluationFailed risk_error
  | SnapshotFailed risk_error
  | EventRejected ledger_error
  | CompletionRejected scheduler_error

datatype supervisor_error =
    ExecutionBlockedHealth runtime_health
  | StartRejected scheduler_error

record renderings =
  rd_sha :: "string \<Rightarrow> string"
  rd_portfolio :: "portfolio \<Rightarrow> string"
  rd_account_option :: "account_state option \<Rightarrow> string"
  rd_candidate :: "allocation_decision \<Rightarrow> time \<Rightarrow> string"
  rd_snapshot :: "portfolio \<Rightarrow> account_state \<Rightarrow> string"
  rd_account :: "account_state \<Rightarrow> string"
  rd_report :: "risk_report \<Rightarrow> string"
  rd_error :: "pipeline_error \<Rightarrow> string"
  rd_reason :: "rejection option \<Rightarrow> string"

record supervisor =
  sv_scheduler :: scheduler
  sv_ledger :: op_ledger
  sv_risk_policy :: risk_policy
  sv_kill_switch :: controller
  sv_policy :: runtime_policy
  sv_health :: runtime_health

record cycle_summary =
  cs_identity :: cycle_identity
  cs_wall_clock :: time
  cs_outcome :: cycle_outcome
  cs_health :: runtime_health
  cs_dossiers :: "string list"
  cs_decision :: "allocation_decision option"
  cs_report :: "risk_report option"
  cs_admitted :: bool
  cs_error :: "string option"
  cs_event_digest :: string

fun risk_verdict_value :: "risk_verdict \<Rightarrow> string" where
  "risk_verdict_value APPROVED = ''APPROVED''"
| "risk_verdict_value REDUCED = ''REDUCED''"
| "risk_verdict_value REJECTED_RISK = ''REJECTED''"
| "risk_verdict_value KILL_SWITCH_BLOCKED = ''KILL_SWITCH_BLOCKED''"

subsection \<open>Recording a cycle\<close>

text \<open>The arguments of \<open>_record_and_complete\<close> that vary; no cycle carries manifest digests.\<close>

record cycle_record =
  cr_outcome :: cycle_outcome
  cr_error :: "string option"
  cr_dossiers :: "string list"
  cr_portfolio :: string
  cr_account :: string
  cr_allocation :: string
  cr_risk :: string

text \<open>The event, the ledger entry, then the release of the scheduler: the state is the one at the raise.\<close>

definition record_and_complete ::
    "(string \<Rightarrow> string) \<Rightarrow> supervisor \<Rightarrow> cycle_identity \<Rightarrow> time \<Rightarrow> cycle_record
     \<Rightarrow> supervisor \<times> (pipeline_error + unit)" where
  "record_and_complete sha sv i wall r =
     (case mk_cycle_event sha
        \<lparr>oe_identity = i, oe_wall_clock = wall, oe_health = sv_health sv, oe_dossiers = cr_dossiers r,
         oe_portfolio = cr_portfolio r, oe_account = cr_account r, oe_allocation = cr_allocation r,
         oe_risk = cr_risk r, oe_manifests = [],
         oe_kill_switch = kill_switch_value (kc_state (sv_kill_switch sv)), oe_outcome = cr_outcome r,
         oe_error = cr_error r, oe_previous = lg_last_digest (sv_ledger sv), oe_digest = []\<rparr> of
       Inl e \<Rightarrow> (sv, Inl (EventRejected e))
     | Inr event \<Rightarrow>
         (case append_event (sv_ledger sv) event of
            Inl e \<Rightarrow> (sv, Inl (EventRejected e))
          | Inr ledger \<Rightarrow>
              let sv' = sv\<lparr>sv_ledger := ledger\<rparr> in
              (case complete_cycle (sv_scheduler sv') (ci_cycle_id i) wall of
                 Inl e \<Rightarrow> (sv', Inl (CompletionRejected e))
               | Inr sc \<Rightarrow> (sv'\<lparr>sv_scheduler := sc\<rparr>, Inr ()))))"

definition blank_record :: cycle_record where
  "blank_record = \<lparr>cr_outcome = SUCCESS, cr_error = None, cr_dossiers = [], cr_portfolio = [], cr_account = [],
     cr_allocation = [], cr_risk = []\<rparr>"

text \<open>Record, then return the summary: how every stage leaves the pipeline.\<close>

definition finish_cycle ::
    "(string \<Rightarrow> string) \<Rightarrow> supervisor \<Rightarrow> cycle_identity \<Rightarrow> time \<Rightarrow> cycle_record
     \<Rightarrow> allocation_decision option \<Rightarrow> risk_report option \<Rightarrow> bool
     \<Rightarrow> supervisor \<times> (pipeline_error + cycle_summary)" where
  "finish_cycle sha sv i wall r decision report admitted =
     (let (sv', res) = record_and_complete sha sv i wall r in
      (sv', case res of
         Inl e \<Rightarrow> Inl e
       | Inr _ \<Rightarrow> Inr \<lparr>cs_identity = i, cs_wall_clock = wall, cs_outcome = cr_outcome r, cs_health = sv_health sv',
           cs_dossiers = cr_dossiers r, cs_decision = decision, cs_report = report, cs_admitted = admitted,
           cs_error = cr_error r, cs_event_digest = lg_last_digest (sv_ledger sv')\<rparr>))"

subsection \<open>The risk snapshot\<close>

text \<open>\<open>RiskStateBridge.portfolio_state_to_risk_snapshot\<close> as the supervisor calls it, with the check of
  \<open>RiskSnapshot\<close> (\<open>risk/bridge.py\<close>, \<open>portfolio/schema.py\<close>).\<close>

record allocation_snapshot =
  as_id :: string
  as_timestamp :: time
  as_equity :: dec
  as_cash :: dec
  as_margin_used :: dec
  as_headroom :: dec
  as_buffer_threshold :: dec
  as_drawdown_pct :: dec
  as_drawdown_limit_pct :: dec
  as_kill_switch :: bool
  as_digest :: string

definition portfolio_state_to_risk_snapshot ::
    "renderings \<Rightarrow> portfolio \<Rightarrow> account_state \<Rightarrow> risk_error + allocation_snapshot" where
  "portfolio_state_to_risk_snapshot rd pf acc =
     rbind (verify_finite_decimal (Fin (pf_total_equity pf)) ''total_equity'' False (Some (1 / 10000000)) None) (\<lambda>equity.
     rbind (verify_finite_decimal (Fin (pf_cash_balance pf)) ''cash_balance'' True None None) (\<lambda>cash.
     rbind (verify_finite_decimal (Fin (pf_margin_used pf)) ''margin_used'' False (Some 0) None) (\<lambda>margin.
     rbind (verify_finite_decimal (Fin (acc_free_margin acc)) ''free_margin'' False None None) (\<lambda>headroom.
     rbind (verify_finite_decimal (historical_peak None equity) ''peak_equity'' False (Some 0) None) (\<lambda>peak.
     raise_if (equity \<le> 0) (BelowMinimum ''account_equity'') (
       Inr \<lparr>as_id = event_id_of ''RISK_SNAP_'' (pf_timestamp pf), as_timestamp = pf_timestamp pf,
            as_equity = equity, as_cash = cash, as_margin_used = margin, as_headroom = headroom,
            as_buffer_threshold = 5000, as_drawdown_pct = drawdown_pct peak equity,
            as_drawdown_limit_pct = 15, as_kill_switch = False, as_digest = rd_snapshot rd pf acc\<rparr>))))))"

subsection \<open>The stages\<close>

text \<open>Stage 5 after a passed hook: snapshot, success record.\<close>

definition admit_cycle ::
    "renderings \<Rightarrow> supervisor \<Rightarrow> 'd cycle_request \<Rightarrow> cycle_identity \<Rightarrow> string list
     \<Rightarrow> allocation_decision \<Rightarrow> risk_report \<Rightarrow> supervisor \<times> (pipeline_error + cycle_summary)" where
  "admit_cycle rd sv rq i dossiers d report =
     (case portfolio_state_to_risk_snapshot rd (rq_portfolio rq) (rq_account rq) of
        Inl e \<Rightarrow> (sv, Inl (SnapshotFailed e))
      | Inr snapshot \<Rightarrow>
          finish_cycle (rd_sha rd) sv i (rq_wall_clock rq)
            (blank_record\<lparr>cr_dossiers := dossiers, cr_portfolio := as_digest snapshot,
               cr_account := rd_account rd (rq_account rq), cr_allocation := al_digest d, cr_risk := rd_report rd report\<rparr>)
            (Some d) (Some report) True)"

definition hook_raised ::
    "renderings \<Rightarrow> supervisor \<Rightarrow> 'd cycle_request \<Rightarrow> cycle_identity \<Rightarrow> string list
     \<Rightarrow> allocation_decision \<Rightarrow> risk_report \<Rightarrow> string \<Rightarrow> supervisor \<times> (pipeline_error + cycle_summary)" where
  "hook_raised rd sv rq i dossiers d report m =
     finish_cycle (rd_sha rd) sv i (rq_wall_clock rq)
       (blank_record\<lparr>cr_outcome := DISPATCH_FAILED,
          cr_error := Some (''Phase 7 admission check raised exception: '' @ m), cr_dossiers := dossiers,
          cr_allocation := al_digest d, cr_risk := rd_report rd report\<rparr>) (Some d) (Some report) False"

text \<open>Stage 5.  The record of a refused hook is written inside the \<open>try\<close> around the hook, so a failure to
  write it is reported as a failure of the hook.\<close>

definition admission_stage ::
    "renderings \<Rightarrow> supervisor \<Rightarrow> 'd cycle_request \<Rightarrow> cycle_identity \<Rightarrow> string list
     \<Rightarrow> allocation_decision \<Rightarrow> risk_report \<Rightarrow> supervisor \<times> (pipeline_error + cycle_summary)" where
  "admission_stage rd sv rq i dossiers d report =
     (case rq_hook rq of
        None \<Rightarrow> admit_cycle rd sv rq i dossiers d report
      | Some hook \<Rightarrow>
          (case hook report (rq_portfolio rq) of
             Inl m \<Rightarrow> hook_raised rd sv rq i dossiers d report m
           | Inr passed \<Rightarrow>
               if passed then admit_cycle rd sv rq i dossiers d report
               else (case finish_cycle (rd_sha rd) sv i (rq_wall_clock rq)
                   (blank_record\<lparr>cr_outcome := DISPATCH_FAILED,
                      cr_error := Some ''Phase 7 execution admission hook returned False.'',
                      cr_dossiers := dossiers, cr_allocation := al_digest d, cr_risk := rd_report rd report\<rparr>)
                   (Some d) (Some report) False of
                   (sv', Inl e) \<Rightarrow> hook_raised rd sv' rq i dossiers d report (rd_error rd e)
                 | (sv', Inr s) \<Rightarrow> (sv', Inr s))))"

text \<open>Stage 4.\<close>

definition risk_stage ::
    "renderings \<Rightarrow> supervisor \<Rightarrow> 'd cycle_request \<Rightarrow> cycle_identity \<Rightarrow> string list
     \<Rightarrow> allocation_decision \<Rightarrow> supervisor \<times> (pipeline_error + cycle_summary)" where
  "risk_stage rd sv rq i dossiers d =
     (if is_blocked_state (kc_state (sv_kill_switch sv))
      then finish_cycle (rd_sha rd) sv i (rq_wall_clock rq)
        (blank_record\<lparr>cr_outcome := RISK_REJECTED,
           cr_error := Some (''Sovereign Kill Switch is BLOCKED: ''
             @ kill_switch_value (kc_state (sv_kill_switch sv)) @ ''.''),
           cr_dossiers := dossiers, cr_allocation := al_digest d\<rparr>) (Some d) None False
      else case mk_candidate (al_candidate_id d) (al_allocator d) (al_weights d) (al_cash_weight d) (al_digest d)
             (rq_as_of rq) (rd_candidate rd d (rq_as_of rq)) of
        Inl e \<Rightarrow> (sv, Inl (CandidateRejected e))
      | Inr candidate \<Rightarrow>
          (case evaluate_candidate_allocation (rd_portfolio rd) (rd_account_option rd) (sv_risk_policy sv)
                  candidate (rq_portfolio rq) (Some (rq_account rq)) None None None None True (rq_as_of rq) of
             Inl e \<Rightarrow> (sv, Inl (EvaluationFailed e))
           | Inr report \<Rightarrow>
               if rr_verdict report \<in> {REJECTED_RISK, KILL_SWITCH_BLOCKED}
               then finish_cycle (rd_sha rd) sv i (rq_wall_clock rq)
                 (blank_record\<lparr>cr_outcome := RISK_REJECTED,
                    cr_error := Some (''Risk Engine Veto: '' @ risk_verdict_value (rr_verdict report)
                      @ ''. Reason: '' @ rd_reason rd (rr_rejection report)),
                    cr_dossiers := dossiers, cr_allocation := al_digest d, cr_risk := rd_report rd report\<rparr>)
                 (Some d) (Some report) False
               else admission_stage rd sv rq i dossiers d report))"

text \<open>Stages 2 and 3.\<close>

definition active_dossiers :: "'d cycle_request \<Rightarrow> 'd dossier_scheme list" where
  "active_dossiers rq = filter (\<lambda>d. ds_state d = RESEARCH_QUALIFIED) (rq_dossiers rq)"

definition census :: "'d cycle_request \<Rightarrow> string list" where
  "census rq = sort (map ds_digest (active_dossiers rq))"

definition tournament_stage ::
    "renderings \<Rightarrow> supervisor \<Rightarrow> 'd cycle_request \<Rightarrow> cycle_identity
     \<Rightarrow> supervisor \<times> (pipeline_error + cycle_summary)" where
  "tournament_stage rd sv rq i =
     (case rq_tournament rq (active_dossiers rq) (rq_portfolio rq) (rq_as_of rq) of
        Inl m \<Rightarrow> finish_cycle (rd_sha rd) sv i (rq_wall_clock rq)
          (blank_record\<lparr>cr_outcome := DISPATCH_FAILED, cr_error := Some (''Tournament execution failed: '' @ m),
             cr_dossiers := census rq\<rparr>) None None False
      | Inr d \<Rightarrow> risk_stage rd sv rq i (census rq) d)"

text \<open>Stage 1 and the rest.\<close>

definition stale :: "supervisor \<Rightarrow> 'd cycle_request \<Rightarrow> bool" where
  "stale sv rq \<longleftrightarrow> rq_data_age_ms rq > rt_max_data_age_ms (sv_policy sv)"

definition run_stages ::
    "renderings \<Rightarrow> supervisor \<Rightarrow> 'd cycle_request \<Rightarrow> cycle_identity
     \<Rightarrow> supervisor \<times> (pipeline_error + cycle_summary)" where
  "run_stages rd sv rq i =
     (if stale sv rq
      then finish_cycle (rd_sha rd) sv i (rq_wall_clock rq)
        (blank_record\<lparr>cr_outcome := DATA_STALE,
           cr_error := Some (''Data age '' @ str_int (rq_data_age_ms rq) @ ''ms exceeds max tolerance ''
             @ str_int (rt_max_data_age_ms (sv_policy sv)) @ ''ms.'')\<rparr>) None None False
      else tournament_stage rd sv rq i)"

text \<open>The handler around the stages: record the cycle as crashed and swallow a failure to do so.\<close>

definition crash_cycle ::
    "renderings \<Rightarrow> supervisor \<Rightarrow> cycle_identity \<Rightarrow> time \<Rightarrow> string list \<Rightarrow> pipeline_error
     \<Rightarrow> supervisor \<times> cycle_summary" where
  "crash_cycle rd sv i wall dossiers e =
     (let message = ''Unhandled pipeline crash: '' @ rd_error rd e;
          sv' = fst (record_and_complete (rd_sha rd) sv i wall (blank_record\<lparr>cr_outcome := INTERRUPTED_CRASH,
            cr_error := Some message, cr_dossiers := dossiers\<rparr>))
      in (sv', \<lparr>cs_identity = i, cs_wall_clock = wall, cs_outcome = INTERRUPTED_CRASH, cs_health = sv_health sv',
            cs_dossiers = dossiers, cs_decision = None, cs_report = None, cs_admitted = False,
            cs_error = Some message, cs_event_digest = lg_last_digest (sv_ledger sv')\<rparr>))"

definition execute_rebalance_cycle ::
    "renderings \<Rightarrow> supervisor \<Rightarrow> 'd cycle_request \<Rightarrow> supervisor \<times> (supervisor_error + cycle_summary)" where
  "execute_rebalance_cycle rd sv rq =
     (if sv_health sv \<in> {RUNTIME_PAUSED, RUNTIME_HALTED} then (sv, Inl (ExecutionBlockedHealth (sv_health sv)))
      else case start_cycle (rd_sha rd) (sv_scheduler sv) (rq_cycle_id rq) (rq_as_of rq) (rq_wall_clock rq)
             (Some REBALANCE_PULSE) of
        Inl e \<Rightarrow> (sv, Inl (StartRejected e))
      | Inr (i, sc) \<Rightarrow>
          let (sv', res) = run_stages rd (sv\<lparr>sv_scheduler := sc\<rparr>) rq i in
          (case res of
             Inr s \<Rightarrow> (sv', Inr s)
           | Inl e \<Rightarrow>
               let (sv'', s) = crash_cycle rd sv' i (rq_wall_clock rq) (if stale sv rq then [] else census rq) e
               in (sv'', Inr s)))"

definition set_health_status :: "supervisor \<Rightarrow> runtime_health \<Rightarrow> supervisor" where
  "set_health_status sv h = sv\<lparr>sv_health := h\<rparr>"

subsection \<open>The daemon\<close>

datatype daemon_state = UNINITIALIZED | INITIALIZING | RUNNING | STOPPING | STOPPED | HALTED_FATAL

datatype daemon_error =
    StartupCorruptLedger ledger_error
  | StartupHalted
  | DaemonNotRunning daemon_state
  | PulseRefused supervisor_error

record daemon =
  dm_supervisor :: supervisor
  dm_state :: daemon_state
  dm_stop_requested :: bool
  dm_total_cycles :: int
  dm_last_id :: "string option"
  dm_last_outcome :: "cycle_outcome option"
  dm_last_wall :: "time option"

definition new_daemon :: "supervisor \<Rightarrow> daemon" where
  "new_daemon sv = \<lparr>dm_supervisor = sv, dm_state = UNINITIALIZED, dm_stop_requested = False,
     dm_total_cycles = 0, dm_last_id = None, dm_last_outcome = None, dm_last_wall = None\<rparr>"

definition daemon_start :: "renderings \<Rightarrow> daemon \<Rightarrow> daemon \<times> (daemon_error + unit)" where
  "daemon_start rd dm =
     (if dm_state dm = RUNNING then (dm, Inr ())
      else case verify_ledger_integrity (rd_sha rd) (sv_ledger (dm_supervisor dm)) of
        Inl e \<Rightarrow> (dm\<lparr>dm_state := HALTED_FATAL\<rparr>, Inl (StartupCorruptLedger e))
      | Inr _ \<Rightarrow>
          if sv_health (dm_supervisor dm) = RUNTIME_HALTED
          then (dm\<lparr>dm_state := HALTED_FATAL\<rparr>, Inl StartupHalted)
          else (dm\<lparr>dm_stop_requested := False, dm_state := RUNNING\<rparr>, Inr ()))"

definition daemon_stop :: "daemon \<Rightarrow> daemon" where
  "daemon_stop dm =
     (if dm_state dm \<in> {STOPPED, UNINITIALIZED} then dm
      else dm\<lparr>dm_stop_requested := True, dm_state := STOPPED\<rparr>)"

definition step_pulse ::
    "renderings \<Rightarrow> daemon \<Rightarrow> 'd cycle_request \<Rightarrow> daemon \<times> (daemon_error + cycle_summary)" where
  "step_pulse rd dm rq =
     (if dm_state dm \<notin> {RUNNING, INITIALIZING} then (dm, Inl (DaemonNotRunning (dm_state dm)))
      else let (sv', res) = execute_rebalance_cycle rd (dm_supervisor dm) rq in
        (case res of
           Inl e \<Rightarrow> (dm\<lparr>dm_supervisor := sv'\<rparr>, Inl (PulseRefused e))
         | Inr s \<Rightarrow> (dm\<lparr>dm_supervisor := sv', dm_total_cycles := dm_total_cycles dm + 1,
             dm_last_id := Some (rq_cycle_id rq), dm_last_outcome := Some (cs_outcome s),
             dm_last_wall := Some (rq_wall_clock rq)\<rparr>, Inr s)))"

fun pulse_loop :: "renderings \<Rightarrow> daemon \<Rightarrow> 'd cycle_request list \<Rightarrow> int \<Rightarrow> daemon \<times> (daemon_error + int)" where
  "pulse_loop rd dm [] n = (dm, Inr n)"
| "pulse_loop rd dm (rq # rqs) n =
     (if dm_stop_requested dm then (dm, Inr n)
      else case step_pulse rd dm rq of
        (dm', Inl e) \<Rightarrow> (dm', Inl e)
      | (dm', Inr s) \<Rightarrow> pulse_loop rd dm' rqs (n + 1))"

definition run_harness ::
    "renderings \<Rightarrow> daemon \<Rightarrow> 'd cycle_request list \<Rightarrow> daemon \<times> (daemon_error + int)" where
  "run_harness rd dm feed =
     (case (if dm_state dm = RUNNING then (dm, Inr ()) else daemon_start rd dm) of
        (dm', Inl e) \<Rightarrow> (dm', Inl e)
      | (dm', Inr _) \<Rightarrow>
          (case pulse_loop rd dm' feed 0 of
             (dm'', Inl e) \<Rightarrow> (dm'', Inl e)
           | (dm'', Inr n) \<Rightarrow> (if dm_stop_requested dm'' then daemon_stop dm'' else dm'', Inr n)))"


subsection \<open>A record either succeeds whole or changes nothing\<close>

definition released :: "scheduler \<Rightarrow> cycle_identity \<Rightarrow> time \<Rightarrow> scheduler" where
  "released sc i wall = sc\<lparr>sc_ids := insert (ci_cycle_id i) (sc_ids sc),
     sc_digests := insert (ci_digest i) (sc_digests sc), sc_active := None,
     sc_sequence := sc_sequence sc + 1, sc_last_wall := Some wall\<rparr>"

definition digests_valid :: "cycle_record \<Rightarrow> bool" where
  "digests_valid r \<longleftrightarrow> list_all valid_sha256 (cr_dossiers r) \<and> \<not> optional_digest_bad (strip (cr_portfolio r))
     \<and> \<not> optional_digest_bad (strip (cr_account r)) \<and> \<not> optional_digest_bad (strip (cr_allocation r))
     \<and> \<not> optional_digest_bad (strip (cr_risk r))"

text \<open>The cycle \<open>i\<close> runs, and the ledger with the entries \<open>es\<close> waits for it.\<close>

definition awaiting :: "(string \<Rightarrow> string) \<Rightarrow> cycle_event list \<Rightarrow> supervisor \<Rightarrow> cycle_identity \<Rightarrow> time \<Rightarrow> bool" where
  "awaiting sha es sv i wall \<longleftrightarrow> sc_active (sv_scheduler sv) = Some i \<and> mk_cycle_identity sha i = Inr i
     \<and> ci_as_of i \<le> wall \<and> sv_ledger sv = ledger_of sha es \<and> entries_ok sha es
     \<and> ci_sequence i = int (length es) \<and> ci_cycle_id i \<notin> set (cycle_ids es)"

definition recorded ::
    "(string \<Rightarrow> string) \<Rightarrow> cycle_event list \<Rightarrow> supervisor \<Rightarrow> cycle_identity \<Rightarrow> time \<Rightarrow> supervisor
     \<Rightarrow> cycle_event \<Rightarrow> bool" where
  "recorded sha es sv i wall sv' e \<longleftrightarrow> event_ok sha e \<and> entries_ok sha (es @ [e]) \<and> oe_identity e = i
     \<and> oe_wall_clock e = wall \<and> oe_health e = sv_health sv
     \<and> oe_kill_switch e = kill_switch_value (kc_state (sv_kill_switch sv))
     \<and> sv' = sv\<lparr>sv_ledger := ledger_of sha (es @ [e]), sv_scheduler := released (sv_scheduler sv) i wall\<rparr>"

lemma valid_sha256_strip: "valid_sha256 v \<Longrightarrow> valid_sha256 (strip v)"
proof -
  assume v: "valid_sha256 v"
  show ?thesis
  proof (cases "v \<noteq> [] \<and> last v = CHR 0x0A")
    case True
    then have w: "length (butlast v) = 64" "list_all is_hex_char (butlast v)"
      using v by (simp_all add: valid_sha256_def)
    have "v = butlast v @ [CHR 0x0A]" using True by (metis append_butlast_last_id)
    then have "strip v = strip (butlast v @ [CHR 0x0A])" by simp
    also have "\<dots> = butlast v"
    proof -
      obtain c cs where b: "butlast v = c # cs" using w(1) by (cases "butlast v") auto
      have "\<not> is_space c" "\<forall>x \<in> set (butlast v). \<not> is_space x"
        using w(2) b not_space_hex by (auto simp: list_all_iff)
      then have "dropWhile is_space (butlast v @ [CHR 0x0A]) = butlast v @ [CHR 0x0A]"
        by (simp add: b)
      moreover have "is_space (CHR 0x0A)" by (simp add: is_space_def)
      moreover have "dropWhile is_space (rev (butlast v)) = rev (butlast v)"
        using \<open>\<forall>x \<in> set (butlast v). \<not> is_space x\<close>
        by (cases "rev (butlast v)") (auto simp: dropWhile_eq_self_iff dest!: arg_cong [of "rev _" _ set])
      ultimately show ?thesis by (simp add: strip_def)
    qed
    finally show ?thesis using w by (simp add: valid_sha256_hex)
  next
    case False
    then have "length v = 64" "list_all is_hex_char v" using v by (auto simp: valid_sha256_def Let_def split: if_splits)
    then show ?thesis using strip_hex v by simp
  qed
qed


definition raw_event :: "supervisor \<Rightarrow> cycle_identity \<Rightarrow> time \<Rightarrow> cycle_record \<Rightarrow> cycle_event" where
  "raw_event sv i wall r =
     \<lparr>oe_identity = i, oe_wall_clock = wall, oe_health = sv_health sv, oe_dossiers = cr_dossiers r,
      oe_portfolio = cr_portfolio r, oe_account = cr_account r, oe_allocation = cr_allocation r,
      oe_risk = cr_risk r, oe_manifests = [],
      oe_kill_switch = kill_switch_value (kc_state (sv_kill_switch sv)), oe_outcome = cr_outcome r,
      oe_error = cr_error r, oe_previous = lg_last_digest (sv_ledger sv), oe_digest = []\<rparr>"

lemma record_event:
  assumes "mk_cycle_identity sha i = Inr i" and "mk_cycle_event sha (raw_event sv i wall r) = Inr e"
  shows "oe_identity e = i" "oe_wall_clock e = wall" "oe_health e = sv_health sv" "oe_outcome e = cr_outcome r"
    and "oe_kill_switch e = kill_switch_value (kc_state (sv_kill_switch sv))" "oe_error e = cr_error r"
    and "oe_previous e = strip (lg_last_digest (sv_ledger sv))"
  using assms by (auto simp: mk_cycle_event_Inr raw_event_def normalise_event_def)

lemma ledger_head_hex:
  assumes "hex_digests sha"
  shows "strip (lg_last_digest (ledger_of sha es)) = lg_last_digest (ledger_of sha es)"
    and "valid_sha256 (lg_last_digest (ledger_of sha es))"
proof -
  have "lg_last_digest (ledger_of sha es) = zero_digest \<or> (\<exists>t. lg_last_digest (ledger_of sha es) = sha t)"
    by (cases es rule: rev_cases) (auto simp: ledger_of_def)
  then show "strip (lg_last_digest (ledger_of sha es)) = lg_last_digest (ledger_of sha es)"
    and "valid_sha256 (lg_last_digest (ledger_of sha es))"
    using assms strip_digest [OF zero_digest_hex] by auto
qed

lemma record_awaiting:
  assumes "hex_digests sha" "awaiting sha es sv i wall"
  shows "(\<exists>e. record_and_complete sha sv i wall r = (sv, Inl e) \<and> \<not> digests_valid r)
    \<or> (\<exists>sv' e. record_and_complete sha sv i wall r = (sv', Inr ()) \<and> recorded sha es sv i wall sv' e
        \<and> oe_outcome e = cr_outcome r \<and> oe_error e = cr_error r \<and> lg_last_digest (sv_ledger sv') = oe_digest e)"
proof -
  have i: "mk_cycle_identity sha i = Inr i" "ci_as_of i \<le> wall" and l: "sv_ledger sv = ledger_of sha es"
    and es: "entries_ok sha es" and act: "sc_active (sv_scheduler sv) = Some i"
    and fresh: "ci_sequence i = int (length es)" "ci_cycle_id i \<notin> set (cycle_ids es)"
    using assms(2) by (auto simp: awaiting_def)
  show ?thesis
  proof (cases "mk_cycle_event sha (raw_event sv i wall r)")
    case (Inl e)
    have "\<not> valid_lineage (normalise_event (raw_event sv i wall r))"
    proof
      assume "valid_lineage (normalise_event (raw_event sv i wall r))"
      then have "\<exists>e. mk_cycle_event sha (raw_event sv i wall r) = Inr e"
        unfolding mk_cycle_event_Inr using i by (simp add: raw_event_def)
      then show False using Inl by simp
    qed
    moreover have "valid_lineage (normalise_event (raw_event sv i wall r))" if "digests_valid r"
      using that ledger_head_hex [OF assms(1), of es] valid_sha256_strip
      by (auto simp: valid_lineage_def normalise_event_def raw_event_def digests_valid_def l list_all_iff)
    ultimately show ?thesis
      using Inl by (auto simp: record_and_complete_def raw_event_def)
  next
    case (Inr e)
    note e = record_event [OF i(1) Inr]
    have ok: "event_ok sha e" using mk_cycle_event_reload [OF assms(1) Inr] by (simp add: event_ok_def)
    have prev: "oe_previous e = chain_head sha cycle_body zero_digest es"
      using e(7) ledger_head_hex [OF assms(1), of es] by (simp add: l) (simp add: ledger_of_def)
    have "append_event (ledger_of sha es) e = Inr (ledger_of sha (es @ [e]))"
      using append_entries [OF es ok] e(1) fresh prev by simp
    moreover from append_entries_ok [OF es ok this] have "entries_ok sha (es @ [e])" by simp
    moreover have "lg_last_digest (ledger_of sha (es @ [e])) = oe_digest e"
      using event_ok_digests(1) [OF ok] by (simp add: ledger_of_def)
    moreover let ?sv = "sv\<lparr>sv_ledger := ledger_of sha (es @ [e]), sv_scheduler := released (sv_scheduler sv) i wall\<rparr>"
    have "record_and_complete sha sv i wall r = (?sv, Inr ())"
      using Inr [unfolded raw_event_def] act calculation(1)
      by (simp add: record_and_complete_def l complete_cycle_def released_def)
    moreover have "recorded sha es sv i wall ?sv e" using e ok calculation(2) by (simp add: recorded_def)
    ultimately show ?thesis using e by (intro disjI2 exI [of _ ?sv] exI [of _ e]) simp
  qed
qed

text \<open>The stages inherit this: they end in one record, or raise with the state unchanged.\<close>

definition ends_recorded ::
    "(string \<Rightarrow> string) \<Rightarrow> cycle_event list \<Rightarrow> supervisor \<Rightarrow> cycle_identity \<Rightarrow> time
     \<Rightarrow> supervisor \<times> (pipeline_error + cycle_summary) \<Rightarrow> bool" where
  "ends_recorded sha es sv i wall out \<longleftrightarrow> (case snd out of
      Inl _ \<Rightarrow> fst out = sv
    | Inr s \<Rightarrow> \<exists>e. recorded sha es sv i wall (fst out) e \<and> oe_outcome e = cs_outcome s \<and> oe_error e = cs_error s
        \<and> oe_digest e = cs_event_digest s \<and> cs_identity s = i)"

lemma finish_ends:
  assumes "hex_digests sha" "awaiting sha es sv i wall"
  shows "ends_recorded sha es sv i wall (finish_cycle sha sv i wall r d report adm)"
  using record_awaiting [OF assms, of r]
proof (elim disjE exE conjE)
  fix e assume "record_and_complete sha sv i wall r = (sv, Inl e)"
  then show ?thesis by (simp add: ends_recorded_def finish_cycle_def)
next
  fix sv' e assume "record_and_complete sha sv i wall r = (sv', Inr ())" "recorded sha es sv i wall sv' e"
    and "oe_outcome e = cr_outcome r" "oe_error e = cr_error r" "lg_last_digest (sv_ledger sv') = oe_digest e"
  then show ?thesis by (auto simp: ends_recorded_def finish_cycle_def)
qed

lemma ends_raise [simp]: "ends_recorded sha es sv i wall (sv, Inl e)"
  by (simp add: ends_recorded_def)

lemma stages_end:
  assumes "hex_digests (rd_sha rd)" "awaiting (rd_sha rd) es sv i (rq_wall_clock rq)"
  shows "ends_recorded (rd_sha rd) es sv i (rq_wall_clock rq) (run_stages rd sv rq i)"
proof -
  note fin = finish_ends [OF assms]
  have admit: "ends_recorded (rd_sha rd) es sv i (rq_wall_clock rq) (admit_cycle rd sv rq i ds d report)" for ds d report
    by (simp add: admit_cycle_def fin split: sum.splits)
  have raised: "ends_recorded (rd_sha rd) es sv i (rq_wall_clock rq) (hook_raised rd sv rq i ds d report m)"
    for ds d report m
    by (simp add: hook_raised_def fin)
  have admission: "ends_recorded (rd_sha rd) es sv i (rq_wall_clock rq) (admission_stage rd sv rq i ds d report)"
    for ds d report
  proof (cases "rq_hook rq")
    case (Some hook)
    let ?r = "blank_record\<lparr>cr_outcome := DISPATCH_FAILED,
        cr_error := Some ''Phase 7 execution admission hook returned False.'',
        cr_dossiers := ds, cr_allocation := al_digest d, cr_risk := rd_report rd report\<rparr>"
    obtain sv' res where out: "finish_cycle (rd_sha rd) sv i (rq_wall_clock rq) ?r (Some d) (Some report) False = (sv', res)"
      by fastforce
    have refused: "ends_recorded (rd_sha rd) es sv i (rq_wall_clock rq) (sv', res)" using fin out by metis
    show ?thesis
    proof (cases "hook report (rq_portfolio rq)")
      case (Inl m)
      then show ?thesis by (simp add: admission_stage_def Some raised)
    next
      case (Inr passed)
      show ?thesis
      proof (cases res)
        case (Inl e)
        then have "sv' = sv" using refused by (simp add: ends_recorded_def)
        then show ?thesis using Inl Inr out by (simp add: admission_stage_def Some admit raised)
      next
        case (Inr s)
        then show ?thesis using \<open>hook report (rq_portfolio rq) = Inr passed\<close> out refused
          by (simp add: admission_stage_def Some admit)
      qed
    qed
  qed (simp add: admission_stage_def admit)
  have risk: "ends_recorded (rd_sha rd) es sv i (rq_wall_clock rq) (risk_stage rd sv rq i ds d)" for ds d
    by (simp add: risk_stage_def fin admission split: sum.splits)
  show ?thesis
    by (simp add: run_stages_def tournament_stage_def fin risk split: sum.splits)
qed


subsection \<open>Every started cycle is recorded\<close>

text \<open>Scheduler and ledger agree: no cycle runs, the next number is the number of entries, and the
  scheduler knows every recorded id.\<close>

definition synced :: "(string \<Rightarrow> string) \<Rightarrow> cycle_event list \<Rightarrow> supervisor \<Rightarrow> bool" where
  "synced sha es sv \<longleftrightarrow> sv_ledger sv = ledger_of sha es \<and> entries_ok sha es
     \<and> sc_active (sv_scheduler sv) = None \<and> sc_sequence (sv_scheduler sv) = int (length es)
     \<and> set (cycle_ids es) \<subseteq> sc_ids (sv_scheduler sv)"

lemma recorded_synced:
  assumes "recorded sha es (sv\<lparr>sv_scheduler := sc\<rparr>) i wall sv' e" "synced sha es sv"
    and "sc_sequence sc = sc_sequence (sv_scheduler sv)" "sc_ids sc = sc_ids (sv_scheduler sv)"
  shows "synced sha (es @ [e]) sv'"
  using assms by (auto simp: recorded_def synced_def released_def)

lemma started_awaiting:
  assumes "synced sha es sv" "strip cid = cid"
    and "start_cycle sha (sv_scheduler sv) cid as_of wall regime = Inr (i, sc)"
  shows "awaiting sha es (sv\<lparr>sv_scheduler := sc\<rparr>) i wall"
    and "sc_sequence sc = sc_sequence (sv_scheduler sv)" "sc_ids sc = sc_ids (sv_scheduler sv)"
    and "ci_cycle_id i = cid" "ci_as_of i = as_of"
proof -
  have c: "create_cycle_identity sha (sv_scheduler sv) cid as_of regime = Inr i" and le: "as_of \<le> wall"
    and new: "cid \<notin> sc_ids (sv_scheduler sv)"
    and sc: "sc = (sv_scheduler sv)\<lparr>sc_active := Some i, sc_last_as_of := Some as_of, sc_last_wall := Some wall\<rparr>"
    using assms(3) unfolding start_cycle_Inr by simp_all
  have "mk_cycle_identity sha i = Inr i"
    using c identity_reload unfolding create_cycle_identity_def by blast
  then show "awaiting sha es (sv\<lparr>sv_scheduler := sc\<rparr>) i wall"
    using assms(1,2) created_identity(1-3) [OF c] le new sc by (auto simp: awaiting_def synced_def)
  show "sc_sequence sc = sc_sequence (sv_scheduler sv)" "sc_ids sc = sc_ids (sv_scheduler sv)"
    using sc by simp_all
  show "ci_cycle_id i = cid" "ci_as_of i = as_of"
    using created_identity(1,2) [OF c] assms(2) by simp_all
qed

lemma crash_recorded:
  assumes "hex_digests (rd_sha rd)" "awaiting (rd_sha rd) es sv i wall" "list_all valid_sha256 ds"
    and "crash_cycle rd sv i wall ds x = (sv', s)"
  shows "\<exists>e. recorded (rd_sha rd) es sv i wall sv' e \<and> oe_outcome e = cs_outcome s
    \<and> oe_error e = cs_error s \<and> oe_digest e = cs_event_digest s \<and> cs_identity s = i"
proof -
  let ?r = "blank_record\<lparr>cr_outcome := INTERRUPTED_CRASH,
      cr_error := Some (''Unhandled pipeline crash: '' @ rd_error rd x), cr_dossiers := ds\<rparr>"
  have "digests_valid ?r"
    using assms(3) by (simp add: digests_valid_def blank_record_def optional_digest_bad_def)
  then obtain sv'' e where "record_and_complete (rd_sha rd) sv i wall ?r = (sv'', Inr ())"
      "recorded (rd_sha rd) es sv i wall sv'' e" "oe_outcome e = INTERRUPTED_CRASH"
      "oe_error e = Some (''Unhandled pipeline crash: '' @ rd_error rd x)" "lg_last_digest (sv_ledger sv'') = oe_digest e"
    using record_awaiting [OF assms(1,2), of ?r] by auto
  then show ?thesis using assms(4) by (auto simp: crash_cycle_def Let_def)
qed

lemma execute_recorded:
  assumes "hex_digests (rd_sha rd)" "synced (rd_sha rd) es sv" "strip (rq_cycle_id rq) = rq_cycle_id rq"
    and "list_all valid_sha256 (census rq)" and "execute_rebalance_cycle rd sv rq = (sv', Inr s)"
  shows "\<exists>e. synced (rd_sha rd) (es @ [e]) sv' \<and> oe_outcome e = cs_outcome s \<and> oe_error e = cs_error s
    \<and> oe_digest e = cs_event_digest s \<and> oe_identity e = cs_identity s
    \<and> ci_cycle_id (cs_identity s) = rq_cycle_id rq \<and> ci_as_of (cs_identity s) = rq_as_of rq
    \<and> oe_wall_clock e = rq_wall_clock rq \<and> sv_kill_switch sv' = sv_kill_switch sv \<and> sv_health sv' = sv_health sv"
proof -
  obtain i sc where start: "start_cycle (rd_sha rd) (sv_scheduler sv) (rq_cycle_id rq) (rq_as_of rq)
      (rq_wall_clock rq) (Some REBALANCE_PULSE) = Inr (i, sc)"
    using assms(5) by (auto simp: execute_rebalance_cycle_def split: if_splits sum.splits)
  note st = started_awaiting [OF assms(2,3) start]
  obtain sv1 res where stages: "run_stages rd (sv\<lparr>sv_scheduler := sc\<rparr>) rq i = (sv1, res)" by fastforce
  have out: "(sv', Inr s) = (case res of Inr s \<Rightarrow> (sv1, Inr s)
      | Inl e \<Rightarrow> let (sv'', s) = crash_cycle rd sv1 i (rq_wall_clock rq) (if stale sv rq then [] else census rq) e
          in (sv'', Inr s))"
    using assms(5) start stages
    by (cases res) (auto simp: execute_rebalance_cycle_def Let_def split: if_splits prod.splits)
  have "ends_recorded (rd_sha rd) es (sv\<lparr>sv_scheduler := sc\<rparr>) i (rq_wall_clock rq) (sv1, res)"
    using stages_end [OF assms(1) st(1)] stages by metis
  then have "\<exists>e. recorded (rd_sha rd) es (sv\<lparr>sv_scheduler := sc\<rparr>) i (rq_wall_clock rq) sv' e
      \<and> oe_outcome e = cs_outcome s \<and> oe_error e = cs_error s \<and> oe_digest e = cs_event_digest s \<and> cs_identity s = i"
  proof (cases res)
    case (Inl x)
    then have sv1: "sv1 = sv\<lparr>sv_scheduler := sc\<rparr>"
      using \<open>ends_recorded _ _ _ _ _ (sv1, res)\<close> by (simp add: ends_recorded_def)
    obtain sv2 s2 where c: "crash_cycle rd sv1 i (rq_wall_clock rq) (if stale sv rq then [] else census rq) x = (sv2, s2)"
      by fastforce
    then have "sv' = sv2" "s = s2" using out Inl by simp_all
    moreover have "list_all valid_sha256 (if stale sv rq then [] else census rq)" using assms(4) by simp
    ultimately show ?thesis using crash_recorded [OF assms(1) st(1)] c sv1 by metis
  next
    case (Inr s1)
    then show ?thesis using out \<open>ends_recorded _ _ _ _ _ (sv1, res)\<close> by (simp add: ends_recorded_def)
  qed
  then obtain e where e: "recorded (rd_sha rd) es (sv\<lparr>sv_scheduler := sc\<rparr>) i (rq_wall_clock rq) sv' e"
      "oe_outcome e = cs_outcome s" "oe_error e = cs_error s" "oe_digest e = cs_event_digest s" "cs_identity s = i"
    by blast
  have "synced (rd_sha rd) (es @ [e]) sv'" by (rule recorded_synced [OF e(1) assms(2) st(2,3)])
  then show ?thesis using e st(4,5) by (intro exI [of _ e]) (auto simp: recorded_def)
qed

lemma execute_refused:
  assumes "execute_rebalance_cycle rd sv rq = (sv', Inl x)"
  shows "sv' = sv"
  using assms by (auto simp: execute_rebalance_cycle_def Let_def split: if_splits sum.splits prod.splits)


lemma pulse_loop_recorded:
  assumes "hex_digests (rd_sha rd)"
    and "\<forall>rq \<in> set feed. strip (rq_cycle_id rq) = rq_cycle_id rq \<and> list_all valid_sha256 (census rq)"
    and "synced (rd_sha rd) es (dm_supervisor dm)" "dm_state dm = RUNNING" "\<not> dm_stop_requested dm"
    and "pulse_loop rd dm feed n = (dm', res)"
  shows "\<exists>new. synced (rd_sha rd) (es @ new) (dm_supervisor dm')
    \<and> dm_total_cycles dm' = dm_total_cycles dm + int (length new)
    \<and> list_all2 (\<lambda>e rq. ci_cycle_id (oe_identity e) = rq_cycle_id rq \<and> ci_as_of (oe_identity e) = rq_as_of rq
        \<and> oe_wall_clock e = rq_wall_clock rq) new (take (length new) feed)
    \<and> (case res of Inr m \<Rightarrow> length new = length feed \<and> m = n + int (length feed)
        | Inl x \<Rightarrow> length new < length feed \<and> (\<exists>y. x = PulseRefused y
            \<and> execute_rebalance_cycle rd (dm_supervisor dm') (feed ! length new) = (dm_supervisor dm', Inl y)))
    \<and> \<not> dm_stop_requested dm'"
  using assms(2-)
proof (induction feed arbitrary: es dm n)
  case Nil
  then show ?case by (intro exI [of _ "[]"]) auto
next
  case (Cons rq feed)
  obtain sv1 out where ex: "execute_rebalance_cycle rd (dm_supervisor dm) rq = (sv1, out)" by fastforce
  show ?case
  proof (cases out)
    case (Inl x)
    then have "sv1 = dm_supervisor dm" using ex execute_refused by simp
    then show ?thesis
      using Cons.prems ex Inl by (intro exI [of _ "[]"]) (auto simp: step_pulse_def Let_def)
  next
    case (Inr s)
    have ok: "strip (rq_cycle_id rq) = rq_cycle_id rq" "list_all valid_sha256 (census rq)"
      using Cons.prems(1) by simp_all
    obtain e where e: "synced (rd_sha rd) (es @ [e]) sv1" "oe_identity e = cs_identity s"
        "ci_cycle_id (cs_identity s) = rq_cycle_id rq" "ci_as_of (cs_identity s) = rq_as_of rq"
        "oe_wall_clock e = rq_wall_clock rq"
      using execute_recorded [OF assms(1) Cons.prems(2) ok] ex Inr by blast
    define dm1 where "dm1 = dm\<lparr>dm_supervisor := sv1, dm_total_cycles := dm_total_cycles dm + 1,
        dm_last_id := Some (rq_cycle_id rq), dm_last_outcome := Some (cs_outcome s),
        dm_last_wall := Some (rq_wall_clock rq)\<rparr>"
    have step: "step_pulse rd dm rq = (dm1, Inr s)"
      using ex Inr Cons.prems(3) by (simp add: step_pulse_def dm1_def)
    have dm1: "synced (rd_sha rd) (es @ [e]) (dm_supervisor dm1)" "dm_state dm1 = RUNNING"
        "\<not> dm_stop_requested dm1" "dm_total_cycles dm1 = dm_total_cycles dm + 1"
      using e(1) Cons.prems(3,4) by (simp_all add: dm1_def)
    have "pulse_loop rd dm1 feed (n + 1) = (dm', res)"
      using Cons.prems(4,5) step by simp
    from Cons.IH [OF _ dm1(1-3) this] Cons.prems(1) obtain new where
      new: "synced (rd_sha rd) ((es @ [e]) @ new) (dm_supervisor dm')"
        "dm_total_cycles dm' = dm_total_cycles dm1 + int (length new)"
        "list_all2 (\<lambda>e rq. ci_cycle_id (oe_identity e) = rq_cycle_id rq \<and> ci_as_of (oe_identity e) = rq_as_of rq
          \<and> oe_wall_clock e = rq_wall_clock rq) new (take (length new) feed)"
        "case res of Inr m \<Rightarrow> length new = length feed \<and> m = n + 1 + int (length feed)
          | Inl x \<Rightarrow> length new < length feed \<and> (\<exists>y. x = PulseRefused y
            \<and> execute_rebalance_cycle rd (dm_supervisor dm') (feed ! length new) = (dm_supervisor dm', Inl y))"
        "\<not> dm_stop_requested dm'"
      by auto
    then show ?thesis
      using e(2-) dm1(4) by (intro exI [of _ "e # new"]) (auto split: sum.splits)
  qed
qed

lemma audit_synced: "synced sha es sv \<Longrightarrow> verify_ledger_integrity sha (sv_ledger sv)
    = Inr (True, int (length es), lg_last_digest (sv_ledger sv))"
  using replay_entries [of es sha zero_digest 0 "{}" 0]
  by (simp add: synced_def entries_ok_def verify_ledger_integrity_def ledger_of_def)

text \<open>C26: No executed pulse goes unrecorded and the scheduler is never left locked.  Let scheduler and ledger agree (as they do
  for a new pair, and again after every run) and the requests carry trimmed ids and dossiers with
  well-formed digests.  Whatever the tournament, the risk engine and the admission hook do, raising
  included, a harness run that starts records exactly one cycle event per executed pulse, in the order of
  the feed, and leaves scheduler and ledger in agreement with no cycle running.  Either the whole feed is
  executed, or the run raises at the first pulse that the health gate or the scheduler refuses: that pulse
  changes nothing and leaves no record, and the rest of the feed is not consumed.\<close>

theorem harness_records_every_pulse:
  assumes "hex_digests (rd_sha rd)" and "synced (rd_sha rd) es sv" and "sv_health sv \<noteq> RUNTIME_HALTED"
    and "\<forall>rq \<in> set feed. strip (rq_cycle_id rq) = rq_cycle_id rq \<and> list_all valid_sha256 (census rq)"
    and "run_harness rd (new_daemon sv) feed = (dm, res)"
  shows "\<exists>new. synced (rd_sha rd) (es @ new) (dm_supervisor dm)
    \<and> dm_total_cycles dm = int (length new)
    \<and> list_all2 (\<lambda>e rq. ci_cycle_id (oe_identity e) = rq_cycle_id rq \<and> ci_as_of (oe_identity e) = rq_as_of rq
        \<and> oe_wall_clock e = rq_wall_clock rq) new (take (length new) feed)
    \<and> (case res of Inr m \<Rightarrow> length new = length feed \<and> m = int (length feed)
        | Inl x \<Rightarrow> length new < length feed \<and> (\<exists>y. x = PulseRefused y
            \<and> execute_rebalance_cycle rd (dm_supervisor dm) (feed ! length new) = (dm_supervisor dm, Inl y)))"
proof -
  let ?dm = "(new_daemon sv)\<lparr>dm_stop_requested := False, dm_state := RUNNING\<rparr>"
  have start: "daemon_start rd (new_daemon sv) = (?dm, Inr ())"
    using audit_synced [OF assms(2)] assms(3) by (auto simp: daemon_start_def new_daemon_def)
  obtain dm1 res1 where loop: "pulse_loop rd ?dm feed 0 = (dm1, res1)" by fastforce
  have dm: "synced (rd_sha rd) es (dm_supervisor ?dm)" "dm_state ?dm = RUNNING" "\<not> dm_stop_requested ?dm"
      "dm_total_cycles ?dm = 0"
    using assms(2) by (simp_all add: new_daemon_def)
  obtain new where new: "synced (rd_sha rd) (es @ new) (dm_supervisor dm1)"
      "dm_total_cycles dm1 = int (length new)" "\<not> dm_stop_requested dm1"
      "list_all2 (\<lambda>e rq. ci_cycle_id (oe_identity e) = rq_cycle_id rq \<and> ci_as_of (oe_identity e) = rq_as_of rq
        \<and> oe_wall_clock e = rq_wall_clock rq) new (take (length new) feed)"
      "case res1 of Inr m \<Rightarrow> length new = length feed \<and> m = int (length feed)
        | Inl x \<Rightarrow> length new < length feed \<and> (\<exists>y. x = PulseRefused y
            \<and> execute_rebalance_cycle rd (dm_supervisor dm1) (feed ! length new) = (dm_supervisor dm1, Inl y))"
    using pulse_loop_recorded [OF assms(1,4) dm(1-3) loop, unfolded dm(4) add_0] by blast
  have "dm_state (new_daemon sv) \<noteq> RUNNING" by (simp add: new_daemon_def)
  then have "dm = dm1" "res = res1"
    using assms(5) start loop new(3) by (auto simp: run_harness_def split: sum.splits)
  then show ?thesis using new by blast
qed


subsection \<open>Scheduler and ledger out of step\<close>

definition records_fail :: "(string \<Rightarrow> string) \<Rightarrow> supervisor \<Rightarrow> cycle_identity \<Rightarrow> bool" where
  "records_fail sha sv i \<longleftrightarrow> (\<forall>wall r. \<exists>e. record_and_complete sha sv i wall r = (sv, Inl e))"

lemma finish_fails:
  assumes "records_fail sha sv i"
  shows "\<exists>e. finish_cycle sha sv i wall r d report adm = (sv, Inl e)"
proof -
  obtain e where "record_and_complete sha sv i wall r = (sv, Inl e)"
    using assms unfolding records_fail_def by blast
  then show ?thesis by (simp add: finish_cycle_def)
qed

lemma stages_fail:
  assumes "records_fail (rd_sha rd) sv i"
  shows "\<exists>e. run_stages rd sv rq i = (sv, Inl e)"
proof -
  note fin = finish_fails [OF assms]
  have admit: "\<exists>e. admit_cycle rd sv rq i ds d report = (sv, Inl e)" for ds d report
    using fin by (auto simp: admit_cycle_def split: sum.splits)
  have raised: "\<exists>e. hook_raised rd sv rq i ds d report m = (sv, Inl e)" for ds d report m
    using fin by (simp add: hook_raised_def)
  have admission: "\<exists>e. admission_stage rd sv rq i ds d report = (sv, Inl e)" for ds d report
  proof (cases "rq_hook rq")
    case (Some hook)
    obtain e where "finish_cycle (rd_sha rd) sv i (rq_wall_clock rq)
        (blank_record\<lparr>cr_outcome := DISPATCH_FAILED,
          cr_error := Some ''Phase 7 execution admission hook returned False.'',
          cr_dossiers := ds, cr_allocation := al_digest d, cr_risk := rd_report rd report\<rparr>)
        (Some d) (Some report) False = (sv, Inl e)"
      using fin by blast
    then show ?thesis
      using admit raised by (cases "hook report (rq_portfolio rq)") (simp_all add: admission_stage_def Some)
  qed (simp add: admission_stage_def admit)
  have risk: "\<exists>e. risk_stage rd sv rq i ds d = (sv, Inl e)" for ds d
    using fin admission by (auto simp: risk_stage_def split: sum.splits)
  show ?thesis
    using fin risk by (auto simp: run_stages_def tournament_stage_def split: sum.splits)
qed

lemma out_of_step_records_fail:
  assumes "sv_ledger sv = ledger_of sha es" "ci_sequence i \<noteq> int (length es)"
  shows "records_fail sha sv i"
  unfolding records_fail_def
proof (intro allI)
  fix wall r
  show "\<exists>e. record_and_complete sha sv i wall r = (sv, Inl e)"
  proof (cases "mk_cycle_event sha (raw_event sv i wall r)")
    case (Inl e)
    then show ?thesis by (simp add: record_and_complete_def raw_event_def)
  next
    case (Inr e)
    have "ci_sequence (oe_identity e) = ci_sequence i"
      using Inr by (auto simp: mk_cycle_event_Inr raw_event_def normalise_event_def mk_cycle_identity_eq Let_def
          split: if_splits)
    then have "\<exists>x. append_event (sv_ledger sv) e = Inl x"
      using assms by (simp add: append_event_def Let_def) (simp add: ledger_of_def)
    then show ?thesis using Inr by (auto simp: record_and_complete_def raw_event_def)
  qed
qed

text \<open>A supervisor whose scheduler does not carry the ledger's next number (a scheduler created without
  its \<open>initial_sequence\<close> over a ledger from before a restart) locks itself with its first cycle: the cycle
  runs through all stages, the admission hook included, but neither its outcome nor its crash can be
  recorded; the caller gets a crash summary, the ledger is unchanged, the scheduler keeps the cycle as
  running, and every later request is refused without effect.\<close>

theorem unsynced_supervisor_locks:
  assumes "sv_ledger sv = ledger_of (rd_sha rd) es" and "sc_sequence (sv_scheduler sv) \<noteq> int (length es)"
    and "execute_rebalance_cycle rd sv rq = (sv', Inr s)"
  shows "cs_outcome s = INTERRUPTED_CRASH" and "sv_ledger sv' = sv_ledger sv"
    and "is_cycle_active (sv_scheduler sv')" and "\<exists>x. execute_rebalance_cycle rd sv' rq' = (sv', Inl x)"
proof -
  obtain i sc where start: "start_cycle (rd_sha rd) (sv_scheduler sv) (rq_cycle_id rq) (rq_as_of rq)
      (rq_wall_clock rq) (Some REBALANCE_PULSE) = Inr (i, sc)"
    using assms(3) by (auto simp: execute_rebalance_cycle_def split: if_splits sum.splits)
  let ?sv = "sv\<lparr>sv_scheduler := sc\<rparr>"
  have i: "ci_sequence i = sc_sequence (sv_scheduler sv)" "sc_active sc = Some i"
    using start created_identity(3) by (auto simp: start_cycle_Inr)
  have fail: "records_fail (rd_sha rd) ?sv i"
    by (rule out_of_step_records_fail [of _ _ es]) (use assms(1,2) i in simp_all)
  obtain e where "run_stages rd ?sv rq i = (?sv, Inl e)" using stages_fail [OF fail] by blast
  moreover have crash: "fst (crash_cycle rd ?sv i w ds x) = ?sv \<and> cs_outcome (snd (crash_cycle rd ?sv i w ds x)) = INTERRUPTED_CRASH"
    for w ds x
  proof -
    obtain y where "record_and_complete (rd_sha rd) ?sv i w (blank_record\<lparr>cr_outcome := INTERRUPTED_CRASH,
        cr_error := Some (''Unhandled pipeline crash: '' @ rd_error rd x), cr_dossiers := ds\<rparr>) = (?sv, Inl y)"
      using fail unfolding records_fail_def by blast
    then show ?thesis by (simp add: crash_cycle_def Let_def)
  qed
  ultimately have out: "sv' = ?sv" "cs_outcome s = INTERRUPTED_CRASH"
    using assms(3) start by (auto simp: execute_rebalance_cycle_def Let_def case_prod_beta split: if_splits)
  then show "cs_outcome s = INTERRUPTED_CRASH" "sv_ledger sv' = sv_ledger sv" "is_cycle_active (sv_scheduler sv')"
    using i(2) by (simp_all add: is_cycle_active_def)
  obtain x where "start_cycle (rd_sha rd) sc (rq_cycle_id rq') (rq_as_of rq') (rq_wall_clock rq')
      (Some REBALANCE_PULSE) = Inl x"
    using i(2) by (cases "rq_wall_clock rq' < rq_as_of rq'") (simp_all add: start_cycle_def)
  then show "\<exists>x. execute_rebalance_cycle rd sv' rq' = (sv', Inl x)"
    using out(1) by (simp add: execute_rebalance_cycle_def)
qed

subsection \<open>The gates before admission\<close>

text \<open>A report that has passed every gate of the pipeline, which are read in this order.\<close>

definition cleared :: "renderings \<Rightarrow> supervisor \<Rightarrow> 'd cycle_request \<Rightarrow> allocation_decision \<Rightarrow> risk_report \<Rightarrow> bool" where
  "cleared rd sv rq d report \<longleftrightarrow> sv_health sv \<notin> {RUNTIME_PAUSED, RUNTIME_HALTED} \<and> \<not> is_cycle_active (sv_scheduler sv)
     \<and> \<not> stale sv rq
     \<and> rq_tournament rq (active_dossiers rq) (rq_portfolio rq) (rq_as_of rq) = Inr d
     \<and> assert_admission_allowed (sv_kill_switch sv) = Inr ()
     \<and> (\<exists>ca. mk_candidate (al_candidate_id d) (al_allocator d) (al_weights d) (al_cash_weight d) (al_digest d)
             (rq_as_of rq) (rd_candidate rd d (rq_as_of rq)) = Inr ca
         \<and> evaluate_candidate_allocation (rd_portfolio rd) (rd_account_option rd) (sv_risk_policy sv) ca
             (rq_portfolio rq) (Some (rq_account rq)) None None None None True (rq_as_of rq) = Inr report)
     \<and> rr_verdict report \<in> {APPROVED, REDUCED}"

lemma verdict_passes: "rr_verdict r \<notin> {REJECTED_RISK, KILL_SWITCH_BLOCKED} \<longleftrightarrow> rr_verdict r \<in> {APPROVED, REDUCED}"
  by (cases "rr_verdict r") auto

lemma allowed_iff: "assert_admission_allowed c = Inr () \<longleftrightarrow> \<not> is_blocked_state (kc_state c)"
  by (simp add: assert_admission_allowed_def raise_if_def)

lemma finish_admitted:
  "finish_cycle sha sv i wall r d report adm = (sv', Inr s) \<Longrightarrow>
     cs_admitted s = adm \<and> cs_decision s = d \<and> cs_report s = report \<and> cs_outcome s = cr_outcome r \<and> cs_error s = cr_error r"
  by (auto simp: finish_cycle_def Let_def split: prod.splits sum.splits)


lemma admit_cycle_admitted:
  "admit_cycle rd sv rq i ds d report = (sv', Inr s) \<Longrightarrow>
     cs_admitted s \<and> cs_decision s = Some d \<and> cs_report s = Some report \<and> cs_outcome s = SUCCESS \<and> cs_error s = None"
  by (auto simp: admit_cycle_def blank_record_def dest!: finish_admitted split: sum.splits)

lemma admission_stage_admitted:
  assumes "admission_stage rd sv rq i ds d report = (sv', Inr s)" "cs_admitted s"
  shows "cs_decision s = Some d \<and> cs_report s = Some report \<and> cs_outcome s = SUCCESS \<and> cs_error s = None
    \<and> (\<forall>h. rq_hook rq = Some h \<longrightarrow> h report (rq_portfolio rq) = Inr True)"
  using assms
  by (auto simp: admission_stage_def hook_raised_def dest!: admit_cycle_admitted finish_admitted
      split: option.splits sum.splits if_splits prod.splits)

lemma run_stages_admitted:
  assumes "run_stages rd sv rq i = (sv', Inr s)" "cs_admitted s"
  obtains d report where "\<not> stale sv rq"
    and "rq_tournament rq (active_dossiers rq) (rq_portfolio rq) (rq_as_of rq) = Inr d"
    and "admission_stage rd sv rq i (census rq) d report = (sv', Inr s)" "\<not> is_blocked_state (kc_state (sv_kill_switch sv))"
    and "\<exists>ca. mk_candidate (al_candidate_id d) (al_allocator d) (al_weights d) (al_cash_weight d) (al_digest d)
             (rq_as_of rq) (rd_candidate rd d (rq_as_of rq)) = Inr ca
         \<and> evaluate_candidate_allocation (rd_portfolio rd) (rd_account_option rd) (sv_risk_policy sv) ca
             (rq_portfolio rq) (Some (rq_account rq)) None None None None True (rq_as_of rq) = Inr report"
    and "rr_verdict report \<in> {APPROVED, REDUCED}"
proof -
  have ns: "\<not> stale sv rq" using assms by (auto simp: run_stages_def dest: finish_admitted split: if_splits)
  then obtain d where d: "rq_tournament rq (active_dossiers rq) (rq_portfolio rq) (rq_as_of rq) = Inr d"
      "risk_stage rd sv rq i (census rq) d = (sv', Inr s)"
    using assms by (auto simp: run_stages_def tournament_stage_def dest: finish_admitted split: sum.splits)
  then have nb: "\<not> is_blocked_state (kc_state (sv_kill_switch sv))"
    using assms(2) by (auto simp: risk_stage_def dest: finish_admitted split: if_splits)
  then obtain ca report where "mk_candidate (al_candidate_id d) (al_allocator d) (al_weights d) (al_cash_weight d)
        (al_digest d) (rq_as_of rq) (rd_candidate rd d (rq_as_of rq)) = Inr ca"
      "evaluate_candidate_allocation (rd_portfolio rd) (rd_account_option rd) (sv_risk_policy sv) ca
        (rq_portfolio rq) (Some (rq_account rq)) None None None None True (rq_as_of rq) = Inr report"
      "rr_verdict report \<notin> {REJECTED_RISK, KILL_SWITCH_BLOCKED}"
      "admission_stage rd sv rq i (census rq) d report = (sv', Inr s)"
    using d(2) assms(2) by (auto simp: risk_stage_def dest: finish_admitted split: sum.splits if_splits)
  then show thesis using that [OF ns d(1)] nb verdict_passes by blast
qed

lemma hook_free:
  "admit_cycle rd sv (rq\<lparr>rq_hook := h\<rparr>) i ds d r = admit_cycle rd sv rq i ds d r"
  "hook_raised rd sv (rq\<lparr>rq_hook := h\<rparr>) i ds d r m = hook_raised rd sv rq i ds d r m"
  by (simp_all add: admit_cycle_def hook_raised_def split: sum.splits)

lemma stages_hook_cong:
  assumes "\<And>d r. rq_tournament rq (active_dossiers rq) (rq_portfolio rq) (rq_as_of rq) = Inr d
      \<Longrightarrow> \<not> stale sv rq \<Longrightarrow> assert_admission_allowed (sv_kill_switch sv) = Inr ()
      \<Longrightarrow> \<exists>ca. mk_candidate (al_candidate_id d) (al_allocator d) (al_weights d) (al_cash_weight d) (al_digest d)
             (rq_as_of rq) (rd_candidate rd d (rq_as_of rq)) = Inr ca
         \<and> evaluate_candidate_allocation (rd_portfolio rd) (rd_account_option rd) (sv_risk_policy sv) ca
             (rq_portfolio rq) (Some (rq_account rq)) None None None None True (rq_as_of rq) = Inr r
      \<Longrightarrow> rr_verdict r \<in> {APPROVED, REDUCED} \<Longrightarrow> h r (rq_portfolio rq) = h' r (rq_portfolio rq)"
  shows "run_stages rd sv (rq\<lparr>rq_hook := Some h\<rparr>) i = run_stages rd sv (rq\<lparr>rq_hook := Some h'\<rparr>) i"
proof (cases "\<not> stale sv rq \<and> \<not> is_blocked_state (kc_state (sv_kill_switch sv))")
  case False
  then show ?thesis
    by (auto simp: run_stages_def tournament_stage_def risk_stage_def stale_def active_dossiers_def census_def
        split: sum.splits)
next
  case True
  have adm: "admission_stage rd sv (rq\<lparr>rq_hook := Some h\<rparr>) i ds d r = admission_stage rd sv (rq\<lparr>rq_hook := Some h'\<rparr>) i ds d r"
    if "h r (rq_portfolio rq) = h' r (rq_portfolio rq)" for ds d r
    using that by (simp add: admission_stage_def hook_free cong: sum.case_cong prod.case_cong if_cong)
  show ?thesis
    using True
  proof (simp add: run_stages_def tournament_stage_def risk_stage_def stale_def active_dossiers_def census_def
      hook_free split: sum.splits, intro allI impI, elim conjE)
    fix d ca r
    assume "rq_tournament rq (filter (\<lambda>d. ds_state d = RESEARCH_QUALIFIED) (rq_dossiers rq)) (rq_portfolio rq)
        (rq_as_of rq) = Inr d"
      and "mk_candidate (al_candidate_id d) (al_allocator d) (al_weights d) (al_cash_weight d) (al_digest d)
        (rq_as_of rq) (rd_candidate rd d (rq_as_of rq)) = Inr ca"
      and "evaluate_candidate_allocation (rd_portfolio rd) (rd_account_option rd) (sv_risk_policy sv) ca
        (rq_portfolio rq) (Some (rq_account rq)) None None None None True (rq_as_of rq) = Inr r"
      and "rr_verdict r \<noteq> REJECTED_RISK" "rr_verdict r \<noteq> KILL_SWITCH_BLOCKED"
    then have "h r (rq_portfolio rq) = h' r (rq_portfolio rq)"
      using assms [of d r] verdict_passes [of r] True by (auto simp: active_dossiers_def allowed_iff)
    then show "admission_stage rd sv (rq\<lparr>rq_hook := Some h\<rparr>) i (sort (map ds_digest
          (filter (\<lambda>d. ds_state d = RESEARCH_QUALIFIED) (rq_dossiers rq)))) d r
        = admission_stage rd sv (rq\<lparr>rq_hook := Some h'\<rparr>) i (sort (map ds_digest
          (filter (\<lambda>d. ds_state d = RESEARCH_QUALIFIED) (rq_dossiers rq)))) d r"
      by (rule adm)
  qed
qed

text \<open>C25: Nothing is admitted behind the gates' back.  A summary that admits a cycle reports a risk evaluation
  that approved or reduced the tournament's decision, on fresh data, under an open kill switch and a
  supervisor neither paused nor halted, with a hook that returned true if there is one; and the hook,
  through which orders leave, is consulted on such a cleared report only: two hooks that agree on the
  cleared reports give the same run.\<close>

theorem admission_behind_the_gates:
  shows "(execute_rebalance_cycle rd sv rq = (sv', Inr s) \<longrightarrow> cs_admitted s \<longrightarrow>
      (\<exists>d report. cleared rd sv rq d report \<and> cs_decision s = Some d \<and> cs_report s = Some report
        \<and> cs_outcome s = SUCCESS \<and> cs_error s = None
        \<and> (\<forall>h. rq_hook rq = Some h \<longrightarrow> h report (rq_portfolio rq) = Inr True)))
    \<and> ((\<forall>d report. cleared rd sv rq d report \<longrightarrow> h report (rq_portfolio rq) = h' report (rq_portfolio rq)) \<longrightarrow>
      execute_rebalance_cycle rd sv (rq\<lparr>rq_hook := Some h\<rparr>) = execute_rebalance_cycle rd sv (rq\<lparr>rq_hook := Some h'\<rparr>))"
proof (intro conjI impI)
  assume ex: "execute_rebalance_cycle rd sv rq = (sv', Inr s)" and adm: "cs_admitted s"
  obtain i sc where h: "sv_health sv \<notin> {RUNTIME_PAUSED, RUNTIME_HALTED}" and
    start: "start_cycle (rd_sha rd) (sv_scheduler sv) (rq_cycle_id rq) (rq_as_of rq)
      (rq_wall_clock rq) (Some REBALANCE_PULSE) = Inr (i, sc)"
    using ex by (auto simp: execute_rebalance_cycle_def split: if_splits sum.splits)
  have "run_stages rd (sv\<lparr>sv_scheduler := sc\<rparr>) rq i = (sv', Inr s)"
    using ex adm h start by (auto simp: execute_rebalance_cycle_def crash_cycle_def Let_def
        split: prod.splits sum.splits if_splits)
  then obtain d report where r: "\<not> stale (sv\<lparr>sv_scheduler := sc\<rparr>) rq"
      "rq_tournament rq (active_dossiers rq) (rq_portfolio rq) (rq_as_of rq) = Inr d"
      "admission_stage rd (sv\<lparr>sv_scheduler := sc\<rparr>) rq i (census rq) d report = (sv', Inr s)"
      "\<not> is_blocked_state (kc_state (sv_kill_switch (sv\<lparr>sv_scheduler := sc\<rparr>)))"
      "\<exists>ca. mk_candidate (al_candidate_id d) (al_allocator d) (al_weights d) (al_cash_weight d) (al_digest d)
             (rq_as_of rq) (rd_candidate rd d (rq_as_of rq)) = Inr ca
         \<and> evaluate_candidate_allocation (rd_portfolio rd) (rd_account_option rd)
             (sv_risk_policy (sv\<lparr>sv_scheduler := sc\<rparr>)) ca
             (rq_portfolio rq) (Some (rq_account rq)) None None None None True (rq_as_of rq) = Inr report"
      "rr_verdict report \<in> {APPROVED, REDUCED}"
    using run_stages_admitted adm by metis
  have "cleared rd sv rq d report"
    using h r start by (simp add: cleared_def stale_def allowed_iff is_cycle_active_def start_cycle_Inr)
  then show "\<exists>d report. cleared rd sv rq d report \<and> cs_decision s = Some d \<and> cs_report s = Some report
        \<and> cs_outcome s = SUCCESS \<and> cs_error s = None
        \<and> (\<forall>h. rq_hook rq = Some h \<longrightarrow> h report (rq_portfolio rq) = Inr True)"
    using admission_stage_admitted [OF r(3) adm] by blast
next
  assume "\<forall>d report. cleared rd sv rq d report \<longrightarrow> h report (rq_portfolio rq) = h' report (rq_portfolio rq)"
  then have agree: "\<And>d report. cleared rd sv rq d report \<Longrightarrow> h report (rq_portfolio rq) = h' report (rq_portfolio rq)"
    by blast
  show "execute_rebalance_cycle rd sv (rq\<lparr>rq_hook := Some h\<rparr>) = execute_rebalance_cycle rd sv (rq\<lparr>rq_hook := Some h'\<rparr>)"
  proof (cases "\<exists>i sc. sv_health sv \<notin> {RUNTIME_PAUSED, RUNTIME_HALTED} \<and>
      start_cycle (rd_sha rd) (sv_scheduler sv) (rq_cycle_id rq) (rq_as_of rq) (rq_wall_clock rq)
        (Some REBALANCE_PULSE) = Inr (i, sc)")
    case True
    then obtain i sc where st: "sv_health sv \<notin> {RUNTIME_PAUSED, RUNTIME_HALTED}"
        "start_cycle (rd_sha rd) (sv_scheduler sv) (rq_cycle_id rq) (rq_as_of rq) (rq_wall_clock rq)
          (Some REBALANCE_PULSE) = Inr (i, sc)" by blast
    have "run_stages rd (sv\<lparr>sv_scheduler := sc\<rparr>) (rq\<lparr>rq_hook := Some h\<rparr>) i
        = run_stages rd (sv\<lparr>sv_scheduler := sc\<rparr>) (rq\<lparr>rq_hook := Some h'\<rparr>) i"
      by (rule stages_hook_cong, rule agree)
        (use st in \<open>auto simp: cleared_def stale_def is_cycle_active_def start_cycle_Inr\<close>)
    then show ?thesis
      using st by (simp add: execute_rebalance_cycle_def stale_def census_def active_dossiers_def)
  next
    case False
    then show ?thesis by (auto simp: execute_rebalance_cycle_def split: sum.splits)
  qed
qed


subsection \<open>Concrete cycles\<close>

definition zero_renderings :: renderings where
  "zero_renderings = \<lparr>rd_sha = \<lambda>_. zero_digest, rd_portfolio = \<lambda>_. zero_digest,
     rd_account_option = \<lambda>_. zero_digest, rd_candidate = \<lambda>_ _. zero_digest, rd_snapshot = \<lambda>_ _. zero_digest,
     rd_account = \<lambda>_. zero_digest, rd_report = \<lambda>_. zero_digest, rd_error = \<lambda>_. ''error'',
     rd_reason = \<lambda>_. ''reason''\<rparr>"

definition sample_account :: account_state where
  "sample_account = \<lparr>acc_id = ''ACC'', acc_currency = ''USD'', acc_balance = 6000, acc_equity = 6000,
     acc_free_margin = 6000, acc_margin_level_pct = None, acc_leverage = 1, acc_is_live = False, acc_timestamp = 1\<rparr>"

definition all_cash :: allocation_decision where
  "all_cash = \<lparr>al_candidate_id = ''CAND'', al_allocator = ''CASH'', al_weights = [], al_cash_weight = Fin 1,
     al_digest = zero_digest\<rparr>"

definition sample_request :: "string \<Rightarrow> unit cycle_request" where
  "sample_request cid = \<lparr>rq_cycle_id = cid, rq_as_of = friday_pulse, rq_wall_clock = friday_pulse + 5,
     rq_portfolio = sample_portfolio, rq_account = sample_account, rq_dossiers = [],
     rq_tournament = \<lambda>_ _ _. Inr all_cash, rq_data_age_ms = 0, rq_hook = Some (\<lambda>_ _. Inr True)\<rparr>"

definition sample_supervisor :: supervisor where
  "sample_supervisor = \<lparr>sv_scheduler = idle_scheduler, sv_ledger = ledger_of (\<lambda>_. zero_digest) [],
     sv_risk_policy = half_leverage, sv_kill_switch = sample_controller, sv_policy = default_runtime_policy,
     sv_health = RUNTIME_HEALTHY\<rparr>"

lemma sample_synced: "synced (rd_sha zero_renderings) [] sample_supervisor"
  by (simp add: synced_def sample_supervisor_def zero_renderings_def idle_scheduler_def empty_ledger(2))

lemma sample_request_ok: "strip (rq_cycle_id (sample_request ''C1'')) = rq_cycle_id (sample_request ''C1'')"
  "list_all valid_sha256 (census (sample_request ''C1''))" "hex_digests (rd_sha zero_renderings)"
  by (simp_all add: sample_request_def strip_C1 census_def active_dossiers_def zero_renderings_def zero_digest_hex)

lemma sample_evaluation:
  obtains ca r where "mk_candidate (al_candidate_id all_cash) (al_allocator all_cash) (al_weights all_cash)
      (al_cash_weight all_cash) (al_digest all_cash) friday_pulse zero_digest = Inr ca"
    and "evaluate_candidate_allocation (\<lambda>_. zero_digest) (\<lambda>_. zero_digest) half_leverage ca
      sample_portfolio (Some sample_account) None None None None True friday_pulse = Inr r"
    and "rr_verdict r = APPROVED"
proof -
  let ?ca = "\<lparr>ca_id = ''CAND'', ca_strategy = ''CASH'', ca_weights = [], ca_cash_weight = 1,
    ca_source_digest = zero_digest, ca_as_of = friday_pulse, ca_digest = zero_digest\<rparr>"
  have c: "mk_candidate (al_candidate_id all_cash) (al_allocator all_cash) (al_weights all_cash)
      (al_cash_weight all_cash) (al_digest all_cash) friday_pulse zero_digest = Inr ?ca"
    by (simp add: mk_candidate_def all_cash_def)
  have one: "dsub 1 0 = 1" "dadd 7 0 = 7" "dneg 10000 = -10000" by (simp_all add: dec_ops dec_eval)
  have "\<exists>r. evaluate_candidate_allocation (\<lambda>_. zero_digest) (\<lambda>_. zero_digest) half_leverage ?ca
      sample_portfolio (Some sample_account) None None None None True friday_pulse = Inr r \<and> rr_verdict r = APPROVED"
    by (simp add: evaluate_candidate_allocation_def Let_def sample_portfolio_def historical_peak_def one
        evaluate_and_derisk_def sample_account_def half_leverage_def default_policy_def drawdown_pct_def
        mk_report_def)
  then show thesis using c that by blast
qed


lemma sample_pulse:
  "start_cycle (rd_sha zero_renderings) (sv_scheduler sample_supervisor) ''C1'' friday_pulse (friday_pulse + 5)
     (Some REBALANCE_PULSE) = Inr (sample_identity (\<lambda>_. zero_digest),
       idle_scheduler\<lparr>sc_active := Some (sample_identity (\<lambda>_. zero_digest)),
         sc_last_as_of := Some friday_pulse, sc_last_wall := Some (friday_pulse + 5)\<rparr>)"
  by (simp add: start_cycle_def idle_scheduler_def mk_cycle_identity_eq strip_C1 sample_identity_def
      rolled_back_def Let_def zero_renderings_def sample_supervisor_def)

lemma sample_admitted:
  obtains sv s where "execute_rebalance_cycle zero_renderings sample_supervisor (sample_request ''C1'') = (sv, Inr s)"
    and "cs_admitted s"
proof -
  define i where "i = sample_identity (\<lambda>_. zero_digest)"
  define sc where "sc = idle_scheduler\<lparr>sc_active := Some i, sc_last_as_of := Some friday_pulse,
    sc_last_wall := Some (friday_pulse + 5)\<rparr>"
  define sv1 where "sv1 = sample_supervisor\<lparr>sv_scheduler := sc\<rparr>"
  have start: "start_cycle (rd_sha zero_renderings) (sv_scheduler sample_supervisor) ''C1'' friday_pulse
      (friday_pulse + 5) (Some REBALANCE_PULSE) = Inr (i, sc)"
    using sample_pulse by (simp add: i_def sc_def)
  have aw: "awaiting (rd_sha zero_renderings) [] sv1 i (friday_pulse + 5)"
    unfolding sv1_def by (rule started_awaiting(1) [OF sample_synced strip_C1(1) start])
  obtain ca r where eval: "mk_candidate (al_candidate_id all_cash) (al_allocator all_cash) (al_weights all_cash)
      (al_cash_weight all_cash) (al_digest all_cash) friday_pulse zero_digest = Inr ca"
      "evaluate_candidate_allocation (\<lambda>_. zero_digest) (\<lambda>_. zero_digest) half_leverage ca
        sample_portfolio (Some sample_account) None None None None True friday_pulse = Inr r"
      "rr_verdict r = APPROVED"
    by (rule sample_evaluation)
  obtain snap where snap: "portfolio_state_to_risk_snapshot zero_renderings sample_portfolio sample_account = Inr snap"
      "as_digest snap = zero_digest"
    by (simp add: portfolio_state_to_risk_snapshot_def sample_portfolio_def sample_account_def historical_peak_def
        zero_renderings_def)
  define rec where "rec = blank_record\<lparr>cr_portfolio := zero_digest, cr_account := zero_digest,
    cr_allocation := zero_digest, cr_risk := zero_digest\<rparr>"
  have valid: "digests_valid rec"
    using strip_digest [OF zero_digest_hex]
    by (simp add: digests_valid_def rec_def blank_record_def optional_digest_bad_def)
  then obtain sv2 where rec: "record_and_complete (rd_sha zero_renderings) sv1 i (friday_pulse + 5) rec = (sv2, Inr ())"
    using record_awaiting [OF sample_request_ok(3) aw, of rec] by blast
  have "run_stages zero_renderings sv1 (sample_request ''C1'') i
      = finish_cycle (rd_sha zero_renderings) sv1 i (friday_pulse + 5) rec (Some all_cash) (Some r) True"
    using eval snap
    by (simp add: run_stages_def stale_def tournament_stage_def risk_stage_def admission_stage_def admit_cycle_def
        sample_request_def sv1_def sample_supervisor_def default_runtime_policy_def sample_controller_def
        is_blocked_state_def active_dossiers_def census_def zero_renderings_def rec_def all_cash_def)
      (simp add: blank_record_def)
  then obtain s where "run_stages zero_renderings sv1 (sample_request ''C1'') i = (sv2, Inr s)" "cs_admitted s"
    using rec by (simp add: finish_cycle_def)
  moreover have "sv_health sample_supervisor = RUNTIME_HEALTHY" by (simp add: sample_supervisor_def)
  ultimately have "execute_rebalance_cycle zero_renderings sample_supervisor (sample_request ''C1'') = (sv2, Inr s)"
    using start by (simp add: execute_rebalance_cycle_def sample_request_def sv1_def)
  then show thesis using \<open>cs_admitted s\<close> that by blast
qed

theorem admission_behind_the_gates_witness:
  "\<exists>sv s d report. execute_rebalance_cycle zero_renderings sample_supervisor (sample_request ''C1'') = (sv, Inr s)
     \<and> cs_admitted s \<and> cleared zero_renderings sample_supervisor (sample_request ''C1'') d report"
proof -
  obtain sv s where a: "execute_rebalance_cycle zero_renderings sample_supervisor (sample_request ''C1'') = (sv, Inr s)"
      "cs_admitted s" by (rule sample_admitted)
  then show ?thesis using admission_behind_the_gates [of zero_renderings sample_supervisor] by blast
qed

theorem harness_records_every_pulse_witness:
  "\<exists>e dm. run_harness zero_renderings (new_daemon sample_supervisor) [sample_request ''C1''] = (dm, Inr 1)
     \<and> synced (rd_sha zero_renderings) [e] (dm_supervisor dm) \<and> ci_cycle_id (oe_identity e) = ''C1''"
proof -
  obtain sv s where a: "execute_rebalance_cycle zero_renderings sample_supervisor (sample_request ''C1'') = (sv, Inr s)"
      "cs_admitted s" by (rule sample_admitted)
  have h: "sv_health sample_supervisor \<noteq> RUNTIME_HALTED" by (simp add: sample_supervisor_def)
  obtain dm res where run: "run_harness zero_renderings (new_daemon sample_supervisor) [sample_request ''C1''] = (dm, res)"
    by fastforce
  have "daemon_start zero_renderings (new_daemon sample_supervisor)
      = ((new_daemon sample_supervisor)\<lparr>dm_stop_requested := False, dm_state := RUNNING\<rparr>, Inr ())"
    using audit_synced [OF sample_synced] h by (simp add: daemon_start_def new_daemon_def)
  then have "res = Inr 1"
    using run a(1) by (auto simp: run_harness_def new_daemon_def step_pulse_def split: prod.splits sum.splits)
  moreover obtain new where new: "synced (rd_sha zero_renderings) ([] @ new) (dm_supervisor dm)"
      "list_all2 (\<lambda>e rq. ci_cycle_id (oe_identity e) = rq_cycle_id rq \<and> ci_as_of (oe_identity e) = rq_as_of rq
        \<and> oe_wall_clock e = rq_wall_clock rq) new (take (length new) [sample_request ''C1''])"
      "length new = 1"
    using harness_records_every_pulse [OF sample_request_ok(3) sample_synced h _ run] sample_request_ok(1,2) calculation
    by auto
  ultimately show ?thesis
    using run by (cases new) (auto simp: sample_request_def)
qed

theorem unsynced_supervisor_locks_witness:
  "\<exists>sv s. execute_rebalance_cycle zero_renderings
       (sample_supervisor\<lparr>sv_scheduler := idle_scheduler\<lparr>sc_sequence := 1\<rparr>\<rparr>) (sample_request ''C1'') = (sv, Inr s)
     \<and> cs_outcome s = INTERRUPTED_CRASH \<and> is_cycle_active (sv_scheduler sv)"
proof -
  let ?sv = "sample_supervisor\<lparr>sv_scheduler := idle_scheduler\<lparr>sc_sequence := 1\<rparr>\<rparr>"
  obtain i sc where "start_cycle (rd_sha zero_renderings) (idle_scheduler\<lparr>sc_sequence := 1\<rparr>) ''C1'' friday_pulse
      (friday_pulse + 5) (Some REBALANCE_PULSE) = Inr (i, sc)"
    by (simp add: start_cycle_def idle_scheduler_def mk_cycle_identity_eq strip_C1 rolled_back_def Let_def)
  then have "\<exists>sv s. execute_rebalance_cycle zero_renderings ?sv (sample_request ''C1'') = (sv, Inr s)"
    by (simp add: execute_rebalance_cycle_def sample_request_def sample_supervisor_def Let_def
        split: prod.splits sum.splits)
  then obtain sv s where ex: "execute_rebalance_cycle zero_renderings ?sv (sample_request ''C1'') = (sv, Inr s)" by blast
  have l: "sv_ledger ?sv = ledger_of (rd_sha zero_renderings) []"
    by (simp add: sample_supervisor_def zero_renderings_def)
  have n: "sc_sequence (sv_scheduler ?sv) \<noteq> int (length ([] :: cycle_event list))" by simp
  from unsynced_supervisor_locks(1,3) [OF l n ex] ex show ?thesis by blast
qed

end
