(* ===== verification/ForwardHealth.thy ===== *)
theory ForwardHealth
  imports DecimalText HashChain PyTime
begin

section \<open>Forward health monitoring\<close>

text \<open>
  \<open>monitoring/schema.py\<close> (policy, window metrics, drift evidence) and \<open>monitoring/state_machine.py\<close>: the
  deterministic classification of a running strategy from its forward metrics, with its precedence of
  causes and its asymmetric hysteresis.  Decimals are decimal objects, since the digests hash their texts;
  the comparisons read their values.  All decimals are finite.
\<close>

subsection \<open>Policy, metrics and evidence\<close>

datatype forward_health =
    INSUFFICIENT_EVIDENCE | HEALTHY | DEGRADED | STRUCTURAL_BREAK | MONITORING_BLOCKED
datatype forward_recommendation =
    CONTINUE_UNRESTRICTED | DEGRADED_PROBATION | RECOMMEND_EXCLUSION | RECOMMEND_RETIREMENT
  | MONITORING_BLOCKED_FLAG

fun forward_health_value :: "forward_health \<Rightarrow> string" where
  "forward_health_value INSUFFICIENT_EVIDENCE = ''INSUFFICIENT_EVIDENCE''"
| "forward_health_value HEALTHY = ''HEALTHY''"
| "forward_health_value DEGRADED = ''DEGRADED''"
| "forward_health_value STRUCTURAL_BREAK = ''STRUCTURAL_BREAK''"
| "forward_health_value MONITORING_BLOCKED = ''MONITORING_BLOCKED''"

fun recommendation_value :: "forward_recommendation \<Rightarrow> string" where
  "recommendation_value CONTINUE_UNRESTRICTED = ''CONTINUE_UNRESTRICTED''"
| "recommendation_value DEGRADED_PROBATION = ''DEGRADED_PROBATION''"
| "recommendation_value RECOMMEND_EXCLUSION = ''RECOMMEND_EXCLUSION''"
| "recommendation_value RECOMMEND_RETIREMENT = ''RECOMMEND_RETIREMENT''"
| "recommendation_value MONITORING_BLOCKED_FLAG = ''MONITORING_BLOCKED_FLAG''"

datatype monitoring_error =
    InvalidObservationWindow int int
  | HysteresisViolated int int
  | NegativeCooldown int
  | DrawdownLimitRange
  | DigestFormat string
  | DigestMismatch string
  | PayloadFailed data_contract_error

record health_policy =
  hp_min_observations :: int
  hp_window_size :: int
  hp_degradation_n :: int
  hp_recovery_m :: int
  hp_cooldown :: int
  hp_min_sharpe :: py_decimal
  hp_max_decay :: py_decimal
  hp_critical_drawdown :: py_decimal
  hp_critical_loss_bps :: py_decimal
  hp_digest :: string

definition health_policy_payload :: "health_policy \<Rightarrow> py_value" where
  "health_policy_payload p =
     PDict [(KStr ''min_observations'', PInt (hp_min_observations p)),
            (KStr ''rolling_window_size'', PInt (hp_window_size p)),
            (KStr ''degradation_persistence_n'', PInt (hp_degradation_n p)),
            (KStr ''recovery_persistence_m'', PInt (hp_recovery_m p)),
            (KStr ''recovery_cooldown_periods'', PInt (hp_cooldown p)),
            (KStr ''min_acceptable_sharpe'', PStr (dec_str (hp_min_sharpe p))),
            (KStr ''max_sharpe_decay_pct'', PStr (dec_str (hp_max_decay p))),
            (KStr ''critical_drawdown_limit'', PStr (dec_str (hp_critical_drawdown p))),
            (KStr ''critical_cumulative_loss_bps'', PStr (dec_str (hp_critical_loss_bps p)))]"

text \<open>A supplied digest must be well formed and equal the computed one; an empty one is filled in.\<close>

definition settle_digest ::
    "(string \<Rightarrow> string) \<Rightarrow> py_value \<Rightarrow> string \<Rightarrow> string \<Rightarrow> monitoring_error + string" where
  "settle_digest sha payload supplied field_name =
     (case compute_sha256 sha payload of
        Inl e \<Rightarrow> Inl (PayloadFailed e)
      | Inr computed \<Rightarrow>
          if supplied = [] then Inr computed
          else raise_if (\<not> valid_sha256 supplied) (DigestFormat field_name) (
               raise_if (supplied \<noteq> computed) (DigestMismatch field_name) (Inr supplied)))"

definition mk_health_policy :: "(string \<Rightarrow> string) \<Rightarrow> health_policy \<Rightarrow> monitoring_error + health_policy" where
  "mk_health_policy sha p =
     raise_if (hp_min_observations p \<le> 0 \<or> hp_window_size p < hp_min_observations p)
       (InvalidObservationWindow (hp_min_observations p) (hp_window_size p)) (
     raise_if (hp_degradation_n p \<le> 0 \<or> hp_recovery_m p \<le> hp_degradation_n p)
       (HysteresisViolated (hp_degradation_n p) (hp_recovery_m p)) (
     raise_if (hp_cooldown p < 0) (NegativeCooldown (hp_cooldown p)) (
     raise_if (dec_value (hp_critical_drawdown p) \<le> 0 \<or> dec_value (hp_critical_drawdown p) > 1) DrawdownLimitRange (
     rbind (settle_digest sha (health_policy_payload p) (hp_digest p) ''policy_digest'') (\<lambda>d.
       Inr (p\<lparr>hp_digest := d\<rparr>))))))"

record window_metrics =
  wm_window_size :: int
  wm_observation_count :: int
  wm_mean_return :: py_decimal
  wm_volatility :: py_decimal
  wm_sharpe :: py_decimal
  wm_max_drawdown :: py_decimal
  wm_inception_drawdown :: py_decimal
  wm_hit_rate :: py_decimal
  wm_tracking_error :: "py_decimal option"
  wm_t_stat :: py_decimal
  wm_divergence_bps :: "py_decimal option"
  wm_information_coefficient :: "py_decimal option"
  wm_ic_slope :: "py_decimal option"

record drift_evidence =
  de_evidence_id :: string
  de_strategy :: string
  de_dossier :: string
  de_as_of :: time
  de_wall_clock :: time
  de_health :: forward_health
  de_recommendation :: forward_recommendation
  de_metrics :: window_metrics
  de_policy_digest :: string
  de_degraded :: int
  de_recovery :: int
  de_flags :: "string list"
  de_digest :: string

definition optional_decimal :: "py_decimal option \<Rightarrow> py_value" where
  "optional_decimal v = (case v of None \<Rightarrow> PNone | Some d \<Rightarrow> PStr (dec_str d))"

definition metrics_payload :: "window_metrics \<Rightarrow> py_value" where
  "metrics_payload m =
     PDict [(KStr ''window_size'', PInt (wm_window_size m)),
            (KStr ''observation_count'', PInt (wm_observation_count m)),
            (KStr ''mean_realized_return_annualized'', PStr (dec_str (wm_mean_return m))),
            (KStr ''realized_volatility_annualized'', PStr (dec_str (wm_volatility m))),
            (KStr ''realized_sharpe_ratio'', PStr (dec_str (wm_sharpe m))),
            (KStr ''max_drawdown'', PStr (dec_str (wm_max_drawdown m))),
            (KStr ''inception_max_drawdown'', PStr (dec_str (wm_inception_drawdown m))),
            (KStr ''hit_rate'', PStr (dec_str (wm_hit_rate m))),
            (KStr ''tracking_error_annualized'', optional_decimal (wm_tracking_error m)),
            (KStr ''t_stat_decay'', PStr (dec_str (wm_t_stat m))),
            (KStr ''expected_vs_realized_divergence_bps'', optional_decimal (wm_divergence_bps m)),
            (KStr ''information_coefficient'', optional_decimal (wm_information_coefficient m)),
            (KStr ''ic_decay_slope'', optional_decimal (wm_ic_slope m))]"

definition evidence_payload_of :: "drift_evidence \<Rightarrow> py_value" where
  "evidence_payload_of e =
     PDict [(KStr ''evidence_id'', PStr (de_evidence_id e)), (KStr ''strategy_id'', PStr (de_strategy e)),
            (KStr ''dossier_digest'', PStr (de_dossier e)),
            (KStr ''as_of_utc'', PStr (isoformat (de_as_of e))),
            (KStr ''wall_clock_utc'', PStr (isoformat (de_wall_clock e))),
            (KStr ''health_state'', PStr (forward_health_value (de_health e))),
            (KStr ''recommendation'', PStr (recommendation_value (de_recommendation e))),
            (KStr ''metrics'', metrics_payload (de_metrics e)),
            (KStr ''policy_digest'', PStr (de_policy_digest e)),
            (KStr ''consecutive_degraded_periods'', PInt (de_degraded e)),
            (KStr ''consecutive_recovery_periods'', PInt (de_recovery e)),
            (KStr ''drift_flags'', PList (map PStr (de_flags e)))]"

definition mk_drift_evidence :: "(string \<Rightarrow> string) \<Rightarrow> drift_evidence \<Rightarrow> monitoring_error + drift_evidence" where
  "mk_drift_evidence sha e =
     raise_if (\<not> valid_sha256 (de_dossier e)) (DigestFormat ''dossier_digest'') (
     raise_if (\<not> valid_sha256 (de_policy_digest e)) (DigestFormat ''policy_digest'') (
     rbind (settle_digest sha (evidence_payload_of e) (de_digest e) ''evidence_digest'') (\<lambda>d.
       Inr (e\<lparr>de_digest := d\<rparr>))))"

subsection \<open>The state machine\<close>

record health_step =
  hs_state :: forward_health
  hs_recommendation :: forward_recommendation
  hs_degraded :: int
  hs_recovery :: int
  hs_cooldown :: int
  hs_flags :: "string list"

text \<open>\<open>_detect_period_degradation\<close>.\<close>

definition degradation_flags :: "health_policy \<Rightarrow> window_metrics \<Rightarrow> py_decimal option \<Rightarrow> string list" where
  "degradation_flags p m baseline =
     (if dec_value (wm_sharpe m) < dec_value (hp_min_sharpe p) then [''SHARPE_BELOW_MINIMUM''] else [])
     @ (case baseline of
          None \<Rightarrow> []
        | Some b \<Rightarrow>
            if dec_value b > 0
               \<and> ddiv (dsub (dec_value b) (dec_value (wm_sharpe m))) (dec_value b) > dec_value (hp_max_decay p)
            then [''SHARPE_EXCESSIVE_DECAY''] else [])"

definition evaluate_step ::
    "health_policy \<Rightarrow> forward_health \<Rightarrow> window_metrics \<Rightarrow> int \<Rightarrow> int \<Rightarrow> int \<Rightarrow> bool \<Rightarrow> py_decimal option \<Rightarrow> health_step" where
  "evaluate_step p current m degraded recovery cooldown telemetry_valid baseline =
     (if \<not> telemetry_valid then
        \<lparr>hs_state = MONITORING_BLOCKED, hs_recommendation = MONITORING_BLOCKED_FLAG, hs_degraded = degraded,
         hs_recovery = 0, hs_cooldown = cooldown, hs_flags = [''TELEMETRY_CORRUPTED'']\<rparr>
      else if dec_value (wm_inception_drawdown m) \<ge> dec_value (hp_critical_drawdown p) then
        \<lparr>hs_state = STRUCTURAL_BREAK, hs_recommendation = RECOMMEND_EXCLUSION, hs_degraded = degraded + 1,
         hs_recovery = 0, hs_cooldown = 0, hs_flags = [''CRITICAL_DRAWDOWN_BREACH'']\<rparr>
      else if current = STRUCTURAL_BREAK then
        \<lparr>hs_state = STRUCTURAL_BREAK, hs_recommendation = RECOMMEND_EXCLUSION, hs_degraded = degraded,
         hs_recovery = 0, hs_cooldown = 0, hs_flags = [''ABSORBING_STRUCTURAL_BREAK'']\<rparr>
      else if current = MONITORING_BLOCKED then
        \<lparr>hs_state = INSUFFICIENT_EVIDENCE, hs_recommendation = CONTINUE_UNRESTRICTED, hs_degraded = 0,
         hs_recovery = 0, hs_cooldown = 0, hs_flags = [''TELEMETRY_RESTORED_RESET_TO_INSUFFICIENT_EVIDENCE'']\<rparr>
      else if wm_observation_count m < hp_min_observations p then
        \<lparr>hs_state = INSUFFICIENT_EVIDENCE, hs_recommendation = CONTINUE_UNRESTRICTED, hs_degraded = 0,
         hs_recovery = 0, hs_cooldown = 0, hs_flags = []\<rparr>
      else let flags = degradation_flags p m baseline; period_degraded = flags \<noteq> [] in
        if current = DEGRADED then
          if period_degraded then
            \<lparr>hs_state = DEGRADED, hs_recommendation = DEGRADED_PROBATION, hs_degraded = degraded + 1,
             hs_recovery = 0, hs_cooldown = hp_cooldown p, hs_flags = flags\<rparr>
          else
            let new_recovery = recovery + 1; new_cooldown = max 0 (cooldown - 1) in
            if new_recovery \<ge> hp_recovery_m p \<and> new_cooldown = 0 then
              \<lparr>hs_state = HEALTHY, hs_recommendation = CONTINUE_UNRESTRICTED, hs_degraded = 0,
               hs_recovery = 0, hs_cooldown = 0, hs_flags = [''RECOVERY_CONFIRMED'']\<rparr>
            else
              \<lparr>hs_state = DEGRADED, hs_recommendation = DEGRADED_PROBATION, hs_degraded = 0,
               hs_recovery = new_recovery, hs_cooldown = new_cooldown,
               hs_flags = [''RECOVERY_PENDING_PERSISTENCE'']\<rparr>
        else if period_degraded then
          let new_degraded = degraded + 1 in
          if new_degraded \<ge> hp_degradation_n p then
            \<lparr>hs_state = DEGRADED, hs_recommendation = DEGRADED_PROBATION, hs_degraded = new_degraded,
             hs_recovery = 0, hs_cooldown = hp_cooldown p, hs_flags = flags\<rparr>
          else
            \<lparr>hs_state = HEALTHY, hs_recommendation = CONTINUE_UNRESTRICTED, hs_degraded = new_degraded,
             hs_recovery = 0, hs_cooldown = 0, hs_flags = ''DEGRADATION_PENDING_PERSISTENCE'' # flags\<rparr>
        else
          \<lparr>hs_state = HEALTHY, hs_recommendation = CONTINUE_UNRESTRICTED, hs_degraded = 0,
           hs_recovery = 0, hs_cooldown = 0, hs_flags = []\<rparr>)"

definition generate_evidence ::
    "(string \<Rightarrow> string) \<Rightarrow> health_policy \<Rightarrow> string \<Rightarrow> string \<Rightarrow> string \<Rightarrow> time \<Rightarrow> time \<Rightarrow> forward_health
     \<Rightarrow> window_metrics \<Rightarrow> int \<Rightarrow> int \<Rightarrow> int \<Rightarrow> bool \<Rightarrow> py_decimal option \<Rightarrow> monitoring_error + drift_evidence" where
  "generate_evidence sha p eid strategy dossier_dg as_of wall current m degraded recovery cooldown telemetry_valid
       baseline =
     (let r = evaluate_step p current m degraded recovery cooldown telemetry_valid baseline in
      mk_drift_evidence sha
        \<lparr>de_evidence_id = eid, de_strategy = strategy, de_dossier = dossier_dg, de_as_of = as_of,
         de_wall_clock = wall, de_health = hs_state r, de_recommendation = hs_recommendation r, de_metrics = m,
         de_policy_digest = hp_digest p, de_degraded = hs_degraded r, de_recovery = hs_recovery r,
         de_flags = hs_flags r, de_digest = []\<rparr>)"


subsection \<open>Histories\<close>

text \<open>A period is what one evaluation sees; the caller carries state and counters from step to step.\<close>

record period =
  pd_metrics :: window_metrics
  pd_telemetry :: bool
  pd_baseline :: "py_decimal option"

definition next_step :: "health_policy \<Rightarrow> health_step \<Rightarrow> period \<Rightarrow> health_step" where
  "next_step p s pd = evaluate_step p (hs_state s) (pd_metrics pd) (hs_degraded s) (hs_recovery s) (hs_cooldown s)
     (pd_telemetry pd) (pd_baseline pd)"

definition first_step :: health_step where
  "first_step = \<lparr>hs_state = INSUFFICIENT_EVIDENCE, hs_recommendation = CONTINUE_UNRESTRICTED, hs_degraded = 0,
     hs_recovery = 0, hs_cooldown = 0, hs_flags = []\<rparr>"

definition follow :: "health_policy \<Rightarrow> health_step \<Rightarrow> period list \<Rightarrow> health_step" where
  "follow p s pds = foldl (next_step p) s pds"

lemma follow_simps [simp]:
  "follow p s [] = s" "follow p s (pds @ [pd]) = next_step p (follow p s pds) pd"
  "follow p s (pds @ pds') = follow p (follow p s pds) pds'" "follow p s (pd # pds) = follow p (next_step p s pd) pds"
  by (simp_all add: follow_def)

definition measured :: "health_policy \<Rightarrow> period \<Rightarrow> bool" where
  "measured p pd \<longleftrightarrow> pd_telemetry pd
     \<and> dec_value (wm_inception_drawdown (pd_metrics pd)) < dec_value (hp_critical_drawdown p)
     \<and> hp_min_observations p \<le> wm_observation_count (pd_metrics pd)"

definition good_period :: "health_policy \<Rightarrow> period \<Rightarrow> bool" where
  "good_period p pd \<longleftrightarrow> measured p pd \<and> degradation_flags p (pd_metrics pd) (pd_baseline pd) = []"

definition bad_period :: "health_policy \<Rightarrow> period \<Rightarrow> bool" where
  "bad_period p pd \<longleftrightarrow> measured p pd \<and> degradation_flags p (pd_metrics pd) (pd_baseline pd) \<noteq> []"

text \<open>The number of periods at the end of a history that satisfy a predicate.\<close>

definition streak :: "('a \<Rightarrow> bool) \<Rightarrow> 'a list \<Rightarrow> int" where
  "streak P xs = int (length (takeWhile P (rev xs)))"

lemma streak_simps [simp]:
  "streak P [] = 0" "streak P (xs @ [x]) = (if P x then streak P xs + 1 else 0)"
  by (simp_all add: streak_def)

lemma streak_nonneg [simp]: "0 \<le> streak P xs"
  by (simp add: streak_def)

lemma streak_all: "\<forall>y \<in> set ys. P y \<Longrightarrow> streak P (xs @ ys) = streak P xs + int (length ys)"
  by (induction ys arbitrary: xs rule: rev_induct) (auto simp flip: append_assoc)

definition health_policy_ok :: "health_policy \<Rightarrow> bool" where
  "health_policy_ok p \<longleftrightarrow> 0 < hp_degradation_n p \<and> hp_degradation_n p < hp_recovery_m p \<and> 0 \<le> hp_cooldown p
     \<and> 0 < hp_min_observations p \<and> hp_min_observations p \<le> hp_window_size p
     \<and> 0 < dec_value (hp_critical_drawdown p) \<and> dec_value (hp_critical_drawdown p) \<le> 1"

lemma mk_health_policy_ok: "mk_health_policy sha raw = Inr p \<Longrightarrow> health_policy_ok p"
  by (auto simp: mk_health_policy_def health_policy_ok_def rbind_Inr_iff)

text \<open>One step by the kind of its period.\<close>

lemma measuredD:
  assumes "measured p pd"
  shows "pd_telemetry pd = True"
    and "(dec_value (hp_critical_drawdown p) \<le> dec_value (wm_inception_drawdown (pd_metrics pd))) = False"
    and "(wm_observation_count (pd_metrics pd) < hp_min_observations p) = False"
  using assms by (auto simp: measured_def)

lemma step_good:
  assumes "good_period p pd"
  shows "hs_state s = STRUCTURAL_BREAK \<Longrightarrow> hs_state (next_step p s pd) = STRUCTURAL_BREAK"
    and "hs_state s = MONITORING_BLOCKED \<Longrightarrow> hs_state (next_step p s pd) = INSUFFICIENT_EVIDENCE"
    and "hs_state s \<in> {HEALTHY, INSUFFICIENT_EVIDENCE} \<Longrightarrow> hs_state (next_step p s pd) = HEALTHY"
    and "hs_state s \<noteq> STRUCTURAL_BREAK \<Longrightarrow> hs_degraded (next_step p s pd) = 0"
    and "hs_state s = DEGRADED \<Longrightarrow> hs_state (next_step p s pd) =
      (if hp_recovery_m p \<le> hs_recovery s + 1 \<and> hs_cooldown s \<le> 1 then HEALTHY else DEGRADED)"
    and "hs_state s = DEGRADED \<Longrightarrow> hs_state (next_step p s pd) = DEGRADED \<Longrightarrow>
      hs_recovery (next_step p s pd) = hs_recovery s + 1 \<and> hs_cooldown (next_step p s pd) = max 0 (hs_cooldown s - 1)"
proof -
  have m: "measured p pd" and f: "degradation_flags p (pd_metrics pd) (pd_baseline pd) = []"
    using assms by (simp_all add: good_period_def)
  note c = measuredD [OF m] f
  show "hs_state s = STRUCTURAL_BREAK \<Longrightarrow> hs_state (next_step p s pd) = STRUCTURAL_BREAK"
    "hs_state s = MONITORING_BLOCKED \<Longrightarrow> hs_state (next_step p s pd) = INSUFFICIENT_EVIDENCE"
    "hs_state s \<in> {HEALTHY, INSUFFICIENT_EVIDENCE} \<Longrightarrow> hs_state (next_step p s pd) = HEALTHY"
    by (auto simp: next_step_def evaluate_step_def c Let_def)
  show "hs_state s \<noteq> STRUCTURAL_BREAK \<Longrightarrow> hs_degraded (next_step p s pd) = 0"
    by (simp add: next_step_def evaluate_step_def c Let_def)
  show "hs_state s = DEGRADED \<Longrightarrow> hs_state (next_step p s pd) =
      (if hp_recovery_m p \<le> hs_recovery s + 1 \<and> hs_cooldown s \<le> 1 then HEALTHY else DEGRADED)"
    by (auto simp: next_step_def evaluate_step_def c Let_def max_def)
  show "hs_state s = DEGRADED \<Longrightarrow> hs_state (next_step p s pd) = DEGRADED \<Longrightarrow>
      hs_recovery (next_step p s pd) = hs_recovery s + 1 \<and> hs_cooldown (next_step p s pd) = max 0 (hs_cooldown s - 1)"
    by (auto simp: next_step_def evaluate_step_def c Let_def split: if_splits)
qed

lemma step_bad:
  assumes "bad_period p pd"
  shows "hs_state s = STRUCTURAL_BREAK \<Longrightarrow> hs_state (next_step p s pd) = STRUCTURAL_BREAK"
    and "hs_state s = MONITORING_BLOCKED \<Longrightarrow>
      hs_state (next_step p s pd) = INSUFFICIENT_EVIDENCE \<and> hs_degraded (next_step p s pd) = 0"
    and "hs_state s = DEGRADED \<Longrightarrow> hs_state (next_step p s pd) = DEGRADED"
    and "hs_state s \<in> {HEALTHY, INSUFFICIENT_EVIDENCE} \<Longrightarrow> hs_state (next_step p s pd) =
      (if hp_degradation_n p \<le> hs_degraded s + 1 then DEGRADED else HEALTHY)"
    and "hs_state s \<in> {HEALTHY, INSUFFICIENT_EVIDENCE} \<Longrightarrow> hs_degraded (next_step p s pd) = hs_degraded s + 1"
    and "hs_state (next_step p s pd) = DEGRADED \<Longrightarrow>
      hs_recovery (next_step p s pd) = 0 \<and> hs_cooldown (next_step p s pd) = hp_cooldown p"
proof -
  have m: "measured p pd" and f: "degradation_flags p (pd_metrics pd) (pd_baseline pd) \<noteq> []"
    using assms by (simp_all add: bad_period_def)
  note c = measuredD [OF m] f
  show "hs_state s = STRUCTURAL_BREAK \<Longrightarrow> hs_state (next_step p s pd) = STRUCTURAL_BREAK"
    "hs_state s = MONITORING_BLOCKED \<Longrightarrow>
      hs_state (next_step p s pd) = INSUFFICIENT_EVIDENCE \<and> hs_degraded (next_step p s pd) = 0"
    "hs_state s = DEGRADED \<Longrightarrow> hs_state (next_step p s pd) = DEGRADED"
    by (simp_all add: next_step_def evaluate_step_def c Let_def)
  show "hs_state s \<in> {HEALTHY, INSUFFICIENT_EVIDENCE} \<Longrightarrow> hs_state (next_step p s pd) =
      (if hp_degradation_n p \<le> hs_degraded s + 1 then DEGRADED else HEALTHY)"
    by (auto simp: next_step_def evaluate_step_def c Let_def)
  show "hs_state s \<in> {HEALTHY, INSUFFICIENT_EVIDENCE} \<Longrightarrow> hs_degraded (next_step p s pd) = hs_degraded s + 1"
    by (auto simp: next_step_def evaluate_step_def c Let_def)
  show "hs_state (next_step p s pd) = DEGRADED \<Longrightarrow>
      hs_recovery (next_step p s pd) = 0 \<and> hs_cooldown (next_step p s pd) = hp_cooldown p"
    by (simp add: next_step_def evaluate_step_def c Let_def split: if_splits)
qed

lemma step_unmeasured:
  assumes "\<not> measured p pd"
  shows "hs_state (next_step p s pd) \<in> {INSUFFICIENT_EVIDENCE, STRUCTURAL_BREAK, MONITORING_BLOCKED}"
    and "hs_state (next_step p s pd) = INSUFFICIENT_EVIDENCE \<Longrightarrow> hs_degraded (next_step p s pd) = 0"
proof -
  consider (blocked) "pd_telemetry pd = False"
    | (broken) "pd_telemetry pd = True" "dec_value (hp_critical_drawdown p) \<le> dec_value (wm_inception_drawdown (pd_metrics pd))"
    | (few) "pd_telemetry pd = True" "(dec_value (hp_critical_drawdown p) \<le> dec_value (wm_inception_drawdown (pd_metrics pd))) = False"
        "wm_observation_count (pd_metrics pd) < hp_min_observations p"
    using assms
    by (cases "pd_telemetry pd";
        cases "dec_value (hp_critical_drawdown p) \<le> dec_value (wm_inception_drawdown (pd_metrics pd))")
      (auto simp: measured_def)
  then have "hs_state (next_step p s pd) \<in> {INSUFFICIENT_EVIDENCE, STRUCTURAL_BREAK, MONITORING_BLOCKED}
    \<and> (hs_state (next_step p s pd) = INSUFFICIENT_EVIDENCE \<longrightarrow> hs_degraded (next_step p s pd) = 0)"
    by cases (simp_all add: next_step_def evaluate_step_def)
  then show "hs_state (next_step p s pd) \<in> {INSUFFICIENT_EVIDENCE, STRUCTURAL_BREAK, MONITORING_BLOCKED}"
    and "hs_state (next_step p s pd) = INSUFFICIENT_EVIDENCE \<Longrightarrow> hs_degraded (next_step p s pd) = 0" by simp_all
qed

lemma period_cases:
  obtains (good) "good_period p pd" "\<not> bad_period p pd" | (bad) "bad_period p pd" "\<not> good_period p pd"
    | (unmeasured) "\<not> measured p pd" "\<not> good_period p pd" "\<not> bad_period p pd"
  by (auto simp: good_period_def bad_period_def)

lemma follow_counters:
  assumes "health_policy_ok p"
  defines "s hist \<equiv> follow p first_step hist"
  shows "(hs_state (s hist) = DEGRADED \<longrightarrow> hs_recovery (s hist) = streak (good_period p) hist
      \<and> hs_cooldown (s hist) = max 0 (hp_cooldown p - streak (good_period p) hist)
      \<and> streak (good_period p) hist < max (hp_recovery_m p) (hp_cooldown p))
    \<and> (hs_state (s hist) \<in> {HEALTHY, INSUFFICIENT_EVIDENCE} \<longrightarrow>
        0 \<le> hs_degraded (s hist) \<and> hs_degraded (s hist) \<le> streak (bad_period p) hist)"
proof (induction hist rule: rev_induct)
  case Nil
  then show ?case by (simp add: s_def first_step_def)
next
  case (snoc pd hist)
  let ?s = "s hist"
  have s: "s (hist @ [pd]) = next_step p ?s pd" by (simp add: s_def)
  have ok: "0 < hp_recovery_m p" "0 \<le> hp_cooldown p" using assms(1) by (simp_all add: health_policy_ok_def)
  show ?case
  proof (cases rule: period_cases [of p pd])
    case good
    then show ?thesis
      using snoc ok step_good [OF good(1), of ?s] by (cases "hs_state ?s") (auto simp: s split: if_splits)
  next
    case bad
    then show ?thesis
      using snoc ok step_bad [OF bad(1), of ?s] by (cases "hs_state ?s") (auto simp: s split: if_splits)
  next
    case unmeasured
    then show ?thesis using step_unmeasured [OF unmeasured(1), of ?s] by (auto simp: s)
  qed
qed


text \<open>C27: The hysteresis is asymmetric.  Along every history of periods, whatever their telemetry, drawdowns
  and observation counts, from a first evaluation on and with the counters handed on from step to step: a
  strategy turns DEGRADED only after at least N degraded periods in a row, and a DEGRADED strategy turns
  HEALTHY exactly at the period that completes max(M, T) healthy measured periods in a row (N, M, T the
  policy's degradation persistence, recovery persistence and cooldown).  The contract document counts
  the cooldown from the entry into DEGRADED; the code starts it anew at every degraded period, so for T
  above M it recovers later than the document says (\<open>relapse_restarts_cooldown\<close>).\<close>

theorem health_hysteresis:
  assumes "mk_health_policy sha raw = Inr p"
  shows "(hs_state (follow p first_step hist) \<noteq> DEGRADED \<longrightarrow>
      hs_state (follow p first_step (hist @ [pd])) = DEGRADED \<longrightarrow>
      hp_degradation_n p \<le> streak (bad_period p) (hist @ [pd]))
    \<and> (hs_state (follow p first_step hist) = DEGRADED \<longrightarrow>
      (hs_state (follow p first_step (hist @ [pd])) = HEALTHY
        \<longleftrightarrow> max (hp_recovery_m p) (hp_cooldown p) \<le> streak (good_period p) (hist @ [pd])))"
proof -
  have ok: "health_policy_ok p" by (rule mk_health_policy_ok [OF assms])
  then have m: "0 < hp_recovery_m p" "0 \<le> hp_cooldown p" by (simp_all add: health_policy_ok_def)
  let ?s = "follow p first_step hist"
  note inv = follow_counters [OF ok, of hist]
  have "hp_degradation_n p \<le> streak (bad_period p) (hist @ [pd])"
    if "hs_state ?s \<noteq> DEGRADED" "hs_state (follow p first_step (hist @ [pd])) = DEGRADED"
  proof (cases rule: period_cases [of p pd])
    case good
    then show ?thesis using that step_good [OF good(1), of ?s] by (cases "hs_state ?s") auto
  next
    case bad
    then show ?thesis
      using that inv step_bad [OF bad(1), of ?s] by (cases "hs_state ?s") (auto split: if_splits)
  next
    case unmeasured
    then show ?thesis using that step_unmeasured [OF unmeasured(1), of ?s] by auto
  qed
  moreover have "hs_state (follow p first_step (hist @ [pd])) = HEALTHY
      \<longleftrightarrow> max (hp_recovery_m p) (hp_cooldown p) \<le> streak (good_period p) (hist @ [pd])"
    if d: "hs_state ?s = DEGRADED"
  proof (cases rule: period_cases [of p pd])
    case good
    then show ?thesis using d inv step_good(5) [OF good(1) d] by auto
  next
    case bad
    then show ?thesis using m step_bad(3) [OF bad(1) d] by auto
  next
    case unmeasured
    then show ?thesis using m step_unmeasured(1) [OF unmeasured(1), of ?s] by auto
  qed
  ultimately show ?thesis by blast
qed

text \<open>Where the cooldown counts from: long after a strategy entered DEGRADED, with the cooldown elapsed and
  M healthy periods in a row, the code still reports DEGRADED while fewer than T healthy periods have
  followed the last degraded one.\<close>

theorem relapse_restarts_cooldown:
  assumes "health_policy_ok p" and "hs_state (follow p first_step hist) = DEGRADED"
    and "bs \<noteq> []" "\<forall>pd \<in> set bs. bad_period p pd" and "\<forall>pd \<in> set gs. good_period p pd"
    and "int (length gs) < hp_cooldown p"
  shows "hs_state (follow p first_step (hist @ bs @ gs)) = DEGRADED"
proof -
  have "hs_state (follow p first_step (hist @ bs)) = DEGRADED"
    using assms(4)
  proof (induction bs rule: rev_induct)
    case (snoc b bs)
    then show ?case using step_bad(3) [of p b] by (simp flip: append_assoc)
  qed (simp add: assms(2))
  moreover have "streak (good_period p) (hist @ bs) = 0"
  proof -
    obtain b bs' where b: "bs = bs' @ [b]" using assms(3) by (cases bs rule: rev_cases) auto
    then have "\<not> good_period p b" using assms(4) by (simp add: good_period_def bad_period_def)
    then show ?thesis by (simp add: b flip: append_assoc)
  qed
  ultimately have "hs_state (follow p first_step ((hist @ bs) @ gs)) = DEGRADED
      \<and> streak (good_period p) ((hist @ bs) @ gs) = int (length gs)"
    using assms(5,6)
  proof (induction gs rule: rev_induct)
    case (snoc g gs)
    let ?s = "follow p first_step ((hist @ bs) @ gs)"
    have s: "hs_state ?s = DEGRADED" "streak (good_period p) ((hist @ bs) @ gs) = int (length gs)"
      using snoc by simp_all
    then have "1 < hs_cooldown ?s"
      using follow_counters [OF assms(1), of "(hist @ bs) @ gs"] snoc.prems(4) by simp
    then show ?case using s snoc.prems(3) step_good(5) [of p g ?s] by (simp flip: append_assoc)
  qed simp
  then show ?thesis by simp
qed

text \<open>C28: Recovery terminates.  From whatever state a history has reached, short of a structural break,
  max(M, T) healthy measured periods in a row end in HEALTHY.\<close>

theorem recovery_terminates:
  assumes "mk_health_policy sha raw = Inr p"
    and "hs_state (follow p first_step hist) \<noteq> STRUCTURAL_BREAK"
    and "\<forall>pd \<in> set pds. good_period p pd"
    and "max (hp_recovery_m p) (hp_cooldown p) \<le> int (length pds)"
  shows "hs_state (follow p first_step (hist @ pds)) = HEALTHY"
proof -
  have ok: "health_policy_ok p" by (rule mk_health_policy_ok [OF assms(1)])
  then have two: "2 \<le> length pds" using assms(4) by (simp add: health_policy_ok_def)
  have reach: "hs_state (follow p s qs) \<in> (if length qs = 0 then - {STRUCTURAL_BREAK}
      else if length qs = 1 then {HEALTHY, DEGRADED, INSUFFICIENT_EVIDENCE} else {HEALTHY, DEGRADED})"
    if "hs_state s \<noteq> STRUCTURAL_BREAK" "\<forall>pd \<in> set qs. good_period p pd" for s qs
    using that
  proof (induction qs rule: rev_induct)
    case (snoc q qs)
    then show ?case
      using step_good [of p q "follow p s qs"]
      by (cases "hs_state (follow p s qs)") (auto split: if_splits)
  qed auto
  have "hs_state (follow p first_step (hist @ pds)) \<in> {HEALTHY, DEGRADED}"
    using reach [OF assms(2,3)] two by (auto split: if_splits)
  moreover have "hs_state (follow p first_step (hist @ pds)) \<noteq> DEGRADED"
  proof
    assume "hs_state (follow p first_step (hist @ pds)) = DEGRADED"
    then have "streak (good_period p) (hist @ pds) < max (hp_recovery_m p) (hp_cooldown p)"
      using follow_counters [OF ok, of "hist @ pds"] by blast
    then show False using streak_all [OF assms(3), of hist] assms(4) streak_nonneg [of "good_period p" hist] by linarith
  qed
  ultimately show ?thesis by blast
qed

text \<open>A structural break is left by nothing but a telemetry outage, and by every one: while telemetry stays
  valid the state is absorbing, but after one blocked period two healthy ones report the strategy HEALTHY
  again.\<close>

theorem break_ends_with_an_outage:
  assumes "hs_state s = STRUCTURAL_BREAK"
  shows "((\<forall>pd \<in> set pds. pd_telemetry pd) \<longrightarrow> hs_state (follow p s pds) = STRUCTURAL_BREAK)
    \<and> (\<not> pd_telemetry out \<longrightarrow> good_period p g \<longrightarrow> good_period p g' \<longrightarrow>
      hs_state (follow p s [out, g, g']) = HEALTHY)"
proof -
  have "hs_state (follow p s pds) = STRUCTURAL_BREAK" if "\<forall>pd \<in> set pds. pd_telemetry pd"
    using that assms
  proof (induction pds rule: rev_induct)
    case (snoc pd pds)
    then have "hs_state (follow p s pds) = STRUCTURAL_BREAK" "pd_telemetry pd = True" by simp_all
    then show ?case by (simp add: next_step_def evaluate_step_def)
  qed simp
  moreover have "hs_state (follow p s [out, g, g']) = HEALTHY"
    if "\<not> pd_telemetry out" "good_period p g" "good_period p g'"
  proof -
    let ?a = "next_step p s out"
    have "hs_state ?a = MONITORING_BLOCKED" using that(1) by (simp add: next_step_def evaluate_step_def)
    then have "hs_state (next_step p ?a g) = INSUFFICIENT_EVIDENCE" by (rule step_good(2) [OF that(2)])
    then show ?thesis using step_good(3) [OF that(3)] by simp
  qed
  ultimately show ?thesis by blast
qed


subsection \<open>A concrete policy and its histories\<close>

definition whole_decimal :: "nat \<Rightarrow> py_decimal" where
  "whole_decimal n = \<lparr>dc_negative = False, dc_coeff = n, dc_exp = 0\<rparr>"

lemma dec_value_whole [simp]: "dec_value (whole_decimal n) = of_nat n"
  by (simp add: dec_value_def whole_decimal_def pow10_def)

definition quick_policy :: health_policy where
  "quick_policy = \<lparr>hp_min_observations = 2, hp_window_size = 2, hp_degradation_n = 1, hp_recovery_m = 2,
     hp_cooldown = 0, hp_min_sharpe = whole_decimal 1, hp_max_decay = whole_decimal 1,
     hp_critical_drawdown = whole_decimal 1, hp_critical_loss_bps = whole_decimal 2500, hp_digest = zero_digest\<rparr>"

definition sample_metrics :: "nat \<Rightarrow> nat \<Rightarrow> window_metrics" where
  "sample_metrics sharpe drawdown = \<lparr>wm_window_size = 2, wm_observation_count = 2, wm_mean_return = whole_decimal 0,
     wm_volatility = whole_decimal 1, wm_sharpe = whole_decimal sharpe, wm_max_drawdown = whole_decimal drawdown,
     wm_inception_drawdown = whole_decimal drawdown, wm_hit_rate = whole_decimal 1, wm_tracking_error = None,
     wm_t_stat = whole_decimal 0, wm_divergence_bps = None, wm_information_coefficient = None, wm_ic_slope = None\<rparr>"

definition sample_period :: "nat \<Rightarrow> nat \<Rightarrow> bool \<Rightarrow> period" where
  "sample_period sharpe drawdown telemetry =
     \<lparr>pd_metrics = sample_metrics sharpe drawdown, pd_telemetry = telemetry, pd_baseline = None\<rparr>"

lemma health_policy_json: "\<exists>t. compute_sha256 sha (health_policy_payload p) = Inr (sha t)"
  by (simp add: compute_sha256_def to_canonical_json_def health_policy_payload_def) blast

lemma quick_policy_valid: "mk_health_policy (\<lambda>_. zero_digest) quick_policy = Inr quick_policy"
  using health_policy_json [of "\<lambda>_. zero_digest" quick_policy]
  by (simp add: mk_health_policy_def settle_digest_def) (simp add: quick_policy_def)

lemma sample_periods:
  "good_period quick_policy (sample_period 1 0 True)" "bad_period quick_policy (sample_period 0 0 True)"
  "\<not> pd_telemetry (sample_period 1 0 False)"
  by (simp_all add: good_period_def bad_period_def measured_def sample_period_def sample_metrics_def
      quick_policy_def degradation_flags_def)

lemmas sample_states = next_step_def evaluate_step_def sample_period_def sample_metrics_def quick_policy_def
  degradation_flags_def first_step_def Let_def

lemma sample_degraded:
  "hs_state (follow quick_policy first_step [sample_period 1 0 True, sample_period 0 0 True]) = DEGRADED"
  "hs_state (follow quick_policy first_step [sample_period 1 0 True]) = HEALTHY"
  by (simp_all add: sample_states)

theorem health_hysteresis_witness:
  "hs_state (follow quick_policy first_step [sample_period 1 0 True, sample_period 0 0 True, sample_period 1 0 True,
     sample_period 1 0 True]) = HEALTHY
   \<and> hp_degradation_n quick_policy \<le> streak (bad_period quick_policy) [sample_period 1 0 True, sample_period 0 0 True]"
proof
  let ?g = "sample_period 1 0 True" and ?b = "sample_period 0 0 True"
  have "hs_state (follow quick_policy first_step [?g, ?b, ?g]) = DEGRADED"
    by (simp add: sample_states)
  from health_hysteresis [OF quick_policy_valid, of "[?g, ?b, ?g]" ?g] this
  have "hs_state (follow quick_policy first_step ([?g, ?b, ?g] @ [?g])) = HEALTHY \<longleftrightarrow>
      max (hp_recovery_m quick_policy) (hp_cooldown quick_policy) \<le> streak (good_period quick_policy) ([?g, ?b, ?g] @ [?g])"
    by blast
  moreover have "streak (good_period quick_policy) ([?g, ?b, ?g] @ [?g]) = 2"
    using sample_periods(1,2) by (simp add: streak_def good_period_def bad_period_def)
  moreover have "max (hp_recovery_m quick_policy) (hp_cooldown quick_policy) = 2" by (simp add: quick_policy_def)
  ultimately show "hs_state (follow quick_policy first_step [?g, ?b, ?g, ?g]) = HEALTHY" by simp
  show "hp_degradation_n quick_policy \<le> streak (bad_period quick_policy) [?g, ?b]"
    using health_hysteresis [OF quick_policy_valid, of "[?g]" ?b] sample_degraded by simp
qed

theorem recovery_terminates_witness:
  "hs_state (follow quick_policy first_step
     ([sample_period 1 0 True, sample_period 0 0 True] @ [sample_period 1 0 True, sample_period 1 0 True])) = HEALTHY"
proof (rule recovery_terminates [OF quick_policy_valid])
  show "hs_state (follow quick_policy first_step [sample_period 1 0 True, sample_period 0 0 True]) \<noteq> STRUCTURAL_BREAK"
    using sample_degraded(1) by simp
  show "\<forall>pd \<in> set [sample_period 1 0 True, sample_period 1 0 True]. good_period quick_policy pd"
    using sample_periods(1) by simp
  show "max (hp_recovery_m quick_policy) (hp_cooldown quick_policy)
      \<le> int (length [sample_period 1 0 True, sample_period 1 0 True])"
    by (simp add: quick_policy_def)
qed

theorem break_ends_with_an_outage_witness:
  "\<exists>s. s = follow quick_policy first_step [sample_period 1 1 True] \<and> hs_state s = STRUCTURAL_BREAK
     \<and> hs_state (follow quick_policy s [sample_period 1 0 True]) = STRUCTURAL_BREAK
     \<and> hs_state (follow quick_policy s [sample_period 1 0 False, sample_period 1 0 True, sample_period 1 0 True]) = HEALTHY"
proof -
  let ?s = "follow quick_policy first_step [sample_period 1 1 True]"
  have s: "hs_state ?s = STRUCTURAL_BREAK" by (simp add: sample_states)
  have "hs_state (follow quick_policy ?s [sample_period 1 0 True]) = STRUCTURAL_BREAK"
    using break_ends_with_an_outage [OF s, of "[sample_period 1 0 True]"] by (simp add: sample_period_def)
  moreover have "hs_state (follow quick_policy ?s
      [sample_period 1 0 False, sample_period 1 0 True, sample_period 1 0 True]) = HEALTHY"
    using break_ends_with_an_outage [OF s] sample_periods by blast
  ultimately show ?thesis using s by blast
qed

end
