(* ===== verification/Telemetry.thy ===== *)
theory Telemetry
  imports ForwardHealth
begin

section \<open>Telemetry streams\<close>

text \<open>
  \<open>monitoring/schema.py\<close> (\<open>ForwardObservation\<close>) and \<open>monitoring/ingestion.py\<close>: the per-strategy streams of
  forward observations with their sequence, time and duplicate guards, and the block that every violation
  leaves until the stream is explicitly reinitialized.  Every method holds the lock for its whole body.
\<close>

subsection \<open>Observations\<close>

record observation =
  ob_id :: string
  ob_strategy :: string
  ob_dossier :: string
  ob_as_of :: time
  ob_wall_clock :: time
  ob_return :: py_decimal
  ob_expected :: "py_decimal option"
  ob_benchmark :: py_decimal
  ob_gross_pnl :: py_decimal
  ob_net_pnl :: py_decimal
  ob_turnover :: py_decimal
  ob_sequence :: int
  ob_telemetry :: bool
  ob_digest :: string

datatype observation_error =
    NegativeObservationSequence int
  | TurnoverRange
  | ReturnCollapsesEquity
  | ObservationDigest monitoring_error

definition observation_payload :: "observation \<Rightarrow> py_value" where
  "observation_payload ob =
     PDict [(KStr ''observation_id'', PStr (ob_id ob)), (KStr ''strategy_id'', PStr (ob_strategy ob)),
            (KStr ''dossier_digest'', PStr (ob_dossier ob)),
            (KStr ''as_of_utc'', PStr (isoformat (ob_as_of ob))),
            (KStr ''wall_clock_utc'', PStr (isoformat (ob_wall_clock ob))),
            (KStr ''realized_return'', PStr (dec_str (ob_return ob))),
            (KStr ''expected_return'', optional_decimal (ob_expected ob)),
            (KStr ''benchmark_return'', PStr (dec_str (ob_benchmark ob))),
            (KStr ''gross_pnl_usd'', PStr (dec_str (ob_gross_pnl ob))),
            (KStr ''net_pnl_usd'', PStr (dec_str (ob_net_pnl ob))),
            (KStr ''turnover_ratio'', PStr (dec_str (ob_turnover ob))),
            (KStr ''observation_sequence'', PInt (ob_sequence ob)),
            (KStr ''is_telemetry_valid'', PBool (ob_telemetry ob))]"

definition mk_observation :: "(string \<Rightarrow> string) \<Rightarrow> observation \<Rightarrow> observation_error + observation" where
  "mk_observation sha ob =
     raise_if (ob_sequence ob < 0) (NegativeObservationSequence (ob_sequence ob)) (
     raise_if (dec_value (ob_turnover ob) < 0 \<or> dec_value (ob_turnover ob) > 2) TurnoverRange (
     raise_if (dec_value (ob_return ob) \<le> -1) ReturnCollapsesEquity (
     raise_if (\<not> valid_sha256 (ob_dossier ob)) (ObservationDigest (DigestFormat ''dossier_digest'')) (
     case settle_digest sha (observation_payload ob) (ob_digest ob) ''observation_digest'' of
       Inl e \<Rightarrow> Inl (ObservationDigest e)
     | Inr d \<Rightarrow> Inr (ob\<lparr>ob_digest := d\<rparr>)))))"

subsection \<open>Streams\<close>

datatype integrity_state = VALID | BLOCKED

record stream_status =
  ss_epoch :: int
  ss_last_sequence :: int
  ss_last_as_of :: "time option"
  ss_count :: int
  ss_integrity :: integrity_state
  ss_reason :: "string option"

record ingestor =
  ig_streams :: "string \<rightharpoonup> stream_status"
  ig_seen_ids :: "string set"
  ig_seen_keys :: "(string \<times> int \<times> int) set"

datatype ingest_error =
    StreamBlocked string "string option"
  | DuplicateObservation string
  | DuplicateComposite int int
  | SequenceGap int int
  | TemporalOrderViolation time time

definition new_ingestor :: ingestor where
  "new_ingestor = \<lparr>ig_streams = Map.empty, ig_seen_ids = {}, ig_seen_keys = {}\<rparr>"

definition block_stream :: "ingestor \<Rightarrow> string \<Rightarrow> string \<Rightarrow> ingestor" where
  "block_stream ig sid reason =
     ig\<lparr>ig_streams := (ig_streams ig)(sid \<mapsto>
       (case ig_streams ig sid of
          None \<Rightarrow> \<lparr>ss_epoch = 0, ss_last_sequence = -1, ss_last_as_of = None, ss_count = 0,
                   ss_integrity = BLOCKED, ss_reason = Some reason\<rparr>
        | Some st \<Rightarrow> st\<lparr>ss_integrity := BLOCKED, ss_reason := Some reason\<rparr>))\<rparr>"

text \<open>The commit at the end of \<open>ingest_observation\<close>; \<open>prior\<close> is the stream as it was looked up.\<close>

definition commit_observation :: "ingestor \<Rightarrow> stream_status option \<Rightarrow> int \<Rightarrow> observation \<Rightarrow> ingestor" where
  "commit_observation ig prior epoch ob =
     (let blocked = (if ob_telemetry ob then ig else block_stream ig (ob_strategy ob) ''UPSTREAM_TELEMETRY_INVALID'');
          seen = blocked\<lparr>ig_seen_ids := insert (ob_id ob) (ig_seen_ids blocked),
            ig_seen_keys := insert (ob_strategy ob, epoch, ob_sequence ob) (ig_seen_keys blocked)\<rparr>
      in seen\<lparr>ig_streams := (ig_streams seen)(ob_strategy ob \<mapsto>
           (case prior of
              None \<Rightarrow>
                \<lparr>ss_epoch = epoch, ss_last_sequence = ob_sequence ob, ss_last_as_of = Some (ob_as_of ob),
                 ss_count = 1, ss_integrity = (if ob_telemetry ob then VALID else BLOCKED),
                 ss_reason = (if ob_telemetry ob then None else Some ''UPSTREAM_TELEMETRY_INVALID'')\<rparr>
            | Some st \<Rightarrow>
                let st' = st\<lparr>ss_last_sequence := ob_sequence ob, ss_last_as_of := Some (ob_as_of ob),
                             ss_count := ss_count st + 1\<rparr>
                in if ob_telemetry ob then st'
                   else st'\<lparr>ss_integrity := BLOCKED, ss_reason := Some ''UPSTREAM_TELEMETRY_INVALID''\<rparr>))\<rparr>)"

definition ingest_observation :: "ingestor \<Rightarrow> observation \<Rightarrow> ingestor \<times> (ingest_error + observation)" where
  "ingest_observation ig ob =
     (let sid = ob_strategy ob; state = ig_streams ig sid; n = ob_sequence ob;
          epoch = (case state of Some st \<Rightarrow> ss_epoch st | None \<Rightarrow> 0);
          refuse = (\<lambda>reason e. (block_stream ig sid reason, Inl e)) in
      if case state of Some st \<Rightarrow> ss_integrity st = BLOCKED | None \<Rightarrow> False
      then (ig, Inl (StreamBlocked sid (ss_reason (the state))))
      else if ob_id ob \<in> ig_seen_ids ig
      then refuse (''DUPLICATE_OBSERVATION_ID: '' @ ob_id ob) (DuplicateObservation (ob_id ob))
      else if (sid, epoch, n) \<in> ig_seen_keys ig
      then refuse (''DUPLICATE_SEQUENCE_NUMBER: epoch '' @ str_int epoch @ '' seq '' @ str_int n)
        (DuplicateComposite epoch n)
      else if (case state of Some st \<Rightarrow> ss_last_sequence st = -1 | None \<Rightarrow> True) \<and> n \<noteq> 0
      then refuse (''INITIAL_SEQUENCE_GAP: Expected sequence 0, got '' @ str_int n) (SequenceGap 0 n)
      else if case state of Some st \<Rightarrow> ss_last_sequence st \<noteq> -1 \<and> n \<noteq> ss_last_sequence st + 1 | None \<Rightarrow> False
      then refuse (''SEQUENCE_GAP: Expected sequence '' @ str_int (ss_last_sequence (the state) + 1)
          @ '', got '' @ str_int n) (SequenceGap (ss_last_sequence (the state) + 1) n)
      else case (case state of Some st \<Rightarrow> ss_last_as_of st | None \<Rightarrow> None) of
        Some last_as_of \<Rightarrow>
          if ob_as_of ob \<le> last_as_of
          then refuse (''TEMPORAL_REVERSAL: as_of_utc '' @ isoformat (ob_as_of ob) @ '' <= '' @ isoformat last_as_of)
            (TemporalOrderViolation (ob_as_of ob) last_as_of)
          else (commit_observation ig state epoch ob, Inr ob)
      | None \<Rightarrow> (commit_observation ig state epoch ob, Inr ob))"

definition reinitialize_stream :: "ingestor \<Rightarrow> string \<Rightarrow> ingestor \<times> stream_status" where
  "reinitialize_stream ig sid =
     (let st = \<lparr>ss_epoch = (case ig_streams ig sid of Some st \<Rightarrow> ss_epoch st + 1 | None \<Rightarrow> 0),
                ss_last_sequence = -1, ss_last_as_of = None, ss_count = 0, ss_integrity = VALID, ss_reason = None\<rparr>
      in (ig\<lparr>ig_streams := (ig_streams ig)(sid \<mapsto> st)\<rparr>, st))"

definition is_telemetry_valid :: "ingestor \<Rightarrow> string \<Rightarrow> bool" where
  "is_telemetry_valid ig sid \<longleftrightarrow> (case ig_streams ig sid of None \<Rightarrow> True | Some st \<Rightarrow> ss_integrity st = VALID)"

definition get_stream_status :: "ingestor \<Rightarrow> string \<Rightarrow> stream_status option" where
  "get_stream_status ig sid = ig_streams ig sid"

subsection \<open>Runs\<close>

text \<open>A caller that catches refusals; the result keeps the epoch of every accepted observation.\<close>

datatype ingest_request = Ingest observation | Reinitialize string

definition epoch_of :: "ingestor \<Rightarrow> string \<Rightarrow> int" where
  "epoch_of ig sid = (case ig_streams ig sid of Some st \<Rightarrow> ss_epoch st | None \<Rightarrow> 0)"

fun ingest_step :: "ingestor \<Rightarrow> ingest_request \<Rightarrow> (int \<times> observation) list \<times> ingestor" where
  "ingest_step ig (Ingest ob) =
     (case ingest_observation ig ob of
        (ig', Inl e) \<Rightarrow> ([], ig') | (ig', Inr ob') \<Rightarrow> ([(epoch_of ig (ob_strategy ob), ob')], ig'))"
| "ingest_step ig (Reinitialize sid) = ([], fst (reinitialize_stream ig sid))"

fun ingest_run :: "ingestor \<Rightarrow> ingest_request list \<Rightarrow> (int \<times> observation) list \<times> ingestor" where
  "ingest_run ig [] = ([], ig)"
| "ingest_run ig (c # cs) =
     (let (xs, ig') = ingest_step ig c; (ys, ig'') = ingest_run ig' cs in (xs @ ys, ig''))"


subsection \<open>Continuity\<close>

definition entries :: "(int \<times> observation) list \<Rightarrow> string \<Rightarrow> int \<Rightarrow> observation list" where
  "entries hist sid e = map snd (filter (\<lambda>(e', ob). e' = e \<and> ob_strategy ob = sid) hist)"

lemma entries_simps [simp]:
  "entries [] sid e = []"
  "entries (hist @ [(e', ob)]) sid e = entries hist sid e @ (if e' = e \<and> ob_strategy ob = sid then [ob] else [])"
  by (simp_all add: entries_def)

text \<open>Numbered from zero without gap, strictly later each time, and nothing after an invalid one.\<close>

definition contiguous :: "observation list \<Rightarrow> bool" where
  "contiguous obs \<longleftrightarrow> map ob_sequence obs = map int [0..<length obs] \<and> sorted_wrt (<) (map ob_as_of obs)
     \<and> (\<forall>ob \<in> set (butlast obs). ob_telemetry ob)"

lemma contiguous_snoc:
  assumes "contiguous obs" "ob_sequence ob = int (length obs)" "\<forall>o' \<in> set obs. ob_telemetry o'"
    and "obs \<noteq> [] \<Longrightarrow> ob_as_of (last obs) < ob_as_of ob"
  shows "contiguous (obs @ [ob])"
proof -
  have "ob_as_of x < ob_as_of ob" if "x \<in> set obs" for x
  proof -
    have "obs \<noteq> []" using that by auto
    then obtain init l where obs: "obs = init @ [l]" using rev_exhaust by blast
    then have "ob_as_of x \<le> ob_as_of l"
      using that assms(1) by (auto simp: contiguous_def sorted_wrt_append)
    then show ?thesis using assms(4) obs by simp
  qed
  then show ?thesis using assms(1-3) by (simp add: contiguous_def sorted_wrt_append)
qed

definition reflects :: "stream_status \<Rightarrow> observation list \<Rightarrow> bool" where
  "reflects st obs \<longleftrightarrow> ss_last_sequence st = int (length obs) - 1
     \<and> ss_last_as_of st = (if obs = [] then None else Some (ob_as_of (last obs)))
     \<and> (ss_integrity st = VALID \<longrightarrow> (\<forall>ob \<in> set obs. ob_telemetry ob))"

definition stream_ok :: "(int \<times> observation) list \<Rightarrow> ingestor \<Rightarrow> string \<Rightarrow> bool" where
  "stream_ok hist ig sid \<longleftrightarrow> (\<forall>e. contiguous (entries hist sid e)) \<and> (case ig_streams ig sid of
      None \<Rightarrow> (\<forall>e. entries hist sid e = [])
    | Some st \<Rightarrow> (\<forall>e > ss_epoch st. entries hist sid e = []) \<and> reflects st (entries hist sid (ss_epoch st)))"

definition ingestor_ok :: "(int \<times> observation) list \<Rightarrow> ingestor \<Rightarrow> bool" where
  "ingestor_ok hist ig \<longleftrightarrow> (\<forall>sid. stream_ok hist ig sid) \<and> ig_seen_ids ig = ob_id ` snd ` set hist
     \<and> distinct (map (ob_id \<circ> snd) hist)"

lemma not_blocked: "i \<noteq> BLOCKED \<longleftrightarrow> i = VALID"
  by (cases i) simp_all

text \<open>What acceptance requires and what it leaves, and what a refusal leaves.\<close>

lemma block_stream_frame [simp]:
  "ig_seen_ids (block_stream ig sid r) = ig_seen_ids ig" "ig_seen_keys (block_stream ig sid r) = ig_seen_keys ig"
  "sid' \<noteq> sid \<Longrightarrow> ig_streams (block_stream ig sid r) sid' = ig_streams ig sid'"
  by (simp_all add: block_stream_def)

lemma blocked_invalid: "\<not> is_telemetry_valid (block_stream ig sid r) sid"
  by (auto simp: is_telemetry_valid_def block_stream_def split: option.splits)

lemma ingest_accepted:
  assumes "ingest_observation ig ob = (ig', Inr ob')"
  shows "ob' = ob" "ig' = commit_observation ig (ig_streams ig (ob_strategy ob)) (epoch_of ig (ob_strategy ob)) ob"
    and "ob_id ob \<notin> ig_seen_ids ig" "is_telemetry_valid ig (ob_strategy ob)"
    and "case ig_streams ig (ob_strategy ob) of None \<Rightarrow> ob_sequence ob = 0 | Some st \<Rightarrow>
        (if ss_last_sequence st = -1 then ob_sequence ob = 0 else ob_sequence ob = ss_last_sequence st + 1)
        \<and> (\<forall>t. ss_last_as_of st = Some t \<longrightarrow> t < ob_as_of ob)"
  using assms
  by (auto simp: ingest_observation_def Let_def is_telemetry_valid_def epoch_of_def not_le
      not_blocked split: option.splits if_splits)

lemma ingest_refused:
  assumes "ingest_observation ig ob = (ig', Inl e)"
  shows "ig' = ig \<or> (\<exists>r. ig' = block_stream ig (ob_strategy ob) r)"
    and "\<not> is_telemetry_valid ig' (ob_strategy ob)"
proof -
  have "ig' = ig \<and> \<not> is_telemetry_valid ig (ob_strategy ob)
      \<or> (\<exists>r. ig' = block_stream ig (ob_strategy ob) r)"
    using assms by (simp add: ingest_observation_def Let_def split: option.splits if_splits)
      (auto simp: is_telemetry_valid_def)
  then show "ig' = ig \<or> (\<exists>r. ig' = block_stream ig (ob_strategy ob) r)"
    and "\<not> is_telemetry_valid ig' (ob_strategy ob)"
    using blocked_invalid by blast+
qed

lemma commit_streams:
  "ig_streams (commit_observation ig prior epoch ob) = (ig_streams ig)(ob_strategy ob \<mapsto>
     \<lparr>ss_epoch = (case prior of None \<Rightarrow> epoch | Some st \<Rightarrow> ss_epoch st), ss_last_sequence = ob_sequence ob,
      ss_last_as_of = Some (ob_as_of ob), ss_count = (case prior of None \<Rightarrow> 1 | Some st \<Rightarrow> ss_count st + 1),
      ss_integrity = (if ob_telemetry ob then (case prior of None \<Rightarrow> VALID | Some st \<Rightarrow> ss_integrity st) else BLOCKED),
      ss_reason = (if ob_telemetry ob then (case prior of None \<Rightarrow> None | Some st \<Rightarrow> ss_reason st)
        else Some ''UPSTREAM_TELEMETRY_INVALID'')\<rparr>)"
  by (cases prior) (auto simp: commit_observation_def Let_def block_stream_def)

lemma commit_ids: "ig_seen_ids (commit_observation ig prior epoch ob) = insert (ob_id ob) (ig_seen_ids ig)"
  by (cases prior) (simp_all add: commit_observation_def Let_def)


lemma stream_ok_block:
  assumes "stream_ok hist ig sid'"
  shows "stream_ok hist (block_stream ig sid r) sid'"
proof (cases "sid' = sid")
  case True
  then show ?thesis
    using assms by (cases "ig_streams ig sid") (auto simp: stream_ok_def block_stream_def reflects_def)
qed (use assms in \<open>simp add: stream_ok_def\<close>)

lemma stream_ok_commit:
  assumes ok: "stream_ok hist ig sid'" and acc: "ingest_observation ig ob = (ig', Inr ob')"
  shows "stream_ok (hist @ [(epoch_of ig (ob_strategy ob), ob)]) ig' sid'"
proof (cases "sid' = ob_strategy ob")
  case False
  then have "ob_strategy ob \<noteq> sid'" by simp
  then show ?thesis
    using ok False by (simp add: stream_ok_def ingest_accepted(2)[OF acc] commit_streams cong: option.case_cong)
next
  case True
  let ?e = "epoch_of ig sid'" and ?h = "hist @ [(epoch_of ig (ob_strategy ob), ob)]"
  have ent: "entries ?h sid' e = entries hist sid' e @ (if e = ?e then [ob] else [])" for e
    using True by auto
  show ?thesis
  proof (cases "ig_streams ig sid'")
    case None
    then have e0: "?e = 0" and none: "entries hist sid' e = []" for e
      using ok by (simp_all add: epoch_of_def stream_ok_def)
    have "ob_sequence ob = 0" using ingest_accepted(5)[OF acc] None True by simp
    then have "contiguous (entries ?h sid' e)" for e
      unfolding ent none by (simp add: contiguous_def)
    then show ?thesis
      using None True e0 none
      by (simp add: stream_ok_def ingest_accepted(2)[OF acc] commit_streams reflects_def \<open>ob_sequence ob = 0\<close>)
  next
    case (Some st)
    then have e: "?e = ss_epoch st" by (simp add: epoch_of_def)
    have st: "reflects st (entries hist sid' (ss_epoch st))" and above: "\<forall>e > ss_epoch st. entries hist sid' e = []"
      and cont: "contiguous (entries hist sid' e)" for e
      using ok Some by (simp_all add: stream_ok_def)
    have valid: "ss_integrity st = VALID"
      using ingest_accepted(4)[OF acc] Some True by (simp add: is_telemetry_valid_def)
    have tele: "\<forall>o' \<in> set (entries hist sid' (ss_epoch st)). ob_telemetry o'"
      using st valid by (simp add: reflects_def)
    have seq: "ob_sequence ob = int (length (entries hist sid' (ss_epoch st)))"
      and later: "entries hist sid' (ss_epoch st) \<noteq> [] \<Longrightarrow> ob_as_of (last (entries hist sid' (ss_epoch st))) < ob_as_of ob"
      using ingest_accepted(5)[OF acc] Some True st by (auto simp: reflects_def split: if_splits)
    have "contiguous (entries ?h sid' e')" for e'
      unfolding ent e using cont contiguous_snoc[OF cont seq tele later] by simp
    then show ?thesis
      using Some True e above seq tele
      by (simp add: stream_ok_def ingest_accepted(2)[OF acc] commit_streams reflects_def valid)
  qed
qed

lemma ingestor_ok_step:
  assumes ok: "ingestor_ok hist ig" and step: "ingest_step ig c = (xs, ig')"
  shows "ingestor_ok (hist @ xs) ig'"
proof (cases c)
  case (Reinitialize sid)
  have str: "stream_ok hist ig sid'" for sid' using ok by (simp add: ingestor_ok_def)
  have "stream_ok hist (fst (reinitialize_stream ig sid)) sid'" for sid'
    using str[of sid'] by (auto simp: stream_ok_def reinitialize_stream_def Let_def reflects_def split: option.splits)
  moreover have "ig_seen_ids (fst (reinitialize_stream ig sid)) = ig_seen_ids ig"
    by (simp add: reinitialize_stream_def Let_def)
  moreover have "xs = []" "ig' = fst (reinitialize_stream ig sid)" using step Reinitialize by simp_all
  ultimately show ?thesis using ok by (simp add: ingestor_ok_def)
next
  case (Ingest ob)
  show ?thesis
  proof (cases "ingest_observation ig ob")
    case (Pair ig1 res)
    show ?thesis
    proof (cases res)
      case (Inl e)
      then have eqs: "xs = []" "ig' = ig1" using step Ingest Pair by simp_all
      from ingest_refused(1)[OF Pair[unfolded Inl]]
      have "(\<forall>sid. stream_ok hist ig1 sid) \<and> ig_seen_ids ig1 = ig_seen_ids ig"
        using ok unfolding ingestor_ok_def by (metis stream_ok_block block_stream_frame(1))
      then have "ingestor_ok hist ig1" using ok by (simp add: ingestor_ok_def)
      then show ?thesis by (simp add: eqs)
    next
      case (Inr ob')
      note acc = Pair[unfolded Inr]
      have xs: "xs = [(epoch_of ig (ob_strategy ob), ob)]" "ig' = ig1"
        using step Ingest acc ingest_accepted(1)[OF acc] by simp_all
      have "ob_id ob \<notin> ob_id ` snd ` set hist"
        using ingest_accepted(3)[OF acc] ok by (simp add: ingestor_ok_def)
      then have "distinct (map (ob_id \<circ> snd) (hist @ xs))"
        using ok by (auto simp: ingestor_ok_def xs)
      moreover have "ig_seen_ids ig' = ob_id ` snd ` set (hist @ xs)"
        using ok by (simp add: ingestor_ok_def xs ingest_accepted(2)[OF acc] commit_ids)
      moreover have "stream_ok (hist @ xs) ig' sid" for sid
        using stream_ok_commit[OF _ acc] ok by (simp add: ingestor_ok_def xs)
      ultimately show ?thesis by (simp add: ingestor_ok_def)
    qed
  qed
qed

lemma ingestor_ok_run:
  assumes "ingestor_ok hist ig"
  shows "ingestor_ok (hist @ fst (ingest_run ig cs)) (snd (ingest_run ig cs))"
  using assms
proof (induction cs arbitrary: hist ig)
  case (Cons c cs)
  obtain xs ig1 where step: "ingest_step ig c = (xs, ig1)" by fastforce
  show ?case
    using Cons.IH[OF ingestor_ok_step[OF Cons.prems step]] by (simp add: step Let_def split_beta)
qed simp

lemma ingestor_ok_new: "ingestor_ok [] new_ingestor"
  by (simp add: ingestor_ok_def new_ingestor_def stream_ok_def contiguous_def)

text \<open>C29: From a new ingestor, whatever a caller sends, the accepted observations have pairwise distinct identifiers, and within one strategy and one epoch they are numbered 0, 1, 2, \<open>\<dots>\<close> without a gap, with strictly increasing as-of times, and none follows an observation whose telemetry was invalid.\<close>

theorem streams_are_contiguous:
  "let hist = fst (ingest_run new_ingestor cs) in
   distinct (map (ob_id \<circ> snd) hist) \<and>
   (\<forall>sid e. let obs = entries hist sid e in
      map ob_sequence obs = map int [0..<length obs] \<and> sorted_wrt (<) (map ob_as_of obs) \<and>
      list_all ob_telemetry (butlast obs))"
  using ingestor_ok_run[OF ingestor_ok_new, of cs]
  by (simp add: ingestor_ok_def stream_ok_def contiguous_def Let_def list_all_iff)


subsection \<open>Blocked streams\<close>

lemma ingest_blocked:
  assumes "\<not> is_telemetry_valid ig (ob_strategy ob)"
  shows "\<exists>e. ingest_observation ig ob = (ig, Inl e)"
  using assms by (cases "ig_streams ig (ob_strategy ob)")
    (auto simp: ingest_observation_def Let_def is_telemetry_valid_def not_blocked[symmetric])

lemma ingest_other_stream:
  assumes "sid \<noteq> ob_strategy ob" "ingest_observation ig ob = (ig', res)"
  shows "ig_streams ig' sid = ig_streams ig sid"
proof (cases res)
  case (Inl e)
  then show ?thesis using ingest_refused(1)[of ig ob ig' e] assms by auto
next
  case (Inr ob')
  then show ?thesis using ingest_accepted(2)[of ig ob ig' ob'] assms by (simp add: commit_streams)
qed

lemma blocked_step:
  assumes blocked: "\<not> is_telemetry_valid ig sid" and "c \<noteq> Reinitialize sid"
    and step: "ingest_step ig c = (xs, ig')"
  shows "\<not> is_telemetry_valid ig' sid \<and> (\<forall>x \<in> set xs. ob_strategy (snd x) \<noteq> sid)"
proof (cases c)
  case (Ingest ob)
  show ?thesis
  proof (cases "ob_strategy ob = sid")
    case True
    then obtain e where "ingest_observation ig ob = (ig, Inl e)" using ingest_blocked blocked by blast
    then show ?thesis using step Ingest blocked by simp
  next
    case False
    obtain ig1 res where res: "ingest_observation ig ob = (ig1, res)" by fastforce
    have "ig' = ig1" "\<forall>x \<in> set xs. ob_strategy (snd x) = ob_strategy ob"
      using step Ingest res ingest_accepted(1)[of ig ob ig1] by (auto split: sum.splits)
    then show ?thesis
      using ingest_other_stream[OF _ res, of sid] blocked False by (auto simp: is_telemetry_valid_def)
  qed
next
  case (Reinitialize sid')
  then show ?thesis
    using assms by (auto simp: is_telemetry_valid_def reinitialize_stream_def Let_def)
qed

lemma blocked_run:
  assumes "\<not> is_telemetry_valid ig sid" "Reinitialize sid \<notin> set cs"
  shows "\<not> is_telemetry_valid (snd (ingest_run ig cs)) sid
     \<and> (\<forall>x \<in> set (fst (ingest_run ig cs)). ob_strategy (snd x) \<noteq> sid)"
  using assms
proof (induction cs arbitrary: ig)
  case (Cons c cs)
  obtain xs ig1 where step: "ingest_step ig c = (xs, ig1)" by fastforce
  have "c \<noteq> Reinitialize sid" using Cons.prems by auto
  from blocked_step[OF Cons.prems(1) this step] Cons.IH[of ig1] Cons.prems(2)
  show ?case by (auto simp: step Let_def split_beta)
qed simp

text \<open>An observation that breaks the stream's contract is refused, and from then on, whatever else is sent short of an explicit reinitialization of that strategy, no observation of the strategy is accepted and every health evaluation fed with the stream's validity reports \<open>MONITORING_BLOCKED\<close>; the reinitialization makes the stream valid again in a fresh epoch that must restart at sequence zero.\<close>

theorem refusal_blocks_monitoring:
  assumes "ingest_observation ig ob = (ig1, Inl e)" and "Reinitialize (ob_strategy ob) \<notin> set cs"
  shows "let sid = ob_strategy ob; (accepted, ig2) = ingest_run ig1 cs; ig3 = fst (reinitialize_stream ig2 sid) in
     (\<forall>x \<in> set accepted. ob_strategy (snd x) \<noteq> sid) \<and>
     hs_state (evaluate_step p current m degraded recovery cooldown (is_telemetry_valid ig2 sid) baseline)
       = MONITORING_BLOCKED \<and>
     is_telemetry_valid ig3 sid \<and> epoch_of ig3 sid = epoch_of ig2 sid + 1 \<and>
     (\<forall>ob'. ob_strategy ob' = sid \<longrightarrow> ob_sequence ob' \<noteq> 0 \<longrightarrow> isl (snd (ingest_observation ig3 ob')))"
proof -
  let ?sid = "ob_strategy ob" and ?ig2 = "snd (ingest_run ig1 cs)"
  have ig2: "\<not> is_telemetry_valid ?ig2 ?sid"
    and none: "\<forall>x \<in> set (fst (ingest_run ig1 cs)). ob_strategy (snd x) \<noteq> ?sid"
    using blocked_run[OF ingest_refused(2)[OF assms(1)] assms(2)] by blast+
  have fresh: "isl (snd (ingest_observation (fst (reinitialize_stream ?ig2 ?sid)) ob'))"
    if ob': "ob_strategy ob' = ?sid" "ob_sequence ob' \<noteq> 0" for ob'
  proof (rule ccontr)
    assume "\<not> ?thesis"
    then obtain ig' o' where "ingest_observation (fst (reinitialize_stream ?ig2 ?sid)) ob' = (ig', Inr o')"
      by (metis isl_def old.sum.exhaust prod.collapse)
    from ingest_accepted(5)[OF this] ob' show False by (simp add: reinitialize_stream_def Let_def)
  qed
  have "ig_streams ?ig2 ?sid \<noteq> None" using ig2 unfolding is_telemetry_valid_def by (metis option.case(1))
  then have "epoch_of (fst (reinitialize_stream ?ig2 ?sid)) ?sid = epoch_of ?ig2 ?sid + 1"
    "is_telemetry_valid (fst (reinitialize_stream ?ig2 ?sid)) ?sid"
    by (auto simp: epoch_of_def is_telemetry_valid_def reinitialize_stream_def Let_def)
  then show ?thesis using ig2 none fresh by (simp add: Let_def split_beta evaluate_step_def)
qed


subsection \<open>Identifiers across strategies\<close>

text \<open>
  The seen identifiers are one set for all strategies, where the duplicate guard speaks of a strategy's stream:
  an identifier that another strategy has used blocks this one.
\<close>

lemma foreign_identifier_blocks:
  assumes "ob_id ob \<in> ig_seen_ids ig" and "ig_streams ig (ob_strategy ob) = None"
  shows "snd (ingest_observation ig ob) = Inl (DuplicateObservation (ob_id ob))
     \<and> \<not> is_telemetry_valid (fst (ingest_observation ig ob)) (ob_strategy ob)"
  using assms blocked_invalid by (simp add: ingest_observation_def Let_def)

subsection \<open>Samples\<close>

definition sample_observation :: "string \<Rightarrow> string \<Rightarrow> int \<Rightarrow> time \<Rightarrow> observation" where
  "sample_observation i sid n t =
     \<lparr>ob_id = i, ob_strategy = sid, ob_dossier = zero_digest, ob_as_of = t, ob_wall_clock = t,
      ob_return = whole_decimal 0, ob_expected = None, ob_benchmark = whole_decimal 0,
      ob_gross_pnl = whole_decimal 0, ob_net_pnl = whole_decimal 0, ob_turnover = whole_decimal 0,
      ob_sequence = n, ob_telemetry = True, ob_digest = []\<rparr>"

theorem refusal_blocks_monitoring_witness:
  "let ob = sample_observation ''O1'' ''S1'' 1 0;
       ig1 = fst (ingest_observation new_ingestor ob);
       (accepted, ig2) = ingest_run ig1 [Ingest (sample_observation ''O2'' ''S1'' 0 0)] in
     accepted = [] \<and>
     hs_state (evaluate_step quick_policy HEALTHY (sample_metrics 1 0) 0 0 0 (is_telemetry_valid ig2 ''S1'') None)
       = MONITORING_BLOCKED"
proof -
  let ?ob = "sample_observation ''O1'' ''S1'' 1 0"
  let ?cs = "[Ingest (sample_observation ''O2'' ''S1'' 0 0)]"
  have gap: "\<exists>ig1. ingest_observation new_ingestor ?ob = (ig1, Inl (SequenceGap 0 1))"
    by (simp add: ingest_observation_def Let_def new_ingestor_def sample_observation_def)
  then obtain ig1 where ig1: "ingest_observation new_ingestor ?ob = (ig1, Inl (SequenceGap 0 1))" by blast
  have sid: "ob_strategy ?ob = ''S1''" by (simp add: sample_observation_def)
  from refusal_blocks_monitoring [OF ig1, of ?cs quick_policy HEALTHY "sample_metrics 1 0" 0 0 0 None]
  have "\<forall>x \<in> set (fst (ingest_run ig1 ?cs)). ob_strategy (snd x) \<noteq> ''S1''"
    and blocked: "hs_state (evaluate_step quick_policy HEALTHY (sample_metrics 1 0) 0 0 0
        (is_telemetry_valid (snd (ingest_run ig1 ?cs)) ''S1'') None) = MONITORING_BLOCKED"
    by (simp_all only: sid Let_def split_beta) simp_all
  then have "fst (ingest_run ig1 ?cs) = []"
    using ingest_accepted(1)[of ig1 "sample_observation ''O2'' ''S1'' 0 0"]
    by (auto simp: Let_def split: prod.splits sum.splits) (auto simp: sample_observation_def)
  moreover have "fst (ingest_observation new_ingestor ?ob) = ig1" by (simp add: ig1)
  ultimately show ?thesis using blocked unfolding Let_def split_beta by simp
qed

end
