(* ===== verification/OrderKey.thy ===== *)
theory OrderKey
  imports Float64 PyTime "HOL-Library.Word" "HOL-Library.Product_Lexorder" "HOL-Library.List_Lexorder"
begin

section \<open>Reconstruction order keys\<close>

text \<open>
  \<open>data/orderbook/hashing.py\<close> (\<open>ReconstructionOrderKey\<close> and the two factory functions): the five-component key
  that orders deltas among themselves and against the snapshot they extend.  The order is that of the tuples,
  so the type is made an instance of \<open>linorder\<close>.  A source token outside ASCII makes \<open>encode\<close> raise, which is
  \<open>None\<close>.  The nanosecond component goes through a double: \<open>int(ts.timestamp() * 1_000_000_000)\<close>.
\<close>

type_synonym bytes = "8 word list"

definition ascii_encode :: "string \<Rightarrow> bytes option" where
  "ascii_encode s = (if list_all (\<lambda>c. (of_char c :: nat) < 128) s then Some (map of_char s) else None)"

datatype order_key =
  OrderKey (ok_time_ns: int) (ok_source: bytes) (ok_rank: int) (ok_side_rank: int) (ok_index: int)

definition to_tuple :: "order_key \<Rightarrow> int \<times> bytes \<times> int \<times> int \<times> int" where
  "to_tuple k = (ok_time_ns k, ok_source k, ok_rank k, ok_side_rank k, ok_index k)"

lemma to_tuple_inject [simp]: "to_tuple a = to_tuple b \<longleftrightarrow> a = b"
  by (cases a; cases b) (simp add: to_tuple_def)

instantiation order_key :: linorder
begin

definition less_eq_order_key :: "order_key \<Rightarrow> order_key \<Rightarrow> bool" where
  "a \<le> b \<longleftrightarrow> to_tuple a \<le> to_tuple b"

definition less_order_key :: "order_key \<Rightarrow> order_key \<Rightarrow> bool" where
  "a < b \<longleftrightarrow> to_tuple a < to_tuple b"

instance
  by standard (auto simp: less_eq_order_key_def less_order_key_def dest: order.antisym)

end

definition epoch_ns :: "time \<Rightarrow> int" where
  "epoch_ns t = truncate_rat (float64 (float64 (of_int t / 1000000) * 1000000000))"

definition create_snapshot_frame_boundary :: "time \<Rightarrow> string \<Rightarrow> order_key option" where
  "create_snapshot_frame_boundary t source_key =
     map_option (\<lambda>b. OrderKey (epoch_ns t) b 0 2147483647 2147483647) (ascii_encode source_key)"

definition create_delta_order_key :: "time \<Rightarrow> string \<Rightarrow> int \<Rightarrow> order_key option" where
  "create_delta_order_key t source_key idx =
     map_option (\<lambda>b. OrderKey (epoch_ns t) b 1 0 idx) (ascii_encode source_key)"

text \<open>
  Two roundings to 53 bits keep microseconds apart: up to \<open>2 ^ 32\<close> seconds (the year 2106) the first error is at
  most \<open>2 powi -22\<close> seconds and the second at most 256 nanoseconds.
\<close>

lemma rounded_twice_apart:
  fixes s :: rat
  assumes "\<bar>f - s\<bar> \<le> 1 / 4194304" "\<bar>f' - s'\<bar> \<le> 1 / 4194304" "s + 1 / 1000000 \<le> s'"
    and "\<bar>g - f * 1000000000\<bar> \<le> 256" "\<bar>g' - f' * 1000000000\<bar> \<le> 256"
  shows "g + 1 \<le> g'"
  using assms unfolding abs_le_iff by linarith

lemma epoch_ns_strict:
  assumes "0 \<le> t" "t < u" "u < 2 ^ 32 * 1000000"
  shows "epoch_ns t < epoch_ns u"
proof -
  let ?s = "\<lambda>v :: int. (of_int v :: rat) / 1000000"
  let ?f = "\<lambda>v. float64 (?s v)" let ?g = "\<lambda>v. float64 (?f v * 1000000000)"
  have small: "(of_int v :: rat) < 4294967296000000" if "v \<le> u" for v
  proof -
    have "v < 4294967296000000" using that assms(3) by simp
    then show ?thesis by (metis of_int_less_iff of_int_numeral)
  qed
  have first: "\<bar>?f v - ?s v\<bar> \<le> 1 / 4194304 \<and> 0 \<le> ?f v" if "0 \<le> v" "v \<le> u" for v
  proof -
    have "of_int v < (4294967296000000 :: rat)" by (rule small [OF that(2)])
    then have "\<bar>?s v\<bar> < 2 ^ 32" using that by simp
    from float64_error [OF this] that show ?thesis by (simp add: float64_nonneg power_int_def power_one_over)
  qed
  have second: "\<bar>?g v - ?f v * 1000000000\<bar> \<le> 256 \<and> 0 \<le> ?g v" if "0 \<le> v" "v \<le> u" for v
  proof -
    have "of_int v < (4294967296000000 :: rat)" by (rule small [OF that(2)])
    then have "?s v \<le> 4294967296" by simp
    moreover have "?f v \<le> ?s v + 1 / 4194304" using first [OF that] unfolding abs_le_iff by linarith
    ultimately have "\<bar>?f v * 1000000000\<bar> < 2 ^ 62" using first [OF that] by simp
    from float64_error [OF this] first [OF that] show ?thesis by (simp add: float64_nonneg power_int_def)
  qed
  have apart: "?s t + 1 / 1000000 \<le> ?s u"
  proof -
    have "(of_int t :: rat) + 1 \<le> of_int u" using assms(2) by (metis of_int_1 of_int_add of_int_le_iff zless_imp_add1_zle)
    then show ?thesis by simp
  qed
  have "?g t + 1 \<le> ?g u"
    by (rule rounded_twice_apart [of "?f t" "?s t" "?f u" "?s u"])
      (use first [of t] first [of u] second [of t] second [of u] apart assms less_imp_le [OF assms(2)]
        le_less_trans [OF assms(1,2)] in \<open>simp_all only: order.refl less_imp_le\<close>)
  moreover have "epoch_ns t = \<lfloor>?g t\<rfloor>" "epoch_ns u = \<lfloor>?g u\<rfloor>"
    using second [of t] second [of u] assms by (simp_all add: epoch_ns_def truncate_rat_def)
  ultimately show ?thesis by linarith
qed

lemma epoch_ns_less:
  assumes "0 \<le> t" "t < 2 ^ 32 * 1000000" "0 \<le> u" "u < 2 ^ 32 * 1000000"
  shows "epoch_ns t < epoch_ns u \<longleftrightarrow> t < u" "epoch_ns t = epoch_ns u \<longleftrightarrow> t = u"
  using epoch_ns_strict [of t u] epoch_ns_strict [of u t] assms by (cases t u rule: linorder_cases; simp)+

lemma ascii_encode_inject:
  assumes "ascii_encode s = Some b" "ascii_encode s' = Some b"
  shows "s = s'"
proof -
  have "inj (of_char :: char \<Rightarrow> 8 word)"
  proof (rule injI)
    fix c d assume "(of_char c :: 8 word) = of_char d"
    then have "(of_nat (of_char c) :: 8 word) = of_nat (of_char d)" by (simp only: of_nat_of_char)
    then have "take_bit 8 (of_char c :: nat) = take_bit 8 (of_char d)"
      by (simp only: word_of_nat_eq_iff) simp
    then show "c = d" by (simp add: take_bit_eq_mod)
  qed
  then show ?thesis using assms by (auto simp: ascii_encode_def inj_map_eq_map split: if_splits)
qed

text \<open>C30: For times up to the year 2106 the detour through doubles loses nothing: delta keys compare exactly as time to the microsecond, then source token byte by byte, then index in the packet; and a delta lies above the boundary of a snapshot exactly when it is later, or simultaneous with a token that is not smaller.\<close>

theorem key_order_is_time_order:
  assumes "0 \<le> t" "t < 2 ^ 32 * 1000000" "0 \<le> u" "u < 2 ^ 32 * 1000000"
    and "create_delta_order_key t k i = Some a" "create_delta_order_key u m j = Some b"
    and "create_snapshot_frame_boundary t k = Some s"
  shows "(a < b \<longleftrightarrow> t < u \<or> t = u \<and> (the (ascii_encode k) < the (ascii_encode m) \<or> k = m \<and> i < j))
    \<and> (s < b \<longleftrightarrow> t < u \<or> t = u \<and> the (ascii_encode k) \<le> the (ascii_encode m))"
proof -
  obtain bk bm where enc: "ascii_encode k = Some bk" "ascii_encode m = Some bm"
    and keys: "a = OrderKey (epoch_ns t) bk 1 0 i" "b = OrderKey (epoch_ns u) bm 1 0 j"
      "s = OrderKey (epoch_ns t) bk 0 2147483647 2147483647"
    using assms(5-7) by (auto simp: create_delta_order_key_def create_snapshot_frame_boundary_def)
  have "bk = bm \<longleftrightarrow> k = m" using ascii_encode_inject enc by force
  then show ?thesis
    using epoch_ns_less [OF assms(1-4)] by (auto simp: keys enc less_order_key_def to_tuple_def less_prod_def')
qed

theorem key_order_is_time_order_witness:
  "the (create_delta_order_key 5 ''b'' 0) < the (create_delta_order_key 6 ''a'' 0)"
  using key_order_is_time_order [of 5 6 "''b''" 0 "the (create_delta_order_key 5 ''b'' 0)" "''a''" 0
      "the (create_delta_order_key 6 ''a'' 0)" "the (create_snapshot_frame_boundary 5 ''b'')"]
  by (simp add: create_delta_order_key_def create_snapshot_frame_boundary_def ascii_encode_def)

end
