(* ===== verification/OrderBook.thy ===== *)
theory OrderBook
  imports OrderKey
begin

section \<open>Order books\<close>

text \<open>
  \<open>data/orderbook/\<close>: the rows of the canonical snapshot and delta tables, their integrity validators
  (\<open>integrity.py\<close>) and the two in-memory reconstructors (\<open>reconstruction.py\<close>), by price (L2) and by order (L3).
  A table is the list of its rows, already of the canonical column types; prices and sizes are decimal128
  values; the exchange and feed times are nanoseconds, the knowledge time is microseconds, as in the column
  types.  The reconstructors are handed the microseconds of a row's exchange time (\<open>row_time\<close>): their order
  keys call \<open>timestamp()\<close> of the value \<open>pyarrow\<close> delivers, and what that makes of a part of a microsecond
  is not modelled.  A dictionary keyed by prices compares them by value.  Raises are \<open>Inl\<close>; a method that changes the
  object before it raises returns the changed object beside the error.
\<close>

type_synonym stream_scope = "string \<times> string \<times> string \<times> string"

record book_row =
  br_source :: string
  br_channel :: string
  br_symbol :: string
  br_date :: int
  br_time :: int
  br_feed_time :: "int option"
  br_knowledge_time :: time
  br_seq :: int
  br_order_key :: string

record snapshot_row = book_row +
  sr_snapshot_id :: string
  sr_complete :: bool
  sr_side :: string
  sr_level :: int
  sr_price :: dec
  sr_size :: dec
  sr_count :: "int option"

record delta_row = book_row +
  dr_sub_idx :: int
  dr_type :: string
  dr_action :: string
  dr_side :: string
  dr_price :: "dec option"
  dr_size :: "dec option"
  dr_order_id :: "string option"
  dr_level :: "int option"
  dr_count :: "int option"

definition row_scope :: "'a book_row_scheme \<Rightarrow> stream_scope" where
  "row_scope r = (br_source r, br_channel r, br_symbol r, date_str (br_date r))"

definition row_time :: "'a book_row_scheme \<Rightarrow> time" where
  "row_time r = br_time r div 1000"

subsection \<open>Integrity\<close>

datatype integrity_error =
    NonAsciiOrderKey nat
  | PriceNotPositive nat
  | NegativeSize nat
  | Decimal128Bounds dec
  | InvalidSide nat string
  | NegativeLevel nat
  | InvalidAction nat string
  | InvalidDeltaType nat string
  | ClearWithPayload nat
  | SideAllOutsideClear nat
  | MissingPrice nat
  | MissingSize nat
  | MbpWithOrderId nat
  | MboWithoutOrderId nat
  | BatchDuplicate nat
  | GlobalDuplicate nat
  | FrameMetadataInconsistency string
  | DuplicatePriceLevel dec

definition max_decimal128 :: dec where
  "max_decimal128 = 99999999999999999999999999999999999999 / 1000000000000000000"

definition validate_decimal128_bounds :: "dec \<Rightarrow> integrity_error + dec" where
  "validate_decimal128_bounds v = raise_if (v > max_decimal128 \<or> v < - max_decimal128) (Decimal128Bounds v) (Inr v)"

text \<open>The identity sets of a batch hold row identities and price levels side by side.\<close>

type_synonym snapshot_identity = "string \<times> string \<times> string \<times> int \<times> int \<times> string \<times> int"
type_synonym delta_identity = "string \<times> string \<times> string \<times> int \<times> int \<times> int"

definition snapshot_identity :: "snapshot_row \<Rightarrow> snapshot_identity" where
  "snapshot_identity r = (br_source r, br_channel r, br_symbol r, br_date r, br_seq r, upper (sr_side r), sr_level r)"

definition delta_identity :: "delta_row \<Rightarrow> delta_identity" where
  "delta_identity r = (br_source r, br_channel r, br_symbol r, br_date r, br_seq r, dr_sub_idx r)"

type_synonym frame_meta = "int \<times> int option \<times> time \<times> int \<times> int \<times> string \<times> bool"

definition frame_meta :: "snapshot_row \<Rightarrow> frame_meta" where
  "frame_meta r = (br_time r, br_feed_time r, br_knowledge_time r, br_date r, br_seq r, br_order_key r, sr_complete r)"

record snapshot_scan =
  sn_identities :: "snapshot_identity set"
  sn_levels :: "(string \<times> string \<times> dec) set"
  sn_frames :: "string \<rightharpoonup> frame_meta"

definition scan_snapshot_row ::
    "snapshot_identity set \<Rightarrow> snapshot_scan \<Rightarrow> nat \<Rightarrow> snapshot_row \<Rightarrow> integrity_error + snapshot_scan" where
  "scan_snapshot_row existing sc i r =
     raise_if (ascii_encode (br_order_key r) = None) (NonAsciiOrderKey i) (
     raise_if (sr_price r \<le> 0) (PriceNotPositive i) (
     raise_if (sr_size r < 0) (NegativeSize i) (
     rbind (validate_decimal128_bounds (sr_price r)) (\<lambda>_.
     rbind (validate_decimal128_bounds (sr_size r)) (\<lambda>_.
     let side = upper (sr_side r); row_id = snapshot_identity r; snap = sr_snapshot_id r in
     raise_if (side \<notin> {''BID'', ''ASK''}) (InvalidSide i side) (
     raise_if (sr_level r < 0) (NegativeLevel i) (
     raise_if (row_id \<in> sn_identities sc) (BatchDuplicate i) (
     raise_if (row_id \<in> existing) (GlobalDuplicate i) (
     raise_if (case sn_frames sc snap of None \<Rightarrow> False | Some m \<Rightarrow> m \<noteq> frame_meta r)
       (FrameMetadataInconsistency snap) (
     raise_if ((snap, side, sr_price r) \<in> sn_levels sc) (DuplicatePriceLevel (sr_price r)) (
     Inr \<lparr>sn_identities = insert row_id (sn_identities sc),
          sn_levels = insert (snap, side, sr_price r) (sn_levels sc),
          sn_frames = (case sn_frames sc snap of
             None \<Rightarrow> (sn_frames sc)(snap \<mapsto> frame_meta r) | Some _ \<Rightarrow> sn_frames sc)\<rparr>)))))))))))"

fun scan_snapshot_rows ::
    "snapshot_identity set \<Rightarrow> snapshot_scan \<Rightarrow> nat \<Rightarrow> snapshot_row list \<Rightarrow> integrity_error + snapshot_scan" where
  "scan_snapshot_rows existing sc i [] = Inr sc"
| "scan_snapshot_rows existing sc i (r # rs) =
     rbind (scan_snapshot_row existing sc i r) (\<lambda>sc'. scan_snapshot_rows existing sc' (Suc i) rs)"

definition validate_snapshot_table ::
    "snapshot_identity set \<Rightarrow> snapshot_row list \<Rightarrow> integrity_error + snapshot_row list" where
  "validate_snapshot_table existing rows =
     rbind (scan_snapshot_rows existing \<lparr>sn_identities = {}, sn_levels = {}, sn_frames = Map.empty\<rparr> 0 rows)
       (\<lambda>_. Inr rows)"

text \<open>Sections B to D of the delta validator: what one row must look like.\<close>

definition check_delta_payload :: "nat \<Rightarrow> delta_row \<Rightarrow> integrity_error + unit" where
  "check_delta_payload i r =
     (let action = upper (dr_action r); side = upper (dr_side r); ty = upper (dr_type r) in
      raise_if (action \<notin> {''ADD'', ''MODIFY'', ''CANCEL'', ''DELETE'', ''CLEAR''}) (InvalidAction i action) (
      raise_if (side \<notin> {''BID'', ''ASK'', ''ALL''}) (InvalidSide i side) (
      raise_if (ty \<notin> {''MBP'', ''MBO''}) (InvalidDeltaType i ty) (
      if action = ''CLEAR'' then
        raise_if (dr_price r \<noteq> None \<or> dr_size r \<noteq> None \<or> dr_level r \<noteq> None \<or> dr_order_id r \<noteq> None)
          (ClearWithPayload i) (Inr ())
      else
        raise_if (side = ''ALL'') (SideAllOutsideClear i) (
        case dr_price r of None \<Rightarrow> Inl (MissingPrice i) | Some px \<Rightarrow>
        raise_if (px \<le> 0) (PriceNotPositive i) (
        rbind (validate_decimal128_bounds px) (\<lambda>_.
        rbind (if action = ''DELETE'' then Inr () else
                 case dr_size r of None \<Rightarrow> Inl (MissingSize i) | Some sz \<Rightarrow>
                 raise_if (sz < 0) (NegativeSize i) (rbind (validate_decimal128_bounds sz) (\<lambda>_. Inr ()))) (\<lambda>_.
        if ty = ''MBP'' then raise_if (dr_order_id r \<noteq> None) (MbpWithOrderId i) (Inr ())
        else raise_if (case dr_order_id r of None \<Rightarrow> True | Some oid \<Rightarrow> strip oid = []) (MboWithoutOrderId i)
          (Inr ())))))))))"

fun scan_delta_rows ::
    "delta_identity set \<Rightarrow> delta_identity set \<Rightarrow> nat \<Rightarrow> delta_row list \<Rightarrow> integrity_error + unit" where
  "scan_delta_rows existing seen i [] = Inr ()"
| "scan_delta_rows existing seen i (r # rs) =
     raise_if (ascii_encode (br_order_key r) = None) (NonAsciiOrderKey i) (
     rbind (check_delta_payload i r) (\<lambda>_.
     raise_if (delta_identity r \<in> seen) (BatchDuplicate i) (
     raise_if (delta_identity r \<in> existing) (GlobalDuplicate i) (
     scan_delta_rows existing (insert (delta_identity r) seen) (Suc i) rs))))"

definition validate_delta_table :: "delta_identity set \<Rightarrow> delta_row list \<Rightarrow> integrity_error + delta_row list" where
  "validate_delta_table existing rows = rbind (scan_delta_rows existing {} 0 rows) (\<lambda>_. Inr rows)"

subsection \<open>Books by price\<close>

datatype shape_policy = FIXED_DEPTH_N | VARIABLE_DEPTH | SOURCE_DECLARED_COMPLETE
datatype ordering_policy = OPAQUE | MONOTONIC_INTEGER | CONTIGUOUS_PACKET | RESET_AWARE
datatype crossed_category =
  CROSSED_TRANSIENT | CROSSED_AUCTION_OR_HALT | CROSSED_DUE_TO_INVALID_RECONSTRUCTION | CROSSED_PERSISTENT_ANOMALY
datatype book_status = UNINITIALIZED | BOOK_VALID | STATE_UNORDERABLE | PARTIAL_SNAPSHOT_REJECTED

record price_level =
  lv_price :: dec
  lv_size :: dec
  lv_count :: "int option"

record depth_ladder =
  dl_scope :: stream_scope
  dl_time :: time
  dl_order_key :: string
  dl_bids :: "price_level list"
  dl_asks :: "price_level list"
  dl_valid :: bool
  dl_status :: book_status
  dl_crossed :: bool
  dl_category :: "crossed_category option"
  dl_applied :: int

definition best_bid :: "depth_ladder \<Rightarrow> dec option" where
  "best_bid l = (case dl_bids l of [] \<Rightarrow> None | v # _ \<Rightarrow> Some (lv_price v))"

definition best_ask :: "depth_ladder \<Rightarrow> dec option" where
  "best_ask l = (case dl_asks l of [] \<Rightarrow> None | v # _ \<Rightarrow> Some (lv_price v))"

definition mid_price :: "depth_ladder \<Rightarrow> dec option" where
  "mid_price l = (case (best_bid l, best_ask l) of (Some b, Some a) \<Rightarrow> Some (ddiv (dadd b a) 2) | _ \<Rightarrow> None)"

definition spread :: "depth_ladder \<Rightarrow> dec option" where
  "spread l = (case (best_bid l, best_ask l) of (Some b, Some a) \<Rightarrow> Some (dsub a b) | _ \<Rightarrow> None)"

record mbp_book =
  mb_scope :: stream_scope
  mb_policy :: ordering_policy
  mb_max_transient :: int
  mb_bids :: "(dec, price_level) dict"
  mb_asks :: "(dec, price_level) dict"
  mb_boundary :: "order_key option"
  mb_last_key :: "order_key option"
  mb_time :: "time option"
  mb_order_key :: "string option"
  mb_initialized :: bool
  mb_valid :: bool
  mb_status :: book_status
  mb_applied :: int
  mb_crossed_reads :: int

definition new_mbp :: "stream_scope \<Rightarrow> ordering_policy \<Rightarrow> int \<Rightarrow> mbp_book" where
  "new_mbp scope policy max_transient =
     \<lparr>mb_scope = scope, mb_policy = policy, mb_max_transient = max_transient, mb_bids = [], mb_asks = [],
      mb_boundary = None, mb_last_key = None, mb_time = None, mb_order_key = None, mb_initialized = False,
      mb_valid = False, mb_status = UNINITIALIZED, mb_applied = 0, mb_crossed_reads = 0\<rparr>"

datatype book_error = ScopeMismatch stream_scope | NonAsciiKey | MissingOrderId

definition level_of :: "snapshot_row \<Rightarrow> price_level" where
  "level_of r = \<lparr>lv_price = sr_price r, lv_size = sr_size r, lv_count = sr_count r\<rparr>"

text \<open>The rows of one side by level index (later rows overwrite), then the levels that hold anything by price.\<close>

definition frame_side :: "string \<Rightarrow> snapshot_row list \<Rightarrow> (int, price_level) dict" where
  "frame_side side rows =
     fold (\<lambda>r d. if upper (sr_side r) = side then dict_put (sr_level r) (level_of r) d else d) rows []"

definition fill_side :: "(int, price_level) dict \<Rightarrow> (dec, price_level) dict" where
  "fill_side frame = fold (\<lambda>v d. if lv_size v > 0 then dict_put (lv_price v) v d else d) (dict_values frame) []"

definition depth_required :: "int option \<Rightarrow> (int, price_level) dict \<Rightarrow> (int, price_level) dict \<Rightarrow> int" where
  "depth_required expected bids asks =
     (case expected of
        Some n \<Rightarrow> if n \<noteq> 0 then n else max (max (int (length bids)) (int (length asks))) 1
      | None \<Rightarrow> max (max (int (length bids)) (int (length asks))) 1)"

definition reject_snapshot :: "mbp_book \<Rightarrow> mbp_book" where
  "reject_snapshot b = b\<lparr>mb_valid := False, mb_status := PARTIAL_SNAPSHOT_REJECTED\<rparr>"

definition apply_snapshot_frame ::
    "mbp_book \<Rightarrow> snapshot_row list \<Rightarrow> shape_policy \<Rightarrow> int option \<Rightarrow> (book_error + bool) \<times> mbp_book" where
  "apply_snapshot_frame b rows policy expected =
     (case rows of [] \<Rightarrow> (Inr False, reject_snapshot b) | first # _ \<Rightarrow>
      case find (\<lambda>r. row_scope r \<noteq> mb_scope b) rows of Some r \<Rightarrow> (Inl (ScopeMismatch (row_scope r)), b) | None \<Rightarrow>
      if \<not> list_all sr_complete rows then (Inr False, reject_snapshot b)
      else let bids = frame_side ''BID'' rows; asks = frame_side ''ASK'' rows; n = depth_required expected bids asks in
      if policy = FIXED_DEPTH_N \<and> \<not> list_all (\<lambda>l. l \<in> fst ` set bids \<and> l \<in> fst ` set asks) [0..n - 1]
      then (Inr False, reject_snapshot b)
      else let b' = b\<lparr>mb_bids := fill_side bids, mb_asks := fill_side asks, mb_time := Some (row_time first),
                     mb_order_key := Some (br_order_key first)\<rparr> in
      case create_snapshot_frame_boundary (row_time first) (br_order_key first) of
        None \<Rightarrow> (Inl NonAsciiKey, b')
      | Some k \<Rightarrow> (Inr True, b'\<lparr>mb_boundary := Some k, mb_last_key := Some k, mb_initialized := True,
          mb_valid := True, mb_status := BOOK_VALID, mb_applied := 0, mb_crossed_reads := 0\<rparr>))"

text \<open>An incremental message; \<open>order_count\<close> is only read by the book by price.\<close>

record book_delta =
  bd_time :: time
  bd_order_key :: string
  bd_sub_idx :: int
  bd_action :: string
  bd_side :: string
  bd_price :: "dec option"
  bd_size :: "dec option"
  bd_count :: "int option"

definition dict_pop :: "'k \<Rightarrow> ('k, 'v) dict \<Rightarrow> ('k, 'v) dict" where
  "dict_pop k d = AList.delete k d"

definition put_level :: "string \<Rightarrow> price_level \<Rightarrow> mbp_book \<Rightarrow> mbp_book" where
  "put_level side v b =
     (if side = ''BID'' then b\<lparr>mb_bids := dict_put (lv_price v) v (mb_bids b)\<rparr>
      else if side = ''ASK'' then b\<lparr>mb_asks := dict_put (lv_price v) v (mb_asks b)\<rparr> else b)"

definition pop_level :: "string \<Rightarrow> dec \<Rightarrow> mbp_book \<Rightarrow> mbp_book" where
  "pop_level side price b =
     (if side = ''BID'' then b\<lparr>mb_bids := dict_pop price (mb_bids b)\<rparr>
      else if side = ''ASK'' then b\<lparr>mb_asks := dict_pop price (mb_asks b)\<rparr> else b)"

text \<open>The action mechanics: \<open>None\<close> is the early \<open>return False\<close>.\<close>

definition mbp_action :: "book_delta \<Rightarrow> mbp_book \<Rightarrow> mbp_book option" where
  "mbp_action d b =
     (let action = upper (bd_action d); side = upper (bd_side d);
          put = (\<lambda>price qty. put_level side \<lparr>lv_price = price, lv_size = qty, lv_count = bd_count d\<rparr> b) in
      if action = ''CLEAR'' then
        Some (if side = ''BID'' then b\<lparr>mb_bids := []\<rparr> else if side = ''ASK'' then b\<lparr>mb_asks := []\<rparr>
              else if side = ''ALL'' then b\<lparr>mb_bids := [], mb_asks := []\<rparr> else b)
      else if action = ''ADD'' then
        (case (bd_price d, bd_size d) of (Some price, Some qty) \<Rightarrow> if qty \<le> 0 then None else Some (put price qty) | _ \<Rightarrow> None)
      else if action = ''MODIFY'' then
        (case (bd_price d, bd_size d) of
           (Some price, Some qty) \<Rightarrow> Some (if qty \<le> 0 then pop_level side price b else put price qty)
         | _ \<Rightarrow> None)
      else if action = ''CANCEL'' then
        (case bd_price d of
           None \<Rightarrow> None
         | Some price \<Rightarrow> let rem = (case bd_size d of Some s \<Rightarrow> s | None \<Rightarrow> 0)
             in Some (if rem \<le> 0 then pop_level side price b else put price rem))
      else if action = ''DELETE'' then
        Some (case bd_price d of None \<Rightarrow> b | Some price \<Rightarrow> pop_level side price b)
      else Some b)"

definition mbp_apply_delta :: "mbp_book \<Rightarrow> book_delta \<Rightarrow> (book_error + bool) \<times> mbp_book" where
  "mbp_apply_delta b d =
     (if \<not> mb_initialized b \<or> \<not> mb_valid b then (Inr False, b)
      else case mb_boundary b of None \<Rightarrow> (Inr False, b) | Some boundary \<Rightarrow>
      case create_delta_order_key (bd_time d) (bd_order_key d) (bd_sub_idx d) of
        None \<Rightarrow> (Inl NonAsciiKey, b)
      | Some k \<Rightarrow>
        if k \<le> boundary then (Inr False, b)
        else if (case mb_last_key b of Some l \<Rightarrow> k < l | None \<Rightarrow> False) \<and> mb_policy b = OPAQUE
        then (Inr False, b\<lparr>mb_valid := False, mb_status := STATE_UNORDERABLE\<rparr>)
        else let b' = b\<lparr>mb_last_key := Some k, mb_time := Some (bd_time d), mb_order_key := Some (bd_order_key d)\<rparr> in
        case mbp_action d b' of
          None \<Rightarrow> (Inr False, b')
        | Some b'' \<Rightarrow> (Inr True, b''\<lparr>mb_applied := mb_applied b'' + 1\<rparr>))"

text \<open>\<open>xs[:n]\<close>\<close>

definition slice_to :: "int \<Rightarrow> 'a list \<Rightarrow> 'a list" where
  "slice_to n xs = (if n < 0 then take (length xs - nat (- n)) xs else take (nat n) xs)"

definition sorted_levels :: "(dec, price_level) dict \<Rightarrow> price_level list" where
  "sorted_levels d = map snd (sort_key fst d)"

definition mbp_ladder_state :: "mbp_book \<Rightarrow> int \<Rightarrow> bool \<Rightarrow> depth_ladder \<times> mbp_book" where
  "mbp_ladder_state b top_n auction =
     (let bids = slice_to top_n (rev (sorted_levels (mb_bids b)));
          asks = slice_to top_n (sorted_levels (mb_asks b));
          crossed = (case (bids, asks) of (v # _, w # _) \<Rightarrow> lv_price v \<ge> lv_price w | _ \<Rightarrow> False);
          reads = (if crossed then mb_crossed_reads b + 1 else 0);
          category = (if \<not> crossed then None
            else Some (if auction then CROSSED_AUCTION_OR_HALT
              else if reads \<le> mb_max_transient b then CROSSED_TRANSIENT else CROSSED_PERSISTENT_ANOMALY))
      in (\<lparr>dl_scope = mb_scope b, dl_time = (case mb_time b of Some t \<Rightarrow> t | None \<Rightarrow> 0),
           dl_order_key = (case mb_order_key b of Some k \<Rightarrow> k | None \<Rightarrow> []), dl_bids = bids, dl_asks = asks,
           dl_valid = mb_valid b, dl_status = mb_status b, dl_crossed = crossed, dl_category = category,
           dl_applied = mb_applied b\<rparr>,
          b\<lparr>mb_crossed_reads := reads\<rparr>))"

subsection \<open>Books by order\<close>

record order_entry =
  oe_order_id :: string
  oe_side :: string
  oe_price :: dec
  oe_size :: dec
  oe_priority :: int

record mbo_book =
  mo_scope :: stream_scope
  mo_policy :: ordering_policy
  mo_orders :: "(string, order_entry) dict"
  mo_priority :: int
  mo_last_key :: "order_key option"
  mo_time :: "time option"
  mo_order_key :: "string option"
  mo_valid :: bool
  mo_status :: book_status
  mo_applied :: int

definition new_mbo :: "stream_scope \<Rightarrow> ordering_policy \<Rightarrow> mbo_book" where
  "new_mbo scope policy =
     \<lparr>mo_scope = scope, mo_policy = policy, mo_orders = [], mo_priority = 0, mo_last_key = None, mo_time = None,
      mo_order_key = None, mo_valid = True, mo_status = BOOK_VALID, mo_applied = 0\<rparr>"

definition mbo_action :: "book_delta \<Rightarrow> string \<Rightarrow> mbo_book \<Rightarrow> mbo_book option" where
  "mbo_action d oid b =
     (let action = upper (bd_action d); side = upper (bd_side d); found = dict_get (mo_orders b) oid in
      if action = ''ADD'' then
        (case (bd_price d, bd_size d) of
           (Some price, Some qty) \<Rightarrow>
             if qty \<le> 0 then None
             else Some (b\<lparr>mo_priority := mo_priority b + 1,
               mo_orders := dict_put oid \<lparr>oe_order_id = oid, oe_side = side, oe_price = price, oe_size = qty,
                 oe_priority = mo_priority b + 1\<rparr> (mo_orders b)\<rparr>)
         | _ \<Rightarrow> None)
      else if action = ''MODIFY'' then
        (case (found, bd_size d) of
           (Some e, Some qty) \<Rightarrow>
             if qty \<le> 0 then Some (b\<lparr>mo_orders := dict_pop oid (mo_orders b)\<rparr>)
             else let price = (case bd_price d of Some p \<Rightarrow> p | None \<Rightarrow> oe_price e);
                      moved = price \<noteq> oe_price e;
                      counter = (if moved then mo_priority b + 1 else mo_priority b) in
             Some (b\<lparr>mo_priority := counter,
               mo_orders := dict_put oid \<lparr>oe_order_id = oid, oe_side = oe_side e, oe_price = price, oe_size = qty,
                 oe_priority = (if moved then counter else oe_priority e)\<rparr> (mo_orders b)\<rparr>)
         | _ \<Rightarrow> None)
      else if action = ''CANCEL'' then
        Some (case found of
           None \<Rightarrow> b
         | Some e \<Rightarrow> let rem = (case bd_size d of Some s \<Rightarrow> s | None \<Rightarrow> 0) in
             if rem \<le> 0 then b\<lparr>mo_orders := dict_pop oid (mo_orders b)\<rparr>
             else b\<lparr>mo_orders := dict_put oid \<lparr>oe_order_id = oid, oe_side = oe_side e, oe_price = oe_price e,
               oe_size = rem, oe_priority = oe_priority e\<rparr> (mo_orders b)\<rparr>)
      else if action = ''DELETE'' then Some (b\<lparr>mo_orders := dict_pop oid (mo_orders b)\<rparr>)
      else Some b)"

definition mbo_apply_delta :: "mbo_book \<Rightarrow> book_delta \<Rightarrow> string \<Rightarrow> (book_error + bool) \<times> mbo_book" where
  "mbo_apply_delta b d oid =
     (if oid = [] then (Inl MissingOrderId, b)
      else case create_delta_order_key (bd_time d) (bd_order_key d) (bd_sub_idx d) of
        None \<Rightarrow> (Inl NonAsciiKey, b)
      | Some k \<Rightarrow>
        if (case mo_last_key b of Some l \<Rightarrow> k < l | None \<Rightarrow> False) \<and> mo_policy b = OPAQUE
        then (Inr False, b\<lparr>mo_valid := False, mo_status := STATE_UNORDERABLE\<rparr>)
        else let b' = b\<lparr>mo_last_key := Some k, mo_time := Some (bd_time d), mo_order_key := Some (bd_order_key d)\<rparr> in
        case mbo_action d oid b' of
          None \<Rightarrow> (Inr False, b')
        | Some b'' \<Rightarrow> (Inr True, b''\<lparr>mo_applied := mo_applied b'' + 1\<rparr>))"

definition add_order :: "string \<Rightarrow> order_entry \<Rightarrow> (dec, dec \<times> int) dict \<Rightarrow> (dec, dec \<times> int) dict" where
  "add_order side e agg =
     (if oe_side e = side
      then let (total_size, n) = (case dict_get agg (oe_price e) of Some x \<Rightarrow> x | None \<Rightarrow> (0, 0))
           in dict_put (oe_price e) (dadd total_size (oe_size e), n + 1) agg
      else agg)"

definition aggregate_side :: "string \<Rightarrow> order_entry list \<Rightarrow> (dec, dec \<times> int) dict" where
  "aggregate_side side orders = fold (add_order side) orders []"

definition aggregate_levels :: "(dec, dec \<times> int) dict \<Rightarrow> price_level list" where
  "aggregate_levels agg =
     map (\<lambda>(price, total_size, n). \<lparr>lv_price = price, lv_size = total_size, lv_count = Some n\<rparr>) (sort_key fst agg)"

definition mbo_ladder_state :: "mbo_book \<Rightarrow> int \<Rightarrow> depth_ladder" where
  "mbo_ladder_state b top_n =
     (let orders = dict_values (mo_orders b) in
      \<lparr>dl_scope = mo_scope b, dl_time = (case mo_time b of Some t \<Rightarrow> t | None \<Rightarrow> 0),
       dl_order_key = (case mo_order_key b of Some k \<Rightarrow> k | None \<Rightarrow> []),
       dl_bids = slice_to top_n (rev (aggregate_levels (aggregate_side ''BID'' orders))),
       dl_asks = slice_to top_n (aggregate_levels (aggregate_side ''ASK'' orders)),
       dl_valid = mo_valid b, dl_status = mo_status b, dl_crossed = False, dl_category = None,
       dl_applied = mo_applied b\<rparr>)"

subsection \<open>Sides\<close>

definition side_ok :: "(dec, price_level) dict \<Rightarrow> bool" where
  "side_ok d \<longleftrightarrow> dict_wf d \<and> (\<forall>(p, v) \<in> set d. lv_price v = p \<and> 0 < lv_size v)"

definition mbp_ok :: "mbp_book \<Rightarrow> bool" where
  "mbp_ok b \<longleftrightarrow> side_ok (mb_bids b) \<and> side_ok (mb_asks b)"

lemma dict_get_pop: "dict_get (dict_pop k d) k' = (if k' = k then None else dict_get d k')"
  by (simp add: dict_get_def dict_pop_def delete_conv')

lemma dict_wf_pop [simp]: "dict_wf d \<Longrightarrow> dict_wf (dict_pop k d)"
  by (simp add: dict_wf_def dict_pop_def distinct_delete)

lemma dict_wf_get: "dict_wf d \<Longrightarrow> (k, v) \<in> set d \<longleftrightarrow> dict_get d k = Some v"
  by (simp add: dict_wf_def dict_get_def)

lemma side_ok_iff:
  "side_ok d \<longleftrightarrow> dict_wf d \<and> (\<forall>p v. dict_get d p = Some v \<longrightarrow> lv_price v = p \<and> 0 < lv_size v)"
  unfolding side_ok_def using dict_wf_get [of d] by fastforce

lemma side_ok_Nil [simp]: "side_ok []"
  by (simp add: side_ok_def dict_wf_def)

lemma side_ok_put: "side_ok d \<Longrightarrow> 0 < lv_size v \<Longrightarrow> side_ok (dict_put (lv_price v) v d)"
  by (auto simp: side_ok_iff dict_get_put dict_wf_put split: if_splits)

lemma side_ok_pop: "side_ok d \<Longrightarrow> side_ok (dict_pop p d)"
  by (auto simp: side_ok_iff dict_get_pop split: if_splits)

lemma fill_side_ok [simp]: "side_ok (fill_side frame)"
proof -
  have "side_ok (fold (\<lambda>v d. if lv_size v > 0 then dict_put (lv_price v) v d else d) vs d)" if "side_ok d" for vs d
    using that by (induction vs arbitrary: d) (auto intro: side_ok_put)
  then show ?thesis by (simp add: fill_side_def)
qed

lemma put_level_ok: "mbp_ok b \<Longrightarrow> 0 < lv_size v \<Longrightarrow> mbp_ok (put_level side v b)"
  by (simp add: mbp_ok_def put_level_def side_ok_put)

lemma pop_level_ok: "mbp_ok b \<Longrightarrow> mbp_ok (pop_level side p b)"
  by (simp add: mbp_ok_def pop_level_def side_ok_pop)

lemma mbp_action_ok: "mbp_action d b = Some b' \<Longrightarrow> mbp_ok b \<Longrightarrow> mbp_ok b'"
  unfolding mbp_action_def Let_def
  by (auto simp: mbp_ok_def not_le intro!: put_level_ok [unfolded mbp_ok_def] pop_level_ok [unfolded mbp_ok_def]
      split: if_splits option.splits)

lemma mbp_apply_ok: "mbp_ok b \<Longrightarrow> mbp_ok (snd (mbp_apply_delta b d))"
proof -
  assume ok: "mbp_ok b"
  then have "mbp_ok (b\<lparr>mb_last_key := k, mb_time := t, mb_order_key := o'\<rparr>)" for k t o'
    by (simp add: mbp_ok_def)
  from mbp_action_ok [OF _ this] ok show ?thesis
    by (auto simp: mbp_apply_delta_def Let_def mbp_ok_def split: option.splits)
qed

lemma mbp_snapshot_ok: "mbp_ok b \<Longrightarrow> mbp_ok (snd (apply_snapshot_frame b rows policy n))"
  by (auto simp: apply_snapshot_frame_def Let_def mbp_ok_def reject_snapshot_def split: list.splits option.splits)

subsection \<open>The ladder\<close>

text \<open>
  The shown levels are the first of all levels in price order: every level that is not shown is worse than
  every level that is.
\<close>

lemma sorted_levels_set: "set (sorted_levels d) = set (dict_values d)"
  by (simp add: sorted_levels_def dict_values_def)

lemma sorted_levels_strict: "side_ok d \<Longrightarrow> sorted_wrt (\<lambda>v w. lv_price v < lv_price w) (sorted_levels d)"
proof -
  assume ok: "side_ok d"
  have eq: "map lv_price (sorted_levels d) = map fst (sort_key fst d)"
    using ok by (auto simp: sorted_levels_def side_ok_def)
  have "distinct (map fst (sort_key fst d))"
    using ok by (simp add: side_ok_def dict_wf_def distinct_map)
  then have "sorted_wrt (<) (map lv_price (sorted_levels d))"
    using sorted_sort_key [of fst d] by (simp add: eq strict_sorted_iff)
  then show ?thesis by (simp add: sorted_wrt_map)
qed

lemma slice_nonneg: "0 \<le> n \<Longrightarrow> slice_to n xs = take (nat n) xs"
  by (simp add: slice_to_def)

lemma take_sorted_wrt:
  assumes "sorted_wrt R xs" "x \<in> set (take n xs)" "y \<in> set xs" "y \<notin> set (take n xs)"
  shows "R x y"
  using assms sorted_wrt_append [of R "take n xs" "drop n xs"] set_append [of "take n xs" "drop n xs"] by auto

text \<open>The emitted ladder shows the best levels in price order: bids strictly falling, asks strictly rising, each level one the book holds with a positive size, as many as asked for or as there are, every level left out worse than every level shown; the book counts as crossed exactly when some bid is priced at or above some ask.\<close>

theorem ladder_shows_best_levels:
  assumes "mbp_ok b" "0 < n" "mbp_ladder_state b n auction = (l, b')"
  shows "sorted_wrt (\<lambda>v w. lv_price w < lv_price v) (dl_bids l) \<and> sorted_wrt (\<lambda>v w. lv_price v < lv_price w) (dl_asks l)
    \<and> set (dl_bids l) \<subseteq> set (dict_values (mb_bids b)) \<and> set (dl_asks l) \<subseteq> set (dict_values (mb_asks b))
    \<and> list_all (\<lambda>v. 0 < lv_size v) (dl_bids l @ dl_asks l)
    \<and> length (dl_bids l) = min (nat n) (length (mb_bids b)) \<and> length (dl_asks l) = min (nat n) (length (mb_asks b))
    \<and> (\<forall>v \<in> set (dl_bids l). \<forall>w \<in> set (dict_values (mb_bids b)) - set (dl_bids l). lv_price w < lv_price v)
    \<and> (\<forall>v \<in> set (dl_asks l). \<forall>w \<in> set (dict_values (mb_asks b)) - set (dl_asks l). lv_price v < lv_price w)
    \<and> (dl_crossed l \<longleftrightarrow>
         (\<exists>v \<in> set (dict_values (mb_bids b)). \<exists>w \<in> set (dict_values (mb_asks b)). lv_price w \<le> lv_price v))"
proof -
  let ?B = "rev (sorted_levels (mb_bids b))" and ?A = "sorted_levels (mb_asks b)"
  have l: "dl_bids l = take (nat n) ?B" "dl_asks l = take (nat n) ?A"
    "dl_crossed l \<longleftrightarrow> (case (dl_bids l, dl_asks l) of (v # _, w # _) \<Rightarrow> lv_price v \<ge> lv_price w | _ \<Rightarrow> False)"
  proof -
    have "l = fst (mbp_ladder_state b n auction)" using assms(3) by simp
    then show "dl_bids l = take (nat n) ?B" "dl_asks l = take (nat n) ?A"
      "dl_crossed l \<longleftrightarrow> (case (dl_bids l, dl_asks l) of (v # _, w # _) \<Rightarrow> lv_price v \<ge> lv_price w | _ \<Rightarrow> False)"
      using assms(2) by (simp_all only: mbp_ladder_state_def Let_def slice_nonneg less_imp_le fst_conv depth_ladder.simps)
  qed
  have sB: "sorted_wrt (\<lambda>v w. lv_price w < lv_price v) ?B" and sA: "sorted_wrt (\<lambda>v w. lv_price v < lv_price w) ?A"
    using assms(1) sorted_levels_strict by (simp_all add: mbp_ok_def sorted_wrt_rev)
  have order: "sorted_wrt (\<lambda>v w. lv_price w < lv_price v) (dl_bids l)" "sorted_wrt (\<lambda>v w. lv_price v < lv_price w) (dl_asks l)"
    using sB sA by (simp_all add: l sorted_wrt_take)
  have sub: "set (dl_bids l) \<subseteq> set (dict_values (mb_bids b))" "set (dl_asks l) \<subseteq> set (dict_values (mb_asks b))"
    unfolding l by (metis set_rev set_take_subset sorted_levels_set)+
  have held: "list_all (\<lambda>v. 0 < lv_size v) (dl_bids l @ dl_asks l)"
    using sub assms(1) by (force simp: list_all_iff mbp_ok_def side_ok_def dict_values_def)
  have len: "length (dl_bids l) = min (nat n) (length (mb_bids b))" "length (dl_asks l) = min (nat n) (length (mb_asks b))"
    by (simp_all add: l sorted_levels_def min.commute)
  have worse: "\<forall>v \<in> set (dl_bids l). \<forall>w \<in> set (dict_values (mb_bids b)) - set (dl_bids l). lv_price w < lv_price v"
    "\<forall>v \<in> set (dl_asks l). \<forall>w \<in> set (dict_values (mb_asks b)) - set (dl_asks l). lv_price v < lv_price w"
    using take_sorted_wrt [OF sB] take_sorted_wrt [OF sA] by (simp_all add: l sorted_levels_set)
  obtain m where m: "nat n = Suc m" using assms(2) by (metis Suc_pred zero_less_nat_eq)
  have crossed: "dl_crossed l \<longleftrightarrow> (\<exists>v \<in> set (dict_values (mb_bids b)). \<exists>w \<in> set (dict_values (mb_asks b)). lv_price w \<le> lv_price v)"
    unfolding l m sorted_levels_set [symmetric] set_rev [of "sorted_levels (mb_bids b)", symmetric]
    using sB sA by (cases ?B; cases ?A) (auto simp del: set_rev intro: order.trans less_imp_le; force)+
  show ?thesis using order sub held len worse crossed by blast
qed

subsection \<open>Resulting-size semantics\<close>

text \<open>
  The contract of the deltas: a message names a price and the size that results there, nothing when it is
  zero.  \<open>depth\<close> is what one side of the book promises to show; \<open>delta_effect\<close> is the promised change.
\<close>

type_synonym depth = "dec \<rightharpoonup> dec \<times> int option"

definition depth_of :: "(dec, price_level) dict \<Rightarrow> depth" where
  "depth_of d p = map_option (\<lambda>v. (lv_size v, lv_count v)) (dict_get d p)"

definition side_of :: "string \<Rightarrow> mbp_book \<Rightarrow> (dec, price_level) dict" where
  "side_of side b = (if side = ''BID'' then mb_bids b else mb_asks b)"

definition addresses :: "book_delta \<Rightarrow> string \<Rightarrow> bool" where
  "addresses d side \<longleftrightarrow> upper (bd_side d) = side \<or> upper (bd_side d) = ''ALL'' \<and> upper (bd_action d) = ''CLEAR''"

definition resulting_size :: "book_delta \<Rightarrow> dec" where
  "resulting_size d = (if upper (bd_action d) = ''DELETE'' then 0 else case bd_size d of Some q \<Rightarrow> q | None \<Rightarrow> 0)"

definition delta_effect :: "book_delta \<Rightarrow> depth \<Rightarrow> depth" where
  "delta_effect d m =
     (if upper (bd_action d) = ''CLEAR'' then Map.empty
      else case bd_price d of
        None \<Rightarrow> m
      | Some p \<Rightarrow> m(p := (if resulting_size d \<le> 0 then None else Some (resulting_size d, bd_count d))))"

definition book_actions :: "string set" where
  "book_actions = {''ADD'', ''MODIFY'', ''CANCEL'', ''DELETE'', ''CLEAR''}"

lemma depth_of_Nil [simp]: "depth_of [] = Map.empty"
  by (simp add: depth_of_def fun_eq_iff)

lemma depth_of_put [simp]: "depth_of (dict_put p v d) = (depth_of d)(p \<mapsto> (lv_size v, lv_count v))"
  by (simp add: depth_of_def dict_get_put fun_eq_iff)

lemma depth_of_pop [simp]: "depth_of (dict_pop p d) = (depth_of d)(p := None)"
  by (simp add: depth_of_def dict_get_pop fun_eq_iff)

lemma depth_put_level:
  "side \<in> {''BID'', ''ASK''} \<Longrightarrow> depth_of (side_of side (put_level s v b)) =
     (if s = side then (depth_of (side_of side b))(lv_price v \<mapsto> (lv_size v, lv_count v)) else depth_of (side_of side b))"
  by (auto simp: side_of_def put_level_def)

lemma depth_pop_level:
  "side \<in> {''BID'', ''ASK''} \<Longrightarrow> depth_of (side_of side (pop_level s p b)) =
     (if s = side then (depth_of (side_of side b))(p := None) else depth_of (side_of side b))"
  by (auto simp: side_of_def pop_level_def)

text \<open>The mechanics of the five actions all implement the one promise.\<close>

lemma mbp_action_effect:
  assumes "mbp_action d b = Some b'" and "upper (bd_action d) \<in> book_actions" and "side \<in> {''BID'', ''ASK''}"
  shows "depth_of (side_of side b') =
    (if addresses d side then delta_effect d (depth_of (side_of side b)) else depth_of (side_of side b))"
proof -
  consider "upper (bd_action d) = ''CLEAR''" | "upper (bd_action d) = ''ADD''" | "upper (bd_action d) = ''MODIFY''"
    | "upper (bd_action d) = ''CANCEL''" | "upper (bd_action d) = ''DELETE''"
    using assms(2) by (auto simp: book_actions_def)
  then show ?thesis
  proof cases
    case 1
    then show ?thesis using assms(1,3)
      by (auto simp: mbp_action_def Let_def side_of_def addresses_def delta_effect_def)
  next
    case 2
    then obtain p q where "bd_price d = Some p" "bd_size d = Some q" "0 < q"
      and "b' = put_level (upper (bd_side d)) \<lparr>lv_price = p, lv_size = q, lv_count = bd_count d\<rparr> b"
      using assms(1) by (auto simp: mbp_action_def Let_def split: option.splits if_splits)
    then show ?thesis using 2 assms(3)
      by (auto simp: addresses_def delta_effect_def resulting_size_def depth_put_level)
  next
    case 3
    then obtain p q where "bd_price d = Some p" "bd_size d = Some q"
      and "b' = (if q \<le> 0 then pop_level (upper (bd_side d)) p b
        else put_level (upper (bd_side d)) \<lparr>lv_price = p, lv_size = q, lv_count = bd_count d\<rparr> b)"
      using assms(1) by (auto simp: mbp_action_def Let_def split: option.splits)
    then show ?thesis using 3 assms(3)
      by (auto simp: addresses_def delta_effect_def resulting_size_def depth_put_level depth_pop_level)
  next
    case 4
    then obtain p where "bd_price d = Some p"
      and "b' = (let q = (case bd_size d of Some s \<Rightarrow> s | None \<Rightarrow> 0) in if q \<le> 0 then pop_level (upper (bd_side d)) p b
        else put_level (upper (bd_side d)) \<lparr>lv_price = p, lv_size = q, lv_count = bd_count d\<rparr> b)"
      using assms(1) by (auto simp: mbp_action_def Let_def split: option.splits)
    then show ?thesis using 4 assms(3)
      by (auto simp: addresses_def delta_effect_def resulting_size_def depth_put_level depth_pop_level Let_def)
  next
    case 5
    then show ?thesis using assms(1,3)
      by (auto simp: mbp_action_def Let_def addresses_def delta_effect_def resulting_size_def depth_pop_level
          split: option.splits)
  qed
qed


text \<open>What an action leaves alone, and when it is refused: only the message decides.\<close>

lemma put_level_frame [simp]:
  "mb_boundary (put_level s v b) = mb_boundary b" "mb_last_key (put_level s v b) = mb_last_key b"
  "mb_policy (put_level s v b) = mb_policy b" "mb_valid (put_level s v b) = mb_valid b"
  "mb_initialized (put_level s v b) = mb_initialized b" "mb_status (put_level s v b) = mb_status b"
  "mb_applied (put_level s v b) = mb_applied b" "mb_scope (put_level s v b) = mb_scope b"
  by (simp_all add: put_level_def)

lemma pop_level_frame [simp]:
  "mb_boundary (pop_level s p b) = mb_boundary b" "mb_last_key (pop_level s p b) = mb_last_key b"
  "mb_policy (pop_level s p b) = mb_policy b" "mb_valid (pop_level s p b) = mb_valid b"
  "mb_initialized (pop_level s p b) = mb_initialized b" "mb_status (pop_level s p b) = mb_status b"
  "mb_applied (pop_level s p b) = mb_applied b" "mb_scope (pop_level s p b) = mb_scope b"
  by (simp_all add: pop_level_def)

lemma mbp_action_frame:
  assumes "mbp_action d b = Some b'"
  shows "mb_boundary b' = mb_boundary b" "mb_last_key b' = mb_last_key b" "mb_policy b' = mb_policy b"
    "mb_valid b' = mb_valid b" "mb_initialized b' = mb_initialized b" "mb_status b' = mb_status b"
    "mb_applied b' = mb_applied b" "mb_scope b' = mb_scope b"
  using assms by (auto simp: mbp_action_def Let_def split: if_splits option.splits)

definition refused_action :: "book_delta \<Rightarrow> bool" where
  "refused_action d \<longleftrightarrow>
     upper (bd_action d) = ''ADD'' \<and> (bd_price d = None \<or> (case bd_size d of None \<Rightarrow> True | Some q \<Rightarrow> q \<le> 0))
     \<or> upper (bd_action d) = ''MODIFY'' \<and> (bd_price d = None \<or> bd_size d = None)
     \<or> upper (bd_action d) = ''CANCEL'' \<and> bd_price d = None"

lemma mbp_action_refused: "mbp_action d b = None \<longleftrightarrow> refused_action d"
  by (auto simp: mbp_action_def refused_action_def Let_def split: option.splits if_splits)

abbreviation "delta_key d \<equiv> create_delta_order_key (bd_time d) (bd_order_key d) (bd_sub_idx d)"

text \<open>\<open>mbp_apply_delta\<close> by outcome: ignored, out of order, refused after the key was taken, applied.\<close>

definition in_play :: "mbp_book \<Rightarrow> book_delta \<Rightarrow> bool" where
  "in_play b d \<longleftrightarrow> mb_initialized b \<and> mb_valid b
     \<and> (case (mb_boundary b, delta_key d) of (Some s, Some k) \<Rightarrow> s < k | _ \<Rightarrow> False)"

definition out_of_order :: "mbp_book \<Rightarrow> book_delta \<Rightarrow> bool" where
  "out_of_order b d \<longleftrightarrow> mb_policy b = OPAQUE
     \<and> (case (mb_last_key b, delta_key d) of (Some l, Some k) \<Rightarrow> k < l | _ \<Rightarrow> False)"

definition take_key :: "mbp_book \<Rightarrow> book_delta \<Rightarrow> mbp_book" where
  "take_key b d = b\<lparr>mb_last_key := delta_key d, mb_time := Some (bd_time d), mb_order_key := Some (bd_order_key d)\<rparr>"

lemma mbp_apply_cases:
  obtains (ignored) r where "\<not> in_play b d" "mbp_apply_delta b d = (r, b)" "r \<noteq> Inr True"
  | (unorderable) "in_play b d" "out_of_order b d"
      "mbp_apply_delta b d = (Inr False, b\<lparr>mb_valid := False, mb_status := STATE_UNORDERABLE\<rparr>)"
  | (refused) "in_play b d" "\<not> out_of_order b d" "refused_action d"
      "mbp_apply_delta b d = (Inr False, take_key b d)"
  | (applied) b' where "in_play b d" "\<not> out_of_order b d" "\<not> refused_action d"
      "mbp_action d (take_key b d) = Some b'" "mbp_apply_delta b d = (Inr True, b'\<lparr>mb_applied := mb_applied b' + 1\<rparr>)"
proof (cases "in_play b d")
  case False
  then have "mbp_apply_delta b d \<in> {(Inr False, b), (Inl NonAsciiKey, b)}"
    by (auto simp: in_play_def mbp_apply_delta_def not_less split: option.splits)
  then show ?thesis using ignored False by force
next
  case True
  then obtain s k where sk: "mb_initialized b = True" "mb_valid b = True" "mb_boundary b = Some s" "delta_key d = Some k" "(k \<le> s) = False"
    by (auto simp: in_play_def not_le split: option.splits)
  show ?thesis
  proof (cases "out_of_order b d")
    case True
    then show ?thesis using sk unorderable \<open>in_play b d\<close>
      by (auto simp: mbp_apply_delta_def out_of_order_def split: option.splits)
  next
    case False
    then have no: "((case mb_last_key b of Some l \<Rightarrow> k < l | None \<Rightarrow> False) \<and> mb_policy b = OPAQUE) = False"
      using sk by (auto simp: out_of_order_def split: option.splits)
    have step: "mbp_apply_delta b d = (case mbp_action d (take_key b d) of
        None \<Rightarrow> (Inr False, take_key b d) | Some b'' \<Rightarrow> (Inr True, b''\<lparr>mb_applied := mb_applied b'' + 1\<rparr>))"
    proof -
      have "b\<lparr>mb_last_key := Some k, mb_time := Some (bd_time d), mb_order_key := Some (bd_order_key d)\<rparr> = take_key b d"
        by (simp add: take_key_def sk)
      then show ?thesis by (simp add: mbp_apply_delta_def sk no Let_def)
    qed
    show ?thesis
      using step False True refused applied mbp_action_refused [of d "take_key b d"]
      by (cases "mbp_action d (take_key b d)") auto
  qed
qed

lemma side_of_frame [simp]:
  "side_of side (take_key b d) = side_of side b" "side_of side (b\<lparr>mb_applied := n\<rparr>) = side_of side b"
  "side_of side (b\<lparr>mb_valid := v, mb_status := st\<rparr>) = side_of side b"
  by (simp_all add: side_of_def take_key_def)

text \<open>C31: Whatever message reaches a book by price, both sides afterwards show exactly what the resulting-size contract promises: a message that is applied sets or removes the level it names on the sides it addresses and touches nothing else, and a message that is not applied changes no level.\<close>

theorem mbp_delta_refines_contract:
  assumes "mbp_apply_delta b d = (res, b')" and "upper (bd_action d) \<in> book_actions"
  shows "\<forall>side \<in> {''BID'', ''ASK''}. depth_of (side_of side b') =
    (if res = Inr True \<and> addresses d side then delta_effect d (depth_of (side_of side b))
     else depth_of (side_of side b))"
proof (cases rule: mbp_apply_cases [of b d])
  case (applied b1)
  then have "res = Inr True" "b' = b1\<lparr>mb_applied := mb_applied b1 + 1\<rparr>" using assms(1) by simp_all
  then show ?thesis using mbp_action_effect [OF applied(4) assms(2)] by simp
qed (use assms(1) in simp_all)

lemma delta_effect_idem [simp]: "delta_effect d (delta_effect d m) = delta_effect d m"
  by (auto simp: delta_effect_def split: option.splits)

text \<open>Delivering an applied message to a book by price once more is accepted and changes no level of either side: only the counter of applied deltas moves.\<close>

theorem mbp_redelivery_is_harmless:
  assumes "mbp_apply_delta b d = (Inr True, b1)" and "upper (bd_action d) \<in> book_actions"
  shows "\<exists>b2. mbp_apply_delta b1 d = (Inr True, b2) \<and> mb_applied b2 = mb_applied b + 2 \<and> mb_last_key b2 = mb_last_key b1
    \<and> (\<forall>side \<in> {''BID'', ''ASK''}. depth_of (side_of side b2) = depth_of (side_of side b1))"
proof (cases rule: mbp_apply_cases [of b d])
  case (applied b')
  then have b1: "b1 = b'\<lparr>mb_applied := mb_applied b' + 1\<rparr>" using assms(1) by simp
  note frame = mbp_action_frame [OF applied(4)]
  have again: "in_play b1 d" "\<not> out_of_order b1 d"
    using applied(1) frame by (auto simp: b1 in_play_def out_of_order_def take_key_def split: option.splits)
  obtain b'' where act: "mbp_action d (take_key b1 d) = Some b''"
    using mbp_action_refused [of d "take_key b1 d"] applied(3) by fastforce
  then have b2: "mbp_apply_delta b1 d = (Inr True, b''\<lparr>mb_applied := mb_applied b'' + 1\<rparr>)"
    by (cases rule: mbp_apply_cases [of b1 d]) (use again applied(3) in simp_all)
  have "depth_of (side_of side b'') = depth_of (side_of side b1)" if "side \<in> {''BID'', ''ASK''}" for side
    using mbp_action_effect [OF act assms(2) that] mbp_action_effect [OF applied(4) assms(2) that]
    by (simp add: b1)
  moreover have "mb_applied b'' = mb_applied b + 1" "mb_last_key b'' = mb_last_key b1"
    using mbp_action_frame [OF act] frame by (simp_all add: b1 take_key_def)
  ultimately show ?thesis using b2 by simp
qed (use assms in simp_all)

subsection \<open>Runs of deltas\<close>

text \<open>A caller that hands over messages one after another; the list keeps the applied ones.\<close>

fun mbp_run :: "mbp_book \<Rightarrow> book_delta list \<Rightarrow> book_delta list \<times> mbp_book" where
  "mbp_run b [] = ([], b)"
| "mbp_run b (d # ds) =
     (let (r, b1) = mbp_apply_delta b d; (xs, b2) = mbp_run b1 ds in (if r = Inr True then d # xs else xs, b2))"

definition key_of :: "book_delta \<Rightarrow> order_key" where
  "key_of d = the (delta_key d)"

definition side_effect :: "string \<Rightarrow> book_delta \<Rightarrow> depth \<Rightarrow> depth" where
  "side_effect side d m = (if addresses d side then delta_effect d m else m)"

lemma mbp_run_invalid: "\<not> mb_valid b \<Longrightarrow> mbp_run b ds = ([], b)"
proof (induction ds)
  case (Cons d ds)
  then have "\<not> in_play b d" by (simp add: in_play_def)
  then show ?case
    by (cases rule: mbp_apply_cases [of b d]) (use Cons in \<open>auto simp: Let_def\<close>)
qed simp

lemma in_play_key: "in_play b d \<Longrightarrow> mb_boundary b = Some s \<Longrightarrow> delta_key d = Some (key_of d) \<and> s < key_of d"
  by (auto simp: in_play_def key_of_def split: option.splits)

text \<open>Keys never fall, and the depth is the fold of what was applied.\<close>

lemma mbp_run_ordered:
  assumes "mb_policy b = OPAQUE" "mb_boundary b = Some s" "mb_last_key b = Some l" "s \<le> l"
  shows "sorted (map key_of (fst (mbp_run b ds))) \<and> (\<forall>d \<in> set (fst (mbp_run b ds)). s < key_of d \<and> l \<le> key_of d)"
  using assms
proof (induction ds arbitrary: b l)
  case (Cons d ds)
  show ?case
  proof (cases rule: mbp_apply_cases [of b d])
    case (ignored r)
    then show ?thesis using Cons by (simp add: Let_def split_beta)
  next
    case unorderable
    then show ?thesis by (simp add: Let_def mbp_run_invalid)
  next
    case refused
    from in_play_key [OF refused(1) Cons.prems(2)] refused(2) Cons.prems(1,3)
    have k: "delta_key d = Some (key_of d)" "s < key_of d" "l \<le> key_of d" by (auto simp: out_of_order_def not_less)
    have "mb_policy (take_key b d) = OPAQUE" "mb_boundary (take_key b d) = Some s"
      "mb_last_key (take_key b d) = Some (key_of d)" "s \<le> key_of d"
      using Cons.prems k by (simp_all add: take_key_def)
    from Cons.IH [OF this] k show ?thesis by (auto simp: refused Let_def split_beta intro: order.trans)
  next
    case (applied b1)
    from in_play_key [OF applied(1) Cons.prems(2)] applied(2) Cons.prems(1,3)
    have k: "delta_key d = Some (key_of d)" "s < key_of d" "l \<le> key_of d" by (auto simp: out_of_order_def not_less)
    let ?b = "b1\<lparr>mb_applied := mb_applied b1 + 1\<rparr>"
    have "mb_policy ?b = OPAQUE" "mb_boundary ?b = Some s" "mb_last_key ?b = Some (key_of d)" "s \<le> key_of d"
      using Cons.prems k mbp_action_frame [OF applied(4)] by (simp_all add: take_key_def)
    from Cons.IH [OF this] k show ?thesis by (auto simp: applied Let_def split_beta intro: order.trans)
  qed
qed simp

lemma mbp_run_depth:
  assumes "\<forall>d \<in> set ds. upper (bd_action d) \<in> book_actions" and "side \<in> {''BID'', ''ASK''}"
  shows "depth_of (side_of side (snd (mbp_run b ds))) = fold (side_effect side) (fst (mbp_run b ds)) (depth_of (side_of side b))"
  using assms
proof (induction ds arbitrary: b)
  case (Cons d ds)
  then have known: "upper (bd_action d) \<in> book_actions" by simp
  show ?case
  proof (cases rule: mbp_apply_cases [of b d])
    case (applied b1)
    then show ?thesis using Cons mbp_action_effect [OF applied(4) known Cons.prems(2)]
      by (simp add: Let_def split_beta side_effect_def)
  qed (use Cons in \<open>simp_all add: Let_def split_beta\<close>)
qed simp

lemma mbp_run_unorderable: "mb_status b \<noteq> STATE_UNORDERABLE \<Longrightarrow> mb_status (snd (mbp_run b ds)) = STATE_UNORDERABLE \<Longrightarrow>
    \<not> mb_valid (snd (mbp_run b ds))"
proof (induction ds arbitrary: b)
  case (Cons d ds)
  show ?case
  proof (cases rule: mbp_apply_cases [of b d])
    case (ignored r)
    then show ?thesis using Cons by (simp add: Let_def split_beta)
  next
    case unorderable
    then show ?thesis by (simp add: Let_def mbp_run_invalid)
  next
    case refused
    then show ?thesis using Cons.IH [of "take_key b d"] Cons.prems by (simp add: Let_def split_beta take_key_def)
  next
    case (applied b1)
    then show ?thesis
      using Cons.IH [of "b1\<lparr>mb_applied := mb_applied b1 + 1\<rparr>"] Cons.prems mbp_action_frame [OF applied(4)]
      by (simp add: Let_def split_beta take_key_def)
  qed
qed simp

lemma snapshot_accepted:
  assumes "apply_snapshot_frame b0 rows policy n = (Inr True, b)"
  shows "\<exists>k. mb_boundary b = Some k \<and> mb_last_key b = Some k" "mb_policy b = mb_policy b0" "mb_status b = BOOK_VALID"
    "mb_valid b" "mb_initialized b" "mbp_ok b"
  using assms by (auto simp: apply_snapshot_frame_def Let_def mbp_ok_def split: list.splits option.splits if_splits)

text \<open>Once a snapshot frame has been accepted by a book whose source order is opaque, whatever messages follow, the applied ones lie strictly above the snapshot's boundary and their keys never fall; each side shows the snapshot's depth changed by exactly the applied messages in that order; and after a message out of order nothing at all is applied until the next snapshot.\<close>

theorem mbp_replay_in_key_order:
  assumes "apply_snapshot_frame b0 rows policy n = (Inr True, b)" and "mb_policy b0 = OPAQUE"
    and "mbp_run b ds = (xs, b')" and "\<forall>d \<in> set ds. upper (bd_action d) \<in> book_actions"
  shows "sorted (map key_of xs) \<and> (\<forall>d \<in> set xs. the (mb_boundary b) < key_of d)
    \<and> (\<forall>side \<in> {''BID'', ''ASK''}. depth_of (side_of side b') = fold (side_effect side) xs (depth_of (side_of side b)))
    \<and> (mb_status b' = STATE_UNORDERABLE \<longrightarrow> mbp_run b' ds' = ([], b'))"
proof -
  obtain k where k: "mb_boundary b = Some k" "mb_last_key b = Some k" using snapshot_accepted(1) [OF assms(1)] by blast
  have policy: "mb_policy b = OPAQUE" using snapshot_accepted(2) [OF assms(1)] assms(2) by simp
  have run: "xs = fst (mbp_run b ds)" "b' = snd (mbp_run b ds)" using assms(3) by simp_all
  have "\<not> mb_valid b'" if "mb_status b' = STATE_UNORDERABLE"
    using mbp_run_unorderable [of b ds] snapshot_accepted(3) [OF assms(1)] that run by simp
  then show ?thesis
    using mbp_run_ordered [OF policy k order.refl, of ds] mbp_run_depth [OF assms(4), of _ b] mbp_run_invalid [of b' ds']
    by (simp add: run k)
qed


subsection \<open>Validated tables\<close>

definition delta_of_row :: "delta_row \<Rightarrow> book_delta" where
  "delta_of_row r = \<lparr>bd_time = row_time r, bd_order_key = br_order_key r, bd_sub_idx = dr_sub_idx r,
     bd_action = dr_action r, bd_side = dr_side r, bd_price = dr_price r, bd_size = dr_size r, bd_count = dr_count r\<rparr>"

text \<open>A row the validator lets through and the reconstructor refuses.\<close>

definition empty_add :: "delta_row \<Rightarrow> bool" where
  "empty_add r \<longleftrightarrow> upper (dr_action r) = ''ADD'' \<and> dr_size r = Some 0"

lemma checked_payload:
  assumes "check_delta_payload i r = Inr u"
  shows "upper (dr_action r) \<in> book_actions"
    and "upper (dr_action r) \<noteq> ''CLEAR'' \<Longrightarrow> upper (dr_side r) \<in> {''BID'', ''ASK''} \<and> (\<exists>p > 0. dr_price r = Some p)
       \<and> (upper (dr_action r) \<noteq> ''DELETE'' \<longrightarrow> (\<exists>q \<ge> 0. dr_size r = Some q))"
    and "upper (dr_action r) = ''CLEAR'' \<Longrightarrow> dr_order_id r = None"
  using assms
  by (auto simp: check_delta_payload_def Let_def rbind_Inr_iff book_actions_def not_le not_less
      split: option.splits if_splits)

lemma checked_refused:
  assumes "check_delta_payload i r = Inr u"
  shows "refused_action (delta_of_row r) \<longleftrightarrow> empty_add r"
  using checked_payload [OF assms]
  by (auto simp: refused_action_def delta_of_row_def empty_add_def book_actions_def)

lemma scanned_rows:
  assumes "scan_delta_rows existing seen i rows = Inr u"
  shows "\<forall>r \<in> set rows. (\<exists>j v. check_delta_payload j r = Inr v) \<and> ascii_encode (br_order_key r) \<noteq> None"
    "distinct (map delta_identity rows)" "delta_identity ` set rows \<inter> (seen \<union> existing) = {}"
  using assms
proof (induction existing seen i rows rule: scan_delta_rows.induct)
  case (2 existing seen i r rs)
  { case 1 then show ?case using 2 by (auto simp: rbind_Inr_iff) }
  { case 2 then show ?case using "2.IH" by (auto simp: rbind_Inr_iff) }
  { case 3 then show ?case using "2.IH" by (auto simp: rbind_Inr_iff) }
qed simp_all


text \<open>Messages in key order above the boundary are all taken; only the refused actions drop out.\<close>

lemma mbp_run_in_order:
  assumes "mb_initialized b" "mb_valid b" "mb_boundary b = Some s" "mb_last_key b = Some l"
    and "sorted (map key_of ds)" "\<forall>d \<in> set ds. delta_key d \<noteq> None \<and> s < key_of d \<and> l \<le> key_of d"
  shows "fst (mbp_run b ds) = filter (\<lambda>d. \<not> refused_action d) ds \<and> mb_valid (snd (mbp_run b ds))"
  using assms
proof (induction ds arbitrary: b l)
  case (Cons d ds)
  have k: "delta_key d = Some (key_of d)" "s < key_of d" "l \<le> key_of d"
    using Cons.prems(6) by (auto simp: key_of_def)
  then have play: "in_play b d" "\<not> out_of_order b d"
    using Cons.prems(1-4) by (simp_all add: in_play_def out_of_order_def not_less)
  have rest: "sorted (map key_of ds)" "\<forall>x \<in> set ds. delta_key x \<noteq> None \<and> s < key_of x \<and> key_of d \<le> key_of x"
    using Cons.prems(5,6) by simp_all
  show ?case
  proof (cases rule: mbp_apply_cases [of b d])
    case refused
    have "mb_initialized (take_key b d)" "mb_valid (take_key b d)" "mb_boundary (take_key b d) = Some s"
      "mb_last_key (take_key b d) = Some (key_of d)"
      using Cons.prems k by (simp_all add: take_key_def)
    from Cons.IH [OF this rest] refused show ?thesis by (simp add: Let_def split_beta)
  next
    case (applied b1)
    let ?b = "b1\<lparr>mb_applied := mb_applied b1 + 1\<rparr>"
    have "mb_initialized ?b" "mb_valid ?b" "mb_boundary ?b = Some s" "mb_last_key ?b = Some (key_of d)"
      using Cons.prems k mbp_action_frame [OF applied(4)] by (simp_all add: take_key_def)
    from Cons.IH [OF this rest] applied show ?thesis by (simp add: Let_def split_beta)
  qed (use play in simp_all)
qed simp

text \<open>A delta table that the integrity validator accepts, handed to a valid book by price in key order above its boundary and its last key, is replayed completely and leaves the book valid, except that an ADD of size zero, which the validator lets through, is refused; each side ends as the fold of the other rows.\<close>

theorem valid_delta_table_replays:
  assumes "validate_delta_table existing rows = Inr rows'"
    and "mb_initialized b" "mb_valid b" "mb_boundary b = Some s" "mb_last_key b = Some l"
    and "sorted (map (key_of \<circ> delta_of_row) rows)"
    and "\<forall>r \<in> set rows. s < key_of (delta_of_row r) \<and> l \<le> key_of (delta_of_row r)"
  shows "let (xs, b') = mbp_run b (map delta_of_row rows) in
    xs = map delta_of_row (filter (\<lambda>r. \<not> empty_add r) rows) \<and> mb_valid b' \<and>
    (\<forall>side \<in> {''BID'', ''ASK''}. depth_of (side_of side b') = fold (side_effect side) xs (depth_of (side_of side b)))"
proof -
  let ?ds = "map delta_of_row rows"
  obtain u where "scan_delta_rows existing {} 0 rows = Inr u"
    using assms(1) by (auto simp: validate_delta_table_def)
  from scanned_rows(1) [OF this]
  have rows: "\<exists>j v. check_delta_payload j r = Inr v" "ascii_encode (br_order_key r) \<noteq> None" if "r \<in> set rows" for r
    using that by blast+
  have "\<forall>d \<in> set ?ds. delta_key d \<noteq> None \<and> s < key_of d \<and> l \<le> key_of d"
    using assms(7) rows(2) by (auto simp: create_delta_order_key_def delta_of_row_def)
  moreover have "sorted (map key_of ?ds)" using assms(6) by simp
  ultimately have run: "fst (mbp_run b ?ds) = filter (\<lambda>d. \<not> refused_action d) ?ds" "mb_valid (snd (mbp_run b ?ds))"
    using mbp_run_in_order [OF assms(2-5)] by blast+
  have same: "refused_action (delta_of_row r) \<longleftrightarrow> empty_add r" if "r \<in> set rows" for r
    using rows(1) [OF that] checked_refused by blast
  have "filter (\<lambda>d. \<not> refused_action d) ?ds = map delta_of_row (filter (\<lambda>r. \<not> empty_add r) rows)"
    using same by (auto simp: filter_map o_def intro: arg_cong [OF filter_cong])
  moreover have "\<forall>d \<in> set ?ds. upper (bd_action d) \<in> book_actions"
  proof -
    have "upper (dr_action r) \<in> book_actions" if "r \<in> set rows" for r
      using rows(1) [OF that] checked_payload(1) by blast
    then show ?thesis by (auto simp: delta_of_row_def)
  qed
  ultimately show ?thesis using run mbp_run_depth [of ?ds _ b] by (simp add: split_beta)
qed

text \<open>Reading the ladder is what counts towards a persistent crossing: reads without any message move it.\<close>

lemma crossed_reads:
  assumes "dl_crossed (fst (mbp_ladder_state b n False))"
  shows "((\<lambda>x. snd (mbp_ladder_state x n False)) ^^ k) b = b\<lparr>mb_crossed_reads := mb_crossed_reads b + int k\<rparr>"
proof (induction k)
  case (Suc k)
  have "snd (mbp_ladder_state (b\<lparr>mb_crossed_reads := c\<rparr>) n False) = b\<lparr>mb_crossed_reads := c + 1\<rparr>" for c
    using assms by (simp add: mbp_ladder_state_def Let_def)
  then show ?case by (simp add: Suc)
qed simp

lemma reading_makes_crossing_persistent:
  assumes "dl_crossed (fst (mbp_ladder_state b n False))" "mb_max_transient b \<le> mb_crossed_reads b + int k"
  shows "dl_category (fst (mbp_ladder_state (((\<lambda>x. snd (mbp_ladder_state x n False)) ^^ k) b) n False))
    = Some CROSSED_PERSISTENT_ANOMALY"
  unfolding crossed_reads [OF assms(1)] using assms by (simp add: mbp_ladder_state_def Let_def)

subsection \<open>Orders\<close>

text \<open>Every entry is filed under its own id with a positive size, and no two share a queue number.\<close>

definition mbo_ok :: "mbo_book \<Rightarrow> bool" where
  "mbo_ok b \<longleftrightarrow> dict_wf (mo_orders b)
     \<and> (\<forall>oid e. dict_get (mo_orders b) oid = Some e \<longrightarrow>
          oe_order_id e = oid \<and> 0 < oe_size e \<and> oe_priority e \<le> mo_priority b)
     \<and> (\<forall>oid e oid' e'. dict_get (mo_orders b) oid = Some e \<longrightarrow> dict_get (mo_orders b) oid' = Some e' \<longrightarrow>
          oe_priority e = oe_priority e' \<longrightarrow> oid = oid')"

lemma mbo_ok_new: "mbo_ok (new_mbo scope policy)"
  by (simp add: mbo_ok_def new_mbo_def dict_wf_def)

text \<open>The two ways an entry is written: with the next queue number, or with the number it already has.\<close>

lemma mbo_ok_append:
  assumes "mbo_ok b" "oe_order_id e = oid" "0 < oe_size e" "oe_priority e = mo_priority b + 1"
  shows "mbo_ok (b\<lparr>mo_priority := mo_priority b + 1, mo_orders := dict_put oid e (mo_orders b)\<rparr>)"
proof -
  have "oe_priority x \<noteq> mo_priority b + 1 \<and> oe_priority x \<le> mo_priority b + 1"
    if "dict_get (mo_orders b) i = Some x" for i x
    using assms(1) that by (force simp: mbo_ok_def)
  then show ?thesis using assms unfolding mbo_ok_def
    by (auto simp: dict_get_put dict_wf_put split: if_splits) fastforce
qed

lemma mbo_ok_keep:
  assumes "mbo_ok b" "dict_get (mo_orders b) oid = Some e0" "oe_order_id e = oid" "0 < oe_size e"
    and "oe_priority e = oe_priority e0"
  shows "mbo_ok (b\<lparr>mo_orders := dict_put oid e (mo_orders b)\<rparr>)"
  using assms unfolding mbo_ok_def
  by (auto simp: dict_get_put dict_wf_put split: if_splits)

lemma mbo_ok_pop: "mbo_ok b \<Longrightarrow> mbo_ok (b\<lparr>mo_orders := dict_pop oid (mo_orders b)\<rparr>)"
  unfolding mbo_ok_def by (simp add: dict_get_pop)

text \<open>What one action does to the order it names.\<close>

definition keeps_place :: "book_delta \<Rightarrow> order_entry \<Rightarrow> bool" where
  "keeps_place d e \<longleftrightarrow> upper (bd_action d) = ''CANCEL''
     \<or> upper (bd_action d) = ''MODIFY'' \<and> (case bd_price d of None \<Rightarrow> True | Some p \<Rightarrow> p = oe_price e)"

lemma mbo_action_cases:
  assumes "mbo_action d oid b = Some b'"
  obtains (removed) "b' = b\<lparr>mo_orders := dict_pop oid (mo_orders b)\<rparr>"
      "upper (bd_action d) \<in> {''MODIFY'', ''CANCEL'', ''DELETE''}"
  | (appended) e where "b' = b\<lparr>mo_priority := mo_priority b + 1, mo_orders := dict_put oid e (mo_orders b)\<rparr>"
      "oe_order_id e = oid" "0 < oe_size e" "oe_priority e = mo_priority b + 1"
      "upper (bd_action d) = ''ADD'' \<or> (\<exists>e0. dict_get (mo_orders b) oid = Some e0 \<and> \<not> keeps_place d e0)"
  | (kept) e0 e where "b' = b\<lparr>mo_orders := dict_put oid e (mo_orders b)\<rparr>" "dict_get (mo_orders b) oid = Some e0"
      "oe_order_id e = oid" "0 < oe_size e" "oe_priority e = oe_priority e0" "oe_side e = oe_side e0"
      "oe_price e = oe_price e0" "bd_size d = Some (oe_size e)" "keeps_place d e0"
  | (nothing) "b' = b" "upper (bd_action d) \<notin> {''ADD'', ''MODIFY'', ''DELETE''}"
proof -
  consider "upper (bd_action d) = ''ADD''" | "upper (bd_action d) = ''MODIFY''" | "upper (bd_action d) = ''CANCEL''"
    | "upper (bd_action d) = ''DELETE''" | "upper (bd_action d) \<notin> {''ADD'', ''MODIFY'', ''CANCEL'', ''DELETE''}"
    by blast
  then show ?thesis
  proof cases
    case 1
    then obtain p q where "bd_price d = Some p" "bd_size d = Some q" "0 < q" and
      "b' = b\<lparr>mo_priority := mo_priority b + 1, mo_orders := dict_put oid \<lparr>oe_order_id = oid,
        oe_side = upper (bd_side d), oe_price = p, oe_size = q, oe_priority = mo_priority b + 1\<rparr> (mo_orders b)\<rparr>"
      using assms by (auto simp: mbo_action_def Let_def not_le split: option.splits if_splits)
    then show ?thesis using 1 by (intro appended) auto
  next
    case 2
    then obtain e0 q where e0: "dict_get (mo_orders b) oid = Some e0" and q: "bd_size d = Some q"
      using assms by (auto simp: mbo_action_def Let_def split: option.splits)
    show ?thesis
    proof (cases "q \<le> 0")
      case True
      then show ?thesis using 2 assms e0 q by (intro removed) (simp_all add: mbo_action_def)
    next
      case False
      let ?p = "case bd_price d of Some p \<Rightarrow> p | None \<Rightarrow> oe_price e0"
      show ?thesis
      proof (cases "?p = oe_price e0")
        case True
        have "b' = b\<lparr>mo_orders := dict_put oid \<lparr>oe_order_id = oid, oe_side = oe_side e0, oe_price = oe_price e0,
            oe_size = q, oe_priority = oe_priority e0\<rparr> (mo_orders b)\<rparr>"
          using assms 2 e0 q False True by (simp add: mbo_action_def Let_def)
        then show ?thesis using e0 q False 2 True
          by (intro kept [where e = "\<lparr>oe_order_id = oid, oe_side = oe_side e0, oe_price = oe_price e0, oe_size = q, oe_priority = oe_priority e0\<rparr>" and ?e0.0 = e0])
            (auto simp: keeps_place_def split: option.splits)
      next
        case moved: False
        have "b' = b\<lparr>mo_priority := mo_priority b + 1, mo_orders := dict_put oid \<lparr>oe_order_id = oid,
            oe_side = oe_side e0, oe_price = ?p, oe_size = q, oe_priority = mo_priority b + 1\<rparr> (mo_orders b)\<rparr>"
          using assms 2 e0 q False moved by (simp add: mbo_action_def Let_def)
        then show ?thesis using e0 q False 2 moved
          by (intro appended) (auto simp: keeps_place_def split: option.splits)
      qed
    qed
  next
    case 3
    show ?thesis
    proof (cases "dict_get (mo_orders b) oid")
      case None
      show ?thesis by (rule nothing) (use 3 assms None in \<open>simp_all add: mbo_action_def\<close>)
    next
      case (Some e0)
      let ?q = "case bd_size d of Some s \<Rightarrow> s | None \<Rightarrow> 0"
      show ?thesis
      proof (cases "?q \<le> 0")
        case True
        then show ?thesis using 3 assms Some by (intro removed) (simp_all add: mbo_action_def Let_def)
      next
        case False
        then obtain q where q: "bd_size d = Some q" "0 < q" by (auto split: option.splits)
        have "b' = b\<lparr>mo_orders := dict_put oid \<lparr>oe_order_id = oid, oe_side = oe_side e0, oe_price = oe_price e0,
            oe_size = q, oe_priority = oe_priority e0\<rparr> (mo_orders b)\<rparr>"
          using assms 3 Some q by (simp add: mbo_action_def Let_def)
        then show ?thesis using Some q 3
          by (intro kept [where e = "\<lparr>oe_order_id = oid, oe_side = oe_side e0, oe_price = oe_price e0, oe_size = q, oe_priority = oe_priority e0\<rparr>" and ?e0.0 = e0])
            (auto simp: keeps_place_def)
      qed
    qed
  next
    case 4
    then show ?thesis using assms by (intro removed) (simp_all add: mbo_action_def)
  next
    case 5
    show ?thesis by (rule nothing) (use 5 assms in \<open>simp_all add: mbo_action_def\<close>)
  qed
qed

lemma mbo_action_ok: "mbo_ok b \<Longrightarrow> mbo_action d oid b = Some b' \<Longrightarrow> mbo_ok b'"
  by (erule mbo_action_cases) (auto intro: mbo_ok_append mbo_ok_keep mbo_ok_pop)


text \<open>What the venue's queue promises for each message.  \<open>rests_as\<close>: the order rests with these terms;
  \<open>behind_all\<close>: it stands behind every other order.\<close>

definition rests_as :: "string \<Rightarrow> string \<Rightarrow> dec \<Rightarrow> dec \<Rightarrow> (string, order_entry) dict \<Rightarrow> bool" where
  "rests_as oid side p q orders \<longleftrightarrow> (\<exists>e. dict_get orders oid = Some e \<and> oe_order_id e = oid
     \<and> oe_side e = side \<and> oe_price e = p \<and> oe_size e = q)"

definition behind_all :: "string \<Rightarrow> (string, order_entry) dict \<Rightarrow> bool" where
  "behind_all oid orders \<longleftrightarrow> (\<exists>e. dict_get orders oid = Some e
     \<and> (\<forall>x e2. x \<noteq> oid \<longrightarrow> dict_get orders x = Some e2 \<longrightarrow> oe_priority e2 < oe_priority e))"

text \<open>The contract of an applied message: the order it names goes from \<open>found\<close> to its entry in
  \<open>orders\<close>.  A new order, and one that moves to another price, joins the end of the queue; a
  modification at its price and a partial cancel change the size alone.\<close>

definition queue_contract ::
    "book_delta \<Rightarrow> string \<Rightarrow> order_entry option \<Rightarrow> (string, order_entry) dict \<Rightarrow> bool" where
  "queue_contract d oid found orders \<longleftrightarrow>
     (if upper (bd_action d) = ''ADD'' then
        \<exists>p q. bd_price d = Some p \<and> bd_size d = Some q \<and> 0 < q
          \<and> rests_as oid (upper (bd_side d)) p q orders \<and> behind_all oid orders
      else if upper (bd_action d) = ''MODIFY'' then
        \<exists>e q. found = Some e \<and> bd_size d = Some q
          \<and> (if q \<le> 0 then dict_get orders oid = None
             else if bd_price d = None \<or> bd_price d = Some (oe_price e)
             then dict_get orders oid = Some (e\<lparr>oe_size := q\<rparr>)
             else rests_as oid (oe_side e) (the (bd_price d)) q orders \<and> behind_all oid orders)
      else if upper (bd_action d) = ''CANCEL'' then
        dict_get orders oid = (case (found, bd_size d) of
            (Some e, Some q) \<Rightarrow> if q \<le> 0 then None else Some (e\<lparr>oe_size := q\<rparr>)
          | _ \<Rightarrow> None)
      else if upper (bd_action d) = ''DELETE'' then dict_get orders oid = None
      else dict_get orders oid = found)"

text \<open>The messages that say nothing applicable: an order without price or positive size, and a
  modification of an unknown order or without a size.\<close>

definition inapplicable :: "book_delta \<Rightarrow> order_entry option \<Rightarrow> bool" where
  "inapplicable d found \<longleftrightarrow>
     (upper (bd_action d) = ''ADD'' \<and> (bd_price d = None \<or> bd_size d = None \<or> (\<exists>q \<le> 0. bd_size d = Some q)))
     \<or> (upper (bd_action d) = ''MODIFY'' \<and> (found = None \<or> bd_size d = None))"

lemma behind_allI:
  assumes "mbo_ok b" "dict_get orders oid = Some e" "oe_priority e = mo_priority b + 1"
    and "\<And>x. x \<noteq> oid \<Longrightarrow> dict_get orders x = dict_get (mo_orders b) x"
  shows "behind_all oid orders"
  using assms by (force simp: behind_all_def mbo_ok_def)

lemma same_entry: "oe_order_id e = oid \<Longrightarrow> \<lparr>oe_order_id = oid, oe_side = oe_side e, oe_price = oe_price e,
    oe_size = q, oe_priority = oe_priority e\<rparr> = e\<lparr>oe_size := q\<rparr>"
  by (cases e) simp

lemma mbo_action_contract:
  assumes "mbo_ok b" and "mbo_action d oid b = Some b'"
  shows "queue_contract d oid (dict_get (mo_orders b) oid) (mo_orders b')"
proof -
  have id: "oe_order_id e = oid" if "dict_get (mo_orders b) oid = Some e" for e
    using assms(1) that by (simp add: mbo_ok_def)
  consider (add) "upper (bd_action d) = ''ADD''" | (modify) "upper (bd_action d) = ''MODIFY''"
    | (other) "upper (bd_action d) \<notin> {''ADD'', ''MODIFY''}"
    by blast
  then show ?thesis
  proof cases
    case add
    then obtain p q where pq: "bd_price d = Some p" "bd_size d = Some q" "0 < q"
      and b': "mo_orders b' = dict_put oid \<lparr>oe_order_id = oid, oe_side = upper (bd_side d), oe_price = p,
        oe_size = q, oe_priority = mo_priority b + 1\<rparr> (mo_orders b)"
      using assms(2) by (auto simp: mbo_action_def Let_def not_le split: option.splits if_splits)
    have "behind_all oid (mo_orders b')" by (rule behind_allI [OF assms(1)]) (auto simp: b' dict_get_put)
    then show ?thesis using add pq by (auto simp: queue_contract_def rests_as_def b' dict_get_put)
  next
    case modify
    then obtain e q where e: "dict_get (mo_orders b) oid = Some e" "bd_size d = Some q"
      using assms(2) by (auto simp: mbo_action_def split: option.splits)
    show ?thesis
    proof (cases "q \<le> 0 \<or> bd_price d = None \<or> bd_price d = Some (oe_price e)")
      case True
      then show ?thesis
        using modify e id assms(2)
        by (auto simp: mbo_action_def queue_contract_def Let_def dict_get_put dict_get_pop same_entry)
    next
      case False
      then obtain p where p: "bd_price d = Some p" "p \<noteq> oe_price e" "0 < q" by auto
      have b': "mo_orders b' = dict_put oid \<lparr>oe_order_id = oid, oe_side = oe_side e, oe_price = p,
          oe_size = q, oe_priority = mo_priority b + 1\<rparr> (mo_orders b)"
        using modify e p assms(2) by (auto simp: mbo_action_def Let_def)
      have "behind_all oid (mo_orders b')" by (rule behind_allI [OF assms(1)]) (auto simp: b' dict_get_put)
      then show ?thesis using modify e p by (auto simp: queue_contract_def rests_as_def b' dict_get_put)
    qed
  next
    case other
    then show ?thesis
      using id assms(2)
      by (auto simp: mbo_action_def queue_contract_def Let_def dict_get_put dict_get_pop same_entry
          split: option.splits if_splits)
  qed
qed



subsection \<open>The aggregated ladder\<close>

text \<open>Sums of decimals on a common grid are exact as long as they stay within 28 digits of it.\<close>

lemma dsum_exact:
  assumes "\<forall>x \<in> set xs. \<exists>k :: nat. x = of_nat k * pow10 e" and "sum_list xs \<le> 10 ^ 28 * pow10 e"
  shows "dsum xs = sum_list xs"
  using assms
proof (induction xs rule: rev_induct)
  case (snoc x xs)
  have grid: "\<exists>k :: nat. sum_list ys = of_nat k * pow10 e" if "\<forall>y \<in> set ys. \<exists>k :: nat. y = of_nat k * pow10 e" for ys
    using that
  proof (induction ys)
    case (Cons y ys)
    then obtain k l :: nat where "y = of_nat k * pow10 e" "sum_list ys = of_nat l * pow10 e" by auto
    then have "sum_list (y # ys) = of_nat (k + l) * pow10 e" by (simp add: algebra_simps)
    then show ?case by blast
  qed (auto intro: exI [of _ 0])
  have "0 \<le> x" using snoc.prems(1) by (auto simp: less_imp_le)
  then have "dsum xs = sum_list xs" using snoc by simp
  moreover obtain k :: nat where k: "sum_list (xs @ [x]) = of_nat k * pow10 e" using grid [OF snoc.prems(1)] by blast
  have "(of_nat k :: rat) \<le> of_nat (10 ^ 28)"
    using snoc.prems(2) pow10_pos [of e] unfolding k by simp
  then have "\<bar>int k\<bar> \<le> 10 ^ 28" unfolding of_nat_le_iff by simp
  with k have "dec28 (sum_list (xs @ [x]))" by (intro dec28I [of _ "int k" e]) simp_all
  ultimately show ?case by (simp add: dsum_def dadd_def dround_exact)
qed (simp add: dsum_def)

definition resting :: "string \<Rightarrow> dec \<Rightarrow> order_entry list \<Rightarrow> order_entry list" where
  "resting side p orders = filter (\<lambda>e. oe_side e = side \<and> oe_price e = p) orders"

lemma aggregate_side_snoc: "aggregate_side side (orders @ [e]) = add_order side e (aggregate_side side orders)"
  by (simp add: aggregate_side_def)

lemma aggregate_side_get:
  "dict_get (aggregate_side side orders) p =
     (if resting side p orders = [] then None
      else Some (dsum (map oe_size (resting side p orders)), int (length (resting side p orders))))"
proof (induction orders rule: rev_induct)
  case (snoc e orders)
  then show ?case
    by (auto simp: aggregate_side_snoc add_order_def resting_def dict_get_put dsum_def split: prod.splits)
qed (simp add: aggregate_side_def resting_def)

lemma aggregate_side_wf: "dict_wf (aggregate_side side orders)"
proof (induction orders rule: rev_induct)
  case Nil
  then show ?case by (simp add: aggregate_side_def dict_wf_def)
next
  case (snoc e orders)
  then show ?case by (simp add: aggregate_side_snoc add_order_def dict_wf_put split_beta Let_def)
qed

lemma length_dict_put: "length (dict_put k v d) \<le> Suc (length d)"
  by (induction d) auto

lemma length_aggregate_side: "length (aggregate_side side orders) \<le> length orders"
proof (induction orders rule: rev_induct)
  case (snoc e orders)
  then show ?case
    using order.trans [OF length_dict_put, of "aggregate_side side orders" "Suc (length orders)"]
    by (simp add: aggregate_side_snoc add_order_def split_beta Let_def)
qed (simp add: aggregate_side_def)

lemma aggregate_levels_strict:
  assumes "dict_wf agg"
  shows "sorted_wrt (\<lambda>v w. lv_price v < lv_price w) (aggregate_levels agg)"
proof -
  have "map lv_price (aggregate_levels agg) = map fst (sort_key fst agg)"
    by (auto simp: aggregate_levels_def)
  moreover have "distinct (map fst (sort_key fst agg))" using assms by (simp add: dict_wf_def distinct_map)
  ultimately have "sorted_wrt (<) (map lv_price (aggregate_levels agg))"
    using sorted_sort_key [of fst agg] by (simp add: strict_sorted_iff)
  then show ?thesis by (simp add: sorted_wrt_map)
qed

lemma aggregate_levels_iff:
  "v \<in> set (aggregate_levels (aggregate_side side orders)) \<longleftrightarrow> resting side (lv_price v) orders \<noteq> []
     \<and> lv_size v = dsum (map oe_size (resting side (lv_price v) orders))
     \<and> lv_count v = Some (int (length (resting side (lv_price v) orders)))"
proof -
  have "v \<in> set (aggregate_levels (aggregate_side side orders)) \<longleftrightarrow>
      (\<exists>t n. dict_get (aggregate_side side orders) (lv_price v) = Some (t, n) \<and> lv_size v = t \<and> lv_count v = Some n)"
    by (cases v) (force simp: aggregate_levels_def image_iff dict_wf_get [OF aggregate_side_wf, symmetric])
  then show ?thesis by (auto simp: aggregate_side_get)
qed

text \<open>The ladder of a book by order is its exact aggregation: with all levels asked for, a price is shown on a side exactly when orders rest there, with the number of those orders and, when all sizes lie on one decimal grid and their total stays within 28 digits of it, with the exact total of their sizes; bids fall and asks rise strictly.\<close>

theorem mbo_ladder_aggregates_orders:
  assumes "mbo_ladder_state b n = l" and "orders = dict_values (mo_orders b)" and "int (length orders) \<le> n"
    and "\<forall>e \<in> set orders. \<exists>k :: nat. oe_size e = of_nat k * pow10 g" and "sum_list (map oe_size orders) \<le> 10 ^ 28 * pow10 g"
  shows "sorted_wrt (\<lambda>v w. lv_price w < lv_price v) (dl_bids l) \<and> sorted_wrt (\<lambda>v w. lv_price v < lv_price w) (dl_asks l)
    \<and> (\<forall>(side, levels) \<in> {(''BID'', dl_bids l), (''ASK'', dl_asks l)}. \<forall>v. v \<in> set levels \<longleftrightarrow>
         (let es = resting side (lv_price v) orders in
          es \<noteq> [] \<and> lv_size v = sum_list (map oe_size es) \<and> lv_count v = Some (int (length es))))"
proof -
  have full: "slice_to n xs = xs" if "length xs \<le> length orders" for xs :: "price_level list"
    using that assms(3) by (simp add: slice_nonneg)
  have l: "dl_bids l = rev (aggregate_levels (aggregate_side ''BID'' orders))"
    "dl_asks l = aggregate_levels (aggregate_side ''ASK'' orders)"
    using length_aggregate_side by (simp_all add: assms(1) [symmetric] mbo_ladder_state_def assms(2) [symmetric] Let_def full aggregate_levels_def)
  have exact: "dsum (map oe_size (resting side p orders)) = sum_list (map oe_size (resting side p orders))" for side p
  proof (rule dsum_exact)
    show "\<forall>x \<in> set (map oe_size (resting side p orders)). \<exists>k :: nat. x = of_nat k * pow10 g"
      using assms(4) by (simp add: resting_def)
    have "sum_list (map oe_size (filter P orders)) \<le> sum_list (map oe_size orders)" for P
    proof -
      have "\<forall>e \<in> set orders. 0 \<le> oe_size e" using assms(4) by (auto simp: less_imp_le)
      then show ?thesis by (induction orders) auto
    qed
    then show "sum_list (map oe_size (resting side p orders)) \<le> 10 ^ 28 * pow10 g"
      using assms(5) by (auto simp: resting_def intro: order.trans)
  qed
  show ?thesis
    using aggregate_levels_strict [OF aggregate_side_wf]
    by (simp add: l sorted_wrt_rev aggregate_levels_iff exact Let_def)
qed


subsection \<open>What the book by order does not do\<close>

text \<open>The control action that empties a book by price leaves every order of a book by order in place.\<close>

lemma mbo_clear_keeps_orders: "upper (bd_action d) = ''CLEAR'' \<Longrightarrow> mbo_action d oid b = Some b"
  by (simp add: mbo_action_def)

text \<open>A message out of order marks the book invalid, but the next message in order is applied all the same.\<close>

lemma mbo_invalid_book_goes_on:
  assumes "\<not> mo_valid b" "oid \<noteq> []" "delta_key d = Some k" "mo_last_key b = Some l" "l \<le> k"
    and "upper (bd_action d) = ''DELETE''"
  shows "\<exists>b'. mbo_apply_delta b d oid = (Inr True, b') \<and> \<not> mo_valid b' \<and> dict_get (mo_orders b') oid = None"
  using assms by (simp add: not_less mbo_apply_delta_def mbo_action_def Let_def dict_get_pop)

text \<open>A redelivered ADD sends its order to the end of the queue.\<close>

lemma mbo_redelivered_add_loses_place:
  assumes "mbo_apply_delta b d oid = (Inr True, b1)" "upper (bd_action d) = ''ADD''" "mbo_apply_delta b1 d oid = (Inr True, b2)"
  shows "\<exists>e1 e2. dict_get (mo_orders b1) oid = Some e1 \<and> dict_get (mo_orders b2) oid = Some e2
    \<and> oe_priority e1 < oe_priority e2"
proof -
  have add: "\<exists>e. dict_get (mo_orders b') oid = Some e \<and> oe_priority e = mo_priority b + 1 \<and> mo_priority b' = mo_priority b + 1"
    if "mbo_apply_delta b d oid = (Inr True, b')" for b b'
    using that assms(2)
    by (auto simp: mbo_apply_delta_def mbo_action_def Let_def dict_get_put split: if_splits option.splits)
  show ?thesis using add [OF assms(1)] add [OF assms(3)] by auto
qed

subsection \<open>A concrete book\<close>

definition sample_row :: "string \<Rightarrow> dec \<Rightarrow> snapshot_row" where
  "sample_row side price =
     \<lparr>br_source = ''SRC'', br_channel = ''CH'', br_symbol = ''ES'', br_date = 0, br_time = 0, br_feed_time = None,
      br_knowledge_time = 0, br_seq = 1, br_order_key = ''1'', sr_snapshot_id = ''snap'', sr_complete = True,
      sr_side = side, sr_level = 0, sr_price = price, sr_size = 5, sr_count = None\<rparr>"

definition sample_rows :: "snapshot_row list" where
  "sample_rows = [sample_row ''BID'' 100, sample_row ''ASK'' 101]"

definition sample_book :: mbp_book where
  "sample_book = \<lparr>mb_scope = row_scope (sample_row ''BID'' 100), mb_policy = OPAQUE, mb_max_transient = 3,
     mb_bids = [(100, \<lparr>lv_price = 100, lv_size = 5, lv_count = None\<rparr>)],
     mb_asks = [(101, \<lparr>lv_price = 101, lv_size = 5, lv_count = None\<rparr>)],
     mb_boundary = Some (OrderKey 0 [49] 0 2147483647 2147483647),
     mb_last_key = Some (OrderKey 0 [49] 0 2147483647 2147483647), mb_time = Some 0, mb_order_key = Some ''1'',
     mb_initialized = True, mb_valid = True, mb_status = BOOK_VALID, mb_applied = 0, mb_crossed_reads = 0\<rparr>"

definition sample_delta :: "string \<Rightarrow> dec \<Rightarrow> dec \<Rightarrow> int \<Rightarrow> book_delta" where
  "sample_delta action price qty idx =
     \<lparr>bd_time = 0, bd_order_key = ''1'', bd_sub_idx = idx, bd_action = action, bd_side = ''BID'',
      bd_price = Some price, bd_size = Some qty, bd_count = None\<rparr>"

lemma epoch_ns_0 [simp]: "epoch_ns 0 = 0"
  by (simp add: epoch_ns_def float64_def truncate_rat_def)

lemma sample_key: "delta_key (sample_delta action price qty idx) = Some (OrderKey 0 [49] 1 0 idx)"
  by (simp add: create_delta_order_key_def sample_delta_def ascii_encode_def)

lemma sample_snapshot:
  "apply_snapshot_frame (new_mbp (row_scope (sample_row ''BID'' 100)) OPAQUE 3) sample_rows VARIABLE_DEPTH None
     = (Inr True, sample_book)"
proof -
  have "row_scope (sample_row ''ASK'' 101) = row_scope (sample_row ''BID'' 100)"
    by (simp add: row_scope_def sample_row_def)
  then show ?thesis
    by (simp add: apply_snapshot_frame_def sample_rows_def new_mbp_def Let_def sample_book_def)
      (simp add: sample_row_def row_time_def frame_side_def fill_side_def level_of_def dict_values_def
        create_snapshot_frame_boundary_def ascii_encode_def string_eval)
qed

lemma sample_book_ok: "mbp_ok sample_book"
  by (rule snapshot_accepted(6) [OF sample_snapshot])

theorem ladder_shows_best_levels_witness:
  "dl_bids (fst (mbp_ladder_state sample_book 10 False)) = [\<lparr>lv_price = 100, lv_size = 5, lv_count = None\<rparr>]
     \<and> \<not> dl_crossed (fst (mbp_ladder_state sample_book 10 False))"
proof
  let ?l = "fst (mbp_ladder_state sample_book 10 False)"
  have l: "mbp_ladder_state sample_book 10 False = (?l, snd (mbp_ladder_state sample_book 10 False))" by simp
  note ladder = ladder_shows_best_levels [OF sample_book_ok _ l]
  have vals: "dict_values (mb_bids sample_book) = [\<lparr>lv_price = 100, lv_size = 5, lv_count = None\<rparr>]"
    "dict_values (mb_asks sample_book) = [\<lparr>lv_price = 101, lv_size = 5, lv_count = None\<rparr>]"
    "length (mb_bids sample_book) = 1"
    by (simp_all add: sample_book_def dict_values_def)
  show "\<not> dl_crossed ?l" using ladder by (simp add: vals)
  have "length (dl_bids ?l) = 1" "set (dl_bids ?l) \<subseteq> {\<lparr>lv_price = 100, lv_size = 5, lv_count = None\<rparr>}"
    using ladder by (simp_all add: vals)
  then show "dl_bids ?l = [\<lparr>lv_price = 100, lv_size = 5, lv_count = None\<rparr>]"
    by (cases "dl_bids ?l") auto
qed

lemma sample_action: "mbp_action (sample_delta ''MODIFY'' 100 7 0) b
    = Some (put_level ''BID'' \<lparr>lv_price = 100, lv_size = 7, lv_count = None\<rparr> b)"
  by (simp add: mbp_action_def sample_delta_def string_eval)

lemma sample_applied:
  "\<exists>b'. mbp_apply_delta sample_book (sample_delta ''MODIFY'' 100 7 0) = (Inr True, b')"
proof -
  have "in_play sample_book (sample_delta ''MODIFY'' 100 7 0)" "\<not> out_of_order sample_book (sample_delta ''MODIFY'' 100 7 0)"
    by (simp_all add: in_play_def out_of_order_def sample_key sample_book_def less_order_key_def to_tuple_def)
  moreover have "\<not> refused_action (sample_delta ''MODIFY'' 100 7 0)"
    by (simp add: refused_action_def sample_delta_def string_eval)
  ultimately show ?thesis by (cases rule: mbp_apply_cases [of sample_book "sample_delta ''MODIFY'' 100 7 0"]) auto
qed

lemma sample_known: "upper (bd_action (sample_delta ''MODIFY'' p q i)) \<in> book_actions"
  by (simp add: sample_delta_def book_actions_def string_eval)

lemma sample_addresses: "addresses (sample_delta ''MODIFY'' p q i) ''BID''"
  by (simp add: addresses_def sample_delta_def string_eval)

theorem mbp_delta_refines_contract_witness:
  "depth_of (mb_bids (snd (mbp_apply_delta sample_book (sample_delta ''MODIFY'' 100 7 0)))) 100 = Some (7, None)"
proof -
  obtain b' where b': "mbp_apply_delta sample_book (sample_delta ''MODIFY'' 100 7 0) = (Inr True, b')"
    using sample_applied by blast
  have "depth_of (side_of ''BID'' b') = delta_effect (sample_delta ''MODIFY'' 100 7 0) (depth_of (side_of ''BID'' sample_book))"
    using mbp_delta_refines_contract [OF b' sample_known] sample_addresses by simp
  then show ?thesis by (simp add: b' side_of_def) (simp add: delta_effect_def resulting_size_def sample_delta_def string_eval)
qed

theorem mbp_redelivery_is_harmless_witness:
  "\<exists>b1 b2. mbp_apply_delta sample_book (sample_delta ''MODIFY'' 100 7 0) = (Inr True, b1)
     \<and> mbp_apply_delta b1 (sample_delta ''MODIFY'' 100 7 0) = (Inr True, b2) \<and> depth_of (mb_bids b2) = depth_of (mb_bids b1)"
proof -
  obtain b1 where b1: "mbp_apply_delta sample_book (sample_delta ''MODIFY'' 100 7 0) = (Inr True, b1)"
    using sample_applied by blast
  from mbp_redelivery_is_harmless [OF b1 sample_known] b1 show ?thesis by (auto simp: side_of_def)
qed

theorem mbp_replay_in_key_order_witness:
  "let (xs, b') = mbp_run sample_book [sample_delta ''MODIFY'' 100 7 0] in
     sorted (map key_of xs) \<and> depth_of (mb_bids b') = fold (side_effect ''BID'') xs (depth_of (mb_bids sample_book))"
proof -
  let ?ds = "[sample_delta ''MODIFY'' 100 7 0]"
  have run: "mbp_run sample_book ?ds = (fst (mbp_run sample_book ?ds), snd (mbp_run sample_book ?ds))" by simp
  have known: "\<forall>d \<in> set ?ds. upper (bd_action d) \<in> book_actions" using sample_known by simp
  have "mb_policy (new_mbp (row_scope (sample_row ''BID'' 100)) OPAQUE 3) = OPAQUE" by (simp add: new_mbp_def)
  from mbp_replay_in_key_order [OF sample_snapshot this run known] show ?thesis
    unfolding split_beta Let_def by (simp add: side_of_def)
qed


definition sample_delta_row :: "string \<Rightarrow> dec \<Rightarrow> int \<Rightarrow> delta_row" where
  "sample_delta_row action qty idx =
     \<lparr>br_source = ''SRC'', br_channel = ''CH'', br_symbol = ''ES'', br_date = 0, br_time = 0, br_feed_time = None,
      br_knowledge_time = 0, br_seq = 1, br_order_key = ''1'', dr_sub_idx = idx, dr_type = ''MBP'', dr_action = action,
      dr_side = ''BID'', dr_price = Some 99, dr_size = Some qty, dr_order_id = None, dr_level = None, dr_count = None\<rparr>"

lemma sample_row_key: "key_of (delta_of_row (sample_delta_row action qty idx)) = OrderKey 0 [49] 1 0 idx"
  by (simp add: key_of_def delta_of_row_def row_time_def sample_delta_row_def create_delta_order_key_def ascii_encode_def)

lemma sample_upper: "upper ''ADD'' = ''ADD''" "upper ''BID'' = ''BID''" "upper ''MBP'' = ''MBP''" "upper ''MODIFY'' = ''MODIFY''"
  by (simp_all add: string_eval)

lemma sample_checked: "0 \<le> q \<Longrightarrow> q \<le> 4 \<Longrightarrow> check_delta_payload i (sample_delta_row ''ADD'' q idx) = Inr ()"
  by (simp add: check_delta_payload_def sample_delta_row_def sample_upper validate_decimal128_bounds_def max_decimal128_def)

lemma sample_row_identity:
  "delta_identity (sample_delta_row a q i) = delta_identity (sample_delta_row a' q' j) \<longleftrightarrow> i = j"
  "ascii_encode (br_order_key (sample_delta_row a q i)) = Some [49]"
  by (simp_all add: delta_identity_def sample_delta_row_def ascii_encode_def)

theorem valid_delta_table_replays_witness:
  "validate_delta_table {} [sample_delta_row ''ADD'' 0 0, sample_delta_row ''ADD'' 4 1]
     = Inr [sample_delta_row ''ADD'' 0 0, sample_delta_row ''ADD'' 4 1]
   \<and> fst (mbp_run sample_book (map delta_of_row [sample_delta_row ''ADD'' 0 0, sample_delta_row ''ADD'' 4 1]))
     = [delta_of_row (sample_delta_row ''ADD'' 4 1)]"
proof
  let ?rows = "[sample_delta_row ''ADD'' 0 0, sample_delta_row ''ADD'' 4 1]"
  show valid: "validate_delta_table {} ?rows = Inr ?rows"
    by (simp add: validate_delta_table_def sample_checked sample_row_identity)
  have b: "mb_initialized sample_book" "mb_valid sample_book"
    "mb_boundary sample_book = Some (OrderKey 0 [49] 0 2147483647 2147483647)"
    "mb_last_key sample_book = Some (OrderKey 0 [49] 0 2147483647 2147483647)"
    by (simp_all add: sample_book_def)
  have "sorted (map (key_of \<circ> delta_of_row) ?rows)"
    and "\<forall>r \<in> set ?rows. OrderKey 0 [49] 0 2147483647 2147483647 < key_of (delta_of_row r)
      \<and> OrderKey 0 [49] 0 2147483647 2147483647 \<le> key_of (delta_of_row r)"
    by (simp_all add: sample_row_key less_eq_order_key_def less_order_key_def to_tuple_def)
  from valid_delta_table_replays [OF valid b this]
  show "fst (mbp_run sample_book (map delta_of_row ?rows)) = [delta_of_row (sample_delta_row ''ADD'' 4 1)]"
    unfolding split_beta Let_def by (simp add: empty_add_def sample_delta_row_def sample_upper)
qed

text \<open>Two bids at 100 and a third order that a modification moves there.\<close>

definition sample_orders :: mbo_book where
  "sample_orders = (new_mbo (row_scope (sample_row ''BID'' 100)) OPAQUE)\<lparr>mo_priority := 2, mo_orders :=
     [(''A'', \<lparr>oe_order_id = ''A'', oe_side = ''BID'', oe_price = 100, oe_size = 3, oe_priority = 1\<rparr>),
      (''B'', \<lparr>oe_order_id = ''B'', oe_side = ''BID'', oe_price = 100, oe_size = 4, oe_priority = 2\<rparr>)]\<rparr>"

lemma sample_orders_ok: "mbo_ok sample_orders"
  by (auto simp: mbo_ok_def sample_orders_def dict_wf_def split: if_splits)


theorem mbo_ladder_aggregates_orders_witness:
  "\<forall>v. v \<in> set (dl_bids (mbo_ladder_state sample_orders 10)) \<longleftrightarrow> v = \<lparr>lv_price = 100, lv_size = 7, lv_count = Some 2\<rparr>"
proof -
  let ?os = "dict_values (mo_orders sample_orders)"
  have os: "?os = [\<lparr>oe_order_id = ''A'', oe_side = ''BID'', oe_price = 100, oe_size = 3, oe_priority = 1\<rparr>,
      \<lparr>oe_order_id = ''B'', oe_side = ''BID'', oe_price = 100, oe_size = 4, oe_priority = 2\<rparr>]"
    by (simp add: sample_orders_def dict_values_def)
  have grid: "\<forall>e \<in> set ?os. \<exists>k :: nat. oe_size e = of_nat k * pow10 0"
    by (auto simp: os pow10_def intro: exI [of _ 3] exI [of _ 4])
  have "int (length ?os) \<le> 10" "sum_list (map oe_size ?os) \<le> 10 ^ 28 * pow10 0" by (simp_all add: os pow10_def)
  from mbo_ladder_aggregates_orders [OF refl refl this(1) grid this(2)]
  have bids: "v \<in> set (dl_bids (mbo_ladder_state sample_orders 10)) \<longleftrightarrow> (let es = resting ''BID'' (lv_price v) ?os in
      es \<noteq> [] \<and> lv_size v = sum_list (map oe_size es) \<and> lv_count v = Some (int (length es)))" for v by simp
  show ?thesis
  proof
    fix v :: price_level
    show "v \<in> set (dl_bids (mbo_ladder_state sample_orders 10)) \<longleftrightarrow> v = \<lparr>lv_price = 100, lv_size = 7, lv_count = Some 2\<rparr>"
      unfolding bids by (cases v) (auto simp: os resting_def Let_def)
  qed
qed

end
