(* ===== verification/BookBinary.thy ===== *)
theory BookBinary
  imports OrderBook Serialization "HOL-Library.Char_ord"
begin

section \<open>Binary rows and digests of order book tables\<close>

text \<open>
  \<open>data/orderbook/hashing.py\<close>, lines 24 to 334: the length-prefixed big-endian serialization of the rows of
  the two book tables, the snapshot identifier and the digests of whole tables.  \<open>struct.pack\<close> raises for an
  integer outside its width, which is \<open>None\<close>.  SHA-256 is the parameter \<open>sha\<close>, from bytes to the hexadecimal
  text.  \<open>pyarrow\<close>'s \<open>sort_indices\<close> with ascending keys is \<open>sort_key\<close> over the tuple of the columns; strings
  compare by code point, which is the order of their UTF-8 bytes.
\<close>

subsection \<open>Packing\<close>

primrec be_bytes :: "nat \<Rightarrow> int \<Rightarrow> bytes" where
  "be_bytes 0 n = []"
| "be_bytes (Suc k) n = be_bytes k (n div 256) @ [word_of_int n]"

text \<open>\<open>struct.pack\<close> with the formats \<open>">I"\<close>, \<open>">q"\<close> and \<open>">i"\<close>.\<close>

definition pack_u32 :: "int \<Rightarrow> bytes option" where
  "pack_u32 n = (if 0 \<le> n \<and> n < 2 ^ 32 then Some (be_bytes 4 n) else None)"

definition pack_i64 :: "int \<Rightarrow> bytes option" where
  "pack_i64 n = (if - (2 ^ 63) \<le> n \<and> n < 2 ^ 63 then Some (be_bytes 8 n) else None)"

definition pack_i32 :: "int \<Rightarrow> bytes option" where
  "pack_i32 n = (if - (2 ^ 31) \<le> n \<and> n < 2 ^ 31 then Some (be_bytes 4 n) else None)"

text \<open>UTF-8 of the code points below 256.\<close>

definition utf8_char :: "char \<Rightarrow> bytes" where
  "utf8_char c = (let n = (of_char c :: nat) in
     if n < 128 then [of_nat n] else [of_nat (192 + n div 64), of_nat (128 + n mod 64)])"

definition utf8 :: "string \<Rightarrow> bytes" where
  "utf8 s = concat (map utf8_char s)"

definition length_prefixed :: "string \<Rightarrow> bytes option" where
  "length_prefixed s = map_option (\<lambda>n. n @ utf8 s) (pack_u32 (int (length (utf8 s))))"

subsection \<open>Fields\<close>

definition serialize_string_binary :: "string option \<Rightarrow> bytes option" where
  "serialize_string_binary v = (case v of None \<Rightarrow> pack_u32 (2 ^ 32 - 1) | Some s \<Rightarrow> length_prefixed s)"

definition serialize_decimal128_binary :: "dec option \<Rightarrow> bytes option" where
  "serialize_decimal128_binary v = (case v of None \<Rightarrow> pack_u32 (2 ^ 32 - 1) | Some d \<Rightarrow> length_prefixed (fixed18 d))"

text \<open>A cell of a nanosecond column arrives as a \<open>datetime\<close> (with \<open>pandas\<close>, a \<open>Timestamp\<close>); the code
  computes days, seconds and microseconds from it, so the last three digits of the nanoseconds are dropped.\<close>

definition serialize_timestamp_ns_binary :: "int option \<Rightarrow> bytes option" where
  "serialize_timestamp_ns_binary v =
     (case v of None \<Rightarrow> pack_i64 (- (2 ^ 63)) | Some ns \<Rightarrow> pack_i64 (ns div 1000 * 1000))"

definition serialize_timestamp_us_binary :: "time option \<Rightarrow> bytes option" where
  "serialize_timestamp_us_binary v = (case v of None \<Rightarrow> pack_i64 (- (2 ^ 63)) | Some t \<Rightarrow> pack_i64 t)"

definition serialize_date32_binary :: "int option \<Rightarrow> bytes option" where
  "serialize_date32_binary v = (case v of None \<Rightarrow> pack_i32 (- (2 ^ 31)) | Some days \<Rightarrow> pack_i32 days)"

definition serialize_int64_binary :: "int option \<Rightarrow> bytes option" where
  "serialize_int64_binary v = (case v of None \<Rightarrow> pack_i64 (- (2 ^ 63)) | Some n \<Rightarrow> pack_i64 n)"

definition serialize_int32_binary :: "int option \<Rightarrow> bytes option" where
  "serialize_int32_binary v = (case v of None \<Rightarrow> pack_i32 (- (2 ^ 31)) | Some n \<Rightarrow> pack_i32 n)"

definition serialize_bool_binary :: "bool option \<Rightarrow> bytes option" where
  "serialize_bool_binary v = (case v of None \<Rightarrow> Some [255] | Some b \<Rightarrow> Some [if b then 1 else 0])"

text \<open>A buffer extended field by field; the first field that raises ends it.\<close>

fun extend_all :: "bytes option list \<Rightarrow> bytes option" where
  "extend_all [] = Some []"
| "extend_all (f # fs) = (case f of None \<Rightarrow> None | Some b \<Rightarrow> map_option (\<lambda>bs. b @ bs) (extend_all fs))"

subsection \<open>Rows, identifiers and tables\<close>

definition derive_canonical_snapshot_id ::
    "(bytes \<Rightarrow> string) \<Rightarrow> string \<Rightarrow> string \<Rightarrow> string \<Rightarrow> int \<Rightarrow> string \<Rightarrow> string option" where
  "derive_canonical_snapshot_id sha source channel symbol date source_key =
     map_option (\<lambda>b. ''snap_'' @ take 32 (sha b)) (extend_all
       [serialize_string_binary (Some source), serialize_string_binary (Some channel),
        serialize_string_binary (Some symbol), serialize_date32_binary (Some date),
        serialize_string_binary (Some source_key)])"

definition snapshot_fields :: "snapshot_row \<Rightarrow> bytes option list" where
  "snapshot_fields r =
     [serialize_string_binary (Some (br_source r)), serialize_string_binary (Some (br_channel r)),
      serialize_string_binary (Some (br_symbol r)), serialize_date32_binary (Some (br_date r)),
      serialize_timestamp_ns_binary (Some (br_time r)), serialize_timestamp_ns_binary (br_feed_time r),
      serialize_timestamp_us_binary (Some (br_knowledge_time r)), serialize_int64_binary (Some (br_seq r)),
      serialize_string_binary (Some (br_order_key r)), serialize_string_binary (Some (sr_snapshot_id r)),
      serialize_bool_binary (Some (sr_complete r)), serialize_string_binary (Some (sr_side r)),
      serialize_int32_binary (Some (sr_level r)), serialize_decimal128_binary (Some (sr_price r)),
      serialize_decimal128_binary (Some (sr_size r)), serialize_int32_binary (sr_count r)]"

definition serialize_book_snapshot_row_binary :: "snapshot_row \<Rightarrow> bytes option" where
  "serialize_book_snapshot_row_binary r = map_option (\<lambda>b. b @ [30]) (extend_all (snapshot_fields r))"

definition delta_fields :: "delta_row \<Rightarrow> bytes option list" where
  "delta_fields r =
     [serialize_string_binary (Some (br_source r)), serialize_string_binary (Some (br_channel r)),
      serialize_string_binary (Some (br_symbol r)), serialize_date32_binary (Some (br_date r)),
      serialize_timestamp_ns_binary (Some (br_time r)), serialize_timestamp_ns_binary (br_feed_time r),
      serialize_timestamp_us_binary (Some (br_knowledge_time r)), serialize_int64_binary (Some (br_seq r)),
      serialize_string_binary (Some (br_order_key r)), serialize_int32_binary (Some (dr_sub_idx r)),
      serialize_string_binary (Some (dr_type r)), serialize_string_binary (Some (dr_action r)),
      serialize_string_binary (Some (dr_side r)), serialize_decimal128_binary (dr_price r),
      serialize_decimal128_binary (dr_size r), serialize_string_binary (dr_order_id r),
      serialize_int32_binary (dr_level r), serialize_int32_binary (dr_count r)]"

definition serialize_book_delta_row_binary :: "delta_row \<Rightarrow> bytes option" where
  "serialize_book_delta_row_binary r = map_option (\<lambda>b. b @ [30]) (extend_all (delta_fields r))"

definition raw_snapshot_identity :: "snapshot_row \<Rightarrow> snapshot_identity" where
  "raw_snapshot_identity r = (br_source r, br_channel r, br_symbol r, br_date r, br_seq r, sr_side r, sr_level r)"

text \<open>The digest of a table: a tag, then the rows in the order of their identities; an empty table has a tag of its own.\<close>

definition calculate_canonical_book_snapshot_sha256 :: "(bytes \<Rightarrow> string) \<Rightarrow> snapshot_row list \<Rightarrow> string option" where
  "calculate_canonical_book_snapshot_sha256 sha rows =
     (if rows = [] then Some (sha (utf8 ''CANONICAL_BOOK_SNAPSHOTS_EMPTY_TABLE_V1''))
      else map_option (\<lambda>b. sha (utf8 (''ACASH_CANONICAL_BOOK_SNAPSHOT_V1.8'' @ [CHR 0x0A]) @ b))
        (extend_all (map serialize_book_snapshot_row_binary (sort_key raw_snapshot_identity rows))))"

definition calculate_canonical_book_delta_sha256 :: "(bytes \<Rightarrow> string) \<Rightarrow> delta_row list \<Rightarrow> string option" where
  "calculate_canonical_book_delta_sha256 sha rows =
     (if rows = [] then Some (sha (utf8 ''CANONICAL_BOOK_DELTAS_EMPTY_TABLE_V1''))
      else map_option (\<lambda>b. sha (utf8 (''ACASH_CANONICAL_BOOK_DELTA_V1.8'' @ [CHR 0x0A]) @ b))
        (extend_all (map serialize_book_delta_row_binary (sort_key delta_identity rows))))"

subsection \<open>Codes that can be read back\<close>

text \<open>
  What the rows rely on: an encoding whose end can be found from its beginning.  Two encodings that agree as
  beginnings of two byte strings are encodings of the same value, so the rests agree as well.
\<close>

definition cancels :: "bytes option \<Rightarrow> bytes option \<Rightarrow> bool" where
  "cancels x y \<longleftrightarrow> (\<forall>u v r s. x = Some u \<longrightarrow> y = Some v \<longrightarrow> u @ r = v @ s \<longrightarrow> u = v)"

lemma extend_all_cancel:
  assumes "list_all2 cancels fs gs" "extend_all fs = Some u" "extend_all gs = Some v" "u @ r = v @ s"
  shows "fs = gs \<and> r = s"
  using assms
proof (induction fs gs arbitrary: u v rule: list_all2_induct)
  case (Cons f fs g gs)
  then obtain a b u' v' where f: "f = Some a" "extend_all fs = Some u'" "u = a @ u'"
    and g: "g = Some b" "extend_all gs = Some v'" "v = b @ v'"
    by (auto split: option.splits)
  have "a @ (u' @ r) = b @ (v' @ s)" using Cons.prems(3) f g by simp
  then have "a = b" using Cons.hyps(1) f(1) g(1) unfolding cancels_def by blast
  then show ?case using Cons.IH [OF f(2) g(2)] Cons.prems(3) f g by simp
qed simp

lemma extend_all_parts: "extend_all fs = Some u \<Longrightarrow> f \<in> set fs \<Longrightarrow> f \<noteq> None"
  by (induction fs arbitrary: u) (auto split: option.splits)

locale field_code =
  fixes enc :: "'a \<Rightarrow> bytes option" and ok :: "'a \<Rightarrow> bool"
  assumes cancel: "ok x \<Longrightarrow> ok y \<Longrightarrow> enc x = Some u \<Longrightarrow> enc y = Some v \<Longrightarrow> u @ r = v @ s \<Longrightarrow> x = y"
    and nonempty: "enc x = Some u \<Longrightarrow> u \<noteq> []"
begin

lemma cancelsI: "ok x \<Longrightarrow> ok y \<Longrightarrow> cancels (enc x) (enc y)"
  unfolding cancels_def
proof (intro allI impI)
  fix u v r s assume "ok x" "ok y" "enc x = Some u" "enc y = Some v" "u @ r = v @ s"
  moreover from this have "x = y" by (rule cancel)
  ultimately show "u = v" by simp
qed

lemma inject:
  assumes "ok x" "ok y" "enc x = enc y" "enc x \<noteq> None"
  shows "x = y"
proof -
  obtain u where u: "enc x = Some u" using assms(4) by blast
  with assms(3) have "enc y = Some u" by simp
  from cancel [OF assms(1,2) u this refl] show ?thesis .
qed

lemma inject_iff: "ok x \<Longrightarrow> ok y \<Longrightarrow> enc x \<noteq> None \<Longrightarrow> enc x = enc y \<longleftrightarrow> x = y"
  using inject by blast

text \<open>A concatenation of encodings determines the list.\<close>

lemma list_inject:
  assumes "extend_all (map enc xs) = Some u" "extend_all (map enc ys) = Some u" "\<forall>x \<in> set xs. ok x" "\<forall>y \<in> set ys. ok y"
  shows "xs = ys"
  using assms
proof (induction xs arbitrary: ys u)
  case Nil
  then show ?case using nonempty by (cases ys) (auto split: option.splits)
next
  case (Cons x xs)
  then obtain y ys' where ys: "ys = y # ys'" using nonempty by (cases ys) (auto split: option.splits)
  from Cons.prems(1) obtain a u1 where a: "enc x = Some a" "extend_all (map enc xs) = Some u1" "u = a @ u1"
    by (auto split: option.splits)
  from Cons.prems(2) ys obtain b u2 where b: "enc y = Some b" "extend_all (map enc ys') = Some u2" "u = b @ u2"
    by (auto split: option.splits)
  have "x = y" using cancel [OF _ _ a(1) b(1), of u1 u2] Cons.prems(3,4) ys a(3) b(3) by simp
  moreover from this have "u1 = u2" using a b by simp
  ultimately show ?case using Cons.IH [OF a(2), of ys'] b(2) Cons.prems(3,4) ys by simp
qed

end

subsection \<open>The leaf encodings\<close>

lemma length_be_bytes [simp]: "length (be_bytes k n) = k"
  by (induction k arbitrary: n) simp_all

lemma be_bytes_mod: "be_bytes k n = be_bytes k m \<Longrightarrow> n mod 256 ^ k = m mod 256 ^ k"
proof (induction k arbitrary: n m)
  case (Suc k)
  have eqs: "be_bytes k (n div 256) = be_bytes k (m div 256)" "(word_of_int n :: 8 word) = word_of_int m"
    using Suc.prems by simp_all
  have "take_bit 8 n = take_bit 8 m" using eqs(2) unfolding word_of_int_eq_iff by simp
  then have last: "n mod 256 = m mod 256" by (simp add: take_bit_eq_mod)
  have front: "n div 256 mod 256 ^ k = m div 256 mod 256 ^ k" by (rule Suc.IH [OF eqs(1)])
  have split: "i mod (256 * 256 ^ k) = 256 * (i div 256 mod 256 ^ k) + i mod 256" for i :: int
    by (rule zmod_zmult2_eq) simp
  show ?case using last front by (simp add: split)
qed simp

lemma pack_length: "pack_u32 n = Some u \<Longrightarrow> length u = 4" "pack_i32 n = Some u \<Longrightarrow> length u = 4"
  "pack_i64 n = Some u \<Longrightarrow> length u = 8"
  by (auto simp: pack_u32_def pack_i32_def pack_i64_def split: if_splits)

lemma mod_eq_range:
  assumes "(n :: int) mod w = m mod w" "l \<le> n" "n < l + w" "l \<le> m" "m < l + w"
  shows "n = m"
proof -
  have "(n - l) mod w = (m - l) mod w" using assms(1) by (metis mod_diff_left_eq)
  then show ?thesis using assms by (simp add: mod_pos_pos_trivial)
qed

lemma be_bytes_inject:
  assumes "be_bytes k n = be_bytes k m" "l \<le> n" "n < l + 256 ^ k" "l \<le> m" "m < l + 256 ^ k"
  shows "n = m"
  by (rule mod_eq_range [OF be_bytes_mod [OF assms(1)] assms(2-5)])

lemma pack_inject: "pack_u32 n = Some u \<Longrightarrow> pack_u32 m = Some u \<Longrightarrow> n = m"
  "pack_i32 n = Some u \<Longrightarrow> pack_i32 m = Some u \<Longrightarrow> n = m"
  "pack_i64 n = Some u \<Longrightarrow> pack_i64 m = Some u \<Longrightarrow> n = m"
  using be_bytes_inject [of 4 n m 0] be_bytes_inject [of 4 n m "- (2 ^ 31)"] be_bytes_inject [of 8 n m "- (2 ^ 63)"]
  by (simp_all add: pack_u32_def pack_i32_def pack_i64_def split: if_split_asm)

lemma append_same_length: "u @ r = v @ s \<Longrightarrow> length u = length v \<Longrightarrow> u = v \<and> r = s"
  by simp

lemma byte_nat: "n < 256 \<Longrightarrow> unat (of_nat n :: 8 word) = n"
  by (simp add: unsigned_of_nat take_bit_eq_mod)

lemma byte_inject: "m < 256 \<Longrightarrow> n < 256 \<Longrightarrow> (of_nat m :: 8 word) = of_nat n \<longleftrightarrow> m = n"
  by (metis byte_nat)

lemma char_below [simp]: "(of_char c :: nat) < 256"
  by (metis char_of_char of_char_of mod_less_divisor zero_less_numeral)

lemma utf8_char_cancel:
  assumes "utf8_char c @ r = utf8_char d @ s"
  shows "c = d \<and> r = s"
proof -
  let ?m = "of_char c :: nat" and ?n = "of_char d :: nat"
  have m: "?m < 256" "?n < 256" by simp_all
  then have b: "192 + ?m div 64 < 256" "192 + ?n div 64 < 256" "128 + ?m mod 64 < 256" "128 + ?n mod 64 < 256"
    by linarith+
  have "?m = ?n \<and> r = s"
  proof (cases "?m < 128"; cases "?n < 128")
    assume "?m < 128" "?n < 128"
    then show ?thesis using assms m by (simp add: utf8_char_def byte_inject)
  next
    assume "\<not> ?m < 128" "\<not> ?n < 128"
    then have "192 + ?m div 64 = 192 + ?n div 64" "128 + ?m mod 64 = 128 + ?n mod 64" "r = s"
      using assms b byte_inject by (auto simp: utf8_char_def Let_def simp del: of_nat_add)
    then show ?thesis by (metis add_left_cancel div_mult_mod_eq)
  next
    assume "?m < 128" "\<not> ?n < 128"
    then have "(of_nat ?m :: 8 word) = of_nat (192 + ?n div 64)" using assms by (simp add: utf8_char_def Let_def)
    then show ?thesis using byte_inject [OF m(1) b(2)] \<open>?m < 128\<close> by simp
  next
    assume "\<not> ?m < 128" "?n < 128"
    then have "(of_nat ?n :: 8 word) = of_nat (192 + ?m div 64)" using assms by (simp add: utf8_char_def Let_def)
    then show ?thesis using byte_inject [OF m(2) b(1)] \<open>?n < 128\<close> by simp
  qed
  then show ?thesis by simp
qed

lemma utf8_inject: "utf8 s = utf8 t \<Longrightarrow> s = t"
proof (induction s arbitrary: t)
  case Nil
  then show ?case by (cases t) (auto simp: utf8_def utf8_char_def Let_def split: if_splits)
next
  case (Cons c s)
  then obtain d t' where t: "t = d # t'"
    by (cases t) (auto simp: utf8_def utf8_char_def Let_def split: if_splits)
  have "utf8_char c @ utf8 s = utf8_char d @ utf8 t'" using Cons.prems by (simp add: utf8_def t)
  from utf8_char_cancel [OF this] show ?case using Cons.IH t by simp
qed


lemma length_prefixed_cancel:
  assumes "length_prefixed s = Some u" "length_prefixed t = Some v" "u @ r = v @ r'"
  shows "s = t"
proof -
  obtain a b where a: "pack_u32 (int (length (utf8 s))) = Some a" "u = a @ utf8 s"
    and b: "pack_u32 (int (length (utf8 t))) = Some b" "v = b @ utf8 t"
    using assms(1,2) by (auto simp: length_prefixed_def)
  have len: "length a = length b" using pack_length(1) [OF a(1)] pack_length(1) [OF b(1)] by simp
  have "a @ (utf8 s @ r) = b @ (utf8 t @ r')" using assms(3) a(2) b(2) by simp
  from append_same_length [OF this len] have ab: "a = b" and rest: "utf8 s @ r = utf8 t @ r'" by blast+
  have "int (length (utf8 s)) = int (length (utf8 t))" by (rule pack_inject(1) [OF a(1)]) (simp add: ab b(1))
  then have "length (utf8 s) = length (utf8 t)" by (simp only: of_nat_eq_iff)
  from append_same_length [OF rest this] show ?thesis using utf8_inject by blast
qed

text \<open>A null tag is no length: that would be a text of \<open>2 ^ 32 - 1\<close> bytes, beyond what a column can hold.\<close>

definition short :: "string \<Rightarrow> bool" where
  "short s \<longleftrightarrow> length (utf8 s) < 2 ^ 32 - 1"

lemma null_tag_cancel:
  assumes "short s" "length_prefixed s = Some u" "pack_u32 (2 ^ 32 - 1) = Some v"
  shows "u @ r \<noteq> v @ r'"
proof
  assume eq: "u @ r = v @ r'"
  obtain a where a: "pack_u32 (int (length (utf8 s))) = Some a" "u = a @ utf8 s"
    using assms(2) by (auto simp: length_prefixed_def)
  have "a @ (utf8 s @ r) = v @ r'" using eq a by simp
  then have "a = v" using append_same_length pack_length(1) [OF a(1)] pack_length(1) [OF assms(3)] by metis
  then have "int (length (utf8 s)) = 2 ^ 32 - 1" using pack_inject(1) [OF a(1)] assms(3) by blast
  then show False using assms(1) by (simp add: short_def)
qed

lemma length_prefixed_nonempty: "length_prefixed s = Some u \<Longrightarrow> u \<noteq> []"
  using pack_length(1) by (fastforce simp: length_prefixed_def)

lemma null_tag_nonempty: "pack_u32 (2 ^ 32 - 1) = Some u \<Longrightarrow> u \<noteq> []"
  using pack_length(1) by fastforce

definition nullable_text :: "string option \<Rightarrow> bytes option" where
  "nullable_text v = (case v of None \<Rightarrow> pack_u32 (2 ^ 32 - 1) | Some s \<Rightarrow> length_prefixed s)"

lemma nullable_text_cancel:
  assumes "\<forall>s. v = Some s \<longrightarrow> short s" "\<forall>s. w = Some s \<longrightarrow> short s"
    and "nullable_text v = Some a" "nullable_text w = Some b" "a @ r = b @ r'"
  shows "v = w"
proof (cases v; cases w)
  fix s t assume vw: "v = Some s" "w = Some t"
  then have "length_prefixed s = Some a" "length_prefixed t = Some b" using assms(3,4) by (simp_all add: nullable_text_def)
  from length_prefixed_cancel [OF this assms(5)] show ?thesis using vw by simp
next
  fix s assume vw: "v = Some s" "w = None"
  then have "length_prefixed s = Some a" "pack_u32 (2 ^ 32 - 1) = Some b"
    using assms(3,4) by (simp_all add: nullable_text_def)
  from null_tag_cancel [OF _ this] show ?thesis using assms(1,5) vw by blast
next
  fix t assume vw: "v = None" "w = Some t"
  then have "length_prefixed t = Some b" "pack_u32 (2 ^ 32 - 1) = Some a"
    using assms(3,4) by (simp_all add: nullable_text_def)
  from null_tag_cancel [OF _ this] show ?thesis using assms(2) assms(5) [symmetric] vw by blast
qed simp

lemma nullable_text_nonempty: "nullable_text v = Some u \<Longrightarrow> u \<noteq> []"
  using length_prefixed_nonempty null_tag_nonempty by (auto simp: nullable_text_def split: option.splits)

lemma string_nullable: "serialize_string_binary v = nullable_text v"
  by (simp add: serialize_string_binary_def nullable_text_def)

interpretation str_code: field_code serialize_string_binary "\<lambda>v. \<forall>s. v = Some s \<longrightarrow> short s"
  by unfold_locales (unfold string_nullable, erule (4) nullable_text_cancel, erule nullable_text_nonempty)

text \<open>Decimals on the grid of the column type have distinct texts.\<close>

definition on_grid :: "dec \<Rightarrow> bool" where
  "on_grid d \<longleftrightarrow> (\<exists>k. d = of_int k / 10 ^ 18)"

lemma fixed18_inject:
  assumes "on_grid x" "on_grid y" "fixed18 x = fixed18 y"
  shows "x = y"
proof -
  obtain k l where k: "x = of_int k / 10 ^ 18" and l: "y = of_int l / 10 ^ 18"
    using assms(1,2) by (auto simp: on_grid_def)
  have units: "quantum_units (of_int i / 10 ^ 18) = nat \<bar>i\<bar>" for i
  proof -
    have "\<bar>of_int i / 10 ^ 18\<bar> * 10 ^ 18 = (of_int \<bar>i\<bar> :: rat)" by simp
    then show ?thesis unfolding quantum_units_def by (simp only: rhe_of_int)
  qed
  have sign: "(of_int i / 10 ^ 18 :: rat) < 0 \<longleftrightarrow> i < 0" for i by (simp add: divide_less_0_iff)
  have "nat \<bar>k\<bar> = nat \<bar>l\<bar> \<and> (k < 0 \<longleftrightarrow> l < 0)"
    using assms(3) unfolding k l fixed18_eq same_decimal_units units sign .
  then show ?thesis by (auto simp: k l)
qed

lemma length_utf8: "length (utf8 s) \<le> 2 * length s"
  by (induction s) (auto simp: utf8_def utf8_char_def Let_def)

lemma length_str_nat: "n < 10 ^ k \<Longrightarrow> length (str_nat n) \<le> max 1 k"
proof (induction k arbitrary: n)
  case (Suc k)
  show ?case
  proof (cases "n < 10")
    case True
    then show ?thesis by (subst str_nat.simps) simp
  next
    case False
    then have "n div 10 < 10 ^ k" "k \<noteq> 0" using Suc.prems by (auto simp: less_mult_imp_div_less mult.commute intro: gr0I)
    then have "length (str_nat (n div 10)) \<le> k" using Suc.IH [of "n div 10"] by simp
    then show ?thesis using False by (subst str_nat.simps) simp
  qed
qed (subst str_nat.simps, simp)

definition decimal_ok :: "dec \<Rightarrow> bool" where
  "decimal_ok d \<longleftrightarrow> on_grid d \<and> \<bar>d\<bar> \<le> max_decimal128"

lemma short_fixed18: "decimal_ok d \<Longrightarrow> short (fixed18 d)"
proof -
  assume ok: "decimal_ok d"
  have "\<bar>d\<bar> * 10 ^ 18 \<le> of_int (10 ^ 38)" using ok by (simp add: decimal_ok_def max_decimal128_def)
  then have "rhe (\<bar>d\<bar> * 10 ^ 18) \<le> 10 ^ 38" using rhe_mono rhe_of_int by metis
  then have "quantum_units d \<le> 10 ^ 38" by (simp add: quantum_units_def)
  then have "quantum_units d div 10 ^ 18 < 10 ^ 21" by (simp add: less_mult_imp_div_less)
  then have "length (str_nat (quantum_units d div 10 ^ 18)) \<le> 21" using length_str_nat [of _ 21] by fastforce
  moreover have "length (str_nat (quantum_units d mod 10 ^ 18)) \<le> 18"
    using length_str_nat [of "quantum_units d mod 10 ^ 18" 18] by simp
  ultimately have "length (fixed18 d) \<le> 41" by (simp add: fixed18_def pad_left_def)
  then show ?thesis using length_utf8 [of "fixed18 d"] by (simp add: short_def)
qed

lemma decimal_nullable: "serialize_decimal128_binary v = nullable_text (map_option fixed18 v)"
  by (cases v) (simp_all add: serialize_decimal128_binary_def nullable_text_def)

interpretation dec_code: field_code serialize_decimal128_binary "\<lambda>v. \<forall>d. v = Some d \<longrightarrow> decimal_ok d"
proof
  fix x y u v r s
  assume ok: "\<forall>d. x = Some d \<longrightarrow> decimal_ok d" "\<forall>d. y = Some d \<longrightarrow> decimal_ok d"
    and enc: "serialize_decimal128_binary x = Some u" "serialize_decimal128_binary y = Some v" "u @ r = v @ s"
  have "map_option fixed18 x = map_option fixed18 y"
    by (rule nullable_text_cancel [OF _ _ enc [unfolded decimal_nullable]]) (use ok short_fixed18 in auto)
  then show "x = y" using ok fixed18_inject by (cases x; cases y) (auto simp: decimal_ok_def)
qed (simp add: decimal_nullable nullable_text_nonempty)

text \<open>Fixed-width fields: an injective choice of the packed integer suffices.\<close>

lemma i64_field_code:
  assumes "\<And>x. enc x = pack_i64 (f x)" and "\<And>x y. ok x \<Longrightarrow> ok y \<Longrightarrow> f x = f y \<Longrightarrow> x = y"
  shows "field_code enc ok"
proof
  fix x y u v r s
  assume "ok x" "ok y" "enc x = Some u" "enc y = Some v" "u @ r = v @ s"
  then have p: "pack_i64 (f x) = Some u" "pack_i64 (f y) = Some v" by (simp_all add: assms(1))
  then have "u = v" using append_same_length [OF \<open>u @ r = v @ s\<close>] pack_length(3) by metis
  then have "f x = f y" using pack_inject(3) p by blast
  then show "x = y" by (rule assms(2) [OF \<open>ok x\<close> \<open>ok y\<close>])
next
  fix x u assume "enc x = Some u"
  then have "length u = 8" using pack_length(3) assms(1) by metis
  then show "u \<noteq> []" by auto
qed

lemma i32_field_code:
  assumes "\<And>x. enc x = pack_i32 (f x)" and "\<And>x y. ok x \<Longrightarrow> ok y \<Longrightarrow> f x = f y \<Longrightarrow> x = y"
  shows "field_code enc ok"
proof
  fix x y u v r s
  assume "ok x" "ok y" "enc x = Some u" "enc y = Some v" "u @ r = v @ s"
  then have p: "pack_i32 (f x) = Some u" "pack_i32 (f y) = Some v" by (simp_all add: assms(1))
  then have "u = v" using append_same_length [OF \<open>u @ r = v @ s\<close>] pack_length(2) by metis
  then have "f x = f y" using pack_inject(2) p by blast
  then show "x = y" by (rule assms(2) [OF \<open>ok x\<close> \<open>ok y\<close>])
next
  fix x u assume "enc x = Some u"
  then have "length u = 4" using pack_length(2) assms(1) by metis
  then show "u \<noteq> []" by auto
qed

text \<open>Whole microseconds.\<close>

definition whole :: "int \<Rightarrow> int" where
  "whole ns = ns div 1000 * 1000"

lemma whole_whole [simp]: "whole (whole ns) = whole ns"
  by (simp add: whole_def)

lemma ns_sentinel: "whole ns \<noteq> - (2 ^ 63 :: int)" "- (2 ^ 63 :: int) \<noteq> whole ns"
proof -
  have "whole ns mod 1000 = 0" "- (2 ^ 63 :: int) mod 1000 = 192" by (simp_all add: whole_def)
  then show "whole ns \<noteq> - (2 ^ 63 :: int)" "- (2 ^ 63 :: int) \<noteq> whole ns" by auto
qed

lemma ns_packed: "serialize_timestamp_ns_binary v = pack_i64 (case v of None \<Rightarrow> - (2 ^ 63) | Some ns \<Rightarrow> whole ns)"
  by (simp add: serialize_timestamp_ns_binary_def whole_def split: option.split)

interpretation ns_code: field_code serialize_timestamp_ns_binary "\<lambda>v. map_option whole v = v"
proof (rule i64_field_code [OF ns_packed])
  fix x y :: "int option"
  assume "map_option whole x = x" "map_option whole y = y"
    "(case x of None \<Rightarrow> - (2 ^ 63) | Some ns \<Rightarrow> whole ns) = (case y of None \<Rightarrow> - (2 ^ 63) | Some ns \<Rightarrow> whole ns)"
  then show "x = y" using ns_sentinel by (cases x; cases y) (simp_all del: power_numeral)
qed

interpretation text_code: field_code "\<lambda>s. serialize_string_binary (Some s)" "\<lambda>_. True"
  by unfold_locales
    (auto simp: serialize_string_binary_def dest: length_prefixed_cancel length_prefixed_nonempty)

interpretation index_code: field_code "\<lambda>n. serialize_int32_binary (Some n)" "\<lambda>_. True"
  by (rule i32_field_code [where f = "\<lambda>n. n"]) (simp_all add: serialize_int32_binary_def)

interpretation us_code: field_code "\<lambda>t. serialize_timestamp_us_binary (Some t)" "\<lambda>_. True"
  by (rule i64_field_code [where f = "\<lambda>t. t"]) (simp_all add: serialize_timestamp_us_binary_def)

interpretation i64_code: field_code "\<lambda>n. serialize_int64_binary (Some n)" "\<lambda>_. True"
  by (rule i64_field_code [where f = "\<lambda>n. n"]) (simp_all add: serialize_int64_binary_def)

interpretation date_code: field_code "\<lambda>n. serialize_date32_binary (Some n)" "\<lambda>_. True"
  by (rule i32_field_code [where f = "\<lambda>n. n"]) (simp_all add: serialize_date32_binary_def)

text \<open>A nullable 32-bit column shares the null sentinel with the least integer.\<close>

interpretation i32_code: field_code serialize_int32_binary "\<lambda>v. v \<noteq> Some (- (2 ^ 31))"
  by (rule i32_field_code [where f = "\<lambda>v. case v of None \<Rightarrow> - (2 ^ 31) | Some n \<Rightarrow> n"])
    (auto simp: serialize_int32_binary_def split: option.splits)

lemma null_sentinel_collides: "serialize_int32_binary None = serialize_int32_binary (Some (- (2 ^ 31)))"
  by (simp add: serialize_int32_binary_def)

interpretation bool_code: field_code "\<lambda>b. serialize_bool_binary (Some b)" "\<lambda>_. True"
  by unfold_locales (auto simp: serialize_bool_binary_def split: if_splits)


subsection \<open>Rows and tables\<close>

text \<open>What is asked of a row: decimals of the column type, and no text as long as the null tag and no integer
  equal to a null sentinel.  Its times are any nanoseconds.\<close>

definition delta_row_ok :: "delta_row \<Rightarrow> bool" where
  "delta_row_ok r \<longleftrightarrow> (\<forall>s. dr_order_id r = Some s \<longrightarrow> short s) \<and> (\<forall>d. dr_price r = Some d \<longrightarrow> decimal_ok d)
     \<and> (\<forall>d. dr_size r = Some d \<longrightarrow> decimal_ok d) \<and> dr_level r \<noteq> Some (- (2 ^ 31)) \<and> dr_count r \<noteq> Some (- (2 ^ 31))"

text \<open>The row the digest sees: its times are cut to microseconds.\<close>

definition digested :: "'a book_row_scheme \<Rightarrow> 'a book_row_scheme" where
  "digested r = r\<lparr>br_time := whole (br_time r), br_feed_time := map_option whole (br_feed_time r)\<rparr>"

lemma digested_idem [simp]: "digested (digested r) = digested r"
  by (cases "br_feed_time r") (simp_all add: digested_def)

definition snapshot_row_ok :: "snapshot_row \<Rightarrow> bool" where
  "snapshot_row_ok r \<longleftrightarrow> decimal_ok (sr_price r) \<and> decimal_ok (sr_size r) \<and> sr_count r \<noteq> Some (- (2 ^ 31))"

lemmas leaf_cancels = text_code.cancelsI str_code.cancelsI dec_code.cancelsI ns_code.cancelsI us_code.cancelsI
  i64_code.cancelsI date_code.cancelsI i32_code.cancelsI index_code.cancelsI bool_code.cancelsI

lemmas leaf_inject = text_code.inject str_code.inject dec_code.inject ns_code.inject us_code.inject
  i64_code.inject date_code.inject i32_code.inject index_code.inject bool_code.inject

lemma whole_times:
  assumes "digested r = r"
  shows "map_option whole (Some (br_time r)) = Some (br_time r)" "map_option whole (br_feed_time r) = br_feed_time r"
  using arg_cong [OF assms, of br_time] arg_cong [OF assms, of br_feed_time] by (simp_all add: digested_def)

lemma delta_fields_inject:
  assumes "delta_row_ok x \<and> digested x = x" "delta_row_ok y \<and> digested y = y" "delta_fields x = delta_fields y"
    "extend_all (delta_fields x) = Some u"
  shows "x = y"
proof -
  note times = whole_times [OF conjunct2 [OF assms(1)]] whole_times [OF conjunct2 [OF assms(2)]]
  have some: "\<forall>f \<in> set (delta_fields x). f \<noteq> None" using extend_all_parts [OF assms(4)] by blast
  note eqs = assms(3) [unfolded delta_fields_def list.inject] and somes = some [unfolded delta_fields_def list.set ball_simps]
  have "br_source x = br_source y \<and> br_channel x = br_channel y \<and> br_symbol x = br_symbol y \<and> br_order_key x = br_order_key y
      \<and> dr_type x = dr_type y \<and> dr_action x = dr_action y \<and> dr_side x = dr_side y"
    using eqs somes text_code.inject by blast
  moreover have "br_time x = br_time y \<and> br_feed_time x = br_feed_time y"
    using eqs somes ns_code.inject [of "Some (br_time x)" "Some (br_time y)"]
      ns_code.inject [of "br_feed_time x" "br_feed_time y"] times by blast
  moreover have "br_date x = br_date y \<and> br_knowledge_time x = br_knowledge_time y \<and> br_seq x = br_seq y
      \<and> dr_sub_idx x = dr_sub_idx y"
    using eqs somes date_code.inject us_code.inject i64_code.inject index_code.inject by blast
  moreover have "dr_price x = dr_price y \<and> dr_size x = dr_size y"
    using eqs somes dec_code.inject [of "dr_price x" "dr_price y"] dec_code.inject [of "dr_size x" "dr_size y"] assms(1,2)
    unfolding delta_row_ok_def by blast
  moreover have "dr_order_id x = dr_order_id y \<and> dr_level x = dr_level y \<and> dr_count x = dr_count y"
    using eqs somes str_code.inject [of "dr_order_id x" "dr_order_id y"] i32_code.inject [of "dr_level x" "dr_level y"]
      i32_code.inject [of "dr_count x" "dr_count y"] assms(1,2) unfolding delta_row_ok_def by blast
  ultimately show ?thesis by (cases x; cases y) simp
qed

interpretation delta_code: field_code serialize_book_delta_row_binary "\<lambda>r. delta_row_ok r \<and> digested r = r"
proof
  fix x y u v r s
  assume ok: "delta_row_ok x \<and> digested x = x" "delta_row_ok y \<and> digested y = y"
    and enc: "serialize_book_delta_row_binary x = Some u" "serialize_book_delta_row_binary y = Some v" "u @ r = v @ s"
  obtain a b where a: "extend_all (delta_fields x) = Some a" "u = a @ [30]"
    and b: "extend_all (delta_fields y) = Some b" "v = b @ [30]"
    using enc(1,2) by (auto simp: serialize_book_delta_row_binary_def)
  have all: "list_all2 cancels (delta_fields x) (delta_fields y)"
    using ok whole_times [of x] whole_times [of y] by (simp add: delta_fields_def leaf_cancels delta_row_ok_def)
  have "a @ (30 # r) = b @ (30 # s)" using enc(3) a b by simp
  from extend_all_cancel [OF all a(1) b(1) this] show "x = y" using delta_fields_inject [OF ok _ a(1)] by blast
qed (auto simp: serialize_book_delta_row_binary_def)


lemma snapshot_fields_inject:
  assumes "snapshot_row_ok x \<and> digested x = x" "snapshot_row_ok y \<and> digested y = y"
    "snapshot_fields x = snapshot_fields y" "extend_all (snapshot_fields x) = Some u"
  shows "x = y"
proof -
  note times = whole_times [OF conjunct2 [OF assms(1)]] whole_times [OF conjunct2 [OF assms(2)]]
  have some: "\<forall>f \<in> set (snapshot_fields x). f \<noteq> None" using extend_all_parts [OF assms(4)] by blast
  note eqs = assms(3) [unfolded snapshot_fields_def list.inject]
    and somes = some [unfolded snapshot_fields_def list.set ball_simps]
  have "br_source x = br_source y \<and> br_channel x = br_channel y \<and> br_symbol x = br_symbol y \<and> br_order_key x = br_order_key y
      \<and> sr_snapshot_id x = sr_snapshot_id y \<and> sr_side x = sr_side y"
    using eqs somes text_code.inject by blast
  moreover have "br_time x = br_time y \<and> br_feed_time x = br_feed_time y"
    using eqs somes ns_code.inject [of "Some (br_time x)" "Some (br_time y)"]
      ns_code.inject [of "br_feed_time x" "br_feed_time y"] times by blast
  moreover have "br_date x = br_date y \<and> br_knowledge_time x = br_knowledge_time y \<and> br_seq x = br_seq y
      \<and> sr_level x = sr_level y"
    using eqs somes date_code.inject us_code.inject i64_code.inject index_code.inject by blast
  moreover have "sr_complete x = sr_complete y" using eqs somes bool_code.inject by blast
  moreover have "sr_price x = sr_price y \<and> sr_size x = sr_size y"
    using eqs somes dec_code.inject [of "Some (sr_price x)" "Some (sr_price y)"]
      dec_code.inject [of "Some (sr_size x)" "Some (sr_size y)"] assms(1,2)
    unfolding snapshot_row_ok_def by blast
  moreover have "sr_count x = sr_count y"
    using eqs somes i32_code.inject [of "sr_count x" "sr_count y"] assms(1,2) unfolding snapshot_row_ok_def by blast
  ultimately show ?thesis by (cases x; cases y) simp
qed

interpretation snapshot_code: field_code serialize_book_snapshot_row_binary
  "\<lambda>r. snapshot_row_ok r \<and> digested r = r"
proof
  fix x y u v r s
  assume ok: "snapshot_row_ok x \<and> digested x = x" "snapshot_row_ok y \<and> digested y = y"
    and enc: "serialize_book_snapshot_row_binary x = Some u" "serialize_book_snapshot_row_binary y = Some v" "u @ r = v @ s"
  obtain a b where a: "extend_all (snapshot_fields x) = Some a" "u = a @ [30]"
    and b: "extend_all (snapshot_fields y) = Some b" "v = b @ [30]"
    using enc(1,2) by (auto simp: serialize_book_snapshot_row_binary_def)
  have all: "list_all2 cancels (snapshot_fields x) (snapshot_fields y)"
    using ok whole_times [of x] whole_times [of y] by (simp add: snapshot_fields_def leaf_cancels snapshot_row_ok_def)
  have "a @ (30 # r) = b @ (30 # s)" using enc(3) a b by simp
  from extend_all_cancel [OF all a(1) b(1) this] show "x = y" using snapshot_fields_inject [OF ok _ a(1)] by blast
qed (auto simp: serialize_book_snapshot_row_binary_def)

text \<open>Rows with distinct keys have one order.\<close>

lemma sort_key_unique:
  assumes "mset xs = mset ys" "distinct (map f xs)"
  shows "sort_key f xs = sort_key f ys"
proof (rule map_sorted_distinct_set_unique)
  have sets: "set xs = set ys" using assms(1) mset_eq_setD by blast
  have inj: "inj_on f (set xs)" using assms(2) by (simp add: distinct_map)
  then show "inj_on f (set (sort_key f xs) \<union> set (sort_key f ys))" using sets by simp
  have "distinct xs" using assms(2) by (simp add: distinct_map)
  then have "distinct ys" using assms(1) mset_eq_imp_distinct_iff by blast
  then show "distinct (map f (sort_key f ys))" using inj sets by (simp add: distinct_map)
  show "distinct (map f (sort_key f xs))" using assms(2) inj by (simp add: distinct_map)
  show "set (sort_key f xs) = set (sort_key f ys)" using sets by simp
qed simp_all

text \<open>The hash does not collide on two texts.\<close>

definition apart :: "(bytes \<Rightarrow> string) \<Rightarrow> bytes \<Rightarrow> bytes \<Rightarrow> bool" where
  "apart sha u v \<longleftrightarrow> (sha u = sha v \<longrightarrow> u = v)"

text \<open>The bytes that are hashed.\<close>

definition table_bytes :: "string \<Rightarrow> string \<Rightarrow> ('a \<Rightarrow> bytes option) \<Rightarrow> ('a \<Rightarrow> 'k::linorder) \<Rightarrow> 'a list \<Rightarrow> bytes option" where
  "table_bytes empty_tag tag enc key rows =
     (if rows = [] then Some (utf8 empty_tag)
      else map_option (\<lambda>b. utf8 tag @ b) (extend_all (map enc (sort_key key rows))))"

definition snapshot_table_bytes :: "snapshot_row list \<Rightarrow> bytes option" where
  "snapshot_table_bytes = table_bytes ''CANONICAL_BOOK_SNAPSHOTS_EMPTY_TABLE_V1''
     (''ACASH_CANONICAL_BOOK_SNAPSHOT_V1.8'' @ [CHR 0x0A]) serialize_book_snapshot_row_binary raw_snapshot_identity"

definition delta_table_bytes :: "delta_row list \<Rightarrow> bytes option" where
  "delta_table_bytes = table_bytes ''CANONICAL_BOOK_DELTAS_EMPTY_TABLE_V1''
     (''ACASH_CANONICAL_BOOK_DELTA_V1.8'' @ [CHR 0x0A]) serialize_book_delta_row_binary delta_identity"

lemma digest_of_bytes:
  "calculate_canonical_book_snapshot_sha256 sha rows = map_option sha (snapshot_table_bytes rows)"
  "calculate_canonical_book_delta_sha256 sha rows' = map_option sha (delta_table_bytes rows')"
  by (simp_all add: calculate_canonical_book_snapshot_sha256_def calculate_canonical_book_delta_sha256_def
      snapshot_table_bytes_def delta_table_bytes_def table_bytes_def option.map_comp o_def)

lemma table_bytes_permuted:
  "mset xs = mset ys \<Longrightarrow> distinct (map key xs) \<Longrightarrow> table_bytes e t enc key xs = table_bytes e t enc key ys"
  using sort_key_unique [of xs ys key] by (auto simp: table_bytes_def)

context field_code
begin

text \<open>The bytes of a table determine its rows, up to their order.\<close>

lemma table_bytes_inject:
  assumes "table_bytes e t enc key xs = Some u" "table_bytes e t enc key ys = Some u"
    and "\<forall>x \<in> set xs. ok x" "\<forall>y \<in> set ys. ok y" "\<And>r. utf8 e \<noteq> utf8 t @ r"
  shows "mset xs = mset ys"
proof (cases "xs = []"; cases "ys = []")
  assume "xs \<noteq> []" "ys \<noteq> []"
  then obtain b where b: "extend_all (map enc (sort_key key xs)) = Some b" "extend_all (map enc (sort_key key ys)) = Some b"
    using assms(1,2) by (auto simp: table_bytes_def)
  have "sort_key key xs = sort_key key ys" by (rule list_inject [OF b]) (use assms(3,4) in simp_all)
  then show ?thesis by (metis mset_sort)
next
  assume "xs = []" "ys \<noteq> []"
  then obtain b where "utf8 t @ b = utf8 e" using assms(1,2) by (auto simp: table_bytes_def)
  then show ?thesis using assms(5) by metis
next
  assume "xs \<noteq> []" "ys = []"
  then obtain b where "utf8 t @ b = utf8 e" using assms(1,2) by (auto simp: table_bytes_def)
  then show ?thesis using assms(5) by metis
qed simp

end

lemma empty_tags:
  "utf8 ''CANONICAL_BOOK_SNAPSHOTS_EMPTY_TABLE_V1'' \<noteq> utf8 (''ACASH_CANONICAL_BOOK_SNAPSHOT_V1.8'' @ [CHR 0x0A]) @ r"
  "utf8 ''CANONICAL_BOOK_DELTAS_EMPTY_TABLE_V1'' \<noteq> utf8 (''ACASH_CANONICAL_BOOK_DELTA_V1.8'' @ [CHR 0x0A]) @ r"
  by (simp_all add: utf8_def utf8_char_def)

lemma equal_digests:
  assumes "map_option sha x = Some h" "map_option sha y = Some h" "apart sha (the x) (the y)"
  obtains u where "x = Some u" "y = Some u"
  using assms by (cases x; cases y) (auto simp: apart_def)

text \<open>The bytes of a table are those of its rows with the times cut to microseconds.\<close>

lemma digested_fields:
  "serialize_book_delta_row_binary (digested r) = serialize_book_delta_row_binary r"
  "serialize_book_snapshot_row_binary (digested r') = serialize_book_snapshot_row_binary r'"
  "delta_identity (digested r) = delta_identity r" "raw_snapshot_identity (digested r') = raw_snapshot_identity r'"
  "delta_row_ok (digested r) = delta_row_ok r" "snapshot_row_ok (digested r') = snapshot_row_ok r'"
proof -
  have ns: "serialize_timestamp_ns_binary (Some (whole t)) = serialize_timestamp_ns_binary (Some t)"
    "serialize_timestamp_ns_binary (map_option whole v) = serialize_timestamp_ns_binary v" for t v
    unfolding ns_packed by (simp, cases v, simp_all)
  show "serialize_book_delta_row_binary (digested r) = serialize_book_delta_row_binary r"
    "serialize_book_snapshot_row_binary (digested r') = serialize_book_snapshot_row_binary r'"
    by (simp_all only: serialize_book_delta_row_binary_def delta_fields_def serialize_book_snapshot_row_binary_def
        snapshot_fields_def)
      (simp_all add: digested_def ns)
qed (simp_all add: digested_def delta_identity_def raw_snapshot_identity_def delta_row_ok_def snapshot_row_ok_def)

lemma sort_key_map:
  assumes "\<And>x. key (g x) = key x"
  shows "sort_key key (map g xs) = map g (sort_key key xs)"
proof -
  have "insort_key key (g x) (map g ys) = map g (insort_key key x ys)" for x ys
    by (induction ys) (simp_all add: assms)
  then show ?thesis by (induction xs) simp_all
qed

lemma table_bytes_map:
  assumes "\<And>x. key (g x) = key x" "\<And>x. enc (g x) = enc x"
  shows "table_bytes e t enc key (map g xs) = table_bytes e t enc key xs"
  by (simp add: table_bytes_def sort_key_map [of key g, OF assms(1)] comp_def assms(2))

lemma digested_table:
  "delta_table_bytes (map digested xs) = delta_table_bytes xs"
  "snapshot_table_bytes (map digested ys) = snapshot_table_bytes ys"
  unfolding delta_table_bytes_def snapshot_table_bytes_def
  by (rule table_bytes_map; simp only: digested_fields)+

lemma snapshot_digest_determines_rows:
  assumes "calculate_canonical_book_snapshot_sha256 sha xs = Some h" "calculate_canonical_book_snapshot_sha256 sha ys = Some h"
    and "\<forall>x \<in> set xs. snapshot_row_ok x" "\<forall>y \<in> set ys. snapshot_row_ok y"
    and "apart sha (the (snapshot_table_bytes xs)) (the (snapshot_table_bytes ys))"
  shows "mset (map digested xs) = mset (map digested ys)"
proof -
  obtain u where "snapshot_table_bytes xs = Some u" "snapshot_table_bytes ys = Some u"
    by (rule equal_digests [OF assms(1,2) [unfolded digest_of_bytes] assms(5)])
  then have "snapshot_table_bytes (map digested xs) = Some u" "snapshot_table_bytes (map digested ys) = Some u"
    by (simp_all only: digested_table)
  then show ?thesis
    unfolding snapshot_table_bytes_def
    by (rule snapshot_code.table_bytes_inject [OF _ _ _ _ empty_tags(1)])
      (use assms(3,4) in \<open>auto simp only: set_map ball_simps digested_fields digested_idem\<close>)
qed

text \<open>C33: The digest of a delta table is its content, to the microsecond.  Two tables that the integrity
  validator accepts have the same digest exactly when they hold the same rows, in whatever order and
  chunking, up to the digits of their exchange and feed times below one microsecond: no other change of a
  row, no dropped, added or exchanged row goes unnoticed (provided SHA-256 does not collide on the two texts,
  and no column holds a value its type excludes or its null sentinel).  The columns have nanosecond
  resolution, so distinct rows can share a digest (\<open>sub_microsecond_times_collide\<close>).\<close>

theorem delta_digest_characterises_table:
  assumes "validate_delta_table existing xs = Inr xs'" "validate_delta_table existing' ys = Inr ys'"
    and "calculate_canonical_book_delta_sha256 sha xs = Some h" "calculate_canonical_book_delta_sha256 sha ys = Some h'"
    and "\<forall>x \<in> set xs. delta_row_ok x" "\<forall>y \<in> set ys. delta_row_ok y"
    and "apart sha (the (delta_table_bytes xs)) (the (delta_table_bytes ys))"
  shows "h = h' \<longleftrightarrow> mset (map digested xs) = mset (map digested ys)"
proof
  assume "h = h'"
  then have "map_option sha (delta_table_bytes ys) = Some h" using assms(4) by (simp add: digest_of_bytes)
  then obtain u where "delta_table_bytes xs = Some u" "delta_table_bytes ys = Some u"
    by (rule equal_digests [OF assms(3) [unfolded digest_of_bytes] _ assms(7)])
  then have "delta_table_bytes (map digested xs) = Some u" "delta_table_bytes (map digested ys) = Some u"
    by (simp_all only: digested_table)
  then show "mset (map digested xs) = mset (map digested ys)"
    unfolding delta_table_bytes_def
    by (rule delta_code.table_bytes_inject [OF _ _ _ _ empty_tags(2)])
      (use assms(5,6) in \<open>auto simp only: set_map ball_simps digested_fields digested_idem\<close>)
next
  assume same: "mset (map digested xs) = mset (map digested ys)"
  obtain u where "scan_delta_rows existing {} 0 xs = Inr u"
    using assms(1) by (auto simp: validate_delta_table_def rbind_Inr_iff)
  then have "distinct (map delta_identity (map digested xs))"
    using scanned_rows(2) by (simp add: digested_fields comp_def)
  from table_bytes_permuted [OF same this]
  have "delta_table_bytes (map digested xs) = delta_table_bytes (map digested ys)" unfolding delta_table_bytes_def .
  then show "h = h'" using assms(3,4) by (auto simp: digest_of_bytes digested_table)
qed


subsection \<open>A concrete table\<close>

text \<open>A hash that does not collide, to instantiate the parameter.\<close>

definition plain_sha :: "bytes \<Rightarrow> string" where
  "plain_sha b = map (\<lambda>w. char_of (unat w)) b"

lemma plain_sha_apart: "apart plain_sha u v"
proof -
  have "inj (\<lambda>w :: 8 word. char_of (unat w))"
  proof
    fix x y :: "8 word" assume "char_of (unat x) = char_of (unat y)"
    then have "unat x mod 256 = unat y mod 256" by (metis of_char_of)
    moreover have "unat x < 256" "unat y < 256" using unsigned_less [where w = x and 'a = nat] unsigned_less [where w = y and 'a = nat] by simp_all
    ultimately show "x = y" by (simp add: word_unat_eq_iff)
  qed
  then show ?thesis unfolding apart_def plain_sha_def using inj_mapI injD by metis
qed

lemma short_prefixed: "short s \<Longrightarrow> \<exists>u. length_prefixed s = Some u"
  by (simp add: short_def length_prefixed_def pack_u32_def)

lemma sample_row_packs:
  assumes "0 \<le> i" "i < 9"
  shows "\<exists>u. serialize_book_delta_row_binary (sample_delta_row ''ADD'' 4 i) = Some u"
proof -
  have short: "short ''SRC''" "short ''CH''" "short ''ES''" "short ''1''" "short ''MBP''" "short ''ADD''" "short ''BID''"
    by (simp_all add: short_def utf8_def utf8_char_def)
  have "on_grid 99" "on_grid 4" unfolding on_grid_def
    by (rule exI [of _ "99 * 10 ^ 18"], simp) (rule exI [of _ "4 * 10 ^ 18"], simp)
  then have "short (fixed18 99)" "short (fixed18 4)"
    by (auto intro!: short_fixed18 simp: decimal_ok_def max_decimal128_def)
  note texts = this [THEN short_prefixed] short [THEN short_prefixed]
  from texts obtain a b c d e f g h k where "length_prefixed (fixed18 99) = Some a" "length_prefixed (fixed18 4) = Some b"
    "length_prefixed ''SRC'' = Some c" "length_prefixed ''CH'' = Some d" "length_prefixed ''ES'' = Some e"
    "length_prefixed ''1'' = Some f" "length_prefixed ''MBP'' = Some g" "length_prefixed ''ADD'' = Some h"
    "length_prefixed ''BID'' = Some k" by blast
  then show ?thesis using assms
    by (simp add: serialize_book_delta_row_binary_def delta_fields_def sample_delta_row_def serialize_string_binary_def
        serialize_decimal128_binary_def serialize_date32_binary_def serialize_timestamp_ns_binary_def
        serialize_timestamp_us_binary_def serialize_int64_binary_def serialize_int32_binary_def pack_u32_def pack_i32_def
        pack_i64_def)
qed

theorem delta_digest_characterises_table_witness:
  "\<exists>h h'. calculate_canonical_book_delta_sha256 plain_sha [sample_delta_row ''ADD'' 4 1, sample_delta_row ''ADD'' 4 2] = Some h
     \<and> calculate_canonical_book_delta_sha256 plain_sha [sample_delta_row ''ADD'' 4 2, sample_delta_row ''ADD'' 4 1] = Some h
     \<and> calculate_canonical_book_delta_sha256 plain_sha [sample_delta_row ''ADD'' 4 1] = Some h' \<and> h \<noteq> h'"
proof -
  let ?r = "sample_delta_row ''ADD'' 4" let ?one = "?r 1" and ?two = "?r 2"
  have ids: "delta_identity (?r i) = (''SRC'', ''CH'', ''ES'', 0, 1, i)" for i
    by (simp add: delta_identity_def sample_delta_row_def)
  have valid: "validate_delta_table {} [?one, ?two] = Inr [?one, ?two]" "validate_delta_table {} [?two, ?one] = Inr [?two, ?one]"
    "validate_delta_table {} [?one] = Inr [?one]"
    by (simp_all add: validate_delta_table_def sample_checked sample_row_identity)
  obtain a b where ab: "serialize_book_delta_row_binary ?one = Some a" "serialize_book_delta_row_binary ?two = Some b"
    using sample_row_packs [of 1] sample_row_packs [of 2] by auto
  have sorted: "sort_key delta_identity [?one, ?two] = [?one, ?two]" "sort_key delta_identity [?two, ?one] = [?one, ?two]"
    by (simp_all add: ids)
  obtain h where h: "calculate_canonical_book_delta_sha256 plain_sha [?one, ?two] = Some h"
    "calculate_canonical_book_delta_sha256 plain_sha [?two, ?one] = Some h"
    unfolding calculate_canonical_book_delta_sha256_def sorted by (simp add: ab)
  obtain h' where h': "calculate_canonical_book_delta_sha256 plain_sha [?one] = Some h'"
    unfolding calculate_canonical_book_delta_sha256_def by (simp add: ab)
  have "decimal_ok 99" "decimal_ok 4" unfolding decimal_ok_def on_grid_def max_decimal128_def
    by (rule conjI, rule exI [of _ "99 * 10 ^ 18"], simp, simp) (rule conjI, rule exI [of _ "4 * 10 ^ 18"], simp, simp)
  then have ok: "delta_row_ok (?r i)" for i
    by (simp add: delta_row_ok_def sample_delta_row_def)
  have "h \<noteq> h'"
    using delta_digest_characterises_table [OF valid(1,3) h(1) h' _ _ plain_sha_apart] ok by auto
  with h h' show ?thesis by blast
qed

text \<open>Two accepted tables of one row each, whose exchange times differ by one nanosecond, have the same
  digest under every hash function.\<close>

theorem sub_microsecond_times_collide:
  "let r = sample_delta_row ''ADD'' 4 1; r' = r\<lparr>br_time := br_time r + 1\<rparr>
   in validate_delta_table {} [r] = Inr [r] \<and> validate_delta_table {} [r'] = Inr [r'] \<and> r \<noteq> r'
     \<and> calculate_canonical_book_delta_sha256 sha [r] = calculate_canonical_book_delta_sha256 sha [r']"
proof -
  let ?r = "sample_delta_row ''ADD'' 4 1" let ?r' = "?r\<lparr>br_time := br_time ?r + 1\<rparr>"
  have "digested ?r' = digested ?r" by (simp add: digested_def whole_def sample_delta_row_def)
  then have "delta_table_bytes [?r] = delta_table_bytes [?r']"
    using digested_table(1) [of "[?r]"] digested_table(1) [of "[?r']"] by simp
  moreover have "validate_delta_table {} [?r] = Inr [?r]"
    by (simp add: validate_delta_table_def sample_checked sample_row_identity)
  moreover have "validate_delta_table {} [?r'] = Inr [?r']"
  proof -
    have "check_delta_payload i (r\<lparr>br_time := t\<rparr>) = check_delta_payload i r" for i t and r :: delta_row
      by (cases r) (simp add: check_delta_payload_def Let_def cong: if_cong option.case_cong)
    then show ?thesis
      by (simp add: validate_delta_table_def sample_checked sample_row_identity)
  qed
  moreover have "br_time ?r \<noteq> br_time ?r'" by simp
  then have "?r \<noteq> ?r'" by metis
  ultimately show ?thesis by (simp add: Let_def digest_of_bytes)
qed

end
