(* ===== verification/RegulatoryFees.thy ===== *)
theory RegulatoryFees
  imports PyDecimal PyTime
begin

section \<open>Regulatory transaction fees\<close>

text \<open>
  \<open>execution/regulatory_fees.py\<close>: the schedules of the SEC Section 31 fee and of the FINRA trading activity
  fee, the lookup of the segment in force on a date, and the two fees of a sale, rounded up to a cent.  The citation texts of the segments, which no operation reads, are
  left out.  The amount may be any \<open>Decimal\<close>: a comparison with a NaN and a \<open>quantize\<close> of an infinity, or to
  more than 28 digits, raise \<open>decimal.InvalidOperation\<close>.
\<close>

datatype sec31_segment = Sec31Segment
  (s31_start: int) (s31_end: int) (s31_rate_per_million: dec) (s31_rate_per_dollar: dec)

datatype taf_segment = TafSegment
  (taf_start: int) (taf_end: int) (taf_rate_per_share: dec) (taf_max_fee: dec)

definition regulatory_schedule_start :: int where
  "regulatory_schedule_start = py_date 2007 5 1"

definition regulatory_schedule_end :: int where
  "regulatory_schedule_end = py_date 2025 12 31"

definition sec_section_31_schedule :: "sec31_segment list" where
  "sec_section_31_schedule = [
     Sec31Segment (py_date 2007 3 17) (py_date 2008 1 24) (1530 / 10 ^ 2) (1530 / 10 ^ 8),
      Sec31Segment (py_date 2008 1 25) (py_date 2008 3 31) (1100 / 10 ^ 2) (1100 / 10 ^ 8),
      Sec31Segment (py_date 2008 4 1) (py_date 2009 4 9) (560 / 10 ^ 2) (560 / 10 ^ 8),
      Sec31Segment (py_date 2009 4 10) (py_date 2010 1 14) (2570 / 10 ^ 2) (2570 / 10 ^ 8),
      Sec31Segment (py_date 2010 1 15) (py_date 2010 3 31) (1270 / 10 ^ 2) (1270 / 10 ^ 8),
      Sec31Segment (py_date 2010 4 1) (py_date 2011 1 20) (1690 / 10 ^ 2) (1690 / 10 ^ 8),
      Sec31Segment (py_date 2011 1 21) (py_date 2012 2 20) (1920 / 10 ^ 2) (1920 / 10 ^ 8),
      Sec31Segment (py_date 2012 2 21) (py_date 2012 3 31) (1800 / 10 ^ 2) (1800 / 10 ^ 8),
      Sec31Segment (py_date 2012 4 1) (py_date 2013 5 24) (2240 / 10 ^ 2) (2240 / 10 ^ 8),
      Sec31Segment (py_date 2013 5 25) (py_date 2014 3 17) (1740 / 10 ^ 2) (1740 / 10 ^ 8),
      Sec31Segment (py_date 2014 3 18) (py_date 2015 2 13) (2210 / 10 ^ 2) (2210 / 10 ^ 8),
      Sec31Segment (py_date 2015 2 14) (py_date 2016 2 15) (1840 / 10 ^ 2) (1840 / 10 ^ 8),
      Sec31Segment (py_date 2016 2 16) (py_date 2017 7 3) (2180 / 10 ^ 2) (2180 / 10 ^ 8),
      Sec31Segment (py_date 2017 7 4) (py_date 2018 5 21) (2310 / 10 ^ 2) (2310 / 10 ^ 8),
      Sec31Segment (py_date 2018 5 22) (py_date 2019 4 15) (1300 / 10 ^ 2) (1300 / 10 ^ 8),
      Sec31Segment (py_date 2019 4 16) (py_date 2020 2 17) (2070 / 10 ^ 2) (2070 / 10 ^ 8),
      Sec31Segment (py_date 2020 2 18) (py_date 2021 2 24) (2210 / 10 ^ 2) (2210 / 10 ^ 8),
      Sec31Segment (py_date 2021 2 25) (py_date 2022 5 13) (510 / 10 ^ 2) (510 / 10 ^ 8),
      Sec31Segment (py_date 2022 5 14) (py_date 2023 2 26) (2290 / 10 ^ 2) (2290 / 10 ^ 8),
      Sec31Segment (py_date 2023 2 27) (py_date 2024 5 21) (800 / 10 ^ 2) (800 / 10 ^ 8),
      Sec31Segment (py_date 2024 5 22) (py_date 2025 5 13) (2780 / 10 ^ 2) (2780 / 10 ^ 8),
      Sec31Segment (py_date 2025 5 14) (py_date 2025 12 31) 0 0]"

definition finra_taf_schedule :: "taf_segment list" where
  "finra_taf_schedule = [
     TafSegment (py_date 2004 11 1) (py_date 2011 6 30) (75 / 10 ^ 6) (375 / 10 ^ 2),
      TafSegment (py_date 2011 7 1) (py_date 2012 2 29) (90 / 10 ^ 6) (450 / 10 ^ 2),
      TafSegment (py_date 2012 3 1) (py_date 2012 6 30) (95 / 10 ^ 6) (475 / 10 ^ 2),
      TafSegment (py_date 2012 7 1) (py_date 2021 12 31) (119 / 10 ^ 6) (595 / 10 ^ 2),
      TafSegment (py_date 2022 1 1) (py_date 2022 12 31) (130 / 10 ^ 6) (649 / 10 ^ 2),
      TafSegment (py_date 2023 1 1) (py_date 2023 12 31) (145 / 10 ^ 6) (727 / 10 ^ 2),
      TafSegment (py_date 2024 1 1) (py_date 2024 12 31) (166 / 10 ^ 6) (830 / 10 ^ 2),
      TafSegment (py_date 2025 1 1) (py_date 2025 12 31) (166 / 10 ^ 6) (830 / 10 ^ 2)]"

datatype fee_error =
    DateOutsideSchedule int
  | Sec31ScheduleGap int
  | TafScheduleGap int
  | NegativePrincipal
  | NegativeShares
  | InvalidOperation

definition get_sec31_segment :: "int \<Rightarrow> fee_error + sec31_segment" where
  "get_sec31_segment d =
     (if d < regulatory_schedule_start \<or> d > regulatory_schedule_end then Inl (DateOutsideSchedule d)
      else case find (\<lambda>s. s31_start s \<le> d \<and> d \<le> s31_end s) sec_section_31_schedule of
        Some s \<Rightarrow> Inr s | None \<Rightarrow> Inl (Sec31ScheduleGap d))"

definition get_finra_taf_segment :: "int \<Rightarrow> fee_error + taf_segment" where
  "get_finra_taf_segment d =
     (if d < regulatory_schedule_start \<or> d > regulatory_schedule_end then Inl (DateOutsideSchedule d)
      else case find (\<lambda>s. taf_start s \<le> d \<and> d \<le> taf_end s) finra_taf_schedule of
        Some s \<Rightarrow> Inr s | None \<Rightarrow> Inl (TafScheduleGap d))"

text \<open>\<open>x.quantize(Decimal("0.01"), rounding=ROUND_CEILING)\<close>.\<close>

definition ceil_cents :: "dec \<Rightarrow> fee_error + dec" where
  "ceil_cents x = (if \<bar>\<lceil>x * 100\<rceil>\<bar> < 10 ^ 28 then Inr (of_int \<lceil>x * 100\<rceil> / 100) else Inl InvalidOperation)"

definition compute_sec31_fee :: "int \<Rightarrow> raw_dec \<Rightarrow> bool \<Rightarrow> fee_error + dec" where
  "compute_sec31_fee trade_date sale_principal is_sell =
     (if \<not> is_sell then Inr 0
      else case sale_principal of
        NaN \<Rightarrow> Inl InvalidOperation
      | NegInf \<Rightarrow> Inl NegativePrincipal
      | PosInf \<Rightarrow> rbind (get_sec31_segment trade_date) (\<lambda>_. Inl InvalidOperation)
      | Fin p \<Rightarrow>
          if p < 0 then Inl NegativePrincipal
          else if p = 0 then Inr 0
          else rbind (get_sec31_segment trade_date) (\<lambda>segment. ceil_cents (dmul p (s31_rate_per_dollar segment))))"

definition compute_finra_taf :: "int \<Rightarrow> raw_dec \<Rightarrow> bool \<Rightarrow> fee_error + dec" where
  "compute_finra_taf trade_date shares_sold is_sell =
     (if \<not> is_sell then Inr 0
      else case shares_sold of
        NaN \<Rightarrow> Inl InvalidOperation
      | NegInf \<Rightarrow> Inl NegativeShares
      | PosInf \<Rightarrow> rbind (get_finra_taf_segment trade_date) (\<lambda>segment. ceil_cents (taf_max_fee segment))
      | Fin n \<Rightarrow>
          if n < 0 then Inl NegativeShares
          else if n = 0 then Inr 0
          else rbind (get_finra_taf_segment trade_date) (\<lambda>segment.
            ceil_cents (min (dmul n (taf_rate_per_share segment)) (taf_max_fee segment))))"

subsection \<open>Schedules without gap or overlap\<close>

text \<open>What a lookup by date relies on: every segment begins on the day after the one before it.\<close>

fun contiguous :: "('s \<Rightarrow> int) \<Rightarrow> ('s \<Rightarrow> int) \<Rightarrow> 's list \<Rightarrow> bool" where
  "contiguous start stop [] \<longleftrightarrow> True"
| "contiguous start stop [s] \<longleftrightarrow> start s \<le> stop s"
| "contiguous start stop (s # t # ss) \<longleftrightarrow> start s \<le> stop s \<and> start t = stop s + 1 \<and> contiguous start stop (t # ss)"

lemma contiguous_hd: "contiguous start stop (s # ss) \<Longrightarrow> start s \<le> stop s"
  by (cases ss) auto

lemma contiguous_after: "contiguous start stop (s # ss) \<Longrightarrow> t \<in> set ss \<Longrightarrow> stop s < start t"
proof (induction ss arbitrary: s)
  case (Cons u ss)
  then have "start u = stop s + 1" "contiguous start stop (u # ss)" by simp_all
  then show ?case using Cons.IH [of u] Cons.prems(2) contiguous_hd [of start stop u ss] by auto
qed simp

lemma contiguous_tl: "contiguous start stop (s # ss) \<Longrightarrow> contiguous start stop ss"
  by (cases ss) auto

lemma contiguous_covers:
  assumes "contiguous start stop ss" "ss \<noteq> []" "start (hd ss) \<le> d" "d \<le> stop (last ss)"
  shows "\<exists>s \<in> set ss. start s \<le> d \<and> d \<le> stop s"
  using assms
proof (induction start stop ss rule: contiguous.induct)
  case (3 start stop s t ss)
  then show ?case by (cases "d \<le> stop s") auto
qed auto

lemma contiguous_unique:
  assumes "contiguous start stop ss" "s \<in> set ss" "t \<in> set ss" "start s \<le> d" "d \<le> stop s" "start t \<le> d" "d \<le> stop t"
  shows "s = t"
  using assms
proof (induction ss)
  case (Cons u ss)
  note after = contiguous_after [OF Cons.prems(1)] and tl = contiguous_tl [OF Cons.prems(1)]
  consider "s = u" "t = u" | "s = u" "t \<in> set ss" | "t = u" "s \<in> set ss" | "s \<in> set ss" "t \<in> set ss"
    using Cons.prems(2,3) by auto
  then show ?case
    using after Cons.prems(4-7) Cons.IH [OF tl] by cases (simp, force, force, blast)
qed simp

locale dated_schedule =
  fixes segments :: "'s list" and start stop :: "'s \<Rightarrow> int" and first_day last_day :: int
  assumes contiguous: "contiguous start stop segments"
    and covers: "segments \<noteq> []" "start (hd segments) \<le> first_day" "last_day \<le> stop (last segments)"
begin

lemma find_in_force:
  assumes "first_day \<le> d" "d \<le> last_day"
  shows "\<exists>s \<in> set segments. find (\<lambda>s. start s \<le> d \<and> d \<le> stop s) segments = Some s \<and> start s \<le> d \<and> d \<le> stop s
    \<and> (\<forall>t \<in> set segments. start t \<le> d \<and> d \<le> stop t \<longrightarrow> t = s)"
proof -
  have "\<exists>s \<in> set segments. start s \<le> d \<and> d \<le> stop s"
    using contiguous_covers [OF contiguous covers(1)] covers(2,3) assms by auto
  then obtain s where s: "find (\<lambda>s. start s \<le> d \<and> d \<le> stop s) segments = Some s"
    by (cases "find (\<lambda>s. start s \<le> d \<and> d \<le> stop s) segments") (auto simp: find_None_iff)
  then have "s \<in> set segments" "start s \<le> d" "d \<le> stop s" by (auto simp: find_Some_iff)
  with s show ?thesis using contiguous_unique [OF contiguous] by blast
qed

end

interpretation sec31: dated_schedule sec_section_31_schedule s31_start s31_end
  regulatory_schedule_start regulatory_schedule_end
  by unfold_locales (code_simp+)

interpretation taf: dated_schedule finra_taf_schedule taf_start taf_end regulatory_schedule_start regulatory_schedule_end
  by unfold_locales (code_simp+)


subsection \<open>The fees of a sale\<close>

text \<open>The rates of both schedules have few digits, so the product with an ordinary amount is exact.\<close>

lemma sec31_rates:
  assumes "s \<in> set sec_section_31_schedule"
  obtains m :: int where "s31_rate_per_dollar s = of_int m / 10 ^ 8" "0 \<le> m" "m \<le> 10 ^ 4"
proof -
  have all: "\<forall>s \<in> set sec_section_31_schedule.
      0 \<le> s31_rate_per_dollar s \<and> s31_rate_per_dollar s * 10 ^ 8 = of_int \<lfloor>s31_rate_per_dollar s * 10 ^ 8\<rfloor>
      \<and> s31_rate_per_dollar s * 10 ^ 8 \<le> 10 ^ 4"
    by (simp add: sec_section_31_schedule_def)
  let ?m = "\<lfloor>s31_rate_per_dollar s * 10 ^ 8\<rfloor>"
  have "s31_rate_per_dollar s = of_int ?m / 10 ^ 8" "0 \<le> ?m" "?m \<le> 10 ^ 4"
    using all assms by (auto simp: floor_le_iff)
  then show thesis by (rule that)
qed

lemma taf_rates:
  assumes "s \<in> set finra_taf_schedule"
  obtains m c :: int where "taf_rate_per_share s = of_int m / 10 ^ 6" "0 < m" "m \<le> 10 ^ 3"
    "taf_max_fee s = of_int c / 100" "0 < c" "c \<le> 10 ^ 3"
proof -
  have all: "\<forall>s \<in> set finra_taf_schedule.
      0 < taf_rate_per_share s \<and> taf_rate_per_share s * 10 ^ 6 = of_int \<lfloor>taf_rate_per_share s * 10 ^ 6\<rfloor>
      \<and> taf_rate_per_share s * 10 ^ 6 \<le> 10 ^ 3 \<and> 0 < taf_max_fee s
      \<and> taf_max_fee s * 100 = of_int \<lfloor>taf_max_fee s * 100\<rfloor> \<and> taf_max_fee s * 100 \<le> 10 ^ 3"
    by (simp add: finra_taf_schedule_def)
  let ?m = "\<lfloor>taf_rate_per_share s * 10 ^ 6\<rfloor>" and ?c = "\<lfloor>taf_max_fee s * 100\<rfloor>"
  have eq: "taf_rate_per_share s = of_int ?m / 10 ^ 6" "taf_max_fee s = of_int ?c / 100" and le: "?m \<le> 10 ^ 3" "?c \<le> 10 ^ 3"
    using all assms by (auto simp: floor_le_iff)
  have "0 < (of_int ?m :: rat)" "0 < (of_int ?c :: rat)" using all assms by auto
  then have "0 < ?m" "0 < ?c" by (simp_all only: of_int_0_less_iff)
  then show thesis using that [OF eq(1) _ le(1) eq(2) _ le(2)] by blast
qed

lemma exact_product:
  assumes "p = of_int k / 10 ^ i" "r = of_int m / 10 ^ j" "\<bar>k * m\<bar> \<le> 10 ^ 28"
  shows "dmul p r = p * r"
proof -
  have inv: "pow10 (- int n) = 1 / 10 ^ n" for n by (simp add: pow10_powi power_int_minus divide_inverse)
  have "p * r = of_int (k * m) * pow10 (- int (i + j))"
    unfolding inv unfolding assms(1,2) by (simp add: power_add)
  then have "dec28 (p * r)" using assms(3) by (rule dec28I)
  then show ?thesis unfolding dmul_def by (rule dround_exact)
qed

lemma small_product: "0 \<le> k \<Longrightarrow> k \<le> 10 ^ 20 \<Longrightarrow> 0 \<le> m \<Longrightarrow> m \<le> 10 ^ 4 \<Longrightarrow> \<bar>k * m\<bar> \<le> (10 ^ 28 :: int)"
  using mult_mono [of k "10 ^ 20" m "10 ^ 4"] by simp

lemma ceil_cents_ok: "0 \<le> x \<Longrightarrow> x \<le> 10 ^ 20 \<Longrightarrow> ceil_cents x = Inr (of_int \<lceil>x * 100\<rceil> / 100)"
proof -
  assume "0 \<le> x" "x \<le> 10 ^ 20"
  then have "0 \<le> \<lceil>x * 100\<rceil>" "\<lceil>x * 100\<rceil> \<le> 10 ^ 22" by (simp_all add: ceiling_le_iff)
  then show ?thesis by (simp add: ceil_cents_def)
qed

text \<open>C40: On every date of the schedule window exactly one segment of the SEC Section 31 schedule is in force, so the gap error is never raised, and the fee of a sale of any positive number of cents up to 10^20 is the exact product of principal and rate, rounded up to the cent: the 28-digit arithmetic never disturbs it.\<close>

theorem sec31_fee_exact:
  assumes "regulatory_schedule_start \<le> d" "d \<le> regulatory_schedule_end" "0 < k" "k \<le> 10 ^ 20"
  shows "\<exists>s \<in> set sec_section_31_schedule. get_sec31_segment d = Inr s \<and> s31_start s \<le> d \<and> d \<le> s31_end s
     \<and> (\<forall>t \<in> set sec_section_31_schedule. s31_start t \<le> d \<and> d \<le> s31_end t \<longrightarrow> t = s)
     \<and> compute_sec31_fee d (Fin (of_int k / 100)) True
       = Inr (of_int \<lceil>of_int k / 100 * s31_rate_per_dollar s * 100\<rceil> / 100)"
proof -
  let ?p = "of_int k / 100 :: dec"
  obtain s where s: "find (\<lambda>s. s31_start s \<le> d \<and> d \<le> s31_end s) sec_section_31_schedule = Some s"
    "s \<in> set sec_section_31_schedule" "s31_start s \<le> d" "d \<le> s31_end s"
    and only: "\<forall>t \<in> set sec_section_31_schedule. s31_start t \<le> d \<and> d \<le> s31_end t \<longrightarrow> t = s"
    using sec31.find_in_force [OF assms(1,2)] by blast
  have seg: "get_sec31_segment d = Inr s" using s(1) assms(1,2) by (simp add: get_sec31_segment_def)
  obtain m where m: "s31_rate_per_dollar s = of_int m / 10 ^ 8" "0 \<le> m" "m \<le> 10 ^ 4" by (rule sec31_rates [OF s(2)])
  have "\<bar>k * m\<bar> \<le> 10 ^ 28" by (rule small_product) (use assms(3,4) m(2,3) in linarith)+
  from exact_product [OF _ m(1) this, of ?p 2] have "dmul ?p (s31_rate_per_dollar s) = ?p * s31_rate_per_dollar s"
    by simp
  moreover have "0 \<le> ?p * s31_rate_per_dollar s" "?p * s31_rate_per_dollar s \<le> 10 ^ 20"
  proof -
    have "(of_int k :: rat) \<le> of_int (10 ^ 20)" "(of_int m :: rat) \<le> of_int (10 ^ 4)"
      using assms(4) m(3) by (simp_all only: of_int_le_iff)
    then have p: "0 \<le> ?p" "?p \<le> 10 ^ 18" and r: "0 \<le> s31_rate_per_dollar s" "s31_rate_per_dollar s \<le> 1"
      using assms(3) m(1,2) by simp_all
    show "0 \<le> ?p * s31_rate_per_dollar s" using p r by simp
    show "?p * s31_rate_per_dollar s \<le> 10 ^ 20" using mult_mono [OF p(2) r(2)] p r by simp
  qed
  ultimately have "compute_sec31_fee d (Fin ?p) True = Inr (of_int \<lceil>?p * s31_rate_per_dollar s * 100\<rceil> / 100)"
    using assms(3) by (simp add: compute_sec31_fee_def seg ceil_cents_ok)
  with s only seg show ?thesis by blast
qed


text \<open>A sale of whole shares pays the rounded product up to the cap of the segment in force.\<close>

lemma ceiling_min: "\<lceil>min x (of_int c)\<rceil> = min \<lceil>x\<rceil> c"
  by (cases "x \<le> of_int c") (auto simp: min_def ceiling_le_iff not_le less_ceiling_iff)

lemma taf_fee_exact:
  assumes "regulatory_schedule_start \<le> d" "d \<le> regulatory_schedule_end" "0 < k" "k \<le> 10 ^ 20"
  shows "\<exists>s \<in> set finra_taf_schedule. get_finra_taf_segment d = Inr s \<and> taf_start s \<le> d \<and> d \<le> taf_end s
     \<and> compute_finra_taf d (Fin (of_int k)) True
       = Inr (min (of_int \<lceil>of_int k * taf_rate_per_share s * 100\<rceil> / 100) (taf_max_fee s))"
proof -
  let ?n = "of_int k :: dec"
  obtain s where s: "find (\<lambda>s. taf_start s \<le> d \<and> d \<le> taf_end s) finra_taf_schedule = Some s"
    "s \<in> set finra_taf_schedule" "taf_start s \<le> d" "d \<le> taf_end s"
    using taf.find_in_force [OF assms(1,2)] by blast
  have seg: "get_finra_taf_segment d = Inr s" using s(1) assms(1,2) by (simp add: get_finra_taf_segment_def)
  obtain m c where m: "taf_rate_per_share s = of_int m / 10 ^ 6" "0 < m" "m \<le> 10 ^ 3"
    and c: "taf_max_fee s = of_int c / 100" "0 < c" "c \<le> 10 ^ 3" by (rule taf_rates [OF s(2)])
  have "\<bar>k * m\<bar> \<le> 10 ^ 28" by (rule small_product) (use assms(3,4) m(2,3) in simp_all)
  from exact_product [OF _ m(1) this, of ?n 0] have exact: "dmul ?n (taf_rate_per_share s) = ?n * taf_rate_per_share s"
    by simp
  let ?x = "min (?n * taf_rate_per_share s) (taf_max_fee s)"
  have "(of_int c :: rat) \<le> of_int (10 ^ 3)" using c(3) by (simp only: of_int_le_iff)
  then have x: "0 \<le> ?x" "?x \<le> 10 ^ 20" using assms(3) m(1,2) c(1,2) by (simp_all add: min_le_iff_disj)
  have "?x * 100 = min (?n * taf_rate_per_share s * 100) (of_int c)" using c(1) by (simp add: min_def)
  then have "of_int \<lceil>?x * 100\<rceil> / 100 = min (of_int \<lceil>?n * taf_rate_per_share s * 100\<rceil> / 100) (taf_max_fee s)"
    unfolding c(1) by (simp only: ceiling_min)
  with ceil_cents_ok [OF x] have "ceil_cents ?x
      = Inr (min (of_int \<lceil>?n * taf_rate_per_share s * 100\<rceil> / 100) (taf_max_fee s))" by simp
  then have "compute_finra_taf d (Fin ?n) True
      = Inr (min (of_int \<lceil>?n * taf_rate_per_share s * 100\<rceil> / 100) (taf_max_fee s))"
    using assms(3) by (simp add: compute_finra_taf_def seg exact)
  with s seg show ?thesis by blast
qed

text \<open>A purchase, or a sale of nothing, is free on any date, also outside the schedule.\<close>

lemma free_of_fee_on_any_date:
  "compute_sec31_fee d p False = Inr 0" "compute_sec31_fee d (Fin 0) True = Inr 0"
  "compute_finra_taf d p False = Inr 0" "compute_finra_taf d (Fin 0) True = Inr 0"
  by (simp_all add: compute_sec31_fee_def compute_finra_taf_def)

lemma outside_schedule_refused:
  "d < regulatory_schedule_start \<or> regulatory_schedule_end < d \<Longrightarrow> 0 < p
    \<Longrightarrow> compute_sec31_fee d (Fin p) True = Inl (DateOutsideSchedule d)
      \<and> compute_finra_taf d (Fin p) True = Inl (DateOutsideSchedule d)"
  by (auto simp: compute_sec31_fee_def compute_finra_taf_def get_sec31_segment_def get_finra_taf_segment_def)

text \<open>A sale for 1000.00 dollars on 2024-01-02 pays 8.00 dollars per million, which is 0.8 cents.\<close>

theorem sec31_fee_exact_witness:
  "compute_sec31_fee (py_date 2024 1 2) (Fin 1000) True = Inr (1 / 100)"
proof -
  let ?d = "py_date 2024 1 2"
  have d: "?d = 19724" "regulatory_schedule_start = 13634" "regulatory_schedule_end = 20453" by code_simp+
  have hundred: "(0 :: int) < 100000" "(100000 :: int) \<le> 10 ^ 20" by simp_all
  have window: "regulatory_schedule_start \<le> ?d" "?d \<le> regulatory_schedule_end" unfolding d by simp_all
  obtain s where s: "s \<in> set sec_section_31_schedule" "s31_start s \<le> ?d" "?d \<le> s31_end s"
    and only: "\<forall>t \<in> set sec_section_31_schedule. s31_start t \<le> ?d \<and> ?d \<le> s31_end t \<longrightarrow> t = s"
    and fee: "compute_sec31_fee ?d (Fin (of_int 100000 / 100)) True
      = Inr (of_int \<lceil>of_int 100000 / 100 * s31_rate_per_dollar s * 100\<rceil> / 100)"
    using sec31_fee_exact [OF window, of 100000] hundred by blast
  let ?t = "Sec31Segment (py_date 2023 2 27) (py_date 2024 5 21) (800 / 10 ^ 2) (800 / 10 ^ 8)"
  have "?t \<in> set sec_section_31_schedule" by (simp add: sec_section_31_schedule_def)
  moreover have "py_date 2023 2 27 \<le> ?d" "?d \<le> py_date 2024 5 21" by code_simp+
  ultimately have "s = ?t" using only by force
  have "of_int 100000 / 100 * s31_rate_per_dollar s * 100 = 4 / 5" by (simp add: \<open>s = ?t\<close>)
  moreover have "\<lceil>4 / 5 :: rat\<rceil> = 1" by (simp add: ceiling_eq_iff)
  ultimately show ?thesis using fee by (simp only: of_int_1) simp
qed

end
