(* ===== verification/PpdsLedger.thy ===== *)
theory PpdsLedger
  imports HashChain DecimalText PyTime
begin

section \<open>Portfolio statements: lots, ledger and snapshots\<close>

text \<open>
  \<open>ppds/lots.py\<close>, \<open>ppds/ledger.py\<close> and the snapshot half of \<open>ppds/statement_ingest.py\<close>: exact cash and position
  lots, the append-only ledger whose head digest chains every posted lot, and the account snapshot read from
  the rows of a statement.  A raw field that must be a number is what \<open>Decimal(str(raw))\<close> makes of it, a raw
  date what \<open>date.fromisoformat\<close> makes of it (\<open>None\<close> when it raises); reading the CSV text itself is the \<open>csv\<close>
  module's and is left out.  Amounts are \<open>Decimal\<close> objects, because the ledger digests their text; totals are
  computed in the 28-digit context.  SHA-256 is the parameter \<open>sha\<close>.
\<close>

subsection \<open>Lots\<close>

datatype raw_number =
    Inexact              \<comment> \<open>\<open>None\<close>, a \<open>bool\<close> or a \<open>float\<close>\<close>
  | Unreadable           \<comment> \<open>\<open>Decimal\<close> raises\<close>
  | NotFinite
  | Number py_decimal

datatype ppds_error =
    MalformedDecimal string
  | NonfiniteDecimal string
  | MalformedDate string
  | CashCurrencyInvalid
  | PositionSymbolInvalid
  | PositionZeroQuantity
  | PositionCurrencyInvalid
  | StatementNoRows
  | AccountIdInvalid
  | RowAccountMismatch nat string string
  | UnknownRecordType "string option"

fun exact_decimal :: "raw_number \<Rightarrow> string \<Rightarrow> ppds_error + py_decimal" where
  "exact_decimal Inexact context = Inl (MalformedDecimal context)"
| "exact_decimal Unreadable context = Inl (MalformedDecimal context)"
| "exact_decimal NotFinite context = Inl (NonfiniteDecimal context)"
| "exact_decimal (Number d) context = Inr d"

fun exact_date :: "int option \<Rightarrow> string \<Rightarrow> ppds_error + int" where
  "exact_date None context = Inl (MalformedDate context)"
| "exact_date (Some d) context = Inr d"

record cash_lot =
  cl_currency :: string
  cl_amount :: py_decimal
  cl_acquired :: int

record position_lot =
  pl_symbol :: string
  pl_quantity :: py_decimal
  pl_cost_basis :: py_decimal
  pl_acquired :: int
  pl_currency :: string

definition is_alpha :: "char \<Rightarrow> bool" where
  "is_alpha c \<longleftrightarrow> (let n = (of_char c :: nat) in (65 \<le> n \<and> n \<le> 90) \<or> (97 \<le> n \<and> n \<le> 122))"

text \<open>\<open>len(s) == 3 and s.isalpha()\<close>, and \<open>str(x or "").strip().upper()\<close>.\<close>

definition currency_ok :: "string \<Rightarrow> bool" where
  "currency_ok s \<longleftrightarrow> length s = 3 \<and> list_all is_alpha s"

definition clean_text :: "string option \<Rightarrow> string" where
  "clean_text v = upper (strip (case v of None \<Rightarrow> [] | Some s \<Rightarrow> s))"

definition cash_lot_from_mapping :: "string option \<Rightarrow> raw_number \<Rightarrow> int option \<Rightarrow> ppds_error + cash_lot" where
  "cash_lot_from_mapping currency amount acquired =
     (let c = clean_text currency in
      raise_if (\<not> currency_ok c) CashCurrencyInvalid (
      rbind (exact_decimal amount ''cash amount'') (\<lambda>a.
      rbind (exact_date acquired ''cash acquired_on'') (\<lambda>d.
      Inr \<lparr>cl_currency = c, cl_amount = a, cl_acquired = d\<rparr>))))"

definition position_lot_from_mapping ::
    "string option \<Rightarrow> raw_number \<Rightarrow> raw_number \<Rightarrow> int option \<Rightarrow> string option \<Rightarrow> ppds_error + position_lot" where
  "position_lot_from_mapping symbol quantity cost acquired currency =
     (let sy = clean_text symbol in
      raise_if (sy = []) PositionSymbolInvalid (
      rbind (exact_decimal quantity ''position quantity'') (\<lambda>q.
      raise_if (dec_value q = 0) PositionZeroQuantity (
      let c = clean_text currency in
      raise_if (\<not> currency_ok c) PositionCurrencyInvalid (
      rbind (exact_decimal cost ''position cost basis'') (\<lambda>b.
      rbind (exact_date acquired ''position acquired_on'') (\<lambda>d.
      Inr \<lparr>pl_symbol = sy, pl_quantity = q, pl_cost_basis = b, pl_acquired = d, pl_currency = c\<rparr>)))))))"

subsection \<open>Ledger\<close>

record portfolio_ledger =
  nl_cash :: "cash_lot list"
  nl_positions :: "position_lot list"
  nl_head :: string
  nl_count :: int
  nl_account :: string
  nl_as_of :: "int option"

definition empty_ledger :: "string \<Rightarrow> int option \<Rightarrow> portfolio_ledger" where
  "empty_ledger account as_of =
     \<lparr>nl_cash = [], nl_positions = [], nl_head = zero_digest, nl_count = 0, nl_account = account, nl_as_of = as_of\<rparr>"

datatype lot = CashLot cash_lot | PositionLot position_lot

fun payload_to_json :: "lot \<Rightarrow> py_value" where
  "payload_to_json (CashLot l) = PDict
     [(KStr ''currency'', PStr (cl_currency l)), (KStr ''amount'', PStr (dec_str (cl_amount l))),
      (KStr ''acquired_on'', PStr (date_str (cl_acquired l)))]"
| "payload_to_json (PositionLot l) = PDict
     [(KStr ''symbol'', PStr (pl_symbol l)), (KStr ''quantity'', PStr (dec_str (pl_quantity l))),
      (KStr ''cost_basis_per_share'', PStr (dec_str (pl_cost_basis l))),
      (KStr ''acquired_on'', PStr (date_str (pl_acquired l))), (KStr ''currency'', PStr (pl_currency l))]"

definition entry_sha256 :: "(string \<Rightarrow> string) \<Rightarrow> string \<Rightarrow> string \<Rightarrow> lot \<Rightarrow> data_contract_error + string" where
  "entry_sha256 sha prev kind payload = compute_sha256 sha (PDict
     [(KStr ''prev'', PStr prev), (KStr ''kind'', PStr kind), (KStr ''payload'', payload_to_json payload)])"

definition post_cash_lot ::
    "(string \<Rightarrow> string) \<Rightarrow> portfolio_ledger \<Rightarrow> cash_lot \<Rightarrow> data_contract_error + portfolio_ledger" where
  "post_cash_lot sha l c = rbind (entry_sha256 sha (nl_head l) ''CASH_LOT'' (CashLot c)) (\<lambda>head.
     Inr (l\<lparr>nl_cash := nl_cash l @ [c], nl_head := head, nl_count := nl_count l + 1\<rparr>))"

definition post_position_lot ::
    "(string \<Rightarrow> string) \<Rightarrow> portfolio_ledger \<Rightarrow> position_lot \<Rightarrow> data_contract_error + portfolio_ledger" where
  "post_position_lot sha l p = rbind (entry_sha256 sha (nl_head l) ''POSITION_LOT'' (PositionLot p)) (\<lambda>head.
     Inr (l\<lparr>nl_positions := nl_positions l @ [p], nl_head := head, nl_count := nl_count l + 1\<rparr>))"

fun post_lot :: "(string \<Rightarrow> string) \<Rightarrow> portfolio_ledger \<Rightarrow> lot \<Rightarrow> data_contract_error + portfolio_ledger" where
  "post_lot sha l (CashLot c) = post_cash_lot sha l c"
| "post_lot sha l (PositionLot p) = post_position_lot sha l p"

text \<open>The totals per key, in the order in which the keys first appear.\<close>

definition tally :: "('a \<Rightarrow> string) \<Rightarrow> ('a \<Rightarrow> dec) \<Rightarrow> 'a list \<Rightarrow> (string, dec) dict" where
  "tally key amount xs = fold (\<lambda>x totals.
     dict_put (key x) (dadd (case dict_get totals (key x) of None \<Rightarrow> 0 | Some t \<Rightarrow> t) (amount x)) totals) xs []"

definition cash_by_currency :: "cash_lot list \<Rightarrow> (string, dec) dict" where
  "cash_by_currency = tally cl_currency (\<lambda>l. dec_value (cl_amount l))"

definition quantity_by_symbol :: "position_lot list \<Rightarrow> (string, dec) dict" where
  "quantity_by_symbol = tally pl_symbol (\<lambda>l. dec_value (pl_quantity l))"

subsection \<open>Snapshots\<close>

record statement_row =
  rw_account :: "string option"
  rw_type :: "string option"
  rw_symbol :: "string option"
  rw_currency :: "string option"
  rw_quantity :: raw_number
  rw_amount :: raw_number
  rw_cost :: raw_number
  rw_acquired :: "int option"

record account_snapshot =
  as_as_of :: int
  as_cash :: "cash_lot list"
  as_positions :: "position_lot list"
  as_account :: string

fun ingest_rows :: "string \<Rightarrow> nat \<Rightarrow> statement_row list \<Rightarrow> ppds_error + cash_lot list \<times> position_lot list" where
  "ingest_rows account i [] = Inr ([], [])"
| "ingest_rows account i (r # rs) =
     (let row_account = (case rw_account r of None \<Rightarrow> [] | Some a \<Rightarrow> strip a) in
      raise_if (row_account \<noteq> [] \<and> row_account \<noteq> account) (RowAccountMismatch i row_account account) (
      let kind = clean_text (rw_type r) in
      if kind = ''CASH'' then
        rbind (cash_lot_from_mapping (rw_currency r) (rw_amount r) (rw_acquired r)) (\<lambda>c.
        rbind (ingest_rows account (Suc i) rs) (\<lambda>(cs, ps). Inr (c # cs, ps)))
      else if kind = ''POSITION'' then
        rbind (position_lot_from_mapping (rw_symbol r) (rw_quantity r) (rw_cost r) (rw_acquired r) (rw_currency r)) (\<lambda>p.
        rbind (ingest_rows account (Suc i) rs) (\<lambda>(cs, ps). Inr (cs, p # ps)))
      else Inl (UnknownRecordType (rw_type r))))"

definition ingest_account_snapshot ::
    "statement_row list \<Rightarrow> int \<Rightarrow> string \<Rightarrow> ppds_error + account_snapshot" where
  "ingest_account_snapshot rows as_of account_id =
     raise_if (rows = []) StatementNoRows (
     let account = strip account_id in
     raise_if (account = []) AccountIdInvalid (
     rbind (ingest_rows account 0 rows) (\<lambda>(cs, ps).
     Inr \<lparr>as_as_of = as_of, as_cash = cs, as_positions = ps, as_account = account\<rparr>)))"

subsection \<open>Totals\<close>

text \<open>The total of a key is the running sum, in order, of the amounts filed under it.\<close>

lemma dsum_snoc: "dsum (xs @ [x]) = dadd (dsum xs) x"
  by (simp add: dsum_def)

lemma tally_snoc: "tally key amount (xs @ [x]) =
    dict_put (key x) (dadd (case dict_get (tally key amount xs) (key x) of None \<Rightarrow> 0 | Some t \<Rightarrow> t) (amount x))
      (tally key amount xs)"
  by (simp add: tally_def)

lemma dict_get_tally: "dict_get (tally key amount xs) k =
    (if k \<in> key ` set xs then Some (dsum (map amount (filter (\<lambda>x. key x = k) xs))) else None)"
proof (induction xs arbitrary: k rule: rev_induct)
  case Nil
  then show ?case by (simp add: tally_def)
next
  case (snoc x xs)
  have "dsum (map amount (filter (\<lambda>y. key y = key x) xs)) = 0" if "key x \<notin> key ` set xs"
  proof -
    have "filter (\<lambda>y. key y = key x) xs = []" using that by (intro filter_False ballI notI) (metis image_eqI)
    then show ?thesis by simp
  qed
  then show ?case by (auto simp: tally_snoc dict_get_put snoc.IH dsum_snoc)
qed

lemma tally_wf: "dict_wf (tally key amount xs)"
  by (induction xs rule: rev_induct) (simp_all add: tally_snoc dict_wf_put, simp add: tally_def dict_wf_def)

lemma fst_dict: "dict_get d k = None \<longleftrightarrow> k \<notin> fst ` set d"
  by (simp add: dict_get_def map_of_eq_None_iff)

lemma keys_tally: "fst ` set (tally key amount xs) = key ` set xs"
proof (rule set_eqI)
  fix k
  show "k \<in> fst ` set (tally key amount xs) \<longleftrightarrow> k \<in> key ` set xs"
    using fst_dict [of "tally key amount xs" k] by (simp add: dict_get_tally split: if_splits)
qed


subsection \<open>The chain of postings\<close>

text \<open>An entry is the head it extends and the lot it posts; \<open>entry_text\<close> is what is hashed.\<close>

fun kind_text :: "lot \<Rightarrow> string" where
  "kind_text (CashLot c) = ''CASH_LOT''"
| "kind_text (PositionLot p) = ''POSITION_LOT''"

fun payload_tree :: "lot \<Rightarrow> json" where
  "payload_tree (CashLot l) = JObj
     [(''acquired_on'', JStr (date_str (cl_acquired l))), (''amount'', JStr (dec_str (cl_amount l))),
      (''currency'', JStr (cl_currency l))]"
| "payload_tree (PositionLot l) = JObj
     [(''acquired_on'', JStr (date_str (pl_acquired l))),
      (''cost_basis_per_share'', JStr (dec_str (pl_cost_basis l))), (''currency'', JStr (pl_currency l)),
      (''quantity'', JStr (dec_str (pl_quantity l))), (''symbol'', JStr (pl_symbol l))]"

definition entry_tree :: "string \<times> lot \<Rightarrow> json" where
  "entry_tree e = JObj [(''kind'', JStr (kind_text (snd e))), (''payload'', payload_tree (snd e)), (''prev'', JStr (fst e))]"

definition entry_text :: "string \<times> lot \<Rightarrow> string" where
  "entry_text e = dumps (entry_tree e)"

lemma payload_serialized: "serialize_value (payload_to_json l) = Inr (payload_tree l)"
  by (cases l) simp_all

lemma entry_sha256_eq: "entry_sha256 sha prev (kind_text l) l = Inr (sha (entry_text (prev, l)))"
  by (simp add: entry_sha256_def compute_sha256_def to_canonical_json_def payload_serialized entry_text_def entry_tree_def)

lemma post_lot_eq: "post_lot sha l x =
    Inr (l\<lparr>nl_cash := nl_cash l @ (case x of CashLot c \<Rightarrow> [c] | _ \<Rightarrow> []),
           nl_positions := nl_positions l @ (case x of PositionLot p \<Rightarrow> [p] | _ \<Rightarrow> []),
           nl_head := sha (entry_text (nl_head l, x)), nl_count := nl_count l + 1\<rparr>)"
  using entry_sha256_eq [of sha "nl_head l" x] by (cases x) (simp_all add: post_cash_lot_def post_position_lot_def)

lemma lot_tree_ok: "json_ok (payload_tree l)"
  by (cases l) simp_all

lemma entry_tree_ok: "json_ok (entry_tree e)"
  by (simp add: entry_tree_def lot_tree_ok)

lemma entry_text_inject: "entry_text e = entry_text e' \<longleftrightarrow> entry_tree e = entry_tree e'"
  by (simp add: entry_text_def dumps_inject [OF entry_tree_ok entry_tree_ok])

interpretation ppds_chain: hash_chain entry_text fst "\<lambda>_. True"
  by unfold_locales (simp add: entry_text_inject entry_tree_def)

text \<open>Dates of the calendar; then the text of an entry is the entry.\<close>

fun lot_ok :: "lot \<Rightarrow> bool" where
  "lot_ok (CashLot c) = date_ok (cl_acquired c)"
| "lot_ok (PositionLot p) = date_ok (pl_acquired p)"

lemma lot_tree_inject: "payload_tree x = payload_tree y \<Longrightarrow> lot_ok x \<Longrightarrow> lot_ok y \<Longrightarrow> x = y"
proof (cases x; cases y)
  fix c d assume "payload_tree x = payload_tree y" "lot_ok x" "lot_ok y" "x = CashLot c" "y = CashLot d"
  moreover from this have "cl_acquired c = cl_acquired d" using date_str_inject by simp
  ultimately show "x = y" by (cases c; cases d) simp
next
  fix p q assume "payload_tree x = payload_tree y" "lot_ok x" "lot_ok y" "x = PositionLot p" "y = PositionLot q"
  moreover from this have "pl_acquired p = pl_acquired q" using date_str_inject by simp
  ultimately show "x = y" by (cases p; cases q) simp
qed simp_all

text \<open>The entries that a sequence of postings appends behind a head.\<close>

fun entries_from :: "(string \<Rightarrow> string) \<Rightarrow> string \<Rightarrow> lot list \<Rightarrow> (string \<times> lot) list" where
  "entries_from sha d [] = []"
| "entries_from sha d (x # xs) = (d, x) # entries_from sha (sha (entry_text (d, x))) xs"

lemma entries_chained: "chained sha entry_text fst d (entries_from sha d xs)"
  by (induction xs arbitrary: d) simp_all

lemma entries_lots [simp]: "map snd (entries_from sha d xs) = xs"
  by (induction xs arbitrary: d) simp_all

lemma length_entries [simp]: "length (entries_from sha d xs) = length xs"
  by (induction xs arbitrary: d) simp_all

lemma posted_ledger:
  assumes "run_strict (post_lot sha) l xs = Inr l'"
  shows "nl_head l' = chain_head sha entry_text (nl_head l) (entries_from sha (nl_head l) xs)"
    "nl_count l' = nl_count l + int (length xs)"
    "nl_cash l' = nl_cash l @ [c. CashLot c \<leftarrow> xs]" "nl_positions l' = nl_positions l @ [p. PositionLot p \<leftarrow> xs]"
    "nl_account l' = nl_account l" "nl_as_of l' = nl_as_of l"
  using assms
proof (induction xs arbitrary: l)
  case (Cons x xs)
  { case 1 then show ?case using Cons.IH(1) by (auto simp: post_lot_eq chain_head_Cons rbind_def) }
  { case 2 then show ?case using Cons.IH(2) by (auto simp: post_lot_eq rbind_def) }
  { case 3 then show ?case using Cons.IH(3) by (cases x) (auto simp: post_lot_eq rbind_def) }
  { case 4 then show ?case using Cons.IH(4) by (cases x) (auto simp: post_lot_eq rbind_def) }
  { case 5 then show ?case using Cons.IH(5) by (auto simp: post_lot_eq rbind_def) }
  { case 6 then show ?case using Cons.IH(6) by (auto simp: post_lot_eq rbind_def) }
qed simp_all

lemma map_coarser:
  assumes "map f xs = map f ys" "\<And>x y. f x = f y \<Longrightarrow> g x = g y"
  shows "map g xs = map g ys"
  using assms(1)
proof (induction xs arbitrary: ys)
  case (Cons x xs)
  obtain y zs where ys: "ys = y # zs" using Cons.prems by (cases ys) simp_all
  then have "f x = f y" "map f xs = map f zs" using Cons.prems by simp_all
  then have "g x = g y" "map g xs = map g zs" using assms(2) Cons.IH by blast+
  with ys show ?case by simp
qed simp

text \<open>Two ledgers with the same head and as many entries were posted the same lots.\<close>

lemma ledger_head_determines_lots:
  assumes "run_strict (post_lot sha) (empty_ledger a t) xs = Inr l" "run_strict (post_lot sha) (empty_ledger a' t') ys = Inr l'"
    and "nl_head l = nl_head l'" "nl_count l = nl_count l'"
    and "\<forall>x \<in> set xs \<union> set ys. lot_ok x"
    and "\<forall>e \<in> set (entries_from sha zero_digest xs). \<forall>e' \<in> set (entries_from sha zero_digest ys).
      separates sha (entry_text e) (entry_text e')"
  shows "xs = ys"
proof -
  let ?es = "entries_from sha zero_digest xs" and ?fs = "entries_from sha zero_digest ys"
  have len: "length ?es = length ?fs"
    using posted_ledger(2) [OF assms(1)] posted_ledger(2) [OF assms(2)] assms(4) by (simp add: empty_ledger_def)
  have head: "chain_head sha entry_text zero_digest ?es = chain_head sha entry_text zero_digest ?fs"
    using posted_ledger(1) [OF assms(1)] posted_ledger(1) [OF assms(2)] assms(3) by (simp add: empty_ledger_def)
  have "map entry_text ?es = map entry_text ?fs"
    using ppds_chain.head_determines_history [OF entries_chained entries_chained len head _ _ assms(6)] by simp
  then have "map (payload_tree \<circ> snd) ?es = map (payload_tree \<circ> snd) ?fs"
    by (rule map_coarser) (simp add: entry_text_inject entry_tree_def)
  then have trees: "map payload_tree xs = map payload_tree ys" by (simp flip: map_map)
  have "inj_on payload_tree (set xs \<union> set ys)"
    using assms(5) lot_tree_inject by (auto intro!: inj_onI)
  then show "xs = ys" using trees by (rule inj_on_map_eq_map [THEN iffD1])
qed

end
