(* ===== verification/PpdsReconcile.thy ===== *)
theory PpdsReconcile
  imports PpdsLedger
begin

section \<open>Reconciling a statement with a ledger\<close>

text \<open>
  \<open>ppds/reconcile.py\<close>: the comparison of the totals of a statement snapshot with those of a ledger, the
  diagnosis of every difference against the documented transactions, and the verdict on the independence of
  the ledger from an attestation.  Explanations and notes are kept as the data they interpolate; a break
  keeps its numbers, of which the code stores the \<open>str\<close>.  \<open>shab\<close> is SHA-256 of a file's bytes.  The text
  report of \<open>format_reconciliation_report\<close> is left out.
\<close>

subsection \<open>Records\<close>

record stmt_tx =
  tx_id :: string
  tx_date :: int
  tx_type :: string
  tx_currency :: string
  tx_amount :: dec
  tx_quantity :: "dec option"
  tx_symbol :: "string option"
  tx_description :: string
  tx_settled :: "bool option"
  tx_provenance :: string
  tx_reflected :: "bool option"

datatype break_scope = CASH_SCOPE | POSITION_SCOPE
datatype break_status = SUPPORTED_EXPLANATION | POSSIBLE_CAUSE | UNEXPLAINED_MISMATCH

datatype explanation =
    AlreadyReflected "string list"
  | MultipleCandidates "string list"
  | ConsumedElsewhere string
  | DuplicatedId string
  | AfterAsOf string int int
  | SettlementUnknown string
  | Unsettled string
  | PostingUnknown string
  | NoProvenance string
  | InvalidRecordType string string
  | Documented string string string string

record recon_break =
  bk_scope :: break_scope
  bk_key :: string
  bk_statement :: dec
  bk_ledger :: dec
  bk_difference :: dec
  bk_status :: break_status
  bk_explanation :: "explanation option"
  bk_refs :: "string list"

record ledger_attestation =
  ia_source_id :: string
  ia_artifact :: string
  ia_account :: string
  ia_as_of :: int
  ia_entries :: int
  ia_head :: string
  ia_lineage :: string
  ia_origin :: string

datatype recon_status =
    SELF_CONSISTENCY_VERIFIED | SELF_CONSISTENCY_BREAKS | RC_INDEPENDENCE_UNVERIFIED
  | NUMERICALLY_MATCHED_INDEPENDENCE_UNVERIFIED | BREAKS_INDEPENDENCE_UNVERIFIED | RC_LINEAGE_CONFLICT
  | INDEPENDENT_RECONCILIATION_MATCHED | INDEPENDENT_RECONCILIATION_BREAKS

datatype evidence_integrity = UNATTESTED | INTEGRITY_COMPROMISED | BYTES_VERIFIED | METADATA_ATTESTED
datatype source_independence =
  SELF_ORIGIN | SI_INDEPENDENCE_UNVERIFIED | SI_LINEAGE_CONFLICT | INDEPENDENT_VERIFIED

datatype lineage_note =
    MissingSource | SameSource | NoAttestation | BytesMismatch string string | BytesVerified string
  | SourceIdMismatch string string | SelfMasquerade | DerivedOrigin string
  | AttestationAsOf int int | LedgerAsOf int int
  | SnapshotAccount string string | LedgerAccount string string
  | HeadMismatch string string | CountMismatch int int
  | VerifiedIndependent string string | VerifiedWithBreaks string string
  | SelfDerived | SelfBreaks

record recon_result =
  rr_matched :: bool
  rr_breaks :: "recon_break list"
  rr_statement_cash :: "(string, dec) dict"
  rr_ledger_cash :: "(string, dec) dict"
  rr_status :: recon_status
  rr_independent :: bool
  rr_statement_source :: "string option"
  rr_ledger_source :: "string option"
  rr_attestation :: "ledger_attestation option"
  rr_notes :: "lineage_note list"
  rr_integrity :: evidence_integrity
  rr_independence :: source_independence

subsection \<open>Diagnosis of a break\<close>

definition valid_cash_record_types :: "string set" where
  "valid_cash_record_types =
     {''DIVIDEND'', ''FEE'', ''TRANSFER'', ''INTEREST'', ''TAX'', ''TRADE'', ''CORPORATE_ACTION''}"

definition valid_position_record_types :: "string set" where
  "valid_position_record_types = {''TRADE'', ''CORPORATE_ACTION'', ''TRANSFER'', ''SPLIT''}"

type_synonym diagnosis = "break_status \<times> explanation option \<times> string list"

text \<open>The part the two diagnoses share: \<open>matching\<close> are the transactions that match the difference.\<close>

definition diagnose ::
    "stmt_tx list \<Rightarrow> string set \<Rightarrow> int \<Rightarrow> string set \<Rightarrow> string set \<Rightarrow> diagnosis \<times> string set" where
  "diagnose matching valid_types as_of duplicates consumed =
     (let unreflected = filter (\<lambda>tx. tx_reflected tx \<noteq> Some True) matching in
      case unreflected of
        [] \<Rightarrow> ((UNEXPLAINED_MISMATCH, if matching = [] then None else Some (AlreadyReflected (map tx_id matching)), []), consumed)
      | [tx] \<Rightarrow>
          let possible = (\<lambda>e. ((POSSIBLE_CAUSE, Some e, [tx_id tx]), consumed)) in
          if tx_id tx \<in> consumed then possible (ConsumedElsewhere (tx_id tx))
          else if tx_id tx \<in> duplicates then possible (DuplicatedId (tx_id tx))
          else if tx_date tx > as_of then possible (AfterAsOf (tx_id tx) (tx_date tx) as_of)
          else if tx_settled tx = None then possible (SettlementUnknown (tx_id tx))
          else if tx_settled tx = Some False then possible (Unsettled (tx_id tx))
          else if tx_reflected tx = None then possible (PostingUnknown (tx_id tx))
          else if blank (tx_provenance tx) then possible (NoProvenance (tx_id tx))
          else if upper (tx_type tx) \<notin> valid_types then possible (InvalidRecordType (tx_id tx) (tx_type tx))
          else ((SUPPORTED_EXPLANATION,
                 Some (Documented (tx_type tx) (tx_id tx) (tx_provenance tx) (tx_description tx)), [tx_id tx]),
                insert (tx_id tx) consumed)
      | _ \<Rightarrow> ((POSSIBLE_CAUSE, Some (MultipleCandidates (map tx_id unreflected)), map tx_id unreflected), consumed))"

definition diagnose_cash_break ::
    "string \<Rightarrow> dec \<Rightarrow> stmt_tx list \<Rightarrow> int \<Rightarrow> string set \<Rightarrow> string set \<Rightarrow> diagnosis \<times> string set" where
  "diagnose_cash_break currency delta txs =
     diagnose (filter (\<lambda>tx. tx_currency tx = currency \<and> tx_amount tx = delta) txs) valid_cash_record_types"

definition diagnose_position_break ::
    "string \<Rightarrow> dec \<Rightarrow> stmt_tx list \<Rightarrow> int \<Rightarrow> string set \<Rightarrow> string set \<Rightarrow> diagnosis \<times> string set" where
  "diagnose_position_break symbol delta txs =
     diagnose (filter (\<lambda>tx. tx_symbol tx = Some symbol \<and> tx_quantity tx = Some delta) txs) valid_position_record_types"

fun duplicated_ids :: "string set \<Rightarrow> stmt_tx list \<Rightarrow> string set" where
  "duplicated_ids seen [] = {}"
| "duplicated_ids seen (tx # txs) =
     (if tx_id tx \<in> seen then {tx_id tx} else {}) \<union> duplicated_ids (insert (tx_id tx) seen) txs"

subsection \<open>Breaks\<close>

definition total_of :: "(string, dec) dict \<Rightarrow> string \<Rightarrow> dec" where
  "total_of d k = (case dict_get d k of None \<Rightarrow> 0 | Some t \<Rightarrow> t)"

text \<open>One loop over the sorted keys of both sides; the consumed transactions are carried along.\<close>

fun scan_breaks ::
    "break_scope \<Rightarrow> (string \<Rightarrow> dec \<Rightarrow> string set \<Rightarrow> diagnosis \<times> string set) \<Rightarrow> (string, dec) dict \<Rightarrow> (string, dec) dict
     \<Rightarrow> string list \<Rightarrow> string set \<Rightarrow> recon_break list \<times> string set" where
  "scan_breaks scope dg left right [] consumed = ([], consumed)"
| "scan_breaks scope dg left right (k # ks) consumed =
     (let l = total_of left k; r = total_of right k in
      if l = r then scan_breaks scope dg left right ks consumed
      else let delta = dsub l r; ((status, explanation, refs), consumed') = dg k delta consumed;
               (breaks, consumed'') = scan_breaks scope dg left right ks consumed'
           in (\<lparr>bk_scope = scope, bk_key = k, bk_statement = l, bk_ledger = r, bk_difference = delta,
                bk_status = status, bk_explanation = explanation, bk_refs = refs\<rparr> # breaks, consumed''))"

definition sorted_keys :: "(string, dec) dict \<Rightarrow> (string, dec) dict \<Rightarrow> string list" where
  "sorted_keys a b = sort (remdups (map fst a @ map fst b))"

definition find_breaks :: "account_snapshot \<Rightarrow> portfolio_ledger \<Rightarrow> stmt_tx list \<Rightarrow> recon_break list" where
  "find_breaks snapshot ledger txs =
     (let dups = duplicated_ids {} txs; as_of = as_as_of snapshot;
          sc = cash_by_currency (as_cash snapshot); lc = cash_by_currency (nl_cash ledger);
          sq = quantity_by_symbol (as_positions snapshot); lq = quantity_by_symbol (nl_positions ledger);
          (cash_breaks, consumed) = scan_breaks CASH_SCOPE (\<lambda>k d. diagnose_cash_break k d txs as_of dups)
            sc lc (sorted_keys sc lc) {};
          (position_breaks, _) = scan_breaks POSITION_SCOPE (\<lambda>k d. diagnose_position_break k d txs as_of dups)
            sq lq (sorted_keys sq lq) consumed
      in cash_breaks @ position_breaks)"

subsection \<open>Independence\<close>

text \<open>The checks of the attestation that come after the one of the bytes; the first that fails is noted.\<close>

definition lineage_conflict ::
    "account_snapshot \<Rightarrow> portfolio_ledger \<Rightarrow> ledger_attestation \<Rightarrow> string \<Rightarrow> string option \<Rightarrow> lineage_note option" where
  "lineage_conflict snapshot ledger a source raw_sha =
     (if ia_source_id a \<noteq> source then Some (SourceIdMismatch (ia_source_id a) source)
      else if raw_sha \<noteq> None \<and> raw_sha \<noteq> Some [] \<and> Some (ia_artifact a) = raw_sha then Some SelfMasquerade
      else if upper (ia_origin a) \<in> {''SELF'', ''STATEMENT_DERIVATION'', ''STATEMENT_SYNTHETIC_DERIVATION''}
      then Some (DerivedOrigin (ia_origin a))
      else if as_as_of snapshot \<noteq> ia_as_of a then Some (AttestationAsOf (as_as_of snapshot) (ia_as_of a))
      else if nl_as_of ledger \<noteq> None \<and> nl_as_of ledger \<noteq> Some (as_as_of snapshot)
      then Some (LedgerAsOf (as_as_of snapshot) (the (nl_as_of ledger)))
      else if as_account snapshot \<noteq> [] \<and> ia_account a \<noteq> [] \<and> as_account snapshot \<noteq> ia_account a
      then Some (SnapshotAccount (as_account snapshot) (ia_account a))
      else if nl_account ledger \<noteq> [] \<and> ia_account a \<noteq> [] \<and> nl_account ledger \<noteq> ia_account a
      then Some (LedgerAccount (nl_account ledger) (ia_account a))
      else if ia_head a \<noteq> nl_head ledger then Some (HeadMismatch (take 16 (ia_head a)) (take 16 (nl_head ledger)))
      else if ia_entries a \<noteq> nl_count ledger then Some (CountMismatch (ia_entries a) (nl_count ledger))
      else None)"

text \<open>Status, independence, notes and the two evidence verdicts.\<close>

type_synonym verdict =
  "recon_status \<times> bool \<times> lineage_note list \<times> evidence_integrity \<times> source_independence"

definition judge_attestation ::
    "(string \<Rightarrow> string) \<Rightarrow> account_snapshot \<Rightarrow> portfolio_ledger \<Rightarrow> bool \<Rightarrow> ledger_attestation \<Rightarrow> string
     \<Rightarrow> string option \<Rightarrow> string option \<Rightarrow> verdict" where
  "judge_attestation shab snapshot ledger matched a source raw_sha artifact =
     (let (bytes_conflict, integrity, notes) =
        (case artifact of
           None \<Rightarrow> (False, METADATA_ATTESTED, [])
         | Some b \<Rightarrow> if shab b \<noteq> ia_artifact a
             then (True, INTEGRITY_COMPROMISED, [BytesMismatch (take 16 (ia_artifact a)) (take 16 (shab b))])
             else (False, BYTES_VERIFIED, [BytesVerified (take 16 (shab b))]));
        lineage = lineage_conflict snapshot ledger a source raw_sha;
        notes' = notes @ (case lineage of None \<Rightarrow> [] | Some n \<Rightarrow> [n])
      in if bytes_conflict \<or> lineage \<noteq> None
         then (RC_LINEAGE_CONFLICT, False, notes', integrity, SI_LINEAGE_CONFLICT)
         else if matched
         then (INDEPENDENT_RECONCILIATION_MATCHED, True, notes' @ [VerifiedIndependent (ia_origin a) (ia_lineage a)],
               integrity, INDEPENDENT_VERIFIED)
         else (INDEPENDENT_RECONCILIATION_BREAKS, True, notes' @ [VerifiedWithBreaks (ia_origin a) (ia_lineage a)],
               integrity, INDEPENDENT_VERIFIED))"

text \<open>\<open>x or y\<close> on optional texts, and the stripped text.\<close>

definition or_else :: "string option \<Rightarrow> string \<Rightarrow> string" where
  "or_else v d = (case v of None \<Rightarrow> d | Some s \<Rightarrow> if s = [] then d else s)"

definition judge ::
    "(string \<Rightarrow> string) \<Rightarrow> account_snapshot \<Rightarrow> portfolio_ledger \<Rightarrow> bool \<Rightarrow> bool \<Rightarrow> string option \<Rightarrow> string option
     \<Rightarrow> string option \<Rightarrow> ledger_attestation option \<Rightarrow> string option \<Rightarrow> verdict" where
  "judge shab snapshot ledger matched claimed stmt_source raw_sha led_source attestation artifact =
     (if \<not> claimed then
        (if matched then (SELF_CONSISTENCY_VERIFIED, False, [SelfDerived], UNATTESTED, SELF_ORIGIN)
         else (SELF_CONSISTENCY_BREAKS, False, [SelfBreaks], UNATTESTED, SELF_ORIGIN))
      else
        let s = strip (or_else stmt_source []);
            l = strip (or_else led_source (case attestation of None \<Rightarrow> [] | Some a \<Rightarrow> ia_source_id a)) in
        if s = [] \<or> l = []
        then (RC_INDEPENDENCE_UNVERIFIED, False, [MissingSource], UNATTESTED, SI_INDEPENDENCE_UNVERIFIED)
        else if s = l
        then (RC_INDEPENDENCE_UNVERIFIED, False, [SameSource], UNATTESTED, SI_INDEPENDENCE_UNVERIFIED)
        else case attestation of
          None \<Rightarrow> (if matched then NUMERICALLY_MATCHED_INDEPENDENCE_UNVERIFIED else BREAKS_INDEPENDENCE_UNVERIFIED,
                   False, [NoAttestation], UNATTESTED, SI_INDEPENDENCE_UNVERIFIED)
        | Some a \<Rightarrow> judge_attestation shab snapshot ledger matched a l raw_sha artifact)"

definition reconcile_snapshot_ledger ::
    "(string \<Rightarrow> string) \<Rightarrow> account_snapshot \<Rightarrow> portfolio_ledger \<Rightarrow> stmt_tx list \<Rightarrow> string option \<Rightarrow> string option
     \<Rightarrow> string option \<Rightarrow> bool \<Rightarrow> ledger_attestation option \<Rightarrow> string option \<Rightarrow> recon_result" where
  "reconcile_snapshot_ledger shab snapshot ledger txs stmt_source raw_sha led_source claimed attestation artifact =
     (let breaks = find_breaks snapshot ledger txs; matched = (breaks = []);
          (status, indep, notes, integrity, source) =
            judge shab snapshot ledger matched claimed stmt_source raw_sha led_source attestation artifact
      in \<lparr>rr_matched = matched, rr_breaks = breaks,
          rr_statement_cash = cash_by_currency (as_cash snapshot),
          rr_ledger_cash = cash_by_currency (nl_cash ledger),
          rr_status = status, rr_independent = indep, rr_statement_source = stmt_source,
          rr_ledger_source = led_source, rr_attestation = attestation, rr_notes = notes,
          rr_integrity = integrity, rr_independence = source\<rparr>)"


subsection \<open>Breaks are exact\<close>

definition cash_total :: "cash_lot list \<Rightarrow> string \<Rightarrow> dec" where
  "cash_total lots c = dsum (map (\<lambda>l. dec_value (cl_amount l)) (filter (\<lambda>l. cl_currency l = c) lots))"

definition quantity_total :: "position_lot list \<Rightarrow> string \<Rightarrow> dec" where
  "quantity_total lots y = dsum (map (\<lambda>l. dec_value (pl_quantity l)) (filter (\<lambda>l. pl_symbol l = y) lots))"

lemma total_of_tally: "total_of (tally key amount xs) k = dsum (map amount (filter (\<lambda>x. key x = k) xs))"
proof (cases "k \<in> key ` set xs")
  case False
  then have "filter (\<lambda>x. key x = k) xs = []" by (intro filter_False ballI notI) (metis image_eqI)
  then show ?thesis using False by (simp add: total_of_def dict_get_tally)
qed (simp add: total_of_def dict_get_tally)

lemma totals:
  "total_of (cash_by_currency cs) c = cash_total cs c" "total_of (quantity_by_symbol ps) y = quantity_total ps y"
  by (simp_all add: cash_by_currency_def quantity_by_symbol_def cash_total_def quantity_total_def total_of_tally)

lemma sorted_keys_set [simp]: "set (sorted_keys a b) = fst ` set a \<union> fst ` set b"
  by (simp add: sorted_keys_def)

lemma differing_key: "total_of a k \<noteq> total_of b k \<Longrightarrow> k \<in> set (sorted_keys a b)"
  using fst_dict [of a k] fst_dict [of b k] by (auto simp: total_of_def)

lemma scan_breaks_values:
  "map (\<lambda>b. (bk_scope b, bk_key b, bk_statement b, bk_ledger b, bk_difference b)) (fst (scan_breaks scope dg a b ks cons))
    = map (\<lambda>k. (scope, k, total_of a k, total_of b k, dsub (total_of a k) (total_of b k)))
        (filter (\<lambda>k. total_of a k \<noteq> total_of b k) ks)"
  by (induction ks arbitrary: cons) (simp_all add: Let_def case_prod_beta)

definition cash_keys :: "account_snapshot \<Rightarrow> portfolio_ledger \<Rightarrow> string list" where
  "cash_keys s l = sorted_list_of_set (cl_currency ` set (as_cash s) \<union> cl_currency ` set (nl_cash l))"

definition symbol_keys :: "account_snapshot \<Rightarrow> portfolio_ledger \<Rightarrow> string list" where
  "symbol_keys s l = sorted_list_of_set (pl_symbol ` set (as_positions s) \<union> pl_symbol ` set (nl_positions l))"

lemma sorted_keys_eq: "sorted_keys a b = sorted_list_of_set (fst ` set a \<union> fst ` set b)"
  using sorted_list_of_set_sort_remdups [of "map fst a @ map fst b"] by (simp add: sorted_keys_def)

lemma key_lists:
  "sorted_keys (cash_by_currency (as_cash s)) (cash_by_currency (nl_cash l)) = cash_keys s l"
  "sorted_keys (quantity_by_symbol (as_positions s)) (quantity_by_symbol (nl_positions l)) = symbol_keys s l"
  by (simp_all add: sorted_keys_eq cash_by_currency_def quantity_by_symbol_def keys_tally cash_keys_def symbol_keys_def)

lemma find_breaks_values:
  "map (\<lambda>b. (bk_scope b, bk_key b, bk_statement b, bk_ledger b, bk_difference b)) (find_breaks s l txs)
    = map (\<lambda>c. (CASH_SCOPE, c, cash_total (as_cash s) c, cash_total (nl_cash l) c,
          dsub (cash_total (as_cash s) c) (cash_total (nl_cash l) c)))
        (filter (\<lambda>c. cash_total (as_cash s) c \<noteq> cash_total (nl_cash l) c) (cash_keys s l))
      @ map (\<lambda>y. (POSITION_SCOPE, y, quantity_total (as_positions s) y, quantity_total (nl_positions l) y,
          dsub (quantity_total (as_positions s) y) (quantity_total (nl_positions l) y)))
        (filter (\<lambda>y. quantity_total (as_positions s) y \<noteq> quantity_total (nl_positions l) y) (symbol_keys s l))"
  using scan_breaks_values [of CASH_SCOPE] scan_breaks_values [of POSITION_SCOPE]
  by (simp add: find_breaks_def Let_def case_prod_beta key_lists totals)

lemma reconcile_breaks:
  "rr_breaks (reconcile_snapshot_ledger shab s l txs ss raw ls claimed att art) = find_breaks s l txs"
  "rr_matched (reconcile_snapshot_ledger shab s l txs ss raw ls claimed att art) \<longleftrightarrow> find_breaks s l txs = []"
  by (simp_all add: reconcile_snapshot_ledger_def Let_def case_prod_beta)

lemma unequal_totals_listed:
  "cash_total (as_cash s) c \<noteq> cash_total (nl_cash l) c \<Longrightarrow> c \<in> set (cash_keys s l)"
  "quantity_total (as_positions s) y \<noteq> quantity_total (nl_positions l) y \<Longrightarrow> y \<in> set (symbol_keys s l)"
  using differing_key by (metis totals key_lists)+

text \<open>A reconciliation reports exactly the differences.  Whatever transactions and attestation are given, it is matched precisely when the totals of every currency and of every symbol agree, and otherwise lists, currencies first and each in sorted order, every key with different totals once, with both totals and their difference.\<close>

theorem reconciliation_reports_differences:
  "let r = reconcile_snapshot_ledger shab s l txs ss raw ls claimed att art in
   (rr_matched r = ((\<forall>c. cash_total (as_cash s) c = cash_total (nl_cash l) c)
      \<and> (\<forall>y. quantity_total (as_positions s) y = quantity_total (nl_positions l) y)))
   \<and> map (\<lambda>b. (bk_scope b, bk_key b, bk_statement b, bk_ledger b, bk_difference b)) (rr_breaks r)
     = map (\<lambda>c. (CASH_SCOPE, c, cash_total (as_cash s) c, cash_total (nl_cash l) c,
           dsub (cash_total (as_cash s) c) (cash_total (nl_cash l) c)))
         (filter (\<lambda>c. cash_total (as_cash s) c \<noteq> cash_total (nl_cash l) c) (cash_keys s l))
       @ map (\<lambda>y. (POSITION_SCOPE, y, quantity_total (as_positions s) y, quantity_total (nl_positions l) y,
           dsub (quantity_total (as_positions s) y) (quantity_total (nl_positions l) y)))
         (filter (\<lambda>y. quantity_total (as_positions s) y \<noteq> quantity_total (nl_positions l) y) (symbol_keys s l))"
proof -
  have "find_breaks s l txs = [] \<longleftrightarrow> map (\<lambda>b. (bk_scope b, bk_key b, bk_statement b, bk_ledger b, bk_difference b)) (find_breaks s l txs) = []"
    by simp
  also have "\<dots> \<longleftrightarrow> (\<forall>c. cash_total (as_cash s) c = cash_total (nl_cash l) c)
      \<and> (\<forall>y. quantity_total (as_positions s) y = quantity_total (nl_positions l) y)"
  proof -
    have "(\<forall>c. cash_total (as_cash s) c = cash_total (nl_cash l) c)
        \<longleftrightarrow> (\<forall>c \<in> set (cash_keys s l). cash_total (as_cash s) c = cash_total (nl_cash l) c)"
      using unequal_totals_listed(1) by blast
    moreover have "(\<forall>y. quantity_total (as_positions s) y = quantity_total (nl_positions l) y)
        \<longleftrightarrow> (\<forall>y \<in> set (symbol_keys s l). quantity_total (as_positions s) y = quantity_total (nl_positions l) y)"
      using unequal_totals_listed(2) by blast
    ultimately show ?thesis unfolding find_breaks_values by (simp add: filter_empty_conv)
  qed
  finally show ?thesis unfolding Let_def reconcile_breaks by (simp add: find_breaks_values)
qed


subsection \<open>Explanations rest on evidence\<close>

definition supported :: "recon_break \<Rightarrow> bool" where
  "supported b \<longleftrightarrow> bk_status b = SUPPORTED_EXPLANATION"

definition supported_refs :: "recon_break list \<Rightarrow> string list" where
  "supported_refs bs = concat (map bk_refs (filter supported bs))"

text \<open>A transaction that explains a difference: settled, not yet in the ledger, not later than the statement, with provenance.\<close>

definition sound_evidence :: "stmt_tx \<Rightarrow> int \<Rightarrow> bool" where
  "sound_evidence tx as_of \<longleftrightarrow> tx_date tx \<le> as_of \<and> tx_settled tx = Some True \<and> tx_reflected tx = Some False
     \<and> \<not> blank (tx_provenance tx)"

definition explains :: "recon_break \<Rightarrow> stmt_tx \<Rightarrow> bool" where
  "explains b tx \<longleftrightarrow> (case bk_scope b of
     CASH_SCOPE \<Rightarrow> tx_currency tx = bk_key b \<and> tx_amount tx = bk_difference b
       \<and> upper (tx_type tx) \<in> valid_cash_record_types
   | POSITION_SCOPE \<Rightarrow> tx_symbol tx = Some (bk_key b) \<and> tx_quantity tx = Some (bk_difference b)
       \<and> upper (tx_type tx) \<in> valid_position_record_types)"

lemma diagnose_cases:
  assumes "diagnose m vt as_of dups cons = ((st, ex, refs), cons')"
  shows "st \<noteq> SUPPORTED_EXPLANATION \<and> cons' = cons
    \<or> (\<exists>tx \<in> set m. st = SUPPORTED_EXPLANATION \<and> refs = [tx_id tx] \<and> cons' = insert (tx_id tx) cons
        \<and> tx_id tx \<notin> cons \<and> tx_id tx \<notin> dups \<and> sound_evidence tx as_of \<and> upper (tx_type tx) \<in> vt)"
proof -
  let ?u = "filter (\<lambda>tx. tx_reflected tx \<noteq> Some True) m"
  consider "?u = []" | tx where "?u = [tx]" | tx ty us where "?u = tx # ty # us"
    by (cases ?u; cases "tl ?u") auto
  then show ?thesis
  proof cases
    case (2 tx)
    have "tx \<in> set ?u" unfolding 2 by simp
    then have tx: "tx \<in> set m" "tx_reflected tx \<noteq> Some True" by simp_all
    let ?ok = "tx_id tx \<notin> cons \<and> tx_id tx \<notin> dups \<and> sound_evidence tx as_of \<and> upper (tx_type tx) \<in> vt"
    have refl: "tx_reflected tx = Some False" if "tx_reflected tx \<noteq> None" using tx(2) that by auto
    have settled: "tx_settled tx = Some True" if "tx_settled tx \<noteq> None" "tx_settled tx \<noteq> Some False" using that by auto
    have "(if ?ok then st = SUPPORTED_EXPLANATION \<and> refs = [tx_id tx] \<and> cons' = insert (tx_id tx) cons
           else st = POSSIBLE_CAUSE \<and> cons' = cons)"
      using assms [unfolded diagnose_def 2 Let_def list.case] refl settled
      by (simp add: sound_evidence_def split: if_split_asm)
    with tx(1) show ?thesis by (cases ?ok) auto
  qed (use assms in \<open>auto simp: diagnose_def\<close>)
qed

lemma duplicated_ids_unique:
  "tx_id tx \<notin> duplicated_ids seen txs \<Longrightarrow> tx \<in> set txs \<Longrightarrow> tx_id tx \<notin> seen \<and> (\<forall>ty \<in> set txs. tx_id ty = tx_id tx \<longrightarrow> ty = tx)"
proof (induction seen txs rule: duplicated_ids.induct)
  case (2 seen ty txs)
  have late: "tx_id tz \<in> duplicated_ids seen txs" if "tz \<in> set txs" "tx_id tz \<in> seen" for tz and seen :: "string set"
    using that by (induction txs arbitrary: seen) auto
  show ?case
  proof (cases "tx \<in> set txs")
    case True
    with 2 have "tx_id tx \<notin> insert (tx_id ty) seen \<and> (\<forall>tz \<in> set txs. tx_id tz = tx_id tx \<longrightarrow> tz = tx)" by simp
    then show ?thesis by auto
  next
    case False
    then have "tx = ty" using 2 by simp
    moreover have "tx_id tz \<noteq> tx_id ty" if "tz \<in> set txs" for tz
      using late [OF that, of "insert (tx_id ty) seen"] 2 \<open>tx = ty\<close> by auto
    ultimately show ?thesis using 2 by (auto split: if_splits)
  qed
qed simp

text \<open>What a scan of one side's keys guarantees, for any diagnosis that consumes what it refers to.\<close>

lemma scan_breaks_supported:
  assumes "\<And>k d c st ex refs c'. dg k d c = ((st, ex, refs), c') \<Longrightarrow>
      st \<noteq> SUPPORTED_EXPLANATION \<and> c' = c
      \<or> (\<exists>i. st = SUPPORTED_EXPLANATION \<and> refs = [i] \<and> i \<notin> c \<and> c' = insert i c \<and> ev k d i)"
    and "scan_breaks scope dg a b ks cons = (bs, cons')"
  shows "cons' = cons \<union> set (supported_refs bs) \<and> set (supported_refs bs) \<inter> cons = {} \<and> distinct (supported_refs bs)
    \<and> (\<forall>x \<in> set bs. bk_scope x = scope \<and> (supported x \<longrightarrow> (\<exists>i. bk_refs x = [i] \<and> ev (bk_key x) (bk_difference x) i)))"
  using assms(2)
proof (induction ks arbitrary: cons bs)
  case Nil
  then show ?case by (simp add: supported_refs_def)
next
  case (Cons k ks)
  show ?case
  proof (cases "total_of a k = total_of b k")
    case False
    let ?d = "dsub (total_of a k) (total_of b k)"
    obtain st ex refs c1 where dg: "dg k ?d cons = ((st, ex, refs), c1)" by (metis prod_cases3 surj_pair)
    obtain bs' where rest: "scan_breaks scope dg a b ks c1 = (bs', cons')"
      and bs: "bs = \<lparr>bk_scope = scope, bk_key = k, bk_statement = total_of a k, bk_ledger = total_of b k,
        bk_difference = ?d, bk_status = st, bk_explanation = ex, bk_refs = refs\<rparr> # bs'"
      using Cons.prems False dg by (auto simp: Let_def split: prod.splits)
    show ?thesis using Cons.IH [OF rest] assms(1) [OF dg] unfolding bs
      by (auto simp: supported_refs_def supported_def)
  qed (use Cons in simp)
qed


definition cash_evidence :: "stmt_tx list \<Rightarrow> int \<Rightarrow> string \<Rightarrow> dec \<Rightarrow> string \<Rightarrow> bool" where
  "cash_evidence txs as_of k d i \<longleftrightarrow> (\<exists>tx \<in> set txs. tx_id tx = i \<and> tx_currency tx = k \<and> tx_amount tx = d
     \<and> upper (tx_type tx) \<in> valid_cash_record_types \<and> sound_evidence tx as_of \<and> i \<notin> duplicated_ids {} txs)"

definition position_evidence :: "stmt_tx list \<Rightarrow> int \<Rightarrow> string \<Rightarrow> dec \<Rightarrow> string \<Rightarrow> bool" where
  "position_evidence txs as_of k d i \<longleftrightarrow> (\<exists>tx \<in> set txs. tx_id tx = i \<and> tx_symbol tx = Some k \<and> tx_quantity tx = Some d
     \<and> upper (tx_type tx) \<in> valid_position_record_types \<and> sound_evidence tx as_of \<and> i \<notin> duplicated_ids {} txs)"

lemma cash_diagnosis:
  assumes "diagnose_cash_break k d txs as_of (duplicated_ids {} txs) c = ((st, ex, refs), c')"
  shows "st \<noteq> SUPPORTED_EXPLANATION \<and> c' = c
    \<or> (\<exists>i. st = SUPPORTED_EXPLANATION \<and> refs = [i] \<and> i \<notin> c \<and> c' = insert i c \<and> cash_evidence txs as_of k d i)"
  using diagnose_cases [OF assms [unfolded diagnose_cash_break_def]] by (auto simp: cash_evidence_def)

lemma position_diagnosis:
  assumes "diagnose_position_break k d txs as_of (duplicated_ids {} txs) c = ((st, ex, refs), c')"
  shows "st \<noteq> SUPPORTED_EXPLANATION \<and> c' = c
    \<or> (\<exists>i. st = SUPPORTED_EXPLANATION \<and> refs = [i] \<and> i \<notin> c \<and> c' = insert i c \<and> position_evidence txs as_of k d i)"
  using diagnose_cases [OF assms [unfolded diagnose_position_break_def]] by (auto simp: position_evidence_def)

text \<open>C36: A supported explanation rests on evidence that is used once.  Every break reported as explained refers to one transaction among those given, the only one with its id, that matches the key and the exact difference, is of a kind that can cause it, settled, not yet in the ledger, not later than the statement and documented; and no transaction explains two breaks of one reconciliation, be they of cash or of positions.\<close>

theorem supported_breaks_rest_on_evidence:
  "let bs = rr_breaks (reconcile_snapshot_ledger shab s l txs ss raw ls claimed att art) in
   distinct (supported_refs bs)
   \<and> (\<forall>b \<in> set bs. supported b \<longrightarrow> (\<exists>tx \<in> set txs. bk_refs b = [tx_id tx] \<and> explains b tx
        \<and> sound_evidence tx (as_as_of s) \<and> (\<forall>ty \<in> set txs. tx_id ty = tx_id tx \<longrightarrow> ty = tx)))"
proof -
  let ?dg1 = "\<lambda>k d. diagnose_cash_break k d txs (as_as_of s) (duplicated_ids {} txs)"
  let ?dg2 = "\<lambda>k d. diagnose_position_break k d txs (as_as_of s) (duplicated_ids {} txs)"
  let ?sc = "cash_by_currency (as_cash s)" and ?lc = "cash_by_currency (nl_cash l)"
  let ?sq = "quantity_by_symbol (as_positions s)" and ?lq = "quantity_by_symbol (nl_positions l)"
  obtain cb c1 where cash: "scan_breaks CASH_SCOPE ?dg1 ?sc ?lc (sorted_keys ?sc ?lc) {} = (cb, c1)" by fastforce
  obtain pb c2 where pos: "scan_breaks POSITION_SCOPE ?dg2 ?sq ?lq (sorted_keys ?sq ?lq) c1 = (pb, c2)" by fastforce
  have bs: "find_breaks s l txs = cb @ pb" using cash pos by (simp add: find_breaks_def Let_def)
  have c: "c1 = set (supported_refs cb) \<and> distinct (supported_refs cb) \<and> (\<forall>x \<in> set cb. bk_scope x = CASH_SCOPE
      \<and> (supported x \<longrightarrow> (\<exists>i. bk_refs x = [i] \<and> cash_evidence txs (as_as_of s) (bk_key x) (bk_difference x) i)))"
    using scan_breaks_supported [where ev = "cash_evidence txs (as_as_of s)", OF _ cash] cash_diagnosis by auto
  have p: "set (supported_refs pb) \<inter> c1 = {} \<and> distinct (supported_refs pb) \<and> (\<forall>x \<in> set pb. bk_scope x = POSITION_SCOPE
      \<and> (supported x \<longrightarrow> (\<exists>i. bk_refs x = [i] \<and> position_evidence txs (as_as_of s) (bk_key x) (bk_difference x) i)))"
    using scan_breaks_supported [where ev = "position_evidence txs (as_as_of s)", OF _ pos] position_diagnosis by auto
  have "supported_refs (cb @ pb) = supported_refs cb @ supported_refs pb" by (simp add: supported_refs_def)
  then have "distinct (supported_refs (cb @ pb))" using c p by auto
  moreover have "\<exists>tx \<in> set txs. bk_refs b = [tx_id tx] \<and> explains b tx \<and> sound_evidence tx (as_as_of s)
      \<and> (\<forall>ty \<in> set txs. tx_id ty = tx_id tx \<longrightarrow> ty = tx)" if mem: "b \<in> set (cb @ pb)" and sup: "supported b" for b
  proof -
    have "b \<in> set cb \<or> b \<in> set pb" using mem by simp
    then show ?thesis
    proof
      assume "b \<in> set cb"
      then obtain i where "bk_scope b = CASH_SCOPE" "bk_refs b = [i]"
          "cash_evidence txs (as_as_of s) (bk_key b) (bk_difference b) i" using c sup by blast
      then show ?thesis using duplicated_ids_unique by (force simp: cash_evidence_def explains_def)
    next
      assume "b \<in> set pb"
      then obtain i where "bk_scope b = POSITION_SCOPE" "bk_refs b = [i]"
          "position_evidence txs (as_as_of s) (bk_key b) (bk_difference b) i" using p sup by blast
      then show ?thesis using duplicated_ids_unique by (force simp: position_evidence_def explains_def)
    qed
  qed
  ultimately show ?thesis unfolding Let_def reconcile_breaks bs by blast
qed

subsection \<open>Independence identifies the ledger\<close>

lemma independent_judged:
  assumes "rr_independent (reconcile_snapshot_ledger shab s l txs ss raw ls claimed att art)"
  obtains a where "claimed" "att = Some a" "\<forall>b. art = Some b \<longrightarrow> shab b = ia_artifact a"
    "strip (or_else ss []) \<noteq> ia_source_id a"
    "lineage_conflict s l a (ia_source_id a) raw = None"
proof -
  obtain st nt i so where judged: "judge shab s l (find_breaks s l txs = []) claimed ss raw ls att art = (st, True, nt, i, so)"
    using assms by (auto simp: reconcile_snapshot_ledger_def Let_def split: prod.splits)
  then have claimed "att \<noteq> None" by (auto simp: judge_def Let_def split: if_splits option.splits)
  then obtain a where a: "att = Some a" by blast
  let ?l = "strip (or_else ls (ia_source_id a))"
  from judged \<open>claimed\<close> a have ne: "strip (or_else ss []) \<noteq> ?l"
    and ja: "judge_attestation shab s l (find_breaks s l txs = []) a ?l raw art = (st, True, nt, i, so)"
    by (auto simp: judge_def Let_def split: if_splits)
  from ja have none: "lineage_conflict s l a ?l raw = None" and bytes: "\<forall>b. art = Some b \<longrightarrow> shab b = ia_artifact a"
    by (auto simp: judge_attestation_def Let_def split: if_splits option.splits)
  from none have "ia_source_id a = ?l" by (simp add: lineage_conflict_def split: if_splits)
  with ne none bytes \<open>claimed\<close> a show thesis using that by metis
qed

text \<open>
  The verdict compares the head digest and the entry count that the ledger object carries; the chain over its
  lots is not recomputed.  So the lots themselves do not matter to it: exchanging them behind the head leaves
  an independent verdict independent, and a ledger that was not built by posting can be reported as matched.
\<close>

definition independence :: "verdict \<Rightarrow> bool" where
  "independence v = fst (snd v)"

lemma lineage_ignores_lots:
  "lineage_conflict s (l\<lparr>nl_cash := cs, nl_positions := ps\<rparr>) a src raw = lineage_conflict s l a src raw"
  by (simp add: lineage_conflict_def)

lemma attestation_independence:
  "independence (judge_attestation shab s l m a src raw art)
   \<longleftrightarrow> (\<forall>b. art = Some b \<longrightarrow> shab b = ia_artifact a) \<and> lineage_conflict s l a src raw = None"
  by (cases art) (simp_all add: judge_attestation_def independence_def Let_def)

lemma judge_independence_ignores_lots:
  "independence (judge shab s (l\<lparr>nl_cash := cs, nl_positions := ps\<rparr>) m claimed ss raw ls att art)
   = independence (judge shab s l m' claimed ss raw ls att art)"
proof -
  let ?l = "l\<lparr>nl_cash := cs, nl_positions := ps\<rparr>"
  have "independence (judge_attestation shab s ?l m a src raw art)
      = independence (judge_attestation shab s l m' a src raw art)" for a src
    by (simp only: attestation_independence lineage_ignores_lots)
  then show ?thesis
    by (cases att) (simp_all add: judge_def Let_def independence_def)
qed

lemma reconciled_independence:
  "rr_independent (reconcile_snapshot_ledger shab s l txs ss raw ls claimed att art)
   = independence (judge shab s l (find_breaks s l txs = []) claimed ss raw ls att art)"
  by (simp add: reconcile_snapshot_ledger_def independence_def Let_def split_beta)

theorem lots_behind_the_head_unchecked:
  "rr_independent (reconcile_snapshot_ledger shab s (l\<lparr>nl_cash := cs, nl_positions := ps\<rparr>) txs ss raw ls claimed att art)
   = rr_independent (reconcile_snapshot_ledger shab s l txs ss raw ls claimed att art)"
  unfolding reconciled_independence by (rule judge_independence_ignores_lots)

text \<open>C37: An independent verdict identifies a ledger that was built by posting.  Let the reconciled ledger and the one the attestation was issued for both result from posting lots to an empty ledger, and let the attestation record the head and entry count of the latter.  If the reconciliation is then judged independent, the reconciled ledger consists of exactly the lots of the attested one, in the same order, the attestation is of the date of the statement, its artifact is not the statement itself and its bytes, when they are supplied, are those attested, and the two sources differ (provided SHA-256 does not collide on the entries and the dates are calendar dates).  That the reconciled ledger was built by posting is a condition on the caller: the code does not check it, and \<open>lots_behind_the_head_unchecked\<close> shows that without it the lots are not identified.\<close>

theorem independent_verdict_identifies_ledger:
  assumes "rr_independent (reconcile_snapshot_ledger shab s l txs ss raw ls claimed (Some a) art)"
    and "run_strict (post_lot sha) (empty_ledger acc t) xs = Inr l"
    and "run_strict (post_lot sha) (empty_ledger acc' t') ys = Inr l0" "ia_head a = nl_head l0" "ia_entries a = nl_count l0"
    and "\<forall>x \<in> set xs \<union> set ys. lot_ok x"
    and "\<forall>e \<in> set (entries_from sha zero_digest xs). \<forall>e' \<in> set (entries_from sha zero_digest ys).
      separates sha (entry_text e) (entry_text e')"
  shows "xs = ys \<and> ia_as_of a = as_as_of s \<and> (\<forall>x. raw = Some x \<and> x \<noteq> [] \<longrightarrow> ia_artifact a \<noteq> x)
    \<and> (\<forall>b. art = Some b \<longrightarrow> shab b = ia_artifact a) \<and> strip (or_else ss []) \<noteq> ia_source_id a"
proof -
  obtain a' where "Some a = Some a'" and bytes: "\<forall>b. art = Some b \<longrightarrow> shab b = ia_artifact a'"
    and ne: "strip (or_else ss []) \<noteq> ia_source_id a'" and none: "lineage_conflict s l a' (ia_source_id a') raw = None"
    by (rule independent_judged [OF assms(1)])
  then have none: "lineage_conflict s l a (ia_source_id a) raw = None" by simp
  then have c: "ia_as_of a = as_as_of s" "\<forall>x. raw = Some x \<and> x \<noteq> [] \<longrightarrow> ia_artifact a \<noteq> x"
    "ia_head a = nl_head l" "ia_entries a = nl_count l"
    unfolding lineage_conflict_def by (auto split: if_splits)
  have "xs = ys"
    by (rule ledger_head_determines_lots [OF assms(2,3) _ _ assms(6,7)]) (use c(3,4) assms(4,5) in simp_all)
  with c(1,2) bytes ne \<open>Some a = Some a'\<close> show ?thesis by simp
qed


text \<open>Totals are rounded to 28 digits, so a reconciliation that is to be exact can miss a difference.\<close>

lemma rounded_totals_match:
  "cash_total [\<lparr>cl_currency = ''USD'', cl_amount = \<lparr>dc_negative = False, dc_coeff = 10 ^ 28, dc_exp = 0\<rparr>, cl_acquired = 0\<rparr>,
      \<lparr>cl_currency = ''USD'', cl_amount = \<lparr>dc_negative = False, dc_coeff = 1, dc_exp = -1\<rparr>, cl_acquired = 0\<rparr>] ''USD''
    = cash_total [\<lparr>cl_currency = ''USD'', cl_amount = \<lparr>dc_negative = False, dc_coeff = 10 ^ 28, dc_exp = 0\<rparr>, cl_acquired = 0\<rparr>] ''USD''"
  by (simp add: cash_total_def dsum_def dadd_def dec_value_def) (simp add: dec_eval)

subsection \<open>A statement with one dividend\<close>

definition cents :: "nat \<Rightarrow> py_decimal" where
  "cents n = \<lparr>dc_negative = False, dc_coeff = n, dc_exp = -2\<rparr>"

definition usd_lot :: "nat \<Rightarrow> cash_lot" where
  "usd_lot n = \<lparr>cl_currency = ''USD'', cl_amount = cents n, cl_acquired = 20000\<rparr>"

definition sample_statement :: "nat \<Rightarrow> account_snapshot" where
  "sample_statement n = \<lparr>as_as_of = 20001, as_cash = [usd_lot n], as_positions = [], as_account = ''A''\<rparr>"

definition sample_ledger :: portfolio_ledger where
  "sample_ledger = \<lparr>nl_cash = [usd_lot 9000], nl_positions = [], nl_head = entry_text (zero_digest, CashLot (usd_lot 9000)),
     nl_count = 1, nl_account = ''A'', nl_as_of = None\<rparr>"

definition dividend :: stmt_tx where
  "dividend = \<lparr>tx_id = ''T1'', tx_date = 20000, tx_type = ''dividend'', tx_currency = ''USD'', tx_amount = 10,
     tx_quantity = None, tx_symbol = None, tx_description = [], tx_settled = Some True, tx_provenance = ''S'',
     tx_reflected = Some False\<rparr>"

lemma sample_posted: "run_strict (post_lot (\<lambda>s. s)) (empty_ledger ''A'' None) [CashLot (usd_lot 9000)] = Inr sample_ledger"
  by (simp add: post_lot_eq empty_ledger_def sample_ledger_def)

lemma supplied_total: "cash_by_currency [usd_lot n] = [(''USD'', dround (of_nat n / 100))]"
  by (simp add: cash_by_currency_def tally_def usd_lot_def cents_def dadd_def dec_value_def pow10_def)

lemma sample_dividend_break:
  "find_breaks (sample_statement 10000) sample_ledger [dividend] =
     [\<lparr>bk_scope = CASH_SCOPE, bk_key = ''USD'', bk_statement = 100, bk_ledger = 90, bk_difference = 10,
       bk_status = SUPPORTED_EXPLANATION, bk_explanation = Some (Documented ''dividend'' ''T1'' ''S'' []), bk_refs = [''T1'']\<rparr>]"
proof -
  have "upper ''dividend'' = ''DIVIDEND''" "\<not> blank ''S''" by (simp_all add: string_eval)
  moreover have "dround 100 = 100" "dround 90 = 90" "dround 10 = 10" by (simp_all add: dec_eval)
  ultimately show ?thesis
    by (simp add: find_breaks_def sample_statement_def sample_ledger_def supplied_total quantity_by_symbol_def tally_def
        sorted_keys_def total_of_def dsub_def diagnose_cash_break_def diagnose_def dividend_def valid_cash_record_types_def)
qed

theorem supported_breaks_rest_on_evidence_witness:
  "\<exists>b. rr_breaks (reconcile_snapshot_ledger (\<lambda>b. b) (sample_statement 10000) sample_ledger [dividend] None None None
      False None None) = [b] \<and> supported b \<and> explains b dividend \<and> sound_evidence dividend 20001"
proof -
  let ?r = "reconcile_snapshot_ledger (\<lambda>b. b) (sample_statement 10000) sample_ledger [dividend] None None None False None None"
  obtain b where b: "rr_breaks ?r = [b]" "supported b"
    unfolding reconcile_breaks sample_dividend_break by (simp add: supported_def)
  have "as_as_of (sample_statement 10000) = 20001" by (simp add: sample_statement_def)
  with supported_breaks_rest_on_evidence [of "\<lambda>b. b" "sample_statement 10000" sample_ledger "[dividend]" None None None False None None] b
  have "explains b dividend \<and> sound_evidence dividend 20001" by (simp add: Let_def)
  with b show ?thesis by blast
qed

definition custodian :: ledger_attestation where
  "custodian = \<lparr>ia_source_id = ''BANK'', ia_artifact = ''bytes'', ia_account = ''A'', ia_as_of = 20001, ia_entries = 1,
     ia_head = nl_head sample_ledger, ia_lineage = ''L'', ia_origin = ''CUSTODIAN''\<rparr>"

theorem independent_verdict_identifies_ledger_witness:
  "rr_status (reconcile_snapshot_ledger (\<lambda>b. b) (sample_statement 9000) sample_ledger [] (Some ''STMT'') None None True
     (Some custodian) (Some ''bytes'')) = INDEPENDENT_RECONCILIATION_MATCHED
   \<and> ia_as_of custodian = as_as_of (sample_statement 9000)"
proof -
  let ?r = "reconcile_snapshot_ledger (\<lambda>b. b) (sample_statement 9000) sample_ledger [] (Some ''STMT'') None None True
     (Some custodian) (Some ''bytes'')"
  have "find_breaks (sample_statement 9000) sample_ledger [] = []"
    by (simp add: find_breaks_def sample_statement_def sample_ledger_def supplied_total quantity_by_symbol_def tally_def
        sorted_keys_def total_of_def)
  moreover have "strip ''STMT'' = ''STMT''" "strip ''BANK'' = ''BANK''" "upper ''CUSTODIAN'' = ''CUSTODIAN''"
    by (simp_all add: string_eval)
  ultimately have status: "rr_status ?r = INDEPENDENT_RECONCILIATION_MATCHED" "rr_independent ?r"
    by (simp_all add: reconcile_snapshot_ledger_def judge_def judge_attestation_def lineage_conflict_def or_else_def
        custodian_def sample_statement_def sample_ledger_def)
  have "ia_head custodian = nl_head sample_ledger" "ia_entries custodian = nl_count sample_ledger"
    by (simp_all add: custodian_def sample_ledger_def)
  moreover have "date_ok 20000" by (simp add: date_ok_def)
  ultimately have "ia_as_of custodian = as_as_of (sample_statement 9000)"
    using independent_verdict_identifies_ledger [OF status(2) sample_posted sample_posted]
    by (simp add: separates_def usd_lot_def)
  with status show ?thesis by simp
qed

text \<open>The finding at work: other lots behind the attested head and count are matched with a statement of 100.\<close>

lemma tampered_lots_matched_independently:
  "rr_status (reconcile_snapshot_ledger (\<lambda>b. b) (sample_statement 10000) (sample_ledger\<lparr>nl_cash := [usd_lot 10000]\<rparr>) []
     (Some ''STMT'') None None True (Some custodian) (Some ''bytes'')) = INDEPENDENT_RECONCILIATION_MATCHED"
proof -
  have "find_breaks (sample_statement 10000) (sample_ledger\<lparr>nl_cash := [usd_lot 10000]\<rparr>) [] = []"
    by (simp add: find_breaks_def sample_statement_def sample_ledger_def supplied_total quantity_by_symbol_def tally_def
        sorted_keys_def total_of_def)
  moreover have "strip ''STMT'' = ''STMT''" "strip ''BANK'' = ''BANK''" "upper ''CUSTODIAN'' = ''CUSTODIAN''"
    by (simp_all add: string_eval)
  ultimately show ?thesis
    by (simp add: reconcile_snapshot_ledger_def judge_def judge_attestation_def lineage_conflict_def or_else_def
        custodian_def sample_statement_def sample_ledger_def)
qed

end
