(* ===== verification/PpdsExposure.thy ===== *)
theory PpdsExposure
  imports PpdsLedger
begin

section \<open>Exposure and valuation of a portfolio ledger\<close>

text \<open>
  \<open>ppds/exposure.py\<close>: the exposure projections of a ledger (concentration, fund overlap, currencies, gross
  and net), and the valuation of a whole account in a base currency.  Prices and rates are given by the caller
  and may be any \<open>Decimal\<close> (\<open>raw_dec\<close>); constituent weights are finite.  A line keeps its numbers, of which
  the code stores the \<open>str\<close>.  All arithmetic is that of the 28-digit context.
\<close>

text \<open>A loop that raises at the first element that does.\<close>

fun try_map :: "('a \<Rightarrow> 'e + 'b) \<Rightarrow> 'a list \<Rightarrow> 'e + 'b list" where
  "try_map f [] = Inr []"
| "try_map f (x # xs) = rbind (f x) (\<lambda>y. rbind (try_map f xs) (\<lambda>ys. Inr (y # ys)))"

lemma try_map_Inr: "try_map f xs = Inr ys \<longleftrightarrow> list_all2 (\<lambda>x y. f x = Inr y) xs ys"
proof (induction xs arbitrary: ys)
  case (Cons x xs)
  then show ?case by (cases ys) (auto simp: rbind_Inr_iff)
qed auto

subsection \<open>Exposure lines\<close>

record exposure_line =
  el_key :: string
  el_value :: dec
  el_weight :: dec

datatype exposure_error =
    PriceMissing string
  | PriceInvalid string
  | ExposureMultiCurrency "string list"
  | ExposureEmpty
  | OverlapWeightsInvalid string dec
  | OverlapWeightInvalid string
  | OverlapEmpty
  | FxRateMissing string
  | FxRateInvalid string
  | FxEmpty

fun positive :: "raw_dec \<Rightarrow> dec option" where
  "positive (Fin x) = (if x \<le> 0 then None else Some x)"
| "positive _ = None"

definition require_price :: "(string \<Rightarrow> raw_dec option) \<Rightarrow> string \<Rightarrow> exposure_error + dec" where
  "require_price prices symbol =
     (case prices symbol of
        None \<Rightarrow> Inl (PriceMissing symbol)
      | Some p \<Rightarrow> (case positive p of None \<Rightarrow> Inl (PriceInvalid symbol) | Some x \<Rightarrow> Inr x))"

definition lot_currencies :: "portfolio_ledger \<Rightarrow> string list" where
  "lot_currencies l = sort (remdups (map pl_currency (nl_positions l)))"

text \<open>The common end: the total of the given magnitudes, which must be positive, and the lines in key order.\<close>

definition exposure_lines :: "exposure_error \<Rightarrow> dec list \<Rightarrow> (string, dec) dict \<Rightarrow> exposure_error + exposure_line list" where
  "exposure_lines if_empty magnitudes vals =
     (let total = dsum magnitudes in
      raise_if (total \<le> 0) if_empty (
      Inr (map (\<lambda>(k, v). \<lparr>el_key = k, el_value = v, el_weight = ddiv v total\<rparr>) (sort_key fst vals))))"

definition position_exposure :: "portfolio_ledger \<Rightarrow> (string \<Rightarrow> raw_dec option) \<Rightarrow> exposure_error + exposure_line list" where
  "position_exposure l prices =
     raise_if (1 < length (lot_currencies l)) (ExposureMultiCurrency (lot_currencies l)) (
     rbind (try_map (\<lambda>(sy, q). rbind (require_price prices sy) (\<lambda>p. Inr (sy, dmul (dabs q) p)))
       (quantity_by_symbol (nl_positions l))) (\<lambda>vals.
     exposure_lines ExposureEmpty (map snd vals) vals))"

definition add_value :: "string \<Rightarrow> dec \<Rightarrow> (string, dec) dict \<Rightarrow> (string, dec) dict" where
  "add_value k v d = dict_put k (dadd (case dict_get d k of None \<Rightarrow> 0 | Some t \<Rightarrow> t) v) d"

fun spread_constituents ::
    "dec \<Rightarrow> (string \<times> dec) list \<Rightarrow> (string, dec) dict \<Rightarrow> exposure_error + (string, dec) dict" where
  "spread_constituents leg [] d = Inr d"
| "spread_constituents leg ((c, w) # cws) d =
     raise_if (w < 0) (OverlapWeightInvalid c) (spread_constituents leg cws (add_value c (dmul leg w) d))"

fun decompose_lots ::
    "(string \<Rightarrow> raw_dec option) \<Rightarrow> (string \<Rightarrow> (string \<times> dec) list option) \<Rightarrow> position_lot list \<Rightarrow> (string, dec) dict
     \<Rightarrow> exposure_error + (string, dec) dict" where
  "decompose_lots prices constituents [] d = Inr d"
| "decompose_lots prices constituents (p # ps) d =
     (case constituents (pl_symbol p) of
        None \<Rightarrow> decompose_lots prices constituents ps d
      | Some weights \<Rightarrow>
          let total_w = dsum (map snd weights) in
          raise_if (total_w \<noteq> 1) (OverlapWeightsInvalid (pl_symbol p) total_w) (
          rbind (require_price prices (pl_symbol p)) (\<lambda>price.
          rbind (spread_constituents (dmul (dabs (dec_value (pl_quantity p))) price) weights d) (\<lambda>d'.
          decompose_lots prices constituents ps d'))))"

definition etf_overlap_exposure ::
    "portfolio_ledger \<Rightarrow> (string \<Rightarrow> raw_dec option) \<Rightarrow> (string \<Rightarrow> (string \<times> dec) list option)
     \<Rightarrow> exposure_error + exposure_line list" where
  "etf_overlap_exposure l prices constituents =
     raise_if (1 < length (lot_currencies l)) (ExposureMultiCurrency (lot_currencies l)) (
     rbind (decompose_lots prices constituents (nl_positions l) []) (\<lambda>vals.
     exposure_lines OverlapEmpty (map snd vals) vals))"

definition fx_exposure :: "portfolio_ledger \<Rightarrow> (string \<Rightarrow> raw_dec option) \<Rightarrow> exposure_error + exposure_line list" where
  "fx_exposure l fx_to_usd =
     rbind (try_map (\<lambda>(c, a). case fx_to_usd c of
         None \<Rightarrow> Inl (FxRateMissing c)
       | Some r \<Rightarrow> (case positive r of None \<Rightarrow> Inl (FxRateInvalid c) | Some x \<Rightarrow> Inr (c, dmul (dabs a) x)))
       (cash_by_currency (nl_cash l))) (\<lambda>vals.
     exposure_lines FxEmpty (map snd vals) vals)"

fun gross_values ::
    "(string \<Rightarrow> raw_dec option) \<Rightarrow> position_lot list \<Rightarrow> (string, dec) dict \<Rightarrow> exposure_error + (string, dec) dict" where
  "gross_values prices [] d = Inr d"
| "gross_values prices (p # ps) d =
     rbind (require_price prices (pl_symbol p)) (\<lambda>price.
     gross_values prices ps (add_value (pl_symbol p) (dmul (dabs (dec_value (pl_quantity p))) price) d))"

definition gross_lots_exposure :: "portfolio_ledger \<Rightarrow> (string \<Rightarrow> raw_dec option) \<Rightarrow> exposure_error + exposure_line list" where
  "gross_lots_exposure l prices =
     raise_if (1 < length (lot_currencies l)) (ExposureMultiCurrency (lot_currencies l)) (
     rbind (gross_values prices (nl_positions l) []) (\<lambda>vals.
     exposure_lines ExposureEmpty (map snd vals) vals))"

definition net_signed_exposure :: "portfolio_ledger \<Rightarrow> (string \<Rightarrow> raw_dec option) \<Rightarrow> exposure_error + exposure_line list" where
  "net_signed_exposure l prices =
     raise_if (1 < length (lot_currencies l)) (ExposureMultiCurrency (lot_currencies l)) (
     rbind (try_map (\<lambda>(sy, q). rbind (require_price prices sy) (\<lambda>p. Inr (sy, dmul q p)))
       (quantity_by_symbol (nl_positions l))) (\<lambda>vals.
     exposure_lines ExposureEmpty (map (\<lambda>(k, v). dabs v) vals) vals))"

subsection \<open>Valuation\<close>

record price_quote =
  pq_symbol :: string
  pq_price :: raw_dec
  pq_as_of :: int
  pq_currency :: string
  pq_source :: string

record fx_rate =
  fx_from :: string
  fx_to :: string
  fx_multiplier :: raw_dec
  fx_as_of :: int
  fx_source :: string

record valued_position =
  vp_symbol :: string
  vp_net_quantity :: dec
  vp_gross_quantity :: dec
  vp_currency :: string
  vp_price :: dec
  vp_price_as_of :: int
  vp_net_local :: dec
  vp_gross_local :: dec
  vp_fx :: dec
  vp_net_base :: dec
  vp_gross_base :: dec

record portfolio_valuation =
  pv_as_of :: int
  pv_base :: string
  pv_account :: string
  pv_cash_local :: "(string, dec) dict"
  pv_cash_base :: "(string, dec) dict"
  pv_total_cash :: dec
  pv_positions :: "valued_position list"
  pv_total_gross :: dec
  pv_total_net :: dec
  pv_nav :: dec

datatype valuation_error =
    BaseCurrencyInvalid string
  | LedgerAsOfMismatch int int
  | FxMissing string string
  | FxOrientation string string
  | FxSourceInvalid string string
  | FxAsOfMismatch string string int
  | FxInvalid string string
  | SymbolMultiCurrency string
  | QuoteMissing string
  | QuoteSymbolMismatch string string
  | QuoteSourceInvalid string
  | QuoteAsOfMismatch string int
  | QuotePriceInvalid string
  | QuoteCurrencyMismatch string string

type_synonym fx_table = "string \<times> string \<Rightarrow> fx_rate option"

text \<open>
  The multiplier from one currency into another; \<open>clean\<close> normalises the currencies inside the rate, which this
  file strips and upper-cases and \<open>registry.py\<close> only upper-cases.
\<close>

definition checked_fx :: "(string \<Rightarrow> string) \<Rightarrow> fx_table \<Rightarrow> int \<Rightarrow> string \<Rightarrow> string \<Rightarrow> valuation_error + dec" where
  "checked_fx clean rates as_of from into =
     (if from = into then Inr 1
      else case rates (from, into) of
        None \<Rightarrow> Inl (FxMissing from into)
      | Some fx \<Rightarrow>
          raise_if (clean (fx_from fx) \<noteq> from \<or> clean (fx_to fx) \<noteq> into) (FxOrientation from into) (
          raise_if (blank (fx_source fx)) (FxSourceInvalid from into) (
          raise_if (fx_as_of fx \<noteq> as_of) (FxAsOfMismatch from into (fx_as_of fx)) (
          case positive (fx_multiplier fx) of None \<Rightarrow> Inl (FxInvalid from into) | Some x \<Rightarrow> Inr x))))"

definition lots_of :: "string \<Rightarrow> position_lot list \<Rightarrow> position_lot list" where
  "lots_of symbol lots = filter (\<lambda>l. pl_symbol l = symbol) lots"

definition value_position ::
    "portfolio_ledger \<Rightarrow> string \<Rightarrow> int \<Rightarrow> (string \<Rightarrow> price_quote option) \<Rightarrow> fx_table \<Rightarrow> string \<times> dec
     \<Rightarrow> valuation_error + valued_position" where
  "value_position l base as_of prices rates entry =
     (let symbol = fst entry; net_qty = snd entry; lots = lots_of symbol (nl_positions l);
          gross_qty = dsum (map (\<lambda>p. dabs (dec_value (pl_quantity p))) lots);
          currencies = remdups (map pl_currency lots) in
      raise_if (1 < length currencies) (SymbolMultiCurrency symbol) (
      let currency = hd currencies in
      case prices symbol of
        None \<Rightarrow> Inl (QuoteMissing symbol)
      | Some q \<Rightarrow>
          raise_if (pq_symbol q \<noteq> symbol) (QuoteSymbolMismatch symbol (pq_symbol q)) (
          raise_if (blank (pq_source q)) (QuoteSourceInvalid symbol) (
          raise_if (pq_as_of q \<noteq> as_of) (QuoteAsOfMismatch symbol (pq_as_of q)) (
          case positive (pq_price q) of
            None \<Rightarrow> Inl (QuotePriceInvalid symbol)
          | Some price \<Rightarrow>
              raise_if (upper (pq_currency q) \<noteq> currency) (QuoteCurrencyMismatch symbol (pq_currency q)) (
              rbind (checked_fx (\<lambda>s. upper (strip s)) rates as_of currency base) (\<lambda>fx.
              Inr \<lparr>vp_symbol = symbol, vp_net_quantity = net_qty, vp_gross_quantity = gross_qty, vp_currency = currency,
                vp_price = price, vp_price_as_of = pq_as_of q, vp_net_local = dmul net_qty price,
                vp_gross_local = dmul gross_qty price, vp_fx = fx, vp_net_base = dmul (dmul net_qty price) fx,
                vp_gross_base = dmul (dmul gross_qty price) fx\<rparr>)))))))"

definition evaluate_portfolio_base_currency ::
    "portfolio_ledger \<Rightarrow> string option \<Rightarrow> int \<Rightarrow> (string \<Rightarrow> price_quote option) \<Rightarrow> fx_table
     \<Rightarrow> valuation_error + portfolio_valuation" where
  "evaluate_portfolio_base_currency l base_currency as_of prices rates =
     (let base = clean_text base_currency in
      raise_if (\<not> currency_ok base) (BaseCurrencyInvalid base) (
      raise_if (nl_as_of l \<noteq> None \<and> nl_as_of l \<noteq> Some as_of) (LedgerAsOfMismatch (the (nl_as_of l)) as_of) (
      let cash_local = cash_by_currency (nl_cash l) in
      rbind (try_map (\<lambda>(c, a). rbind (checked_fx (\<lambda>s. upper (strip s)) rates as_of c base) (\<lambda>fx. Inr (c, dmul a fx)))
        (sort_key fst cash_local)) (\<lambda>cash_base.
      rbind (try_map (value_position l base as_of prices rates)
        (sort_key fst (quantity_by_symbol (nl_positions l)))) (\<lambda>positions.
      let total_cash = dsum (map snd cash_base);
          total_gross = dsum (map vp_gross_base positions);
          total_net = dsum (map vp_net_base positions) in
      Inr \<lparr>pv_as_of = as_of, pv_base = base, pv_account = nl_account l, pv_cash_local = cash_local,
        pv_cash_base = cash_base, pv_total_cash = total_cash, pv_positions = positions,
        pv_total_gross = total_gross, pv_total_net = total_net, pv_nav = dadd total_cash total_net\<rparr>)))))"


subsection \<open>Magnitudes bound nets\<close>

text \<open>Rounding keeps the order of magnitudes, so whatever is summed or multiplied, a net stays below its gross.\<close>

lemma abs_dround: "\<bar>dround x\<bar> = dround \<bar>x\<bar>"
  using dec_ctx.rnd_nonneg [of x] dec_ctx.rnd_nonpos [of x] by (cases "0 \<le> x") simp_all

lemma abs_dround_le: "\<bar>x\<bar> \<le> y \<Longrightarrow> \<bar>dround x\<bar> \<le> dround y"
  by (simp add: abs_dround dround_mono)

lemma abs_dmul_le: "\<bar>a\<bar> \<le> b \<Longrightarrow> 0 < p \<Longrightarrow> \<bar>dmul a p\<bar> \<le> dmul b p"
  by (simp add: dmul_def abs_dround_le abs_mult mult_right_mono)

lemma abs_dsum_le: "list_all2 (\<lambda>n g. \<bar>n\<bar> \<le> g) ns gs \<Longrightarrow> \<bar>dsum ns\<bar> \<le> dsum gs"
proof -
  have "\<bar>fold (\<lambda>x acc. dround (acc + x)) ns a\<bar> \<le> fold (\<lambda>x acc. dround (acc + x)) gs b"
    if "list_all2 (\<lambda>n g. \<bar>n\<bar> \<le> g) ns gs" "\<bar>a\<bar> \<le> b" for a b
    using that
  proof (induction arbitrary: a b rule: list_all2_induct)
    case (Cons n ns g gs)
    have "\<bar>a + n\<bar> \<le> b + g" using Cons.hyps(1) Cons.prems by linarith
    then show ?case using Cons.IH [of "dround (a + n)" "dround (b + g)"] abs_dround_le by simp
  qed simp
  from this [of 0 0] show "list_all2 (\<lambda>n g. \<bar>n\<bar> \<le> g) ns gs \<Longrightarrow> \<bar>dsum ns\<bar> \<le> dsum gs" by (simp add: dsum_fold)
qed

lemma positive_pos: "positive r = Some x \<Longrightarrow> 0 < x"
  by (cases r) (auto split: if_splits)

lemma checked_fx_pos: "checked_fx clean rates as_of a b = Inr x \<Longrightarrow> 0 < x"
  by (auto simp: checked_fx_def positive_pos split: if_splits option.splits)

lemma sort_tally_Some:
  assumes "(k, q) \<in> set (tally key amount xs)"
  shows "q = dsum (map amount (filter (\<lambda>x. key x = k) xs))"
proof -
  have "dict_get (tally key amount xs) k = Some q"
    using assms tally_wf [of key amount xs] by (simp add: dict_get_def dict_wf_def)
  then show ?thesis by (simp add: dict_get_tally split: if_splits)
qed

text \<open>A rounded total is at least each of its non-negative terms.\<close>

lemma dsum_ge_term:
  assumes "\<forall>x \<in> set xs. 0 \<le> x \<and> dec28 x" "x \<in> set xs"
  shows "x \<le> dsum xs"
proof -
  obtain as bs where xs: "xs = as @ x # bs" using assms(2) by (meson split_list)
  let ?f = "\<lambda>x acc. dround (acc + x)"
  have "x \<le> dround (dsum as + x)"
    using assms dsum_nonneg [of as] xs by (intro dec_ctx.rnd_lower) (auto simp: dround_exact)
  also have "\<dots> \<le> fold ?f bs (dround (dsum as + x))"
    using dec_ctx.fold_rnd_ge [of bs "dround (dsum as + x)"] assms(1) xs by simp
  also have "\<dots> = dsum xs" unfolding xs dsum_fold by simp
  finally show ?thesis .
qed

lemma ddiv_unit: "0 \<le> x \<Longrightarrow> x \<le> t \<Longrightarrow> 0 < t \<Longrightarrow> 0 \<le> ddiv x t \<and> ddiv x t \<le> 1"
proof -
  assume "0 \<le> x" "x \<le> t" "0 < t"
  then have "x / t \<le> 1" by simp
  then have "dround (x / t) \<le> dround 1" by (rule dround_mono)
  moreover have "dround 1 = 1" by (rule dround_numerals)
  ultimately show ?thesis using \<open>0 \<le> x\<close> \<open>0 < t\<close> by (simp add: ddiv_def dec_ctx.rnd_nonneg)
qed

lemma exposure_lines_unit:
  assumes "exposure_lines e (map snd vals) vals = Inr lines" "\<forall>v \<in> snd ` set vals. 0 \<le> v \<and> dec28 v" "x \<in> set lines"
  shows "0 \<le> el_weight x \<and> el_weight x \<le> 1 \<and> el_value x \<in> snd ` set vals \<and> el_key x \<in> fst ` set vals"
proof -
  have t: "0 < dsum (map snd vals)" and lines: "lines = map (\<lambda>(k, v). \<lparr>el_key = k, el_value = v,
      el_weight = ddiv v (dsum (map snd vals))\<rparr>) (sort_key fst vals)"
    using assms(1) by (auto simp: exposure_lines_def Let_def)
  then obtain k v where kv: "(k, v) \<in> set vals"
    and x: "x = \<lparr>el_key = k, el_value = v, el_weight = ddiv v (dsum (map snd vals))\<rparr>"
    using assms(3) by auto
  have v: "0 \<le> v" "v \<in> set (map snd vals)" using assms(2) kv by force+
  have "v \<le> dsum (map snd vals)" by (rule dsum_ge_term) (use assms(2) v(2) in auto)
  then show ?thesis using ddiv_unit [OF v(1) _ t] kv x by force
qed

text \<open>The weights are rounded quotients: three equal positions do not add up to one.\<close>

lemma thirds_do_not_sum_to_one: "dsum [ddiv 1 3, ddiv 1 3, ddiv 1 3] \<noteq> 1"
  by (simp add: dsum_def dadd_def ddiv_def) (simp add: dec_eval)


lemma priced_values:
  assumes "try_map (\<lambda>(sy, q). rbind (require_price prices sy) (\<lambda>p. Inr (sy, f q p))) d = Inr vals"
  shows "map fst vals = map fst d" "\<forall>v \<in> snd ` set vals. \<exists>q p. 0 < p \<and> v = f q p"
proof -
  have all: "list_all2 (\<lambda>x y. \<exists>p. 0 < p \<and> y = (fst x, f (snd x) p)) d vals"
    using assms unfolding try_map_Inr
    by (rule list_all2_mono)
      (auto simp: rbind_Inr_iff require_price_def dest!: positive_pos split: option.splits)
  show "map fst vals = map fst d" using all by (induction rule: list_all2_induct) auto
  show "\<forall>v \<in> snd ` set vals. \<exists>q p. 0 < p \<and> v = f q p" using all by (induction rule: list_all2_induct) (simp, auto 0 3)
qed

text \<open>The concentration of a ledger: every symbol held has one line, with a weight between 0 and 1.\<close>

lemma position_exposure_weights:
  assumes "position_exposure l prices = Inr lines"
  shows "map el_key lines = sorted_list_of_set (pl_symbol ` set (nl_positions l))
    \<and> (\<forall>x \<in> set lines. 0 \<le> el_weight x \<and> el_weight x \<le> 1)"
proof -
  let ?d = "quantity_by_symbol (nl_positions l)"
  obtain vals where vals: "try_map (\<lambda>(sy, q). rbind (require_price prices sy) (\<lambda>p. Inr (sy, dmul (dabs q) p))) ?d = Inr vals"
    and lines: "exposure_lines ExposureEmpty (map snd vals) vals = Inr lines"
    using assms by (auto simp: position_exposure_def)
  note v = priced_values [of prices "\<lambda>q p. dmul (dabs q) p" ?d vals, OF vals]
  have "\<forall>v \<in> snd ` set vals. 0 \<le> v \<and> dec28 v" using v(2) by (force simp: less_imp_le)
  with exposure_lines_unit [OF lines] have w: "\<forall>x \<in> set lines. 0 \<le> el_weight x \<and> el_weight x \<le> 1" by blast
  have keys: "fst ` set vals = pl_symbol ` set (nl_positions l)" "distinct (map fst vals)"
  proof -
    have "fst ` set vals = fst ` set ?d" using v(1) by (metis list.set_map)
    then show "fst ` set vals = pl_symbol ` set (nl_positions l)" by (simp add: quantity_by_symbol_def keys_tally)
    show "distinct (map fst vals)" unfolding v(1) using tally_wf by (simp add: quantity_by_symbol_def dict_wf_def)
  qed
  have "map el_key lines = map fst (sort_key fst vals)"
    using lines by (auto simp: exposure_lines_def Let_def)
  also have "\<dots> = sorted_list_of_set (pl_symbol ` set (nl_positions l))"
  proof (rule sorted_distinct_set_unique)
    show "distinct (map fst (sort_key fst vals))" using keys(2) by (metis distinct_map distinct_sort set_sort)
  qed (use keys(1) in simp_all)
  finally show ?thesis using w by simp
qed

text \<open>C39: A valuation stands on its inputs and its nets never exceed its grosses.  When the valuation of a ledger is returned, every symbol held is valued once, in order, with the summed quantity of its lots, at a positive price of the valuation date and a positive conversion rate; the magnitude of every net value, and of their total, is at most the gross value (so a short never adds more to the net than to the gross), and the net asset value is cash plus net positions.\<close>

theorem valuation_net_within_gross:
  assumes "evaluate_portfolio_base_currency l base as_of prices rates = Inr v"
    and "\<forall>p \<in> set (nl_positions l). dec28 (dec_value (pl_quantity p))"
  shows "map vp_symbol (pv_positions v) = sorted_list_of_set (pl_symbol ` set (nl_positions l))
    \<and> (\<forall>x \<in> set (pv_positions v). 0 < vp_price x \<and> 0 < vp_fx x \<and> vp_price_as_of x = as_of
        \<and> vp_net_quantity x = dsum (map (\<lambda>p. dec_value (pl_quantity p)) (lots_of (vp_symbol x) (nl_positions l)))
        \<and> \<bar>vp_net_base x\<bar> \<le> vp_gross_base x)
    \<and> \<bar>pv_total_net v\<bar> \<le> pv_total_gross v \<and> pv_nav v = dadd (pv_total_cash v) (pv_total_net v)"
proof -
  let ?d = "quantity_by_symbol (nl_positions l)" and ?b = "clean_text base"
  let ?good = "\<lambda>x. 0 < vp_price x \<and> 0 < vp_fx x \<and> vp_price_as_of x = as_of
        \<and> vp_net_quantity x = dsum (map (\<lambda>p. dec_value (pl_quantity p)) (lots_of (vp_symbol x) (nl_positions l)))
        \<and> \<bar>vp_net_base x\<bar> \<le> vp_gross_base x"
  from assms(1) have pos: "try_map (value_position l ?b as_of prices rates) (sort_key fst ?d) = Inr (pv_positions v)"
    and totals: "pv_total_net v = dsum (map vp_net_base (pv_positions v))"
      "pv_total_gross v = dsum (map vp_gross_base (pv_positions v))"
      "pv_nav v = dadd (pv_total_cash v) (pv_total_net v)"
    by (auto simp: evaluate_portfolio_base_currency_def Let_def rbind_Inr_iff)
  have each: "vp_symbol x = fst e \<and> ?good x" if "e \<in> set ?d" "value_position l ?b as_of prices rates e = Inr x" for e x
  proof -
    let ?lots = "lots_of (fst e) (nl_positions l)" and ?q = "\<lambda>p. dec_value (pl_quantity p)"
    have net: "snd e = dsum (map ?q ?lots)"
      using that(1) sort_tally_Some [of "fst e" "snd e"] by (simp add: quantity_by_symbol_def lots_of_def)
    have "list_all2 (\<lambda>n g. \<bar>n\<bar> \<le> g) (map ?q ?lots) (map (\<lambda>p. dabs (?q p)) ?lots)"
      using assms(2) by (auto simp: list_all2_conv_all_nth lots_of_def dabs_exact dest!: nth_mem)
    then have qty: "\<bar>snd e\<bar> \<le> dsum (map (\<lambda>p. dabs (?q p)) ?lots)" unfolding net by (rule abs_dsum_le)
    from that(2) have x: "vp_symbol x = fst e" "vp_net_quantity x = snd e" "vp_price_as_of x = as_of"
      "vp_net_base x = dmul (dmul (snd e) (vp_price x)) (vp_fx x)"
      "vp_gross_base x = dmul (dmul (dsum (map (\<lambda>p. dabs (?q p)) ?lots)) (vp_price x)) (vp_fx x)"
      "0 < vp_price x" "0 < vp_fx x"
      by (auto simp: value_position_def Let_def rbind_Inr_iff positive_pos checked_fx_pos split: option.splits)
    then show ?thesis using net abs_dmul_le [OF abs_dmul_le [OF qty x(6)] x(7)] by simp
  qed
  have rel: "list_all2 (\<lambda>e x. vp_symbol x = fst e \<and> ?good x) (sort_key fst ?d) (pv_positions v)"
    using pos unfolding try_map_Inr by (rule list.rel_mono_strong) (use each in auto)
  then have syms: "map vp_symbol (pv_positions v) = map fst (sort_key fst ?d)"
    by (induction rule: list_all2_induct) auto
  have good: "\<forall>x \<in> set (pv_positions v). ?good x" using rel by (induction rule: list_all2_induct) auto
  have keys: "fst ` set ?d = pl_symbol ` set (nl_positions l)" "distinct (map fst ?d)"
    using tally_wf by (simp_all add: quantity_by_symbol_def keys_tally dict_wf_def)
  have "map fst (sort_key fst ?d) = sorted_list_of_set (pl_symbol ` set (nl_positions l))"
  proof (rule sorted_distinct_set_unique)
    show "distinct (map fst (sort_key fst ?d))" using keys(2) by (metis distinct_map distinct_sort set_sort)
  qed (use keys(1) in simp_all)
  moreover have "\<bar>pv_total_net v\<bar> \<le> pv_total_gross v" unfolding totals
    by (rule abs_dsum_le) (use good in \<open>simp add: list_all2_conv_all_nth\<close>)
  ultimately show ?thesis using syms good totals(3) by simp
qed


text \<open>One long and one short lot of the same symbol, quoted in the base currency.\<close>

definition share_lot :: "bool \<Rightarrow> nat \<Rightarrow> position_lot" where
  "share_lot short n = \<lparr>pl_symbol = ''ES'', pl_quantity = \<lparr>dc_negative = short, dc_coeff = n, dc_exp = 0\<rparr>,
     pl_cost_basis = \<lparr>dc_negative = False, dc_coeff = 1, dc_exp = 0\<rparr>, pl_acquired = 0, pl_currency = ''USD''\<rparr>"

definition long_short :: portfolio_ledger where
  "long_short = \<lparr>nl_cash = [], nl_positions = [share_lot False 3, share_lot True 2], nl_head = [], nl_count = 2,
     nl_account = ''A'', nl_as_of = None\<rparr>"

definition es_quote :: price_quote where
  "es_quote = \<lparr>pq_symbol = ''ES'', pq_price = Fin 10, pq_as_of = 7, pq_currency = ''USD'', pq_source = ''S''\<rparr>"

theorem valuation_net_within_gross_witness:
  "\<exists>v. evaluate_portfolio_base_currency long_short (Some ''USD'') 7 (\<lambda>_. Some es_quote) (\<lambda>_. None) = Inr v
     \<and> pv_total_net v = 10 \<and> pv_total_gross v = 50 \<and> \<bar>pv_total_net v\<bar> \<le> pv_total_gross v"
proof -
  have q: "dec_value (pl_quantity (share_lot False 3)) = 3" "dec_value (pl_quantity (share_lot True 2)) = -2"
    by (simp_all add: dec_value_def share_lot_def pow10_def)
  have r: "dround 3 = 3" "dround 2 = 2" "dround 1 = 1" "dround 5 = 5" "dround 10 = 10" "dround 50 = 50"
    by (simp_all add: dec_eval)
  have cleaned: "clean_text (Some ''USD'') = ''USD''" "upper ''USD'' = ''USD''" "currency_ok ''USD''" "\<not> blank ''S''"
    by (simp_all add: clean_text_def string_eval currency_ok_def is_alpha_def)
  have f: "pl_symbol (share_lot b n) = ''ES''" "pl_currency (share_lot b n) = ''USD''" for b n by (simp_all add: share_lot_def)
  obtain v where v: "evaluate_portfolio_base_currency long_short (Some ''USD'') 7 (\<lambda>_. Some es_quote) (\<lambda>_. None) = Inr v"
    "pv_total_net v = 10" "pv_total_gross v = 50"
    by (simp add: evaluate_portfolio_base_currency_def cleaned long_short_def cash_by_currency_def quantity_by_symbol_def
        tally_def f q dadd_def r value_position_def lots_of_def dsum_def dabs_def es_quote_def checked_fx_def dmul_def Let_def)
  have "dec28 3" "dec28 (-2)" using dec28_of_int [of 3] dec28_of_int [of "-2"] by simp_all
  then have "\<forall>p \<in> set (nl_positions long_short). dec28 (dec_value (pl_quantity p))" by (simp add: long_short_def q)
  from valuation_net_within_gross [OF v(1) this] v show ?thesis by simp
qed

end
