(* ===== verification/PpdsRegistry.thy ===== *)
theory PpdsRegistry
  imports PpdsExposure
begin

section \<open>Accounts, consolidation and internal transfers\<close>

text \<open>
  \<open>ppds/registry.py\<close>: the registry of the accounts of a portfolio with its identity rules, the consolidation
  of the accounts' valuations into one reporting currency, and the matching of the two legs of an internal
  transfer.  The validators of a dataclass are its \<open>mk_\<close> function.  Amounts and quantities are finite.  The
  consolidated record leaves out the copy of its input valuations and the constant \<open>unresolved_status\<close>.
\<close>

subsection \<open>Registrations\<close>

record account_registration =
  ar_portfolio :: string
  ar_account :: string
  ar_source :: string
  ar_as_of :: int
  ar_base :: string
  ar_refs :: "string list"
  ar_aliases :: "string list"

datatype registry_error =
    PortfolioIdEmpty
  | AccountIdEmpty
  | SourceIdEmpty
  | AccountBaseInvalid string
  | RegistryPortfolioEmpty
  | PortfolioMismatch string string
  | DefaultAccountForbidden
  | DuplicateAccount string
  | RegistryAsOfMismatch string int int
  | AliasCollision "string list"
  | EvidenceCollision string "string list"
  | AccountNotFound string

definition mk_account_registration :: "account_registration \<Rightarrow> registry_error + account_registration" where
  "mk_account_registration a =
     (let p = strip (ar_portfolio a); i = strip (ar_account a); s = strip (ar_source a);
          b = upper (strip (ar_base a)) in
      raise_if (p = []) PortfolioIdEmpty (
      raise_if (i = []) AccountIdEmpty (
      raise_if (s = []) SourceIdEmpty (
      raise_if (\<not> currency_ok b) (AccountBaseInvalid (ar_base a)) (
      Inr (a\<lparr>ar_portfolio := p, ar_account := i, ar_source := s, ar_base := b,
             ar_aliases := sort (remdups (filter (\<lambda>x. x \<noteq> []) (map strip (ar_aliases a))))\<rparr>))))))"

record account_registry =
  rg_portfolio :: string
  rg_accounts :: "account_registration list"

definition mk_account_registry :: "string \<Rightarrow> account_registration list \<Rightarrow> registry_error + account_registry" where
  "mk_account_registry portfolio accounts =
     (let p = strip portfolio in
      raise_if (p = []) RegistryPortfolioEmpty (Inr \<lparr>rg_portfolio = p, rg_accounts = accounts\<rparr>))"

definition identifiers :: "account_registration \<Rightarrow> string set" where
  "identifiers a = insert (ar_account a) (set (ar_aliases a))"

fun first_conflict :: "account_registration \<Rightarrow> account_registration list \<Rightarrow> registry_error option" where
  "first_conflict a [] = None"
| "first_conflict a (e # es) =
     (if ar_account e = ar_account a then Some (DuplicateAccount (ar_account a))
      else if ar_as_of a \<noteq> ar_as_of e then Some (RegistryAsOfMismatch (ar_account a) (ar_as_of a) (ar_as_of e))
      else first_conflict a es)"

definition colliding :: "string list \<Rightarrow> string list \<Rightarrow> string list" where
  "colliding xs ys = sort (remdups (filter (\<lambda>x. x \<in> set ys) xs))"

definition register :: "account_registry \<Rightarrow> account_registration \<Rightarrow> registry_error + account_registry" where
  "register r a =
     raise_if (ar_portfolio a \<noteq> rg_portfolio r) (PortfolioMismatch (ar_portfolio a) (rg_portfolio r)) (
     raise_if (upper (ar_account a) = ''DEFAULT'' \<and> rg_accounts r \<noteq> []) DefaultAccountForbidden (
     raise_if (list_ex (\<lambda>e. upper (ar_account e) = ''DEFAULT'') (rg_accounts r)) DefaultAccountForbidden (
     case first_conflict a (rg_accounts r) of
       Some e \<Rightarrow> Inl e
     | None \<Rightarrow>
         let names = colliding (ar_account a # ar_aliases a) (concat (map (\<lambda>e. ar_account e # ar_aliases e) (rg_accounts r)));
             refs = colliding (ar_refs a) (concat (map ar_refs (rg_accounts r))) in
         raise_if (names \<noteq> []) (AliasCollision names) (
         raise_if (refs \<noteq> []) (EvidenceCollision (ar_account a) refs) (
         mk_account_registry (rg_portfolio r) (sort_key ar_account (rg_accounts r @ [a])))))))"

definition get_account :: "account_registry \<Rightarrow> string \<Rightarrow> registry_error + account_registration" where
  "get_account r account_id =
     (let c = strip account_id in
      case find (\<lambda>a. ar_account a = c \<or> c \<in> set (ar_aliases a)) (rg_accounts r) of
        Some a \<Rightarrow> Inr a | None \<Rightarrow> Inl (AccountNotFound account_id))"

definition account_ids :: "account_registry \<Rightarrow> string list" where
  "account_ids r = map ar_account (rg_accounts r)"

definition registry_as_of :: "account_registry \<Rightarrow> int option" where
  "registry_as_of r = (case rg_accounts r of [] \<Rightarrow> None | a # _ \<Rightarrow> Some (ar_as_of a))"

subsection \<open>Consolidation\<close>

record currency_exposure =
  cx_currency :: string
  cx_net_local :: dec
  cx_fx :: dec
  cx_net_base :: dec
  cx_weight :: dec

record consolidated_valuation =
  cv_portfolio :: string
  cv_as_of :: int
  cv_base :: string
  cv_nav_by_account :: "(string, dec) dict"
  cv_nav :: dec
  cv_cash :: dec
  cv_net :: dec
  cv_gross :: dec
  cv_exposures :: "currency_exposure list"
  cv_refs :: "string list"

datatype consolidation_error =
    EmptyRegistry
  | ReportingCurrencyInvalid string
  | ValuationMissing string
  | ValuationAsOfMismatch string int int
  | ValuationAccountMismatch string string
  | ConsolidationFx valuation_error

text \<open>The running totals of the loop over the accounts.\<close>

record consolidation =
  cs_navs :: "(string, dec) dict"
  cs_cash :: dec
  cs_net :: dec
  cs_gross :: dec
  cs_cash_local :: "(string, dec) dict"
  cs_pos_local :: "(string, dec) dict"

definition lift_fx :: "valuation_error + dec \<Rightarrow> consolidation_error + dec" where
  "lift_fx r = (case r of Inl e \<Rightarrow> Inl (ConsolidationFx e) | Inr x \<Rightarrow> Inr x)"

definition consolidate_account ::
    "(string \<Rightarrow> portfolio_valuation option) \<Rightarrow> string \<Rightarrow> fx_table \<Rightarrow> int \<Rightarrow> account_registration \<Rightarrow> consolidation
     \<Rightarrow> consolidation_error + consolidation" where
  "consolidate_account valuations reporting rates as_of a s =
     (case valuations (ar_account a) of
        None \<Rightarrow> Inl (ValuationMissing (ar_account a))
      | Some v \<Rightarrow>
          raise_if (pv_as_of v \<noteq> as_of) (ValuationAsOfMismatch (ar_account a) (pv_as_of v) as_of) (
          raise_if (pv_account v \<noteq> ar_account a) (ValuationAccountMismatch (pv_account v) (ar_account a)) (
          rbind (lift_fx (checked_fx upper rates as_of (upper (pv_base v)) reporting)) (\<lambda>fx.
          Inr \<lparr>cs_navs = dict_put (ar_account a) (dmul (pv_nav v) fx) (cs_navs s),
               cs_cash = dadd (cs_cash s) (dmul (pv_total_cash v) fx),
               cs_net = dadd (cs_net s) (dmul (pv_total_net v) fx),
               cs_gross = dadd (cs_gross s) (dmul (pv_total_gross v) fx),
               cs_cash_local = fold (\<lambda>(c, x). add_value c x) (pv_cash_local v) (cs_cash_local s),
               cs_pos_local = fold (\<lambda>p. add_value (upper (vp_currency p)) (vp_net_local p)) (pv_positions v)
                 (cs_pos_local s)\<rparr>))))"

fun consolidate_accounts ::
    "(string \<Rightarrow> portfolio_valuation option) \<Rightarrow> string \<Rightarrow> fx_table \<Rightarrow> int \<Rightarrow> account_registration list \<Rightarrow> consolidation
     \<Rightarrow> consolidation_error + consolidation" where
  "consolidate_accounts valuations reporting rates as_of [] s = Inr s"
| "consolidate_accounts valuations reporting rates as_of (a # as) s =
     rbind (consolidate_account valuations reporting rates as_of a s) (\<lambda>s'.
     consolidate_accounts valuations reporting rates as_of as s')"

definition currency_line ::
    "string \<Rightarrow> fx_table \<Rightarrow> int \<Rightarrow> dec \<Rightarrow> consolidation \<Rightarrow> string \<Rightarrow> consolidation_error + currency_exposure" where
  "currency_line reporting rates as_of nav s c =
     (let get = (\<lambda>d. case dict_get d c of None \<Rightarrow> 0 | Some x \<Rightarrow> x);
          net_local = dadd (get (cs_cash_local s)) (get (cs_pos_local s)) in
      rbind (lift_fx (checked_fx upper rates as_of c reporting)) (\<lambda>fx.
      let net_base = dmul net_local fx in
      Inr \<lparr>cx_currency = c, cx_net_local = net_local, cx_fx = fx, cx_net_base = net_base,
           cx_weight = (if nav \<noteq> 0 then ddiv net_base nav else 0)\<rparr>))"

definition consolidate_portfolio_valuations ::
    "account_registry \<Rightarrow> (string \<Rightarrow> portfolio_valuation option) \<Rightarrow> string option \<Rightarrow> fx_table
     \<Rightarrow> consolidation_error + consolidated_valuation" where
  "consolidate_portfolio_valuations r valuations reporting_currency rates =
     (case registry_as_of r of
        None \<Rightarrow> Inl EmptyRegistry
      | Some as_of \<Rightarrow>
          let reporting = clean_text reporting_currency in
          raise_if (\<not> currency_ok reporting) (ReportingCurrencyInvalid reporting) (
          rbind (consolidate_accounts valuations reporting rates as_of (rg_accounts r)
            \<lparr>cs_navs = [], cs_cash = 0, cs_net = 0, cs_gross = 0, cs_cash_local = [], cs_pos_local = []\<rparr>) (\<lambda>s.
          let nav = dsum (dict_values (cs_navs s)) in
          rbind (try_map (currency_line reporting rates as_of nav s)
            (sort (remdups (map fst (cs_cash_local s) @ map fst (cs_pos_local s))))) (\<lambda>exposures.
          Inr \<lparr>cv_portfolio = rg_portfolio r, cv_as_of = as_of, cv_base = reporting, cv_nav_by_account = cs_navs s,
               cv_nav = nav, cv_cash = cs_cash s, cv_net = cs_net s, cv_gross = cs_gross s, cv_exposures = exposures,
               cv_refs = sort (remdups (concat (map ar_refs (rg_accounts r))))\<rparr>))))"

subsection \<open>Internal transfers\<close>

datatype asset_type = CASH_ASSET | SECURITY_ASSET | MIXED_ASSET

record transfer_leg =
  tl_account :: string
  tl_source :: string
  tl_tx :: string
  tl_date :: int
  tl_currency :: string
  tl_amount :: dec
  tl_asset :: asset_type
  tl_symbol :: "string option"
  tl_quantity :: "dec option"
  tl_evidence :: string
  tl_settled :: bool

datatype transfer_error =
    LegAccountEmpty | LegSourceEmpty | LegTxEmpty | LegAssetInvalid | LegSymbolMissing
  | TransferIdEmpty | TransferEmptyLegs | TransferSameAccount string

definition mk_transfer_leg :: "transfer_leg \<Rightarrow> transfer_error + transfer_leg" where
  "mk_transfer_leg g =
     raise_if (blank (tl_account g)) LegAccountEmpty (
     raise_if (blank (tl_source g)) LegSourceEmpty (
     raise_if (blank (tl_tx g)) LegTxEmpty (
     raise_if (tl_asset g = MIXED_ASSET) LegAssetInvalid (
     raise_if (tl_asset g = SECURITY_ASSET \<and> (case tl_symbol g of None \<Rightarrow> True | Some s \<Rightarrow> blank s)) LegSymbolMissing (
     Inr g)))))"

datatype transfer_status =
    MATCHED | UNMATCHED_SOURCE_ONLY | UNMATCHED_DEST_ONLY | CROSS_CURRENCY_PENDING_FX | MISMATCHED_TERMS
  | MATCHED_CROSS_CURRENCY

datatype transfer_note =
    MissingDestination | MissingSourceLeg | ConflictingAssets | WrongFlowSigns | NegativeFee | FeeTooHigh dec dec
  | MatchedCash | NeedsFx | MatchedCross dec | MismatchedSymbols | WrongQuantitySigns | QuantityMismatch dec dec
  | MatchedSecurity

record transfer_envelope =
  tv_transfer :: string
  tv_from :: string
  tv_into :: string
  tv_asset :: asset_type
  tv_currency :: string
  tv_date :: int
  tv_status :: transfer_status
  tv_legs :: "transfer_leg list"
  tv_fee :: dec
  tv_fx :: "dec option"
  tv_refs :: "string list"
  tv_note :: transfer_note

definition validate_internal_transfer ::
    "transfer_leg option \<Rightarrow> transfer_leg option \<Rightarrow> string \<Rightarrow> dec \<Rightarrow> dec option \<Rightarrow> transfer_error + transfer_envelope" where
  "validate_internal_transfer source_leg dest_leg transfer_id max_fee fx_rate =
     (let tid = strip transfer_id;
          refs_of = (\<lambda>es. sort (remdups (filter (\<lambda>x. x \<noteq> []) es))) in
      raise_if (tid = []) TransferIdEmpty (
      case (source_leg, dest_leg) of
        (None, None) \<Rightarrow> Inl TransferEmptyLegs
      | (Some s, None) \<Rightarrow>
          Inr \<lparr>tv_transfer = tid, tv_from = tl_account s, tv_into = [], tv_asset = tl_asset s,
            tv_currency = tl_currency s, tv_date = tl_date s, tv_status = UNMATCHED_SOURCE_ONLY, tv_legs = [s],
            tv_fee = 0, tv_fx = None, tv_refs = refs_of [tl_evidence s], tv_note = MissingDestination\<rparr>
      | (None, Some d) \<Rightarrow>
          Inr \<lparr>tv_transfer = tid, tv_from = [], tv_into = tl_account d, tv_asset = tl_asset d,
            tv_currency = tl_currency d, tv_date = tl_date d, tv_status = UNMATCHED_DEST_ONLY, tv_legs = [d],
            tv_fee = 0, tv_fx = None, tv_refs = refs_of [tl_evidence d], tv_note = MissingSourceLeg\<rparr>
      | (Some s, Some d) \<Rightarrow>
          let envelope = (\<lambda>asset currency status fee fx refs note.
                Inr \<lparr>tv_transfer = tid, tv_from = tl_account s, tv_into = tl_account d, tv_asset = asset,
                  tv_currency = currency, tv_date = tl_date s, tv_status = status, tv_legs = [s, d],
                  tv_fee = fee, tv_fx = fx, tv_refs = refs, tv_note = note\<rparr>);
              mismatch = (\<lambda>asset fee note. envelope asset (tl_currency s) MISMATCHED_TERMS fee None [] note);
              refs = refs_of [tl_evidence s, tl_evidence d] in
          raise_if (tl_account s = tl_account d) (TransferSameAccount (tl_account s)) (
          if tl_asset s \<noteq> tl_asset d then mismatch MIXED_ASSET 0 ConflictingAssets
          else if tl_asset s = CASH_ASSET then
            (if tl_amount s \<ge> 0 \<or> tl_amount d \<le> 0 then mismatch CASH_ASSET 0 WrongFlowSigns
             else if upper (tl_currency s) = upper (tl_currency d) then
               let fee = dsub (dabs (tl_amount s)) (tl_amount d) in
               if fee < 0 then mismatch CASH_ASSET 0 NegativeFee
               else if fee > max_fee then mismatch CASH_ASSET fee (FeeTooHigh fee max_fee)
               else envelope CASH_ASSET (tl_currency s) MATCHED fee None refs MatchedCash
             else let currencies = tl_currency s @ ''->'' @ tl_currency d in
               case fx_rate of
                 None \<Rightarrow> envelope CASH_ASSET currencies CROSS_CURRENCY_PENDING_FX 0 None refs NeedsFx
               | Some x \<Rightarrow>
                   if x \<le> 0 then envelope CASH_ASSET currencies CROSS_CURRENCY_PENDING_FX 0 None refs NeedsFx
                   else envelope CASH_ASSET currencies MATCHED_CROSS_CURRENCY 0 (Some x) refs (MatchedCross x))
          else
            let symbol_of = (\<lambda>g. upper (case tl_symbol g of None \<Rightarrow> [] | Some x \<Rightarrow> x));
                qty_of = (\<lambda>g. case tl_quantity g of None \<Rightarrow> 0 | Some x \<Rightarrow> x);
                sq = qty_of s; dq = qty_of d in
            if symbol_of s \<noteq> symbol_of d then mismatch SECURITY_ASSET 0 MismatchedSymbols
            else if sq \<ge> 0 \<or> dq \<le> 0 then mismatch SECURITY_ASSET 0 WrongQuantitySigns
            else if dabs sq \<noteq> dq then mismatch SECURITY_ASSET 0 (QuantityMismatch (dabs sq) dq)
            else envelope SECURITY_ASSET (tl_currency s) MATCHED 0 None refs MatchedSecurity)))"


subsection \<open>The registry keeps identities apart\<close>

text \<open>What registration guarantees of the accounts of a registry.\<close>

definition apart_accounts :: "account_registration list \<Rightarrow> bool" where
  "apart_accounts as \<longleftrightarrow> distinct (map ar_account as)
     \<and> (\<forall>a \<in> set as. \<forall>b \<in> set as. a \<noteq> b \<longrightarrow> identifiers a \<inter> identifiers b = {} \<and> set (ar_refs a) \<inter> set (ar_refs b) = {})
     \<and> (\<forall>a \<in> set as. \<forall>b \<in> set as. ar_as_of a = ar_as_of b)
     \<and> (\<forall>a \<in> set as. upper (ar_account a) = ''DEFAULT'' \<longrightarrow> as = [a])"

definition registry_ok :: "account_registry \<Rightarrow> bool" where
  "registry_ok r \<longleftrightarrow> sorted (map ar_account (rg_accounts r)) \<and> apart_accounts (rg_accounts r)
     \<and> (\<forall>a \<in> set (rg_accounts r). ar_portfolio a = rg_portfolio r) \<and> strip (rg_portfolio r) = rg_portfolio r"

lemma first_conflict_None:
  "first_conflict a es = None \<longleftrightarrow> (\<forall>e \<in> set es. ar_account e \<noteq> ar_account a \<and> ar_as_of a = ar_as_of e)"
  by (induction es) auto

lemma colliding_Nil: "colliding xs ys = [] \<longleftrightarrow> set xs \<inter> set ys = {}"
proof -
  have "set (colliding xs ys) = set xs \<inter> set ys" by (auto simp: colliding_def)
  then show ?thesis by (metis set_empty)
qed

lemma registered:
  assumes "register r a = Inr r'" "strip (rg_portfolio r) = rg_portfolio r"
  shows "rg_portfolio r' = rg_portfolio r" "rg_accounts r' = sort_key ar_account (rg_accounts r @ [a])"
    "ar_portfolio a = rg_portfolio r" "upper (ar_account a) = ''DEFAULT'' \<longrightarrow> rg_accounts r = []"
    "\<forall>e \<in> set (rg_accounts r). upper (ar_account e) \<noteq> ''DEFAULT'' \<and> ar_account e \<noteq> ar_account a \<and> ar_as_of a = ar_as_of e
      \<and> identifiers e \<inter> identifiers a = {} \<and> set (ar_refs e) \<inter> set (ar_refs a) = {}"
  using assms
  by (auto simp: register_def mk_account_registry_def Let_def first_conflict_None colliding_Nil identifiers_def list_ex_iff
      split: option.splits)

lemma register_ok:
  assumes "registry_ok r" "register r a = Inr r'"
  shows "registry_ok r'"
proof -
  have clean: "strip (rg_portfolio r) = rg_portfolio r" using assms(1) by (simp add: registry_ok_def)
  note reg = registered [OF assms(2) clean]
  have old: "apart_accounts (rg_accounts r)" "\<forall>e \<in> set (rg_accounts r). ar_portfolio e = rg_portfolio r"
    using assms(1) by (simp_all add: registry_ok_def)
  have members: "set (rg_accounts r') = insert a (set (rg_accounts r))" by (simp add: reg(2))
  have "ar_account a \<notin> ar_account ` set (rg_accounts r)" using reg(5) by force
  then have "distinct (map ar_account (rg_accounts r @ [a]))" using old(1) by (simp add: apart_accounts_def)
  then have "distinct (map ar_account (rg_accounts r'))"
    unfolding reg(2) by (metis distinct_map distinct_sort set_sort)
  moreover have "\<forall>e \<in> set (rg_accounts r'). \<forall>f \<in> set (rg_accounts r'). e \<noteq> f
      \<longrightarrow> identifiers e \<inter> identifiers f = {} \<and> set (ar_refs e) \<inter> set (ar_refs f) = {}"
    using old(1) reg(5) unfolding members apart_accounts_def by blast
  moreover have "\<forall>e \<in> set (rg_accounts r'). \<forall>f \<in> set (rg_accounts r'). ar_as_of e = ar_as_of f"
    using old(1) reg(5) unfolding members apart_accounts_def by (metis insertE)
  moreover have "\<forall>e \<in> set (rg_accounts r'). upper (ar_account e) = ''DEFAULT'' \<longrightarrow> rg_accounts r' = [e]"
    using reg(2,4,5) by auto
  ultimately have "apart_accounts (rg_accounts r')" unfolding apart_accounts_def by blast
  moreover have "sorted (map ar_account (rg_accounts r'))" by (simp add: reg(2))
  ultimately show ?thesis using old(2) reg(1,3) clean members by (simp add: registry_ok_def)
qed

lemma members_registered:
  assumes "strip (rg_portfolio r) = rg_portfolio r"
  shows "set (rg_accounts (run_lossy register r as)) \<subseteq> set (rg_accounts r) \<union> set as"
  using assms
proof (induction as arbitrary: r)
  case (Cons a as)
  show ?case
  proof (cases "register r a")
    case (Inr r')
    note reg = registered [OF Inr Cons.prems]
    have "set (rg_accounts (run_lossy register r' as)) \<subseteq> set (rg_accounts r') \<union> set as"
      by (rule Cons.IH) (simp add: reg(1) Cons.prems)
    then show ?thesis using reg(2) Inr by auto
  qed (use Cons.IH [OF Cons.prems] in auto)
qed simp

lemma strip_items: "x \<in> set (sort (remdups (filter P (map strip xs)))) \<Longrightarrow> strip x = x"
  by auto

lemma identifiers_stripped: "mk_account_registration raw = Inr a \<Longrightarrow> x \<in> identifiers a \<Longrightarrow> strip x = x"
  by (auto simp: mk_account_registration_def identifiers_def Let_def)

lemma get_account_unique:
  assumes "apart_accounts (rg_accounts r)" "a \<in> set (rg_accounts r)" "x \<in> identifiers a" "strip x = x"
  shows "get_account r x = Inr a"
proof -
  have hit: "ar_account a = x \<or> x \<in> set (ar_aliases a)" using assms(3) by (auto simp: identifiers_def)
  then obtain b where b: "find (\<lambda>b. ar_account b = x \<or> x \<in> set (ar_aliases b)) (rg_accounts r) = Some b"
    using assms(2) by (cases "find (\<lambda>b. ar_account b = x \<or> x \<in> set (ar_aliases b)) (rg_accounts r)") (auto simp: find_None_iff)
  then have "b \<in> set (rg_accounts r)" "x \<in> identifiers b" by (auto simp: find_Some_iff identifiers_def)
  then have "b = a" using assms(1-3) unfolding apart_accounts_def by blast
  then show ?thesis using b assms(4) by (simp add: get_account_def)
qed

text \<open>C38: Identities never collide in a registry.  Whatever validated accounts are offered for registration, in whatever order and with refusals in between, every registered account is found under its id and under each of its aliases, no evidence is bound to two accounts, all accounts share one date, and an account with the legacy id DEFAULT is alone.\<close>

theorem registry_keeps_identities_apart:
  assumes "\<forall>a \<in> set as. \<exists>raw. mk_account_registration raw = Inr a" "mk_account_registry p [] = Inr r0"
  shows "let r = run_lossy register r0 as in
    (\<forall>a \<in> set (rg_accounts r). \<forall>x \<in> identifiers a. get_account r x = Inr a)
    \<and> (\<forall>a \<in> set (rg_accounts r). \<forall>b \<in> set (rg_accounts r). a \<noteq> b \<longrightarrow> set (ar_refs a) \<inter> set (ar_refs b) = {})
    \<and> (\<forall>a \<in> set (rg_accounts r). registry_as_of r = Some (ar_as_of a))
    \<and> (\<forall>a \<in> set (rg_accounts r). upper (ar_account a) = ''DEFAULT'' \<longrightarrow> rg_accounts r = [a])"
proof -
  let ?r = "run_lossy register r0 as"
  have r0: "rg_accounts r0 = []" "strip (rg_portfolio r0) = rg_portfolio r0"
    using assms(2) by (auto simp: mk_account_registry_def Let_def)
  then have "registry_ok r0" by (simp add: registry_ok_def apart_accounts_def)
  then have "registry_ok ?r" by (rule run_lossy_invariant [OF register_ok, rotated 2])
  then have ok: "apart_accounts (rg_accounts ?r)" by (simp add: registry_ok_def)
  have "set (rg_accounts ?r) \<subseteq> set as" using members_registered [OF r0(2), of as] r0(1) by simp
  then have "\<forall>a \<in> set (rg_accounts ?r). \<forall>x \<in> identifiers a. get_account ?r x = Inr a"
  proof (intro ballI)
    fix a x assume a: "a \<in> set (rg_accounts ?r)" "x \<in> identifiers a"
    with \<open>set (rg_accounts ?r) \<subseteq> set as\<close> assms(1) obtain raw where "mk_account_registration raw = Inr a" by blast
    then have "strip x = x" using a(2) by (rule identifiers_stripped)
    with a show "get_account ?r x = Inr a" by (rule get_account_unique [OF ok])
  qed
  moreover have "\<forall>a \<in> set (rg_accounts ?r). registry_as_of ?r = Some (ar_as_of a)"
  proof
    fix a assume a: "a \<in> set (rg_accounts ?r)"
    then obtain b bs where b: "rg_accounts ?r = b # bs" by (cases "rg_accounts ?r") simp_all
    then have "b \<in> set (rg_accounts ?r)" by simp
    with ok a have "ar_as_of b = ar_as_of a" unfolding apart_accounts_def by blast
    with b show "registry_as_of ?r = Some (ar_as_of a)" by (simp add: registry_as_of_def)
  qed
  ultimately show ?thesis using ok unfolding Let_def apart_accounts_def by blast
qed


subsection \<open>Matched transfers conserve what they move\<close>

lemma dround_eq_0: "dround x = 0 \<longleftrightarrow> x = 0"
  using dround_pos [of x] dround_pos [of "- x"] by (cases x "0 :: rat" rule: linorder_cases) auto

lemma matched_cash:
  assumes "validate_internal_transfer (Some s) (Some d) tid fee fx = Inr e" "tv_status e = MATCHED" "tl_asset s = CASH_ASSET"
  shows "tl_account s \<noteq> tl_account d \<and> tl_asset d = CASH_ASSET \<and> tl_amount s < 0 \<and> 0 < tl_amount d
    \<and> upper (tl_currency s) = upper (tl_currency d) \<and> tv_fee e = dsub (dabs (tl_amount s)) (tl_amount d)
    \<and> 0 \<le> tv_fee e \<and> tv_fee e \<le> fee"
  using assms unfolding validate_internal_transfer_def Let_def option.case prod.case
  by (simp add: not_le not_less split: if_split_asm option.split_asm) (clarsimp simp: not_le not_less)+

lemma matched_security:
  assumes "validate_internal_transfer (Some s) (Some d) tid fee fx = Inr e" "tv_status e = MATCHED" "tl_asset s = SECURITY_ASSET"
  shows "tl_account s \<noteq> tl_account d \<and> tl_asset d = SECURITY_ASSET
    \<and> upper (case tl_symbol s of None \<Rightarrow> [] | Some x \<Rightarrow> x) = upper (case tl_symbol d of None \<Rightarrow> [] | Some x \<Rightarrow> x)
    \<and> (case tl_quantity s of None \<Rightarrow> 0 | Some x \<Rightarrow> x) < 0
    \<and> dabs (case tl_quantity s of None \<Rightarrow> 0 | Some x \<Rightarrow> x) = (case tl_quantity d of None \<Rightarrow> 0 | Some x \<Rightarrow> x)"
  using assms unfolding validate_internal_transfer_def Let_def option.case prod.case
  by (simp add: not_le not_less split: if_split_asm) clarsimp+

text \<open>A matched transfer neither creates nor destroys anything.  Under the default fee policy, two validated legs are reported as MATCHED only if they belong to different accounts and have the same kind of asset, and then, for cash, the currencies agree, money leaves the source and the two amounts cancel exactly, and for a security the symbols agree, shares leave the source and the two quantities cancel exactly (for legs whose amounts have at most 28 digits).\<close>

theorem matched_transfer_conserves:
  assumes "validate_internal_transfer (Some s) (Some d) tid 0 fx = Inr e" "tv_status e = MATCHED"
    and "mk_transfer_leg s = Inr s" "dec28 (tl_amount s)" "\<forall>q. tl_quantity s = Some q \<longrightarrow> dec28 q"
  shows "tl_account s \<noteq> tl_account d \<and> tl_asset s = tl_asset d \<and>
    (if tl_asset s = CASH_ASSET
     then upper (tl_currency s) = upper (tl_currency d) \<and> tl_amount s < 0 \<and> tl_amount s + tl_amount d = 0 \<and> tv_fee e = 0
     else map_option upper (tl_symbol s) = map_option upper (tl_symbol d)
       \<and> (\<exists>p q. tl_quantity s = Some p \<and> tl_quantity d = Some q \<and> p < 0 \<and> p + q = 0))"
proof (cases "tl_asset s = CASH_ASSET")
  case True
  note m = matched_cash [OF assms(1,2) True]
  then have "dsub (dabs (tl_amount s)) (tl_amount d) = 0" by simp
  then have "dabs (tl_amount s) - tl_amount d = 0" by (simp add: dsub_def dround_eq_0)
  then show ?thesis using m True assms(4) by (simp add: dabs_exact)
next
  case False
  then have sec: "tl_asset s = SECURITY_ASSET" and sym: "\<exists>x. tl_symbol s = Some x \<and> \<not> blank x"
    using assms(3) by (cases "tl_asset s"; auto simp: mk_transfer_leg_def split: option.splits)+
  note m = matched_security [OF assms(1,2) sec]
  obtain p where p: "tl_quantity s = Some p" "p < 0" using m by (cases "tl_quantity s") auto
  then have "dabs p = - p" using assms(5) by (simp add: dabs_exact)
  then have "(case tl_quantity d of None \<Rightarrow> 0 | Some x \<Rightarrow> x) = - p" using m p by simp
  then have q: "tl_quantity d = Some (- p)" using p(2) by (cases "tl_quantity d") auto
  obtain x where x: "tl_symbol s = Some x" "\<not> blank x" using sym by blast
  then have "upper x = upper (case tl_symbol d of None \<Rightarrow> [] | Some y \<Rightarrow> y)" "x \<noteq> []" using m by (auto simp: blank_def)
  then have "map_option upper (tl_symbol s) = map_option upper (tl_symbol d)"
    using x by (cases "tl_symbol d") (auto simp: upper_def)
  then show ?thesis using m p q sec by simp
qed

text \<open>Across currencies the amounts are not compared with the rate: any outflow matches any inflow.\<close>

lemma cross_currency_amounts_unchecked:
  assumes "strip tid \<noteq> []" "tl_account s \<noteq> tl_account d" "tl_asset s = CASH_ASSET" "tl_asset d = CASH_ASSET"
    and "tl_amount s < 0" "0 < tl_amount d" "upper (tl_currency s) \<noteq> upper (tl_currency d)" "0 < x"
  shows "\<exists>e. validate_internal_transfer (Some s) (Some d) tid fee (Some x) = Inr e \<and> tv_status e = MATCHED_CROSS_CURRENCY"
  using assms by (simp add: validate_internal_transfer_def Let_def)

subsection \<open>Consolidation covers every account\<close>

lemma consolidate_account_Inr:
  assumes "consolidate_account vals reporting rates t a s = Inr s'"
  obtains v fx where "vals (ar_account a) = Some v" "pv_as_of v = t" "pv_account v = ar_account a" "0 < fx"
    "checked_fx upper rates t (upper (pv_base v)) reporting = Inr fx"
    "cs_navs s' = dict_put (ar_account a) (dmul (pv_nav v) fx) (cs_navs s)"
    "cs_net s' = dadd (cs_net s) (dmul (pv_total_net v) fx)" "cs_gross s' = dadd (cs_gross s) (dmul (pv_total_gross v) fx)"
  using assms by (auto simp: consolidate_account_def lift_fx_def checked_fx_pos split: option.splits sum.splits)


lemma dict_get_appended:
  "dict_wf d \<Longrightarrow> k \<notin> fst ` set d \<Longrightarrow> dict_put k v d = d @ [(k, v)]"
  by (simp add: dict_put_fresh dict_get_def map_of_eq_None_iff)

definition covered ::
    "(string \<Rightarrow> portfolio_valuation option) \<Rightarrow> string \<Rightarrow> fx_table \<Rightarrow> int \<Rightarrow> account_registration \<Rightarrow> string \<times> dec \<Rightarrow> bool" where
  "covered vals reporting rates t a kv \<longleftrightarrow> fst kv = ar_account a \<and>
     (\<exists>v fx. vals (ar_account a) = Some v \<and> pv_as_of v = t \<and> pv_account v = ar_account a \<and> 0 < fx
        \<and> checked_fx upper rates t (upper (pv_base v)) reporting = Inr fx \<and> snd kv = dmul (pv_nav v) fx)"

lemma consolidate_accounts_Inr:
  assumes "consolidate_accounts vals reporting rates t as s = Inr s'"
    and "dict_wf (cs_navs s)" "distinct (map ar_account as)" "fst ` set (cs_navs s) \<inter> ar_account ` set as = {}"
    and "\<forall>i v. vals i = Some v \<longrightarrow> \<bar>pv_total_net v\<bar> \<le> pv_total_gross v" "\<bar>cs_net s\<bar> \<le> cs_gross s"
  shows "\<exists>navs. cs_navs s' = cs_navs s @ navs \<and> list_all2 (covered vals reporting rates t) as navs
    \<and> \<bar>cs_net s'\<bar> \<le> cs_gross s'"
  using assms
proof (induction as arbitrary: s)
  case (Cons a as)
  obtain s1 where s1: "consolidate_account vals reporting rates t a s = Inr s1"
    and rest: "consolidate_accounts vals reporting rates t as s1 = Inr s'"
    using Cons.prems(1) by (auto simp: rbind_Inr_iff)
  obtain v fx where v: "vals (ar_account a) = Some v" "pv_as_of v = t" "pv_account v = ar_account a" "0 < fx"
    "checked_fx upper rates t (upper (pv_base v)) reporting = Inr fx"
    "cs_navs s1 = dict_put (ar_account a) (dmul (pv_nav v) fx) (cs_navs s)"
    "cs_net s1 = dadd (cs_net s) (dmul (pv_total_net v) fx)" "cs_gross s1 = dadd (cs_gross s) (dmul (pv_total_gross v) fx)"
    by (rule consolidate_account_Inr [OF s1])
  let ?kv = "(ar_account a, dmul (pv_nav v) fx)"
  have navs: "cs_navs s1 = cs_navs s @ [?kv]"
    using v(6) dict_get_appended [OF Cons.prems(2)] Cons.prems(4) by auto
  have "\<bar>dmul (pv_total_net v) fx\<bar> \<le> dmul (pv_total_gross v) fx"
    using abs_dmul_le Cons.prems(5) v(1,4) by blast
  then have "\<bar>cs_net s + dmul (pv_total_net v) fx\<bar> \<le> cs_gross s + dmul (pv_total_gross v) fx"
    using Cons.prems(6) by linarith
  then have bound: "\<bar>cs_net s1\<bar> \<le> cs_gross s1" unfolding v(7,8) dadd_def by (rule abs_dround_le)
  have "\<exists>more. cs_navs s' = cs_navs s1 @ more \<and> list_all2 (covered vals reporting rates t) as more \<and> \<bar>cs_net s'\<bar> \<le> cs_gross s'"
  proof (rule Cons.IH [OF rest _ _ _ Cons.prems(5) bound])
    show "dict_wf (cs_navs s1)" using v(6) Cons.prems(2) by (simp add: dict_wf_put)
  qed (use Cons.prems(3,4) navs in auto)
  then obtain more where "cs_navs s' = cs_navs s1 @ more" "list_all2 (covered vals reporting rates t) as more"
    "\<bar>cs_net s'\<bar> \<le> cs_gross s'" by blast
  moreover have "covered vals reporting rates t a ?kv" using v by (simp add: covered_def)
  ultimately show ?case using navs by (intro exI [of _ "?kv # more"]) simp
qed simp

text \<open>A consolidated valuation covers exactly the registered accounts.  When the consolidation of a registry is returned, the net asset values it lists are those of the registered accounts, each once and in order, each taken from a valuation of that very account on the common date and converted at a positive rate into the reporting currency; the consolidated value is their sum, and if no account's net position value exceeds its gross, neither does the portfolio's.\<close>

theorem consolidation_covers_accounts:
  assumes "consolidate_portfolio_valuations r vals currency rates = Inr c" "registry_ok r"
    and "\<forall>i v. vals i = Some v \<longrightarrow> \<bar>pv_total_net v\<bar> \<le> pv_total_gross v"
  shows "registry_as_of r = Some (cv_as_of c)
    \<and> list_all2 (covered vals (cv_base c) rates (cv_as_of c)) (rg_accounts r) (cv_nav_by_account c)
    \<and> cv_nav c = dsum (map snd (cv_nav_by_account c)) \<and> \<bar>cv_net c\<bar> \<le> cv_gross c"
proof -
  let ?s0 = "\<lparr>cs_navs = [], cs_cash = 0, cs_net = 0, cs_gross = 0, cs_cash_local = [], cs_pos_local = []\<rparr>"
  obtain t where t: "registry_as_of r = Some t"
    using assms(1) by (cases "registry_as_of r") (auto simp: consolidate_portfolio_valuations_def)
  obtain s where s: "consolidate_accounts vals (clean_text currency) rates t (rg_accounts r) ?s0 = Inr s"
    and c: "cv_as_of c = t" "cv_base c = clean_text currency" "cv_nav_by_account c = cs_navs s"
      "cv_nav c = dsum (dict_values (cs_navs s))" "cv_net c = cs_net s" "cv_gross c = cs_gross s"
    using assms(1) t by (auto simp: consolidate_portfolio_valuations_def Let_def rbind_Inr_iff)
  have "distinct (map ar_account (rg_accounts r))" using assms(2) by (simp add: registry_ok_def apart_accounts_def)
  then obtain navs where "cs_navs s = navs" "list_all2 (covered vals (clean_text currency) rates t) (rg_accounts r) navs"
    "\<bar>cs_net s\<bar> \<le> cs_gross s"
    using consolidate_accounts_Inr [OF s _ _ _ assms(3)] by (auto simp: dict_wf_def)
  with t c show ?thesis by (simp add: dict_values_def)
qed


subsection \<open>Two accounts\<close>

definition sample_registration :: "string \<Rightarrow> string \<Rightarrow> account_registration" where
  "sample_registration i alias = \<lparr>ar_portfolio = ''P'', ar_account = i, ar_source = ''S'', ar_as_of = 7, ar_base = ''USD'',
     ar_refs = [i], ar_aliases = [alias]\<rparr>"

lemma registry_texts: "strip ''P'' = ''P''" "strip ''S'' = ''S''" "strip ''A'' = ''A''" "strip ''B'' = ''B''" "strip ''X'' = ''X''"
  "strip ''Y'' = ''Y''" "strip ''USD'' = ''USD''" "upper ''USD'' = ''USD''" "upper ''A'' = ''A''" "upper ''B'' = ''B''" "currency_ok ''USD''"
  by (simp_all add: string_eval currency_ok_def is_alpha_def)

lemma sample_registered:
  "mk_account_registration (sample_registration ''A'' ''X'') = Inr (sample_registration ''A'' ''X'')"
  "mk_account_registration (sample_registration ''B'' ''Y'') = Inr (sample_registration ''B'' ''Y'')"
  by (simp_all add: mk_account_registration_def sample_registration_def registry_texts Let_def)

definition two_accounts :: account_registry where
  "two_accounts = \<lparr>rg_portfolio = ''P'', rg_accounts = [sample_registration ''A'' ''X'', sample_registration ''B'' ''Y'']\<rparr>"

text \<open>The second offer of the same account is refused.\<close>

lemma two_accounts_run:
  "run_lossy register \<lparr>rg_portfolio = ''P'', rg_accounts = []\<rparr>
    [sample_registration ''B'' ''Y'', sample_registration ''B'' ''Y'', sample_registration ''A'' ''X''] = two_accounts"
  by (simp add: register_def mk_account_registry_def colliding_def sample_registration_def registry_texts two_accounts_def Let_def)

theorem registry_keeps_identities_apart_witness:
  "get_account two_accounts ''Y'' = Inr (sample_registration ''B'' ''Y'') \<and> registry_as_of two_accounts = Some 7"
proof -
  let ?as = "[sample_registration ''B'' ''Y'', sample_registration ''B'' ''Y'', sample_registration ''A'' ''X'']"
  have made: "\<forall>a \<in> set ?as. \<exists>raw. mk_account_registration raw = Inr a" using sample_registered by auto
  have empty: "mk_account_registry ''P'' [] = Inr \<lparr>rg_portfolio = ''P'', rg_accounts = []\<rparr>"
    by (simp add: mk_account_registry_def registry_texts)
  let ?b = "sample_registration ''B'' ''Y''"
  have b: "?b \<in> set (rg_accounts two_accounts)" "''Y'' \<in> identifiers ?b" "ar_as_of ?b = 7"
    by (simp_all add: two_accounts_def identifiers_def sample_registration_def)
  from registry_keeps_identities_apart [OF made empty] show ?thesis
    unfolding Let_def two_accounts_run using b by metis
qed

definition sample_leg :: "string \<Rightarrow> dec \<Rightarrow> transfer_leg" where
  "sample_leg i x = \<lparr>tl_account = i, tl_source = ''S'', tl_tx = ''T'', tl_date = 7, tl_currency = ''USD'', tl_amount = x,
     tl_asset = CASH_ASSET, tl_symbol = None, tl_quantity = None, tl_evidence = [], tl_settled = True\<rparr>"

theorem matched_transfer_conserves_witness:
  "\<exists>e. validate_internal_transfer (Some (sample_leg ''A'' (- 5))) (Some (sample_leg ''B'' 5)) ''P'' 0 None = Inr e
     \<and> tv_status e = MATCHED \<and> tl_amount (sample_leg ''A'' (- 5)) + tl_amount (sample_leg ''B'' 5) = 0"
proof -
  let ?s = "sample_leg ''A'' (- 5)" and ?d = "sample_leg ''B'' 5"
  have five: "dabs (- 5) = 5" using dround_small_int [of 5] by (simp add: dabs_def)
  obtain e where e: "validate_internal_transfer (Some ?s) (Some ?d) ''P'' 0 None = Inr e" "tv_status e = MATCHED"
    by (simp add: validate_internal_transfer_def sample_leg_def registry_texts five Let_def)
  have "mk_transfer_leg ?s = Inr ?s" by (simp add: mk_transfer_leg_def sample_leg_def blank_def registry_texts string_eval)
  moreover have "dec28 (tl_amount ?s)" using dec28_of_int [of "-5"] by (simp add: sample_leg_def)
  ultimately show ?thesis using matched_transfer_conserves [OF e] e by (simp add: sample_leg_def)
qed

definition cash_valuation :: "string \<Rightarrow> portfolio_valuation" where
  "cash_valuation i = \<lparr>pv_as_of = 7, pv_base = ''USD'', pv_account = i, pv_cash_local = [(''USD'', 5)],
     pv_cash_base = [(''USD'', 5)], pv_total_cash = 5, pv_positions = [], pv_total_gross = 0, pv_total_net = 0, pv_nav = 5\<rparr>"

theorem consolidation_covers_accounts_witness:
  "\<exists>c. consolidate_portfolio_valuations two_accounts (\<lambda>i. Some (cash_valuation i)) (Some ''USD'') (\<lambda>_. None) = Inr c
     \<and> cv_nav_by_account c = [(''A'', 5), (''B'', 5)] \<and> cv_nav c = 10 \<and> \<bar>cv_net c\<bar> \<le> cv_gross c"
proof -
  have r: "dround 5 = 5" "dround 10 = 10" "dround 1 = 1" by (simp_all add: dec_eval)
  have u: "clean_text (Some ''USD'') = ''USD''" by (simp add: clean_text_def registry_texts)
  obtain c where c: "consolidate_portfolio_valuations two_accounts (\<lambda>i. Some (cash_valuation i)) (Some ''USD'') (\<lambda>_. None) = Inr c"
    "cv_nav_by_account c = [(''A'', 5), (''B'', 5)]" "cv_nav c = 10"
    by (simp add: consolidate_portfolio_valuations_def registry_as_of_def two_accounts_def sample_registration_def u registry_texts
        consolidate_account_def cash_valuation_def lift_fx_def checked_fx_def dmul_def dadd_def dsum_def r dict_values_def
        add_value_def currency_line_def ddiv_def Let_def)
  have "registry_ok two_accounts"
    by (simp add: registry_ok_def apart_accounts_def two_accounts_def sample_registration_def identifiers_def registry_texts)
  from consolidation_covers_accounts [OF c(1) this] c show ?thesis by (simp add: cash_valuation_def)
qed

end
