(* ===== verification/ShadowLedger.thy ===== *)
theory ShadowLedger
  imports Portfolio
begin

section \<open>The shadow ledger of the back-test\<close>

text \<open>
  \<open>backtest/accounting.py\<close>: a second, independent book of the fills of a back-test.  It keeps two
  views of equity, a balance sheet (cash and market values) and a performance attribution
  (starting cash, profits and fees), and raises when they differ by more than a tolerance.  The
  methods mutate the ledger, and a raise keeps what was already written, so an operation returns
  the ledger together with its result.
\<close>

subsection \<open>State\<close>

datatype ledger_error = LedgerContractError string

record shadow_position =
  sh_symbol :: string
  sh_quantity :: dec
  sh_avg_entry :: dec
  sh_market_price :: dec
  sh_multiplier :: dec
  sh_realized :: dec
  sh_unrealized :: dec

definition sh_is_flat :: "shadow_position \<Rightarrow> bool" where
  "sh_is_flat p \<longleftrightarrow> sh_quantity p = 0"

definition position_value :: "shadow_position \<Rightarrow> dec" where
  "position_value p = dmul (dmul (sh_quantity p) (sh_market_price p)) (sh_multiplier p)"

record shadow_ledger =
  sl_starting_cash :: dec
  sl_base_currency :: string
  sl_cash :: dec
  sl_positions :: "(string, shadow_position) dict"
  sl_external_flows :: dec
  sl_realized :: dec
  sl_fees :: dec
  sl_financing :: dec

definition mk_shadow_ledger :: "dec \<Rightarrow> string \<Rightarrow> ledger_error + shadow_ledger" where
  "mk_shadow_ledger starting_cash currency =
     (if starting_cash \<le> 0 then Inl (LedgerContractError ''starting_cash'')
      else Inr \<lparr>sl_starting_cash = starting_cash, sl_base_currency = currency,
                sl_cash = starting_cash, sl_positions = [], sl_external_flows = 0,
                sl_realized = 0, sl_fees = 0, sl_financing = 0\<rparr>)"

subsection \<open>The two views of equity\<close>

definition accounting_tolerance :: dec where
  "accounting_tolerance = 1 / 10 ^ 10"

definition balance_sheet_equity :: "shadow_ledger \<Rightarrow> dec" where
  "balance_sheet_equity l = dadd (sl_cash l) (dsum (map position_value (dict_values (sl_positions l))))"

definition attribution_equity :: "shadow_ledger \<Rightarrow> dec" where
  "attribution_equity l =
     dsub (dsub (dadd (dadd (dadd (sl_starting_cash l) (sl_external_flows l)) (sl_realized l))
       (dsum (map sh_unrealized (dict_values (sl_positions l))))) (sl_fees l)) (sl_financing l)"

definition verify_internal_conservation :: "shadow_ledger \<Rightarrow> ledger_error + unit" where
  "verify_internal_conservation l =
     (if accounting_tolerance < dabs (dsub (balance_sheet_equity l) (attribution_equity l))
      then Inl (LedgerContractError ''conservation'') else Inr ())"

definition verify_substrate_equity :: "shadow_ledger \<Rightarrow> dec \<Rightarrow> ledger_error + dec" where
  "verify_substrate_equity l substrate =
     (let residual = dabs (dsub (balance_sheet_equity l) substrate)
      in if accounting_tolerance < residual then Inl (LedgerContractError ''substrate'')
         else Inr residual)"

subsection \<open>Market prices\<close>

definition update_market_price ::
    "shadow_ledger \<Rightarrow> string \<Rightarrow> dec \<Rightarrow> shadow_ledger \<times> (ledger_error + unit)" where
  "update_market_price l sy price =
     (case dict_get (sl_positions l) sy of
        None \<Rightarrow> (l, Inr ())
      | Some p \<Rightarrow>
          let u = (if sh_is_flat p then 0
                   else dmul (dmul (sh_quantity p) (dsub price (sh_avg_entry p))) (sh_multiplier p));
              l' = l\<lparr>sl_positions :=
                dict_put sy (p\<lparr>sh_market_price := price, sh_unrealized := u\<rparr>) (sl_positions l)\<rparr>
          in (l', verify_internal_conservation l'))"

subsection \<open>Fills\<close>

definition fresh_position :: "string \<Rightarrow> dec \<Rightarrow> dec \<Rightarrow> shadow_position" where
  "fresh_position sy price m =
     \<lparr>sh_symbol = sy, sh_quantity = 0, sh_avg_entry = 0, sh_market_price = price,
      sh_multiplier = m, sh_realized = 0, sh_unrealized = 0\<rparr>"

text \<open>The entry price and the realized profit of each scenario, from the old signed quantity
  \<open>oq\<close>, the signed fill \<open>d\<close>, its size \<open>fq\<close> and the new quantity \<open>nq\<close>.\<close>

definition fill_scenario ::
    "dec \<Rightarrow> dec \<Rightarrow> dec \<Rightarrow> dec \<Rightarrow> dec \<Rightarrow> dec \<Rightarrow> dec \<Rightarrow> dec \<times> dec" where
  "fill_scenario avg oq d fq fp nq m =
     (if oq = 0 then (fp, 0)
      else if 0 < oq \<and> 0 < d \<or> oq < 0 \<and> d < 0 then
        (ddiv (dadd (dmul (dabs oq) avg) (dmul fq fp)) (dabs nq), 0)
      else if 0 < oq \<and> d < 0 \<or> oq < 0 \<and> 0 < d then
        (let closed = min (dabs oq) fq;
             r = (if 0 < oq then dmul (dmul closed (dsub fp avg)) m
                  else dmul (dmul closed (dsub avg fp)) m);
             a = (if dabs nq = 0 then 0
                  else if 0 < oq \<and> 0 < nq \<or> oq < 0 \<and> nq < 0 then avg
                  else fp)
         in (a, r))
      else (fp, 0))"

definition fill_shadow_position ::
    "string \<Rightarrow> shadow_position \<Rightarrow> dec \<Rightarrow> dec \<Rightarrow> dec \<Rightarrow> dec \<Rightarrow> shadow_position \<times> dec" where
  "fill_shadow_position sy p d fp fq m =
     (let nq = dadd (sh_quantity p) d;
          (avg, r) = fill_scenario (sh_avg_entry p) (sh_quantity p) d fq fp nq m;
          u = (if nq = 0 then 0 else dmul (dmul nq (dsub fp avg)) m)
      in (\<lparr>sh_symbol = sy, sh_quantity = nq, sh_avg_entry = avg, sh_market_price = fp,
           sh_multiplier = m, sh_realized = dadd (sh_realized p) r, sh_unrealized = u\<rparr>, r))"

definition current_position :: "shadow_ledger \<Rightarrow> string \<Rightarrow> dec \<Rightarrow> dec \<Rightarrow> shadow_position" where
  "current_position l sy fp m =
     (case dict_get (sl_positions l) sy of Some p \<Rightarrow> p | None \<Rightarrow> fresh_position sy fp m)"

definition book_fill ::
    "shadow_ledger \<Rightarrow> string \<Rightarrow> dec \<Rightarrow> dec \<Rightarrow> dec \<Rightarrow> dec \<Rightarrow> dec \<Rightarrow> shadow_ledger \<times> dec" where
  "book_fill l sy d fp fq fee m =
     (let (p', r) = fill_shadow_position sy (current_position l sy fp m) d fp fq m
      in (l\<lparr>sl_cash := dsub (sl_cash l) (dadd (dmul (dmul d fp) m) fee),
            sl_realized := dadd (sl_realized l) r,
            sl_fees := dadd (sl_fees l) fee,
            sl_positions := dict_put sy p' (sl_positions l)\<rparr>, r))"

definition process_fill ::
    "shadow_ledger \<Rightarrow> string \<Rightarrow> string \<Rightarrow> dec \<Rightarrow> dec \<Rightarrow> dec \<Rightarrow> dec
     \<Rightarrow> shadow_ledger \<times> (ledger_error + dec \<times> dec)" where
  "process_fill l sy side fp fq fee m =
     (if fq \<le> 0 then (l, Inl (LedgerContractError ''fill_qty''))
      else if fp \<le> 0 then (l, Inl (LedgerContractError ''fill_price''))
      else if fee < 0 then (l, Inl (LedgerContractError ''fee_paid''))
      else if m \<le> 0 then (l, Inl (LedgerContractError ''multiplier''))
      else if upper side \<noteq> ''BUY'' \<and> upper side \<noteq> ''SELL'' then (l, Inl (LedgerContractError ''side''))
      else
        let d = (if upper side = ''BUY'' then fq else dneg fq);
            (l', r) = book_fill l sy d fp fq fee m
        in (l', rbind (verify_internal_conservation l') (\<lambda>_. Inr (r, balance_sheet_equity l'))))"

subsection \<open>The shadow ledger and the domain portfolio\<close>

text \<open>A shadow position and a domain position that describe the same holding.\<close>

definition mirrors_position :: "shadow_position \<Rightarrow> position \<Rightarrow> bool" where
  "mirrors_position sp p \<longleftrightarrow>
     sh_quantity sp = pos_quantity p \<and> sh_avg_entry sp = pos_entry_price p \<and>
     sh_market_price sp = pos_current_price p \<and> sh_multiplier sp = 1 \<and>
     sh_realized sp = pos_realized_pnl p \<and> sh_unrealized sp = pos_unrealized_pnl p \<and>
     position_ok p \<and> dec28 (pos_quantity p) \<and> dec28 (pos_realized_pnl p)"

definition mirrors_entry :: "string \<times> shadow_position \<Rightarrow> string \<times> position \<Rightarrow> bool" where
  "mirrors_entry x y \<longleftrightarrow> fst x = fst y \<and> mirrors_position (snd x) (snd y)"

definition mirrors :: "shadow_ledger \<Rightarrow> portfolio \<Rightarrow> bool" where
  "mirrors l s \<longleftrightarrow>
     sl_cash l = pf_cash_balance s \<and>
     list_all2 mirrors_entry (sl_positions l) (pf_positions s)"

definition side_text :: "order_side \<Rightarrow> string" where
  "side_text s = (case s of BUY \<Rightarrow> ''BUY'' | SELL \<Rightarrow> ''SELL'')"

definition book_domain_fill :: "shadow_ledger \<Rightarrow> fill \<Rightarrow> shadow_ledger \<times> (ledger_error + dec \<times> dec)" where
  "book_domain_fill l f =
     process_fill l (fill_symbol f) (side_text (fill_side f)) (fill_price f) (fill_quantity f) (fill_fee f) 1"

lemma upper_side_text [simp]: "upper (side_text s) = side_text s"
  by (cases s) (simp_all add: side_text_def upper_def upper_char_def)

lemma book_domain_fill_booked:
  assumes "fill_ok f" and "dec28 (fill_quantity f)"
  shows "fst (book_domain_fill l f) =
    fst (book_fill l (fill_symbol f) (signed_quantity f) (fill_price f) (fill_quantity f) (fill_fee f) 1)"
  using assms
  by (cases "fill_side f")
    (auto simp: book_domain_fill_def process_fill_def fill_ok_def side_text_def signed_quantity_def
      dneg_exact upper_def upper_char_def split: prod.splits)

lemma dmul_1 [simp]: "dmul (dmul a b) 1 = dmul a b"
  by (simp add: dmul_def)

lemma dadd_0 [simp]: "dec28 a \<Longrightarrow> dadd a 0 = a"
  by (simp add: dadd_def dround_exact)

lemma dround_sign [simp]:
  "0 < dround x \<longleftrightarrow> 0 < x" "dround x < 0 \<longleftrightarrow> x < 0" "dround x = 0 \<longleftrightarrow> x = 0"
proof -
  have neg: "dround x < 0" if "x < 0" using dround_pos [of "- x"] that by simp
  show "0 < dround x \<longleftrightarrow> 0 < x" "dround x < 0 \<longleftrightarrow> x < 0" "dround x = 0 \<longleftrightarrow> x = 0"
    using dround_pos [of x] neg by (cases x "0 :: rat" rule: linorder_cases; force)+
qed

lemma dabs_dround [simp]: "dabs (dround x) = dround \<bar>x\<bar>"
  by (cases "0 \<le> x") (auto simp: dabs_exact not_le abs_if dec_ctx.rnd_nonneg)

text \<open>The position before the fill, on both sides: absent, or mirrored.\<close>

definition mirrors_current :: "shadow_position \<Rightarrow> position option \<Rightarrow> bool" where
  "mirrors_current sp cur \<longleftrightarrow>
     (case cur of None \<Rightarrow> sh_quantity sp = 0 \<and> sh_realized sp = 0 | Some p \<Rightarrow> mirrors_position sp p)"

lemmas mirror_simps =
  mirrors_position_def mirrors_current_def fill_shadow_position_def fill_scenario_def
  apply_fill_to_position_def quantities_ok_def fill_ok_def position_ok_def signed_quantity_def
  is_flat_def is_long_def mk_position_Inr dneg_exact dabs_exact Let_def dround_exact

lemma fill_mirrored_flat:
  assumes "quantities_ok cur f" and "mirrors_current sp cur" and "sh_quantity sp = 0"
  shows "\<exists>np. apply_fill_to_position cur f = Inr np \<and>
    mirrors_position (fst (fill_shadow_position (fill_symbol f) sp (signed_quantity f)
      (fill_price f) (fill_quantity f) 1)) np"
  using assms fill_ok_not_blank [of f]
  by (cases cur; cases "fill_side f") (auto simp: mirror_simps dadd_def)

lemma fill_mirrored_long:
  assumes "quantities_ok (Some p) f" and "mirrors_position sp p" and "is_long p"
  shows "\<exists>np. apply_fill_to_position (Some p) f = Inr np \<and>
    mirrors_position (fst (fill_shadow_position (fill_symbol f) sp (signed_quantity f)
      (fill_price f) (fill_quantity f) 1)) np"
proof -
  have long: "0 < pos_quantity p" using assms(3) by (simp add: is_long_def)
  note facts = assms long fill_ok_not_blank [of f]
  show ?thesis
  proof (cases "fill_side f")
    case BUY
    with facts show ?thesis by (simp add: mirror_simps)
  next
    case SELL
    consider "fill_quantity f < pos_quantity p" | "fill_quantity f = pos_quantity p"
      | "pos_quantity p < fill_quantity f" by linarith
    then show ?thesis
    proof cases
      case 1
      with SELL facts show ?thesis by (simp add: mirror_simps) (simp add: dadd_def dsub_def)
    next
      case 2
      with SELL facts show ?thesis by (simp add: mirror_simps) (simp add: dadd_def)
    next
      case 3
      have "dneg (dsub (fill_quantity f) (pos_quantity p)) = dadd (pos_quantity p) (- fill_quantity f)"
        by (simp add: dneg_exact) (simp add: dadd_def dsub_def flip: dround_minus)
      with 3 SELL facts show ?thesis by (simp add: mirror_simps) (simp add: dadd_def dsub_def)
    qed
  qed
qed

lemma fill_mirrored_short:
  assumes "quantities_ok (Some p) f" and "mirrors_position sp p" and "is_short p"
  shows "\<exists>np. apply_fill_to_position (Some p) f = Inr np \<and>
    mirrors_position (fst (fill_shadow_position (fill_symbol f) sp (signed_quantity f)
      (fill_price f) (fill_quantity f) 1)) np"
proof -
  have short: "pos_quantity p < 0" using assms(3) by (simp add: is_short_def)
  note facts = assms(1,2) short fill_ok_not_blank [of f]
  have neg: "dneg (dsub (- pos_quantity p) x) = dadd (pos_quantity p) x" for x
    by (simp add: dneg_exact) (simp add: dadd_def dsub_def add.commute flip: dround_minus)
  show ?thesis
  proof (cases "fill_side f")
    case SELL
    have "- dround (x - pos_quantity p) = dround (pos_quantity p - x)" for x
      using dround_minus [of "pos_quantity p - x"] by simp
    then have more: "dneg (dadd (- pos_quantity p) x) = dadd (pos_quantity p) (- x)"
      "dabs (dadd (pos_quantity p) (- x)) = dabs (dadd (- pos_quantity p) x)" for x
      by (simp_all add: dneg_exact) (simp_all add: dadd_def abs_minus_commute)
    have "0 < dadd (- pos_quantity p) (fill_quantity f)"
      using facts by (simp add: dadd_def mirror_simps)
    with SELL facts more show ?thesis by (simp add: mirror_simps)
  next
    case BUY
    consider "fill_quantity f < - pos_quantity p" | "fill_quantity f = - pos_quantity p"
      | "- pos_quantity p < fill_quantity f" by linarith
    then show ?thesis
    proof cases
      case 1
      with BUY facts neg show ?thesis by (simp add: mirror_simps) (simp add: dadd_def)
    next
      case 2
      with BUY facts show ?thesis by (simp add: mirror_simps) (simp add: dadd_def)
    next
      case 3
      have "dsub (fill_quantity f) (- pos_quantity p) = dadd (pos_quantity p) (fill_quantity f)"
        by (simp add: dadd_def dsub_def add.commute)
      with 3 BUY facts show ?thesis by (simp add: mirror_simps) (simp add: dadd_def)
    qed
  qed
qed

lemma fill_mirrored:
  assumes "quantities_ok cur f" and "mirrors_current sp cur"
  shows "\<exists>np. apply_fill_to_position cur f = Inr np \<and>
    mirrors_position (fst (fill_shadow_position (fill_symbol f) sp (signed_quantity f)
      (fill_price f) (fill_quantity f) 1)) np"
proof (cases cur)
  case None
  then show ?thesis using assms by (intro fill_mirrored_flat) (simp_all add: mirrors_current_def)
next
  case (Some p)
  then have m: "mirrors_position sp p" using assms(2) by (simp add: mirrors_current_def)
  show ?thesis
  proof (cases rule: position_sign_cases [of p])
    case 1
    then have "sh_quantity sp = 0" using m by (simp add: mirrors_position_def is_flat_def)
    then show ?thesis by (rule fill_mirrored_flat [OF assms])
  next
    case 2
    then show ?thesis using fill_mirrored_long [OF _ m] assms(1) Some by blast
  next
    case 3
    then show ?thesis using fill_mirrored_short [OF _ m] assms(1) Some by blast
  qed
qed

text \<open>Dictionaries related entry by entry are looked up and updated alike.\<close>

lemma mirrors_entry_pair [simp]: "mirrors_entry (k, sp) (k', p) \<longleftrightarrow> k = k' \<and> mirrors_position sp p"
  by (simp add: mirrors_entry_def)

lemma mirrors_entries_get:
  assumes "list_all2 mirrors_entry d e"
  shows "case dict_get e k of None \<Rightarrow> dict_get d k = None
      | Some p \<Rightarrow> (\<exists>sp. dict_get d k = Some sp \<and> mirrors_position sp p)"
  using assms
proof (induction rule: list_all2_induct)
  case (Cons x xs y ys)
  then show ?case by (cases x; cases y) (auto split: option.splits)
qed simp

lemma mirrors_entries_put:
  assumes "list_all2 mirrors_entry d e" and "mirrors_position sp p"
  shows "list_all2 mirrors_entry (dict_put k sp d) (dict_put k p e)"
  using assms
proof (induction rule: list_all2_induct)
  case (Cons x xs y ys)
  then show ?case by (cases x; cases y) (auto split: option.splits)
qed simp

lemma mirrors_entries_values:
  "list_all2 mirrors_entry d e \<Longrightarrow>
    map position_value (dict_values d) = map market_value (dict_values e)"
  by (induction rule: list_all2_induct)
    (auto simp: dict_values_def mirrors_entry_def mirrors_position_def position_value_def market_value_def)

lemma mirrors_equity:
  assumes "mirrors l s" and "portfolio_ok s"
  shows "balance_sheet_equity l = pf_total_equity s"
    and "verify_substrate_equity l (pf_total_equity s) = Inr 0"
proof -
  show eq: "balance_sheet_equity l = pf_total_equity s"
    using assms mirrors_entries_values [of "sl_positions l" "pf_positions s"]
    by (simp add: mirrors_def portfolio_ok_def balance_sheet_equity_def sum_market_value_def)
  show "verify_substrate_equity l (pf_total_equity s) = Inr 0"
    by (simp add: verify_substrate_equity_def eq accounting_tolerance_def dabs_def)
qed

definition bookable :: "fill \<Rightarrow> bool" where
  "bookable f \<longleftrightarrow> fill_ok f \<and> dec28 (fill_quantity f) \<and> upper (fill_symbol f) = fill_symbol f"

lemma mirrored_cash:
  assumes "fill_ok f" and "dec28 (fill_quantity f)"
  shows "dsub c (dadd (dmul (dmul (signed_quantity f) (fill_price f)) 1) (fill_fee f))
    = dadd c (cash_delta f)"
proof -
  define t where "t = dround (fill_price f * fill_quantity f)"
  have "dround (- t - fill_fee f) = - dround (t + fill_fee f)"
    "dround (t - fill_fee f) = - dround (fill_fee f - t)"
    using dround_minus [of "t + fill_fee f"] dround_minus [of "fill_fee f - t"] by simp_all
  moreover have "dround (fill_quantity f * fill_price f) = t" "dround t = t"
    by (simp_all add: t_def mult.commute)
  ultimately show ?thesis
    by (cases "fill_side f")
      (simp_all add: cash_delta_def signed_quantity_def dec_ops flip: t_def)
qed

lemma book_domain_fill_mirrors:
  assumes "portfolio_ok s" and "mirrors l s" and "bookable f"
  shows "\<exists>s'. apply_fill_to_portfolio s f = Inr s' \<and> portfolio_ok s' \<and> mirrors (fst (book_domain_fill l f)) s'"
proof -
  let ?sy = "fill_symbol f" and ?sp = "current_position l (fill_symbol f) (fill_price f) 1"
    and ?cur = "dict_get (pf_positions s) (fill_symbol f)"
  have f: "fill_ok f" "dec28 (fill_quantity f)" "upper ?sy = ?sy" using assms(3) by (simp_all add: bookable_def)
  have e: "list_all2 mirrors_entry (sl_positions l) (pf_positions s)" using assms(2) by (simp add: mirrors_def)
  have cur: "mirrors_current ?sp ?cur" "quantities_ok ?cur f"
    using mirrors_entries_get [OF e, of ?sy] f
    by (auto simp: mirrors_current_def current_position_def fresh_position_def quantities_ok_def
        mirrors_position_def split: option.splits)
  obtain np where np: "apply_fill_to_position ?cur f = Inr np"
    and m: "mirrors_position (fst (fill_shadow_position ?sy ?sp (signed_quantity f) (fill_price f)
      (fill_quantity f) 1)) np"
    using fill_mirrored [OF cur(2,1)] by blast
  obtain s' where s': "apply_fill_to_portfolio s f = Inr s'"
    and eq: "pf_positions s' = dict_put ?sy np (pf_positions s)"
      "pf_cash_balance s' = dadd (pf_cash_balance s) (cash_delta f)"
    using apply_fill_to_portfolio_Inr [OF assms(1) f(3) np] by (simp add: Let_def)
  have "portfolio_ok s'" using s' by (auto simp: apply_fill_to_portfolio_def Let_def intro: mk_portfolio_ok)
  moreover have "mirrors (fst (book_domain_fill l f)) s'"
    using assms(2) mirrors_entries_put [OF e m] mirrored_cash [OF f(1,2)]
    by (simp add: book_domain_fill_booked f mirrors_def eq book_fill_def split_def Let_def)
  ultimately show ?thesis using s' by blast
qed

definition book_fills :: "shadow_ledger \<Rightarrow> fill list \<Rightarrow> shadow_ledger" where
  "book_fills l fs = fold (\<lambda>f l. fst (book_domain_fill l f)) fs l"

lemma book_fills_mirrors:
  assumes "portfolio_ok s" and "mirrors l s" and "list_all bookable fs"
  shows "\<exists>s'. run_strict apply_fill_to_portfolio s fs = Inr s' \<and> portfolio_ok s' \<and>
    mirrors (book_fills l fs) s'"
  using assms
proof (induction fs arbitrary: l s)
  case Nil
  then show ?case by (simp add: book_fills_def)
next
  case (Cons f fs)
  obtain s1 where "apply_fill_to_portfolio s f = Inr s1" "portfolio_ok s1"
    "mirrors (fst (book_domain_fill l f)) s1"
    using book_domain_fill_mirrors [of s l f] Cons.prems by auto
  with Cons.IH [of s1 "fst (book_domain_fill l f)"] Cons.prems show ?case
    by (simp add: book_fills_def)
qed

subsection \<open>Properties of the mirror\<close>

text \<open>C3: The shadow ledger and the domain portfolio, two implementations of position accounting
  written apart, compute the same numbers, every intermediate rounding included: from a ledger
  that mirrors a consistent portfolio, any sequence of valid fills (with the default multiplier
  one, upper-case symbols and quantities of at most 28 digits) is accepted by the portfolio, leaves
  equal cash and, position by position, equal quantities, entry prices, market prices, realized
  and unrealized profit, and the ledger's check of the portfolio's equity reports a residual
  of exactly zero.\<close>

theorem shadow_ledger_mirrors_portfolio:
  assumes "portfolio_ok s" and "mirrors l s" and "list_all bookable fs"
  shows "\<exists>s'. run_strict apply_fill_to_portfolio s fs = Inr s' \<and>
     mirrors (book_fills l fs) s' \<and>
     balance_sheet_equity (book_fills l fs) = pf_total_equity s' \<and>
     verify_substrate_equity (book_fills l fs) (pf_total_equity s') = Inr 0"
  using book_fills_mirrors [OF assms] mirrors_equity by blast

text \<open>The ledger of the portfolio that holds ten shares at 100, through a sale of 15 at 110 and a
  purchase of 5 at 100.\<close>

definition sample_ledger_of_portfolio :: shadow_ledger where
  "sample_ledger_of_portfolio =
     \<lparr>sl_starting_cash = 6000, sl_base_currency = ''USD'', sl_cash = 5000,
      sl_positions = [(''SPY'', \<lparr>sh_symbol = ''SPY'', sh_quantity = 10, sh_avg_entry = 100,
        sh_market_price = 100, sh_multiplier = 1, sh_realized = 7, sh_unrealized = 0\<rparr>)],
      sl_external_flows = 0, sl_realized = 0, sl_fees = 0, sl_financing = 0\<rparr>"

lemma shadow_ledger_mirrors_portfolio_witness:
  "\<exists>s'. run_strict apply_fill_to_portfolio sample_portfolio [sample_fill SELL 110 15, sample_fill BUY 100 5]
       = Inr s' \<and>
     mirrors (book_fills sample_ledger_of_portfolio [sample_fill SELL 110 15, sample_fill BUY 100 5]) s'"
proof -
  have m: "mirrors sample_ledger_of_portfolio sample_portfolio"
    by (simp add: mirrors_def sample_ledger_of_portfolio_def mirrors_position_def portfolio_eval
        dec28_code dec_eval)
  have b: "list_all bookable [sample_fill SELL 110 15, sample_fill BUY 100 5]"
    by (simp add: bookable_def portfolio_eval dec28_code dec_eval)
  from shadow_ledger_mirrors_portfolio [OF sample_portfolio_ok m b] show ?thesis by blast
qed

end
