(* ===== verification/Rounding.thy ===== *)
theory Rounding
  imports PyDecimal
begin

section \<open>Accumulated rounding\<close>

text \<open>
  How far a computation in the 28-digit context drifts from exact arithmetic.  \<open>near k X x a\<close> says
  that \<open>x\<close> stands for the exact value \<open>a\<close> up to \<open>k\<close> half units in the 28th digit of a number of
  size \<open>X\<close>; one rounding adds the size of the value and one, sums add, and a whole \<open>dsum\<close> costs two
  units per summand.
\<close>

definition ulp :: rat where
  "ulp = 1 / (2 * 10 ^ 27)"

lemma ulp_pos: "0 < ulp" "0 \<le> ulp"
  by (simp_all add: ulp_def)

lemma dround_ulp: "\<bar>dround x - x\<bar> \<le> ulp * \<bar>x\<bar>"
  using dround_error [of x] by (simp add: ulp_def mult.commute)

definition near :: "rat \<Rightarrow> rat \<Rightarrow> rat \<Rightarrow> rat \<Rightarrow> bool" where
  "near k X x a \<longleftrightarrow> \<bar>x - a\<bar> \<le> k * ulp * X"

lemma near_refl: "0 \<le> X \<Longrightarrow> near 0 X x x"
  by (simp add: near_def)

lemma near_mono: "near k X x a \<Longrightarrow> k \<le> k' \<Longrightarrow> X \<le> X' \<Longrightarrow> 0 \<le> k \<Longrightarrow> 0 \<le> X \<Longrightarrow> near k' X' x a"
  unfolding near_def using ulp_pos
  by (meson mult_mono mult_nonneg_nonneg mult_right_mono order_trans)

lemma near_add: "near k X x a \<Longrightarrow> near l X y b \<Longrightarrow> near (k + l) X (x + y) (a + b)"
  unfolding near_def by (simp add: distrib_right)

lemma near_diff: "near k X x a \<Longrightarrow> near l X y b \<Longrightarrow> near (k + l) X (x - y) (a - b)"
  unfolding near_def by (simp add: distrib_right)

lemma near_minus: "near k X x a \<Longrightarrow> near k X (- x) (- a)"
  unfolding near_def by (simp add: abs_minus_commute)

text \<open>One rounding, under a factor that is applied exactly.\<close>

lemma near_round:
  assumes "near k X (s * x) a" and "\<bar>a\<bar> \<le> c * X" and "0 \<le> X" and "k \<le> 1000"
  shows "near (k + c + 1) X (s * dround x) a"
proof -
  have k: "k * ulp \<le> 1" using assms(4) by (simp add: ulp_def)
  have "\<bar>s * dround x - s * x\<bar> = \<bar>s\<bar> * \<bar>dround x - x\<bar>"
    by (simp add: right_diff_distrib flip: abs_mult)
  also have "\<dots> \<le> \<bar>s\<bar> * (ulp * \<bar>x\<bar>)"
    by (intro mult_left_mono dround_ulp) simp
  also have "\<dots> = ulp * \<bar>s * x\<bar>" by (simp add: abs_mult)
  also have "\<dots> \<le> ulp * (c * X + k * ulp * X)"
    using assms(1,2) ulp_pos by (intro mult_left_mono) (auto simp: near_def)
  also have "\<dots> \<le> ulp * (c * X + X)"
    using assms(3) k ulp_pos mult_right_mono [of "k * ulp" 1 X] by (intro mult_left_mono) auto
  finally have "\<bar>s * dround x - s * x\<bar> \<le> (c + 1) * ulp * X" by (simp add: algebra_simps)
  then show ?thesis using assms(1) by (simp add: near_def algebra_simps)
qed

lemmas near_round1 = near_round [where s = 1, simplified]

lemma near_dadd:
  assumes "near k X x a" and "near l X y b" and "\<bar>a + b\<bar> \<le> c * X" and "0 \<le> X" and "k + l \<le> 1000"
  shows "near (k + l + c + 1) X (dadd x y) (a + b)"
  unfolding dadd_def by (rule near_round1 [OF near_add [OF assms(1,2)] assms(3-5)])

lemma near_dsub:
  assumes "near k X x a" and "near l X y b" and "\<bar>a - b\<bar> \<le> c * X" and "0 \<le> X" and "k + l \<le> 1000"
  shows "near (k + l + c + 1) X (dsub x y) (a - b)"
  unfolding dsub_def by (rule near_round1 [OF near_diff [OF assms(1,2)] assms(3-5)])

text \<open>The product of three factors, as the code rounds it.\<close>

lemma near_product:
  assumes "near k X (a * b * m) A" and "\<bar>A\<bar> \<le> c * X" and "0 \<le> X" and "0 \<le> c" and "k + c \<le> 999"
  shows "near (k + 2 * (c + 1)) X (dmul (dmul a b) m) A"
proof -
  have "near (k + c + 1) X (m * dround (a * b)) A"
    by (rule near_round) (use assms in \<open>simp_all add: algebra_simps\<close>)
  then have "near (k + c + 1 + c + 1) X (dround (dround (a * b) * m)) A"
    by (intro near_round1) (use assms in \<open>simp_all add: algebra_simps\<close>)
  then show ?thesis by (simp add: dmul_def algebra_simps)
qed

text \<open>A rounded value bounds the value it came from.\<close>

lemma dround_size: "\<bar>x\<bar> \<le> 2 * \<bar>dround x\<bar>"
proof -
  have "ulp * \<bar>x\<bar> \<le> 1 / 2 * \<bar>x\<bar>" by (intro mult_right_mono) (simp_all add: ulp_def)
  then show ?thesis using dround_ulp [of x] by linarith
qed

lemma near_booked:
  assumes "\<bar>dround x\<bar> \<le> X"
  shows "near 2 X (dround x) x"
proof -
  have "ulp * \<bar>x\<bar> \<le> ulp * (2 * X)"
    using dround_size [of x] assms ulp_pos by (intro mult_left_mono) auto
  then show ?thesis using dround_ulp [of x] by (simp add: near_def)
qed

text \<open>A running sum.\<close>

lemma dsum_extend: "dsum (xs @ [x]) = dadd (dsum xs) x"
  by (simp add: dsum_def)

lemma near_dsum:
  assumes "sum_list (map abs xs) \<le> X" and "length xs \<le> 500"
  shows "near (of_nat (2 * length xs)) X (dsum xs) (sum_list xs)"
  using assms
proof (induction xs rule: rev_induct)
  case Nil
  then show ?case by (simp add: near_def)
next
  case (snoc x xs)
  have pos: "0 \<le> sum_list (map abs xs)" by (rule sum_list_nonneg) auto
  then have X: "0 \<le> X" and pre: "sum_list (map abs xs) \<le> X" using snoc.prems(1) by simp_all
  have "near (of_nat (2 * length xs)) X (dsum xs) (sum_list xs)" by (rule snoc.IH [OF pre]) (use snoc.prems(2) in simp)
  then have "near (of_nat (2 * length xs)) X (dsum xs + x) (sum_list (xs @ [x]))"
    using near_add [OF _ near_refl [OF X], of _ "dsum xs" "sum_list xs" x] by simp
  moreover have "\<bar>sum_list (xs @ [x])\<bar> \<le> 1 * X"
    using sum_list_abs [of "xs @ [x]"] snoc.prems(1) by simp
  ultimately have "near (of_nat (2 * length xs) + 1 + 1) X (dround (dsum xs + x)) (sum_list (xs @ [x]))"
    by (rule near_round1) (use X snoc.prems(2) in auto)
  then show ?case by (simp only: dsum_extend dadd_def) (simp add: algebra_simps)
qed

lemma near_sum_list:
  assumes "\<And>x. x \<in> set xs \<Longrightarrow> near k (g x) (f x) (h x)"
  shows "near k (sum_list (map g xs)) (sum_list (map f xs)) (sum_list (map h xs))"
  using assms
proof (induction xs)
  case Nil
  then show ?case by (simp add: near_def)
next
  case (Cons x xs)
  then show ?case by (force simp: near_def algebra_simps)
qed

end
