(* ===== verification/ShadowConservation.thy ===== *)
theory ShadowConservation
  imports ShadowLedger Rounding
begin

section \<open>Conservation in the shadow ledger\<close>

text \<open>
  The two views of equity agree in exact arithmetic after every fill and price update; in the
  28-digit context they drift apart by a few units in the last digit of each amount.  The lemmas
  follow the drift through a fill, scenario by scenario, and through the check itself, and the
  property says that a run within stated limits never trips the check: a conservation error means
  a booking error, not rounding.
\<close>

subsection \<open>The exact residual\<close>

definition cost_basis :: "shadow_position \<Rightarrow> rat" where
  "cost_basis p = sh_quantity p * sh_avg_entry p * sh_multiplier p"

definition position_sum :: "(shadow_position \<Rightarrow> rat) \<Rightarrow> shadow_ledger \<Rightarrow> rat" where
  "position_sum g l = sum_list (map g (dict_values (sl_positions l)))"

definition cost_residual :: "shadow_ledger \<Rightarrow> rat" where
  "cost_residual l = sl_cash l + position_sum cost_basis l
     - (sl_starting_cash l + sl_external_flows l + sl_realized l - sl_fees l - sl_financing l)"

text \<open>The size of a position, by the dearer of its two prices.\<close>

definition notional :: "shadow_position \<Rightarrow> rat" where
  "notional p = \<bar>sh_quantity p\<bar> * max (sh_market_price p) (sh_avg_entry p) * sh_multiplier p"

definition exact_unrealized :: "shadow_position \<Rightarrow> rat" where
  "exact_unrealized p = sh_quantity p * (sh_market_price p - sh_avg_entry p) * sh_multiplier p"

definition position_sound :: "shadow_position \<Rightarrow> bool" where
  "position_sound p \<longleftrightarrow> 0 \<le> sh_avg_entry p \<and> 0 \<le> sh_market_price p \<and> 0 < sh_multiplier p \<and>
     dec28 (sh_quantity p) \<and> near 6 (notional p) (sh_unrealized p) (exact_unrealized p)"

definition ledger_sound :: "shadow_ledger \<Rightarrow> bool" where
  "ledger_sound l \<longleftrightarrow> dict_wf (sl_positions l) \<and> list_all position_sound (dict_values (sl_positions l))"

subsection \<open>Limits of a run\<close>

datatype ledger_action =
    Fill_action (fa_symbol: string) (fa_side: string) (fa_price: dec) (fa_quantity: dec)
      (fa_fee: dec) (fa_multiplier: dec)
  | Price_action (pa_symbol: string) (pa_price: dec)

definition run_action :: "shadow_ledger \<Rightarrow> ledger_action \<Rightarrow> shadow_ledger \<times> (ledger_error + unit)" where
  "run_action l a =
     (case a of
        Fill_action sy side fp fq fee m \<Rightarrow>
          (let (l', r) = process_fill l sy side fp fq fee m in (l', rbind r (\<lambda>_. Inr ())))
      | Price_action sy p \<Rightarrow> update_market_price l sy p)"

text \<open>Every amount of the ledger stays within \<open>B\<close>, and it holds at most 100 positions.\<close>

definition ledger_within :: "rat \<Rightarrow> shadow_ledger \<Rightarrow> bool" where
  "ledger_within B l \<longleftrightarrow>
     length (sl_positions l) \<le> 100 \<and> position_sum notional l \<le> B \<and>
     \<bar>sl_cash l\<bar> \<le> B \<and> \<bar>sl_starting_cash l\<bar> \<le> B \<and> \<bar>sl_external_flows l\<bar> \<le> B \<and>
     \<bar>sl_realized l\<bar> \<le> B \<and> \<bar>sl_fees l\<bar> \<le> B \<and> \<bar>sl_financing l\<bar> \<le> B"

text \<open>A valid fill of at most \<open>B\<close>, under the multiplier its position has.\<close>

definition action_within :: "rat \<Rightarrow> shadow_ledger \<Rightarrow> ledger_action \<Rightarrow> bool" where
  "action_within B l a =
     (case a of
        Fill_action sy side fp fq fee m \<Rightarrow>
          0 < fq \<and> 0 < fp \<and> 0 \<le> fee \<and> 0 < m \<and> (upper side = ''BUY'' \<or> upper side = ''SELL'') \<and>
          dec28 fq \<and> fq * fp * m \<le> B \<and> fee \<le> B \<and> sh_multiplier (current_position l sy fp m) = m
      | Price_action sy p \<Rightarrow> 0 \<le> p)"

fun run_within :: "rat \<Rightarrow> shadow_ledger \<Rightarrow> ledger_action list \<Rightarrow> bool" where
  "run_within B l [] = ledger_within B l"
| "run_within B l (a # as) =
     (ledger_within B l \<and> action_within B l a \<and> run_within B (fst (run_action l a)) as)"

fun all_accepted :: "shadow_ledger \<Rightarrow> ledger_action list \<Rightarrow> bool" where
  "all_accepted l [] = True"
| "all_accepted l (a # as) = (snd (run_action l a) = Inr () \<and> all_accepted (fst (run_action l a)) as)"

subsection \<open>The check tolerates the rounding of its own sums\<close>

lemma position_value_near:
  assumes "position_sound p"
  shows "near 4 (notional p) (position_value p) (sh_quantity p * sh_market_price p * sh_multiplier p)"
    and "\<bar>sh_quantity p * sh_market_price p * sh_multiplier p\<bar> \<le> notional p"
    and "\<bar>exact_unrealized p\<bar> \<le> notional p" and "0 \<le> notional p"
proof -
  have pos: "0 \<le> sh_avg_entry p" "0 \<le> sh_market_price p" "0 < sh_multiplier p"
    using assms by (simp_all add: position_sound_def)
  show N: "0 \<le> notional p" using pos by (simp add: notional_def le_max_iff_disj)
  show a: "\<bar>sh_quantity p * sh_market_price p * sh_multiplier p\<bar> \<le> notional p"
    using pos by (simp add: notional_def abs_mult mult_mono)
  show "\<bar>exact_unrealized p\<bar> \<le> notional p"
    using pos by (auto simp: exact_unrealized_def notional_def abs_mult intro!: mult_mono)
  show "near 4 (notional p) (position_value p) (sh_quantity p * sh_market_price p * sh_multiplier p)"
    using near_product [OF near_refl [OF N], of _ _ _ 1] a N by (simp add: position_value_def)
qed

text \<open>The rounded sum over all positions against the exact one.\<close>

lemma dsum_positions_near:
  assumes "\<And>p. p \<in> set ps \<Longrightarrow> near k (notional p) (f p) (h p)"
    and "\<And>p. p \<in> set ps \<Longrightarrow> \<bar>h p\<bar> \<le> notional p"
    and "(\<Sum>p\<leftarrow>ps. notional p) \<le> B" and "length ps \<le> 100" and "0 \<le> k" and "k \<le> 1000" and "0 \<le> B"
  shows "near (400 + k) B (dsum (map f ps)) (\<Sum>p\<leftarrow>ps. h p)" and "\<bar>\<Sum>p\<leftarrow>ps. h p\<bar> \<le> B"
proof -
  have h: "(\<Sum>p\<leftarrow>ps. \<bar>h p\<bar>) \<le> (\<Sum>p\<leftarrow>ps. notional p)"
    by (rule sum_list_mono) (rule assms(2))
  then show H: "\<bar>\<Sum>p\<leftarrow>ps. h p\<bar> \<le> B"
    using sum_list_abs [of "map h ps"] assms(3) by (simp add: comp_def)
  have one: "\<bar>f p\<bar> \<le> 2 * notional p" if "p \<in> set ps" for p
  proof -
    have N: "0 \<le> notional p" using assms(2) [OF that] by linarith
    have "k * ulp \<le> 1" using assms(6) by (simp add: ulp_def)
    then have "k * ulp * notional p \<le> notional p" using mult_right_mono [OF _ N] by fastforce
    then show ?thesis using assms(1,2) [OF that] by (auto simp: near_def)
  qed
  have "(\<Sum>p\<leftarrow>ps. \<bar>f p\<bar>) \<le> (\<Sum>p\<leftarrow>ps. 2 * notional p)"
    by (rule sum_list_mono) (rule one)
  also have "\<dots> \<le> 2 * B" using assms(3) by (simp add: sum_list_const_mult)
  finally have "near (of_nat (2 * length (map f ps))) (2 * B) (dsum (map f ps)) (sum_list (map f ps))"
    using assms(4) by (intro near_dsum) (simp_all add: comp_def)
  then have "near 200 (2 * B) (dsum (map f ps)) (sum_list (map f ps))"
    using assms(4,7) by (elim near_mono) auto
  then have "near 400 B (dsum (map f ps)) (sum_list (map f ps))" by (simp add: near_def)
  moreover have "near k B (sum_list (map f ps)) (\<Sum>p\<leftarrow>ps. h p)"
  proof (rule near_mono)
    show "near k (\<Sum>p\<leftarrow>ps. notional p) (sum_list (map f ps)) (\<Sum>p\<leftarrow>ps. h p)"
      by (rule near_sum_list) (rule assms(1))
    show "0 \<le> (\<Sum>p\<leftarrow>ps. notional p)" by (rule sum_list_nonneg) (use assms(2) in force)
  qed (use assms(3,5) in auto)
  ultimately show "near (400 + k) B (dsum (map f ps)) (\<Sum>p\<leftarrow>ps. h p)"
    by (auto simp: near_def algebra_simps)
qed

lemma view_difference_near:
  assumes "ledger_sound l" and "ledger_within B l" and "\<bar>cost_residual l\<bar> \<le> B"
  shows "near 840 B (dsub (balance_sheet_equity l) (attribution_equity l)) (cost_residual l)"
proof -
  let ?ps = "dict_values (sl_positions l)"
  note w = assms(2) [unfolded ledger_within_def position_sum_def]
  have B: "0 \<le> B" using assms(3) by linarith
  have sound: "position_sound p" if "p \<in> set ?ps" for p
    using assms(1) that by (auto simp: ledger_sound_def list_all_iff)
  have len: "length ?ps \<le> 100" using w by (simp add: dict_values_def)
  define V where "V = (\<Sum>p\<leftarrow>?ps. sh_quantity p * sh_market_price p * sh_multiplier p)"
  define U where "U = (\<Sum>p\<leftarrow>?ps. exact_unrealized p)"
  have V: "near (400 + 4) B (dsum (map position_value ?ps)) V" "\<bar>V\<bar> \<le> B"
    unfolding V_def using dsum_positions_near [of ?ps 4 position_value] position_value_near sound w len B
    by auto
  have U: "near (400 + 6) B (dsum (map sh_unrealized ?ps)) U" "\<bar>U\<bar> \<le> B"
    unfolding U_def using dsum_positions_near [of ?ps 6 sh_unrealized] position_value_near sound w len B
    by (auto simp: position_sound_def)
  note exact = near_refl [OF B]
  have bs: "near (0 + (400 + 4) + 2 + 1) B (balance_sheet_equity l) (sl_cash l + V)"
    unfolding balance_sheet_equity_def by (rule near_dadd [OF exact V(1)]) (use w V B in linarith)+
  let ?e1 = "sl_starting_cash l + sl_external_flows l" and ?r = "sl_realized l"
  have 1: "near (0 + 0 + 2 + 1) B (dadd (sl_starting_cash l) (sl_external_flows l)) ?e1"
    by (rule near_dadd [OF exact exact]) (use w B in linarith)+
  have 2: "near (3 + 0 + 3 + 1) B (dadd (dadd (sl_starting_cash l) (sl_external_flows l)) ?r) (?e1 + ?r)"
    by (rule near_dadd [OF _ exact]) (use 1 w B in \<open>linarith | simp\<close>)+
  have 3: "near (7 + (400 + 6) + 4 + 1) B (dadd (dadd (dadd (sl_starting_cash l) (sl_external_flows l)) ?r)
      (dsum (map sh_unrealized ?ps))) (?e1 + ?r + U)"
    by (rule near_dadd [OF _ U(1)]) (use 2 w B U(2) in \<open>linarith | simp\<close>)+
  have 4: "near (418 + 0 + 5 + 1) B (dsub (dadd (dadd (dadd (sl_starting_cash l) (sl_external_flows l)) ?r)
      (dsum (map sh_unrealized ?ps))) (sl_fees l)) (?e1 + ?r + U - sl_fees l)"
    by (rule near_dsub [OF _ exact]) (use 3 w B U(2) in \<open>linarith | simp\<close>)+
  have 5: "near (424 + 0 + 6 + 1) B (attribution_equity l) (?e1 + ?r + U - sl_fees l - sl_financing l)"
    unfolding attribution_equity_def
    by (rule near_dsub [OF _ exact]) (use 4 w B U(2) in \<open>linarith | simp\<close>)+
  have "near (407 + 431) B (balance_sheet_equity l - attribution_equity l)
      (sl_cash l + V - (?e1 + ?r + U - sl_fees l - sl_financing l))"
    using near_diff [OF bs 5] by simp
  moreover have "V - U = position_sum cost_basis l"
    unfolding V_def U_def position_sum_def sum_list_subtractf [symmetric]
    by (rule arg_cong [where f = sum_list])
      (simp add: exact_unrealized_def cost_basis_def fun_eq_iff algebra_simps)
  ultimately have "near 838 B (balance_sheet_equity l - attribution_equity l) (cost_residual l)"
    by (simp add: cost_residual_def algebra_simps)
  then have "near (838 + 1 + 1) B (dround (balance_sheet_equity l - attribution_equity l)) (cost_residual l)"
    by (rule near_round1) (use assms(3) B in auto)
  then show ?thesis by (simp add: dsub_def)
qed

lemma check_passes:
  assumes "ledger_sound l" and "ledger_within (10 ^ 12) l" and "\<bar>cost_residual l\<bar> \<le> 9 / 10 ^ 11"
  shows "verify_internal_conservation l = Inr ()"
proof -
  have "near 840 (10 ^ 12) (dsub (balance_sheet_equity l) (attribution_equity l)) (cost_residual l)"
    by (rule view_difference_near [OF assms(1,2)]) (use assms(3) in simp)
  moreover have "840 * ulp * 10 ^ 12 \<le> 1 / 10 ^ 11" by (simp add: ulp_def)
  moreover have "accounting_tolerance = 9 / 10 ^ 11 + 1 / 10 ^ 11" by (simp add: accounting_tolerance_def)
  ultimately have "\<bar>dsub (balance_sheet_equity l) (attribution_equity l)\<bar> \<le> accounting_tolerance"
    using assms(3) unfolding near_def by linarith
  then show ?thesis by (simp add: verify_internal_conservation_def dabs_exact)
qed

subsection \<open>The drift of one fill\<close>

lemma profit_near:
  assumes "0 \<le> x" and "0 \<le> y" and "0 \<le> m" and "\<bar>c\<bar> * x * m \<le> B" and "\<bar>c\<bar> * y * m \<le> B"
  shows "near 6 B (dmul (dmul c (dsub x y)) m) (c * (x - y) * m)"
proof -
  have B: "0 \<le> B" using assms by (meson abs_ge_zero mult_nonneg_nonneg order_trans)
  have "\<bar>c\<bar> * m * \<bar>x - y\<bar> \<le> \<bar>c\<bar> * m * max x y"
    using assms(1-3) by (intro mult_left_mono) auto
  then have A: "\<bar>c * (x - y) * m\<bar> \<le> 1 * B"
    using assms(3-5) by (auto simp: abs_mult max_def mult.commute mult.left_commute split: if_splits)
  have "near (0 + 1 + 1) B (c * m * dround (x - y)) (c * (x - y) * m)"
    by (rule near_round [OF _ A B]) (use near_refl [OF B] in \<open>simp_all add: algebra_simps\<close>)
  then have "near 2 B (c * dround (x - y) * m) (c * (x - y) * m)" by (simp add: algebra_simps)
  from near_product [OF this A B] show ?thesis by (simp add: dsub_def)
qed

lemma carried_cost_near:
  assumes "\<bar>x * a * m\<bar> \<le> B"
  shows "near 2 B (dround x * a * m) (x * a * m)"
proof -
  have B: "0 \<le> B" using assms by linarith
  have "near (0 + 1 + 1) B (a * m * dround x) (x * a * m)"
    by (rule near_round) (use near_refl [OF B] assms B in \<open>simp_all add: algebra_simps\<close>)
  then show ?thesis by (simp add: algebra_simps)
qed

lemma average_cost_near:
  assumes "0 \<le> a" and "0 < fp" and "0 < m" and "0 \<le> q" and "0 < fq" and "0 < n"
    and "q * a * m \<le> B" and "fq * fp * m \<le> B"
  shows "near 10 B (n * ddiv (dadd (dmul q a) (dmul fq fp)) n * m) ((q * a + fq * fp) * m)"
proof -
  have B: "0 \<le> B" using assms by (meson less_imp_le mult_nonneg_nonneg order_trans)
  have one: "near 2 B (m * dround (x * y)) (x * y * m)" if "0 \<le> x * y * m" "x * y * m \<le> B" for x y
    using near_round [of 0 B m "x * y" "x * y * m" 1] near_refl [OF B] that B by (simp add: mult.commute)
  let ?S = "(q * a + fq * fp) * m"
  have "0 \<le> ?S" using assms by simp
  then have S: "\<bar>?S\<bar> \<le> 2 * B" using assms(7,8) by (simp add: distrib_right)
  have "near 2 B (m * dround (q * a)) (q * a * m)" "near 2 B (m * dround (fq * fp)) (fq * fp * m)"
    using assms by (auto intro!: one)
  from near_add [OF this] have "near 4 B (m * (dmul q a + dmul fq fp)) ?S"
    by (simp add: dmul_def algebra_simps)
  from near_round [OF this S B] have "near 7 B (m * dadd (dmul q a) (dmul fq fp)) ?S"
    by (simp add: dadd_def)
  then have "near 7 B (m * n * (dadd (dmul q a) (dmul fq fp) / n)) ?S" using assms(6) by simp
  from near_round [OF this S B] have "near 10 B (m * n * ddiv (dadd (dmul q a) (dmul fq fp)) n) ?S"
    by (simp add: ddiv_def)
  then show ?thesis by (simp add: algebra_simps)
qed

lemma product_le: "x \<le> y \<Longrightarrow> y * a * m \<le> B \<Longrightarrow> 0 \<le> a \<Longrightarrow> 0 \<le> m \<Longrightarrow> x * a * m \<le> (B :: rat)"
  by (meson mult_right_mono order_trans)

text \<open>What a fill leaves of a position, in every scenario: its cost basis moves by the cash that
  changed hands and the profit realized.\<close>

lemma fill_cost_near:
  assumes "position_sound p" and "sh_multiplier p = m" and "notional p \<le> B"
    and "0 < fq" and "0 < fp" and "fq * fp * m \<le> B" and "d = fq \<or> d = - fq"
  shows "near 10 B (cost_basis (fst (fill_shadow_position sy p d fp fq m))
      - snd (fill_shadow_position sy p d fp fq m)) (cost_basis p + d * fp * m)"
proof -
  define q a where "q = sh_quantity p" and "a = sh_avg_entry p"
  have s: "0 \<le> a" "0 < m" "dec28 q"
    using assms(1,2) by (simp_all add: position_sound_def q_def a_def)
  have "\<bar>q\<bar> * a * m \<le> \<bar>q\<bar> * max (sh_market_price p) a * m"
    using s by (intro mult_mono mult_nonneg_nonneg) auto
  then have qB: "\<bar>q\<bar> * a * m \<le> B" using assms(2,3) by (simp add: notional_def q_def a_def)
  have dB: "\<bar>d\<bar> * fp * m \<le> B" "\<bar>d\<bar> = fq" using assms(4,6,7) by auto
  have B: "0 \<le> B" using qB s by (meson abs_ge_zero less_imp_le mult_nonneg_nonneg order_trans)
  define n where "n = dadd q d"
  then have n: "n = dround (q + d)" "dec28 n" by (simp_all add: dadd_def)
  note step = fill_shadow_position_def fill_scenario_def Let_def cost_basis_def assms(2)
    q_def [symmetric] a_def [symmetric] n_def [symmetric] dabs_exact
  note widen = near_mono [OF _ _ order_refl _ B, where k' = 10]
  have closed: "\<bar>min \<bar>q\<bar> fq\<bar> * fp * m \<le> B" "\<bar>min \<bar>q\<bar> fq\<bar> * a * m \<le> B"
    using product_le [of "\<bar>min \<bar>q\<bar> fq\<bar>" fq fp m B] product_le [of "\<bar>min \<bar>q\<bar> fq\<bar>" "\<bar>q\<bar>" a m B]
      qB s assms(4-6) by auto
  have carried: "\<bar>(q + d) * a * m\<bar> \<le> B" if "\<bar>q + d\<bar> \<le> \<bar>q\<bar>"
    using product_le [OF that qB] s by (simp add: abs_mult)
  have reversed: "\<bar>(q + d) * fp * m\<bar> \<le> B" if "\<bar>q + d\<bar> \<le> fq"
    using product_le [OF that assms(6)] s assms(5) by (simp add: abs_mult)
  consider (flat) "q = 0" | (same) "0 < q" "0 < d" | (same_short) "q < 0" "d < 0"
    | (against) "0 < q" "d < 0" | (against_short) "q < 0" "0 < d"
    using dB(2) assms(4) by linarith
  then show ?thesis
  proof cases
    case flat
    then show ?thesis
      using widen [OF carried_cost_near [of d fp m B]] dB s assms(5)
      by (simp add: step abs_mult dadd_def)
  next
    case same
    then have "0 < n" "fq = d" using n(1) dB(2) by simp_all
    then show ?thesis
      using average_cost_near [of a fp m q d n B] s qB dB same assms(5)
      by (simp add: step n(2) algebra_simps)
  next
    case same_short
    then have "n < 0" "fq = - d" using n(1) dB(2) by simp_all
    then show ?thesis
      using near_minus [OF average_cost_near [of a fp m "- q" "- d" "- n" B]] s qB dB same_short assms(5)
      by (simp add: step n(2) algebra_simps)
  next
    case against
    have r: "near 6 B (dmul (dmul (min q fq) (dsub fp a)) m) (min q fq * (fp - a) * m)"
      by (rule profit_near) (use closed s against assms(4,5) in auto)
    consider "q + d = 0" | "0 < q + d" | "q + d < 0" by linarith
    then show ?thesis
    proof cases
      case 1
      then have "min q fq = q" "d = - q" using against dB(2) by auto
      then show ?thesis using near_minus [OF r] against s
        by (intro widen [of 6]) (simp_all add: step dadd_def [of q "- q"] algebra_simps)
    next
      case 2
      then have eq: "min q fq = - d" using against dB(2) by auto
      show ?thesis using near_diff [OF carried_cost_near [of "q + d" a m B] r] 2 against s carried
        by (intro widen [of 8]) (simp_all add: step n eq algebra_simps)
    next
      case 3
      then have eq: "min q fq = q" using against dB(2) by auto
      have "\<bar>(q + d) * fp * m\<bar> \<le> B" by (rule reversed) (use 3 against dB(2) in auto)
      then show ?thesis using near_diff [OF carried_cost_near [of "q + d" fp m B] r] 3 against s
        by (intro widen [of 8]) (simp_all add: step n eq algebra_simps)
    qed
  next
    case against_short
    have r: "near 6 B (dmul (dmul (min (- q) fq) (dsub a fp)) m) (min (- q) fq * (a - fp) * m)"
      by (rule profit_near) (use closed s against_short assms(4,5) in auto)
    consider "q + d = 0" | "q + d < 0" | "0 < q + d" by linarith
    then show ?thesis
    proof cases
      case 1
      then have "min (- q) fq = - q" "d = - q" using against_short dB(2) by auto
      then show ?thesis using near_minus [OF r] against_short s
        by (intro widen [of 6]) (simp_all add: step dadd_def [of q "- q"] algebra_simps)
    next
      case 2
      then have eq: "min (- q) fq = d" using against_short dB(2) by auto
      show ?thesis using near_diff [OF carried_cost_near [of "q + d" a m B] r] 2 against_short s carried
        by (intro widen [of 8]) (simp_all add: step n eq algebra_simps)
    next
      case 3
      then have eq: "min (- q) fq = - q" using against_short dB(2) by auto
      have "\<bar>(q + d) * fp * m\<bar> \<le> B" by (rule reversed) (use 3 against_short dB(2) in auto)
      then show ?thesis using near_diff [OF carried_cost_near [of "q + d" fp m B] r] 3 against_short s
        by (intro widen [of 8]) (simp_all add: step n eq algebra_simps)
    qed
  qed
qed

lemma fill_sound:
  assumes "position_sound p" and "0 < fp" and "0 < fq" and "0 < m"
  shows "position_sound (fst (fill_shadow_position sy p d fp fq m))"
proof -
  define n where "n = dadd (sh_quantity p) d"
  define a where "a = fst (fill_scenario (sh_avg_entry p) (sh_quantity p) d fq fp n m)"
  have a: "0 \<le> a"
    using assms by (auto simp: a_def fill_scenario_def position_sound_def Let_def)
  let ?p = "fst (fill_shadow_position sy p d fp fq m)"
  have p: "sh_quantity ?p = n" "sh_avg_entry ?p = a" "sh_market_price ?p = fp" "sh_multiplier ?p = m"
    "sh_unrealized ?p = (if n = 0 then 0 else dmul (dmul n (dsub fp a)) m)"
    by (simp_all add: fill_shadow_position_def a_def n_def Let_def split_def)
  have "near 6 (notional ?p) (dmul (dmul n (dsub fp a)) m) (n * (fp - a) * m)"
    using a assms(2,4)
    by (intro profit_near) (auto simp: notional_def p intro!: mult_right_mono mult_left_mono)
  then show ?thesis using a assms(2,4)
    by (auto simp: position_sound_def p exact_unrealized_def notional_def n_def near_def)
qed

subsection \<open>The drift of one action\<close>

lemma sum_dict_put:
  assumes "dict_wf d"
  shows "sum_list (map g (dict_values (dict_put k v d))) =
    sum_list (map g (dict_values d)) - (case dict_get d k of None \<Rightarrow> 0 | Some w \<Rightarrow> g w) + (g v :: rat)"
  using assms
proof (induction d)
  case (Cons x d)
  have "dict_get d k = None" if "fst x = k"
    using Cons.prems that by (auto simp: dict_wf_def dict_get_def map_of_eq_None_iff)
  then show ?case using Cons by (cases x) (auto simp: dict_values_def dict_wf_def split: option.splits)
qed (simp add: dict_values_def)

lemma sound_put:
  assumes "ledger_sound l" and "position_sound p"
  shows "ledger_sound (l\<lparr>sl_positions := dict_put k p (sl_positions l)\<rparr>)"
  using assms set_dict_put_subset [of k p "sl_positions l"]
  by (auto simp: ledger_sound_def list_all_iff dict_wf_put)

lemma current_position_sound:
  assumes "ledger_sound l" and "ledger_within B l" and "0 < fp" and "0 < m"
  shows "position_sound (current_position l sy fp m)" and "notional (current_position l sy fp m) \<le> B"
proof -
  have fresh: "position_sound (fresh_position sy fp m)" "notional (fresh_position sy fp m) = 0"
    using assms(3,4)
    by (simp_all add: fresh_position_def position_sound_def notional_def near_def exact_unrealized_def)
  have in_ledger: "position_sound p" "notional p \<le> B" if "dict_get (sl_positions l) sy = Some p" for p
  proof -
    have mem: "p \<in> set (dict_values (sl_positions l))" using that by (rule dict_get_in_values)
    have all: "\<forall>x \<in> set (dict_values (sl_positions l)). position_sound x"
      using assms(1) by (simp add: ledger_sound_def list_all_iff)
    then show "position_sound p" using mem by blast
    have "notional p \<le> position_sum notional l" unfolding position_sum_def
      by (rule member_le_sum_list) (use mem all position_value_near(4) in auto)
    then show "notional p \<le> B" using assms(2) by (simp add: ledger_within_def)
  qed
  have "0 \<le> B" using assms(2) by (auto simp: ledger_within_def)
  then show "position_sound (current_position l sy fp m)" "notional (current_position l sy fp m) \<le> B"
    using in_ledger fresh by (auto simp: current_position_def split: option.splits)
qed

lemma booked_cash_near:
  assumes "\<bar>d\<bar> * fp * m \<le> B" and "0 < fp" and "0 < m" and "0 \<le> fee" and "fee \<le> B" and "\<bar>cash\<bar> \<le> B"
  shows "near 12 B (dsub cash (dadd (dmul (dmul d fp) m) fee)) (cash - (d * fp * m + fee))"
proof -
  have B: "0 \<le> B" using assms(4,5) by linarith
  have A: "\<bar>d * fp * m\<bar> \<le> 1 * B" using assms(1-3) by (simp add: abs_mult)
  have 1: "near 4 B (dmul (dmul d fp) m) (d * fp * m)"
    using near_product [OF near_refl [OF B] A B] by simp
  have 2: "near (4 + 0 + 2 + 1) B (dadd (dmul (dmul d fp) m) fee) (d * fp * m + fee)"
    by (rule near_dadd [OF 1 near_refl]) (use A assms B in linarith)+
  have "near (0 + 7 + 3 + 1) B (dsub cash (dadd (dmul (dmul d fp) m) fee)) (cash - (d * fp * m + fee))"
    by (rule near_dsub [OF near_refl]) (use 2 A assms B in \<open>linarith | simp\<close>)+
  then show ?thesis by (rule near_mono) (use B in auto)
qed

lemma book_fill_near:
  assumes "ledger_sound l" and "ledger_within B l" and "0 < fq" and "0 < fp" and "0 \<le> fee" and "0 < m"
    and "fq * fp * m \<le> B" and "fee \<le> B" and "sh_multiplier (current_position l sy fp m) = m"
    and "d = fq \<or> d = - fq" and "l' = fst (book_fill l sy d fp fq fee m)" and "ledger_within B l'"
  shows "ledger_sound l'" and "near 26 B (cost_residual l') (cost_residual l)"
proof -
  let ?p = "current_position l sy fp m"
  define p' r where "p' = fst (fill_shadow_position sy ?p d fp fq m)"
    and "r = snd (fill_shadow_position sy ?p d fp fq m)"
  note cur = current_position_sound [OF assms(1,2,4,6), of sy]
  have l': "l' = l\<lparr>sl_cash := dsub (sl_cash l) (dadd (dmul (dmul d fp) m) fee),
      sl_realized := dadd (sl_realized l) r, sl_fees := dadd (sl_fees l) fee,
      sl_positions := dict_put sy p' (sl_positions l)\<rparr>"
    by (simp add: assms(11) book_fill_def p'_def r_def split_def Let_def)
  have sound: "position_sound p'" unfolding p'_def by (rule fill_sound [OF cur(1) assms(4,3,6)])
  show "ledger_sound l'" using sound_put [OF assms(1) sound, of sy] by (simp add: l' ledger_sound_def)
  have fresh: "cost_basis (fresh_position sy fp m) = 0" by (simp add: fresh_position_def cost_basis_def)
  have wf: "dict_wf (sl_positions l)" using assms(1) by (simp add: ledger_sound_def)
  have sum: "position_sum cost_basis l' = position_sum cost_basis l - cost_basis ?p + cost_basis p'"
    using sum_dict_put [OF wf, of cost_basis sy p'] fresh
    by (auto simp: l' position_sum_def current_position_def split: option.splits)
  have dB: "\<bar>d\<bar> * fp * m \<le> B" using assms(3,7,10) by auto
  have cash: "near 12 B (sl_cash l') (sl_cash l - (d * fp * m + fee))"
    using booked_cash_near [OF dB assms(4,6,5,8)] assms(2) by (simp add: l' ledger_within_def)
  have cost: "near 10 B (cost_basis p' - r) (cost_basis ?p + d * fp * m)"
    unfolding p'_def r_def by (rule fill_cost_near [OF cur(1) assms(9) cur(2) assms(3,4,7,10)])
  have realized: "near 2 B (sl_realized l') (sl_realized l + r)"
    using assms(12) by (auto simp: l' ledger_within_def dadd_def intro: near_booked)
  have fees: "near 2 B (sl_fees l') (sl_fees l + fee)"
    using assms(12) by (auto simp: l' ledger_within_def dadd_def intro: near_booked)
  have same: "sl_starting_cash l' = sl_starting_cash l" "sl_external_flows l' = sl_external_flows l"
    "sl_financing l' = sl_financing l"
    by (simp_all add: l')
  have "cost_residual l' - cost_residual l =
      (sl_cash l' - (sl_cash l - (d * fp * m + fee))) + ((cost_basis p' - r) - (cost_basis ?p + d * fp * m))
      - (sl_realized l' - (sl_realized l + r)) + (sl_fees l' - (sl_fees l + fee))"
    by (simp add: cost_residual_def sum same)
  then show "near 26 B (cost_residual l') (cost_residual l)"
    using cash cost realized fees by (simp add: near_def)
qed

lemma price_update_sound:
  assumes "ledger_sound l" and "0 \<le> price"
  shows "ledger_sound (fst (update_market_price l sy price))"
    and "cost_residual (fst (update_market_price l sy price)) = cost_residual l"
    and "snd (update_market_price l sy price) =
      (if dict_get (sl_positions l) sy = None then Inr ()
       else verify_internal_conservation (fst (update_market_price l sy price)))"
proof -
  have upd: "position_sound (p\<lparr>sh_market_price := price, sh_unrealized :=
      if sh_is_flat p then 0 else dmul (dmul (sh_quantity p) (dsub price (sh_avg_entry p))) (sh_multiplier p)\<rparr>)"
    if "dict_get (sl_positions l) sy = Some p" for p
  proof -
    have p: "position_sound p" using that assms(1) dict_get_in_values
      by (fastforce simp: ledger_sound_def list_all_iff)
    then have "near 6 (\<bar>sh_quantity p\<bar> * max price (sh_avg_entry p) * sh_multiplier p)
        (dmul (dmul (sh_quantity p) (dsub price (sh_avg_entry p))) (sh_multiplier p))
        (sh_quantity p * (price - sh_avg_entry p) * sh_multiplier p)"
      using assms(2)
      by (intro profit_near) (auto simp: position_sound_def intro!: mult_right_mono mult_left_mono)
    with p assms(2) show ?thesis
      by (auto simp: position_sound_def notional_def exact_unrealized_def sh_is_flat_def near_def)
  qed
  show "ledger_sound (fst (update_market_price l sy price))"
    using assms(1) upd sound_put by (auto simp: update_market_price_def Let_def split: option.splits)
  show "cost_residual (fst (update_market_price l sy price)) = cost_residual l"
    using assms(1)
    by (auto simp: update_market_price_def Let_def cost_residual_def position_sum_def sum_dict_put
        ledger_sound_def cost_basis_def split: option.splits)
  show "snd (update_market_price l sy price) =
      (if dict_get (sl_positions l) sy = None then Inr ()
       else verify_internal_conservation (fst (update_market_price l sy price)))"
    by (auto simp: update_market_price_def Let_def split: option.splits)
qed

lemma run_action_near:
  assumes "ledger_sound l" and "ledger_within B l" and "action_within B l a"
    and "ledger_within B (fst (run_action l a))"
  shows "ledger_sound (fst (run_action l a))"
    and "near 26 B (cost_residual (fst (run_action l a))) (cost_residual l)"
    and "verify_internal_conservation (fst (run_action l a)) = Inr () \<Longrightarrow> snd (run_action l a) = Inr ()"
proof -
  have B: "0 \<le> B" using assms(2) by (auto simp: ledger_within_def)
  let ?l = "fst (run_action l a)"
  have "ledger_sound ?l \<and> near 26 B (cost_residual ?l) (cost_residual l) \<and>
    (verify_internal_conservation ?l = Inr () \<longrightarrow> snd (run_action l a) = Inr ())"
  proof (cases a)
    case (Price_action sy p)
    then show ?thesis using price_update_sound [OF assms(1), of p sy] assms(3) B ulp_pos
      by (simp add: run_action_def action_within_def near_def)
  next
    case (Fill_action sy side fp fq fee m)
    define d where "d = (if upper side = ''BUY'' then fq else dneg fq)"
    have w: "0 < fq" "0 < fp" "0 \<le> fee" "0 < m" "upper side = ''BUY'' \<or> upper side = ''SELL''"
      "dec28 fq" "fq * fp * m \<le> B" "fee \<le> B" "sh_multiplier (current_position l sy fp m) = m"
      using assms(3) by (simp_all add: action_within_def Fill_action)
    have d: "d = fq \<or> d = - fq" using w(6) by (simp add: d_def dneg_exact)
    have l': "?l = fst (book_fill l sy d fp fq fee m)"
      and snd: "snd (run_action l a) =
        rbind (verify_internal_conservation (fst (book_fill l sy d fp fq fee m))) (\<lambda>_. Inr ())"
      using w by (auto simp: Fill_action run_action_def process_fill_def d_def Let_def split_def rbind_def
          split: sum.splits)
    show ?thesis
      using book_fill_near [OF assms(1,2) w(1-4) w(7-9) d l' assms(4)] by (simp add: snd l')
  qed
  then show "ledger_sound ?l" "near 26 B (cost_residual ?l) (cost_residual l)"
    "verify_internal_conservation ?l = Inr () \<Longrightarrow> snd (run_action l a) = Inr ()" by blast+
qed

lemma run_accepted:
  assumes "run_within (10 ^ 12) l as" and "ledger_sound l" and "k + length as \<le> 6000"
    and "\<bar>cost_residual l\<bar> \<le> of_nat k * (26 * ulp * 10 ^ 12)"
  shows "all_accepted l as"
  using assms
proof (induction as arbitrary: l k)
  case (Cons a as)
  let ?l = "fst (run_action l a)" and ?e = "26 * ulp * 10 ^ 12"
  have within: "ledger_within (10 ^ 12) l" "action_within (10 ^ 12) l a" "run_within (10 ^ 12) ?l as"
    using Cons.prems(1) by simp_all
  then have within': "ledger_within (10 ^ 12) ?l" by (cases as) simp_all
  note step = run_action_near [OF Cons.prems(2) within(1,2) within']
  have residual: "\<bar>cost_residual ?l\<bar> \<le> of_nat (Suc k) * ?e"
    using step(2) Cons.prems(4) by (simp add: near_def algebra_simps)
  have "of_nat (Suc k) * ?e \<le> 6000 * ?e"
    using Cons.prems(3) ulp_pos(2) by (intro mult_right_mono) auto
  also have "6000 * ?e \<le> 9 / 10 ^ 11" by (simp add: ulp_def)
  finally have "\<bar>cost_residual ?l\<bar> \<le> 9 / 10 ^ 11" using residual by linarith
  then have "snd (run_action l a) = Inr ()" using step(1,3) within' check_passes by blast
  moreover have "all_accepted ?l as"
    by (rule Cons.IH [OF within(3) step(1) _ residual]) (use Cons.prems(3) in simp)
  ultimately show ?case by simp
qed simp

subsection \<open>Properties\<close>

text \<open>C4: The conservation check never raises because of rounding.  From a new ledger, a run of up to
  6,000 fills and price updates in any order, over at most 100 positions, with every amount within
  10 to the 12th and each fill under the multiplier of its position, is accepted step by step: opening,
  averaging, reducing, closing and reversing longs and shorts move the two views of equity by the
  same exact amount, and the accumulated rounding of 28-digit arithmetic stays below the
  tolerance.  So a conservation error is a booking error.\<close>

theorem conservation_check_has_no_false_alarms:
  assumes "mk_shadow_ledger starting_cash currency = Inr l" and "run_within (10 ^ 12) l as"
    and "length as \<le> 6000"
  shows "all_accepted l as"
proof (rule run_accepted [OF assms(2), of 0])
  have l: "l = \<lparr>sl_starting_cash = starting_cash, sl_base_currency = currency, sl_cash = starting_cash,
      sl_positions = [], sl_external_flows = 0, sl_realized = 0, sl_fees = 0, sl_financing = 0\<rparr>"
    using assms(1) by (simp add: mk_shadow_ledger_def split: if_splits)
  show "ledger_sound l" by (simp add: l ledger_sound_def dict_wf_def dict_values_def)
  show "\<bar>cost_residual l\<bar> \<le> of_nat 0 * (26 * ulp * 10 ^ 12)"
    by (simp add: l cost_residual_def position_sum_def dict_values_def)
qed (use assms(3) in simp)

definition opened_ledger :: shadow_ledger where
  "opened_ledger = \<lparr>sl_starting_cash = 100000, sl_base_currency = ''USD'', sl_cash = 100000,
     sl_positions = [], sl_external_flows = 0, sl_realized = 0, sl_fees = 0, sl_financing = 0\<rparr>"

definition spy_ledger :: "dec \<Rightarrow> dec \<Rightarrow> dec \<Rightarrow> dec \<Rightarrow> dec \<Rightarrow> dec \<Rightarrow> dec \<Rightarrow> shadow_ledger" where
  "spy_ledger cash q avg price r u fees = opened_ledger\<lparr>sl_cash := cash, sl_realized := r, sl_fees := fees,
     sl_positions := [(''SPY'', \<lparr>sh_symbol = ''SPY'', sh_quantity = q, sh_avg_entry = avg,
       sh_market_price = price, sh_multiplier = 1, sh_realized = r, sh_unrealized = u\<rparr>)]\<rparr>"

lemmas ledger_eval =
  run_action_def process_fill_def book_fill_def current_position_def fresh_position_def
  fill_shadow_position_def fill_scenario_def update_market_price_def sh_is_flat_def
  string_eval dec_ops opened_ledger_def spy_ledger_def

lemma sample_steps:
  "fst (run_action opened_ledger (Fill_action ''SPY'' ''BUY'' 100 10 1 1)) = spy_ledger 98999 10 100 100 0 0 1"
  "fst (run_action (spy_ledger 98999 10 100 100 0 0 1) (Fill_action ''SPY'' ''SELL'' 110 15 1 1)) =
     spy_ledger 100648 (- 5) 110 110 100 0 2"
  "fst (run_action (spy_ledger 100648 (- 5) 110 110 100 0 2) (Price_action ''SPY'' 120)) =
     spy_ledger 100648 (- 5) 110 120 100 (- 50) 2"
  by (simp_all add: ledger_eval dec_eval)

lemmas limits_eval = ledger_within_def action_within_def position_sum_def notional_def dict_values_def
  dec28_code

lemma conservation_check_has_no_false_alarms_witness:
  "all_accepted opened_ledger [Fill_action ''SPY'' ''BUY'' 100 10 1 1,
     Fill_action ''SPY'' ''SELL'' 110 15 1 1, Price_action ''SPY'' 120]"
proof (rule conservation_check_has_no_false_alarms)
  show "mk_shadow_ledger 100000 ''USD'' = Inr opened_ledger"
    by (simp add: mk_shadow_ledger_def opened_ledger_def)
  show "run_within (10 ^ 12) opened_ledger [Fill_action ''SPY'' ''BUY'' 100 10 1 1,
     Fill_action ''SPY'' ''SELL'' 110 15 1 1, Price_action ''SPY'' 120]"
    unfolding run_within.simps sample_steps
    by (intro conjI) (simp_all add: limits_eval ledger_eval dec_eval)
qed simp

text \<open>A fill under another multiplier than its position's raises, but only after it was booked: the
  caller that catches the error is left with the cash spent and the position grown, and the
  valid price update that follows raises as well.\<close>

definition futures_ledger :: "dec \<Rightarrow> dec \<Rightarrow> dec \<Rightarrow> shadow_ledger" where
  "futures_ledger cash q m = opened_ledger\<lparr>sl_cash := cash, sl_positions :=
     [(''ES'', \<lparr>sh_symbol = ''ES'', sh_quantity = q, sh_avg_entry = 100, sh_market_price = 100,
       sh_multiplier = m, sh_realized = 0, sh_unrealized = 0\<rparr>)]\<rparr>"

lemmas views_eval = verify_internal_conservation_def balance_sheet_equity_def attribution_equity_def
  accounting_tolerance_def futures_ledger_def opened_ledger_def

theorem rejected_fill_stays_booked:
  "run_action (futures_ledger 99000 10 1) (Fill_action ''ES'' ''BUY'' 100 10 0 2) =
     (futures_ledger 97000 20 2, Inl (LedgerContractError ''conservation'')) \<and>
   run_action opened_ledger (Fill_action ''ES'' ''BUY'' 100 10 0 1) = (futures_ledger 99000 10 1, Inr ()) \<and>
   snd (run_action (futures_ledger 97000 20 2) (Price_action ''ES'' 100)) =
     Inl (LedgerContractError ''conservation'')"
  by (intro conjI) (simp_all add: views_eval ledger_eval dec_eval dict_values_def position_value_def dsum_def)

end
