(* ===== verification/Mt5Sizing.thy ===== *)
theory Mt5Sizing
  imports Domain OrderAdmission Rounding
begin

section \<open>Sizing and pricing of MetaTrader 5 orders\<close>

text \<open>
  \<open>execution/mt5/normalizer.py\<close> with the symbol specification of \<open>schemas.py\<close> and the order types
  of \<open>enums.py\<close>: volumes are cut down to the lot grid of the broker, prices snapped to the tick grid
  on the passive side, stop distances and the passivity of book-or-cancel orders checked.  The code runs
  in its own 28-digit context.  The volume step is a decimal object, because \<open>quantize\<close> reads its
  exponent; other amounts are their values.
\<close>

datatype mt5_order_type =
    MT_BUY | MT_SELL | MT_BUY_LIMIT | MT_SELL_LIMIT | MT_BUY_STOP | MT_SELL_STOP
  | MT_BUY_STOP_LIMIT | MT_SELL_STOP_LIMIT | MT_CLOSE_BY

datatype mt5_execution_mode = EXECUTION_REQUEST | EXECUTION_INSTANT | EXECUTION_MARKET | EXECUTION_EXCHANGE

datatype mt5_error =
    SymbolSpecError string
  | Mt5ValidationError string
  | FillingModeError string
  | RetcodeError int
  | Mt5DomainError string
  | NotFinite domain_error
  | DecimalInvalidOperation

subsection \<open>Symbol specification\<close>

record symbol_spec =
  ms_canonical_symbol :: string
  ms_broker_symbol :: string
  ms_contract_size :: dec
  ms_volume_min :: dec
  ms_volume_max :: dec
  ms_volume_step :: py_decimal
  ms_digits :: nat
  ms_point_size :: dec
  ms_tick_size :: dec
  ms_execution_mode :: mt5_execution_mode
  ms_filling_flags :: "string list"
  ms_order_modes :: "string list"
  ms_stops_level :: nat
  ms_margin_currency :: string
  ms_profit_currency :: string
  ms_spec_digest :: string

abbreviation step_value :: "symbol_spec \<Rightarrow> dec" where
  "step_value s \<equiv> dec_value (ms_volume_step s)"

definition mk_symbol_spec :: "symbol_spec \<Rightarrow> mt5_error + symbol_spec" where
  "mk_symbol_spec s =
     (if ms_canonical_symbol s = [] then Inl (Mt5ValidationError ''canonical_symbol'')
      else if ms_broker_symbol s = [] then Inl (Mt5ValidationError ''broker_symbol'')
      else if ms_contract_size s \<le> 0 then Inl (SymbolSpecError ''contract_size'')
      else if ms_volume_min s \<le> 0 then Inl (SymbolSpecError ''volume_min'')
      else if ms_volume_max s \<le> 0 then Inl (SymbolSpecError ''volume_max'')
      else if ms_volume_max s < ms_volume_min s then Inl (SymbolSpecError ''volume_max'')
      else if step_value s \<le> 0 then Inl (SymbolSpecError ''volume_step'')
      else if ms_point_size s \<le> 0 then Inl (SymbolSpecError ''point_size'')
      else if ms_tick_size s \<le> 0 then Inl (SymbolSpecError ''tick_size'')
      else if ms_margin_currency s = [] then Inl (Mt5ValidationError ''margin_currency'')
      else if ms_profit_currency s = [] then Inl (Mt5ValidationError ''profit_currency'')
      else if \<not> valid_sha256 (ms_spec_digest s) then Inl (Mt5ValidationError ''spec_digest'')
      else Inr s)"

definition spec_ok :: "symbol_spec \<Rightarrow> bool" where
  "spec_ok s \<longleftrightarrow> 0 < ms_contract_size s \<and> 0 < ms_volume_min s \<and> ms_volume_min s \<le> ms_volume_max s \<and>
     0 < step_value s \<and> 0 < ms_point_size s \<and> 0 < ms_tick_size s"

lemma mk_symbol_spec_ok: "mk_symbol_spec s = Inr s' \<Longrightarrow> s' = s \<and> spec_ok s"
  by (auto simp: mk_symbol_spec_def spec_ok_def not_le not_less split: if_splits)

subsection \<open>Rounding to a grid\<close>

datatype rounding_mode = ROUND_DOWN | ROUND_FLOOR | ROUND_CEILING | ROUND_HALF_EVEN

text \<open>\<open>to_integral_value\<close>, which is exact.\<close>

definition to_integral :: "rounding_mode \<Rightarrow> rat \<Rightarrow> int" where
  "to_integral mode x =
     (case mode of
        ROUND_DOWN \<Rightarrow> (if 0 \<le> x then \<lfloor>x\<rfloor> else \<lceil>x\<rceil>)
      | ROUND_FLOOR \<Rightarrow> \<lfloor>x\<rfloor>
      | ROUND_CEILING \<Rightarrow> \<lceil>x\<rceil>
      | ROUND_HALF_EVEN \<Rightarrow> rhe x)"

text \<open>\<open>quantize\<close> to the exponent \<open>e\<close>: it raises when the result needs more than 28 digits.\<close>

definition quantize :: "rounding_mode \<Rightarrow> int \<Rightarrow> dec \<Rightarrow> mt5_error + dec" where
  "quantize mode e x =
     (let c = to_integral mode (x / pow10 e)
      in if 10 ^ 28 \<le> \<bar>c\<bar> then Inl DecimalInvalidOperation else Inr (of_int c * pow10 e))"

definition finite_dec :: "raw_dec \<Rightarrow> string \<Rightarrow> mt5_error + dec" where
  "finite_dec v field = (case ensure_finite_decimal v field of Inl e \<Rightarrow> Inl (NotFinite e) | Inr x \<Rightarrow> Inr x)"

subsection \<open>Volumes\<close>

definition normalize_volume :: "raw_dec \<Rightarrow> symbol_spec \<Rightarrow> mt5_error + dec" where
  "normalize_volume target s =
     rbind (finite_dec target ''target_units'') (\<lambda>t.
     if t \<le> 0 then Inl (Mt5ValidationError ''TARGET_UNITS_MUST_BE_POSITIVE'')
     else
       let raw_lots = ddiv t (ms_contract_size s) in
       if ms_volume_max s < raw_lots then Inl (Mt5ValidationError ''RAW_VOLUME_EXCEEDS_MAXIMUM'')
       else
         let steps = to_integral ROUND_DOWN (ddiv raw_lots (step_value s));
             quantized = dmul (of_int steps) (step_value s) in
         if quantized < ms_volume_min s then Inl (Mt5ValidationError ''VOLUME_BELOW_MINIMUM'')
         else if ms_volume_max s < quantized then Inl (Mt5ValidationError ''VOLUME_ABOVE_MAXIMUM'')
         else quantize ROUND_DOWN (dc_exp (ms_volume_step s)) quantized)"

definition convert_units_to_lots :: "raw_dec \<Rightarrow> symbol_spec \<Rightarrow> mt5_error + dec" where
  "convert_units_to_lots target s =
     rbind (finite_dec target ''target_units'') (\<lambda>t.
     if t \<le> 0 then Inl (Mt5ValidationError ''target_units'') else Inr (ddiv t (ms_contract_size s)))"

definition convert_lots_to_units :: "raw_dec \<Rightarrow> symbol_spec \<Rightarrow> mt5_error + dec" where
  "convert_lots_to_units lots s =
     rbind (finite_dec lots ''lots'') (\<lambda>l.
     if l \<le> 0 then Inl (Mt5ValidationError ''lots'') else Inr (dmul l (ms_contract_size s)))"

subsection \<open>Prices\<close>

definition price_mode :: "mt5_order_type \<Rightarrow> rounding_mode" where
  "price_mode ty =
     (if ty = MT_BUY_LIMIT \<or> ty = MT_SELL_STOP then ROUND_FLOOR
      else if ty = MT_SELL_LIMIT \<or> ty = MT_BUY_STOP then ROUND_CEILING
      else ROUND_HALF_EVEN)"

definition normalize_price :: "raw_dec \<Rightarrow> symbol_spec \<Rightarrow> mt5_order_type \<Rightarrow> mt5_error + dec" where
  "normalize_price raw s ty =
     rbind (finite_dec raw ''raw_price'') (\<lambda>r.
     if r \<le> 0 then Inl (Mt5ValidationError ''PRICE_MUST_BE_POSITIVE'')
     else
       let mode = price_mode ty;
           ticks = to_integral mode (ddiv r (ms_tick_size s));
           snapped = dmul (of_int ticks) (ms_tick_size s)
       in quantize mode (- int (ms_digits s)) snapped)"

definition validate_stop_level :: "raw_dec \<Rightarrow> raw_dec \<Rightarrow> symbol_spec \<Rightarrow> mt5_error + unit" where
  "validate_stop_level order_price reference_price s =
     rbind (finite_dec order_price ''order_price'') (\<lambda>p.
     rbind (finite_dec reference_price ''reference_price'') (\<lambda>r.
     if p \<le> 0 then Inl (Mt5ValidationError ''order_price'')
     else if r \<le> 0 then Inl (Mt5ValidationError ''reference_price'')
     else if dabs (dsub p r) < dmul (of_nat (ms_stops_level s)) (ms_point_size s)
       then Inl (Mt5ValidationError ''STOP_LEVEL_VIOLATION'')
     else Inr ()))"

definition not_passive :: "mt5_error + unit" where
  "not_passive = Inl (Mt5ValidationError ''BOC_PRICE_NOT_PASSIVE'')"

definition validate_boc_passivity ::
    "mt5_order_type \<Rightarrow> raw_dec \<Rightarrow> raw_dec \<Rightarrow> raw_dec \<Rightarrow> raw_dec option \<Rightarrow> mt5_error + unit" where
  "validate_boc_passivity ty limit_price current_bid current_ask trigger =
     rbind (finite_dec limit_price ''limit_price'') (\<lambda>p.
     rbind (finite_dec current_bid ''current_bid'') (\<lambda>bid.
     rbind (finite_dec current_ask ''current_ask'') (\<lambda>ask.
     if p \<le> 0 then Inl (Mt5ValidationError ''limit_price'')
     else if bid \<le> 0 then Inl (Mt5ValidationError ''current_bid'')
     else if ask \<le> 0 then Inl (Mt5ValidationError ''current_ask'')
     else if ask \<le> bid then Inl (Mt5ValidationError ''INVALID_MARKET_SPREAD'')
     else
       case ty of
         MT_BUY_LIMIT \<Rightarrow> if ask \<le> p then not_passive else Inr ()
       | MT_SELL_LIMIT \<Rightarrow> if p \<le> bid then not_passive else Inr ()
       | MT_BUY_STOP_LIMIT \<Rightarrow>
           (case trigger of None \<Rightarrow> Inl (Mt5ValidationError ''trigger_price'')
            | Some v \<Rightarrow> rbind (finite_dec v ''trigger_price'') (\<lambda>t.
                if t \<le> ask then not_passive else if t \<le> p then not_passive else Inr ()))
       | MT_SELL_STOP_LIMIT \<Rightarrow>
           (case trigger of None \<Rightarrow> Inl (Mt5ValidationError ''trigger_price'')
            | Some v \<Rightarrow> rbind (finite_dec v ''trigger_price'') (\<lambda>t.
                if bid \<le> t then not_passive else if p \<le> t then not_passive else Inr ()))
       | _ \<Rightarrow> Inl (Mt5ValidationError ''BOC_UNSUPPORTED_ORDER_TYPE''))))"

subsection \<open>What a grid rounding leaves\<close>

lemma to_integral_of_int [simp]: "to_integral mode (of_int n) = n"
  by (cases mode) (simp_all add: to_integral_def)

lemma to_integral_mono: "x \<le> y \<Longrightarrow> to_integral mode x \<le> to_integral mode y"
proof (cases mode)
  case ROUND_DOWN
  assume "x \<le> y"
  moreover have "\<lceil>x\<rceil> \<le> \<lfloor>y\<rfloor>" if "x < 0" "0 \<le> y"
    using that order_trans [of "\<lceil>x\<rceil>" 0 "\<lfloor>y\<rfloor>"] by simp
  ultimately show ?thesis
    by (auto simp: to_integral_def ROUND_DOWN floor_mono ceiling_mono not_le)
qed (simp_all add: to_integral_def rhe_mono floor_mono ceiling_mono)

text \<open>Whatever the product of a grid rounded to, \<open>quantize\<close> either returns the exact multiple or raises.\<close>

lemma quantize_multiple:
  assumes "quantize mode e (dmul (of_int n) (of_int c * pow10 e)) = Inr v"
  shows "v = of_int n * (of_int c * pow10 e)" and "dmul (of_int n) (of_int c * pow10 e) = v"
proof -
  define k where "k = n * c"
  have prod: "of_int n * (of_int c * pow10 e) = of_int k * pow10 e" by (simp add: k_def)
  define i where "i = to_integral mode (dround (of_int k * pow10 e) / pow10 e)"
  have v: "\<bar>i\<bar> < 10 ^ 28" "v = of_int i * pow10 e"
    using assms by (auto simp: quantize_def dmul_def prod i_def Let_def split: if_splits)
  have big: "dround (10 ^ 28 * pow10 e) = 10 ^ 28 * pow10 e"
    by (intro dround_exact dec28I [of _ "10 ^ 28" e]) simp_all
  have "\<bar>k\<bar> \<le> 10 ^ 28"
  proof (rule ccontr)
    assume "\<not> \<bar>k\<bar> \<le> 10 ^ 28"
    then consider "10 ^ 28 \<le> k" | "k \<le> - (10 ^ 28)" by linarith
    then show False
    proof cases
      case 1
      then have "(10 :: rat) ^ 28 \<le> of_int k" by (metis of_int_le_iff of_int_numeral of_int_power)
      then have "10 ^ 28 * pow10 e \<le> of_int k * pow10 e" by (rule mult_right_mono) (simp add: less_imp_le)
      from dround_mono [OF this] have "10 ^ 28 \<le> dround (of_int k * pow10 e) / pow10 e"
        by (simp add: big [simplified] pos_le_divide_eq)
      from to_integral_mono [OF this, of mode] have "10 ^ 28 \<le> i"
        using to_integral_of_int [of mode "10 ^ 28"] by (simp add: i_def)
      then show False using v(1) by simp
    next
      case 2
      then have "of_int k \<le> (- (10 ^ 28) :: rat)"
        by (metis of_int_le_iff of_int_minus of_int_numeral of_int_power)
      then have "of_int k * pow10 e \<le> - (10 ^ 28) * pow10 e" by (rule mult_right_mono) (simp add: less_imp_le)
      from dround_mono [OF this] have "dround (of_int k * pow10 e) / pow10 e \<le> - (10 ^ 28)"
        using dround_minus [of "10 ^ 28 * pow10 e"] by (simp add: big [simplified] pos_divide_le_eq)
      from to_integral_mono [OF this, of mode] have "i \<le> - (10 ^ 28)"
        using to_integral_of_int [of mode "- (10 ^ 28)"] by (simp add: i_def)
      then show False using v(1) by simp
    qed
  qed
  then have exact: "dround (of_int k * pow10 e) = of_int k * pow10 e"
    by (intro dround_exact dec28I [of _ k e]) simp_all
  then have "i = k" by (simp add: i_def)
  then show "v = of_int n * (of_int c * pow10 e)" by (simp add: v(2) prod)
  then show "dmul (of_int n) (of_int c * pow10 e) = v" by (simp add: dmul_def prod exact)
qed

lemma dround_relative:
  assumes "0 < x"
  shows "dround x \<le> x * (1 + ulp)" and "x * (1 - ulp) \<le> dround x"
  using dround_ulp [of x] assms by (simp_all add: algebra_simps abs_le_iff)

lemma step_multiple: "dec_value d = of_int ((if dc_negative d then - 1 else 1) * int (dc_coeff d)) * pow10 (dc_exp d)"
  by (simp add: dec_value_def)

lemma normalize_volume_cases:
  assumes "normalize_volume (Fin t) s = Inr v" and "spec_ok s"
  obtains n where "0 < t" and "0 \<le> n" and "n = \<lfloor>ddiv (ddiv t (ms_contract_size s)) (step_value s)\<rfloor>"
    and "v = of_int n * step_value s" and "ms_volume_min s \<le> v" and "v \<le> ms_volume_max s"
proof -
  define n where "n = \<lfloor>ddiv (ddiv t (ms_contract_size s)) (step_value s)\<rfloor>"
  have t: "0 < t" using assms(1) by (auto simp: normalize_volume_def finite_dec_def ensure_finite_decimal_def
      Let_def split: if_splits)
  have pos: "0 < ms_contract_size s" "0 < step_value s" using assms(2) by (simp_all add: spec_ok_def)
  have nonneg: "0 \<le> ddiv (ddiv t (ms_contract_size s)) (step_value s)" using t pos by simp
  then have n: "to_integral ROUND_DOWN (ddiv (ddiv t (ms_contract_size s)) (step_value s)) = n"
    by (simp add: n_def to_integral_def)
  have q: "quantize ROUND_DOWN (dc_exp (ms_volume_step s)) (dmul (of_int n) (step_value s)) = Inr v"
    and bounds: "ms_volume_min s \<le> dmul (of_int n) (step_value s)" "dmul (of_int n) (step_value s) \<le> ms_volume_max s"
    using assms(1) t n by (auto simp: normalize_volume_def finite_dec_def ensure_finite_decimal_def
      Let_def not_less split: if_splits)
  have v: "v = of_int n * step_value s" "dmul (of_int n) (step_value s) = v"
    using quantize_multiple [OF q [unfolded step_multiple]] by (simp_all add: step_multiple)
  have "0 \<le> n" using nonneg by (simp add: n_def)
  then show thesis using that [of n] t v bounds n_def by simp
qed

subsection \<open>Properties of volumes\<close>

text \<open>C34: A normalized volume is a whole number of volume steps within the broker's limits, and it is
  the largest such number the target pays for: the units it stands for exceed the target by no more
  than the rounding of the two divisions (two parts in 10 to the 27th, and not at all when
  the quotients have at most 28 digits), and one more step would be more than the target.\<close>

theorem normalized_volume_fits_target:
  assumes "normalize_volume (Fin t) s = Inr v" and "spec_ok s"
  shows "(\<exists>n. v = of_int n * step_value s) \<and> ms_volume_min s \<le> v \<and> v \<le> ms_volume_max s \<and>
     v * ms_contract_size s \<le> t * (1 + 2 / 10 ^ 27) \<and>
     t * (1 - 2 / 10 ^ 27) < (v + step_value s) * ms_contract_size s \<and>
     (dec28 (t / ms_contract_size s) \<and> dec28 (t / ms_contract_size s / step_value s)
       \<longrightarrow> v * ms_contract_size s \<le> t \<and> t < (v + step_value s) * ms_contract_size s)"
proof -
  obtain n where t: "0 < t" and n: "0 \<le> n" "n = \<lfloor>ddiv (ddiv t (ms_contract_size s)) (step_value s)\<rfloor>"
    and v: "v = of_int n * step_value s" and limits: "ms_volume_min s \<le> v" "v \<le> ms_volume_max s"
    using normalize_volume_cases [OF assms] by blast
  let ?c = "ms_contract_size s" and ?st = "step_value s"
  have pos: "0 < ?c" "0 < ?st" using assms(2) by (simp_all add: spec_ok_def)
  define raw where "raw = ddiv t ?c"
  have raw: "raw \<le> t / ?c * (1 + ulp)" "t / ?c * (1 - ulp) \<le> raw" "0 < raw"
    using dround_relative [of "t / ?c"] dround_pos [of "t / ?c"] t pos by (simp_all add: raw_def ddiv_def)
  define q where "q = ddiv raw ?st"
  have q: "q \<le> raw / ?st * (1 + ulp)" "raw / ?st * (1 - ulp) \<le> q"
    using dround_relative [of "raw / ?st"] raw(3) pos by (simp_all add: q_def ddiv_def)
  have fl: "of_int n \<le> q" "q < of_int n + 1" unfolding n(2) q_def raw_def by linarith+
  have u: "0 < ulp" "ulp < 1" "(1 + ulp) * (1 + ulp) \<le> 1 + 2 / 10 ^ 27" "1 - 2 / 10 ^ 27 \<le> (1 - ulp) * (1 - ulp)"
    by (simp_all add: ulp_def)
  have "v \<le> raw * (1 + ulp)"
    using fl(1) q(1) pos(2) mult_right_mono [of "of_int n" "raw / ?st * (1 + ulp)" ?st] by (simp add: v)
  also have "\<dots> \<le> t / ?c * (1 + ulp) * (1 + ulp)" using raw(1) u by (intro mult_right_mono) simp_all
  also have "\<dots> = t / ?c * ((1 + ulp) * (1 + ulp))" by simp
  also have "\<dots> \<le> t / ?c * (1 + 2 / 10 ^ 27)" using u(3) t pos by (intro mult_left_mono) simp_all
  finally have upper: "v * ?c \<le> t * (1 + 2 / 10 ^ 27)" using pos(1) by (simp add: field_simps)
  have "t / ?c * (1 - 2 / 10 ^ 27) \<le> t / ?c * ((1 - ulp) * (1 - ulp))"
    using u(4) t pos by (intro mult_left_mono) simp_all
  also have "\<dots> = t / ?c * (1 - ulp) * (1 - ulp)" by simp
  also have "\<dots> \<le> raw * (1 - ulp)" using raw(2) u(2) by (intro mult_right_mono) simp_all
  also have "\<dots> = raw / ?st * (1 - ulp) * ?st" using pos by simp
  also have "\<dots> < (of_int n + 1) * ?st" using q(2) fl(2) pos(2) by (intro mult_strict_right_mono) linarith+
  finally have lower: "t * (1 - 2 / 10 ^ 27) < (v + ?st) * ?c"
    using pos(1) by (simp add: v field_simps)
  have exact: "v * ?c \<le> t \<and> t < (v + ?st) * ?c" if "dec28 (t / ?c)" "dec28 (t / ?c / ?st)"
  proof -
    have "q = t / ?c / ?st" using that by (simp add: q_def raw_def ddiv_def dround_exact)
    then have "t = q * (?c * ?st)" using pos by (simp add: field_simps)
    then show ?thesis
      using mult_right_mono [OF fl(1), of "?c * ?st"] mult_strict_right_mono [OF fl(2), of "?c * ?st"] pos
      by (simp add: v algebra_simps)
  qed
  show ?thesis using v limits upper lower exact by blast
qed

definition sample_spec :: symbol_spec where
  "sample_spec =
     \<lparr>ms_canonical_symbol = ''EURUSD'', ms_broker_symbol = ''EURUSD.pro'', ms_contract_size = 100000,
      ms_volume_min = 1 / 100, ms_volume_max = 50,
      ms_volume_step = \<lparr>dc_negative = False, dc_coeff = 1, dc_exp = - 2\<rparr>, ms_digits = 5,
      ms_point_size = 1 / 100000, ms_tick_size = 1 / 100000, ms_execution_mode = EXECUTION_EXCHANGE,
      ms_filling_flags = [''SYMBOL_FILLING_BOC''], ms_order_modes = [], ms_stops_level = 10,
      ms_margin_currency = ''EUR'', ms_profit_currency = ''USD'', ms_spec_digest = replicate 64 CHR ''a''\<rparr>"

lemmas sizing_eval = normalize_volume_def normalize_price_def finite_dec_def ensure_finite_decimal_def
  quantize_def to_integral_def price_mode_def dec_value_def dec_ops floor_rat_numerals

lemma sample_spec_ok: "spec_ok sample_spec"
  by (simp add: spec_ok_def sample_spec_def dec_value_def pow10_def)

lemma normalized_volume_fits_target_witness:
  "normalize_volume (Fin 123456) sample_spec = Inr (123 / 100) \<and>
   123 / 100 * 100000 \<le> (123456 :: rat) * (1 + 2 / 10 ^ 27)"
proof -
  have h: "normalize_volume (Fin 123456) sample_spec = Inr (123 / 100)"
    by (simp add: sizing_eval sample_spec_def dec_eval)
  have "ms_contract_size sample_spec = 100000" by (simp add: sample_spec_def)
  with normalized_volume_fits_target [OF h sample_spec_ok] h show ?thesis by simp
qed

text \<open>Cutting down is done after a division that rounds to the nearest, so the budget can be exceeded:
  with a contract of half a unit, a target just below one unit buys two lots, one whole unit.\<close>

theorem rounded_lots_exceed_target:
  "normalize_volume (Fin (1 - 1 / 10 ^ 28))
     (sample_spec\<lparr>ms_contract_size := 1 / 2, ms_volume_step := \<lparr>dc_negative = False, dc_coeff = 1, dc_exp = 0\<rparr>\<rparr>)
     = Inr 2 \<and> (1 - 1 / 10 ^ 28 :: rat) < 2 * (1 / 2)"
  by (simp add: sizing_eval sample_spec_def dec_eval)

subsection \<open>Properties of prices\<close>

text \<open>The specification states a tick that its digits can write.\<close>

definition tick_on_digits :: "symbol_spec \<Rightarrow> int \<Rightarrow> bool" where
  "tick_on_digits s c \<longleftrightarrow> ms_tick_size s = of_int c * pow10 (- int (ms_digits s))"

lemma normalize_price_cases:
  assumes "normalize_price (Fin r) s ty = Inr p" and "tick_on_digits s c"
  shows "0 < r" and "p = of_int (to_integral (price_mode ty) (ddiv r (ms_tick_size s))) * ms_tick_size s"
proof -
  show "0 < r" using assms(1)
    by (auto simp: normalize_price_def finite_dec_def ensure_finite_decimal_def Let_def split: if_splits)
  then have "quantize (price_mode ty) (- int (ms_digits s))
      (dmul (of_int (to_integral (price_mode ty) (ddiv r (ms_tick_size s)))) (ms_tick_size s)) = Inr p"
    using assms(1) by (simp add: normalize_price_def finite_dec_def ensure_finite_decimal_def Let_def)
  then show "p = of_int (to_integral (price_mode ty) (ddiv r (ms_tick_size s))) * ms_tick_size s"
    using quantize_multiple(1) assms(2) by (simp add: tick_on_digits_def)
qed

text \<open>A normalized price is a whole number of ticks, next to the raw price on the side the order
  rests: not above it for a buy limit or a sell stop, not below it for a sell limit or a buy
  stop, and less than a tick away; otherwise it is the nearest tick.  All up to the rounding of
  one division.\<close>

theorem normalized_price_rests_on_grid:
  assumes "normalize_price (Fin r) s ty = Inr p" and "spec_ok s" and "tick_on_digits s c"
  shows "(\<exists>n. p = of_int n * ms_tick_size s) \<and>
     (price_mode ty = ROUND_FLOOR \<longrightarrow> p \<le> r * (1 + 1 / 10 ^ 27) \<and> r * (1 - 1 / 10 ^ 27) < p + ms_tick_size s) \<and>
     (price_mode ty = ROUND_CEILING \<longrightarrow> r * (1 - 1 / 10 ^ 27) \<le> p \<and> p - ms_tick_size s < r * (1 + 1 / 10 ^ 27)) \<and>
     (price_mode ty = ROUND_HALF_EVEN \<longrightarrow>
       r * (1 - 1 / 10 ^ 27) \<le> p + ms_tick_size s / 2 \<and> p - ms_tick_size s / 2 \<le> r * (1 + 1 / 10 ^ 27))"
proof -
  let ?t = "ms_tick_size s" and ?q = "ddiv r (ms_tick_size s)"
  define n where "n = to_integral (price_mode ty) ?q"
  have r: "0 < r" and p: "p = of_int n * ?t"
    using normalize_price_cases [OF assms(1,3)] by (simp_all add: n_def)
  have t: "0 < ?t" using assms(2) by (simp add: spec_ok_def)
  have "?q \<le> r / ?t * (1 + 1 / 10 ^ 27)" "r / ?t * (1 - 1 / 10 ^ 27) \<le> ?q"
    using dround_relative [of "r / ?t"] r t mult_left_mono [of "1 + ulp" "1 + 1 / 10 ^ 27" "r / ?t"]
      mult_left_mono [of "1 - 1 / 10 ^ 27" "1 - ulp" "r / ?t"]
    by (simp_all add: ddiv_def ulp_def)
  then have q: "?q * ?t \<le> r * (1 + 1 / 10 ^ 27)" "r * (1 - 1 / 10 ^ 27) \<le> ?q * ?t"
    using t by (simp_all add: field_simps)
  note up = mult_right_mono [OF _ less_imp_le [OF t]] and strict = mult_strict_right_mono [OF _ t]
  have floor: "p \<le> ?q * ?t" "?q * ?t < p + ?t" if "price_mode ty = ROUND_FLOOR"
    using up [of "of_int n" ?q] strict [of ?q "of_int n + 1"] that floor_correct [of ?q]
    by (simp_all add: p n_def to_integral_def distrib_right)
  have ceiling: "?q * ?t \<le> p" "p - ?t < ?q * ?t" if "price_mode ty = ROUND_CEILING"
    using up [of ?q "of_int n"] strict [of "of_int n - 1" ?q] that ceiling_correct [of ?q]
    by (simp_all add: p n_def to_integral_def left_diff_distrib)
  have half: "?q * ?t \<le> p + ?t / 2" "p - ?t / 2 \<le> ?q * ?t" if "price_mode ty = ROUND_HALF_EVEN"
    using up [of ?q "of_int n + 1 / 2"] up [of "of_int n - 1 / 2" ?q] that rhe_bounds [of ?q]
    by (simp_all add: p n_def to_integral_def algebra_simps)
  have "p \<le> r * (1 + 1 / 10 ^ 27) \<and> r * (1 - 1 / 10 ^ 27) < p + ?t" if "price_mode ty = ROUND_FLOOR"
    using q floor [OF that] by linarith
  moreover have "r * (1 - 1 / 10 ^ 27) \<le> p \<and> p - ?t < r * (1 + 1 / 10 ^ 27)" if "price_mode ty = ROUND_CEILING"
    using q ceiling [OF that] by linarith
  moreover have "r * (1 - 1 / 10 ^ 27) \<le> p + ?t / 2 \<and> p - ?t / 2 \<le> r * (1 + 1 / 10 ^ 27)"
    if "price_mode ty = ROUND_HALF_EVEN"
    using q half [OF that] by linarith
  ultimately show ?thesis using p by blast
qed

lemma normalized_price_rests_on_grid_witness:
  "normalize_price (Fin (1234567 / 1000000)) sample_spec MT_BUY_LIMIT = Inr (123456 / 100000) \<and>
   (\<exists>n. (123456 / 100000 :: rat) = of_int n * ms_tick_size sample_spec)"
proof -
  have h: "normalize_price (Fin (1234567 / 1000000)) sample_spec MT_BUY_LIMIT = Inr (123456 / 100000)"
    by (simp add: sizing_eval sample_spec_def dec_eval)
  have "tick_on_digits sample_spec 1" by (simp add: tick_on_digits_def sample_spec_def pow10_def)
  from normalized_price_rests_on_grid [OF h sample_spec_ok this] h show ?thesis by blast
qed

text \<open>Snapping keeps a limit order passive: a book-or-cancel check that the raw price passes is passed
  by the snapped price too, provided it is still positive.\<close>

theorem snapping_keeps_passivity:
  assumes "normalize_price (Fin r) s ty = Inr p" and "spec_ok s" and "tick_on_digits s c"
    and "dec28 (r / ms_tick_size s)" and "ty = MT_BUY_LIMIT \<or> ty = MT_SELL_LIMIT"
    and "validate_boc_passivity ty (Fin r) bid ask trigger = Inr ()" and "0 < p"
  shows "validate_boc_passivity ty (Fin p) bid ask trigger = Inr ()"
proof -
  have t: "0 < ms_tick_size s" using assms(2) by (simp add: spec_ok_def)
  have "ddiv r (ms_tick_size s) = r / ms_tick_size s" using assms(4) by (simp add: ddiv_def dround_exact)
  then have p: "p = of_int (to_integral (price_mode ty) (r / ms_tick_size s)) * ms_tick_size s"
    using normalize_price_cases [OF assms(1,3)] by simp
  have "ty = MT_BUY_LIMIT \<Longrightarrow> p \<le> r" "ty = MT_SELL_LIMIT \<Longrightarrow> r \<le> p"
    using mult_right_mono [OF of_int_floor_le [of "r / ms_tick_size s"], of "ms_tick_size s"]
      mult_right_mono [OF le_of_int_ceiling [of "r / ms_tick_size s"], of "ms_tick_size s"] t
    by (simp_all add: p price_mode_def to_integral_def)
  then show ?thesis using assms(5-7)
    by (auto simp: validate_boc_passivity_def finite_dec_def ensure_finite_decimal_def not_passive_def
        split: if_splits raw_dec.splits)
qed

text \<open>Only the raw price is checked to be positive: below one tick a buy limit is priced at zero, and with
  a tick the digits cannot write the result leaves the tick grid.\<close>

theorem snapped_price_can_be_zero:
  "normalize_price (Fin (1 / 1000000)) sample_spec MT_BUY_LIMIT = Inr 0 \<and>
   normalize_price (Fin (10030 / 100)) (sample_spec\<lparr>ms_tick_size := 1 / 4, ms_digits := 1\<rparr>) MT_BUY_LIMIT
     = Inr (1002 / 10)"
  by (simp add: sizing_eval sample_spec_def dec_eval)

end
