(* ===== verification/Mt5Mapping.thy ===== *)
theory Mt5Mapping
  imports Mt5Sizing BrokerEvents
begin

section \<open>Mapping of orders and results of MetaTrader 5\<close>

text \<open>
  \<open>execution/mt5/mapping.py\<close> with the enums and the trade request and result of the package: how an
  order intent becomes a trade request, which filling mode it may use, how the return code of the
  terminal is read, and how the integers of the protocol are decoded.
\<close>

subsection \<open>Enumerations\<close>

datatype mt5_filling_mode = FILLING_FOK | FILLING_IOC | FILLING_RETURN | FILLING_BOC
datatype mt5_execution_policy = POLICY_DEFAULT | TAKER_SWEEP | PASSIVE_MAKER
datatype mt5_trade_action =
    ACTION_DEAL | ACTION_PENDING | ACTION_SLTP | ACTION_MODIFY | ACTION_REMOVE | ACTION_CLOSE_BY
datatype mt5_order_time = TIME_GTC | TIME_DAY | TIME_SPECIFIED | TIME_SPECIFIED_DAY

datatype mt5_deal_type =
    DEAL_BUY | DEAL_SELL | DEAL_BALANCE | DEAL_CREDIT | DEAL_CHARGE | DEAL_CORRECTION | DEAL_BONUS
  | DEAL_COMMISSION | DEAL_COMMISSION_DAILY | DEAL_COMMISSION_MONTHLY | DEAL_COMMISSION_AGENT_DAILY
  | DEAL_COMMISSION_AGENT_MONTHLY | DEAL_INTEREST | DEAL_BUY_CANCELED | DEAL_SELL_CANCELED
  | DEAL_DIVIDEND | DEAL_DIVIDEND_FRANKED | DEAL_TAX

datatype mt5_deal_entry = ENTRY_IN | ENTRY_OUT | ENTRY_INOUT | ENTRY_OUT_BY
datatype mt5_margin_mode = RETAIL_NETTING | EXCHANGE_MARGIN | RETAIL_HEDGING

subsection \<open>Decoding of protocol integers\<close>

definition deal_type_decode_map :: "(int \<times> mt5_deal_type) list" where
  "deal_type_decode_map =
     [(0, DEAL_BUY), (1, DEAL_SELL), (2, DEAL_BALANCE), (3, DEAL_CREDIT), (4, DEAL_CHARGE),
      (5, DEAL_CORRECTION), (6, DEAL_BONUS), (7, DEAL_COMMISSION), (8, DEAL_COMMISSION_DAILY),
      (9, DEAL_COMMISSION_MONTHLY), (10, DEAL_COMMISSION_AGENT_DAILY),
      (11, DEAL_COMMISSION_AGENT_MONTHLY), (12, DEAL_INTEREST), (13, DEAL_BUY_CANCELED),
      (14, DEAL_SELL_CANCELED), (15, DEAL_DIVIDEND), (16, DEAL_DIVIDEND_FRANKED), (17, DEAL_TAX)]"

definition decode_mt5_deal_type :: "int \<Rightarrow> mt5_error + mt5_deal_type" where
  "decode_mt5_deal_type raw =
     (case map_of deal_type_decode_map raw of
        None \<Rightarrow> Inl (Mt5DomainError ''UNKNOWN_MQL5_DEAL_TYPE'') | Some d \<Rightarrow> Inr d)"

definition deal_entry_decode_map :: "(int \<times> mt5_deal_entry) list" where
  "deal_entry_decode_map = [(0, ENTRY_IN), (1, ENTRY_OUT), (2, ENTRY_INOUT), (3, ENTRY_OUT_BY)]"

definition decode_mt5_deal_entry :: "int \<Rightarrow> mt5_error + mt5_deal_entry" where
  "decode_mt5_deal_entry raw =
     (case map_of deal_entry_decode_map raw of
        None \<Rightarrow> Inl (Mt5ValidationError ''UNKNOWN_DEAL_ENTRY'') | Some d \<Rightarrow> Inr d)"

definition margin_mode_decode_map :: "(int \<times> mt5_margin_mode) list" where
  "margin_mode_decode_map = [(0, RETAIL_NETTING), (1, EXCHANGE_MARGIN), (2, RETAIL_HEDGING)]"

definition decode_mt5_margin_mode :: "int \<Rightarrow> mt5_error + mt5_margin_mode" where
  "decode_mt5_margin_mode raw =
     (case map_of margin_mode_decode_map raw of
        None \<Rightarrow> Inl (Mt5DomainError ''UNKNOWN_ACCOUNT_MARGIN_MODE'') | Some d \<Rightarrow> Inr d)"

subsection \<open>Return codes\<close>

definition supported_mt5_retcodes :: "int list" where
  "supported_mt5_retcodes =
     [10004, 10006, 10007, 10008, 10009, 10010, 10011, 10012, 10013, 10014, 10015, 10016, 10017, 10018,
      10019, 10020, 10021, 10022, 10023, 10024, 10025, 10026, 10027, 10028, 10029, 10030, 10031, 10032,
      10033, 10034, 10035, 10036, 10038, 10039, 10040, 10041, 10042, 10043, 10044, 10045, 10046]"

definition reject_retcodes :: "int list" where
  "reject_retcodes =
     [10004, 10006, 10011, 10012, 10013, 10014, 10015, 10016, 10017, 10018, 10019, 10020, 10021, 10022,
      10023, 10024, 10025, 10026, 10027, 10028, 10029, 10030, 10031, 10032, 10033, 10034, 10035, 10036,
      10038, 10039, 10040, 10041, 10042, 10043, 10044, 10045, 10046]"

record mt5_trade_result =
  tr_retcode :: int
  tr_deal :: nat
  tr_order :: nat
  tr_volume :: dec
  tr_price :: dec
  tr_bid :: dec
  tr_ask :: dec
  tr_comment :: string
  tr_request_id :: nat
  tr_retcode_external :: int

definition classify_trade_result_observation :: "mt5_trade_result \<Rightarrow> bool \<Rightarrow> mt5_error + broker_event_kind" where
  "classify_trade_result_observation r confirmed =
     (let code = tr_retcode r in
      if code \<notin> set supported_mt5_retcodes then Inl (RetcodeError code)
      else if code = 10009 then (if 0 < tr_deal r \<and> confirmed then Inr BK_FILLED else Inr BK_ACK)
      else if code = 10008 then Inr BK_ACK
      else if code = 10010 then Inr BK_PARTIAL_FILL
      else if code = 10007 then Inr BK_ORDER_CANCELLED
      else if code \<in> set reject_retcodes then Inr BK_REJECT
      else Inl (RetcodeError code))"

subsection \<open>Filling modes\<close>

definition select_mt5_filling_mode ::
    "mt5_execution_mode \<Rightarrow> mt5_order_type \<Rightarrow> mt5_execution_policy \<Rightarrow> string list \<Rightarrow> mt5_error + mt5_filling_mode" where
  "select_mt5_filling_mode mode ty policy flags =
     (let has_fok = ''SYMBOL_FILLING_FOK'' \<in> set flags; has_ioc = ''SYMBOL_FILLING_IOC'' \<in> set flags in
      if ty = MT_CLOSE_BY then Inl (FillingModeError ''close_by'')
      else if ty = MT_BUY \<or> ty = MT_SELL then
        if policy = PASSIVE_MAKER then Inl (FillingModeError ''passive_market'')
        else if mode = EXECUTION_MARKET then
          if policy = TAKER_SWEEP then
            if has_ioc then Inr FILLING_IOC
            else if has_fok then Inr FILLING_FOK
            else Inl (FillingModeError ''market_execution'')
          else
            if has_fok then Inr FILLING_FOK
            else if has_ioc then Inr FILLING_IOC
            else Inl (FillingModeError ''market_execution'')
        else if has_fok then Inr FILLING_FOK
        else if has_ioc then Inr FILLING_IOC
        else Inr FILLING_RETURN
      else if policy = PASSIVE_MAKER then
        if ty \<notin> {MT_BUY_LIMIT, MT_SELL_LIMIT, MT_BUY_STOP_LIMIT, MT_SELL_STOP_LIMIT}
          then Inl (FillingModeError ''boc_type'')
        else if mode \<noteq> EXECUTION_EXCHANGE then Inl (FillingModeError ''boc_mode'')
        else if ''SYMBOL_FILLING_BOC'' \<notin> set flags then Inl (FillingModeError ''boc_flag'')
        else Inr FILLING_BOC
      else Inr FILLING_RETURN)"

subsection \<open>Trade requests\<close>

record mt5_trade_request =
  rq_action :: mt5_trade_action
  rq_magic :: int
  rq_order :: "int option"
  rq_symbol :: string
  rq_volume :: dec
  rq_price :: dec
  rq_stoplimit :: "dec option"
  rq_sl :: dec
  rq_tp :: dec
  rq_deviation :: int
  rq_type :: mt5_order_type
  rq_filling :: mt5_filling_mode
  rq_time :: mt5_order_time
  rq_expiration :: "time option"
  rq_comment :: string
  rq_position :: "int option"
  rq_position_by :: "int option"

definition ticket_ok :: "int option \<Rightarrow> bool" where
  "ticket_ok v = (case v of None \<Rightarrow> True | Some n \<Rightarrow> 0 < n)"

definition mk_trade_request :: "mt5_trade_request \<Rightarrow> mt5_error + mt5_trade_request" where
  "mk_trade_request r =
     (if rq_magic r < 0 then Inl (Mt5ValidationError ''magic'')
      else if \<not> ticket_ok (rq_order r) then Inl (Mt5ValidationError ''order'')
      else if rq_symbol r = [] then Inl (Mt5ValidationError ''symbol'')
      else if rq_volume r < 0 then Inl (Mt5ValidationError ''volume'')
      else if rq_price r < 0 then Inl (Mt5ValidationError ''price'')
      else if (case rq_stoplimit r of None \<Rightarrow> False | Some x \<Rightarrow> x \<le> 0) then Inl (Mt5ValidationError ''stoplimit'')
      else if rq_sl r < 0 then Inl (Mt5ValidationError ''sl'')
      else if rq_tp r < 0 then Inl (Mt5ValidationError ''tp'')
      else if rq_deviation r < 0 then Inl (Mt5ValidationError ''deviation'')
      else if 31 < length (rq_comment r) then Inl (Mt5ValidationError ''comment'')
      else if \<not> ticket_ok (rq_position r) then Inl (Mt5ValidationError ''position'')
      else if \<not> ticket_ok (rq_position_by r) then Inl (Mt5ValidationError ''position_by'')
      else if (rq_action r = ACTION_DEAL \<or> rq_action r = ACTION_PENDING) \<and> rq_volume r \<le> 0
        then Inl (Mt5ValidationError ''volume'')
      else if rq_action r = ACTION_REMOVE \<and> rq_order r = None then Inl (Mt5ValidationError ''order'')
      else Inr r)"

text \<open>Action, order type, price and stop-limit price of an intent.\<close>

definition request_terms ::
    "order_intent \<Rightarrow> mt5_error + mt5_trade_action \<times> mt5_order_type \<times> dec \<times> dec option" where
  "request_terms i =
     (case oi_order_type i of
        XO_MARKET \<Rightarrow>
          Inr (ACTION_DEAL, (case oi_side i of XS_BUY \<Rightarrow> MT_BUY | XS_SELL \<Rightarrow> MT_SELL), 0, None)
      | XO_LIMIT \<Rightarrow>
          (case oi_limit_price i of
             None \<Rightarrow> Inl (Mt5ValidationError ''limit_price'')
           | Some p \<Rightarrow>
               Inr (ACTION_PENDING, (case oi_side i of XS_BUY \<Rightarrow> MT_BUY_LIMIT | XS_SELL \<Rightarrow> MT_SELL_LIMIT),
                    dec_value p, None))
      | XO_STOP_LIMIT \<Rightarrow>
          (case oi_stop_price i of
             None \<Rightarrow> Inl (Mt5ValidationError ''stop_price'')
           | Some sp \<Rightarrow>
               (case oi_limit_price i of
                  None \<Rightarrow> Inl (Mt5ValidationError ''limit_price'')
                | Some p \<Rightarrow>
                    Inr (ACTION_PENDING,
                         (case oi_side i of XS_BUY \<Rightarrow> MT_BUY_STOP_LIMIT | XS_SELL \<Rightarrow> MT_SELL_STOP_LIMIT),
                         dec_value sp, Some (dec_value p)))))"

definition map_order_intent_to_trade_request ::
    "order_intent \<Rightarrow> symbol_spec \<Rightarrow> mt5_execution_policy \<Rightarrow> int \<Rightarrow> string \<Rightarrow> int option \<Rightarrow> int option
     \<Rightarrow> mt5_error + mt5_trade_request" where
  "map_order_intent_to_trade_request i s policy magic comment pos position_by =
     (if position_by \<noteq> None then Inl (Mt5ValidationError ''position_by'')
      else
        rbind (request_terms i) (\<lambda>(action, ty, price, stoplimit).
        rbind (select_mt5_filling_mode (ms_execution_mode s) ty policy (ms_filling_flags s)) (\<lambda>filling.
        mk_trade_request
          \<lparr>rq_action = action, rq_magic = magic, rq_order = None, rq_symbol = ms_broker_symbol s,
           rq_volume = dec_value (oi_quantity i), rq_price = price, rq_stoplimit = stoplimit,
           rq_sl = 0, rq_tp = 0, rq_deviation = 0, rq_type = ty, rq_filling = filling,
           rq_time = (if oi_tif i = DAY then TIME_DAY else TIME_GTC), rq_expiration = None,
           rq_comment = take 31 comment, rq_position = pos, rq_position_by = None\<rparr>)))"

subsection \<open>The policy matrix\<close>

definition market_type :: "mt5_order_type \<Rightarrow> bool" where
  "market_type ty \<longleftrightarrow> ty = MT_BUY \<or> ty = MT_SELL"

definition limit_type :: "mt5_order_type \<Rightarrow> bool" where
  "limit_type ty \<longleftrightarrow> ty \<in> {MT_BUY_LIMIT, MT_SELL_LIMIT, MT_BUY_STOP_LIMIT, MT_SELL_STOP_LIMIT}"

text \<open>The table of permitted filling modes of the MetaTrader contract document (section 7.1, with the order
  modes and policies of 7.2): under request and instant execution every mode of a market order is
  available, otherwise FOK and IOC need their flag; RETURN is for pending orders and for market orders
  outside market execution; BOC is for passive makers, under exchange execution, with its flag and the
  order mode of the order type.\<close>

definition order_mode_allowed :: "mt5_order_type \<Rightarrow> string list \<Rightarrow> bool" where
  "order_mode_allowed ty modes \<longleftrightarrow>
     (ty \<in> {MT_BUY_LIMIT, MT_SELL_LIMIT} \<longrightarrow> ''SYMBOL_ORDER_LIMIT'' \<in> set modes)
     \<and> (ty \<in> {MT_BUY_STOP_LIMIT, MT_SELL_STOP_LIMIT} \<longrightarrow> ''SYMBOL_ORDER_STOP_LIMIT'' \<in> set modes)"

definition matrix_permits ::
    "mt5_execution_mode \<Rightarrow> mt5_order_type \<Rightarrow> mt5_execution_policy \<Rightarrow> string list \<Rightarrow> string list
     \<Rightarrow> mt5_filling_mode \<Rightarrow> bool" where
  "matrix_permits mode ty policy flags modes m \<longleftrightarrow>
     (case m of
        FILLING_FOK \<Rightarrow> market_type ty \<and> policy \<noteq> PASSIVE_MAKER
          \<and> (mode \<in> {EXECUTION_REQUEST, EXECUTION_INSTANT} \<or> ''SYMBOL_FILLING_FOK'' \<in> set flags)
      | FILLING_IOC \<Rightarrow> market_type ty \<and> policy \<noteq> PASSIVE_MAKER
          \<and> (mode \<in> {EXECUTION_REQUEST, EXECUTION_INSTANT} \<or> ''SYMBOL_FILLING_IOC'' \<in> set flags)
      | FILLING_RETURN \<Rightarrow> ty \<noteq> MT_CLOSE_BY \<and> policy \<noteq> PASSIVE_MAKER \<and> \<not> (market_type ty \<and> mode = EXECUTION_MARKET)
      | FILLING_BOC \<Rightarrow> policy = PASSIVE_MAKER \<and> mode = EXECUTION_EXCHANGE \<and> limit_type ty
          \<and> ''SYMBOL_FILLING_BOC'' \<in> set flags \<and> order_mode_allowed ty modes)"

lemma selected_is_permitted:
  "select_mt5_filling_mode mode ty policy flags = Inr m \<Longrightarrow> matrix_permits mode ty policy flags modes m
    \<or> m = FILLING_BOC \<and> \<not> order_mode_allowed ty modes"
  by (auto simp: select_mt5_filling_mode_def matrix_permits_def market_type_def limit_type_def Let_def
      split: if_splits)

lemma permitted_is_selected:
  assumes "matrix_permits mode ty policy flags modes m"
  shows "\<exists>m'. select_mt5_filling_mode mode ty policy flags = Inr m'"
  using assms
  by (cases m) (auto simp: select_mt5_filling_mode_def matrix_permits_def market_type_def limit_type_def Let_def)

text \<open>What a request has to say to be the order of the intent.\<close>

fun order_type_for :: "execution_order_type \<Rightarrow> execution_side \<Rightarrow> mt5_order_type" where
  "order_type_for XO_MARKET XS_BUY = MT_BUY"
| "order_type_for XO_MARKET XS_SELL = MT_SELL"
| "order_type_for XO_LIMIT XS_BUY = MT_BUY_LIMIT"
| "order_type_for XO_LIMIT XS_SELL = MT_SELL_LIMIT"
| "order_type_for XO_STOP_LIMIT XS_BUY = MT_BUY_STOP_LIMIT"
| "order_type_for XO_STOP_LIMIT XS_SELL = MT_SELL_STOP_LIMIT"

definition priced :: "order_intent \<Rightarrow> bool" where
  "priced i \<longleftrightarrow> (oi_order_type i \<noteq> XO_MARKET \<longrightarrow> oi_limit_price i \<noteq> None)
     \<and> (oi_order_type i = XO_STOP_LIMIT \<longrightarrow> oi_stop_price i \<noteq> None)"

definition same_order :: "order_intent \<Rightarrow> symbol_spec \<Rightarrow> mt5_trade_request \<Rightarrow> bool" where
  "same_order i s r \<longleftrightarrow> rq_symbol r = ms_broker_symbol s \<and> rq_type r = order_type_for (oi_order_type i) (oi_side i)
     \<and> rq_volume r = dec_value (oi_quantity i) \<and> 0 < rq_volume r
     \<and> (rq_action r = ACTION_DEAL \<longleftrightarrow> oi_order_type i = XO_MARKET)
     \<and> (rq_action r = ACTION_PENDING \<longleftrightarrow> oi_order_type i \<noteq> XO_MARKET)
     \<and> (oi_order_type i = XO_MARKET \<longrightarrow> rq_price r = 0 \<and> rq_stoplimit r = None)
     \<and> (oi_order_type i = XO_LIMIT \<longrightarrow> 0 < rq_price r
         \<and> map_option dec_value (oi_limit_price i) = Some (rq_price r) \<and> rq_stoplimit r = None)
     \<and> (oi_order_type i = XO_STOP_LIMIT \<longrightarrow> 0 < rq_price r
         \<and> map_option dec_value (oi_stop_price i) = Some (rq_price r)
         \<and> rq_stoplimit r = map_option dec_value (oi_limit_price i))"

text \<open>The terms of an intent, as the code computes them.\<close>

lemma request_terms_table:
  "(\<exists>e. request_terms i = Inl e) \<longleftrightarrow> \<not> priced i"
  "request_terms i = Inr (action, ty, price, stoplimit) \<Longrightarrow> ty = order_type_for (oi_order_type i) (oi_side i)"
  by (cases "oi_order_type i"; cases "oi_side i"; auto simp: request_terms_def priced_def split: option.splits)+

lemma request_terms_same_order:
  assumes "request_terms i = Inr (action, ty, price, stoplimit)" "0 < dec_value (oi_quantity i)"
    and "positive_price f (oi_limit_price i) = Inr a" and "positive_price g (oi_stop_price i) = Inr b"
    and "rq_symbol r = ms_broker_symbol s" "rq_volume r = dec_value (oi_quantity i)"
    and "rq_action r = action" "rq_type r = ty" "rq_price r = price" "rq_stoplimit r = stoplimit"
  shows "same_order i s r \<and> 0 \<le> price \<and> (\<forall>x. stoplimit = Some x \<longrightarrow> 0 < x) \<and> action \<in> {ACTION_DEAL, ACTION_PENDING}"
  using assms
  by (cases "oi_order_type i"; cases "oi_side i";
      auto simp: request_terms_def same_order_def positive_price_def split: option.splits if_splits)

text \<open>C35: A valid intent becomes a request for the same order, filled as the contract's table permits.
  The request names the broker's symbol, has the intent's quantity as its volume and the order type of its
  kind and side (a buy stays a buy), a market order carries no price, a limit order its limit, a stop-limit
  order its stop as the price and its limit as the stop-limit price, all positive; the comment fits.
  The filling mode is one the table permits for this symbol, order type and policy, with one exception: the
  order mode that a maker-only (BOC) order needs is not checked (\<open>boc_without_order_mode\<close>).  And an intent is
  refused only if it lacks a price its kind needs or the table permits no mode.  Which of the
  permitted modes is chosen does not follow the algorithm of the document (\<open>filling_choice_differs\<close>), and
  volume limits, ticks and stop distances of the symbol are not looked at here.\<close>

theorem trade_request_respects_policy:
  assumes "mk_order_intent i0 = Inr i" and "mk_symbol_spec s0 = Inr s" and "0 \<le> magic" and "ticket_ok pos"
  shows "(case map_order_intent_to_trade_request i s policy magic comment pos None of
       Inr r \<Rightarrow> same_order i s r \<and> length (rq_comment r) \<le> 31
         \<and> (matrix_permits (ms_execution_mode s) (rq_type r) policy (ms_filling_flags s) (ms_order_modes s) (rq_filling r)
            \<or> rq_filling r = FILLING_BOC \<and> \<not> order_mode_allowed (rq_type r) (ms_order_modes s))
     | Inl e \<Rightarrow> \<not> priced i \<or> (\<forall>m. \<not> matrix_permits (ms_execution_mode s)
         (order_type_for (oi_order_type i) (oi_side i)) policy (ms_filling_flags s) (ms_order_modes s) m))"
proof -
  have i: "0 < dec_value (oi_quantity i)" "positive_price ''limit_price'' (oi_limit_price i) = Inr (oi_limit_price i)"
    "positive_price ''stop_price'' (oi_stop_price i) = Inr (oi_stop_price i)"
    using assms(1)
    by (auto simp: mk_order_intent_def rbind_Inr_iff positive_field_def positive_price_def
        split: option.splits if_splits)
  have symbol: "ms_broker_symbol s \<noteq> []"
    using assms(2) by (auto simp: mk_symbol_spec_def split: if_splits)
  show ?thesis
  proof (cases "request_terms i")
    case (Inl e)
    then have "\<not> priced i" using request_terms_table(1) by blast
    then show ?thesis using Inl by (simp add: map_order_intent_to_trade_request_def)
  next
    case (Inr terms)
    then obtain action ty price stoplimit where t: "request_terms i = Inr (action, ty, price, stoplimit)"
      by (cases terms) auto
    have ty: "ty = order_type_for (oi_order_type i) (oi_side i)" by (rule request_terms_table(2) [OF t])
    show ?thesis
    proof (cases "select_mt5_filling_mode (ms_execution_mode s) ty policy (ms_filling_flags s)")
      case (Inl e)
      then have "\<forall>m. \<not> matrix_permits (ms_execution_mode s) ty policy (ms_filling_flags s) (ms_order_modes s) m"
        using permitted_is_selected by fastforce
      then show ?thesis using Inl ty by (simp add: map_order_intent_to_trade_request_def t)
    next
      case (Inr m)
      define r where "r = \<lparr>rq_action = action, rq_magic = magic, rq_order = None, rq_symbol = ms_broker_symbol s,
           rq_volume = dec_value (oi_quantity i), rq_price = price, rq_stoplimit = stoplimit,
           rq_sl = 0, rq_tp = 0, rq_deviation = 0, rq_type = ty, rq_filling = m,
           rq_time = (if oi_tif i = DAY then TIME_DAY else TIME_GTC), rq_expiration = None,
           rq_comment = take 31 comment, rq_position = pos, rq_position_by = None\<rparr>"
      have same: "same_order i s r \<and> 0 \<le> price \<and> (\<forall>x. stoplimit = Some x \<longrightarrow> 0 < x)
          \<and> action \<in> {ACTION_DEAL, ACTION_PENDING}"
        by (rule request_terms_same_order [OF t i]) (simp_all add: r_def)
      then have "mk_trade_request r = Inr r"
        using symbol i(1) assms(3,4) by (auto simp: mk_trade_request_def r_def ticket_ok_def split: option.splits)
      then have "map_order_intent_to_trade_request i s policy magic comment pos None = Inr r"
        by (simp add: map_order_intent_to_trade_request_def t Inr r_def)
      moreover have "length (rq_comment r) \<le> 31" "rq_type r = ty" "rq_filling r = m" by (simp_all add: r_def)
      ultimately show ?thesis using same selected_is_permitted [OF Inr, of "ms_order_modes s"] by simp
    qed
  qed
qed

text \<open>The two points on which the selection leaves the document: a maker-only order is sent for a symbol
  that allows no limit orders (nor is its price compared with the quotes), and where several modes are
  permitted the code prefers the flagged FOK, also for a sweep, where the document takes RETURN, or IOC for a
  sweep.\<close>

theorem boc_without_order_mode:
  "select_mt5_filling_mode EXECUTION_EXCHANGE MT_BUY_LIMIT PASSIVE_MAKER [''SYMBOL_FILLING_BOC''] = Inr FILLING_BOC
   \<and> \<not> matrix_permits EXECUTION_EXCHANGE MT_BUY_LIMIT PASSIVE_MAKER [''SYMBOL_FILLING_BOC''] [] FILLING_BOC"
  by (simp add: select_mt5_filling_mode_def matrix_permits_def order_mode_allowed_def)

theorem filling_choice_differs:
  assumes "mode \<in> {EXECUTION_REQUEST, EXECUTION_INSTANT, EXECUTION_EXCHANGE}" "policy \<noteq> PASSIVE_MAKER"
    and "''SYMBOL_FILLING_FOK'' \<in> set flags"
  shows "select_mt5_filling_mode mode MT_BUY policy flags = Inr FILLING_FOK"
  using assms by (auto simp: select_mt5_filling_mode_def)

text \<open>A return code is never a fill by itself: FILLED needs the code DONE, a deal ticket and a confirmation
  from the deal history; every supported code is classified and every other one is refused.\<close>

lemma supported_split: "set supported_mt5_retcodes = insert 10007 (insert 10008 (insert 10009 (insert 10010 (set reject_retcodes))))"
  by (auto simp: supported_mt5_retcodes_def reject_retcodes_def)

theorem fill_needs_confirmed_deal:
  "(classify_trade_result_observation r confirmed = Inr BK_FILLED \<longleftrightarrow>
      tr_retcode r = 10009 \<and> 0 < tr_deal r \<and> confirmed) \<and>
   ((\<exists>k. classify_trade_result_observation r confirmed = Inr k) \<longleftrightarrow> tr_retcode r \<in> set supported_mt5_retcodes)"
  by (auto simp: classify_trade_result_observation_def supported_split Let_def)

text \<open>The time in force of an intent is read only to tell DAY from the rest: a limit order meant to be
  filled at once or cancelled is sent to rest in the book until cancelled.\<close>

theorem immediate_limit_orders_rest:
  assumes "oi_order_type i = XO_LIMIT" and "oi_tif i = IOC \<or> oi_tif i = FOK"
    and "map_order_intent_to_trade_request i s POLICY_DEFAULT magic comment pos None = Inr r"
  shows "rq_action r = ACTION_PENDING \<and> rq_time r = TIME_GTC \<and> rq_filling r = FILLING_RETURN"
  using assms
  by (auto simp: map_order_intent_to_trade_request_def request_terms_def rbind_Inr_iff mk_trade_request_def
      select_mt5_filling_mode_def split: option.splits if_splits execution_side.splits)

definition passive_intent :: order_intent where
  "passive_intent =
     \<lparr>oi_intent_id = ''I1'', oi_authorization_id = ''A1'', oi_strategy_id = ''S1'', oi_venue = ''MT5'',
      oi_symbol = ''EURUSD'', oi_side = XS_BUY, oi_order_type = XO_LIMIT, oi_tif = GTC,
      oi_quantity = \<lparr>dc_negative = False, dc_coeff = 2, dc_exp = 0\<rparr>,
      oi_limit_price = Some \<lparr>dc_negative = False, dc_coeff = 11, dc_exp = - 1\<rparr>, oi_stop_price = None,
      oi_created_at = 0, oi_signal_hash = replicate 64 CHR ''0'', oi_risk_hash = replicate 64 CHR ''0'',
      oi_digest = replicate 64 CHR ''0''\<rparr>"

definition maker_spec :: symbol_spec where
  "maker_spec = sample_spec\<lparr>ms_order_modes := [''SYMBOL_ORDER_LIMIT'']\<rparr>"

lemma trade_request_respects_policy_witness:
  "\<exists>r. map_order_intent_to_trade_request passive_intent maker_spec PASSIVE_MAKER 7 ''c'' None None = Inr r \<and>
     same_order passive_intent maker_spec r \<and> rq_type r = MT_BUY_LIMIT \<and> rq_filling r = FILLING_BOC"
proof -
  have sha: "valid_sha256 (replicate 64 CHR ''0'')" "valid_sha256 (replicate 64 CHR ''a'')"
    by code_simp+
  have i: "mk_order_intent passive_intent = Inr passive_intent"
    by (simp add: mk_order_intent_def passive_intent_def non_blank_def positive_field_def positive_price_def
        sha256_field_def dec_value_def pow10_def sha string_eval)
  have s: "mk_symbol_spec maker_spec = Inr maker_spec"
    by (simp add: mk_symbol_spec_def maker_spec_def sample_spec_def dec_value_def pow10_def sha)
  have p: "priced passive_intent" "order_type_for (oi_order_type passive_intent) (oi_side passive_intent) = MT_BUY_LIMIT"
    by (simp_all add: priced_def passive_intent_def)
  have boc: "matrix_permits (ms_execution_mode maker_spec) MT_BUY_LIMIT PASSIVE_MAKER (ms_filling_flags maker_spec)
      (ms_order_modes maker_spec) m \<longleftrightarrow> m = FILLING_BOC" for m
    by (cases m) (simp_all add: matrix_permits_def maker_spec_def sample_spec_def limit_type_def order_mode_allowed_def)
  from trade_request_respects_policy [OF i s, of 7 None PASSIVE_MAKER "''c''"] show ?thesis
    by (auto simp: p boc ticket_ok_def same_order_def split: sum.splits)
qed

end
