(* ===== verification/Spec2Isabelle.thy ===== *)
theory Spec2Isabelle
  imports MockBroker Emergency OpLedger OrderAdmission Supervisor Telemetry BookBinary
    RegulatoryFees PpdsReconcile PpdsRegistry ShadowConservation Mt5Mapping
begin

text \<open>
  Acash is a trading system in Python, under \<open>src/src/acash/\<close>.  This development models the part of it
  that decides: which orders exist and in which state, what a fill does to the accounts, when trading must
  stop and who may start it again, what is written to the ledgers and what their digests prove, how a
  rebalance cycle runs, how a running strategy is judged, and how an order book is rebuilt from a feed.

  How the parts interact.  A rebalance cycle (\<open>runtime/supervisor.py\<close>) is started by the scheduler, takes a
  candidate allocation from a tournament, has it judged and scaled down by the risk engine
  (\<open>risk/risk_engine.py\<close>), asks the kill switch (\<open>risk/kill_switch.py\<close>), hands the result to an admission
  hook and records the cycle in the operational ledger (\<open>runtime/ledger.py\<close>).  Orders pass the admission
  gates (\<open>execution/admission.py\<close>), which verify certificates and approvals through the trust store
  (\<open>execution/crypto.py\<close>) and consult the restriction authority
  (\<open>execution/operational_restriction.py\<close>).  A submitted order lives in the broker (\<open>mock_broker.py\<close>) and
  as a shadow in the coordinator (\<open>coordinator.py\<close>), which moves only along the transition table of
  \<open>state_machine.py\<close>.  Fills change positions and portfolio (\<open>core/domain/\<close>).  A blocked kill switch
  yields a flatten intent (\<open>risk/emergency.py\<close>).  Observations of running strategies go through
  \<open>monitoring/ingestion.py\<close> to the health state machine.  Market depth comes from the tables of
  \<open>data/orderbook/\<close>.  Beside the trading path, \<open>ppds/\<close> reconciles and values the statements of accounts.

  Theories, in the order of their imports (source files under \<open>src/src/acash/\<close>).

    Prelude: results of code that raises (\<open>rbind\<close>, \<open>raise_if\<close>), Python dictionaries as association lists
    in insertion order, \<open>strip\<close> and \<open>upper\<close>.  PyDecimal: \<open>decimal.Decimal\<close> as a rational rounded to 28
    digits after each operation.  DecimalText: decimal objects with sign, coefficient and exponent, and
    their \<open>str\<close>.  Float64: the rounding of a rational to binary64.  Json: \<open>json.dumps\<close> in canonical form.
    PyTime: UTC timestamps in microseconds and \<open>isoformat\<close>.

    Domain, Portfolio: \<open>core/domain/\<close>.  Records with the \<open>mk_\<close> functions of their validators; fills,
    cash, marking to market (\<open>transitions.py\<close>).

    Serialization: \<open>core/serialization.py\<close>.  HashChain: what the three chained ledgers share.

    OrderLifecycle: \<open>execution/state_machine.py\<close>.  Restriction: \<open>operational_restriction.py\<close>.
    Coordinator: \<open>coordinator.py\<close>.  BrokerEvents: \<open>broker_events.py\<close>.  MockBroker: \<open>mock_broker.py\<close> and
    \<open>broker_adapter.py\<close>.  Crypto: \<open>crypto.py\<close>.  Governance: the certificates and authorizations of
    \<open>execution/schema.py\<close>.  Admission, OrderAdmission: \<open>admission.py\<close>.

    Mt5Sizing, Mt5Mapping: \<open>execution/mt5/\<close> (\<open>normalizer.py\<close>; \<open>mapping.py\<close> with the enums and request
    schemas): how an intent becomes a request to the terminal.

    RiskSchema, RiskEngine, KillSwitch, Emergency: \<open>risk/\<close>.

    OpLedger, Scheduler, Supervisor: \<open>runtime/\<close> (ledger, scheduler, supervisor and daemon) with
    \<open>risk/bridge.py\<close>.

    ForwardHealth, Telemetry: \<open>monitoring/\<close>.

    OrderKey, OrderBook, BookBinary: \<open>data/orderbook/\<close> (order keys, validators and reconstructors, binary
    rows and digests).

    ShadowLedger, ShadowConservation: \<open>backtest/accounting.py\<close>, a second book of the fills of a back-test,
    compared with the domain portfolio and followed through its rounding (Rounding: how far a computation in
    the decimal context drifts from exact arithmetic).

    RegulatoryFees: \<open>execution/regulatory_fees.py\<close>.  PpdsLedger, PpdsReconcile, PpdsExposure, PpdsRegistry:
    \<open>ppds/\<close>, the read-only book-keeping of account statements (lots and chained ledger, reconciliation with
    a statement, valuation, and the registry of accounts with consolidation and internal transfers).

  Conventions.  A class is a \<open>record\<close>, an enum a \<open>datatype\<close> with a function for its value, a constructor
  with validators a function \<open>mk_<class>\<close> into a sum whose left side names the exception and the failing
  check, in the order in which the code checks.  A method that changes its object returns the changed
  object, also beside an exception where the change comes first.  A method that holds a lock for its whole
  body is one step, so an interleaving of threads is a sequence of calls.

  What the lemmas show.
    Accounts: a fill nets the position and realizes profit as the scenario demands, cash and aggregates stay
    consistent; the shadow ledger computes the same numbers, and its conservation check raises only for a
    booking error (limits: 6,000 steps, 100 positions, amounts up to \<open>10 ^ 12\<close>).  Orders: the transition function is exactly the documented table; a terminal outcome has a
    cause; over every sequence of broker operations the coordinator's shadow stays equal to the broker's order or an
    incident is open, and none is when no fill races a pending cancel; redelivered messages have no effect.  Authority: an order is admitted only under a live quorum, for a listed symbol and
    within the position size (the other granted limits are not read at admission); a restriction
    stays open until an authorised clear; verification accepts exactly what the trust store resolves.
    Terminal orders: volumes and prices stay on the broker's grid and limits, requests carry the
    intent's side, prices and quantity and a filling mode of the documented matrix (up to the order mode a
    maker-only order needs), and no return code is a fill by itself.
    Risk: approved weights meet the limits, reduced ones up to rounding; every closed gate means cash.
    Kill switch: blocked until a quorum, across restarts; its ledger recovers the state, and the digest of
    the last event determines the history as far back as the file reaches.  Runtime: distinct cycle identities (for trimmed ids), no admission past a closed
    gate, one record for every pulse that is not refused, a ledger that reopens to what was written.  Monitoring: hysteresis
    with its exact thresholds, recovery in bounded time, gapless streams.  Order book: keys order by time,
    deltas refine a contract by price, replay in key order, ladders show the best levels, time priority
    pinned by a contract on each queue, and digests that determine the tables up to the microsecond.  Fees and statements: one fee segment per date and exact fees,
    reconciliations that list exactly the differences, explanations that rest on evidence used once, an
    independence verdict that identifies the attested ledger among those built by posting, nets within grosses, accounts that never share
    an identity, transfers that conserve what they move.  Text: canonical JSON, ISO times, decimal texts and binary rows
    can be read back.
    Several lemmas show where the code falls short of its documentation, for example
    \<open>approvals_can_be_replayed\<close>, \<open>forged_last_line_unblocks\<close>, \<open>break_ends_with_an_outage\<close>,
    \<open>unsynced_supervisor_locks\<close>, \<open>reading_makes_crossing_persistent\<close>,
    \<open>front_truncation_accepted\<close>, \<open>lots_behind_the_head_unchecked\<close>.

  Interfaces.  \<open>keyed_store\<close> (dictionaries; interpreted as \<open>dict\<close> on the association lists),
  \<open>absorbing_machine\<close> (state machines with terminal states; \<open>lifecycle\<close> on the order transition),
  \<open>monotone_rounding\<close> (\<open>dec_ctx\<close> on the decimal context), \<open>hash_chain\<close> (\<open>ks_chain\<close>, \<open>op_chain\<close> and
  \<open>ppds_chain\<close> on the three ledgers), \<open>field_code\<close> (encodings whose end can be found; interpreted on every column encoding and on
  the rows of both tables), \<open>dated_schedule\<close> (lookups by date; \<open>sec31\<close> and \<open>taf\<close> on the two fee schedules).

  Parameters.  \<open>sha\<close> is SHA-256 with its hexadecimal text; statements that need it to separate two texts say
  so.  \<open>ed\<close> is the Ed25519 check of the \<open>cryptography\<close> package.  The clear policy, the tournament and the
  admission hook are callbacks.  The record \<open>renderings\<close> and the digests of portfolio and account stand for
  texts that hash \<open>str\<close> of computed decimals.  The clock is an argument.

  Bounds.  Decimal arithmetic has 28 digits; its exponent limits are not reached by amounts and are left
  out.  Where times go through doubles (event identifiers, order keys) statements hold for times below
  \<open>2 ^ 32\<close> seconds; the scheduler's drift tolerance is below \<open>2 ^ 32\<close> seconds.  No model uses
  fuel: every loop of the modelled code runs over a list, the harness over its number of pulses.
  Characters are code points below 256.

  Not modelled, and why.  Code whose meaning lies in packages outside the repository: pandas, numpy, scipy
  and pyarrow computations (features, statistics, portfolio optimizers, back-test engines, storage), network and
  terminal adapters (Alpaca, the MetaTrader 5 transport and its reconciliation, data sources), YAML and settings, file layout and campaign scripts
  (research, qualification, Gate B, paper sessions, reports).  Of modelled files: metrics that take decimal
  square roots, attribution records, float adapters of legacy interfaces, the loops that sleep and
  install signal handlers, failures of the file system, the column checks of pyarrow tables, the reading of
  CSV text and the layout of text reports.
\<close>

end
